(* ===== verification/Prelude.thy ===== *)
theory Prelude
  imports Main "HOL-Library.Word"
begin

text \<open>
  Shared vocabulary of the development: the fallible-computation combinators with which
  every throwing function of the SDK is written (\<open>rbind\<close> sequences, \<open>rtraverse\<close> maps a
  fallible function over an array, \<open>ensure\<close> is an \<open>if (...) throw\<close>), their algebra, and the
  two interface contracts of encoders and decoders.  A computation that throws \<open>e\<close> is
  \<open>Inl e\<close>, one that returns \<open>x\<close> is \<open>Inr x\<close>.
\<close>

named_theorems decode_intros \<open>facts that drive a decoder forward on well-formed input\<close>
named_theorems decode_dests \<open>facts that read well-formedness off a successful decode\<close>

section \<open>Fallible computations\<close>

fun rbind :: "'e + 'a \<Rightarrow> ('a \<Rightarrow> 'e + 'b) \<Rightarrow> 'e + 'b" where
  "rbind (Inl e) f = Inl e"
| "rbind (Inr x) f = f x"

definition ensure :: "bool \<Rightarrow> 'e \<Rightarrow> 'e + unit" where
  "ensure b e = (if b then Inr () else Inl e)"

fun rtraverse :: "('a \<Rightarrow> 'e + 'b) \<Rightarrow> 'a list \<Rightarrow> 'e + 'b list" where
  "rtraverse f [] = Inr []"
| "rtraverse f (x # xs) = rbind (f x) (\<lambda>y. rbind (rtraverse f xs) (\<lambda>ys. Inr (y # ys)))"

definition succeeds :: "'e + 'a \<Rightarrow> bool" where
  "succeeds r = (case r of Inl _ \<Rightarrow> False | Inr _ \<Rightarrow> True)"

lemma succeeds_simps [simp]: "succeeds (Inr x)" "\<not> succeeds (Inl e)"
  by (simp_all add: succeeds_def)

lemma rbind_eq_Inr: "rbind m f = Inr y \<longleftrightarrow> (\<exists>x. m = Inr x \<and> f x = Inr y)"
  by (cases m) auto

lemma rbind_eq_Inl: "rbind m f = Inl e \<longleftrightarrow> m = Inl e \<or> (\<exists>x. m = Inr x \<and> f x = Inl e)"
  by (cases m) auto

lemma rbind_InrE [elim!]:
  assumes "rbind m f = Inr y"
  obtains x where "m = Inr x" and "f x = Inr y"
  using assms by (auto simp: rbind_eq_Inr)

lemma rbind_assoc: "rbind (rbind m f) g = rbind m (\<lambda>x. rbind (f x) g)"
  by (cases m) auto

lemma rbind_Inr_right [simp]: "rbind m Inr = m"
  by (cases m) simp_all

lemma if_InrE:
  assumes "(if c then a else b) = Inr y"
  obtains "c" "a = Inr y" | "\<not> c" "b = Inr y"
  using assms by (auto split: if_splits)

lemma ensure_Inr [simp]: "ensure b e = Inr u \<longleftrightarrow> b"
  by (simp add: ensure_def)

lemma ensure_Inl [simp]: "ensure b e = Inl e' \<longleftrightarrow> \<not> b \<and> e = e'"
  by (simp add: ensure_def)

lemma ensure_True [simp]: "ensure True e = Inr ()"
  by (simp add: ensure_def)

lemma ensure_False [simp]: "ensure False e = Inl e"
  by (simp add: ensure_def)

lemma rtraverse_append:
  "rtraverse f (xs @ ys) =
     rbind (rtraverse f xs) (\<lambda>as. rbind (rtraverse f ys) (\<lambda>bs. Inr (as @ bs)))"
  by (induction xs) (auto simp: rbind_assoc)

lemma rtraverse_length: "rtraverse f xs = Inr ys \<Longrightarrow> length ys = length xs"
  by (induction xs arbitrary: ys) auto

lemma rtraverse_map: "rtraverse f (map g xs) = rtraverse (f \<circ> g) xs"
  by (induction xs) auto

lemma rtraverse_all_Inr: "(\<And>x. x \<in> set xs \<Longrightarrow> f x = Inr (g x)) \<Longrightarrow> rtraverse f xs = Inr (map g xs)"
  by (induction xs) auto

lemma rtraverse_Inr_set:
  assumes "rtraverse f xs = Inr ys" and "\<And>x y. x \<in> set xs \<Longrightarrow> f x = Inr y \<Longrightarrow> P y"
  shows "\<forall>y \<in> set ys. P y"
  using assms
proof (induction xs arbitrary: ys)
  case Nil
  then show ?case by simp
next
  case (Cons x xs)
  from Cons.prems(1) obtain z zs where z: "f x = Inr z" "rtraverse f xs = Inr zs" "ys = z # zs"
    by auto
  have "\<forall>y \<in> set zs. P y"
    by (rule Cons.IH [OF z(2)]) (use Cons.prems(2) in auto)
  moreover have "P z" by (rule Cons.prems(2) [OF _ z(1)]) simp
  ultimately show ?case using z(3) by simp
qed

lemma rtraverse_error_member:
  "rtraverse f xs = Inl e \<Longrightarrow> \<exists>x \<in> set xs. f x = Inl e"
  by (induction xs) (auto simp: rbind_eq_Inl)

fun option_all :: "('a \<Rightarrow> bool) \<Rightarrow> 'a option \<Rightarrow> bool" where
  "option_all P None = True"
| "option_all P (Some x) = P x"

section \<open>Interface: encoders and decoders\<close>

text \<open>
  The contract between a \<open>raw...\<close> encoder and its \<open>normalize...\<close> decoder: on the well-formed
  values the encoder returns and the decoder inverts it.  \<open>strict_codec\<close> adds that whatever
  the decoder returns is well formed, so that encoding after decoding cannot fail either.
\<close>

locale codec =
  fixes enc :: "'a \<Rightarrow> 'e + 'v" and dec :: "'v \<Rightarrow> 'e + 'a" and wf :: "'a \<Rightarrow> bool"
  assumes enc_total: "wf x \<Longrightarrow> \<exists>v. enc x = Inr v"
    and roundtrip: "wf x \<Longrightarrow> enc x = Inr v \<Longrightarrow> dec v = Inr x"
begin

lemma enc_obtain:
  assumes "wf x"
  obtains v where "enc x = Inr v" and "dec v = Inr x"
  using enc_total [OF assms] roundtrip [OF assms] by blast

lemma enc_dec:
  assumes "wf x"
  shows "rbind (enc x) dec = Inr x"
  by (rule enc_obtain [OF assms]) simp

lemma enc_injective:
  assumes "wf x" and "wf y" and "enc x = enc y"
  shows "x = y"
proof -
  obtain v where "enc x = Inr v" "dec v = Inr x" by (rule enc_obtain [OF assms(1)])
  with assms(3) roundtrip [OF assms(2), of v] show ?thesis by simp
qed

lemma list_roundtrip: "\<forall>x \<in> set xs. wf x \<Longrightarrow> rbind (rtraverse enc xs) (rtraverse dec) = Inr xs"
proof (induction xs)
  case Nil
  then show ?case by simp
next
  case (Cons x xs)
  then have "wf x" by simp
  then obtain v where v: "enc x = Inr v" "dec v = Inr x" by (rule enc_obtain)
  from Cons have "rbind (rtraverse enc xs) (rtraverse dec) = Inr xs" by simp
  then obtain vs where "rtraverse enc xs = Inr vs" "rtraverse dec vs = Inr xs" by (rule rbind_InrE)
  with v show ?case by simp
qed

end

locale strict_codec = codec +
  assumes dec_wf: "dec v = Inr x \<Longrightarrow> wf x"
begin

lemma reencode: "dec v = Inr x \<Longrightarrow> \<exists>w. enc x = Inr w \<and> dec w = Inr x"
  using enc_obtain [OF dec_wf] by metis

lemma decode_idempotent: "dec v = Inr x \<Longrightarrow> rbind (enc x) dec = Inr x"
  using dec_wf enc_dec by blast

end

end
