(* ===== verification/JsValue.thy ===== *)
theory JsValue
  imports Prelude
begin

text \<open>
  The values of the host language that reach the SDK as \<open>unknown\<close>: what the WebAssembly
  bridge returns, what IndexedDB hands back, what a rejected promise carries.  Values are
  finite trees; strings are sequences of 16-bit code units; a number is either an integral
  double (\<open>JInt\<close>) or one that is not (\<open>JNonInt\<close>: NaN, an infinity, a fraction); negative
  zero is identified with zero.  \<open>Fraction m k\<close> is \<open>m / 2 ^ k\<close>, \<open>Infinite True\<close> is positive.  Arrays have no holes.  A \<open>Uint8Array\<close> is \<open>JBytes\<close>.
\<close>

type_synonym jsstring = "16 word list"
type_synonym bytes = "8 word list"

datatype non_integral =
    Not_a_number
  | Infinite bool
  | Fraction int nat

datatype jsnum = JInt int | JNonInt non_integral

datatype jsval =
    JUndefined
  | JNull
  | JBool bool
  | JNumber jsnum
  | JBigInt int
  | JString jsstring
  | JArray "jsval list"
  | JBytes bytes
  | JObject "(string \<times> jsval) list"
  | JFunction

text \<open>String literals of the source, as code units.\<close>

definition js :: "string \<Rightarrow> jsstring" where
  "js = map (\<lambda>c. word_of_nat (of_char c))"

lemma of_char_word_inj [simp]:
  "(word_of_nat (of_char c) :: 16 word) = word_of_nat (of_char d) \<longleftrightarrow> c = d"
proof -
  have "of_char c < (256 :: nat)" and "of_char d < (256 :: nat)"
    using of_char_mod_256 [of c, where 'a = nat] of_char_mod_256 [of d, where 'a = nat]
    by (metis mod_less_divisor zero_less_numeral)+
  then have "of_char c mod (65536 :: nat) = of_char c" and "of_char d mod (65536 :: nat) = of_char d"
    by (simp_all only: mod_less less_trans [of _ 256])
  then have "unat (word_of_nat (of_char c) :: 16 word) = of_char c"
    and "unat (word_of_nat (of_char d) :: 16 word) = of_char d"
    by (simp_all add: unat_of_nat)
  then show ?thesis
    by (metis of_char_eq_iff)
qed

lemma js_inj: "inj js"
  unfolding js_def by (intro injI) (simp add: inj_map_eq_map inj_def)

lemma js_eq [simp]: "js s = js t \<longleftrightarrow> s = t"
  using js_inj by (auto simp: inj_def)

lemma js_Nil [simp]: "js [] = []"
  by (simp add: js_def)

lemma js_eq_Nil [simp]: "js s = [] \<longleftrightarrow> s = []"
  by (simp add: js_def)

section \<open>Property access\<close>

text \<open>
  \<open>js_get v k\<close> is \<open>v.k\<close> and \<open>js_has v k\<close> is \<open>'k' in v\<close>, for the field names the SDK
  reads, none of which an array, a typed array or \<open>Object.prototype\<close> has.
\<close>

fun js_get :: "jsval \<Rightarrow> string \<Rightarrow> jsval" where
  "js_get (JObject fs) k = (case map_of fs k of None \<Rightarrow> JUndefined | Some v \<Rightarrow> v)"
| "js_get _ k = JUndefined"

fun js_has :: "jsval \<Rightarrow> string \<Rightarrow> bool" where
  "js_has (JObject fs) k = (map_of fs k \<noteq> None)"
| "js_has _ k = False"

definition js_object :: "jsval \<Rightarrow> bool" where
  "js_object v = (case v of JObject _ \<Rightarrow> True | JArray _ \<Rightarrow> True | JBytes _ \<Rightarrow> True | JNull \<Rightarrow> True | _ \<Rightarrow> False)"

text \<open>
  \<open>table[key]\<close> on an object literal used as a lookup table.  A key the table lacks is
  looked up in \<open>Object.prototype\<close>, whose members are truthy and belong to no declared
  union; \<open>inh\<close> wraps the name of the member that was read.
\<close>

definition object_prototype_members :: "string list" where
  "object_prototype_members =
     [''constructor'', ''__defineGetter__'', ''__defineSetter__'', ''hasOwnProperty'',
      ''__lookupGetter__'', ''__lookupSetter__'', ''isPrototypeOf'', ''propertyIsEnumerable'',
      ''toString'', ''valueOf'', ''__proto__'', ''toLocaleString'']"

definition inherited_member :: "jsstring \<Rightarrow> string option" where
  "inherited_member key = find (\<lambda>n. js n = key) object_prototype_members"

definition table_lookup :: "(string \<times> 'a) list \<Rightarrow> (string \<Rightarrow> 'a) \<Rightarrow> jsstring \<Rightarrow> 'a option" where
  "table_lookup tbl inh key =
     (case find (\<lambda>(k, _). js k = key) tbl of
        Some (_, x) \<Rightarrow> Some x
      | None \<Rightarrow> map_option inh (inherited_member key))"

lemma inherited_member_js:
  "inherited_member (js s) = (if s \<in> set object_prototype_members then Some s else None)"
proof -
  have "find (\<lambda>n. n = s) xs = (if s \<in> set xs then Some s else None)" for xs :: "string list"
    by (induction xs) auto
  then show ?thesis by (simp add: inherited_member_def)
qed

lemma table_lookup_js:
  "table_lookup tbl inh (js s) =
     (case map_of tbl s of Some x \<Rightarrow> Some x | None \<Rightarrow> map_option inh (inherited_member (js s)))"
proof -
  have "map_option snd (find (\<lambda>(k, _). k = s) tbl) = map_of tbl s"
    by (induction tbl) auto
  then show ?thesis
    unfolding table_lookup_def by (auto split: option.splits prod.splits)
qed

section \<open>Numbers\<close>

definition max_safe_integer :: int where
  "max_safe_integer = 9007199254740991"

text \<open>\<open>Number.isSafeInteger\<close>.\<close>

fun is_safe_integer :: "jsval \<Rightarrow> bool" where
  "is_safe_integer (JNumber (JInt n)) = (\<bar>n\<bar> \<le> max_safe_integer)"
| "is_safe_integer _ = False"

section \<open>UTF-16\<close>

text \<open>
  \<open>isWellFormedUtf16\<close>: every lead surrogate is followed by a trail surrogate and no trail
  surrogate stands alone.  Reading past the end gives NaN in the source, for which both
  comparisons fail.
\<close>

definition lead_surrogate :: "16 word \<Rightarrow> bool" where
  "lead_surrogate u \<longleftrightarrow> 0xd800 \<le> u \<and> u \<le> 0xdbff"

definition trail_surrogate :: "16 word \<Rightarrow> bool" where
  "trail_surrogate u \<longleftrightarrow> 0xdc00 \<le> u \<and> u \<le> 0xdfff"

fun isWellFormedUtf16 :: "jsstring \<Rightarrow> bool" where
  "isWellFormedUtf16 [] = True"
| "isWellFormedUtf16 [u] = (\<not> lead_surrogate u \<and> \<not> trail_surrogate u)"
| "isWellFormedUtf16 (u # next # us) =
     (if lead_surrogate u then trail_surrogate next \<and> isWellFormedUtf16 us
      else \<not> trail_surrogate u \<and> isWellFormedUtf16 (next # us))"

end
