(* ===== verification/SdkErrors.thy ===== *)
theory SdkErrors
  imports JsValue
begin

text \<open>
  The errors of the web SDK (\<^verbatim>\<open>frameworks/web/src/errors.ts\<close>, with the error classes of
  \<^verbatim>\<open>transport.ts\<close> and \<^verbatim>\<open>indexedDbWorkflowStore.ts\<close>): the code and operation unions, the
  lookup tables between the core's and the SDK's codes, and the two normalisers that turn
  whatever was thrown into a typed error.  The tables are plain object literals, so a key
  they lack is read from \<open>Object.prototype\<close>; the \<open>..._inherited\<close> constructors stand for what
  such a read returns, which is no member of the declared union.
\<close>

section \<open>Unions and error classes\<close>

datatype bota_code =
    Sdk_unsupported_browser | Sdk_invalid_input | Sdk_picker_cancelled
    | Sdk_bluetooth_unavailable | Sdk_permission_denied | Sdk_operation_in_progress
    | Sdk_connection_failed | Sdk_identity_mismatch | Sdk_device_disconnected
    | Sdk_protocol_error | Sdk_cancelled | Sdk_internal_error | Sdk_unsupported_capability
    | Sdk_picker_required | Sdk_storage_unavailable | Sdk_storage_quota_exceeded
    | Sdk_authorization_expired | Sdk_resume_rejected | Sdk_reconciliation_required
    | Sdk_integrity_failed | Sdk_upload_failed | Sdk_firmware_rejected
    | Sdk_inherited string

datatype bota_operation =
    Op_initialize | Op_connect | Op_reconnect | Op_disconnect | Op_read_snapshot | Op_provision
    | Op_deprovision | Op_settings | Op_wifi | Op_recording_control | Op_transfer_recording
    | Op_upload | Op_update_firmware | Op_read_device_logs | Op_clear_persisted_data
    | Op_unknown | Op_inherited string

datatype bridge_code =
    Br_invalid_input | Br_truncated_packet | Br_unknown_packet | Br_payload_too_large
    | Br_unsupported_capability | Br_unsupported_operation | Br_feature_unavailable
    | Br_operation_in_progress | Br_unexpected_event | Br_device_not_found
    | Br_identity_mismatch | Br_connection_failed | Br_persistence_failed | Br_not_connected
    | Br_timeout | Br_cancelled | Br_protocol_rejected | Br_integrity_failed
    | Br_upload_ownership_unknown | Br_download_failed | Br_internal | Br_inherited string

datatype core_operation =
    Core_validate | Core_decode | Core_encode | Core_discover | Core_connect | Core_reconnect
    | Core_provision | Core_transfer_recording | Core_upload | Core_update_firmware
    | Core_read_device_logs | Core_factory_reset | Core_unknown | Core_inherited string

record bota_error =
  err_code :: bota_code
  err_operation :: bota_operation
  err_retryable :: bool
  err_protocolStatus :: "jsnum option"

record bridge_error =
  bridge_err_code :: bridge_code
  bridge_err_operation :: core_operation
  bridge_err_retryable :: bool
  bridge_err_protocolStatus :: "jsnum option"

datatype storage_code =
    St_invalid_input | St_storage_unavailable | St_storage_quota_exceeded | St_resume_rejected

datatype transport_code =
    Tr_characteristic_not_found | Tr_disconnected | Tr_permission_denied | Tr_picker_cancelled
    | Tr_unavailable

text \<open>\<open>new BotaSDKError(code, operation, options)\<close> with its defaults.\<close>

definition BotaSDKError :: "bota_code \<Rightarrow> bota_operation \<Rightarrow> bota_error" where
  "BotaSDKError code operation =
     \<lparr>err_code = code, err_operation = operation, err_retryable = False, err_protocolStatus = None\<rparr>"

primrec message :: "bota_code \<Rightarrow> string option" where
  "message Sdk_unsupported_browser = Some ''Bluetooth is not supported by this browser.''"
| "message Sdk_invalid_input = Some ''The operation contains invalid input.''"
| "message Sdk_picker_cancelled = Some ''Device selection was cancelled.''"
| "message Sdk_bluetooth_unavailable = Some ''Bluetooth is unavailable.''"
| "message Sdk_permission_denied = Some ''Bluetooth permission was denied.''"
| "message Sdk_operation_in_progress = Some ''Another device operation is already in progress.''"
| "message Sdk_connection_failed = Some ''The device connection failed.''"
| "message Sdk_identity_mismatch = Some ''The selected device does not match this device record.''"
| "message Sdk_device_disconnected = Some ''The device is disconnected.''"
| "message Sdk_protocol_error = Some ''The device returned invalid protocol data.''"
| "message Sdk_cancelled = Some ''The operation was cancelled.''"
| "message Sdk_internal_error = Some ''The SDK could not complete the operation.''"
| "message Sdk_unsupported_capability = Some ''This browser or device does not support the operation.''"
| "message Sdk_picker_required = Some ''Select the device again to continue.''"
| "message Sdk_storage_unavailable = Some ''Durable browser storage is unavailable.''"
| "message Sdk_storage_quota_exceeded = Some ''Durable browser storage quota was exceeded.''"
| "message Sdk_authorization_expired = Some ''The operation authorization has expired.''"
| "message Sdk_resume_rejected = Some ''The saved operation cannot be resumed.''"
| "message Sdk_reconciliation_required = Some ''The operation requires exact-state reconciliation.''"
| "message Sdk_integrity_failed = Some ''The operation failed an integrity check.''"
| "message Sdk_upload_failed = Some ''The upload could not be completed.''"
| "message Sdk_firmware_rejected = Some ''The device rejected the firmware update.''"
| "message (Sdk_inherited k) = None"

text \<open>What a \<open>catch (error)\<close> may hold: an instance of one of the SDK's classes or any value.\<close>

datatype js_error =
    SdkErr bota_error
  | BridgeErr bridge_error
  | StorageErr storage_code
  | TransportErr transport_code
  | Thrown jsval

section \<open>The tables\<close>

definition PRIVATE_CORE_CODES :: "(string \<times> bridge_code) list" where
  "PRIVATE_CORE_CODES =
     [(''InvalidInput'', Br_invalid_input), (''invalid_input'', Br_invalid_input),
      (''TruncatedPacket'', Br_truncated_packet),
      (''truncated_packet'', Br_truncated_packet),
      (''UnknownPacket'', Br_unknown_packet), (''unknown_packet'', Br_unknown_packet),
      (''PayloadTooLarge'', Br_payload_too_large),
      (''payload_too_large'', Br_payload_too_large),
      (''UnsupportedCapability'', Br_unsupported_capability),
      (''unsupported_capability'', Br_unsupported_capability),
      (''UnsupportedOperation'', Br_unsupported_operation),
      (''unsupported_operation'', Br_unsupported_operation),
      (''FeatureUnavailable'', Br_feature_unavailable),
      (''feature_unavailable'', Br_feature_unavailable),
      (''OperationInProgress'', Br_operation_in_progress),
      (''operation_in_progress'', Br_operation_in_progress),
      (''UnexpectedEvent'', Br_unexpected_event),
      (''unexpected_event'', Br_unexpected_event),
      (''DeviceNotFound'', Br_device_not_found),
      (''device_not_found'', Br_device_not_found),
      (''IdentityMismatch'', Br_identity_mismatch),
      (''identity_mismatch'', Br_identity_mismatch),
      (''ConnectionFailed'', Br_connection_failed),
      (''connection_failed'', Br_connection_failed),
      (''PersistenceFailed'', Br_persistence_failed),
      (''persistence_failed'', Br_persistence_failed),
      (''NotConnected'', Br_not_connected), (''not_connected'', Br_not_connected),
      (''Timeout'', Br_timeout), (''timeout'', Br_timeout),
      (''Cancelled'', Br_cancelled), (''cancelled'', Br_cancelled),
      (''ProtocolRejected'', Br_protocol_rejected),
      (''protocol_rejected'', Br_protocol_rejected),
      (''IntegrityFailed'', Br_integrity_failed),
      (''integrity_failed'', Br_integrity_failed),
      (''UploadOwnershipUnknown'', Br_upload_ownership_unknown),
      (''upload_ownership_unknown'', Br_upload_ownership_unknown),
      (''DownloadFailed'', Br_download_failed),
      (''download_failed'', Br_download_failed), (''Internal'', Br_internal),
      (''internal'', Br_internal)]"

definition PRIVATE_CORE_OPERATIONS :: "(string \<times> core_operation) list" where
  "PRIVATE_CORE_OPERATIONS =
     [(''Validate'', Core_validate), (''validate'', Core_validate), (''Decode'', Core_decode),
      (''decode'', Core_decode), (''Encode'', Core_encode), (''encode'', Core_encode),
      (''Discover'', Core_discover), (''discover'', Core_discover),
      (''Connect'', Core_connect), (''connect'', Core_connect),
      (''Reconnect'', Core_reconnect), (''reconnect'', Core_reconnect),
      (''Provision'', Core_provision), (''provision'', Core_provision),
      (''TransferRecording'', Core_transfer_recording),
      (''transfer_recording'', Core_transfer_recording), (''Upload'', Core_upload),
      (''upload'', Core_upload), (''UpdateFirmware'', Core_update_firmware),
      (''update_firmware'', Core_update_firmware),
      (''ReadDeviceLogs'', Core_read_device_logs),
      (''read_device_logs'', Core_read_device_logs),
      (''FactoryReset'', Core_factory_reset), (''factory_reset'', Core_factory_reset),
      (''Unknown'', Core_unknown), (''unknown'', Core_unknown)]"

definition CORE_CODES :: "(string \<times> bota_code) list" where
  "CORE_CODES =
     [(''InvalidInput'', Sdk_invalid_input), (''invalid_input'', Sdk_invalid_input),
      (''OperationInProgress'', Sdk_operation_in_progress),
      (''operation_in_progress'', Sdk_operation_in_progress),
      (''UnsupportedCapability'', Sdk_unsupported_capability),
      (''unsupported_capability'', Sdk_unsupported_capability),
      (''UnsupportedOperation'', Sdk_unsupported_capability),
      (''unsupported_operation'', Sdk_unsupported_capability),
      (''FeatureUnavailable'', Sdk_unsupported_capability),
      (''feature_unavailable'', Sdk_unsupported_capability),
      (''UnexpectedEvent'', Sdk_protocol_error),
      (''unexpected_event'', Sdk_protocol_error),
      (''DeviceNotFound'', Sdk_connection_failed),
      (''device_not_found'', Sdk_connection_failed),
      (''IdentityMismatch'', Sdk_identity_mismatch),
      (''identity_mismatch'', Sdk_identity_mismatch),
      (''ConnectionFailed'', Sdk_connection_failed),
      (''connection_failed'', Sdk_connection_failed),
      (''NotConnected'', Sdk_device_disconnected),
      (''not_connected'', Sdk_device_disconnected),
      (''TruncatedPacket'', Sdk_protocol_error),
      (''truncated_packet'', Sdk_protocol_error),
      (''UnknownPacket'', Sdk_protocol_error), (''unknown_packet'', Sdk_protocol_error),
      (''ProtocolRejected'', Sdk_protocol_error),
      (''protocol_rejected'', Sdk_protocol_error),
      (''PayloadTooLarge'', Sdk_protocol_error),
      (''payload_too_large'', Sdk_protocol_error),
      (''PersistenceFailed'', Sdk_storage_unavailable),
      (''persistence_failed'', Sdk_storage_unavailable),
      (''Timeout'', Sdk_connection_failed), (''timeout'', Sdk_connection_failed),
      (''IntegrityFailed'', Sdk_integrity_failed),
      (''integrity_failed'', Sdk_integrity_failed),
      (''UploadOwnershipUnknown'', Sdk_upload_failed),
      (''upload_ownership_unknown'', Sdk_upload_failed),
      (''DownloadFailed'', Sdk_upload_failed), (''download_failed'', Sdk_upload_failed),
      (''Cancelled'', Sdk_cancelled), (''cancelled'', Sdk_cancelled)]"

definition CORE_OPERATIONS :: "(string \<times> bota_operation) list" where
  "CORE_OPERATIONS =
     [(''Connect'', Op_connect), (''connect'', Op_connect), (''Reconnect'', Op_reconnect),
      (''reconnect'', Op_reconnect), (''Provision'', Op_provision),
      (''provision'', Op_provision), (''TransferRecording'', Op_transfer_recording),
      (''transfer_recording'', Op_transfer_recording), (''Upload'', Op_upload),
      (''upload'', Op_upload), (''UpdateFirmware'', Op_update_firmware),
      (''update_firmware'', Op_update_firmware),
      (''ReadDeviceLogs'', Op_read_device_logs),
      (''read_device_logs'', Op_read_device_logs), (''Decode'', Op_read_snapshot),
      (''decode'', Op_read_snapshot), (''Validate'', Op_unknown),
      (''validate'', Op_unknown)]"

section \<open>Reading the properties of a thrown value\<close>

primrec bridge_code_name :: "bridge_code \<Rightarrow> string option" where
  "bridge_code_name Br_invalid_input = Some ''invalid_input''"
| "bridge_code_name Br_truncated_packet = Some ''truncated_packet''"
| "bridge_code_name Br_unknown_packet = Some ''unknown_packet''"
| "bridge_code_name Br_payload_too_large = Some ''payload_too_large''"
| "bridge_code_name Br_unsupported_capability = Some ''unsupported_capability''"
| "bridge_code_name Br_unsupported_operation = Some ''unsupported_operation''"
| "bridge_code_name Br_feature_unavailable = Some ''feature_unavailable''"
| "bridge_code_name Br_operation_in_progress = Some ''operation_in_progress''"
| "bridge_code_name Br_unexpected_event = Some ''unexpected_event''"
| "bridge_code_name Br_device_not_found = Some ''device_not_found''"
| "bridge_code_name Br_identity_mismatch = Some ''identity_mismatch''"
| "bridge_code_name Br_connection_failed = Some ''connection_failed''"
| "bridge_code_name Br_persistence_failed = Some ''persistence_failed''"
| "bridge_code_name Br_not_connected = Some ''not_connected''"
| "bridge_code_name Br_timeout = Some ''timeout''"
| "bridge_code_name Br_cancelled = Some ''cancelled''"
| "bridge_code_name Br_protocol_rejected = Some ''protocol_rejected''"
| "bridge_code_name Br_integrity_failed = Some ''integrity_failed''"
| "bridge_code_name Br_upload_ownership_unknown = Some ''upload_ownership_unknown''"
| "bridge_code_name Br_download_failed = Some ''download_failed''"
| "bridge_code_name Br_internal = Some ''internal''"
| "bridge_code_name (Br_inherited k) = None"

definition bridge_code_value :: "bridge_code \<Rightarrow> jsval" where
  "bridge_code_value x = (case bridge_code_name x of None \<Rightarrow> JFunction | Some n \<Rightarrow> JString (js n))"

primrec core_operation_name :: "core_operation \<Rightarrow> string option" where
  "core_operation_name Core_validate = Some ''validate''"
| "core_operation_name Core_decode = Some ''decode''"
| "core_operation_name Core_encode = Some ''encode''"
| "core_operation_name Core_discover = Some ''discover''"
| "core_operation_name Core_connect = Some ''connect''"
| "core_operation_name Core_reconnect = Some ''reconnect''"
| "core_operation_name Core_provision = Some ''provision''"
| "core_operation_name Core_transfer_recording = Some ''transfer_recording''"
| "core_operation_name Core_upload = Some ''upload''"
| "core_operation_name Core_update_firmware = Some ''update_firmware''"
| "core_operation_name Core_read_device_logs = Some ''read_device_logs''"
| "core_operation_name Core_factory_reset = Some ''factory_reset''"
| "core_operation_name Core_unknown = Some ''unknown''"
| "core_operation_name (Core_inherited k) = None"

definition core_operation_value :: "core_operation \<Rightarrow> jsval" where
  "core_operation_value x = (case core_operation_name x of None \<Rightarrow> JFunction | Some n \<Rightarrow> JString (js n))"

primrec storage_code_value :: "storage_code \<Rightarrow> jsval" where
  "storage_code_value St_invalid_input = JString (js ''invalid_input'')"
| "storage_code_value St_storage_unavailable = JString (js ''storage_unavailable'')"
| "storage_code_value St_storage_quota_exceeded = JString (js ''storage_quota_exceeded'')"
| "storage_code_value St_resume_rejected = JString (js ''resume_rejected'')"

primrec transport_code_value :: "transport_code \<Rightarrow> jsval" where
  "transport_code_value Tr_characteristic_not_found = JString (js ''characteristic_not_found'')"
| "transport_code_value Tr_disconnected = JString (js ''disconnected'')"
| "transport_code_value Tr_permission_denied = JString (js ''permission_denied'')"
| "transport_code_value Tr_picker_cancelled = JString (js ''picker_cancelled'')"
| "transport_code_value Tr_unavailable = JString (js ''unavailable'')"

definition status_value :: "jsnum option \<Rightarrow> jsval" where
  "status_value s = (case s of None \<Rightarrow> JNull | Some n \<Rightarrow> JNumber n)"

text \<open>
  \<open>error.k\<close>.  The normalisers return an SDK error before they read any of its properties.
\<close>

fun error_field :: "js_error \<Rightarrow> string \<Rightarrow> jsval" where
  "error_field (Thrown v) k = js_get v k"
| "error_field (BridgeErr b) k =
     (if k = ''code'' then bridge_code_value (bridge_err_code b)
      else if k = ''operation'' then core_operation_value (bridge_err_operation b)
      else if k = ''retryable'' then JBool (bridge_err_retryable b)
      else if k = ''protocolStatus'' then status_value (bridge_err_protocolStatus b)
      else JUndefined)"
| "error_field (StorageErr c) k = (if k = ''code'' then storage_code_value c else JUndefined)"
| "error_field (TransportErr c) k = (if k = ''code'' then transport_code_value c else JUndefined)"
| "error_field (SdkErr e) k = JUndefined"

text \<open>\<open>typeof error === 'object' && error !== null\<close>.\<close>

fun error_is_object :: "js_error \<Rightarrow> bool" where
  "error_is_object (Thrown v) = (js_object v \<and> v \<noteq> JNull)"
| "error_is_object _ = True"

section \<open>The normalisers\<close>

definition normalizePrivateCoreError :: "js_error \<Rightarrow> core_operation \<Rightarrow> js_error" where
  "normalizePrivateCoreError error fallbackOperation =
     (case error of
        BridgeErr _ \<Rightarrow> error
      | SdkErr _ \<Rightarrow> error
      | _ \<Rightarrow>
        (case (error_is_object error, error_field error ''code'') of
           (True, JString code) \<Rightarrow>
             BridgeErr
               \<lparr>bridge_err_code =
                  (case table_lookup PRIVATE_CORE_CODES Br_inherited code of
                     Some c \<Rightarrow> c | None \<Rightarrow> Br_internal),
                bridge_err_operation =
                  (case error_field error ''operation'' of
                     JString operation \<Rightarrow>
                       (case table_lookup PRIVATE_CORE_OPERATIONS Core_inherited operation of
                          Some x \<Rightarrow> x | None \<Rightarrow> fallbackOperation)
                   | _ \<Rightarrow> fallbackOperation),
                bridge_err_retryable = (error_field error ''retryable'' = JBool True),
                bridge_err_protocolStatus =
                  (case error_field error ''protocol_status'' of JNumber n \<Rightarrow> Some n | _ \<Rightarrow> None)\<rparr>
         | _ \<Rightarrow>
             BridgeErr
               \<lparr>bridge_err_code = Br_internal, bridge_err_operation = fallbackOperation,
                bridge_err_retryable = False, bridge_err_protocolStatus = None\<rparr>))"

definition core_error_operation :: "js_error \<Rightarrow> bota_operation \<Rightarrow> bota_operation" where
  "core_error_operation error fallbackOperation =
     (case error_field error ''operation'' of
        JString operation \<Rightarrow>
          (case table_lookup CORE_OPERATIONS Op_inherited operation of
             Some x \<Rightarrow> x | None \<Rightarrow> fallbackOperation)
      | _ \<Rightarrow> fallbackOperation)"

definition core_error_code :: "jsstring \<Rightarrow> bota_operation \<Rightarrow> bota_code" where
  "core_error_code code operation =
     (if operation = Op_update_firmware
         \<and> (code = js ''ProtocolRejected'' \<or> code = js ''protocol_rejected'')
      then Sdk_firmware_rejected
      else case table_lookup CORE_CODES Sdk_inherited code of
             Some c \<Rightarrow> c | None \<Rightarrow> Sdk_internal_error)"

definition normalizeCoreError :: "js_error \<Rightarrow> bota_operation \<Rightarrow> bota_error" where
  "normalizeCoreError error fallbackOperation =
     (case error of
        SdkErr e \<Rightarrow> e
      | _ \<Rightarrow>
        (case (error_is_object error, error_field error ''code'') of
           (True, JString code) \<Rightarrow>
             (let operation = core_error_operation error fallbackOperation in
              \<lparr>err_code = core_error_code code operation,
               err_operation = operation,
               err_retryable = (error_field error ''retryable'' = JBool True),
               err_protocolStatus =
                 (case error_field error ''protocol_status'' of
                    JNumber n \<Rightarrow> Some n
                  | _ \<Rightarrow> (case error_field error ''protocolStatus'' of
                            JNumber n \<Rightarrow> Some n | _ \<Rightarrow> None))\<rparr>)
         | _ \<Rightarrow> BotaSDKError Sdk_internal_error fallbackOperation))"

section \<open>What the normalisers guarantee\<close>

definition rejected_code :: "string \<Rightarrow> bool" where
  "rejected_code k \<longleftrightarrow> k = ''ProtocolRejected'' \<or> k = ''protocol_rejected''"

text \<open>
  The tables agree: a core code and the snake-case name the private table gives it lead to
  the same SDK code, and likewise for operations.
\<close>

lemma codes_agree:
  "list_all (\<lambda>(k, c). case bridge_code_name c of None \<Rightarrow> False | Some n \<Rightarrow>
     map_of CORE_CODES n = map_of CORE_CODES k \<and> \<not> List.member object_prototype_members n
     \<and> \<not> List.member object_prototype_members k \<and> rejected_code n = rejected_code k) PRIVATE_CORE_CODES"
  by code_simp

lemma operations_agree:
  "list_all (\<lambda>(k, c). case core_operation_name c of None \<Rightarrow> False | Some n \<Rightarrow>
     map_of CORE_OPERATIONS n = map_of CORE_OPERATIONS k \<and> \<not> List.member object_prototype_members n
     \<and> \<not> List.member object_prototype_members k) PRIVATE_CORE_OPERATIONS"
  by code_simp

lemma core_codes_known:
  "list_all (\<lambda>(k, _). map_of PRIVATE_CORE_CODES k \<noteq> None) CORE_CODES"
  by code_simp

lemma rejected_known:
  "rejected_code k \<Longrightarrow> map_of PRIVATE_CORE_CODES k \<noteq> None"
proof -
  have "map_of PRIVATE_CORE_CODES ''ProtocolRejected'' \<noteq> None"
    and "map_of PRIVATE_CORE_CODES ''protocol_rejected'' \<noteq> None"
    by code_simp+
  then show "rejected_code k \<Longrightarrow> map_of PRIVATE_CORE_CODES k \<noteq> None"
    unfolding rejected_code_def by blast
qed

lemma table_lookup_known:
  "map_of tbl k = Some x \<Longrightarrow> table_lookup tbl inh (js k) = Some x"
  by (simp add: table_lookup_js)

lemma find_table_member:
  "find (\<lambda>(k, _). js k = key) tbl = Some (k, x) \<Longrightarrow> key = js k \<and> (k, x) \<in> set tbl"
  by (induction tbl) (auto split: if_splits)

lemma table_lookup_unknown:
  assumes "\<forall>k \<in> fst ` set tbl. js k \<noteq> key" and "inherited_member key = None"
  shows "table_lookup tbl inh key = None"
proof -
  have "find (\<lambda>(k, _). js k = key) tbl = None"
    using assms(1) by (force simp: find_None_iff)
  with assms(2) show ?thesis by (simp add: table_lookup_def)
qed

lemma core_error_code_js:
  "core_error_code (js k) operation =
     (if operation = Op_update_firmware \<and> rejected_code k then Sdk_firmware_rejected
      else case table_lookup CORE_CODES Sdk_inherited (js k) of Some c \<Rightarrow> c | None \<Rightarrow> Sdk_internal_error)"
  by (simp add: core_error_code_def rejected_code_def)

lemma bridge_code_known:
  assumes "map_of PRIVATE_CORE_CODES k = Some c"
  obtains n where "bridge_code_value c = JString (js n)"
    and "core_error_code (js n) operation = core_error_code (js k) operation"
proof -
  from assms have "(k, c) \<in> set PRIVATE_CORE_CODES" by (rule map_of_SomeD)
  with codes_agree obtain n where n: "bridge_code_name c = Some n"
    "map_of CORE_CODES n = map_of CORE_CODES k" "rejected_code n = rejected_code k"
    "n \<notin> set object_prototype_members" "k \<notin> set object_prototype_members"
    by (fastforce simp: list_all_iff split: option.splits)
  from n have "core_error_code (js n) operation = core_error_code (js k) operation"
    by (simp add: core_error_code_js table_lookup_js inherited_member_js split: option.split)
  with n(1) that show ?thesis by (simp add: bridge_code_value_def)
qed

lemma core_operation_known:
  assumes "map_of PRIVATE_CORE_OPERATIONS k = Some c"
  obtains n where "core_operation_value c = JString (js n)"
    and "table_lookup CORE_OPERATIONS Op_inherited (js n) = table_lookup CORE_OPERATIONS Op_inherited (js k)"
proof -
  from assms have "(k, c) \<in> set PRIVATE_CORE_OPERATIONS" by (rule map_of_SomeD)
  with operations_agree obtain n where n: "core_operation_name c = Some n"
    "map_of CORE_OPERATIONS n = map_of CORE_OPERATIONS k"
    "n \<notin> set object_prototype_members" "k \<notin> set object_prototype_members"
    by (fastforce simp: list_all_iff split: option.splits)
  then have "table_lookup CORE_OPERATIONS Op_inherited (js n) = table_lookup CORE_OPERATIONS Op_inherited (js k)"
    by (simp add: table_lookup_js inherited_member_js split: option.split)
  with n(1) that show ?thesis by (simp add: core_operation_value_def)
qed

text \<open>A code the private table does not know is internal on both routes.\<close>

lemma unknown_code:
  assumes "\<forall>k \<in> fst ` set PRIVATE_CORE_CODES. js k \<noteq> code" and "inherited_member code = None"
  shows "table_lookup PRIVATE_CORE_CODES Br_inherited code = None"
    and "core_error_code code operation = Sdk_internal_error"
proof -
  show "table_lookup PRIVATE_CORE_CODES Br_inherited code = None"
    by (rule table_lookup_unknown [OF assms])
  have "fst ` set CORE_CODES \<subseteq> fst ` set PRIVATE_CORE_CODES"
    using core_codes_known by (force simp: list_all_iff map_of_eq_None_iff)
  with assms(1) have "\<forall>k \<in> fst ` set CORE_CODES. js k \<noteq> code" by blast
  with assms(2) have "table_lookup CORE_CODES Sdk_inherited code = None"
    by (intro table_lookup_unknown)
  moreover have "code \<noteq> js ''ProtocolRejected''" and "code \<noteq> js ''protocol_rejected''"
    using assms(1) rejected_known [of "''ProtocolRejected''"] rejected_known [of "''protocol_rejected''"]
    by (auto simp: rejected_code_def map_of_eq_None_iff)
  ultimately show "core_error_code code operation = Sdk_internal_error"
    by (simp add: core_error_code_def)
qed

lemma internal_code:
  "bridge_code_value Br_internal = JString (js ''internal'')"
  "core_error_code (js ''internal'') operation = Sdk_internal_error"
proof -
  show "bridge_code_value Br_internal = JString (js ''internal'')"
    by (simp add: bridge_code_value_def)
  have "map_of CORE_CODES ''internal'' = None" and "\<not> List.member object_prototype_members ''internal''"
    by code_simp+
  then show "core_error_code (js ''internal'') operation = Sdk_internal_error"
    by (simp add: core_error_code_js table_lookup_js inherited_member_js rejected_code_def)
qed

lemma private_code_agrees:
  assumes "inherited_member code = None"
  obtains n where
    "bridge_code_value (case table_lookup PRIVATE_CORE_CODES Br_inherited code of
        Some c \<Rightarrow> c | None \<Rightarrow> Br_internal) = JString n"
    and "core_error_code n operation = core_error_code code operation"
proof (cases "\<exists>k \<in> fst ` set PRIVATE_CORE_CODES. js k = code")
  case True
  then obtain k where k: "code = js k" "k \<in> fst ` set PRIVATE_CORE_CODES" by auto
  then obtain c where c: "map_of PRIVATE_CORE_CODES k = Some c"
    by (metis map_of_eq_None_iff not_None_eq)
  obtain n where "bridge_code_value c = JString (js n)"
    "core_error_code (js n) operation = core_error_code (js k) operation"
    by (rule bridge_code_known [OF c, of operation])
  with that k c show ?thesis by (simp add: table_lookup_known)
next
  case False
  with assms have "table_lookup PRIVATE_CORE_CODES Br_inherited code = None"
    "core_error_code code operation = Sdk_internal_error"
    using unknown_code by blast+
  with that internal_code(1) internal_code(2) [of operation] show ?thesis by simp
qed

text \<open>
  C36. Normalising in two stages is normalising once.  A core error thrown across the bridge is
  first made a \<open>CoreBridgeError\<close> by the adapter (\<open>normalizePrivateCoreError\<close>) and then a
  \<open>BotaSDKError\<close> by the runtime (\<open>normalizeCoreError\<close>): the result, code, operation,
  retryability and protocol status, is the one the thrown object itself would have given,
  whatever the code is (short of a name inherited from \<open>Object.prototype\<close>), for every
  operation name the core has.
\<close>

theorem two_stage_normalisation:
  assumes "js_get v ''code'' = JString code" and "inherited_member code = None"
    and "js_get v ''operation'' = JString (js opname)" and "map_of PRIVATE_CORE_OPERATIONS opname \<noteq> None"
    and "\<forall>n. js_get v ''protocolStatus'' \<noteq> JNumber n"
  shows "normalizeCoreError (normalizePrivateCoreError (Thrown v) coreFallback) fallback
       = normalizeCoreError (Thrown v) fallback"
proof -
  from assms(1) have obj: "js_object v" "v \<noteq> JNull"
    by (auto simp: js_object_def split: jsval.splits)
  from assms(4) obtain cop where cop: "map_of PRIVATE_CORE_OPERATIONS opname = Some cop" by auto
  obtain on where "core_operation_value cop = JString (js on)"
    "table_lookup CORE_OPERATIONS Op_inherited (js on) = table_lookup CORE_OPERATIONS Op_inherited (js opname)"
    by (rule core_operation_known [OF cop])
  note on = this
  let ?operation = "core_error_operation (Thrown v) fallback"
  obtain n where n: "bridge_code_value (case table_lookup PRIVATE_CORE_CODES Br_inherited code of
        Some c \<Rightarrow> c | None \<Rightarrow> Br_internal) = JString n"
    "core_error_code n ?operation = core_error_code code ?operation"
    by (rule private_code_agrees [OF assms(2), of ?operation])
  show ?thesis
    using assms obj cop on n
    by (auto simp: normalizeCoreError_def normalizePrivateCoreError_def core_error_operation_def
        table_lookup_known status_value_def split: jsval.splits option.splits)
qed

theorem two_stage_normalisation_witness:
  "normalizeCoreError (normalizePrivateCoreError (Thrown (JObject
      [(''code'', JString (js ''ProtocolRejected'')), (''operation'', JString (js ''UpdateFirmware'')),
       (''protocol_status'', JNumber (JInt 7))])) Core_unknown) Op_unknown
   = \<lparr>err_code = Sdk_firmware_rejected, err_operation = Op_update_firmware, err_retryable = False,
      err_protocolStatus = Some (JInt 7)\<rparr>"
proof -
  have known: "map_of PRIVATE_CORE_OPERATIONS ''UpdateFirmware'' \<noteq> None"
    and "map_of CORE_OPERATIONS ''UpdateFirmware'' = Some Op_update_firmware"
    and "''ProtocolRejected'' \<notin> set object_prototype_members"
    by code_simp+
  then show ?thesis
    by (subst two_stage_normalisation [where code = "js ''ProtocolRejected''" and opname = "''UpdateFirmware''"])
      (simp_all add: inherited_member_js normalizeCoreError_def core_error_operation_def
        core_error_code_def table_lookup_known js_object_def)
qed

definition declared_code :: "bota_code \<Rightarrow> bool" where
  "declared_code c \<longleftrightarrow> message c \<noteq> None"

lemma declared_code_iff: "declared_code c \<longleftrightarrow> (\<forall>k. c \<noteq> Sdk_inherited k)"
  by (cases c) (simp_all add: declared_code_def)

text \<open>
  C37. The SDK never reports a member outside its declared code union, except for an error whose
  \<open>code\<close> names a member of \<open>Object.prototype\<close>: then the lookup \<open>CORE_CODES[code] ?? ...\<close>
  yields that inherited member (the missing own-property check is recorded as a finding).
\<close>

theorem normalizeCoreError_declared:
  assumes "\<forall>e. error \<noteq> SdkErr e"
  shows "declared_code (err_code (normalizeCoreError error fallback))
     \<longleftrightarrow> \<not> (\<exists>k \<in> set object_prototype_members. error_field error ''code'' = JString (js k))"
proof -
  have tbl: "list_all (\<lambda>(k, c). declared_code c \<and> \<not> List.member object_prototype_members k) CORE_CODES"
    by code_simp
  have code: "declared_code (core_error_code code operation) \<longleftrightarrow> (\<forall>k \<in> set object_prototype_members. code \<noteq> js k)"
    for code operation
  proof (cases "find (\<lambda>(k, _). js k = code) CORE_CODES")
    case None
    have rej: "''ProtocolRejected'' \<notin> set object_prototype_members" "''protocol_rejected'' \<notin> set object_prototype_members"
      by code_simp+
    have "inherited_member code = None \<longleftrightarrow> (\<forall>k \<in> set object_prototype_members. code \<noteq> js k)"
      by (auto simp: inherited_member_def find_None_iff)
    with None rej show ?thesis
      by (auto simp: core_error_code_def table_lookup_def declared_code_iff)
  next
    case (Some kc)
    obtain k c where "kc = (k, c)" by (cases kc)
    with Some have kc: "code = js k" "(k, c) \<in> set CORE_CODES" "kc = (k, c)"
      using find_table_member [of code CORE_CODES k c] by auto
    with tbl have "declared_code c" "k \<notin> set object_prototype_members" by (auto simp: list_all_iff)
    with Some kc show ?thesis by (auto simp: core_error_code_def table_lookup_def declared_code_iff)
  qed
  show ?thesis
  proof (cases "error_is_object error")
    case True
    with assms code show ?thesis
      by (cases error; cases "error_field error ''code''")
        (auto simp: normalizeCoreError_def Let_def BotaSDKError_def declared_code_iff)
  next
    case False
    with assms obtain v where v: "error = Thrown v" "\<not> (js_object v \<and> v \<noteq> JNull)"
      by (cases error) auto
    then have "js_get v ''code'' = JUndefined"
      by (cases v) (auto simp: js_object_def)
    with v show ?thesis
      by (simp add: normalizeCoreError_def BotaSDKError_def declared_code_iff split: bool.split)
  qed
qed

theorem normalizeCoreError_declared_witness:
  "\<not> declared_code (err_code (normalizeCoreError
        (Thrown (JObject [(''code'', JString (js ''constructor''))])) Op_unknown))
   \<and> declared_code (err_code (normalizeCoreError (TransportErr Tr_disconnected) Op_unknown))"
proof -
  have m: "''constructor'' \<in> set object_prototype_members" "''disconnected'' \<notin> set object_prototype_members"
    by code_simp+
  then show ?thesis
    using normalizeCoreError_declared [of "Thrown (JObject [(''code'', JString (js ''constructor''))])" Op_unknown]
      normalizeCoreError_declared [of "TransportErr Tr_disconnected" Op_unknown]
    by auto
qed

end
