(* ===== verification/StorageKeys.thy ===== *)
theory StorageKeys
  imports SdkErrors "HOL-Library.List_Lexorder" "HOL-Library.Sublist"
begin

text \<open>
  Storage identifiers and keys of \<^verbatim>\<open>frameworks/web/src/indexedDbWorkflowStore.ts\<close>:
  \<open>validateStorageNamespace\<close>, \<open>validateStorageIdentifier\<close>, \<open>encodeKeyPart\<close> (with the UTF-8 encoding
  of \<open>TextEncoder\<close>), the record key and the key range of a namespace.  The lemmas show that the
  key determines the namespace and the identifier, and that the range of a namespace holds
  exactly the keys made under it.
\<close>

section \<open>Validation\<close>

text \<open>The characters \<open>String.prototype.trim\<close> removes.\<close>

definition js_whitespace :: "16 word \<Rightarrow> bool" where
  "js_whitespace u \<longleftrightarrow>
     u \<in> {0x9, 0xa, 0xb, 0xc, 0xd, 0x20, 0xa0, 0x1680, 0x2028, 0x2029, 0x202f, 0x205f, 0x3000, 0xfeff}
     \<or> 0x2000 \<le> u \<and> u \<le> 0x200a"

text \<open>\<open>namespace.trim().length === 0\<close> holds when every code unit is white space.\<close>

definition validateStorageNamespace :: "jsstring \<Rightarrow> storage_code + unit" where
  "validateStorageNamespace namespace =
     ensure (\<not> (list_all js_whitespace namespace \<or> length namespace > 256 \<or> \<not> isWellFormedUtf16 namespace))
       St_invalid_input"

definition validateStorageIdentifier :: "jsstring \<Rightarrow> storage_code + jsstring" where
  "validateStorageIdentifier value =
     (if length value = 0 \<or> \<not> isWellFormedUtf16 value then Inl St_invalid_input else Inr value)"

section \<open>UTF-8\<close>

fun code_points :: "jsstring \<Rightarrow> nat list" where
  "code_points [] = []"
| "code_points [u] = [if lead_surrogate u \<or> trail_surrogate u then 0xfffd else unat u]"
| "code_points (u # v # us) =
     (if lead_surrogate u \<and> trail_surrogate v
      then (0x10000 + (unat u - 0xd800) * 0x400 + (unat v - 0xdc00)) # code_points us
      else (if lead_surrogate u \<or> trail_surrogate u then 0xfffd else unat u) # code_points (v # us))"

definition utf8_point :: "nat \<Rightarrow> nat list" where
  "utf8_point c =
     (if c < 0x80 then [c]
      else if c < 0x800 then [0xc0 + c div 64, 0x80 + c mod 64]
      else if c < 0x10000 then [0xe0 + c div 4096, 0x80 + c div 64 mod 64, 0x80 + c mod 64]
      else [0xf0 + c div 262144, 0x80 + c div 4096 mod 64, 0x80 + c div 64 mod 64, 0x80 + c mod 64])"

text \<open>\<open>new TextEncoder().encode(value)\<close>, as byte values.\<close>

definition utf8 :: "jsstring \<Rightarrow> nat list" where
  "utf8 value = concat (map utf8_point (code_points value))"

section \<open>Keys\<close>

definition hex_digit :: "nat \<Rightarrow> 16 word" where
  "hex_digit n = (if n < 10 then word_of_nat (48 + n) else word_of_nat (87 + n))"

text \<open>\<open>byte.toString(16).padStart(2, '0')\<close>.\<close>

definition hex_byte :: "nat \<Rightarrow> jsstring" where
  "hex_byte b = [hex_digit (b div 16), hex_digit (b mod 16)]"

fun decimal :: "nat \<Rightarrow> jsstring" where
  "decimal n = (if n < 10 then [hex_digit n] else decimal (n div 10) @ [hex_digit (n mod 10)])"

declare decimal.simps [simp del]

definition colon :: "16 word" where
  "colon = 58"

definition encodeKeyPart :: "jsstring \<Rightarrow> storage_code + jsstring" where
  "encodeKeyPart value =
     (if \<not> isWellFormedUtf16 value then Inl St_invalid_input
      else Inr (let bs = utf8 value in decimal (length bs) @ [colon] @ concat (map hex_byte bs)))"

text \<open>The constructor's \<open>namespacePrefix\<close>, the private \<open>key\<close> and \<open>namespaceRange\<close>.\<close>

definition namespacePrefix :: "jsstring \<Rightarrow> storage_code + jsstring" where
  "namespacePrefix namespace =
     rbind (validateStorageNamespace namespace) (\<lambda>_.
     rbind (encodeKeyPart namespace) (\<lambda>part.
     Inr (js ''v1:'' @ part @ [colon])))"

definition storage_key :: "jsstring \<Rightarrow> jsstring \<Rightarrow> storage_code + jsstring" where
  "storage_key prefx i =
     rbind (validateStorageIdentifier i) (\<lambda>valid.
     rbind (encodeKeyPart valid) (\<lambda>part.
     Inr (prefx @ part)))"

definition in_namespaceRange :: "jsstring \<Rightarrow> jsstring \<Rightarrow> bool" where
  "in_namespaceRange prefx key \<longleftrightarrow> prefx \<le> key \<and> key \<le> prefx @ [0xffff]"

section \<open>The encoding is injective\<close>

lemma unat_hex_digit:
  assumes "n < 16"
  shows "unat (hex_digit n) = (if n < 10 then 48 + n else 87 + n)"
proof -
  have k: "k < 65536 \<Longrightarrow> unat (word_of_nat k :: 16 word) = k" for k
    by (simp add: unat_of_nat)
  from assms have "48 + n < 65536" and "87 + n < 65536" by simp_all
  then show ?thesis
    by (cases "n < 10") (simp_all only: hex_digit_def if_True if_False k)
qed

lemma hex_digit_inj:
  assumes "m < 16" and "n < 16"
  shows "hex_digit m = hex_digit n \<longleftrightarrow> m = n"
proof
  assume "hex_digit m = hex_digit n"
  then have "(if m < 10 then 48 + m else 87 + m) = (if n < 10 then 48 + n else 87 + n)"
    using unat_hex_digit [OF assms(1)] unat_hex_digit [OF assms(2)] by simp
  then show "m = n" by (simp split: if_splits)
qed simp

lemma hex_digit_not_colon: "n < 16 \<Longrightarrow> hex_digit n \<noteq> colon"
  using unat_hex_digit [of n] by (auto simp: colon_def split: if_splits)

lemma decimal_digits: "\<forall>u \<in> set (decimal n). u \<noteq> colon"
proof (induction n rule: decimal.induct)
  case (1 n)
  then show ?case
    by (subst decimal.simps) (auto simp: hex_digit_not_colon)
qed

lemma decimal_not_Nil [simp]: "decimal n \<noteq> []"
  by (subst decimal.simps) simp

lemma decimal_inj: "decimal m = decimal n \<Longrightarrow> m = n"
proof (induction m arbitrary: n rule: decimal.induct)
  case (1 m)
  have nonempty: "[] \<noteq> decimal k" for k using decimal_not_Nil [of k] by metis
  show ?case
  proof (cases "m < 10 \<or> n < 10")
    case True
    with 1(2) nonempty show ?thesis
      by (subst (asm) (1 2) decimal.simps) (auto simp: hex_digit_inj split: if_splits)
  next
    case False
    with 1(2) have "decimal (m div 10) @ [hex_digit (m mod 10)] = decimal (n div 10) @ [hex_digit (n mod 10)]"
      by (subst (asm) (1 2) decimal.simps) simp
    then have "decimal (m div 10) = decimal (n div 10)" and "hex_digit (m mod 10) = hex_digit (n mod 10)"
      by simp_all
    moreover from this(2) have "m mod 10 = n mod 10"
      using hex_digit_inj [of "m mod 10" "n mod 10"] by (simp add: order.strict_trans)
    ultimately show ?thesis
      using 1(1) [of "n div 10"] False by (metis mult_div_mod_eq)
  qed
qed

text \<open>Reading up to the first colon is unambiguous.\<close>

lemma split_colon:
  assumes "xs @ [colon] @ ys = xs' @ [colon] @ ys'" and "colon \<notin> set xs" and "colon \<notin> set xs'"
  shows "xs = xs' \<and> ys = ys'"
  using assms
proof (induction xs arbitrary: xs')
  case Nil
  then show ?case by (cases xs') auto
next
  case (Cons x xs)
  then show ?case by (cases xs') auto
qed

lemma concat_fixed_length:
  assumes "\<forall>x. length (f x) = k" and "length xs = length ys"
    and "concat (map f xs) @ r = concat (map f ys) @ s"
  shows "map f xs = map f ys \<and> r = s"
  using assms(2,3)
proof (induction xs ys rule: list_induct2)
  case (Cons x xs y ys)
  with assms(1) show ?case by (simp add: append_eq_append_conv)
qed simp

lemma hex_byte_inj: "a < 256 \<Longrightarrow> b < 256 \<Longrightarrow> hex_byte a = hex_byte b \<longleftrightarrow> a = b"
  by (auto simp: hex_byte_def hex_digit_inj) (metis div_mult_mod_eq)

lemma map_hex_byte_inj:
  "map hex_byte as = map hex_byte bs \<Longrightarrow> \<forall>a \<in> set as. a < 256 \<Longrightarrow> \<forall>b \<in> set bs. b < 256 \<Longrightarrow> as = bs"
proof (induction as arbitrary: bs)
  case (Cons a as)
  then show ?case by (cases bs) (auto simp: hex_byte_inj)
qed simp

lemma utf8_point_byte: "c < 0x110000 \<Longrightarrow> \<forall>b \<in> set (utf8_point c). b < 256"
  by (auto simp: utf8_point_def)

lemma utf8_point_prefix_free:
  assumes "utf8_point a @ r = utf8_point b @ s" and "a < 0x110000" and "b < 0x110000"
  shows "a = b \<and> r = s"
proof -
  have m: "x div 64 = y div 64 \<Longrightarrow> x mod 64 = y mod 64 \<Longrightarrow> x = y" for x y :: nat
    by (metis div_mult_mod_eq)
  have d: "x div 4096 = x div 64 div 64" "x div 262144 = x div 64 div 64 div 64" for x :: nat
    by (simp_all add: div_mult2_eq [symmetric])
  from assms show ?thesis
    unfolding utf8_point_def
    by (auto simp: d split: if_splits intro!: m dest: m)
qed

lemma utf8_points_inj:
  assumes "concat (map utf8_point xs) = concat (map utf8_point ys)"
    and "\<forall>x \<in> set xs. x < 0x110000" and "\<forall>y \<in> set ys. y < 0x110000"
  shows "xs = ys"
  using assms
proof (induction xs arbitrary: ys)
  case Nil
  have "utf8_point y \<noteq> []" for y by (simp add: utf8_point_def)
  with Nil show ?case by (cases ys) auto
next
  case (Cons x xs)
  have "utf8_point x \<noteq> []" by (simp add: utf8_point_def)
  with Cons.prems obtain y ys' where ys: "ys = y # ys'" by (cases ys) auto
  with Cons.prems have "x = y \<and> concat (map utf8_point xs) = concat (map utf8_point ys')"
    by (intro utf8_point_prefix_free) simp_all
  with Cons ys show ?case by simp
qed

lemma surrogate_range:
  "lead_surrogate u \<longleftrightarrow> 0xd800 \<le> unat u \<and> unat u \<le> 0xdbff"
  "trail_surrogate u \<longleftrightarrow> 0xdc00 \<le> unat u \<and> unat u \<le> 0xdfff"
  by (simp_all add: lead_surrogate_def trail_surrogate_def word_le_nat_alt)

lemma code_points_bound: "\<forall>c \<in> set (code_points us). c < 0x110000"
proof (induction us rule: code_points.induct)
  case (2 u)
  show ?case using unsigned_less [of u, where 'a = nat] by simp
next
  case (3 u v us)
  show ?case using 3 unsigned_less [of u, where 'a = nat] by (auto simp: surrogate_range)
qed simp

lemma pair_arith:
  fixes a b x y :: nat
  assumes "x * 0x400 + a = y * 0x400 + b" and "a < 0x400" and "b < 0x400"
  shows "x = y \<and> a = b"
proof -
  have "(x * 0x400 + a) div 0x400 = x" and "(y * 0x400 + b) div 0x400 = y"
    using assms(2,3) by simp_all
  with assms(1) have "x = y" by metis
  with assms(1) show ?thesis by simp
qed

lemma code_points_inj:
  assumes "code_points us = code_points vs" and "isWellFormedUtf16 us" and "isWellFormedUtf16 vs"
  shows "us = vs"
  using assms
proof (induction us arbitrary: vs rule: code_points.induct)
  case 1
  then show ?case by (cases vs rule: code_points.cases) (auto split: if_splits)
next
  case (2 u)
  have small: "unat u < 0x10000" using unsigned_less [of u, where 'a = nat] by simp
  show ?case
  proof (cases vs rule: code_points.cases)
    case (3 v w ws)
    have "code_points (w # ws) \<noteq> []" by (cases ws) auto
    with 2 3 small show ?thesis by (auto simp: surrogate_range split: if_splits)
  qed (use 2 small in \<open>auto simp: word_unat_eq_iff split: if_splits\<close>)
next
  case (3 u u' us)
  have small: "unat w < 0x10000" for w :: "16 word" using unsigned_less [of w, where 'a = nat] by simp
  show ?case
  proof (cases vs rule: code_points.cases)
    case 1
    with 3 show ?thesis by (auto split: if_splits)
  next
    case (2 v)
    have "code_points (u' # us) \<noteq> []" by (cases us) auto
    with 2 3 small [of v] show ?thesis by (auto split: if_splits)
  next
    case vs: (3 v v' vs')
    show ?thesis
    proof (cases "lead_surrogate u")
      case True
      then have lead: "lead_surrogate v"
        using "3.prems" vs small [of v] by (auto simp: surrogate_range split: if_splits)
      have trail: "trail_surrogate u'" "trail_surrogate v'"
        using True lead "3.prems"(2,3) vs by (auto split: if_splits)
      with True lead "3.prems"(1) vs have eq: "(unat u - 0xd800) * 0x400 + (unat u' - 0xdc00) =
          (unat v - 0xd800) * 0x400 + (unat v' - 0xdc00)" "code_points us = code_points vs'"
        by simp_all
      have "(unat u - 0xd800) = (unat v - 0xd800) \<and> (unat u' - 0xdc00) = (unat v' - 0xdc00)"
        by (rule pair_arith [OF eq(1)]) (use trail in \<open>auto simp: surrogate_range\<close>)
      with True lead trail have "u = v \<and> u' = v'"
        by (auto simp: surrogate_range word_unat_eq_iff)
      moreover have "us = vs'"
        using "3.IH"(1) [OF conjI [OF True trail(1)] eq(2)] "3.prems"(2,3) True lead vs by (auto split: if_splits)
      ultimately show ?thesis using vs by simp
    next
      case False
      then have nl: "\<not> lead_surrogate v" "\<not> trail_surrogate u" "\<not> trail_surrogate v"
        using "3.prems" vs small [of u] by (auto simp: surrogate_range split: if_splits)
      with False "3.prems"(1) vs have "unat u = unat v" "code_points (u' # us) = code_points (v' # vs')"
        by (simp_all split: if_splits)
      moreover have "isWellFormedUtf16 (u' # us)" "isWellFormedUtf16 (v' # vs')"
        using False nl "3.prems"(2,3) vs by simp_all
      ultimately show ?thesis
        using "3.IH"(2) [of "v' # vs'"] False vs by (simp add: word_unat_eq_iff)
    qed
  qed
qed

lemma utf8_inj:
  "utf8 us = utf8 vs \<Longrightarrow> isWellFormedUtf16 us \<Longrightarrow> isWellFormedUtf16 vs \<Longrightarrow> us = vs"
  unfolding utf8_def using utf8_points_inj code_points_bound code_points_inj by blast

lemma utf8_bytes: "\<forall>b \<in> set (utf8 us). b < 256"
  using code_points_bound utf8_point_byte by (fastforce simp: utf8_def)

text \<open>
  The heart of key injectivity: two encoded parts, each followed by anything, that give the same
  string encode the same value and leave the same rest.
\<close>

lemma encodeKeyPart_prefix_free:
  assumes "encodeKeyPart a = Inr ea" and "encodeKeyPart b = Inr eb" and "ea @ r = eb @ s"
  shows "a = b \<and> r = s"
proof -
  from assms(1,2) have wf: "isWellFormedUtf16 a" "isWellFormedUtf16 b"
    and e: "ea = decimal (length (utf8 a)) @ [colon] @ concat (map hex_byte (utf8 a))"
    "eb = decimal (length (utf8 b)) @ [colon] @ concat (map hex_byte (utf8 b))"
    by (auto simp: encodeKeyPart_def Let_def split: if_splits)
  have "decimal (length (utf8 a)) = decimal (length (utf8 b)) \<and>
      concat (map hex_byte (utf8 a)) @ r = concat (map hex_byte (utf8 b)) @ s"
    using assms(3) decimal_digits unfolding e append_assoc by (intro split_colon) auto
  then have len: "length (utf8 a) = length (utf8 b)"
    and rest: "concat (map hex_byte (utf8 a)) @ r = concat (map hex_byte (utf8 b)) @ s"
    using decimal_inj by auto
  have "map hex_byte (utf8 a) = map hex_byte (utf8 b) \<and> r = s"
    by (rule concat_fixed_length [OF _ len rest, of 2]) (simp add: hex_byte_def)
  then have "utf8 a = utf8 b" "r = s" using map_hex_byte_inj utf8_bytes by auto
  then show ?thesis using utf8_inj wf by blast
qed

lemma encodeKeyPart_total: "isWellFormedUtf16 a \<Longrightarrow> \<exists>e. encodeKeyPart a = Inr e"
  by (simp add: encodeKeyPart_def)

lemma storage_key_Inr_iff:
  "(\<exists>k. storage_key p i = Inr k) \<longleftrightarrow> i \<noteq> [] \<and> isWellFormedUtf16 i"
  by (auto simp: storage_key_def validateStorageIdentifier_def encodeKeyPart_def)

lemma storage_key_Inl: "storage_key p i = Inl e \<Longrightarrow> e = St_invalid_input"
  by (auto simp: storage_key_def validateStorageIdentifier_def encodeKeyPart_def split: if_splits)

lemma storage_key_prefix: "storage_key p i = Inr k \<Longrightarrow> prefix p k"
  by (auto simp: storage_key_def)

lemma range_has_prefix:
  assumes "in_namespaceRange p k"
  shows "prefix p k"
proof (rule ccontr)
  assume "\<not> prefix p k"
  from assms have le: "p \<le> k" "k \<le> p @ [0xffff]" by (simp_all add: in_namespaceRange_def)
  have "\<not> prefix p k \<Longrightarrow> p \<le> k \<Longrightarrow> p @ x < k" for x
  proof (induction p arbitrary: k)
    case (Cons a p)
    then obtain b k' where "k = b # k'" by (cases k) auto
    with Cons show ?case by auto
  qed simp
  with \<open>\<not> prefix p k\<close> le(1) have "p @ [0xffff] < k" by blast
  with le(2) show False by simp
qed

lemma prefix_in_range:
  assumes "x \<noteq> []" and "hd x < 0xffff"
  shows "in_namespaceRange p (p @ x)"
proof -
  have "p @ x \<le> p @ [0xffff]"
    using assms by (induction p) (auto simp: neq_Nil_conv)
  moreover have "p \<le> p @ x" by (induction p) auto
  ultimately show ?thesis by (simp add: in_namespaceRange_def)
qed

section \<open>Keys determine what they name\<close>

lemma namespacePrefix_Inr:
  "namespacePrefix ns = Inr p \<longleftrightarrow>
     validateStorageNamespace ns = Inr () \<and> (\<exists>part. encodeKeyPart ns = Inr part \<and> p = js ''v1:'' @ part @ [colon])"
  by (auto simp: namespacePrefix_def rbind_eq_Inr)

lemma storage_key_Inr:
  "storage_key p i = Inr k \<longleftrightarrow>
     i \<noteq> [] \<and> (\<exists>part. encodeKeyPart i = Inr part \<and> k = p @ part)"
  by (auto simp: storage_key_def validateStorageIdentifier_def rbind_eq_Inr encodeKeyPart_def)

lemma namespacePrefix_prefix_free:
  assumes "namespacePrefix ns = Inr p" and "namespacePrefix ns' = Inr p'" and "p @ r = p' @ s"
  shows "ns = ns' \<and> r = s"
proof -
  from assms(1,2) obtain a a' where "encodeKeyPart ns = Inr a" "p = js ''v1:'' @ a @ [colon]"
    "encodeKeyPart ns' = Inr a'" "p' = js ''v1:'' @ a' @ [colon]"
    by (auto simp: namespacePrefix_Inr)
  with assms(3) encodeKeyPart_prefix_free [of ns a ns' a' "colon # r" "colon # s"] show ?thesis by auto
qed

text \<open>The first code unit of an encoded part is a decimal digit.\<close>

lemma decimal_hd: "hd (decimal n) < 0xffff"
proof (induction n rule: decimal.induct)
  case (1 n)
  have digit: "hex_digit m < 0xffff" if "m < 10" for m
    using that unat_hex_digit [of m] by (simp add: word_less_nat_alt)
  show ?case
  proof (cases "n < 10")
    case True
    then show ?thesis by (subst decimal.simps) (simp add: digit)
  next
    case False
    then show ?thesis using 1 by (subst decimal.simps) simp
  qed
qed

text \<open>
  C25. The record key is injective: two keys made in whatever namespaces for whatever identifiers are
  equal only when both the namespace and the identifier are, so no record of one operation or of
  one namespace can be read or overwritten under the name of another.
\<close>

theorem storage_key_injective:
  assumes "namespacePrefix ns = Inr p" and "namespacePrefix ns' = Inr p'"
    and "storage_key p i = Inr k" and "storage_key p' i' = Inr k'"
  shows "k = k' \<longleftrightarrow> ns = ns' \<and> i = i'"
proof
  from assms(3,4) obtain a a' where a: "encodeKeyPart i = Inr a" "k = p @ a"
    "encodeKeyPart i' = Inr a'" "k' = p' @ a'"
    by (auto simp: storage_key_Inr)
  assume "k = k'"
  with a namespacePrefix_prefix_free [OF assms(1,2), of a a'] have "ns = ns'" "a = a'" by auto
  moreover from this(2) a encodeKeyPart_prefix_free [of i a i' a' "[]" "[]"] have "i = i'" by auto
  ultimately show "ns = ns' \<and> i = i'" by simp
next
  assume "ns = ns' \<and> i = i'"
  with assms show "k = k'" by simp
qed

lemma sample_keys:
  "namespacePrefix (js ''a'') = Inr (js ''v1:1:61:'')"
  "namespacePrefix (js ''b'') = Inr (js ''v1:1:62:'')"
  "storage_key (js ''v1:1:61:'') (js ''op-1'') = Inr (js ''v1:1:61:4:6f702d31'')"
  "storage_key (js ''v1:1:62:'') (js ''op-1'') = Inr (js ''v1:1:62:4:6f702d31'')"
  by code_simp+

theorem storage_key_injective_witness:
  "js ''v1:1:61:4:6f702d31'' = js ''v1:1:62:4:6f702d31'' \<longleftrightarrow> js ''a'' = js ''b'' \<and> js ''op-1'' = js ''op-1''"
  by (rule storage_key_injective [OF sample_keys])

lemma namespace_range_iff:
  assumes "namespacePrefix ns = Inr p" and "namespacePrefix ns' = Inr p'" and "storage_key p' i = Inr k"
  shows "in_namespaceRange p k \<longleftrightarrow> ns = ns'"
proof
  assume "in_namespaceRange p k"
  then obtain r where "k = p @ r" using range_has_prefix [of p k] by (auto elim: prefixE)
  moreover from assms(3) obtain a where "k = p' @ a" by (auto simp: storage_key_Inr)
  ultimately show "ns = ns'" using namespacePrefix_prefix_free [OF assms(1,2), of r a] by simp
next
  assume "ns = ns'"
  with assms have "p = p'" by simp
  moreover from assms(3) obtain a where a: "encodeKeyPart i = Inr a" "k = p' @ a"
    by (auto simp: storage_key_Inr)
  moreover from a(1) have "a \<noteq> []" and "hd a < 0xffff"
    by (auto simp: encodeKeyPart_def Let_def decimal_hd split: if_splits)
  ultimately show "in_namespaceRange p k" using prefix_in_range [of a p] by simp
qed

text \<open>
  C26. Namespaces are isolated: the key range over which a namespace is listed and cleared holds the
  key of a record exactly when the record was made in that namespace.
\<close>

theorem namespace_isolation:
  assumes "namespacePrefix ns = Inr p" and "namespacePrefix ns' = Inr p'" and "storage_key p' i = Inr k"
  shows "in_namespaceRange p k \<longleftrightarrow> ns = ns'"
  by (rule namespace_range_iff [OF assms])

theorem namespace_isolation_witness:
  "in_namespaceRange (js ''v1:1:61:'') (js ''v1:1:62:4:6f702d31'') \<longleftrightarrow> js ''a'' = js ''b''"
  by (rule namespace_isolation [OF sample_keys(1,2,4)])

end
