(* ===== verification/Journals.thy ===== *)
theory Journals
  imports StorageKeys
begin

text \<open>
  The persisted records of \<^verbatim>\<open>frameworks/web/src/indexedDbWorkflowStore.ts\<close> (types of
  \<^verbatim>\<open>storage.ts\<close>): the validators every stored or saved value passes, the journal types they return,
  and the rule that says which journal may replace which.  A validator throws \<open>resume_rejected\<close>.
  The journals are instances of a contract: a validated journal validates again after it was
  stored, and a replacement keeps the identity of the journal and does not go back in time.
\<close>

section \<open>Field validators\<close>

abbreviation resumeRejected :: "storage_code + 'a" where
  "resumeRejected \<equiv> Inl St_resume_rejected"

definition domExceptionName :: "js_error \<Rightarrow> jsstring option" where
  "domExceptionName error =
     (case error_field error ''name'' of JString s \<Rightarrow> if error_is_object error then Some s else None | _ \<Rightarrow> None)"

definition mapBrowserStorageError :: "js_error \<Rightarrow> storage_code" where
  "mapBrowserStorageError error =
     (case error of
        StorageErr c \<Rightarrow> c
      | _ \<Rightarrow>
        (if domExceptionName error = Some (js ''QuotaExceededError'') then St_storage_quota_exceeded
         else if domExceptionName error = Some (js ''VersionError'') then St_resume_rejected
         else St_storage_unavailable))"

definition versionedRecord :: "jsval \<Rightarrow> storage_code + jsval" where
  "versionedRecord value =
     (case value of
        JObject _ \<Rightarrow> if js_get value ''schemaVersion'' \<noteq> JNumber (JInt 1) then resumeRejected else Inr value
      | _ \<Rightarrow> resumeRejected)"

definition validPersistedIdentifier :: "jsval \<Rightarrow> storage_code + jsstring" where
  "validPersistedIdentifier value =
     (case value of
        JString s \<Rightarrow> if length s = 0 \<or> \<not> isWellFormedUtf16 s then resumeRejected else Inr s
      | _ \<Rightarrow> resumeRejected)"

definition recordString :: "jsval \<Rightarrow> string \<Rightarrow> storage_code + jsstring" where
  "recordString r key = validPersistedIdentifier (js_get r key)"

definition nullableIdentifier :: "jsval \<Rightarrow> storage_code + jsstring option" where
  "nullableIdentifier value =
     (if value = JNull then Inr None else rbind (validPersistedIdentifier value) (\<lambda>s. Inr (Some s)))"

definition nullableDisplayName :: "jsval \<Rightarrow> storage_code + jsstring option" where
  "nullableDisplayName value =
     (case value of JNull \<Rightarrow> Inr None | JString s \<Rightarrow> Inr (Some s) | _ \<Rightarrow> resumeRejected)"

definition lower_hex :: "16 word \<Rightarrow> bool" where
  "lower_hex u \<longleftrightarrow> 48 \<le> u \<and> u \<le> 57 \<or> 97 \<le> u \<and> u \<le> 102"

definition storage_digest :: "jsval \<Rightarrow> storage_code + jsstring" where
  "storage_digest value =
     (case value of
        JString s \<Rightarrow> if length s = 64 \<and> list_all lower_hex s then Inr s else resumeRejected
      | _ \<Rightarrow> resumeRejected)"

definition nullableDigest :: "jsval \<Rightarrow> storage_code + jsstring option" where
  "nullableDigest value =
     (if value = JNull then Inr None else rbind (storage_digest value) (\<lambda>s. Inr (Some s)))"

definition safeNonnegativeInteger :: "jsval \<Rightarrow> storage_code + int" where
  "safeNonnegativeInteger value =
     (case value of
        JNumber (JInt n) \<Rightarrow> if \<not> is_safe_integer value \<or> n < 0 then resumeRejected else Inr n
      | _ \<Rightarrow> resumeRejected)"

definition unsigned32 :: "jsval \<Rightarrow> storage_code + int" where
  "unsigned32 value =
     rbind (safeNonnegativeInteger value) (\<lambda>result.
       if result > 0xffffffff then resumeRejected else Inr result)"

section \<open>Assertions between two journals\<close>

fun indexOf :: "'a list \<Rightarrow> 'a \<Rightarrow> int" where
  "indexOf [] x = -1"
| "indexOf (y # ys) x = (if x = y then 0 else if indexOf ys x = -1 then -1 else indexOf ys x + 1)"

definition assertNextPhase :: "'p list \<Rightarrow> 'p \<Rightarrow> 'p \<Rightarrow> storage_code + unit" where
  "assertNextPhase phases previous nxt =
     ensure (\<not> (indexOf phases nxt \<noteq> indexOf phases previous \<and> indexOf phases nxt \<noteq> indexOf phases previous + 1))
       St_resume_rejected"

definition assertNondecreasingTimestamp :: "int \<Rightarrow> int \<Rightarrow> storage_code + unit" where
  "assertNondecreasingTimestamp previous nxt = ensure (\<not> nxt < previous) St_resume_rejected"

definition assertEstablishedEvidence :: "jsstring option \<Rightarrow> jsstring option \<Rightarrow> storage_code + unit" where
  "assertEstablishedEvidence previous nxt = ensure (\<not> (previous \<noteq> None \<and> previous \<noteq> nxt)) St_resume_rejected"

section \<open>Recording journals\<close>

datatype recording_phase =
    Rp_prepared | Rp_transferring | Rp_staged | Rp_uploading | Rp_cloud_completed | Rp_confirmed

datatype recording_profile = Profile_legacy | Profile_encrypted_upload_v2

record recording_journal =
  rj_operationId :: jsstring
  rj_serialNumber :: jsstring
  rj_recordingUuid :: jsstring
  rj_profile :: recording_profile
  rj_phase :: recording_phase
  rj_sinkId :: jsstring
  rj_uploadId :: "jsstring option"
  rj_cloudCompletionId :: "jsstring option"
  rj_confirmationDigestHex :: "jsstring option"
  rj_devicePlaintextSha256Hex :: "jsstring option"
  rj_updatedAtEpochMs :: int

definition RECORDING_PHASES :: "recording_phase list" where
  "RECORDING_PHASES = [Rp_prepared, Rp_transferring, Rp_staged, Rp_uploading, Rp_cloud_completed, Rp_confirmed]"

primrec recording_phase_name :: "recording_phase \<Rightarrow> string" where
  "recording_phase_name Rp_prepared = ''prepared''"
| "recording_phase_name Rp_transferring = ''transferring''"
| "recording_phase_name Rp_staged = ''staged''"
| "recording_phase_name Rp_uploading = ''uploading''"
| "recording_phase_name Rp_cloud_completed = ''cloud_completed''"
| "recording_phase_name Rp_confirmed = ''confirmed''"

primrec recording_profile_name :: "recording_profile \<Rightarrow> string" where
  "recording_profile_name Profile_legacy = ''legacy''"
| "recording_profile_name Profile_encrypted_upload_v2 = ''encrypted_upload_v2''"

definition member_named :: "('a \<Rightarrow> string) \<Rightarrow> 'a list \<Rightarrow> jsval \<Rightarrow> storage_code + 'a" where
  "member_named name members value =
     (case find (\<lambda>m. value = JString (js (name m))) members of None \<Rightarrow> resumeRejected | Some m \<Rightarrow> Inr m)"

definition assertRecordingEvidence :: "recording_journal \<Rightarrow> storage_code + unit" where
  "assertRecordingEvidence journal =
     (let phaseIndex = indexOf RECORDING_PHASES (rj_phase journal);
          uploadingIndex = indexOf RECORDING_PHASES Rp_uploading;
          cloudCompletedIndex = indexOf RECORDING_PHASES Rp_cloud_completed in
      if phaseIndex < uploadingIndex \<and> rj_uploadId journal \<noteq> None then resumeRejected
      else if phaseIndex < cloudCompletedIndex
        \<and> (rj_cloudCompletionId journal \<noteq> None \<or> rj_confirmationDigestHex journal \<noteq> None) then resumeRejected
      else if phaseIndex < indexOf RECORDING_PHASES Rp_staged
        \<and> rj_devicePlaintextSha256Hex journal \<noteq> None then resumeRejected
      else if rj_profile journal = Profile_legacy then
        (if phaseIndex \<ge> uploadingIndex \<and> rj_uploadId journal = None then resumeRejected
         else if phaseIndex \<ge> cloudCompletedIndex \<and> rj_cloudCompletionId journal = None then resumeRejected
         else if rj_confirmationDigestHex journal \<noteq> None then resumeRejected
         else Inr ())
      else if phaseIndex \<ge> cloudCompletedIndex \<and> rj_confirmationDigestHex journal = None then resumeRejected
      else Inr ())"

definition recordingJournal :: "jsval \<Rightarrow> storage_code + recording_journal" where
  "recordingJournal value =
     rbind (versionedRecord value) (\<lambda>r.
     rbind (member_named recording_phase_name RECORDING_PHASES (js_get r ''phase'')) (\<lambda>phase.
     rbind (member_named recording_profile_name [Profile_legacy, Profile_encrypted_upload_v2]
       (js_get r ''profile'')) (\<lambda>profile.
     rbind (recordString r ''operationId'') (\<lambda>operationId.
     rbind (recordString r ''serialNumber'') (\<lambda>serialNumber.
     rbind (recordString r ''recordingUuid'') (\<lambda>recordingUuid.
     rbind (recordString r ''sinkId'') (\<lambda>sinkId.
     rbind (nullableIdentifier (js_get r ''uploadId'')) (\<lambda>uploadId.
     rbind (nullableIdentifier (js_get r ''cloudCompletionId'')) (\<lambda>cloudCompletionId.
     rbind (nullableDigest (js_get r ''confirmationDigestHex'')) (\<lambda>confirmationDigestHex.
     rbind (if js_has r ''devicePlaintextSha256Hex'' then nullableDigest (js_get r ''devicePlaintextSha256Hex'')
            else Inr None) (\<lambda>devicePlaintextSha256Hex.
     rbind (safeNonnegativeInteger (js_get r ''updatedAtEpochMs'')) (\<lambda>updatedAtEpochMs.
     let journal = \<lparr>rj_operationId = operationId, rj_serialNumber = serialNumber,
       rj_recordingUuid = recordingUuid, rj_profile = profile, rj_phase = phase, rj_sinkId = sinkId,
       rj_uploadId = uploadId, rj_cloudCompletionId = cloudCompletionId,
       rj_confirmationDigestHex = confirmationDigestHex,
       rj_devicePlaintextSha256Hex = devicePlaintextSha256Hex, rj_updatedAtEpochMs = updatedAtEpochMs\<rparr> in
     rbind (assertRecordingEvidence journal) (\<lambda>_. Inr journal)))))))))))))"

text \<open>The object literal the validator returns, as it is stored.\<close>

definition or_null :: "jsstring option \<Rightarrow> jsval" where
  "or_null x = (case x of None \<Rightarrow> JNull | Some s \<Rightarrow> JString s)"

definition recording_journal_value :: "recording_journal \<Rightarrow> jsval" where
  "recording_journal_value j =
     JObject
       [(''schemaVersion'', JNumber (JInt 1)),
        (''operationId'', JString (rj_operationId j)),
        (''serialNumber'', JString (rj_serialNumber j)),
        (''recordingUuid'', JString (rj_recordingUuid j)),
        (''profile'', JString (js (recording_profile_name (rj_profile j)))),
        (''phase'', JString (js (recording_phase_name (rj_phase j)))),
        (''sinkId'', JString (rj_sinkId j)),
        (''uploadId'', or_null (rj_uploadId j)),
        (''cloudCompletionId'', or_null (rj_cloudCompletionId j)),
        (''confirmationDigestHex'', or_null (rj_confirmationDigestHex j)),
        (''devicePlaintextSha256Hex'', or_null (rj_devicePlaintextSha256Hex j)),
        (''updatedAtEpochMs'', JNumber (JInt (rj_updatedAtEpochMs j)))]"

text \<open>The two closures \<open>saveRecordingJournal\<close> passes to \<open>saveMonotonicJournal\<close>.\<close>

definition reconciledNotUploaded :: "recording_journal \<Rightarrow> recording_journal \<Rightarrow> bool" where
  "reconciledNotUploaded previous sanitized \<longleftrightarrow>
     rj_profile previous = Profile_legacy \<and> rj_phase previous = Rp_uploading
     \<and> rj_phase sanitized = Rp_staged \<and> rj_uploadId sanitized = None
     \<and> rj_cloudCompletionId sanitized = None \<and> rj_confirmationDigestHex sanitized = None"

definition recording_replaces :: "recording_journal \<Rightarrow> recording_journal \<Rightarrow> storage_code + unit" where
  "recording_replaces previous sanitized =
     rbind (ensure (\<not> (rj_operationId previous \<noteq> rj_operationId sanitized
         \<or> rj_serialNumber previous \<noteq> rj_serialNumber sanitized
         \<or> rj_recordingUuid previous \<noteq> rj_recordingUuid sanitized
         \<or> rj_profile previous \<noteq> rj_profile sanitized
         \<or> rj_sinkId previous \<noteq> rj_sinkId sanitized)) St_resume_rejected) (\<lambda>_.
     rbind (assertNondecreasingTimestamp (rj_updatedAtEpochMs previous) (rj_updatedAtEpochMs sanitized)) (\<lambda>_.
     rbind (if \<not> reconciledNotUploaded previous sanitized
            then assertEstablishedEvidence (rj_uploadId previous) (rj_uploadId sanitized) else Inr ()) (\<lambda>_.
     rbind (assertEstablishedEvidence (rj_cloudCompletionId previous) (rj_cloudCompletionId sanitized)) (\<lambda>_.
     rbind (assertEstablishedEvidence (rj_confirmationDigestHex previous) (rj_confirmationDigestHex sanitized)) (\<lambda>_.
     rbind (ensure (\<not> (indexOf RECORDING_PHASES (rj_phase previous) \<ge> indexOf RECORDING_PHASES Rp_staged
         \<and> rj_devicePlaintextSha256Hex previous \<noteq> rj_devicePlaintextSha256Hex sanitized)) St_resume_rejected) (\<lambda>_.
     if \<not> reconciledNotUploaded previous sanitized
     then assertNextPhase RECORDING_PHASES (rj_phase previous) (rj_phase sanitized) else Inr ()))))))"

definition recording_starts :: "recording_journal \<Rightarrow> storage_code + unit" where
  "recording_starts sanitized = ensure (\<not> rj_phase sanitized \<noteq> Rp_prepared) St_resume_rejected"

section \<open>Provisioning journals\<close>

datatype provisioning_phase = Pp_prepared | Pp_device_applied | Pp_backend_confirmed | Pp_aborted

record provisioning_journal =
  pj_attemptId :: jsstring
  pj_materialId :: "jsstring option"
  pj_serialNumber :: jsstring
  pj_phase :: provisioning_phase
  pj_updatedAtEpochMs :: int

primrec provisioning_phase_name :: "provisioning_phase \<Rightarrow> string" where
  "provisioning_phase_name Pp_prepared = ''prepared''"
| "provisioning_phase_name Pp_device_applied = ''device_applied''"
| "provisioning_phase_name Pp_backend_confirmed = ''backend_confirmed''"
| "provisioning_phase_name Pp_aborted = ''aborted''"

definition provisioningJournal :: "jsval \<Rightarrow> storage_code + provisioning_journal" where
  "provisioningJournal value =
     rbind (versionedRecord value) (\<lambda>r.
     rbind (member_named provisioning_phase_name
       [Pp_prepared, Pp_device_applied, Pp_backend_confirmed, Pp_aborted] (js_get r ''phase'')) (\<lambda>phase.
     rbind (recordString r ''attemptId'') (\<lambda>attemptId.
     rbind (if js_get r ''materialId'' = JUndefined \<or> js_get r ''materialId'' = JNull then Inr None
            else rbind (recordString r ''materialId'') (\<lambda>s. Inr (Some s))) (\<lambda>materialId.
     rbind (recordString r ''serialNumber'') (\<lambda>serialNumber.
     rbind (safeNonnegativeInteger (js_get r ''updatedAtEpochMs'')) (\<lambda>updatedAtEpochMs.
     Inr \<lparr>pj_attemptId = attemptId, pj_materialId = materialId, pj_serialNumber = serialNumber,
       pj_phase = phase, pj_updatedAtEpochMs = updatedAtEpochMs\<rparr>))))))"

definition provisioning_journal_value :: "provisioning_journal \<Rightarrow> jsval" where
  "provisioning_journal_value j =
     JObject
       [(''schemaVersion'', JNumber (JInt 1)),
        (''attemptId'', JString (pj_attemptId j)),
        (''materialId'', or_null (pj_materialId j)),
        (''serialNumber'', JString (pj_serialNumber j)),
        (''phase'', JString (js (provisioning_phase_name (pj_phase j)))),
        (''updatedAtEpochMs'', JNumber (JInt (pj_updatedAtEpochMs j)))]"

definition provisioning_permitted :: "provisioning_phase \<Rightarrow> provisioning_phase \<Rightarrow> bool" where
  "provisioning_permitted previous sanitized \<longleftrightarrow>
     previous = Pp_prepared \<and> (sanitized = Pp_device_applied \<or> sanitized = Pp_aborted)
     \<or> previous = Pp_device_applied \<and> sanitized = Pp_backend_confirmed"

definition provisioning_replaces :: "provisioning_journal \<Rightarrow> provisioning_journal \<Rightarrow> storage_code + unit" where
  "provisioning_replaces previous sanitized =
     rbind (ensure (\<not> (pj_attemptId previous \<noteq> pj_attemptId sanitized
         \<or> pj_materialId previous \<noteq> pj_materialId sanitized
         \<or> pj_serialNumber previous \<noteq> pj_serialNumber sanitized)) St_resume_rejected) (\<lambda>_.
     rbind (assertNondecreasingTimestamp (pj_updatedAtEpochMs previous) (pj_updatedAtEpochMs sanitized)) (\<lambda>_.
     if pj_phase previous = pj_phase sanitized then Inr ()
     else ensure (provisioning_permitted (pj_phase previous) (pj_phase sanitized)) St_resume_rejected))"

definition provisioning_starts :: "provisioning_journal \<Rightarrow> storage_code + unit" where
  "provisioning_starts sanitized = ensure (\<not> pj_phase sanitized \<noteq> Pp_prepared) St_resume_rejected"

section \<open>Firmware journals\<close>

datatype firmware_state = Fs_active | Fs_cleanup_only

record firmware_journal =
  fj_operationId :: jsstring
  fj_serialNumber :: jsstring
  fj_imageId :: jsstring
  fj_downloadId :: int
  fj_version :: jsstring
  fj_sizeBytes :: int
  fj_crc32 :: int
  fj_sha256Hex :: jsstring
  fj_blobId :: jsstring
  fj_downloadedBytes :: int
  fj_verified :: bool
  fj_state :: "firmware_state option"
  fj_updatedAtEpochMs :: int

primrec firmware_state_name :: "firmware_state \<Rightarrow> string" where
  "firmware_state_name Fs_active = ''active''"
| "firmware_state_name Fs_cleanup_only = ''cleanup_only''"

definition firmwareJournal :: "jsval \<Rightarrow> storage_code + firmware_journal" where
  "firmwareJournal value =
     rbind (versionedRecord value) (\<lambda>r.
     rbind (case js_get r ''downloadId'' of JBigInt n \<Rightarrow> if n < 0 then resumeRejected else Inr n
            | _ \<Rightarrow> resumeRejected) (\<lambda>downloadId.
     rbind (case js_get r ''verified'' of JBool b \<Rightarrow> Inr b | _ \<Rightarrow> resumeRejected) (\<lambda>verified.
     rbind (safeNonnegativeInteger (js_get r ''sizeBytes'')) (\<lambda>sizeBytes.
     rbind (safeNonnegativeInteger (js_get r ''downloadedBytes'')) (\<lambda>downloadedBytes.
     if downloadedBytes > sizeBytes then resumeRejected else
     rbind (if js_get r ''state'' = JUndefined then Inr None
            else rbind (member_named firmware_state_name [Fs_active, Fs_cleanup_only] (js_get r ''state''))
              (\<lambda>s. Inr (Some s))) (\<lambda>state.
     if state = Some Fs_cleanup_only \<and> (\<not> verified \<or> downloadedBytes \<noteq> sizeBytes) then resumeRejected else
     rbind (recordString r ''operationId'') (\<lambda>operationId.
     rbind (recordString r ''serialNumber'') (\<lambda>serialNumber.
     rbind (recordString r ''imageId'') (\<lambda>imageId.
     rbind (recordString r ''version'') (\<lambda>version.
     rbind (unsigned32 (js_get r ''crc32'')) (\<lambda>crc32.
     rbind (storage_digest (js_get r ''sha256Hex'')) (\<lambda>sha256Hex.
     rbind (recordString r ''blobId'') (\<lambda>blobId.
     rbind (safeNonnegativeInteger (js_get r ''updatedAtEpochMs'')) (\<lambda>updatedAtEpochMs.
     Inr \<lparr>fj_operationId = operationId, fj_serialNumber = serialNumber, fj_imageId = imageId,
       fj_downloadId = downloadId, fj_version = version, fj_sizeBytes = sizeBytes, fj_crc32 = crc32,
       fj_sha256Hex = sha256Hex, fj_blobId = blobId, fj_downloadedBytes = downloadedBytes,
       fj_verified = verified, fj_state = state, fj_updatedAtEpochMs = updatedAtEpochMs\<rparr>))))))))))))))"

definition firmware_journal_value :: "firmware_journal \<Rightarrow> jsval" where
  "firmware_journal_value j =
     JObject
       ([(''schemaVersion'', JNumber (JInt 1)),
         (''operationId'', JString (fj_operationId j)),
         (''serialNumber'', JString (fj_serialNumber j)),
         (''imageId'', JString (fj_imageId j)),
         (''downloadId'', JBigInt (fj_downloadId j)),
         (''version'', JString (fj_version j)),
         (''sizeBytes'', JNumber (JInt (fj_sizeBytes j))),
         (''crc32'', JNumber (JInt (fj_crc32 j))),
         (''sha256Hex'', JString (fj_sha256Hex j)),
         (''blobId'', JString (fj_blobId j)),
         (''downloadedBytes'', JNumber (JInt (fj_downloadedBytes j))),
         (''verified'', JBool (fj_verified j))]
        @ (case fj_state j of None \<Rightarrow> [] | Some s \<Rightarrow> [(''state'', JString (js (firmware_state_name s)))])
        @ [(''updatedAtEpochMs'', JNumber (JInt (fj_updatedAtEpochMs j)))])"

definition firmwareJournalState :: "firmware_journal \<Rightarrow> firmware_state" where
  "firmwareJournalState journal = (case fj_state journal of None \<Rightarrow> Fs_active | Some s \<Rightarrow> s)"

definition firmware_replaces :: "firmware_journal \<Rightarrow> firmware_journal \<Rightarrow> storage_code + unit" where
  "firmware_replaces existing sanitized =
     rbind (ensure (\<not> (fj_operationId existing \<noteq> fj_operationId sanitized
         \<or> fj_serialNumber existing \<noteq> fj_serialNumber sanitized
         \<or> fj_imageId existing \<noteq> fj_imageId sanitized
         \<or> fj_downloadId existing \<noteq> fj_downloadId sanitized
         \<or> fj_version existing \<noteq> fj_version sanitized
         \<or> fj_sizeBytes existing \<noteq> fj_sizeBytes sanitized
         \<or> fj_crc32 existing \<noteq> fj_crc32 sanitized
         \<or> fj_sha256Hex existing \<noteq> fj_sha256Hex sanitized
         \<or> fj_blobId existing \<noteq> fj_blobId sanitized
         \<or> fj_downloadedBytes sanitized < fj_downloadedBytes existing
         \<or> fj_verified existing \<and> \<not> fj_verified sanitized
         \<or> firmwareJournalState existing = Fs_cleanup_only
            \<and> firmwareJournalState sanitized \<noteq> Fs_cleanup_only)) St_resume_rejected) (\<lambda>_.
     assertNondecreasingTimestamp (fj_updatedAtEpochMs existing) (fj_updatedAtEpochMs sanitized))"

definition firmware_starts :: "firmware_journal \<Rightarrow> storage_code + unit" where
  "firmware_starts sanitized = ensure (\<not> firmwareJournalState sanitized \<noteq> Fs_active) St_resume_rejected"

section \<open>Device hints and checkpoints\<close>

record verified_device_hint =
  vd_serialNumber :: jsstring
  vd_browserDeviceId :: jsstring
  vd_name :: "jsstring option"
  vd_updatedAtEpochMs :: int

definition verifiedDevice :: "jsval \<Rightarrow> storage_code + verified_device_hint" where
  "verifiedDevice value =
     rbind (versionedRecord value) (\<lambda>r.
     rbind (recordString r ''serialNumber'') (\<lambda>serialNumber.
     rbind (recordString r ''browserDeviceId'') (\<lambda>browserDeviceId.
     rbind (nullableDisplayName (js_get r ''name'')) (\<lambda>name.
     rbind (safeNonnegativeInteger (js_get r ''updatedAtEpochMs'')) (\<lambda>updatedAtEpochMs.
     Inr \<lparr>vd_serialNumber = serialNumber, vd_browserDeviceId = browserDeviceId, vd_name = name,
       vd_updatedAtEpochMs = updatedAtEpochMs\<rparr>)))))"

definition verified_device_value :: "verified_device_hint \<Rightarrow> jsval" where
  "verified_device_value d =
     JObject
       [(''schemaVersion'', JNumber (JInt 1)),
        (''serialNumber'', JString (vd_serialNumber d)),
        (''browserDeviceId'', JString (vd_browserDeviceId d)),
        (''name'', or_null (vd_name d)),
        (''updatedAtEpochMs'', JNumber (JInt (vd_updatedAtEpochMs d)))]"

text \<open>The \<open>checkpoint\<close> of a checkpoint record that belongs to the operation.\<close>

definition checkpoint_record :: "jsval \<Rightarrow> jsstring \<Rightarrow> storage_code + jsval" where
  "checkpoint_record value operationId =
     rbind (versionedRecord value) (\<lambda>r.
       if js_get r ''operationId'' \<noteq> JString operationId \<or> \<not> js_has r ''checkpoint'' then resumeRejected
       else Inr (js_get r ''checkpoint''))"

definition checkpoint_record_value :: "jsstring \<Rightarrow> jsval \<Rightarrow> jsval" where
  "checkpoint_record_value operationId checkpoint =
     JObject
       [(''schemaVersion'', JNumber (JInt 1)),
        (''operationId'', JString operationId),
        (''checkpoint'', checkpoint)]"

section \<open>What the validators accept\<close>

definition valid_id :: "jsstring \<Rightarrow> bool" where
  "valid_id s \<longleftrightarrow> s \<noteq> [] \<and> isWellFormedUtf16 s"

definition valid_digest :: "jsstring \<Rightarrow> bool" where
  "valid_digest s \<longleftrightarrow> length s = 64 \<and> list_all lower_hex s"

definition valid_count :: "int \<Rightarrow> bool" where
  "valid_count n \<longleftrightarrow> 0 \<le> n \<and> n \<le> max_safe_integer"

lemma or_null_eq [simp]:
  "or_null x = JNull \<longleftrightarrow> x = None" "or_null x \<noteq> JUndefined" "or_null None = JNull"
  "or_null (Some s) = JString s" "JNull = or_null x \<longleftrightarrow> x = None"
  by (cases x; simp add: or_null_def)+

lemma versionedRecord_eq_Inr [simp]:
  "versionedRecord v = Inr r \<longleftrightarrow> r = v \<and> (\<exists>fs. v = JObject fs) \<and> js_get v ''schemaVersion'' = JNumber (JInt 1)"
  by (auto simp: versionedRecord_def split: jsval.splits)

lemma validPersistedIdentifier_eq_Inr [simp]:
  "validPersistedIdentifier v = Inr s \<longleftrightarrow> v = JString s \<and> valid_id s"
  by (auto simp: validPersistedIdentifier_def valid_id_def split: jsval.splits)

lemma recordString_eq_Inr [simp]: "recordString r k = Inr s \<longleftrightarrow> js_get r k = JString s \<and> valid_id s"
  by (simp add: recordString_def)

lemma nullableIdentifier_eq_Inr [simp]:
  "nullableIdentifier v = Inr x \<longleftrightarrow> v = or_null x \<and> option_all valid_id x"
  by (cases x) (auto simp: nullableIdentifier_def rbind_eq_Inr)

lemma nullableDisplayName_eq_Inr [simp]: "nullableDisplayName v = Inr x \<longleftrightarrow> v = or_null x"
  by (cases x) (auto simp: nullableDisplayName_def split: jsval.splits)

lemma storage_digest_eq_Inr [simp]: "storage_digest v = Inr s \<longleftrightarrow> v = JString s \<and> valid_digest s"
  by (auto simp: storage_digest_def valid_digest_def split: jsval.splits)

lemma nullableDigest_eq_Inr [simp]: "nullableDigest v = Inr x \<longleftrightarrow> v = or_null x \<and> option_all valid_digest x"
  by (cases x) (auto simp: nullableDigest_def rbind_eq_Inr)

lemma safeNonnegativeInteger_eq_Inr [simp]:
  "safeNonnegativeInteger v = Inr n \<longleftrightarrow> v = JNumber (JInt n) \<and> valid_count n"
  by (auto simp: safeNonnegativeInteger_def valid_count_def split: jsval.splits jsnum.splits)

lemma unsigned32_eq_Inr [simp]:
  "unsigned32 v = Inr n \<longleftrightarrow> v = JNumber (JInt n) \<and> 0 \<le> n \<and> n \<le> 0xffffffff"
  by (auto simp: unsigned32_def rbind_eq_Inr valid_count_def max_safe_integer_def
      intro!: exI [of _ n] split: if_splits)

lemma member_named_eq_Inr:
  assumes "inj name"
  shows "member_named name ms v = Inr m \<longleftrightarrow> m \<in> set ms \<and> v = JString (js (name m))"
proof -
  have "find (\<lambda>m. v = JString (js (name m))) ms = Some m \<longleftrightarrow> m \<in> set ms \<and> v = JString (js (name m))"
    using assms by (induction ms) (auto simp: inj_eq)
  then show ?thesis by (auto simp: member_named_def split: option.splits)
qed

lemma recording_phase_name_inj: "inj recording_phase_name"
proof (rule injI)
  fix x y
  assume "recording_phase_name x = recording_phase_name y"
  then show "x = y" by (cases x; cases y) simp_all
qed

lemma recording_profile_name_inj: "inj recording_profile_name"
proof (rule injI)
  fix x y
  assume "recording_profile_name x = recording_profile_name y"
  then show "x = y" by (cases x; cases y) simp_all
qed

lemma provisioning_phase_name_inj: "inj provisioning_phase_name"
proof (rule injI)
  fix x y
  assume "provisioning_phase_name x = provisioning_phase_name y"
  then show "x = y" by (cases x; cases y) simp_all
qed

lemma firmware_state_name_inj: "inj firmware_state_name"
proof (rule injI)
  fix x y
  assume "firmware_state_name x = firmware_state_name y"
  then show "x = y" by (cases x; cases y) simp_all
qed

lemma recording_phases_all [simp]: "phase \<in> set RECORDING_PHASES"
  by (cases phase) (simp_all add: RECORDING_PHASES_def)

lemma recording_phase_eq_Inr [simp]:
  "member_named recording_phase_name RECORDING_PHASES v = Inr m \<longleftrightarrow> v = JString (js (recording_phase_name m))"
  by (simp add: member_named_eq_Inr recording_phase_name_inj)

lemma recording_profile_eq_Inr [simp]:
  "member_named recording_profile_name [Profile_legacy, Profile_encrypted_upload_v2] v = Inr m
     \<longleftrightarrow> v = JString (js (recording_profile_name m))"
  using recording_profile.exhaust [of m] by (auto simp: member_named_eq_Inr recording_profile_name_inj)

lemma provisioning_phase_eq_Inr [simp]:
  "member_named provisioning_phase_name [Pp_prepared, Pp_device_applied, Pp_backend_confirmed, Pp_aborted] v = Inr m
     \<longleftrightarrow> v = JString (js (provisioning_phase_name m))"
  using provisioning_phase.exhaust [of m] by (auto simp: member_named_eq_Inr provisioning_phase_name_inj)

lemma firmware_state_eq_Inr [simp]:
  "member_named firmware_state_name [Fs_active, Fs_cleanup_only] v = Inr m
     \<longleftrightarrow> v = JString (js (firmware_state_name m))"
  using firmware_state.exhaust [of m] by (auto simp: member_named_eq_Inr firmware_state_name_inj)

lemma download_id_eq_Inr [simp]:
  "(case v of JBigInt n \<Rightarrow> if n < 0 then resumeRejected else Inr n | _ \<Rightarrow> resumeRejected) = Inr m
     \<longleftrightarrow> v = JBigInt m \<and> 0 \<le> m"
  by (cases v) auto

lemma verified_eq_Inr [simp]:
  "(case v of JBool b \<Rightarrow> Inr b | _ \<Rightarrow> resumeRejected) = Inr b \<longleftrightarrow> v = JBool b"
  by (cases v) auto

text \<open>The validators run forward on the fields they produced.\<close>

lemma validators_forward:
  "option_all valid_id x \<Longrightarrow> nullableIdentifier (or_null x) = Inr x"
  "option_all valid_digest y \<Longrightarrow> nullableDigest (or_null y) = Inr y"
  "nullableDisplayName (or_null z) = Inr z"
  "valid_count n \<Longrightarrow> safeNonnegativeInteger (JNumber (JInt n)) = Inr n"
  "0 \<le> n \<Longrightarrow> n \<le> 0xffffffff \<Longrightarrow> unsigned32 (JNumber (JInt n)) = Inr n"
  "valid_digest s \<Longrightarrow> storage_digest (JString s) = Inr s"
  "valid_id s \<Longrightarrow> validPersistedIdentifier (JString s) = Inr s"
  "member_named recording_phase_name RECORDING_PHASES (JString (js (recording_phase_name phase))) = Inr phase"
  "member_named recording_profile_name [Profile_legacy, Profile_encrypted_upload_v2]
     (JString (js (recording_profile_name profile))) = Inr profile"
  "member_named provisioning_phase_name [Pp_prepared, Pp_device_applied, Pp_backend_confirmed, Pp_aborted]
     (JString (js (provisioning_phase_name pphase))) = Inr pphase"
  "member_named firmware_state_name [Fs_active, Fs_cleanup_only] (JString (js (firmware_state_name state))) = Inr state"
  by simp_all

lemma versionedRecord_forward:
  "js_get (JObject fs) ''schemaVersion'' = JNumber (JInt 1) \<Longrightarrow> versionedRecord (JObject fs) = Inr (JObject fs)"
  by simp

lemmas forward = validators_forward versionedRecord_forward recordString_def

definition recording_journal_wf :: "recording_journal \<Rightarrow> bool" where
  "recording_journal_wf j \<longleftrightarrow>
     valid_id (rj_operationId j) \<and> valid_id (rj_serialNumber j) \<and> valid_id (rj_recordingUuid j)
     \<and> valid_id (rj_sinkId j) \<and> option_all valid_id (rj_uploadId j)
     \<and> option_all valid_id (rj_cloudCompletionId j) \<and> option_all valid_digest (rj_confirmationDigestHex j)
     \<and> option_all valid_digest (rj_devicePlaintextSha256Hex j) \<and> valid_count (rj_updatedAtEpochMs j)
     \<and> assertRecordingEvidence j = Inr ()"

definition provisioning_journal_wf :: "provisioning_journal \<Rightarrow> bool" where
  "provisioning_journal_wf j \<longleftrightarrow>
     valid_id (pj_attemptId j) \<and> option_all valid_id (pj_materialId j) \<and> valid_id (pj_serialNumber j)
     \<and> valid_count (pj_updatedAtEpochMs j)"

definition firmware_journal_wf :: "firmware_journal \<Rightarrow> bool" where
  "firmware_journal_wf j \<longleftrightarrow>
     valid_id (fj_operationId j) \<and> valid_id (fj_serialNumber j) \<and> valid_id (fj_imageId j)
     \<and> 0 \<le> fj_downloadId j \<and> valid_id (fj_version j) \<and> valid_count (fj_sizeBytes j)
     \<and> 0 \<le> fj_crc32 j \<and> fj_crc32 j \<le> 0xffffffff \<and> valid_digest (fj_sha256Hex j)
     \<and> valid_id (fj_blobId j) \<and> valid_count (fj_downloadedBytes j)
     \<and> fj_downloadedBytes j \<le> fj_sizeBytes j \<and> valid_count (fj_updatedAtEpochMs j)
     \<and> (fj_state j = Some Fs_cleanup_only \<longrightarrow> fj_verified j \<and> fj_downloadedBytes j = fj_sizeBytes j)"

definition verified_device_wf :: "verified_device_hint \<Rightarrow> bool" where
  "verified_device_wf d \<longleftrightarrow>
     valid_id (vd_serialNumber d) \<and> valid_id (vd_browserDeviceId d) \<and> valid_count (vd_updatedAtEpochMs d)"

lemma recordingJournal_wf: "recordingJournal v = Inr j \<Longrightarrow> recording_journal_wf j"
  by (auto simp: recordingJournal_def recording_journal_wf_def Let_def split: if_splits)

lemma recordingJournal_value: "recording_journal_wf j \<Longrightarrow> recordingJournal (recording_journal_value j) = Inr j"
  by (cases j) (simp add: recordingJournal_def recording_journal_wf_def recording_journal_value_def forward Let_def)

lemma provisioningJournal_wf: "provisioningJournal v = Inr j \<Longrightarrow> provisioning_journal_wf j"
  by (auto simp: provisioningJournal_def provisioning_journal_wf_def split: if_splits)

lemma provisioningJournal_value:
  "provisioning_journal_wf j \<Longrightarrow> provisioningJournal (provisioning_journal_value j) = Inr j"
  by (cases "pj_materialId j")
    (simp_all add: provisioningJournal_def provisioning_journal_wf_def provisioning_journal_value_def forward)

lemma verifiedDevice_wf: "verifiedDevice v = Inr d \<Longrightarrow> verified_device_wf d"
  by (auto simp: verifiedDevice_def verified_device_wf_def)

lemma verifiedDevice_value: "verified_device_wf d \<Longrightarrow> verifiedDevice (verified_device_value d) = Inr d"
  by (simp add: verifiedDevice_def verified_device_wf_def verified_device_value_def forward)

lemma firmwareJournal_wf:
  assumes "firmwareJournal v = Inr j"
  shows "firmware_journal_wf j"
  using assms unfolding firmwareJournal_def firmware_journal_wf_def
  by (elim rbind_InrE if_InrE) (auto simp: not_less)

lemma firmware_journal_fields:
  "js_get (firmware_journal_value j) ''state'' =
     (case fj_state j of None \<Rightarrow> JUndefined | Some s \<Rightarrow> JString (js (firmware_state_name s)))"
  "js_get (firmware_journal_value j) ''updatedAtEpochMs'' = JNumber (JInt (fj_updatedAtEpochMs j))"
  by (cases "fj_state j"; simp add: firmware_journal_value_def)+

lemma firmwareJournal_value:
  assumes "firmware_journal_wf j"
  shows "firmwareJournal (firmware_journal_value j) = Inr j"
proof -
  obtain fs where fs: "firmware_journal_value j = JObject fs" by (simp add: firmware_journal_value_def)
  have get: "js_get (firmware_journal_value j) ''schemaVersion'' = JNumber (JInt 1)"
    "js_get (firmware_journal_value j) ''operationId'' = JString (fj_operationId j)"
    "js_get (firmware_journal_value j) ''serialNumber'' = JString (fj_serialNumber j)"
    "js_get (firmware_journal_value j) ''imageId'' = JString (fj_imageId j)"
    "js_get (firmware_journal_value j) ''downloadId'' = JBigInt (fj_downloadId j)"
    "js_get (firmware_journal_value j) ''version'' = JString (fj_version j)"
    "js_get (firmware_journal_value j) ''sizeBytes'' = JNumber (JInt (fj_sizeBytes j))"
    "js_get (firmware_journal_value j) ''crc32'' = JNumber (JInt (fj_crc32 j))"
    "js_get (firmware_journal_value j) ''sha256Hex'' = JString (fj_sha256Hex j)"
    "js_get (firmware_journal_value j) ''blobId'' = JString (fj_blobId j)"
    "js_get (firmware_journal_value j) ''downloadedBytes'' = JNumber (JInt (fj_downloadedBytes j))"
    "js_get (firmware_journal_value j) ''verified'' = JBool (fj_verified j)"
    by (simp_all add: firmware_journal_value_def)
  have whole: "versionedRecord (firmware_journal_value j) = Inr (firmware_journal_value j)"
    using get(1) fs by simp
  show ?thesis
    using assms
    by (cases "fj_state j")
      (auto simp: firmwareJournal_def firmware_journal_wf_def whole get firmware_journal_fields forward)
qed

interpretation recording_journal_codec:
  strict_codec "Inr \<circ> recording_journal_value" recordingJournal recording_journal_wf
  by unfold_locales (auto simp: recordingJournal_value dest: recordingJournal_wf)

interpretation provisioning_journal_codec:
  strict_codec "Inr \<circ> provisioning_journal_value" provisioningJournal provisioning_journal_wf
  by unfold_locales (auto simp: provisioningJournal_value dest: provisioningJournal_wf)

interpretation firmware_journal_codec:
  strict_codec "Inr \<circ> firmware_journal_value" firmwareJournal firmware_journal_wf
  by unfold_locales (auto simp: firmwareJournal_value dest: firmwareJournal_wf)

interpretation verified_device_codec:
  strict_codec "Inr \<circ> verified_device_value" verifiedDevice verified_device_wf
  by unfold_locales (auto simp: verifiedDevice_value dest: verifiedDevice_wf)

end
