(* ===== verification/BlobStore.thy ===== *)
theory BlobStore
  imports Journals
begin

text \<open>
  \<^verbatim>\<open>frameworks/web/src/opfsBlobStore.ts\<close>: blobs as files of the origin private file system.

  The files are a function from the name of the directory of a namespace and a file name.  Each call of the
  file system API may throw what the environment says (\<open>opfs_env\<close>).  A writable stream works on a
  copy of the file that replaces it when the stream is closed.  The mutations of a blob run under
  the lock of the blob (\<open>withInProcessBlobLock\<close>, a chain of promises) in two steps: the size is checked,
  then the stream is written; anything that does not take the lock may happen between them.
\<close>

section \<open>Validation\<close>

definition validateLength :: "jsnum \<Rightarrow> bool \<Rightarrow> storage_code + int" where
  "validateLength value allowZero =
     (case value of
        JInt n \<Rightarrow> if \<not> is_safe_integer (JNumber (JInt n)) \<or> n < 0 \<or> \<not> allowZero \<and> n = 0
                  then Inl St_invalid_input else Inr n
      | JNonInt _ \<Rightarrow> Inl St_invalid_input)"

definition validateOffset :: "jsnum \<Rightarrow> storage_code + int" where
  "validateOffset value = validateLength value True"

definition validateRange :: "jsnum \<Rightarrow> jsnum \<Rightarrow> storage_code + (int \<times> int)" where
  "validateRange offset len =
     rbind (validateOffset offset) (\<lambda>o'. rbind (validateLength len True) (\<lambda>l.
       if l > max_safe_integer - o' then Inl St_invalid_input else Inr (o', l)))"

definition validFileSize :: "int \<Rightarrow> storage_code + int" where
  "validFileSize n = (if n > max_safe_integer \<or> n < 0 then resumeRejected else Inr n)"

section \<open>The file system\<close>

type_synonym opfs = "jsstring \<times> jsstring \<Rightarrow> bytes option"

record opfs_env =
  oe_directory :: "js_error option"
  oe_file :: "js_error option"
  oe_read :: "js_error option"
  oe_create :: "js_error option"
  oe_action :: "js_error option"
  oe_close :: "js_error option"
  oe_remove :: "js_error option"

definition opfs_ok :: opfs_env where
  "opfs_ok = \<lparr>oe_directory = None, oe_file = None, oe_read = None, oe_create = None, oe_action = None,
     oe_close = None, oe_remove = None\<rparr>"

definition opfs_try :: "js_error option \<Rightarrow> storage_code + unit" where
  "opfs_try failure = (case failure of Some e \<Rightarrow> Inl (mapBrowserStorageError e) | None \<Rightarrow> Inr ())"

text \<open>\<open>fileHandle\<close>: the file is created if it is not there.\<close>

definition fileHandle :: "opfs_env \<Rightarrow> jsstring \<times> jsstring \<Rightarrow> opfs \<Rightarrow> (storage_code + bytes) \<times> opfs" where
  "fileHandle env f fs =
     (case rbind (opfs_try (oe_directory env)) (\<lambda>_. opfs_try (oe_file env)) of
        Inl e \<Rightarrow> (Inl e, fs)
      | Inr _ \<Rightarrow>
          (case fs f of
             Some bs \<Rightarrow> (Inr bs, fs)
           | None \<Rightarrow> (Inr [], fs(f := Some []))))"

definition blob_size :: "opfs_env \<Rightarrow> jsstring \<times> jsstring \<Rightarrow> opfs \<Rightarrow> (storage_code + int) \<times> opfs" where
  "blob_size env f fs =
     (case fileHandle env f fs of
        (Inl e, fs1) \<Rightarrow> (Inl e, fs1)
      | (Inr bs, fs1) \<Rightarrow>
          (rbind (opfs_try (oe_read env)) (\<lambda>_. validFileSize (int (length bs))), fs1))"

text \<open>A write behind the end of a file fills the gap with zeros, as does a truncation to a greater size.\<close>

definition resized :: "nat \<Rightarrow> bytes \<Rightarrow> bytes" where
  "resized n bs = take n bs @ replicate (n - length bs) 0"

definition written :: "nat \<Rightarrow> bytes \<Rightarrow> bytes \<Rightarrow> bytes" where
  "written n new bs = resized n bs @ new @ drop (n + length new) bs"

definition withWritable :: "opfs_env \<Rightarrow> jsstring \<times> jsstring \<Rightarrow> (bytes \<Rightarrow> bytes) \<Rightarrow> opfs \<Rightarrow> (storage_code + unit) \<times> opfs" where
  "withWritable env f action fs =
     (case fileHandle env f fs of
        (Inl e, fs1) \<Rightarrow> (Inl e, fs1)
      | (Inr bs, fs1) \<Rightarrow>
          (case rbind (opfs_try (oe_create env)) (\<lambda>_. rbind (opfs_try (oe_action env)) (\<lambda>_. opfs_try (oe_close env))) of
             Inl e \<Rightarrow> (Inl e, fs1)
           | Inr _ \<Rightarrow> (Inr (), fs1(f := Some (action bs)))))"

section \<open>The store\<close>

definition hashName :: "(nat list \<Rightarrow> js_error + bytes) \<Rightarrow> jsstring \<Rightarrow> storage_code + jsstring" where
  "hashName sha256 value =
     (case sha256 (utf8 value) of
        Inl e \<Rightarrow> Inl (mapBrowserStorageError e)
      | Inr digest \<Rightarrow>
          if length digest \<noteq> 32 then Inl St_storage_unavailable
          else Inr (concat (map (\<lambda>b. hex_byte (unat b)) digest)))"

text \<open>The constructor, and \<open>open\<close>: the file of a blob.\<close>

definition namespaceDirectoryName :: "(nat list \<Rightarrow> js_error + bytes) \<Rightarrow> jsstring \<Rightarrow> storage_code + jsstring" where
  "namespaceDirectoryName sha256 namespace =
     rbind (validateStorageNamespace namespace) (\<lambda>_. hashName sha256 namespace)"

definition open_blob :: "(nat list \<Rightarrow> js_error + bytes) \<Rightarrow> jsstring \<Rightarrow> jsstring \<Rightarrow> storage_code + jsstring \<times> jsstring" where
  "open_blob sha256 directory blobId =
     rbind (validateStorageIdentifier blobId) (\<lambda>_.
       rbind (hashName sha256 blobId) (\<lambda>fileName. Inr (directory, fileName)))"

definition lockName :: "jsstring \<times> jsstring \<Rightarrow> jsstring" where
  "lockName f = js ''bota-app-sdk:v1:'' @ fst f @ colon # snd f"

definition blobs_clear :: "js_error option \<Rightarrow> jsstring \<Rightarrow> opfs \<Rightarrow> (storage_code + unit) \<times> opfs" where
  "blobs_clear failure directory fs =
     (case failure of
        Some e \<Rightarrow>
          if domExceptionName e = Some (js ''NotFoundError'') then (Inr (), fs)
          else (Inl (mapBrowserStorageError e), fs)
      | None \<Rightarrow> (Inr (), \<lambda>f. if fst f = directory then None else fs f))"

section \<open>Reading\<close>

definition blob_read :: "opfs_env \<Rightarrow> jsstring \<times> jsstring \<Rightarrow> jsnum \<Rightarrow> jsnum \<Rightarrow> opfs \<Rightarrow> (storage_code + bytes) \<times> opfs" where
  "blob_read env f offset maximumLength fs =
     (case rbind (validateOffset offset) (\<lambda>_. rbind (validateLength maximumLength True) (\<lambda>_.
             validateRange offset maximumLength)) of
        Inl e \<Rightarrow> (Inl e, fs)
      | Inr (o', n) \<Rightarrow>
          if n = 0 then (Inr [], fs)
          else
            (case fileHandle env f fs of
               (Inl e, fs1) \<Rightarrow> (Inl e, fs1)
             | (Inr bs, fs1) \<Rightarrow>
                 (rbind (opfs_try (oe_read env)) (\<lambda>_. rbind (validFileSize (int (length bs))) (\<lambda>fileSize.
                    if o' \<ge> fileSize then Inr []
                    else Inr (take (nat (min fileSize (o' + n) - o')) (drop (nat o') bs)))), fs1)))"

text \<open>The reads of \<open>stream\<close>, once it knows the size.\<close>

function stream_reads :: "int \<Rightarrow> int \<Rightarrow> int \<Rightarrow> (int \<times> int) list" where
  "stream_reads chunkSize fileEnd offset =
     (if chunkSize \<le> 0 \<or> offset \<ge> fileEnd then []
      else
        let len = min chunkSize (fileEnd - offset) in
        (offset, len) # stream_reads chunkSize fileEnd (offset + len))"
  by pat_completeness auto
termination
  by (relation "measure (\<lambda>(c, fileEnd, offset). nat (fileEnd - offset))") auto

text \<open>Between two chunks the caller has the control, so each read has its own environment and files.\<close>

fun stream_chunks :: "jsstring \<times> jsstring \<Rightarrow> (int \<times> int) list \<Rightarrow> (opfs_env \<times> opfs) list \<Rightarrow> storage_code + bytes list" where
  "stream_chunks f [] states = Inr []"
| "stream_chunks f (r # rs) [] = Inr []"
| "stream_chunks f ((offset, len) # rs) ((env, fs) # states) =
     rbind (fst (blob_read env f (JInt offset) (JInt len) fs)) (\<lambda>chunk.
       rbind (stream_chunks f rs states) (\<lambda>chunks. Inr (chunk # chunks)))"

definition blob_stream :: "jsstring \<times> jsstring \<Rightarrow> jsnum \<Rightarrow> opfs_env \<Rightarrow> opfs \<Rightarrow> (opfs_env \<times> opfs) list \<Rightarrow> storage_code + bytes list" where
  "blob_stream f chunkSize env fs states =
     rbind (validateLength chunkSize False) (\<lambda>c.
       rbind (fst (blob_size env f fs)) (\<lambda>fileEnd. stream_chunks f (stream_reads c fileEnd 0) states))"

section \<open>Mutations under the lock\<close>

datatype mutation = M_truncate int | M_write int bytes | M_delete

text \<open>What \<open>truncate\<close> and \<open>write\<close> check before they ask for the lock.\<close>

definition truncate_request :: "jsnum \<Rightarrow> storage_code + mutation" where
  "truncate_request newSize = rbind (validateOffset newSize) (\<lambda>n. Inr (M_truncate n))"

definition write_request :: "jsnum \<Rightarrow> bytes option \<Rightarrow> storage_code + mutation" where
  "write_request offset bs =
     rbind (validateOffset offset) (\<lambda>_.
       (case bs of
          None \<Rightarrow> Inl St_invalid_input
        | Some copy \<Rightarrow> rbind (validateRange offset (JInt (int (length copy)))) (\<lambda>(o', _). Inr (M_write o' copy))))"

text \<open>
  The first step of the action under the lock: \<open>Inl\<close> if the action ends here, with its outcome; \<open>Inr\<close>
  if it goes on to write.
\<close>

fun mutation_check :: "opfs_env \<Rightarrow> jsstring \<times> jsstring \<Rightarrow> mutation \<Rightarrow> opfs \<Rightarrow> ((storage_code + unit) + unit) \<times> opfs" where
  "mutation_check env f (M_truncate newSize) fs =
     (case blob_size env f fs of
        (Inl e, fs1) \<Rightarrow> (Inl (Inl e), fs1)
      | (Inr currentSize, fs1) \<Rightarrow>
          if newSize > currentSize then (Inl resumeRejected, fs1)
          else if newSize = currentSize then (Inl (Inr ()), fs1)
          else (Inr (), fs1))"
| "mutation_check env f (M_write offset bs) fs =
     (case blob_size env f fs of
        (Inl e, fs1) \<Rightarrow> (Inl (Inl e), fs1)
      | (Inr currentSize, fs1) \<Rightarrow>
          if offset \<noteq> currentSize then (Inl resumeRejected, fs1)
          else if length bs = 0 then (Inl (Inr ()), fs1)
          else (Inr (), fs1))"
| "mutation_check env f M_delete fs =
     (case opfs_try (oe_directory env) of Inl e \<Rightarrow> (Inl (Inl e), fs) | Inr _ \<Rightarrow> (Inr (), fs))"

definition not_found_error :: js_error where
  "not_found_error = Thrown (JObject [(''name'', JString (js ''NotFoundError''))])"

definition removal_failure :: "opfs_env \<Rightarrow> jsstring \<times> jsstring \<Rightarrow> opfs \<Rightarrow> js_error option" where
  "removal_failure env f fs = (if fs f = None then Some not_found_error else oe_remove env)"

fun mutation_commit :: "opfs_env \<Rightarrow> jsstring \<times> jsstring \<Rightarrow> mutation \<Rightarrow> opfs \<Rightarrow> (storage_code + unit) \<times> opfs" where
  "mutation_commit env f (M_truncate newSize) fs = withWritable env f (resized (nat newSize)) fs"
| "mutation_commit env f (M_write offset bs) fs = withWritable env f (written (nat offset) bs) fs"
| "mutation_commit env f M_delete fs =
     (case removal_failure env f fs of
        Some e \<Rightarrow>
          if domExceptionName e = Some (js ''NotFoundError'') then (Inr (), fs)
          else (Inl (mapBrowserStorageError e), fs)
      | None \<Rightarrow> (Inr (), fs(f := None)))"

section \<open>The lock\<close>

text \<open>
  A task is one call of \<open>withInProcessBlobLock\<close>: \<open>bt_prev\<close> names the tail it waits for (\<open>None\<close>: a
  resolved promise).  Its own tail resolves when the previous one has and its gate is
  open, which happens when its action has finished.
\<close>

datatype task_phase = Waiting | Checked | Finished "storage_code + unit"

record blob_task =
  bt_file :: "jsstring \<times> jsstring"
  bt_job :: mutation
  bt_prev :: "nat option"
  bt_phase :: task_phase

record blob_state =
  bs_files :: opfs
  bs_tasks :: "blob_task list"
  bs_locks :: "(jsstring \<times> jsstring) \<Rightarrow> nat option"

definition released :: "blob_task \<Rightarrow> bool" where
  "released t = (case bt_phase t of Finished _ \<Rightarrow> True | _ \<Rightarrow> False)"

function tail_resolved :: "blob_task list \<Rightarrow> nat \<Rightarrow> bool" where
  "tail_resolved ts k \<longleftrightarrow>
     k < length ts \<and> released (ts ! k)
     \<and> (case bt_prev (ts ! k) of None \<Rightarrow> True | Some p \<Rightarrow> if p < k then tail_resolved ts p else False)"
  by pat_completeness auto
termination
  by (relation "measure snd") auto

declare tail_resolved.simps [simp del]

definition granted :: "blob_task list \<Rightarrow> blob_task \<Rightarrow> bool" where
  "granted ts t = (case bt_prev t of None \<Rightarrow> True | Some p \<Rightarrow> tail_resolved ts p)"

definition request_lock :: "jsstring \<times> jsstring \<Rightarrow> mutation \<Rightarrow> blob_state \<Rightarrow> blob_state" where
  "request_lock f job s =
     s\<lparr>bs_tasks := bs_tasks s @ [\<lparr>bt_file = f, bt_job = job, bt_prev = bs_locks s f, bt_phase = Waiting\<rparr>],
       bs_locks := (bs_locks s)(f := Some (length (bs_tasks s)))\<rparr>"

text \<open>The \<open>finally\<close> block: the gate opens, and the entry of the lock goes if no later task has taken it.\<close>

definition release_lock :: "nat \<Rightarrow> storage_code + unit \<Rightarrow> blob_state \<Rightarrow> blob_state" where
  "release_lock k r s =
     (let t = bs_tasks s ! k;
          s1 = s\<lparr>bs_tasks := (bs_tasks s)[k := t\<lparr>bt_phase := Finished r\<rparr>]\<rparr> in
      if bs_locks s (bt_file t) = Some k then s1\<lparr>bs_locks := (bs_locks s)(bt_file t := None)\<rparr> else s1)"

datatype blob_action =
    B_request "jsstring \<times> jsstring" mutation
  | B_check nat opfs_env
  | B_commit nat opfs_env
  | B_size "jsstring \<times> jsstring" opfs_env
  | B_read "jsstring \<times> jsstring" opfs_env jsnum jsnum
  | B_clear jsstring "js_error option"

definition holds_lock :: "blob_state \<Rightarrow> nat \<Rightarrow> bool" where
  "holds_lock s k \<longleftrightarrow>
     k < length (bs_tasks s) \<and> \<not> released (bs_tasks s ! k) \<and> granted (bs_tasks s) (bs_tasks s ! k)"

fun blob_act :: "blob_action \<Rightarrow> blob_state \<Rightarrow> blob_state option" where
  "blob_act (B_request f job) s = Some (request_lock f job s)"
| "blob_act (B_check k env) s =
     (if holds_lock s k \<and> bt_phase (bs_tasks s ! k) = Waiting
      then
        let t = bs_tasks s ! k in
        Some (case mutation_check env (bt_file t) (bt_job t) (bs_files s) of
          (Inl r, fs) \<Rightarrow> release_lock k r (s\<lparr>bs_files := fs\<rparr>)
        | (Inr _, fs) \<Rightarrow>
            s\<lparr>bs_files := fs, bs_tasks := (bs_tasks s)[k := t\<lparr>bt_phase := Checked\<rparr>]\<rparr>)
      else None)"
| "blob_act (B_commit k env) s =
     (if holds_lock s k \<and> bt_phase (bs_tasks s ! k) = Checked
      then
        let t = bs_tasks s ! k in
        Some (case mutation_commit env (bt_file t) (bt_job t) (bs_files s) of
          (r, fs) \<Rightarrow> release_lock k r (s\<lparr>bs_files := fs\<rparr>))
      else None)"
| "blob_act (B_size f env) s = Some (s\<lparr>bs_files := snd (blob_size env f (bs_files s))\<rparr>)"
| "blob_act (B_read f env offset n) s = Some (s\<lparr>bs_files := snd (blob_read env f offset n (bs_files s))\<rparr>)"
| "blob_act (B_clear directory failure) s = Some (s\<lparr>bs_files := snd (blobs_clear failure directory (bs_files s))\<rparr>)"

definition initial_blobs :: "opfs \<Rightarrow> blob_state" where
  "initial_blobs fs = \<lparr>bs_files = fs, bs_tasks = [], bs_locks = (\<lambda>_. None)\<rparr>"

text \<open>The states of all histories; with \<open>False\<close> of those in which no namespace is cleared.\<close>

definition is_clear :: "blob_action \<Rightarrow> bool" where
  "is_clear x = (case x of B_clear d e \<Rightarrow> True | _ \<Rightarrow> False)"

inductive blobs_reachable :: "bool \<Rightarrow> blob_state \<Rightarrow> bool" for clears where
  initial: "blobs_reachable clears (initial_blobs fs)"
| step: "blobs_reachable clears s \<Longrightarrow> is_clear x \<Longrightarrow> clears \<Longrightarrow> blob_act x s = Some s' \<Longrightarrow> blobs_reachable clears s'"
| quiet_step: "blobs_reachable clears s \<Longrightarrow> \<not> is_clear x \<Longrightarrow> blob_act x s = Some s' \<Longrightarrow> blobs_reachable clears s'"

section \<open>The lock excludes and goes on\<close>

text \<open>
  The invariant of the lock: the tasks of a file form a chain from the first to the one the lock
  names, and behind a file without an entry no task is open.
\<close>

definition last_of :: "blob_task list \<Rightarrow> jsstring \<times> jsstring \<Rightarrow> nat \<Rightarrow> nat option" where
  "last_of ts f k = find (\<lambda>j. bt_file (ts ! j) = f) (rev [0..<k])"

definition chained :: "blob_task list \<Rightarrow> nat \<Rightarrow> bool" where
  "chained ts k \<longleftrightarrow> (case bt_prev (ts ! k) of
     None \<Rightarrow> (\<forall>j < k. bt_file (ts ! j) = bt_file (ts ! k) \<longrightarrow> tail_resolved ts j)
   | Some p \<Rightarrow> p < k \<and> last_of ts (bt_file (ts ! k)) k = Some p)"

definition locked_by :: "blob_task list \<Rightarrow> jsstring \<times> jsstring \<Rightarrow> nat option \<Rightarrow> bool" where
  "locked_by ts f entry \<longleftrightarrow> (case entry of
     None \<Rightarrow> (\<forall>j < length ts. bt_file (ts ! j) = f \<longrightarrow> tail_resolved ts j)
   | Some k \<Rightarrow> last_of ts f (length ts) = Some k)"

definition lock_inv :: "blob_state \<Rightarrow> bool" where
  "lock_inv s \<longleftrightarrow>
     (\<forall>k < length (bs_tasks s). chained (bs_tasks s) k)
     \<and> (\<forall>f. locked_by (bs_tasks s) f (bs_locks s f))
     \<and> (\<forall>k < length (bs_tasks s). bt_phase (bs_tasks s ! k) \<noteq> Waiting \<longrightarrow> granted (bs_tasks s) (bs_tasks s ! k))"

lemma lock_inv_locked: "lock_inv s \<Longrightarrow> locked_by (bs_tasks s) f (bs_locks s f)"
  unfolding lock_inv_def by blast

lemma last_of_Some:
  "last_of ts f k = Some j \<longleftrightarrow> j < k \<and> bt_file (ts ! j) = f \<and> (\<forall>i. j < i \<and> i < k \<longrightarrow> bt_file (ts ! i) \<noteq> f)"
proof (induction k)
  case 0
  then show ?case by (simp add: last_of_def)
next
  case (Suc k)
  then show ?case by (auto simp: last_of_def less_Suc_eq)
qed

lemma last_of_None: "last_of ts f k = None \<longleftrightarrow> (\<forall>j < k. bt_file (ts ! j) \<noteq> f)"
  by (induction k) (auto simp: last_of_def less_Suc_eq find_None_iff)

text \<open>A resolved tail stays resolved when tasks are added or finish.\<close>

definition progresses :: "blob_task list \<Rightarrow> blob_task list \<Rightarrow> bool" where
  "progresses ts ts' \<longleftrightarrow> length ts \<le> length ts'
     \<and> (\<forall>k < length ts. bt_file (ts' ! k) = bt_file (ts ! k) \<and> bt_prev (ts' ! k) = bt_prev (ts ! k)
          \<and> (released (ts ! k) \<longrightarrow> released (ts' ! k)))"

lemma tail_resolved_mono: "progresses ts ts' \<Longrightarrow> tail_resolved ts k \<Longrightarrow> tail_resolved ts' k"
proof (induction ts k rule: tail_resolved.induct)
  case (1 ts k)
  from "1.prems"(2) have k: "k < length ts" "released (ts ! k)"
    by (subst (asm) tail_resolved.simps, simp)+
  show ?case
  proof (cases "bt_prev (ts ! k)")
    case None
    with k "1.prems"(1) show ?thesis by (subst tail_resolved.simps) (auto simp: progresses_def)
  next
    case (Some p)
    then have p: "p < k" "tail_resolved ts p"
      using "1.prems"(2) by (subst (asm) tail_resolved.simps, simp split: if_splits)+
    with Some "1.IH" "1.prems"(1) have "tail_resolved ts' p" by blast
    with Some p k "1.prems"(1) show ?thesis by (subst tail_resolved.simps) (auto simp: progresses_def)
  qed
qed

lemma granted_mono:
  assumes "progresses ts ts'" and "granted ts t" and "bt_prev t' = bt_prev t"
  shows "granted ts' t'"
  using assms tail_resolved_mono by (auto simp: granted_def split: option.splits)

lemma tail_resolved_released: "tail_resolved ts k \<Longrightarrow> k < length ts \<and> released (ts ! k)"
  by (subst (asm) tail_resolved.simps) simp

text \<open>Before a task whose turn it is, every task of the file has finished.\<close>

lemma resolved_all_before:
  assumes "lock_inv s" and "k < length (bs_tasks s)" and "granted (bs_tasks s) (bs_tasks s ! k)"
    and "j < k" and "bt_file (bs_tasks s ! j) = bt_file (bs_tasks s ! k)"
  shows "tail_resolved (bs_tasks s) j"
  using assms(2-)
proof (induction k arbitrary: j rule: less_induct)
  case (less k)
  let ?ts = "bs_tasks s"
  have inv: "chained ?ts k" using assms(1) less.prems(1) by (simp add: lock_inv_def)
  show ?case
  proof (cases "bt_prev (?ts ! k)")
    case None
    with inv less.prems show ?thesis by (simp add: chained_def)
  next
    case (Some p)
    with inv have p: "p < k" "last_of ?ts (bt_file (?ts ! k)) k = Some p" by (simp_all add: chained_def)
    then have f: "bt_file (?ts ! p) = bt_file (?ts ! k)" and last: "\<not> p < j"
      using less.prems(3,4) by (auto simp: last_of_Some)
    have r: "tail_resolved ?ts p" using less.prems(2) Some by (simp add: granted_def)
    show ?thesis
    proof (cases "j = p")
      case True
      with r show ?thesis by simp
    next
      case False
      with last have "j < p" by simp
      moreover have "granted ?ts (?ts ! p)"
        using r by (subst (asm) tail_resolved.simps) (auto simp: granted_def split: option.splits if_splits)
      ultimately show ?thesis using less.IH [of p j] p(1) less.prems f by simp
    qed
  qed
qed

text \<open>The oldest open task of a file is the one whose turn it is.\<close>

lemma first_open_granted:
  assumes "lock_inv s" and "k < length (bs_tasks s)"
    and "\<forall>j < k. bt_file (bs_tasks s ! j) = bt_file (bs_tasks s ! k) \<longrightarrow> released (bs_tasks s ! j)"
  shows "granted (bs_tasks s) (bs_tasks s ! k)"
  using assms(2-)
proof (induction k rule: less_induct)
  case (less k)
  let ?ts = "bs_tasks s"
  have inv: "chained ?ts k" using assms(1) less.prems(1) by (simp add: lock_inv_def)
  show ?case
  proof (cases "bt_prev (?ts ! k)")
    case None
    then show ?thesis by (simp add: granted_def)
  next
    case (Some p)
    with inv have p: "p < k" "bt_file (?ts ! p) = bt_file (?ts ! k)" by (simp_all add: chained_def last_of_Some)
    with less have "granted ?ts (?ts ! p)" "released (?ts ! p)" by simp_all
    moreover have "case bt_prev (?ts ! p) of None \<Rightarrow> True | Some q \<Rightarrow> q < p"
      using assms(1) p less.prems(1) by (auto simp: lock_inv_def chained_def split: option.splits)
    ultimately have "tail_resolved ?ts p"
      using p(1) less.prems(1) by (subst tail_resolved.simps) (auto simp: granted_def split: option.splits if_splits)
    with Some show ?thesis by (simp add: granted_def)
  qed
qed

text \<open>At most one task holds the lock of a file, and no later one gets it first.\<close>

lemma lock_exclusive:
  assumes "lock_inv s" and "holds_lock s j" and "holds_lock s k"
    and "bt_file (bs_tasks s ! j) = bt_file (bs_tasks s ! k)"
  shows "j = k"
proof -
  have "\<not> j < k" if "holds_lock s j" "holds_lock s k" "bt_file (bs_tasks s ! j) = bt_file (bs_tasks s ! k)" for j k
    using that resolved_all_before [OF assms(1), of k j] tail_resolved_released [of "bs_tasks s" j]
    by (auto simp: holds_lock_def)
  with assms show ?thesis by (metis linorder_neqE_nat)
qed

lemma last_of_cong: "(\<And>j. j < k \<Longrightarrow> bt_file (ts' ! j) = bt_file (ts ! j)) \<Longrightarrow> last_of ts' f k = last_of ts f k"
  unfolding last_of_def by (rule find_cong) auto

lemma lock_inv_request: "lock_inv s \<Longrightarrow> lock_inv (request_lock f job s)"
proof -
  assume inv: "lock_inv s"
  let ?ts = "bs_tasks s" and ?n = "length (bs_tasks s)"
  let ?t = "\<lparr>bt_file = f, bt_job = job, bt_prev = bs_locks s f, bt_phase = Waiting\<rparr>"
  let ?ts' = "?ts @ [?t]"
  have p: "progresses ?ts ?ts'" by (simp add: progresses_def nth_append)
  have lst: "last_of ?ts' g k = last_of ?ts g k" if "k \<le> ?n" for g k
    using that by (intro last_of_cong) (simp add: nth_append)
  have res: "tail_resolved ?ts j \<Longrightarrow> tail_resolved ?ts' j" for j by (rule tail_resolved_mono [OF p])
  have chain: "chained ?ts' k" if "k < Suc ?n" for k
  proof (cases "k < ?n")
    case True
    with inv have "chained ?ts k" by (simp add: lock_inv_def)
    with True res lst [of k] show ?thesis by (auto simp: chained_def nth_append split: option.splits)
  next
    case False
    with that have k: "k = ?n" by simp
    from inv have "locked_by ?ts f (bs_locks s f)" by (rule lock_inv_locked)
    with k res lst [of ?n] show ?thesis
      by (auto simp: chained_def locked_by_def nth_append last_of_Some split: option.splits)
  qed
  have locks: "locked_by ?ts' g (((bs_locks s)(f := Some ?n)) g)" for g
  proof (cases "g = f")
    case True
    then show ?thesis by (auto simp: locked_by_def last_of_Some)
  next
    case False
    from inv have "locked_by ?ts g (bs_locks s g)" by (rule lock_inv_locked)
    with False res lst [of ?n] show ?thesis
      by (auto simp: locked_by_def nth_append last_of_Some less_Suc_eq split: option.splits)
  qed
  have phase: "granted ?ts' (?ts' ! k)" if "k < Suc ?n" "bt_phase (?ts' ! k) \<noteq> Waiting" for k
  proof -
    from that have k: "k < ?n" by (cases "k < ?n") (simp_all add: less_Suc_eq nth_append)
    with that inv have "granted ?ts (?ts ! k)" by (simp add: lock_inv_def nth_append)
    then show ?thesis by (rule granted_mono [OF p]) (simp add: k nth_append)
  qed
  show ?thesis
    unfolding lock_inv_def request_lock_def using chain locks phase by simp
qed

text \<open>A task whose turn it is goes on or finishes.\<close>

lemma progresses_phase:
  assumes "k < length ts" and "\<not> released (ts ! k)"
  shows "progresses ts (ts[k := (ts ! k)\<lparr>bt_phase := ph\<rparr>])"
  using assms by (simp add: progresses_def nth_list_update)

lemma lock_inv_phase:
  assumes inv: "lock_inv s" and hold: "holds_lock s k"
  shows "lock_inv (s\<lparr>bs_files := fs, bs_tasks := (bs_tasks s)[k := (bs_tasks s ! k)\<lparr>bt_phase := ph\<rparr>]\<rparr>)"
proof -
  let ?ts = "bs_tasks s"
  let ?ts' = "?ts[k := (?ts ! k)\<lparr>bt_phase := ph\<rparr>]"
  from hold have k: "k < length ?ts" "\<not> released (?ts ! k)" "granted ?ts (?ts ! k)" by (auto simp: holds_lock_def)
  have p: "progresses ?ts ?ts'" using k by (intro progresses_phase)
  have f: "bt_file (?ts' ! j) = bt_file (?ts ! j)" "bt_prev (?ts' ! j) = bt_prev (?ts ! j)" for j
    using k by (cases "j = k"; simp)+
  have lst: "last_of ?ts' g n = last_of ?ts g n" for g n using f by (intro last_of_cong)
  have res: "tail_resolved ?ts j \<Longrightarrow> tail_resolved ?ts' j" for j by (rule tail_resolved_mono [OF p])
  have g: "granted ?ts (?ts ! j) \<Longrightarrow> granted ?ts' (?ts' ! j)" for j
    by (rule granted_mono [OF p]) (simp_all add: f)
  have "bt_phase (?ts' ! j) \<noteq> Waiting \<longrightarrow> granted ?ts' (?ts' ! j)" if "j < length ?ts" for j
    using inv that k(3) g [of j] by (cases "j = k") (auto simp: lock_inv_def)
  moreover have "chained ?ts' j" if "j < length ?ts" for j
  proof -
    have "chained ?ts j" using inv that by (simp add: lock_inv_def)
    with res show ?thesis by (auto simp: chained_def f lst split: option.splits)
  qed
  moreover have "locked_by ?ts' g (bs_locks s g)" for g
  proof -
    have "locked_by ?ts g (bs_locks s g)" using inv by (rule lock_inv_locked)
    with res show ?thesis by (auto simp: locked_by_def f lst split: option.splits)
  qed
  ultimately show ?thesis unfolding lock_inv_def by simp
qed

lemma lock_inv_release:
  assumes inv: "lock_inv s" and hold: "holds_lock s k"
  shows "lock_inv (release_lock k r (s\<lparr>bs_files := fs\<rparr>))"
proof -
  let ?ts = "bs_tasks s"
  let ?t = "(?ts ! k)\<lparr>bt_phase := Finished r\<rparr>"
  let ?s = "s\<lparr>bs_files := fs, bs_tasks := ?ts[k := ?t]\<rparr>"
  have s: "lock_inv ?s" by (rule lock_inv_phase [OF inv hold])
  show ?thesis
  proof (cases "bs_locks s (bt_file (?ts ! k)) = Some k")
    case False
    with s show ?thesis by (simp add: release_lock_def Let_def)
  next
    case True
    let ?g = "bt_file (?ts ! k)"
    from hold have k: "k < length ?ts" by (simp add: holds_lock_def)
    have "locked_by ?ts ?g (bs_locks s ?g)" using inv by (rule lock_inv_locked)
    with True have lst: "last_of ?ts ?g (length ?ts) = Some k" by (simp add: locked_by_def)
    have gr: "granted (bs_tasks ?s) (bs_tasks ?s ! k)"
      using s k unfolding lock_inv_def by (auto dest!: spec [of _ k])
    have "tail_resolved (bs_tasks ?s) j" if "j < length ?ts" "bt_file (?ts ! j) = ?g" for j
    proof (cases "j = k")
      case True
      have "case bt_prev (?ts ! k) of None \<Rightarrow> True | Some p \<Rightarrow> p < k"
        using inv k by (auto simp: lock_inv_def chained_def split: option.splits)
      with True gr k show ?thesis
        by (subst tail_resolved.simps) (auto simp: granted_def released_def split: option.splits)
    next
      case False
      with that lst have "j < k" by (auto simp: last_of_Some intro: linorder_neqE_nat)
      with resolved_all_before [OF s, of k j] gr k that False show ?thesis by simp
    qed
    then have "locked_by (?ts[k := ?t]) ?g None"
      using k by (auto simp: locked_by_def nth_list_update split: if_splits)
    with s have "lock_inv (?s\<lparr>bs_locks := (bs_locks s)(?g := None)\<rparr>)"
      by (simp add: lock_inv_def)
    with True show ?thesis by (simp add: release_lock_def Let_def)
  qed
qed

lemma lock_inv_files [simp]: "lock_inv (s\<lparr>bs_files := fs\<rparr>) = lock_inv s"
  by (simp add: lock_inv_def)

lemma lock_inv_act: "lock_inv s \<Longrightarrow> blob_act x s = Some s' \<Longrightarrow> lock_inv s'"
  by (cases x) (auto simp: Let_def lock_inv_request lock_inv_phase lock_inv_release
    split: if_splits prod.splits sum.splits)

lemma blobs_lock_inv: "blobs_reachable c s \<Longrightarrow> lock_inv s"
proof (induction rule: blobs_reachable.induct)
  case (initial fs)
  show ?case by (simp add: lock_inv_def locked_by_def initial_blobs_def)
qed (use lock_inv_act in blast)+

section \<open>Mutations are atomic\<close>

definition content :: "blob_state \<Rightarrow> jsstring \<times> jsstring \<Rightarrow> bytes" where
  "content s f = (case bs_files s f of None \<Rightarrow> [] | Some bs \<Rightarrow> bs)"

text \<open>The abstract operations: on a byte string, at once.\<close>

fun mutation_spec :: "mutation \<Rightarrow> bytes \<Rightarrow> bytes" where
  "mutation_spec (M_truncate n) c = take (nat n) c"
| "mutation_spec (M_write offset bs) c = c @ bs"
| "mutation_spec M_delete c = []"

fun mutation_pre :: "mutation \<Rightarrow> bytes \<Rightarrow> bool" where
  "mutation_pre (M_truncate n) c \<longleftrightarrow> n < int (length c)"
| "mutation_pre (M_write offset bs) c \<longleftrightarrow> offset = int (length c)"
| "mutation_pre M_delete c \<longleftrightarrow> True"

definition file_content :: "opfs \<Rightarrow> jsstring \<times> jsstring \<Rightarrow> bytes" where
  "file_content fs f = (case fs f of None \<Rightarrow> [] | Some bs \<Rightarrow> bs)"

lemma content_file: "content s f = file_content (bs_files s) f"
  by (simp add: content_def file_content_def)

lemma fileHandle_content:
  assumes "fileHandle env f fs = (r, fs')"
  shows "file_content fs' g = file_content fs g" and "r = Inr bs \<Longrightarrow> bs = file_content fs f"
  using assms by (auto simp: fileHandle_def file_content_def split: sum.splits option.splits if_splits)

lemma blob_size_content:
  assumes "blob_size env f fs = (r, fs')"
  shows "file_content fs' g = file_content fs g" and "r = Inr n \<Longrightarrow> n = int (length (file_content fs f))"
proof -
  obtain h fs1 where h: "fileHandle env f fs = (h, fs1)" by fastforce
  with assms show "file_content fs' g = file_content fs g"
    using fileHandle_content(1) [OF h] by (auto simp: blob_size_def split: sum.splits)
  assume "r = Inr n"
  with assms h show "n = int (length (file_content fs f))"
    using fileHandle_content(2) [OF h]
    by (auto simp: blob_size_def rbind_eq_Inr validFileSize_def split: sum.splits if_splits)
qed

lemma blob_read_content: "file_content (snd (blob_read env f o' n fs)) g = file_content fs g"
proof -
  obtain h fs1 where h: "fileHandle env f fs = (h, fs1)" by fastforce
  then show ?thesis
    using fileHandle_content(1) [OF h] by (auto simp: blob_read_def split: sum.splits prod.splits)
qed

lemma mutation_check_content:
  assumes "mutation_check env f job fs = (r, fs')"
  shows "file_content fs' g = file_content fs g"
    and "r = Inr () \<Longrightarrow> mutation_pre job (file_content fs f)"
proof -
  obtain h fs1 where h: "blob_size env f fs = (h, fs1)" by fastforce
  show "file_content fs' g = file_content fs g"
    using assms h blob_size_content(1) [OF h]
    by (cases job) (auto split: sum.splits if_splits)
  show "r = Inr () \<Longrightarrow> mutation_pre job (file_content fs f)"
    using assms h blob_size_content(2) [OF h]
    by (cases job) (auto split: sum.splits if_splits)
qed

lemma withWritable_content:
  assumes "withWritable env f action fs = (r, fs')"
  shows "g \<noteq> f \<Longrightarrow> file_content fs' g = file_content fs g"
    and "r = Inr () \<Longrightarrow> file_content fs' f = action (file_content fs f)"
    and "r = Inl e \<Longrightarrow> file_content fs' f = file_content fs f"
proof -
  obtain h fs1 where h: "fileHandle env f fs = (h, fs1)" by fastforce
  note c = fileHandle_content [OF h]
  show "g \<noteq> f \<Longrightarrow> file_content fs' g = file_content fs g"
    using assms h c(1) [of g] by (auto simp: withWritable_def file_content_def split: sum.splits)
  show "r = Inr () \<Longrightarrow> file_content fs' f = action (file_content fs f)"
    using assms h c(2) by (auto simp: withWritable_def file_content_def split: sum.splits)
  show "r = Inl e \<Longrightarrow> file_content fs' f = file_content fs f"
    using assms h c(1) [of f] by (auto simp: withWritable_def split: sum.splits)
qed

lemma resized_less: "n < int (length c) \<Longrightarrow> resized (nat n) c = take (nat n) c"
  by (simp add: resized_def)

lemma written_at_end: "written (length c) bs c = c @ bs"
  by (simp add: written_def resized_def)

text \<open>\<open>removeEntry\<close> reports \<open>NotFoundError\<close> of an entry that is not there only.\<close>

definition honest_removal :: "opfs_env \<Rightarrow> bool" where
  "honest_removal env \<longleftrightarrow> (\<forall>e. oe_remove env = Some e \<longrightarrow> domExceptionName e \<noteq> Some (js ''NotFoundError''))"

lemma mutation_commit_content:
  assumes "mutation_commit env f job fs = (r, fs')" and "mutation_pre job (file_content fs f)"
  shows "g \<noteq> f \<Longrightarrow> file_content fs' g = file_content fs g"
    and "r = Inr () \<Longrightarrow> honest_removal env \<Longrightarrow> file_content fs' f = mutation_spec job (file_content fs f)"
    and "r = Inl e \<Longrightarrow> file_content fs' f = file_content fs f"
proof -
  note w = withWritable_content [of env f _ fs r fs']
  have del: "file_content fs' g = file_content fs g \<or> g = f \<and> r = Inr ()" if "job = M_delete" for g
    using assms(1) that by (auto simp: file_content_def split: option.splits if_splits)
  show "g \<noteq> f \<Longrightarrow> file_content fs' g = file_content fs g"
    using assms w(1) [of _ g] del [of g] by (cases job) simp_all
  show "r = Inl e \<Longrightarrow> file_content fs' f = file_content fs f"
    using assms w(3) [of _ e] del [of f] by (cases job) simp_all
  show "r = Inr () \<Longrightarrow> honest_removal env \<Longrightarrow> file_content fs' f = mutation_spec job (file_content fs f)"
  proof (cases job)
    case M_delete
    assume "r = Inr ()" "honest_removal env"
    with M_delete assms(1) show ?thesis
      by (auto simp: removal_failure_def honest_removal_def file_content_def not_found_error_def
        split: option.splits if_splits)
  qed (use assms w(2) in \<open>simp_all add: resized_less written_at_end\<close>)
qed

text \<open>Between the check and the write of a task the content of its file stands still.\<close>

definition checked_ok :: "blob_state \<Rightarrow> bool" where
  "checked_ok s \<longleftrightarrow> (\<forall>k < length (bs_tasks s). bt_phase (bs_tasks s ! k) = Checked \<longrightarrow>
     mutation_pre (bt_job (bs_tasks s ! k)) (content s (bt_file (bs_tasks s ! k))))"

lemma checked_holds: "lock_inv s \<Longrightarrow> k < length (bs_tasks s) \<Longrightarrow> bt_phase (bs_tasks s ! k) = Checked \<Longrightarrow> holds_lock s k"
  by (auto simp: lock_inv_def holds_lock_def released_def)

lemma release_lock_simps [simp]:
  "bs_tasks (release_lock k r s) = (bs_tasks s)[k := (bs_tasks s ! k)\<lparr>bt_phase := Finished r\<rparr>]"
  "bs_files (release_lock k r s) = bs_files s"
  by (simp_all add: release_lock_def Let_def)

lemma checked_ok_files:
  assumes "checked_ok s" and "\<And>g. file_content fs g = file_content (bs_files s) g"
  shows "checked_ok (s\<lparr>bs_files := fs\<rparr>)"
  using assms by (simp add: checked_ok_def content_file)

lemma checked_ok_phase:
  assumes "checked_ok s" and "k < length (bs_tasks s)"
    and "ph = Checked \<Longrightarrow> mutation_pre (bt_job (bs_tasks s ! k)) (content s (bt_file (bs_tasks s ! k)))"
  shows "checked_ok (s\<lparr>bs_tasks := (bs_tasks s)[k := (bs_tasks s ! k)\<lparr>bt_phase := ph\<rparr>]\<rparr>)"
  using assms by (auto simp: checked_ok_def content_file nth_list_update split: if_splits)

lemma checked_ok_locks: "checked_ok (release_lock k r s)
    = checked_ok (s\<lparr>bs_tasks := (bs_tasks s)[k := (bs_tasks s ! k)\<lparr>bt_phase := Finished r\<rparr>]\<rparr>)"
  by (simp add: checked_ok_def content_file)

lemma checked_ok_check:
  assumes ok: "checked_ok s" and k: "k < length (bs_tasks s)"
    and c: "mutation_check env (bt_file (bs_tasks s ! k)) (bt_job (bs_tasks s ! k)) (bs_files s) = (r, fs)"
  shows "r = Inl res \<Longrightarrow> checked_ok (release_lock k res (s\<lparr>bs_files := fs\<rparr>))"
    and "r = Inr () \<Longrightarrow> checked_ok (s\<lparr>bs_files := fs, bs_tasks := (bs_tasks s)[k := (bs_tasks s ! k)\<lparr>bt_phase := Checked\<rparr>]\<rparr>)"
proof -
  have f: "checked_ok (s\<lparr>bs_files := fs\<rparr>)" by (rule checked_ok_files [OF ok mutation_check_content(1) [OF c]])
  show "checked_ok (release_lock k res (s\<lparr>bs_files := fs\<rparr>))"
    using checked_ok_phase [OF f, of k "Finished res"] k by (simp add: checked_ok_locks)
  assume r: "r = Inr ()"
  have "mutation_pre (bt_job (bs_tasks s ! k)) (file_content fs (bt_file (bs_tasks s ! k)))"
    using mutation_check_content [OF c] r by simp
  then show "checked_ok (s\<lparr>bs_files := fs, bs_tasks := (bs_tasks s)[k := (bs_tasks s ! k)\<lparr>bt_phase := Checked\<rparr>]\<rparr>)"
    using checked_ok_phase [OF f, of k Checked] k by (simp add: content_file)
qed

lemma checked_ok_commit:
  assumes ok: "checked_ok s" and inv: "lock_inv s" and k: "holds_lock s k" "bt_phase (bs_tasks s ! k) = Checked"
    and c: "mutation_commit env (bt_file (bs_tasks s ! k)) (bt_job (bs_tasks s ! k)) (bs_files s) = (r, fs)"
  shows "checked_ok (release_lock k r (s\<lparr>bs_files := fs\<rparr>))"
  unfolding checked_ok_def
proof (intro allI impI)
  fix j
  assume j: "j < length (bs_tasks (release_lock k r (s\<lparr>bs_files := fs\<rparr>)))"
    and ph: "bt_phase (bs_tasks (release_lock k r (s\<lparr>bs_files := fs\<rparr>)) ! j) = Checked"
  have kl: "k < length (bs_tasks s)" using k(1) by (simp add: holds_lock_def)
  have jk: "j \<noteq> k" using ph kl by auto
  with j ph have hold: "holds_lock s j" and ph': "bt_phase (bs_tasks s ! j) = Checked"
    using checked_holds [OF inv, of j] by auto
  have "bt_file (bs_tasks s ! j) \<noteq> bt_file (bs_tasks s ! k)"
    using lock_exclusive [OF inv hold k(1)] jk by blast
  moreover have "mutation_pre (bt_job (bs_tasks s ! k)) (file_content (bs_files s) (bt_file (bs_tasks s ! k)))"
    using ok k kl by (simp add: checked_ok_def content_file)
  ultimately have "file_content fs (bt_file (bs_tasks s ! j)) = file_content (bs_files s) (bt_file (bs_tasks s ! j))"
    using mutation_commit_content(1) [OF c] by simp
  moreover have "mutation_pre (bt_job (bs_tasks s ! j)) (content s (bt_file (bs_tasks s ! j)))"
    using ok hold ph' by (simp add: checked_ok_def holds_lock_def)
  ultimately show "mutation_pre (bt_job (bs_tasks (release_lock k r (s\<lparr>bs_files := fs\<rparr>)) ! j))
      (content (release_lock k r (s\<lparr>bs_files := fs\<rparr>)) (bt_file (bs_tasks (release_lock k r (s\<lparr>bs_files := fs\<rparr>)) ! j)))"
    using jk by (simp add: content_file)
qed

lemma checked_ok_act:
  assumes ok: "checked_ok s" and inv: "lock_inv s" and act: "blob_act x s = Some s'" and "\<not> is_clear x"
  shows "checked_ok s'"
proof (cases x)
  case (B_request f job)
  with act ok show ?thesis by (auto simp: request_lock_def checked_ok_def content_file nth_append less_Suc_eq)
next
  case (B_check k env)
  obtain r fs where c: "mutation_check env (bt_file (bs_tasks s ! k)) (bt_job (bs_tasks s ! k)) (bs_files s) = (r, fs)"
    by fastforce
  from act B_check have k: "k < length (bs_tasks s)" by (auto simp: holds_lock_def split: if_splits)
  from act B_check c checked_ok_check [OF ok k c] show ?thesis
    by (auto simp: Let_def split: if_splits sum.splits)
next
  case (B_commit k env)
  obtain r fs where c: "mutation_commit env (bt_file (bs_tasks s ! k)) (bt_job (bs_tasks s ! k)) (bs_files s) = (r, fs)"
    by fastforce
  with act B_commit checked_ok_commit [OF ok inv _ _ c] show ?thesis by (auto simp: Let_def split: if_splits)
next
  case (B_size f env)
  then show ?thesis
    using act ok blob_size_content(1) [of env f "bs_files s"]
    by (auto intro!: checked_ok_files simp: prod_eq_iff)
next
  case (B_read f env offset n)
  then show ?thesis using act ok by (auto intro!: checked_ok_files simp: blob_read_content)
next
  case (B_clear d e)
  with assms(4) show ?thesis by (simp add: is_clear_def)
qed

lemma blobs_checked_ok: "blobs_reachable c s \<Longrightarrow> \<not> c \<Longrightarrow> checked_ok s"
proof (induction rule: blobs_reachable.induct)
  case (initial fs)
  show ?case by (simp add: checked_ok_def initial_blobs_def)
next
  case (quiet_step s x s')
  then show ?case using checked_ok_act blobs_lock_inv by blast
qed simp

section \<open>Properties\<close>

text \<open>The work a state has left: two steps for a task that waits, one for a task that has checked.\<close>

definition task_work :: "blob_task \<Rightarrow> nat" where
  "task_work t = (case bt_phase t of Waiting \<Rightarrow> 2 | Checked \<Rightarrow> 1 | Finished _ \<Rightarrow> 0)"

definition open_work :: "blob_state \<Rightarrow> nat" where
  "open_work s = sum_list (map task_work (bs_tasks s))"

lemma work_update:
  "k < length ts \<Longrightarrow> task_work t < task_work (ts ! k)
     \<Longrightarrow> sum_list (map task_work (ts[k := t])) < sum_list (map task_work ts)"
proof (induction ts arbitrary: k)
  case (Cons a ts)
  then show ?case by (cases k) auto
qed simp

definition lock_steps :: "nat \<Rightarrow> opfs_env \<Rightarrow> blob_state \<Rightarrow> blob_state list" where
  "lock_steps k env s = List.map_filter (\<lambda>x. blob_act x s) [B_check k env, B_commit k env]"

text \<open>
  C22.  The lock of a blob excludes, is fair and never blocks for good.  As long as a task of a blob is open,
  exactly one task of that blob may act, it is not younger than the open one, it can take its next
  step whatever the file system answers, and each such step uses up some of the work that is left.
\<close>

theorem blob_lock_progress:
  assumes "blobs_reachable clears s" and "j < length (bs_tasks s)" and "\<not> released (bs_tasks s ! j)"
  shows "\<exists>k \<le> j. {i. holds_lock s i \<and> bt_file (bs_tasks s ! i) = bt_file (bs_tasks s ! j)} = {k}
    \<and> (\<exists>s'. lock_steps k env s = [s'] \<and> open_work s' < open_work s)"
proof -
  let ?ts = "bs_tasks s"
  let ?P = "\<lambda>k. k < length ?ts \<and> bt_file (?ts ! k) = bt_file (?ts ! j) \<and> \<not> released (?ts ! k)"
  define k where "k = (LEAST k. ?P k)"
  have inv: "lock_inv s" by (rule blobs_lock_inv [OF assms(1)])
  have P: "?P k" unfolding k_def by (rule LeastI [of ?P j]) (use assms in simp)
  have le: "k \<le> j" unfolding k_def by (rule Least_le) (use assms in simp)
  have "\<forall>i < k. bt_file (?ts ! i) = bt_file (?ts ! k) \<longrightarrow> released (?ts ! i)"
    using P not_less_Least [of _ ?P] by (auto simp: k_def [symmetric])
  then have "granted ?ts (?ts ! k)" using first_open_granted [OF inv] P by blast
  with P have hold: "holds_lock s k" by (simp add: holds_lock_def)
  then have "{i. holds_lock s i \<and> bt_file (?ts ! i) = bt_file (?ts ! j)} = {k}"
  proof (intro equalityI subsetI)
    fix i
    assume "i \<in> {i. holds_lock s i \<and> bt_file (?ts ! i) = bt_file (?ts ! j)}"
    then have "i = k" using lock_exclusive [OF inv _ hold, of i] P by simp
    then show "i \<in> {k}" by simp
  qed (use hold P in simp)
  moreover have "\<exists>s'. lock_steps k env s = [s'] \<and> open_work s' < open_work s"
  proof (cases "bt_phase (?ts ! k)")
    case Waiting
    obtain r fs where c: "mutation_check env (bt_file (?ts ! k)) (bt_job (?ts ! k)) (bs_files s) = (r, fs)" by fastforce
    show ?thesis
      using Waiting hold P c
      by (cases r) (auto simp: lock_steps_def List.map_filter_simps Let_def open_work_def task_work_def intro!: work_update)
  next
    case Checked
    obtain r fs where c: "mutation_commit env (bt_file (?ts ! k)) (bt_job (?ts ! k)) (bs_files s) = (r, fs)" by fastforce
    show ?thesis
      using Checked hold P c
      by (auto simp: lock_steps_def List.map_filter_simps Let_def open_work_def task_work_def intro!: work_update)
  next
    case (Finished r)
    with P show ?thesis by (simp add: released_def)
  qed
  ultimately show ?thesis using le by blast
qed

definition sample_file :: "jsstring \<times> jsstring" where
  "sample_file = (js ''ns'', js ''blob'')"

definition two_writers :: blob_state where
  "two_writers = request_lock sample_file (M_write 0 [2]) (request_lock sample_file (M_write 0 [1]) (initial_blobs (\<lambda>_. None)))"

lemma reachable_request: "blobs_reachable c s \<Longrightarrow> blobs_reachable c (request_lock f job s)"
  by (rule blobs_reachable.quiet_step [where x = "B_request f job"]) (simp_all add: is_clear_def)

lemma two_writers_reachable: "blobs_reachable False two_writers"
  unfolding two_writers_def by (intro reachable_request blobs_reachable.initial)

theorem blob_lock_progress_witness:
  "\<exists>k \<le> 1. {i. holds_lock two_writers i \<and> bt_file (bs_tasks two_writers ! i) = bt_file (bs_tasks two_writers ! 1)} = {k}
    \<and> (\<exists>s'. lock_steps k opfs_ok two_writers = [s'] \<and> open_work s' < open_work two_writers)"
  by (rule blob_lock_progress [OF two_writers_reachable])
    (simp_all add: two_writers_def request_lock_def initial_blobs_def released_def)

text \<open>
  C23.  The blob store refines byte strings with atomic operations, under two provisos: no namespace is
  cleared in the history, and \<open>removeEntry\<close> reports a \<open>NotFoundError\<close> only of a file that is not there.  Then a
  step of the store leaves the content of every blob as it is, or it is the end of one task
  that reports success, and then the content of its blob changes as the abstract operation says:
  a write appends exactly its bytes at its offset, a truncation keeps a prefix, a deletion leaves
  nothing.  A task that reports an error has changed no content.  With \<open>clear\<close> this is false
  (\<open>clear_between_check_and_write\<close>).
\<close>

theorem blob_mutations_atomic:
  assumes "blobs_reachable False s" and "\<not> is_clear x" and "blob_act x s = Some s'"
    and "\<And>k env. x = B_commit k env \<Longrightarrow> honest_removal env"
  shows "(\<forall>f. content s' f = content s f)
    \<or> (\<exists>k env f. x = B_commit k env \<and> f = bt_file (bs_tasks s ! k)
         \<and> bt_phase (bs_tasks s' ! k) = Finished (Inr ())
         \<and> mutation_pre (bt_job (bs_tasks s ! k)) (content s f)
         \<and> content s' f = mutation_spec (bt_job (bs_tasks s ! k)) (content s f)
         \<and> (\<forall>g. g \<noteq> f \<longrightarrow> content s' g = content s g))"
proof (cases x)
  case (B_check k env)
  obtain r fs where c: "mutation_check env (bt_file (bs_tasks s ! k)) (bt_job (bs_tasks s ! k)) (bs_files s) = (r, fs)"
    by fastforce
  with assms(3) B_check mutation_check_content(1) [OF c] have "\<forall>f. content s' f = content s f"
    by (auto simp: Let_def content_file split: if_splits sum.splits)
  then show ?thesis ..
next
  case (B_commit k env)
  let ?f = "bt_file (bs_tasks s ! k)" and ?job = "bt_job (bs_tasks s ! k)"
  obtain r fs where c: "mutation_commit env ?f ?job (bs_files s) = (r, fs)" by fastforce
  from assms(3) B_commit c have k: "k < length (bs_tasks s)" "bt_phase (bs_tasks s ! k) = Checked"
    and s': "s' = release_lock k r (s\<lparr>bs_files := fs\<rparr>)"
    by (auto simp: Let_def holds_lock_def split: if_splits)
  have pre: "mutation_pre ?job (content s ?f)"
    using blobs_checked_ok [OF assms(1)] k by (simp add: checked_ok_def)
  note m = mutation_commit_content [OF c pre [unfolded content_file]]
  show ?thesis
  proof (cases r)
    case (Inl e)
    have "content s' g = content s g" for g
      using m(1) [of g] m(3) [OF Inl] s' by (cases "g = ?f") (simp_all add: content_file)
    then show ?thesis by simp
  next
    case (Inr u)
    have "content s' ?f = mutation_spec ?job (content s ?f)"
      using m(2) Inr assms(4) [OF B_commit] s' by (simp add: content_file)
    moreover have "content s' g = content s g" if "g \<noteq> ?f" for g
      using m(1) [OF that] s' by (simp add: content_file)
    moreover have "bt_phase (bs_tasks s' ! k) = Finished (Inr ())" using s' k Inr by simp
    ultimately show ?thesis using pre B_commit by blast
  qed
next
  case (B_size f env)
  obtain r fs where c: "blob_size env f (bs_files s) = (r, fs)" by fastforce
  with assms(3) B_size have "content s' g = content s g" for g
    by (auto simp: content_file blob_size_content(1) [OF c])
  then show ?thesis by simp
qed (use assms(2,3) in \<open>auto simp: request_lock_def content_file blob_read_content is_clear_def\<close>)

definition checked_writer :: blob_state where
  "checked_writer = the (blob_act (B_check 0 opfs_ok) two_writers)"

lemma checked_writer_reachable: "blobs_reachable False checked_writer"
proof (rule blobs_reachable.quiet_step [OF two_writers_reachable])
  have "blob_act (B_check 0 opfs_ok) two_writers \<noteq> None" by code_simp
  then show "blob_act (B_check 0 opfs_ok) two_writers = Some checked_writer" by (auto simp: checked_writer_def)
qed (simp add: is_clear_def)

definition committed_writer :: blob_state where
  "committed_writer = the (blob_act (B_commit 0 opfs_ok) checked_writer)"

lemma checked_writer_facts:
  "bt_job (bs_tasks checked_writer ! 0) = M_write 0 [1]" "bt_file (bs_tasks checked_writer ! 0) = sample_file"
  "content checked_writer sample_file = []" "content committed_writer sample_file \<noteq> []"
  by code_simp+

lemma committed_writer: "blob_act (B_commit 0 opfs_ok) checked_writer = Some committed_writer"
proof -
  have "blob_act (B_commit 0 opfs_ok) checked_writer \<noteq> None" by code_simp
  then show ?thesis by (auto simp: committed_writer_def)
qed

theorem blob_mutations_atomic_witness:
  "content checked_writer sample_file = [] \<and> content committed_writer sample_file = [1]"
proof -
  have "\<not> is_clear (B_commit 0 opfs_ok)" "honest_removal opfs_ok"
    by (simp_all add: is_clear_def honest_removal_def opfs_ok_def)
  with blob_mutations_atomic [OF checked_writer_reachable _ committed_writer]
  have "(\<forall>f. content committed_writer f = content checked_writer f)
    \<or> content committed_writer sample_file = mutation_spec (M_write 0 [1]) (content checked_writer sample_file)"
    by (auto simp: checked_writer_facts(1,2))
  then have "content committed_writer sample_file = content checked_writer sample_file
    \<or> content committed_writer sample_file = mutation_spec (M_write 0 [1]) (content checked_writer sample_file)"
    by blast
  with checked_writer_facts(3,4) show ?thesis by simp
qed

section \<open>Streams\<close>

lemma stream_reads_shape:
  assumes "0 < c" and "0 \<le> offset"
  shows "\<forall>(o', n) \<in> set (stream_reads c fileEnd offset). offset \<le> o' \<and> 1 \<le> n \<and> n \<le> c \<and> o' + n \<le> fileEnd"
  using assms
proof (induction c fileEnd offset rule: stream_reads.induct)
  case (1 c fileEnd offset)
  show ?case
  proof (cases "offset \<ge> fileEnd")
    case False
    let ?n = "min c (fileEnd - offset)"
    have "\<forall>(o', n) \<in> set (stream_reads c fileEnd (offset + ?n)). offset + ?n \<le> o' \<and> 1 \<le> n \<and> n \<le> c \<and> o' + n \<le> fileEnd"
      using "1.IH" [of ?n] "1.prems" False by simp
    with False "1.prems" show ?thesis by (subst stream_reads.simps) (fastforce simp: Let_def)
  qed (subst stream_reads.simps, simp)
qed

declare stream_reads.simps [simp del]

definition slice :: "bytes \<Rightarrow> int \<times> int \<Rightarrow> bytes" where
  "slice bs r = take (nat (snd r)) (drop (nat (fst r)) bs)"

lemma stream_reads_slices:
  assumes "0 < c" and "0 \<le> offset" and "offset \<le> int (length bs)"
  shows "concat (map (slice bs) (stream_reads c (int (length bs)) offset)) = drop (nat offset) bs"
  using assms
proof (induction c "int (length bs)" offset rule: stream_reads.induct)
  case (1 c offset)
  show ?case
  proof (cases "offset \<ge> int (length bs)")
    case True
    with "1.prems" show ?thesis by (subst stream_reads.simps) simp
  next
    case False
    let ?n = "min c (int (length bs) - offset)"
    have "concat (map (slice bs) (stream_reads c (int (length bs)) (offset + ?n))) = drop (nat (offset + ?n)) bs"
      using "1.hyps" [of ?n] "1.prems" False by simp
    moreover have "nat (offset + ?n) = nat ?n + nat offset" using "1.prems" False by simp
    ultimately show ?thesis
      using False "1.prems" by (subst stream_reads.simps)
        (simp add: slice_def Let_def drop_drop [symmetric] del: drop_drop)
  qed
qed

text \<open>The file system answers, and the blob has only grown.\<close>

definition readable :: "opfs_env \<Rightarrow> bool" where
  "readable env \<longleftrightarrow> oe_directory env = None \<and> oe_file env = None \<and> oe_read env = None"

definition grown :: "jsstring \<times> jsstring \<Rightarrow> bytes \<Rightarrow> opfs_env \<times> opfs \<Rightarrow> bool" where
  "grown f bs st \<longleftrightarrow> readable (fst st)
     \<and> (\<exists>more. snd st f = Some (bs @ more) \<and> int (length (bs @ more)) \<le> max_safe_integer)"

lemma blob_read_slice:
  assumes "grown f bs (env, fs)" and "0 \<le> o'" and "1 \<le> n" and "o' + n \<le> int (length bs)"
  shows "fst (blob_read env f (JInt o') (JInt n) fs) = Inr (slice bs (o', n))"
proof -
  obtain more where m: "fs f = Some (bs @ more)" "int (length (bs @ more)) \<le> max_safe_integer"
    and r: "readable env" using assms(1) by (auto simp: grown_def)
  have "fileHandle env f fs = (Inr (bs @ more), fs)"
    using m r by (simp add: fileHandle_def readable_def opfs_try_def)
  moreover have "rbind (validateOffset (JInt o')) (\<lambda>_. rbind (validateLength (JInt n) True) (\<lambda>_.
      validateRange (JInt o') (JInt n))) = Inr (o', n)"
    using assms m by (simp add: validateRange_def validateOffset_def validateLength_def)
  moreover have "validFileSize (int (length (bs @ more))) = Inr (int (length (bs @ more)))"
    using m(2) by (simp add: validFileSize_def)
  moreover have "min (int (length (bs @ more))) (o' + n) - o' = n" using assms by simp
  moreover have "take (nat n) (drop (nat o') (bs @ more)) = slice bs (o', n)"
    using assms by (simp add: slice_def)
  moreover have "\<not> int (length (bs @ more)) \<le> o'" using assms by simp
  ultimately show ?thesis
    using assms r by (simp add: blob_read_def readable_def opfs_try_def del: length_append drop_append)
qed

lemma stream_chunks_slices:
  assumes "list_all (grown f bs) states" and "length states = length rs"
    and "\<forall>(o', n) \<in> set rs. 0 \<le> o' \<and> 1 \<le> n \<and> o' + n \<le> int (length bs)"
  shows "stream_chunks f rs states = Inr (map (slice bs) rs)"
  using assms
proof (induction f rs states rule: stream_chunks.induct)
  case (3 f offset len rs env fs states)
  then show ?case by (auto simp: blob_read_slice)
qed simp_all

text \<open>
  C24.  Streaming a blob yields its content.  For every chunk size the caller may give, the loop of
  \<open>stream\<close> ends; while the file system answers and the blob at most grows between the reads, the
  chunks put together are exactly the bytes the blob held at the start, and no chunk is empty or
  longer than asked.
\<close>

theorem stream_yields_content:
  assumes "grown f bs (env, fs)" and "fs f = Some bs" and "validateLength chunkSize False = Inr c"
    and "length states = length (stream_reads c (int (length bs)) 0)" and "list_all (grown f bs) states"
  shows "\<exists>chunks. blob_stream f chunkSize env fs states = Inr chunks \<and> concat chunks = bs
    \<and> list_all (\<lambda>chunk. 1 \<le> length chunk \<and> int (length chunk) \<le> c) chunks"
proof -
  let ?rs = "stream_reads c (int (length bs)) 0"
  have c: "0 < c" using assms(3) by (auto simp: validateLength_def split: jsnum.splits if_splits)
  have shape: "\<forall>(o', n) \<in> set ?rs. 0 \<le> o' \<and> 1 \<le> n \<and> n \<le> c \<and> o' + n \<le> int (length bs)"
    by (rule stream_reads_shape [OF c]) simp
  have "fst (blob_size env f fs) = Inr (int (length bs))"
    using assms(1,2) by (auto simp: grown_def readable_def blob_size_def fileHandle_def opfs_try_def validFileSize_def)
  moreover have "stream_chunks f ?rs states = Inr (map (slice bs) ?rs)"
    by (rule stream_chunks_slices [OF assms(5,4)]) (use shape in fastforce)
  ultimately have "blob_stream f chunkSize env fs states = Inr (map (slice bs) ?rs)"
    using assms(3) by (simp add: blob_stream_def)
  moreover have "concat (map (slice bs) ?rs) = bs" using stream_reads_slices [OF c, of 0 bs] by simp
  moreover have "list_all (\<lambda>chunk. 1 \<le> length chunk \<and> int (length chunk) \<le> c) (map (slice bs) ?rs)"
    using shape by (fastforce simp: list_all_iff slice_def)
  ultimately show ?thesis by blast
qed

theorem stream_yields_content_witness:
  "\<exists>chunks. blob_stream sample_file (JInt 2) opfs_ok (\<lambda>_. Some [1, 2, 3])
       [(opfs_ok, \<lambda>_. Some [1, 2, 3]), (opfs_ok, \<lambda>_. Some [1, 2, 3, 4])] = Inr chunks
     \<and> concat chunks = [1, 2, 3] \<and> list_all (\<lambda>chunk. 1 \<le> length chunk \<and> int (length chunk) \<le> 2) chunks"
proof (rule stream_yields_content)
  show "length [(opfs_ok, \<lambda>_. Some [1, 2, 3]), (opfs_ok, \<lambda>_. Some [1, 2, 3, 4])]
      = length (stream_reads 2 (int (length [1 :: 8 word, 2, 3])) 0)"
    by (simp add: stream_reads.simps Let_def)
qed (simp_all add: grown_def readable_def opfs_ok_def max_safe_integer_def validateLength_def)

section \<open>Clearing\<close>

text \<open>
  \<open>clear\<close> does not take the locks.  A write that has checked its offset fills the blob with zeros up to
  there when its file is cleared meanwhile, and reports success.
\<close>

definition cleared_steps :: "blob_action list" where
  "cleared_steps = [B_request sample_file (M_write 2 [9]), B_check 0 opfs_ok, B_clear (js ''ns'') None, B_commit 0 opfs_ok]"

fun blob_steps :: "blob_action list \<Rightarrow> blob_state \<Rightarrow> blob_state option" where
  "blob_steps [] s = Some s"
| "blob_steps (x # xs) s = (case blob_act x s of None \<Rightarrow> None | Some s1 \<Rightarrow> blob_steps xs s1)"

lemma clear_between_check_and_write:
  "map_option (\<lambda>s. (content s sample_file, bt_phase (bs_tasks s ! 0)))
     (blob_steps cleared_steps (initial_blobs (\<lambda>f. if f = sample_file then Some [5, 6] else None)))
   = Some ([0, 0, 9], Finished (Inr ()))"
  by code_simp

end
