(* ===== verification/BlobFacts.thy ===== *)
theory BlobFacts
  imports BlobStore
begin

text \<open>
  What the calls of the blob store do to the bytes of a blob, in any environment and in one that answers; used
  by the routines that read and write blobs.
\<close>

section \<open>In any environment\<close>

lemma mutation_check_content_all: "file_content (snd (mutation_check env f job fs)) g = file_content fs g"
  by (metis mutation_check_content(1) prod.collapse)

lemma commit_other: "g \<noteq> f \<Longrightarrow> file_content (snd (mutation_commit env f job fs)) g = file_content fs g"
proof -
  assume g: "g \<noteq> f"
  have w: "file_content (snd (withWritable env f action fs)) g = file_content fs g" for action
    using withWritable_content(1) [of env f action fs _ _ g] g by (metis prod.collapse)
  show ?thesis
  proof (cases job)
    case M_delete
    with g show ?thesis by (auto simp: file_content_def split: option.split)
  qed (simp_all add: w)
qed

lemma read_slice:
  assumes "blob_read env f (JInt o') (JInt n) fs = (Inr chunk, fs')" and "file_content fs f = bs"
    and "0 \<le> o'" and "1 \<le> n" and "o' + n \<le> int (length bs)"
  shows "chunk = slice bs (o', n)"
proof -
  obtain h fs1 where h: "fileHandle env f fs = (h, fs1)" by fastforce
  have "o' + n \<le> max_safe_integer \<and> rbind (validateOffset (JInt o')) (\<lambda>_. rbind (validateLength (JInt n) True) (\<lambda>_.
      validateRange (JInt o') (JInt n))) = Inr (o', n)"
    using assms(1,3,4)
    by (simp add: blob_read_def validateRange_def validateOffset_def validateLength_def split: if_splits)
  with assms(1,4) h obtain bs1 where bs1: "h = Inr bs1"
    and chunk: "rbind (opfs_try (oe_read env)) (\<lambda>_. rbind (validFileSize (int (length bs1))) (\<lambda>fileSize.
        if o' \<ge> fileSize then Inr [] else Inr (take (nat (min fileSize (o' + n) - o')) (drop (nat o') bs1)))) = Inr chunk"
    by (auto simp: blob_read_def split: sum.splits)
  from fileHandle_content(2) [OF h bs1] assms(2) have "bs1 = bs" by simp
  with chunk assms(4,5) show ?thesis
    by (auto simp: rbind_eq_Inr validFileSize_def slice_def min_def split: if_splits)
qed

section \<open>When the file system answers\<close>

lemma opfs_ok_try [simp]:
  "opfs_try (oe_directory opfs_ok) = Inr ()" "opfs_try (oe_file opfs_ok) = Inr ()" "opfs_try (oe_read opfs_ok) = Inr ()"
  "opfs_try (oe_create opfs_ok) = Inr ()" "opfs_try (oe_action opfs_ok) = Inr ()" "opfs_try (oe_close opfs_ok) = Inr ()"
  by (simp_all add: opfs_try_def opfs_ok_def)

lemma fileHandle_ok: "\<exists>fs'. fileHandle opfs_ok f fs = (Inr (file_content fs f), fs') \<and> file_content fs' = file_content fs"
proof (cases "fs f")
  case None
  have "file_content (fs(f := Some [])) = file_content fs"
    using None by (simp add: fun_eq_iff file_content_def)
  with None show ?thesis by (simp add: fileHandle_def file_content_def)
qed (simp add: fileHandle_def file_content_def)

lemma size_ok:
  assumes "int (length (file_content fs f)) \<le> max_safe_integer"
  shows "\<exists>fs'. blob_size opfs_ok f fs = (Inr (int (length (file_content fs f))), fs') \<and> file_content fs' = file_content fs"
  using fileHandle_ok [of f fs] assms by (auto simp: blob_size_def validFileSize_def)

lemma read_ok:
  assumes "0 \<le> o'" and "1 \<le> n" and "o' + n \<le> int (length (file_content fs f))"
    and "int (length (file_content fs f)) \<le> max_safe_integer"
  shows "\<exists>fs'. blob_read opfs_ok f (JInt o') (JInt n) fs = (Inr (slice (file_content fs f) (o', n)), fs')
    \<and> file_content fs' = file_content fs"
proof -
  obtain fs' where h: "fileHandle opfs_ok f fs = (Inr (file_content fs f), fs')" "file_content fs' = file_content fs"
    using fileHandle_ok by blast
  have "\<not> int (length (file_content fs f)) \<le> o'" "nat (min (int (length (file_content fs f))) (o' + n) - o') = nat n"
    using assms by auto
  then have "\<exists>x. blob_read opfs_ok f (JInt o') (JInt n) fs = (Inr x, fs')"
    using h(1) assms by (simp add: blob_read_def validateRange_def validateOffset_def validateLength_def validFileSize_def)
  then obtain x where x: "blob_read opfs_ok f (JInt o') (JInt n) fs = (Inr x, fs')" by blast
  from read_slice [OF x refl assms(1-3)] x h(2) show ?thesis by simp
qed

lemma withWritable_ok:
  "\<exists>fs'. withWritable opfs_ok f action fs = (Inr (), fs') \<and> file_content fs' f = action (file_content fs f)"
proof -
  obtain fs' where "fileHandle opfs_ok f fs = (Inr (file_content fs f), fs')" using fileHandle_ok by blast
  then show ?thesis by (simp add: withWritable_def file_content_def)
qed

text \<open>The reads of a stream stay within the blob and cover it.\<close>

lemma stream_within:
  "0 < c \<Longrightarrow> list_all (\<lambda>(o', n). 0 \<le> o' \<and> 1 \<le> n \<and> o' + n \<le> int (length bs)) (stream_reads c (int (length bs)) 0)"
  using stream_reads_shape [of c 0 "int (length bs)"] by (auto simp: list_all_iff)

lemma stream_all: "0 < c \<Longrightarrow> concat (map (slice bs) (stream_reads c (int (length bs)) 0)) = bs"
  using stream_reads_slices [of c 0 bs] by simp

end
