(* ===== verification/WorkflowStore.thy ===== *)
theory WorkflowStore
  imports Journals
begin

text \<open>
  \<open>IndexedDbWorkflowStore\<close> (\<^verbatim>\<open>frameworks/web/src/indexedDbWorkflowStore.ts\<close>) over a model of its
  database: six object stores, each a finite map from keys to stored values.  A transaction is
  atomic (the documented behaviour of IndexedDB); the browser's own failures are inputs of every
  operation: what opening the database threw and what the transaction was aborted with.

  The journals are kept by one routine, \<open>saveMonotonicJournal\<close>, that a journal type instantiates
  with two checks; the \<open>monotone_journal\<close> locale states what those checks have to satisfy and
  proves what the routine then guarantees.
\<close>

section \<open>The database\<close>

datatype store_name =
    Sn_verified_devices | Sn_workflow_checkpoints | Sn_encrypted_upload_v2_checkpoints
    | Sn_recording_journals | Sn_provisioning_journals | Sn_firmware_journals

definition STORE_NAMES :: "store_name list" where
  "STORE_NAMES =
     [Sn_verified_devices, Sn_workflow_checkpoints, Sn_encrypted_upload_v2_checkpoints,
      Sn_recording_journals, Sn_provisioning_journals, Sn_firmware_journals]"

text \<open>An object store lists its records in key order.\<close>

type_synonym object_store = "(jsstring \<times> jsval) list"
type_synonym idb = "store_name \<Rightarrow> object_store"

fun os_put :: "jsstring \<Rightarrow> jsval \<Rightarrow> object_store \<Rightarrow> object_store" where
  "os_put k v [] = [(k, v)]"
| "os_put k v ((k', v') # r) =
     (if k = k' then (k, v) # r else if k < k' then (k, v) # (k', v') # r else (k', v') # os_put k v r)"

definition os_delete :: "jsstring \<Rightarrow> object_store \<Rightarrow> object_store" where
  "os_delete k r = filter (\<lambda>(k', _). k' \<noteq> k) r"

definition os_range :: "jsstring \<Rightarrow> object_store \<Rightarrow> object_store" where
  "os_range p r = filter (\<lambda>(k, _). in_namespaceRange p k) r"

definition os_delete_range :: "jsstring \<Rightarrow> object_store \<Rightarrow> object_store" where
  "os_delete_range p r = filter (\<lambda>(k, _). \<not> in_namespaceRange p k) r"

text \<open>The structured clone of a value fails when a function is inside it.\<close>

fun cloneable :: "jsval \<Rightarrow> bool" where
  "cloneable JFunction = False"
| "cloneable (JArray xs) = list_all cloneable xs"
| "cloneable (JObject fs) = list_all (\<lambda>(_, v). cloneable v) fs"
| "cloneable _ = True"

record idb_env =
  idb_opened :: "js_error option"
  idb_aborted :: "js_error option"

definition idb_ok :: idb_env where
  "idb_ok = \<lparr>idb_opened = None, idb_aborted = None\<rparr>"

text \<open>
  \<open>try { const database = await this.database(); ... await completion } catch (error) { throw
  mapBrowserStorageError(error) }\<close>: a request that throws leaves the database as it was.
\<close>

definition idb_transaction :: "idb_env \<Rightarrow> (idb \<Rightarrow> (js_error + 'a) \<times> idb) \<Rightarrow> idb \<Rightarrow> (storage_code + 'a) \<times> idb" where
  "idb_transaction env body db =
     (case idb_opened env of
        Some e \<Rightarrow> (Inl (mapBrowserStorageError e), db)
      | None \<Rightarrow>
        (case body db of
           (Inl e, _) \<Rightarrow> (Inl (mapBrowserStorageError e), db)
         | (Inr x, db') \<Rightarrow>
           (case idb_aborted env of
              Some e \<Rightarrow> (Inl (mapBrowserStorageError e), db)
            | None \<Rightarrow> (Inr x, db'))))"

definition put_record :: "store_name \<Rightarrow> jsstring \<Rightarrow> jsval \<Rightarrow> idb \<Rightarrow> (js_error + unit) \<times> idb" where
  "put_record s k v db =
     (if cloneable v then (Inr (), db(s := os_put k v (db s)))
      else (Inl (Thrown (JObject [(''name'', JString (js ''DataCloneError''))])), db))"

section \<open>The private operations\<close>

definition idb_get :: "jsstring \<Rightarrow> idb_env \<Rightarrow> idb \<Rightarrow> store_name \<Rightarrow> jsstring \<Rightarrow> storage_code + jsval option" where
  "idb_get prefx env db s i =
     rbind (storage_key prefx i) (\<lambda>k.
       fst (idb_transaction env (\<lambda>d. (Inr (map_of (d s) k), d)) db))"

definition idb_getAll :: "jsstring \<Rightarrow> idb_env \<Rightarrow> idb \<Rightarrow> store_name \<Rightarrow> storage_code + (jsstring \<times> jsval) list" where
  "idb_getAll prefx env db s = fst (idb_transaction env (\<lambda>d. (Inr (os_range prefx (d s)), d)) db)"

definition idb_put :: "jsstring \<Rightarrow> idb_env \<Rightarrow> idb \<Rightarrow> store_name \<Rightarrow> jsstring \<Rightarrow> jsval \<Rightarrow> (storage_code + unit) \<times> idb" where
  "idb_put prefx env db s i v =
     (case storage_key prefx i of
        Inl e \<Rightarrow> (Inl e, db)
      | Inr k \<Rightarrow> idb_transaction env (put_record s k v) db)"

definition idb_delete :: "jsstring \<Rightarrow> idb_env \<Rightarrow> idb \<Rightarrow> store_name \<Rightarrow> jsstring \<Rightarrow> (storage_code + unit) \<times> idb" where
  "idb_delete prefx env db s i =
     (case storage_key prefx i of
        Inl e \<Rightarrow> (Inl e, db)
      | Inr k \<Rightarrow> idb_transaction env (\<lambda>d. (Inr (), d(s := os_delete k (d s)))) db)"

definition storage_failure :: "storage_code + 'a \<Rightarrow> js_error + 'a" where
  "storage_failure r = (case r of Inl e \<Rightarrow> Inl (StorageErr e) | Inr x \<Rightarrow> Inr x)"

definition saveMonotonicJournal ::
    "jsstring \<Rightarrow> idb_env \<Rightarrow> idb \<Rightarrow> store_name \<Rightarrow> jsstring \<Rightarrow> jsval
      \<Rightarrow> (jsval \<Rightarrow> storage_code + unit) \<Rightarrow> (storage_code + unit) \<Rightarrow> (storage_code + unit) \<times> idb" where
  "saveMonotonicJournal prefx env db s i v validateExisting validateInitial =
     (case storage_key prefx i of
        Inl e \<Rightarrow> (Inl e, db)
      | Inr k \<Rightarrow>
          idb_transaction env
            (\<lambda>d. case storage_failure (case map_of (d s) k of
                     None \<Rightarrow> validateInitial
                   | Some existing \<Rightarrow> validateExisting existing) of
                   Inl e \<Rightarrow> (Inl e, d)
                 | Inr _ \<Rightarrow> put_record s k v d) db)"

section \<open>The public operations\<close>

definition loadVerifiedDevice :: "jsstring \<Rightarrow> idb_env \<Rightarrow> idb \<Rightarrow> jsstring \<Rightarrow> storage_code + verified_device_hint option" where
  "loadVerifiedDevice prefx env db serialNumber =
     rbind (idb_get prefx env db Sn_verified_devices serialNumber) (\<lambda>value.
     case value of
       None \<Rightarrow> Inr None
     | Some v \<Rightarrow> rbind (verifiedDevice v) (\<lambda>hint.
         if vd_serialNumber hint \<noteq> serialNumber then resumeRejected else Inr (Some hint)))"

definition saveVerifiedDevice :: "jsstring \<Rightarrow> idb_env \<Rightarrow> idb \<Rightarrow> jsval \<Rightarrow> (storage_code + unit) \<times> idb" where
  "saveVerifiedDevice prefx env db v =
     (case verifiedDevice v of
        Inl e \<Rightarrow> (Inl e, db)
      | Inr d \<Rightarrow> idb_put prefx env db Sn_verified_devices (vd_serialNumber d) (verified_device_value d))"

definition deleteVerifiedDevice :: "jsstring \<Rightarrow> idb_env \<Rightarrow> idb \<Rightarrow> jsstring \<Rightarrow> (storage_code + unit) \<times> idb" where
  "deleteVerifiedDevice prefx env db serialNumber = idb_delete prefx env db Sn_verified_devices serialNumber"

definition load_checkpoint :: "store_name \<Rightarrow> jsstring \<Rightarrow> idb_env \<Rightarrow> idb \<Rightarrow> jsstring \<Rightarrow> storage_code + jsval option" where
  "load_checkpoint s prefx env db operationId =
     rbind (idb_get prefx env db s operationId) (\<lambda>value.
     case value of
       None \<Rightarrow> Inr None
     | Some v \<Rightarrow> rbind (checkpoint_record v operationId) (\<lambda>c. Inr (Some c)))"

definition save_checkpoint :: "store_name \<Rightarrow> jsstring \<Rightarrow> idb_env \<Rightarrow> idb \<Rightarrow> jsstring \<Rightarrow> jsval \<Rightarrow> (storage_code + unit) \<times> idb" where
  "save_checkpoint s prefx env db operationId checkpoint =
     (case validateStorageIdentifier operationId of
        Inl e \<Rightarrow> (Inl e, db)
      | Inr i \<Rightarrow> idb_put prefx env db s operationId (checkpoint_record_value i checkpoint))"

definition loadWorkflowCheckpoint :: "jsstring \<Rightarrow> idb_env \<Rightarrow> idb \<Rightarrow> jsstring \<Rightarrow> storage_code + jsval option" where
  "loadWorkflowCheckpoint = load_checkpoint Sn_workflow_checkpoints"

definition saveWorkflowCheckpoint :: "jsstring \<Rightarrow> idb_env \<Rightarrow> idb \<Rightarrow> jsstring \<Rightarrow> jsval \<Rightarrow> (storage_code + unit) \<times> idb" where
  "saveWorkflowCheckpoint = save_checkpoint Sn_workflow_checkpoints"

definition deleteWorkflowCheckpoint :: "jsstring \<Rightarrow> idb_env \<Rightarrow> idb \<Rightarrow> jsstring \<Rightarrow> (storage_code + unit) \<times> idb" where
  "deleteWorkflowCheckpoint prefx env db operationId = idb_delete prefx env db Sn_workflow_checkpoints operationId"

definition loadEncryptedUploadV2Checkpoint :: "jsstring \<Rightarrow> idb_env \<Rightarrow> idb \<Rightarrow> jsstring \<Rightarrow> storage_code + jsval option" where
  "loadEncryptedUploadV2Checkpoint = load_checkpoint Sn_encrypted_upload_v2_checkpoints"

definition saveEncryptedUploadV2Checkpoint :: "jsstring \<Rightarrow> idb_env \<Rightarrow> idb \<Rightarrow> jsstring \<Rightarrow> jsval \<Rightarrow> (storage_code + unit) \<times> idb" where
  "saveEncryptedUploadV2Checkpoint = save_checkpoint Sn_encrypted_upload_v2_checkpoints"

definition deleteEncryptedUploadV2Checkpoint :: "jsstring \<Rightarrow> idb_env \<Rightarrow> idb \<Rightarrow> jsstring \<Rightarrow> (storage_code + unit) \<times> idb" where
  "deleteEncryptedUploadV2Checkpoint prefx env db operationId =
     idb_delete prefx env db Sn_encrypted_upload_v2_checkpoints operationId"

definition loadRecordingJournal :: "jsstring \<Rightarrow> idb_env \<Rightarrow> idb \<Rightarrow> jsstring \<Rightarrow> storage_code + recording_journal option" where
  "loadRecordingJournal prefx env db operationId =
     rbind (idb_get prefx env db Sn_recording_journals operationId) (\<lambda>value.
     case value of
       None \<Rightarrow> Inr None
     | Some v \<Rightarrow> rbind (recordingJournal v) (\<lambda>journal.
         if rj_operationId journal \<noteq> operationId then resumeRejected else Inr (Some journal)))"

definition saveRecordingJournal :: "jsstring \<Rightarrow> idb_env \<Rightarrow> idb \<Rightarrow> jsval \<Rightarrow> (storage_code + unit) \<times> idb" where
  "saveRecordingJournal prefx env db journal =
     (case recordingJournal journal of
        Inl e \<Rightarrow> (Inl e, db)
      | Inr sanitized \<Rightarrow>
          saveMonotonicJournal prefx env db Sn_recording_journals (rj_operationId sanitized)
            (recording_journal_value sanitized)
            (\<lambda>existing. rbind (recordingJournal existing) (\<lambda>previous. recording_replaces previous sanitized))
            (recording_starts sanitized))"

definition deleteRecordingJournal :: "jsstring \<Rightarrow> idb_env \<Rightarrow> idb \<Rightarrow> jsstring \<Rightarrow> (storage_code + unit) \<times> idb" where
  "deleteRecordingJournal prefx env db operationId = idb_delete prefx env db Sn_recording_journals operationId"

definition loadProvisioningJournal :: "jsstring \<Rightarrow> idb_env \<Rightarrow> idb \<Rightarrow> jsstring \<Rightarrow> storage_code + provisioning_journal option" where
  "loadProvisioningJournal prefx env db attemptId =
     rbind (idb_get prefx env db Sn_provisioning_journals attemptId) (\<lambda>value.
     case value of
       None \<Rightarrow> Inr None
     | Some v \<Rightarrow> rbind (provisioningJournal v) (\<lambda>journal.
         if pj_attemptId journal \<noteq> attemptId then resumeRejected else Inr (Some journal)))"

definition saveProvisioningJournal :: "jsstring \<Rightarrow> idb_env \<Rightarrow> idb \<Rightarrow> jsval \<Rightarrow> (storage_code + unit) \<times> idb" where
  "saveProvisioningJournal prefx env db journal =
     (case provisioningJournal journal of
        Inl e \<Rightarrow> (Inl e, db)
      | Inr sanitized \<Rightarrow>
          saveMonotonicJournal prefx env db Sn_provisioning_journals (pj_attemptId sanitized)
            (provisioning_journal_value sanitized)
            (\<lambda>existing. rbind (provisioningJournal existing) (\<lambda>previous. provisioning_replaces previous sanitized))
            (provisioning_starts sanitized))"

definition deleteProvisioningJournal :: "jsstring \<Rightarrow> idb_env \<Rightarrow> idb \<Rightarrow> jsstring \<Rightarrow> (storage_code + unit) \<times> idb" where
  "deleteProvisioningJournal prefx env db attemptId = idb_delete prefx env db Sn_provisioning_journals attemptId"

definition loadFirmwareJournal :: "jsstring \<Rightarrow> idb_env \<Rightarrow> idb \<Rightarrow> jsstring \<Rightarrow> storage_code + firmware_journal option" where
  "loadFirmwareJournal prefx env db operationId =
     rbind (idb_get prefx env db Sn_firmware_journals operationId) (\<lambda>value.
     case value of
       None \<Rightarrow> Inr None
     | Some v \<Rightarrow> rbind (firmwareJournal v) (\<lambda>journal.
         if fj_operationId journal \<noteq> operationId then resumeRejected else Inr (Some journal)))"

definition saveFirmwareJournal :: "jsstring \<Rightarrow> idb_env \<Rightarrow> idb \<Rightarrow> jsval \<Rightarrow> (storage_code + unit) \<times> idb" where
  "saveFirmwareJournal prefx env db journal =
     (case firmwareJournal journal of
        Inl e \<Rightarrow> (Inl e, db)
      | Inr sanitized \<Rightarrow>
          saveMonotonicJournal prefx env db Sn_firmware_journals (fj_operationId sanitized)
            (firmware_journal_value sanitized)
            (\<lambda>v. rbind (firmwareJournal v) (\<lambda>existing. firmware_replaces existing sanitized))
            (firmware_starts sanitized))"

definition deleteFirmwareJournal :: "jsstring \<Rightarrow> idb_env \<Rightarrow> idb \<Rightarrow> jsstring \<Rightarrow> (storage_code + unit) \<times> idb" where
  "deleteFirmwareJournal prefx env db operationId = idb_delete prefx env db Sn_firmware_journals operationId"

text \<open>
  \<open>Array.prototype.sort\<close> with \<open>localeCompare\<close>, which is a parameter: \<open>le a b\<close> is
  \<open>a.localeCompare(b) <= 0\<close>.
\<close>

fun insert_by :: "('a \<Rightarrow> 'a \<Rightarrow> bool) \<Rightarrow> 'a \<Rightarrow> 'a list \<Rightarrow> 'a list" where
  "insert_by le x [] = [x]"
| "insert_by le x (y # ys) = (if le x y then x # y # ys else y # insert_by le x ys)"

definition sort_by :: "('a \<Rightarrow> 'a \<Rightarrow> bool) \<Rightarrow> 'a list \<Rightarrow> 'a list" where
  "sort_by le xs = foldr (insert_by le) xs []"

definition listRecordingJournals ::
    "(jsstring \<Rightarrow> jsstring \<Rightarrow> bool) \<Rightarrow> jsstring \<Rightarrow> idb_env \<Rightarrow> idb \<Rightarrow> storage_code + recording_journal list" where
  "listRecordingJournals le prefx env db =
     rbind (idb_getAll prefx env db Sn_recording_journals) (\<lambda>entries.
     rbind (rtraverse (\<lambda>(key, v).
         rbind (recordingJournal v) (\<lambda>journal.
         rbind (storage_key prefx (rj_operationId journal)) (\<lambda>k.
         if key \<noteq> k then resumeRejected else Inr journal))) entries) (\<lambda>journals.
     Inr (sort_by (\<lambda>a b. le (rj_operationId a) (rj_operationId b)) journals)))"

definition listProvisioningJournals ::
    "(jsstring \<Rightarrow> jsstring \<Rightarrow> bool) \<Rightarrow> jsstring \<Rightarrow> idb_env \<Rightarrow> idb \<Rightarrow> storage_code + provisioning_journal list" where
  "listProvisioningJournals le prefx env db =
     rbind (idb_getAll prefx env db Sn_provisioning_journals) (\<lambda>entries.
     rbind (rtraverse (\<lambda>(key, v).
         rbind (provisioningJournal v) (\<lambda>journal.
         rbind (storage_key prefx (pj_attemptId journal)) (\<lambda>k.
         if key \<noteq> k then resumeRejected else Inr journal))) entries) (\<lambda>journals.
     Inr (sort_by (\<lambda>a b. le (pj_attemptId a) (pj_attemptId b)) journals)))"

definition store_clear :: "jsstring \<Rightarrow> idb_env \<Rightarrow> idb \<Rightarrow> (storage_code + unit) \<times> idb" where
  "store_clear prefx env db =
     idb_transaction env (\<lambda>d. (Inr (), foldl (\<lambda>d s. d(s := os_delete_range prefx (d s))) d STORE_NAMES)) db"

section \<open>Encrypted-upload operations: checkpoint and journal together\<close>

text \<open>
  \<open>a === b\<close> and \<open>a <= b\<close> of numbers.  NaN is neither equal to any number nor below or above one.
\<close>

fun dyadic :: "jsnum \<Rightarrow> (int \<times> nat) option" where
  "dyadic (JInt n) = Some (n, 0)"
| "dyadic (JNonInt (Fraction m k)) = Some (m, k)"
| "dyadic _ = None"

definition jsnum_eq :: "jsnum \<Rightarrow> jsnum \<Rightarrow> bool" where
  "jsnum_eq a b \<longleftrightarrow>
     (case (dyadic a, dyadic b) of
        (Some (m, k), Some (n, l)) \<Rightarrow> m * 2 ^ l = n * 2 ^ k
      | _ \<Rightarrow> a = b \<and> a \<noteq> JNonInt Not_a_number)"

definition jsnum_le :: "jsnum \<Rightarrow> jsnum \<Rightarrow> bool" where
  "jsnum_le a b \<longleftrightarrow>
     a \<noteq> JNonInt Not_a_number \<and> b \<noteq> JNonInt Not_a_number
     \<and> (a = JNonInt (Infinite False) \<or> b = JNonInt (Infinite True)
        \<or> (case (dyadic a, dyadic b) of
             (Some (m, k), Some (n, l)) \<Rightarrow> m * 2 ^ l \<le> n * 2 ^ k
           | _ \<Rightarrow> False))"

lemma jsnum_integers [simp]:
  "jsnum_eq (JInt m) (JInt n) \<longleftrightarrow> m = n" "jsnum_le (JInt m) (JInt n) \<longleftrightarrow> m \<le> n"
  by (simp_all add: jsnum_eq_def jsnum_le_def)

text \<open>\<open>a === b\<close> between values from different sources: two objects are never identical.\<close>

fun js_strict_eq :: "jsval \<Rightarrow> jsval \<Rightarrow> bool" where
  "js_strict_eq (JNumber m) (JNumber n) = jsnum_eq m n"
| "js_strict_eq (JBigInt m) (JBigInt n) = (m = n)"
| "js_strict_eq (JString s) (JString t) = (s = t)"
| "js_strict_eq (JBool a) (JBool b) = (a = b)"
| "js_strict_eq JNull JNull = True"
| "js_strict_eq JUndefined JUndefined = True"
| "js_strict_eq _ _ = False"

definition optional_value :: "jsval option \<Rightarrow> jsval" where
  "optional_value x = (case x of None \<Rightarrow> JUndefined | Some v \<Rightarrow> v)"

text \<open>The ownership check of \<open>replaceEncryptedUploadV2Operation\<close> inside the transaction.\<close>

definition replaces_owner ::
    "jsval \<Rightarrow> jsval \<Rightarrow> jsstring \<Rightarrow> jsnum \<Rightarrow> jsval option \<Rightarrow> jsval option \<Rightarrow> storage_code + unit" where
  "replaces_owner checkpoint journal uploadSessionId ownerRevision existingCheckpoint existingJournal =
     rbind (versionedRecord (optional_value existingCheckpoint)) (\<lambda>existing.
     rbind (versionedRecord (js_get existing ''checkpoint'')) (\<lambda>old.
     rbind (versionedRecord checkpoint) (\<lambda>nxt.
     rbind (recordingJournal (optional_value existingJournal)) (\<lambda>oldJournal.
     ensure (\<not> (js_get old ''uploadSessionId'' \<noteq> JString uploadSessionId
         \<or> \<not> js_strict_eq (js_get old ''ownerRevision'') (JNumber ownerRevision)
         \<or> js_strict_eq (js_get nxt ''uploadSessionId'') (js_get old ''uploadSessionId'')
         \<or> (case js_get nxt ''ownerRevision'' of JNumber n \<Rightarrow> jsnum_le n ownerRevision | _ \<Rightarrow> True)
         \<or> rj_phase oldJournal = Rp_cloud_completed \<or> rj_phase oldJournal = Rp_confirmed
         \<or> JString (rj_serialNumber oldJournal) \<noteq> js_get journal ''serialNumber''
         \<or> JString (rj_recordingUuid oldJournal) \<noteq> js_get journal ''recordingUuid''
         \<or> JString (rj_sinkId oldJournal) \<noteq> js_get journal ''sinkId''
         \<or> rj_profile oldJournal \<noteq> Profile_encrypted_upload_v2
         \<or> \<not> js_strict_eq (js_get nxt ''recordingId'') (js_get old ''recordingId'')
         \<or> \<not> js_strict_eq (js_get nxt ''materialId'') (js_get old ''materialId'')
         \<or> js_get nxt ''coreCheckpoint'' \<noteq> JNull)) St_resume_rejected))))"

definition writeEncryptedUploadV2Operation ::
    "jsstring \<Rightarrow> idb_env \<Rightarrow> idb \<Rightarrow> jsstring \<Rightarrow> jsval \<Rightarrow> jsval \<Rightarrow> (jsstring \<times> jsnum) option
      \<Rightarrow> (storage_code + unit) \<times> idb" where
  "writeEncryptedUploadV2Operation prefx env db operationId checkpoint journal previous =
     (case rbind (validateStorageIdentifier operationId) (\<lambda>i.
           rbind (recordingJournal journal) (\<lambda>sanitizedJournal.
           rbind (ensure (\<not> (rj_operationId sanitizedJournal \<noteq> i
               \<or> rj_profile sanitizedJournal \<noteq> Profile_encrypted_upload_v2
               \<or> rj_phase sanitizedJournal \<noteq> Rp_prepared)) St_resume_rejected) (\<lambda>_.
           rbind (storage_key prefx i) (\<lambda>k. Inr (i, sanitizedJournal, k))))) of
        Inl e \<Rightarrow> (Inl e, db)
      | Inr (i, sanitizedJournal, k) \<Rightarrow>
          idb_transaction env
            (\<lambda>d. let existingCheckpoint = map_of (d Sn_encrypted_upload_v2_checkpoints) k;
                     existingJournal = map_of (d Sn_recording_journals) k in
               case storage_failure (case previous of
                   Some (uploadSessionId, ownerRevision) \<Rightarrow>
                     replaces_owner checkpoint journal uploadSessionId ownerRevision existingCheckpoint existingJournal
                 | None \<Rightarrow> ensure (\<not> (existingCheckpoint \<noteq> None \<or> existingJournal \<noteq> None)) St_resume_rejected) of
                 Inl e \<Rightarrow> (Inl e, d)
               | Inr _ \<Rightarrow>
                   (case put_record Sn_encrypted_upload_v2_checkpoints k (checkpoint_record_value i checkpoint) d of
                      (Inl e, _) \<Rightarrow> (Inl e, d)
                    | (Inr _, d') \<Rightarrow> put_record Sn_recording_journals k (recording_journal_value sanitizedJournal) d'))
            db)"

definition saveEncryptedUploadV2Operation ::
    "jsstring \<Rightarrow> idb_env \<Rightarrow> idb \<Rightarrow> jsstring \<Rightarrow> jsval \<Rightarrow> jsval \<Rightarrow> (storage_code + unit) \<times> idb" where
  "saveEncryptedUploadV2Operation prefx env db operationId checkpoint journal =
     writeEncryptedUploadV2Operation prefx env db operationId checkpoint journal None"

definition replaceEncryptedUploadV2Operation ::
    "jsstring \<Rightarrow> idb_env \<Rightarrow> idb \<Rightarrow> jsstring \<Rightarrow> jsval \<Rightarrow> jsval \<Rightarrow> jsstring \<times> jsnum \<Rightarrow> (storage_code + unit) \<times> idb" where
  "replaceEncryptedUploadV2Operation prefx env db operationId checkpoint journal previous =
     writeEncryptedUploadV2Operation prefx env db operationId checkpoint journal (Some previous)"

definition deleteEncryptedUploadV2Operation :: "jsstring \<Rightarrow> idb_env \<Rightarrow> idb \<Rightarrow> jsstring \<Rightarrow> (storage_code + unit) \<times> idb" where
  "deleteEncryptedUploadV2Operation prefx env db operationId =
     (case storage_key prefx operationId of
        Inl e \<Rightarrow> (Inl e, db)
      | Inr k \<Rightarrow>
          idb_transaction env
            (\<lambda>d. (Inr (), d(Sn_encrypted_upload_v2_checkpoints := os_delete k (d Sn_encrypted_upload_v2_checkpoints),
                           Sn_recording_journals := os_delete k (d Sn_recording_journals)))) db)"

section \<open>Laws of the database operations\<close>

lemma map_of_os_put: "map_of (os_put k v r) k' = (if k' = k then Some v else map_of r k')"
  by (induction r) auto

lemma map_of_filter_key: "map_of (filter (\<lambda>(k', _). P k') r) k = (if P k then map_of r k else None)"
  by (induction r) auto

lemma map_of_os_delete: "map_of (os_delete k r) k' = (if k' = k then None else map_of r k')"
  unfolding os_delete_def by (simp add: map_of_filter_key)

lemma map_of_os_delete_range:
  "map_of (os_delete_range p r) k = (if in_namespaceRange p k then None else map_of r k)"
  unfolding os_delete_range_def by (simp add: map_of_filter_key)

text \<open>A transaction that fails changes nothing, one that succeeds did what its body did.\<close>

lemma idb_transaction_Inl: "fst (idb_transaction env body db) = Inl e \<Longrightarrow> snd (idb_transaction env body db) = db"
  by (auto simp: idb_transaction_def split: option.splits sum.splits prod.splits)

lemma idb_transaction_Inr:
  "idb_transaction env body db = (Inr x, db') \<longleftrightarrow>
     idb_opened env = None \<and> idb_aborted env = None \<and> body db = (Inr x, db')"
  by (auto simp: idb_transaction_def split: option.splits sum.splits prod.splits)

lemma idb_get_Inr:
  "idb_get p env db s i = Inr x \<longleftrightarrow>
     (\<exists>k. storage_key p i = Inr k \<and> idb_opened env = None \<and> idb_aborted env = None \<and> x = map_of (db s) k)"
  by (auto simp: idb_get_def idb_transaction_def rbind_eq_Inr split: option.splits)

lemma idb_get_ok: "storage_key p i = Inr k \<Longrightarrow> idb_get p idb_ok db s i = Inr (map_of (db s) k)"
  by (simp add: idb_get_def idb_transaction_def idb_ok_def)

lemma put_record_Inr:
  "put_record s k v db = (Inr u, db') \<longleftrightarrow> cloneable v \<and> db' = db(s := os_put k v (db s))"
  by (auto simp: put_record_def)

lemma storage_failure_simps [simp]:
  "storage_failure r = Inr x \<longleftrightarrow> r = Inr x" "storage_failure (Inr x) = Inr x"
  "storage_failure (Inl e) = Inl (StorageErr e)"
  by (auto simp: storage_failure_def split: sum.splits)

lemma saveMonotonicJournal_Inl:
  "fst (saveMonotonicJournal p env db s i v ve vi) = Inl e \<Longrightarrow> snd (saveMonotonicJournal p env db s i v ve vi) = db"
  by (auto simp: saveMonotonicJournal_def idb_transaction_Inl split: sum.splits)

lemma saveMonotonicJournal_Inr:
  "saveMonotonicJournal p env db s i v ve vi = (Inr (), db') \<longleftrightarrow>
     idb_opened env = None \<and> idb_aborted env = None \<and> cloneable v
     \<and> (\<exists>k. storage_key p i = Inr k \<and> db' = db(s := os_put k v (db s))
          \<and> (case map_of (db s) k of None \<Rightarrow> vi | Some existing \<Rightarrow> ve existing) = Inr ())"
  by (cases "storage_key p i")
    (auto simp: saveMonotonicJournal_def idb_transaction_Inr put_record_Inr split: option.splits sum.splits)

section \<open>Interface: monotone journals\<close>

text \<open>
  What \<open>saveMonotonicJournal\<close> relies on.  A journal type gives its validator \<open>dec\<close> with the stored
  form \<open>enc\<close> of a validated journal, the identifier it is stored under, the checks for a first
  and for a replacing journal, and an order of progress that every permitted replacement follows.
\<close>

locale monotone_journal =
  fixes dec :: "jsval \<Rightarrow> storage_code + 'j" and enc :: "'j \<Rightarrow> jsval" and sname :: store_name
    and name :: "'j \<Rightarrow> jsstring" and starts :: "'j \<Rightarrow> storage_code + unit"
    and replaces :: "'j \<Rightarrow> 'j \<Rightarrow> storage_code + unit"
    and progress :: "'j \<Rightarrow> 'j \<Rightarrow> bool"
    and save :: "jsstring \<Rightarrow> idb_env \<Rightarrow> idb \<Rightarrow> jsval \<Rightarrow> (storage_code + unit) \<times> idb"
    and load :: "jsstring \<Rightarrow> idb_env \<Rightarrow> idb \<Rightarrow> jsstring \<Rightarrow> storage_code + 'j option"
  assumes dec_enc: "dec v = Inr j \<Longrightarrow> dec (enc j) = Inr j"
    and enc_cloneable: "cloneable (enc j)"
    and replaces_progress: "replaces j j' = Inr () \<Longrightarrow> progress j j'"
    and replaces_refl: "replaces j j = Inr ()"
    and progress_trans: "progress j j' \<Longrightarrow> progress j' j'' \<Longrightarrow> progress j j''"
    and save_def: "save p env db v =
       (case dec v of Inl e \<Rightarrow> (Inl e, db)
        | Inr j \<Rightarrow> saveMonotonicJournal p env db sname (name j) (enc j)
                    (\<lambda>existing. rbind (dec existing) (\<lambda>old. replaces old j)) (starts j))"
    and load_def: "load p env db i =
       rbind (idb_get p env db sname i) (\<lambda>value. case value of None \<Rightarrow> Inr None
         | Some v \<Rightarrow> rbind (dec v) (\<lambda>j. if name j \<noteq> i then resumeRejected else Inr (Some j)))"
begin

lemma save_rejected: "fst (save p env db v) = Inl e \<Longrightarrow> snd (save p env db v) = db"
  by (auto simp: save_def saveMonotonicJournal_Inl split: sum.splits)

lemma save_accepted:
  assumes "save p env db v = (Inr (), db')"
  obtains j k where "dec v = Inr j" and "storage_key p (name j) = Inr k"
    and "db' = db(sname := os_put k (enc j) (db sname))"
    and "case map_of (db sname) k of None \<Rightarrow> starts j = Inr ()
         | Some old \<Rightarrow> \<exists>i. dec old = Inr i \<and> replaces i j = Inr ()"
proof -
  from assms obtain j where j: "dec v = Inr j" by (auto simp: save_def split: sum.splits)
  with assms obtain k where "storage_key p (name j) = Inr k" "db' = db(sname := os_put k (enc j) (db sname))"
    "(case map_of (db sname) k of None \<Rightarrow> starts j
      | Some existing \<Rightarrow> rbind (dec existing) (\<lambda>old. replaces old j)) = Inr ()"
    by (auto simp: save_def saveMonotonicJournal_Inr)
  with that j show ?thesis by (auto split: option.splits)
qed

text \<open>What was saved is what is loaded.\<close>

lemma load_after_save:
  assumes "save p env db v = (Inr (), db')" and "dec v = Inr j"
  shows "load p idb_ok db' (name j) = Inr (Some j)"
proof -
  obtain j' k where "dec v = Inr j'" "storage_key p (name j') = Inr k"
    "db' = db(sname := os_put k (enc j') (db sname))"
    using assms(1) by (rule save_accepted)
  with assms(2) dec_enc [of v j] show ?thesis
    by (simp add: load_def idb_get_ok map_of_os_put)
qed

text \<open>Saving again what is stored is always accepted.\<close>

lemma save_idempotent:
  assumes "save p env db v = (Inr (), db')"
  shows "fst (save p idb_ok db' v) = Inr ()"
proof -
  obtain j k where j: "dec v = Inr j" "storage_key p (name j) = Inr k"
    "db' = db(sname := os_put k (enc j) (db sname))"
    using assms by (rule save_accepted)
  then have "save p idb_ok db' v = (Inr (), db'(sname := os_put k (enc j) (db' sname)))"
    using dec_enc [of v j] enc_cloneable replaces_refl
    by (simp add: save_def saveMonotonicJournal_Inr idb_ok_def map_of_os_put)
  then show ?thesis by simp
qed

text \<open>A whole history of saves, whatever their outcome, only makes progress.\<close>

definition history :: "jsstring \<Rightarrow> (idb_env \<times> jsval) list \<Rightarrow> idb \<Rightarrow> idb" where
  "history p saves db = foldl (\<lambda>db (env, v). snd (save p env db v)) db saves"

definition stored :: "jsstring \<Rightarrow> idb \<Rightarrow> jsstring \<Rightarrow> 'j option" where
  "stored p db i = (case load p idb_ok db i of Inr (Some j) \<Rightarrow> Some j | _ \<Rightarrow> None)"

lemma stored_eq:
  "stored p db i = Some j \<longleftrightarrow>
     (\<exists>k v. storage_key p i = Inr k \<and> map_of (db sname) k = Some v \<and> dec v = Inr j \<and> name j = i)"
proof (cases "storage_key p i")
  case (Inr k)
  then show ?thesis
    by (cases "map_of (db sname) k"; cases "dec (the (map_of (db sname) k))")
      (auto simp: stored_def load_def idb_get_ok)
qed (simp add: stored_def load_def idb_get_def)

lemma save_step:
  assumes "stored p db i = Some j" and "\<And>a b. storage_key p a = storage_key p b \<Longrightarrow> isl (storage_key p a) \<or> a = b"
  obtains j' where "stored p (snd (save p env db v)) i = Some j'" and "j' = j \<or> replaces j j' = Inr ()"
proof (cases "fst (save p env db v)")
  case (Inl e)
  with that assms(1) save_rejected show ?thesis by auto
next
  case (Inr u)
  then obtain db' where db': "save p env db v = (Inr (), db')" by (cases "save p env db v") auto
  then obtain n k where n: "dec v = Inr n" "storage_key p (name n) = Inr k"
    "db' = db(sname := os_put k (enc n) (db sname))"
    "case map_of (db sname) k of None \<Rightarrow> starts n = Inr ()
     | Some old \<Rightarrow> \<exists>i. dec old = Inr i \<and> replaces i n = Inr ()"
    by (rule save_accepted)
  from assms(1) obtain ki w where ki: "storage_key p i = Inr ki" "map_of (db sname) ki = Some w"
    "dec w = Inr j" "name j = i"
    by (auto simp: stored_eq)
  show ?thesis
  proof (cases "ki = k")
    case True
    with assms(2) [of "name n" i] n(2) ki(1) have "name n = i" by simp
    with True n ki dec_enc [OF n(1)] have "stored p db' i = Some n"
      by (simp add: stored_eq map_of_os_put)
    moreover from True n(4) ki have "replaces j n = Inr ()" by simp
    ultimately show ?thesis using that db' by simp
  next
    case False
    with n ki have "stored p db' i = Some j" by (auto simp: stored_eq map_of_os_put)
    then show ?thesis using that db' by simp
  qed
qed

lemma history_progress:
  assumes "stored p db i = Some j" and "\<And>a b. storage_key p a = storage_key p b \<Longrightarrow> isl (storage_key p a) \<or> a = b"
  shows "\<exists>j'. stored p (history p saves db) i = Some j' \<and> progress j j'"
  using assms(1)
proof (induction saves arbitrary: db j)
  case Nil
  then show ?case using replaces_progress [OF replaces_refl] by (simp add: history_def)
next
  case (Cons x saves)
  obtain env v where x: "x = (env, v)" by (cases x)
  obtain j1 where j1: "stored p (snd (save p env db v)) i = Some j1" "j1 = j \<or> replaces j j1 = Inr ()"
    by (rule save_step [OF Cons.prems assms(2)])
  from Cons.IH [OF j1(1)] obtain j' where "stored p (history p saves (snd (save p env db v))) i = Some j'"
    "progress j1 j'" by blast
  moreover from j1(2) replaces_progress replaces_refl have "progress j j1" by blast
  ultimately show ?case using progress_trans by (auto simp: history_def x)
qed

end

lemma storage_key_inj:
  assumes "storage_key p a = storage_key p b"
  shows "isl (storage_key p a) \<or> a = b"
proof (cases "storage_key p a")
  case (Inr k)
  with assms have b: "storage_key p b = Inr k" by metis
  obtain x where x: "encodeKeyPart a = Inr x" "k = p @ x" using iffD1 [OF storage_key_Inr Inr] by blast
  obtain y where y: "encodeKeyPart b = Inr y" "k = p @ y" using iffD1 [OF storage_key_Inr b] by blast
  from x(2) y(2) have "x @ [] = y @ []" by simp
  with encodeKeyPart_prefix_free [OF x(1) y(1)] show ?thesis by blast
qed simp

section \<open>The three journals\<close>

definition phase_rank :: "recording_phase \<Rightarrow> int" where
  "phase_rank = indexOf RECORDING_PHASES"

text \<open>
  Progress of a recording journal: its identity never changes and its time stamp never decreases;
  once staged it stays staged and keeps the device digest; once the cloud has completed, the phase
  never goes back and the completion id and the confirmation digest stay.
\<close>

definition recording_progress :: "recording_journal \<Rightarrow> recording_journal \<Rightarrow> bool" where
  "recording_progress j j' \<longleftrightarrow>
     rj_operationId j' = rj_operationId j \<and> rj_serialNumber j' = rj_serialNumber j
     \<and> rj_recordingUuid j' = rj_recordingUuid j \<and> rj_profile j' = rj_profile j \<and> rj_sinkId j' = rj_sinkId j
     \<and> rj_updatedAtEpochMs j \<le> rj_updatedAtEpochMs j'
     \<and> (phase_rank Rp_staged \<le> phase_rank (rj_phase j) \<longrightarrow>
          phase_rank Rp_staged \<le> phase_rank (rj_phase j')
          \<and> rj_devicePlaintextSha256Hex j' = rj_devicePlaintextSha256Hex j)
     \<and> (phase_rank Rp_cloud_completed \<le> phase_rank (rj_phase j) \<longrightarrow>
          phase_rank (rj_phase j) \<le> phase_rank (rj_phase j'))
     \<and> (rj_cloudCompletionId j \<noteq> None \<longrightarrow> rj_cloudCompletionId j' = rj_cloudCompletionId j)
     \<and> (rj_confirmationDigestHex j \<noteq> None \<longrightarrow> rj_confirmationDigestHex j' = rj_confirmationDigestHex j)"

definition provisioning_progress :: "provisioning_journal \<Rightarrow> provisioning_journal \<Rightarrow> bool" where
  "provisioning_progress j j' \<longleftrightarrow>
     pj_attemptId j' = pj_attemptId j \<and> pj_materialId j' = pj_materialId j
     \<and> pj_serialNumber j' = pj_serialNumber j \<and> pj_updatedAtEpochMs j \<le> pj_updatedAtEpochMs j'
     \<and> (pj_phase j = Pp_device_applied \<longrightarrow> pj_phase j' = Pp_device_applied \<or> pj_phase j' = Pp_backend_confirmed)
     \<and> (pj_phase j = Pp_backend_confirmed \<longrightarrow> pj_phase j' = Pp_backend_confirmed)
     \<and> (pj_phase j = Pp_aborted \<longrightarrow> pj_phase j' = Pp_aborted)"

definition firmware_progress :: "firmware_journal \<Rightarrow> firmware_journal \<Rightarrow> bool" where
  "firmware_progress j j' \<longleftrightarrow>
     fj_operationId j' = fj_operationId j \<and> fj_serialNumber j' = fj_serialNumber j
     \<and> fj_imageId j' = fj_imageId j \<and> fj_downloadId j' = fj_downloadId j \<and> fj_version j' = fj_version j
     \<and> fj_sizeBytes j' = fj_sizeBytes j \<and> fj_crc32 j' = fj_crc32 j \<and> fj_sha256Hex j' = fj_sha256Hex j
     \<and> fj_blobId j' = fj_blobId j \<and> fj_downloadedBytes j \<le> fj_downloadedBytes j'
     \<and> (fj_verified j \<longrightarrow> fj_verified j')
     \<and> (firmwareJournalState j = Fs_cleanup_only \<longrightarrow> firmwareJournalState j' = Fs_cleanup_only)
     \<and> fj_updatedAtEpochMs j \<le> fj_updatedAtEpochMs j'"

lemma phase_rank_simps [simp]:
  "phase_rank Rp_prepared = 0" "phase_rank Rp_transferring = 1" "phase_rank Rp_staged = 2"
  "phase_rank Rp_uploading = 3" "phase_rank Rp_cloud_completed = 4" "phase_rank Rp_confirmed = 5"
  by (simp_all add: phase_rank_def RECORDING_PHASES_def)

lemma recording_replaces_iff:
  "recording_replaces j j' = Inr () \<longleftrightarrow>
     rj_operationId j = rj_operationId j' \<and> rj_serialNumber j = rj_serialNumber j'
     \<and> rj_recordingUuid j = rj_recordingUuid j' \<and> rj_profile j = rj_profile j' \<and> rj_sinkId j = rj_sinkId j'
     \<and> rj_updatedAtEpochMs j \<le> rj_updatedAtEpochMs j'
     \<and> (\<not> reconciledNotUploaded j j' \<longrightarrow> rj_uploadId j \<noteq> None \<longrightarrow> rj_uploadId j = rj_uploadId j')
     \<and> (rj_cloudCompletionId j \<noteq> None \<longrightarrow> rj_cloudCompletionId j = rj_cloudCompletionId j')
     \<and> (rj_confirmationDigestHex j \<noteq> None \<longrightarrow> rj_confirmationDigestHex j = rj_confirmationDigestHex j')
     \<and> (phase_rank Rp_staged \<le> phase_rank (rj_phase j) \<longrightarrow>
          rj_devicePlaintextSha256Hex j = rj_devicePlaintextSha256Hex j')
     \<and> (\<not> reconciledNotUploaded j j' \<longrightarrow>
          phase_rank (rj_phase j') = phase_rank (rj_phase j) \<or> phase_rank (rj_phase j') = phase_rank (rj_phase j) + 1)"
  unfolding recording_replaces_def assertNondecreasingTimestamp_def assertEstablishedEvidence_def
    assertNextPhase_def phase_rank_def [symmetric]
  by (auto simp: rbind_eq_Inr not_less not_le)

lemma recording_replaces_progress: "recording_replaces j j' = Inr () \<Longrightarrow> recording_progress j j'"
  by (auto simp: recording_replaces_iff recording_progress_def reconciledNotUploaded_def)

interpretation recording_store: monotone_journal recordingJournal recording_journal_value Sn_recording_journals
  rj_operationId recording_starts recording_replaces recording_progress saveRecordingJournal loadRecordingJournal
proof
  show "recordingJournal v = Inr j \<Longrightarrow> recordingJournal (recording_journal_value j) = Inr j" for v j
    using recordingJournal_wf recordingJournal_value by blast
  show "cloneable (recording_journal_value j)" for j
    by (simp add: recording_journal_value_def or_null_def split: option.split)
  show "recording_replaces j j' = Inr () \<Longrightarrow> recording_progress j j'" for j j'
    by (rule recording_replaces_progress)
  show "recording_replaces j j = Inr ()" for j
    by (auto simp: recording_replaces_iff)
  show "recording_progress j j' \<Longrightarrow> recording_progress j' j'' \<Longrightarrow> recording_progress j j''" for j j' j''
    by (auto simp: recording_progress_def)
qed (simp_all add: saveRecordingJournal_def loadRecordingJournal_def split: sum.split)

interpretation provisioning_store: monotone_journal provisioningJournal provisioning_journal_value
  Sn_provisioning_journals pj_attemptId provisioning_starts provisioning_replaces provisioning_progress
  saveProvisioningJournal loadProvisioningJournal
proof
  show "provisioningJournal v = Inr j \<Longrightarrow> provisioningJournal (provisioning_journal_value j) = Inr j" for v j
    using provisioningJournal_wf provisioningJournal_value by blast
  show "cloneable (provisioning_journal_value j)" for j
    by (simp add: provisioning_journal_value_def or_null_def split: option.split)
  show "provisioning_replaces j j' = Inr () \<Longrightarrow> provisioning_progress j j'" for j j'
    by (auto simp: provisioning_replaces_def provisioning_progress_def provisioning_permitted_def
        assertNondecreasingTimestamp_def rbind_eq_Inr not_less split: if_splits)
  show "provisioning_replaces j j = Inr ()" for j
    by (simp add: provisioning_replaces_def assertNondecreasingTimestamp_def)
  show "provisioning_progress j j' \<Longrightarrow> provisioning_progress j' j'' \<Longrightarrow> provisioning_progress j j''" for j j' j''
    by (auto simp: provisioning_progress_def)
qed (simp_all add: saveProvisioningJournal_def loadProvisioningJournal_def split: sum.split)

interpretation firmware_store: monotone_journal firmwareJournal firmware_journal_value Sn_firmware_journals
  fj_operationId firmware_starts firmware_replaces firmware_progress saveFirmwareJournal loadFirmwareJournal
proof
  show "firmwareJournal v = Inr j \<Longrightarrow> firmwareJournal (firmware_journal_value j) = Inr j" for v j
    using firmwareJournal_wf firmwareJournal_value by blast
  show "cloneable (firmware_journal_value j)" for j
    by (simp add: firmware_journal_value_def split: option.split)
  show "firmware_replaces j j' = Inr () \<Longrightarrow> firmware_progress j j'" for j j'
    by (auto simp: firmware_replaces_def firmware_progress_def assertNondecreasingTimestamp_def rbind_eq_Inr not_less)
  show "firmware_replaces j j = Inr ()" for j
    by (simp add: firmware_replaces_def assertNondecreasingTimestamp_def)
  show "firmware_progress j j' \<Longrightarrow> firmware_progress j' j'' \<Longrightarrow> firmware_progress j j''" for j j' j''
    by (auto simp: firmware_progress_def)
qed (simp_all add: saveFirmwareJournal_def loadFirmwareJournal_def split: sum.split)

section \<open>Properties of the journals\<close>

definition recording_saves :: "jsstring \<Rightarrow> (idb_env \<times> jsval) list \<Rightarrow> idb \<Rightarrow> idb" where
  "recording_saves p saves db = foldl (\<lambda>db (env, v). snd (saveRecordingJournal p env db v)) db saves"

definition provisioning_saves :: "jsstring \<Rightarrow> (idb_env \<times> jsval) list \<Rightarrow> idb \<Rightarrow> idb" where
  "provisioning_saves p saves db = foldl (\<lambda>db (env, v). snd (saveProvisioningJournal p env db v)) db saves"

definition firmware_saves :: "jsstring \<Rightarrow> (idb_env \<times> jsval) list \<Rightarrow> idb \<Rightarrow> idb" where
  "firmware_saves p saves db = foldl (\<lambda>db (env, v). snd (saveFirmwareJournal p env db v)) db saves"

lemma recording_history_load:
  assumes "loadRecordingJournal p idb_ok db i = Inr (Some j)"
  shows "\<exists>j'. loadRecordingJournal p idb_ok (recording_saves p saves db) i = Inr (Some j') \<and> recording_progress j j'"
proof -
  from assms have "recording_store.stored p db i = Some j" by (simp add: recording_store.stored_def)
  from recording_store.history_progress [OF this storage_key_inj, of saves]
  show ?thesis
    by (auto simp: recording_store.stored_def recording_store.history_def recording_saves_def
        split: sum.splits option.splits)
qed

lemma provisioning_history_load:
  assumes "loadProvisioningJournal p idb_ok db i = Inr (Some j)"
  shows "\<exists>j'. loadProvisioningJournal p idb_ok (provisioning_saves p saves db) i = Inr (Some j')
    \<and> provisioning_progress j j'"
proof -
  from assms have "provisioning_store.stored p db i = Some j" by (simp add: provisioning_store.stored_def)
  from provisioning_store.history_progress [OF this storage_key_inj, of saves]
  show ?thesis
    by (auto simp: provisioning_store.stored_def provisioning_store.history_def provisioning_saves_def
        split: sum.splits option.splits)
qed

lemma firmware_history_load:
  assumes "loadFirmwareJournal p idb_ok db i = Inr (Some j)"
  shows "\<exists>j'. loadFirmwareJournal p idb_ok (firmware_saves p saves db) i = Inr (Some j') \<and> firmware_progress j j'"
proof -
  from assms have "firmware_store.stored p db i = Some j" by (simp add: firmware_store.stored_def)
  from firmware_store.history_progress [OF this storage_key_inj, of saves]
  show ?thesis
    by (auto simp: firmware_store.stored_def firmware_store.history_def firmware_saves_def
        split: sum.splits option.splits)
qed

text \<open>
  C10. A recording journal only makes progress: whatever sequence of saves is attempted, whether
  each is accepted, refused or fails in the browser, the journal of an operation keeps its
  identity, never goes back in time, never loses its staged digest, its cloud completion id or
  its confirmation digest, and never leaves the completed phases.
\<close>

theorem recording_journal_monotone:
  assumes "loadRecordingJournal p idb_ok db i = Inr (Some j)"
  shows "\<exists>j'. loadRecordingJournal p idb_ok (recording_saves p saves db) i = Inr (Some j') \<and> recording_progress j j'"
  by (rule recording_history_load [OF assms])

definition sample_journal :: "recording_phase \<Rightarrow> jsstring option \<Rightarrow> int \<Rightarrow> recording_journal" where
  "sample_journal phase upload time =
     \<lparr>rj_operationId = js ''op'', rj_serialNumber = js ''sn'', rj_recordingUuid = js ''r1'',
      rj_profile = Profile_legacy, rj_phase = phase, rj_sinkId = js ''sink'', rj_uploadId = upload,
      rj_cloudCompletionId = None, rj_confirmationDigestHex = None, rj_devicePlaintextSha256Hex = None,
      rj_updatedAtEpochMs = time\<rparr>"

definition sample_db :: idb where
  "sample_db = (\<lambda>_. [])(Sn_recording_journals :=
     [(js ''v1:1:61:2:6f70'', recording_journal_value (sample_journal Rp_staged None 5))])"

lemma sample_load:
  "loadRecordingJournal (js ''v1:1:61:'') idb_ok sample_db (js ''op'') = Inr (Some (sample_journal Rp_staged None 5))"
  by code_simp

theorem recording_journal_monotone_witness:
  "\<exists>j'. loadRecordingJournal (js ''v1:1:61:'') idb_ok
       (recording_saves (js ''v1:1:61:'')
         [(idb_ok, recording_journal_value (sample_journal Rp_prepared None 9)),
          (idb_ok, recording_journal_value (sample_journal Rp_uploading (Some (js ''u'')) 9))] sample_db)
       (js ''op'') = Inr (Some j')
     \<and> recording_progress (sample_journal Rp_staged None 5) j'"
  by (rule recording_journal_monotone [OF sample_load])

text \<open>
  C28. A provisioning attempt never changes its material and its device, and its outcome is final: once
  the device applied it it can only be confirmed, and a confirmed or aborted attempt stays so
  under every later save.
\<close>

theorem provisioning_journal_monotone:
  assumes "loadProvisioningJournal p idb_ok db i = Inr (Some j)"
  shows "\<exists>j'. loadProvisioningJournal p idb_ok (provisioning_saves p saves db) i = Inr (Some j')
    \<and> provisioning_progress j j'"
  by (rule provisioning_history_load [OF assms])

definition sample_attempt :: "provisioning_phase \<Rightarrow> provisioning_journal" where
  "sample_attempt phase =
     \<lparr>pj_attemptId = js ''op'', pj_materialId = None, pj_serialNumber = js ''sn'', pj_phase = phase,
      pj_updatedAtEpochMs = 3\<rparr>"

theorem provisioning_journal_monotone_witness:
  "\<exists>j'. loadProvisioningJournal (js ''v1:1:61:'') idb_ok
       (provisioning_saves (js ''v1:1:61:'') [(idb_ok, provisioning_journal_value (sample_attempt Pp_prepared))]
         ((\<lambda>_. [])(Sn_provisioning_journals :=
            [(js ''v1:1:61:2:6f70'', provisioning_journal_value (sample_attempt Pp_device_applied))])))
       (js ''op'') = Inr (Some j')
     \<and> provisioning_progress (sample_attempt Pp_device_applied) j'"
  by (rule provisioning_journal_monotone) code_simp

text \<open>
  C29. A firmware journal stays on one image: identity, version, size, checksum and digest never
  change, downloaded bytes never decrease, and verification and the clean-up state are never
  undone.
\<close>

theorem firmware_journal_monotone:
  assumes "loadFirmwareJournal p idb_ok db i = Inr (Some j)"
  shows "\<exists>j'. loadFirmwareJournal p idb_ok (firmware_saves p saves db) i = Inr (Some j') \<and> firmware_progress j j'"
  by (rule firmware_history_load [OF assms])

definition sample_firmware :: "int \<Rightarrow> firmware_journal" where
  "sample_firmware bytes =
     \<lparr>fj_operationId = js ''op'', fj_serialNumber = js ''sn'', fj_imageId = js ''img'', fj_downloadId = 1,
      fj_version = js ''2.0'', fj_sizeBytes = 100, fj_crc32 = 7, fj_sha256Hex = replicate 64 97,
      fj_blobId = js ''b'', fj_downloadedBytes = bytes, fj_verified = False, fj_state = None,
      fj_updatedAtEpochMs = 3\<rparr>"

theorem firmware_journal_monotone_witness:
  "\<exists>j'. loadFirmwareJournal (js ''v1:1:61:'') idb_ok
       (firmware_saves (js ''v1:1:61:'') [(idb_ok, firmware_journal_value (sample_firmware 20))]
         ((\<lambda>_. [])(Sn_firmware_journals :=
            [(js ''v1:1:61:2:6f70'', firmware_journal_value (sample_firmware 50))])))
       (js ''op'') = Inr (Some j')
     \<and> firmware_progress (sample_firmware 50) j'"
  by (rule firmware_journal_monotone) code_simp

text \<open>
  C27. Saving a recording journal is all or nothing: a refused or failed save leaves the database as
  it was, an accepted one makes the sanitised journal the one that is loaded, and saving the same
  journal again is accepted.
\<close>

theorem save_recording_outcome:
  "case saveRecordingJournal p env db v of
     (Inl e, db') \<Rightarrow> db' = db
   | (Inr _, db') \<Rightarrow> (\<exists>j. recordingJournal v = Inr j
        \<and> loadRecordingJournal p idb_ok db' (rj_operationId j) = Inr (Some j)
        \<and> fst (saveRecordingJournal p idb_ok db' v) = Inr ())"
proof (cases "saveRecordingJournal p env db v")
  case (Pair r db')
  show ?thesis
  proof (cases r)
    case (Inl e)
    with Pair recording_store.save_rejected [of p env db v e] show ?thesis by simp
  next
    case (Inr u)
    with Pair have saved: "saveRecordingJournal p env db v = (Inr (), db')" by simp
    then obtain j where j: "recordingJournal v = Inr j" by (rule recording_store.save_accepted)
    with recording_store.load_after_save [OF saved j] recording_store.save_idempotent [OF saved] Pair Inr
    show ?thesis by simp
  qed
qed

end
