(* ===== verification/BrowserStorage.thy ===== *)
theory BrowserStorage
  imports WorkflowStore BlobStore
begin

text \<open>
  \<^verbatim>\<open>frameworks/web/src/storage.ts\<close>: the storage of a namespace put together from the workflow store and
  the blob store.  What the caller passes may be left out, \<open>null\<close> or given; what is left out is
  looked up in the page, which is an input.
\<close>

datatype 'a dependency = Absent | Null_dependency | Provided 'a

record storage_dependencies =
  sd_indexedDB :: "unit dependency"
  sd_keyRange :: "unit dependency"
  sd_opfsRoot :: "unit dependency"
  sd_createIntegrityHasher :: "(nat list \<Rightarrow> js_error + bytes) dependency"

text \<open>
  The page: whether it has \<open>indexedDB\<close> and \<open>IDBKeyRange\<close>, what \<open>navigator.storage.getDirectory\<close> does, if
  there is such a function, and what loading the core gives.
\<close>

record storage_page =
  sp_indexedDB :: bool
  sp_keyRange :: bool
  sp_getDirectory :: "(js_error + bool) option"
  sp_core :: "js_error + (nat list \<Rightarrow> js_error + bytes)"

record browser_storage =
  st_namespace :: jsstring
  st_prefix :: jsstring
  st_directory :: jsstring
  st_sha256 :: "nat list \<Rightarrow> js_error + bytes"

definition given :: "bool \<Rightarrow> unit dependency \<Rightarrow> bool" where
  "given fallback d = (case d of Absent \<Rightarrow> fallback | Null_dependency \<Rightarrow> False | Provided _ \<Rightarrow> True)"

definition opfsRoot :: "storage_page \<Rightarrow> unit dependency \<Rightarrow> storage_code + bool" where
  "opfsRoot page d =
     (case d of
        Null_dependency \<Rightarrow> Inr False
      | Provided _ \<Rightarrow> Inr True
      | Absent \<Rightarrow>
          (case sp_getDirectory page of
             None \<Rightarrow> Inl St_storage_unavailable
           | Some (Inl e) \<Rightarrow> Inl (mapBrowserStorageError e)
           | Some (Inr root) \<Rightarrow> Inr root))"

definition integrityHasher ::
    "storage_page \<Rightarrow> (nat list \<Rightarrow> js_error + bytes) dependency \<Rightarrow> storage_code + (nat list \<Rightarrow> js_error + bytes)" where
  "integrityHasher page d =
     (case d of
        Null_dependency \<Rightarrow> Inl St_storage_unavailable
      | Provided h \<Rightarrow> Inr h
      | Absent \<Rightarrow> (case sp_core page of Inl e \<Rightarrow> Inl (mapBrowserStorageError e) | Inr h \<Rightarrow> Inr h))"

definition createDefaultBrowserStorage :: "jsstring \<Rightarrow> storage_dependencies \<Rightarrow> storage_page \<Rightarrow> storage_code + browser_storage" where
  "createDefaultBrowserStorage namespace d page =
     rbind (validateStorageNamespace namespace) (\<lambda>_.
       if \<not> given (sp_indexedDB page) (sd_indexedDB d) \<or> \<not> given (sp_keyRange page) (sd_keyRange d)
       then Inl St_storage_unavailable
       else
         rbind (opfsRoot page (sd_opfsRoot d)) (\<lambda>root.
           if \<not> root then Inl St_storage_unavailable
           else
             rbind (integrityHasher page (sd_createIntegrityHasher d)) (\<lambda>sha256.
               rbind (namespaceDirectoryName sha256 namespace) (\<lambda>directory.
               rbind (namespacePrefix namespace) (\<lambda>prefx.
                 Inr \<lparr>st_namespace = namespace, st_prefix = prefx, st_directory = directory, st_sha256 = sha256\<rparr>)))))"

definition openBlob :: "browser_storage \<Rightarrow> jsstring \<Rightarrow> storage_code + jsstring \<times> jsstring" where
  "openBlob st blobId = open_blob (st_sha256 st) (st_directory st) blobId"

definition storage_clear ::
    "browser_storage \<Rightarrow> idb_env \<Rightarrow> js_error option \<Rightarrow> idb \<times> opfs \<Rightarrow> (storage_code + unit) \<times> idb \<times> opfs" where
  "storage_clear st env failure w =
     (case store_clear (st_prefix st) env (fst w) of
        (Inl e, db) \<Rightarrow> (Inl e, db, snd w)
      | (Inr _, db) \<Rightarrow>
          (case blobs_clear failure (st_directory st) (snd w) of (r, fs) \<Rightarrow> (r, db, fs)))"

text \<open>
  The records go first: however clearing ends, no record survives a blob it speaks of.
\<close>

lemma clear_records_first:
  assumes "storage_clear st env failure (db, fs) = (r, db', fs')" and "fs' \<noteq> fs"
  shows "store_clear (st_prefix st) env db = (Inr (), db')"
  using assms by (auto simp: storage_clear_def split: prod.splits sum.splits)

lemma created_storage_valid:
  assumes "createDefaultBrowserStorage namespace d page = Inr st"
  shows "st_namespace st = namespace" and "validateStorageNamespace namespace = Inr ()"
    and "namespaceDirectoryName (st_sha256 st) namespace = Inr (st_directory st)"
    and "namespacePrefix namespace = Inr (st_prefix st)"
  using assms by (auto simp: createDefaultBrowserStorage_def split: if_splits)

end
