(* ===== verification/CoreTypes.thy ===== *)
theory CoreTypes
  imports SdkErrors
begin

text \<open>
  The values that cross between the SDK and the workflow core
  (\<^verbatim>\<open>frameworks/web/src/core.ts\<close>, with the device types of \<^verbatim>\<open>models.ts\<close> they mention):
  effects the core asks for, events the host answers with, notifications, checkpoints and
  the decoded wire values.  An object with fields is a record, a union discriminated by
  \<open>kind\<close> a datatype; \<open>T | null\<close> and an optional property are \<open>option\<close>; a \<open>number\<close> that the
  decoders admit only as a safe integer and a \<open>bigint\<close> are \<open>int\<close>.
\<close>

section \<open>Checkpoints, candidates, evidence\<close>

record device_candidate =
  cand_peripheralId :: jsstring
  cand_name :: "jsstring option"
  cand_advertisedAddress :: "jsstring option"
  cand_rssi :: int

datatype workflow_kind =
    Wk_discovery | Wk_connection | Wk_provisioning | Wk_recording_transfer | Wk_recording_upload
    | Wk_firmware_update | Wk_device_logs | Wk_factory_reset | Wk_inherited string

datatype checkpoint_phase =
    Cp_pending | Cp_connecting | Cp_transferring | Cp_uploading | Cp_verifying | Cp_reconnecting
    | Cp_awaiting_receipt | Cp_inherited string

record workflow_checkpoint =
  wc_workflow :: workflow_kind
  wc_operation :: core_operation
  wc_serialNumber :: jsstring
  wc_recordingUuid :: "bytes option"
  wc_phase :: checkpoint_phase
  wc_completedUnits :: int
  wc_retryCount :: int
  wc_lastSequence :: "int option"
  wc_firmwareVersion :: "jsstring option"

record v2_checkpoint =
  v2c_serialNumber :: jsstring
  v2c_recordingUuid :: bytes
  v2c_recordingGeneration :: int
  v2c_uploadSessionId :: bytes
  v2c_ownerRevision :: int
  v2c_transportSessionId :: int
  v2c_checkpointRevision :: int
  v2c_nextCiphertextOffset :: int
  v2c_prefixSha256 :: bytes
  v2c_windowPackets :: int
  v2c_dataPayloadBytes :: int

record v2_evidence =
  ev_ciphertextLength :: int
  ev_ciphertextSha256 :: bytes
  ev_manifestLength :: int
  ev_manifestSha256 :: bytes
  ev_blockCount :: int

record v2_capabilities =
  cap_flags :: int
  cap_maximumSignedBlobBytes :: int
  cap_maximumManifestBytes :: int
  cap_maximumDataPayloadBytes :: int
  cap_maximumWindowPackets :: int
  cap_durableCheckpointIntervalBlocks :: int
  cap_maximumMissingSequences :: int

datatype upload_policy =
    Pol_legacy_allowed | Pol_v2_preferred | Pol_v2_required | Pol_inherited string

section \<open>Notifications and effects\<close>

datatype connection_mode = Mode_manual | Mode_reconnect | Mode_inherited string

datatype firmware_phase =
    Fp_downloading | Fp_awaiting_device | Fp_transferring | Fp_verifying | Fp_rebooting
    | Fp_reconnecting | Fp_complete | Fp_inherited string

datatype core_notification =
    N_started core_operation
  | N_connection_established jsstring device_candidate connection_mode
  | N_progress core_operation int int
  | N_retrying core_operation int
  | N_firmware_progress firmware_phase int int
  | N_device_log jsstring bool
  | N_recording_transfer_completed bool "bytes option"
  | N_encrypted_upload_v2_staged bytes int int bytes int bytes
  | N_completed core_operation
  | N_cancelled core_operation
  | N_failed jsval

record v2_start =
  v2s_serialNumber :: jsstring
  v2s_recordingUuid :: bytes
  v2s_recordingGeneration :: int
  v2s_storageFormat :: int
  v2s_uploadSessionId :: bytes
  v2s_ownerRevision :: int
  v2s_transportSessionId :: int
  v2s_materialId :: jsstring
  v2s_sinkId :: jsstring
  v2s_policy :: upload_policy
  v2s_capabilities :: v2_capabilities
  v2s_windowPackets :: int
  v2s_dataPayloadBytes :: int
  v2s_ciphertextLength :: int
  v2s_ciphertextSha256 :: bytes
  v2s_checkpoint :: "v2_checkpoint option"
  v2s_authorizationSha256 :: bytes

datatype core_effect =
    E_notify core_notification
  | E_ble_start_scan bool
  | E_ble_stop_scan
  | E_ble_connect jsstring
  | E_ble_discover_services jsstring
  | E_ble_disconnect jsstring
  | E_ble_read jsstring jsstring
  | E_ble_write jsstring jsstring bytes bool
  | E_ble_subscribe jsstring jsstring
  | E_ble_unsubscribe jsstring jsstring
  | E_timer_schedule int int
  | E_timer_cancel int
  | E_persistence_load_checkpoint
  | E_persistence_save_checkpoint workflow_checkpoint
  | E_persistence_delete_checkpoint
  | E_persistence_save_connection_identity jsstring device_candidate
  | E_host_material_prepare_provisioning jsstring jsstring bytes bytes
  | E_recording_sink_truncate jsstring int
  | E_recording_sink_append jsstring int bytes
  | E_recording_sink_finalize jsstring "int option"
  | E_recording_sink_discard jsstring
  | E_network_download int
  | E_progress int int
  | E_firmware_blob_read_chunk int int int
  | E_v2_load_checkpoint jsstring bytes int bytes int
  | E_v2_delete_checkpoint bytes
  | E_v2_truncate_sink jsstring int
  | E_v2_prepare_session jsstring
  | E_v2_start_transfer v2_start
  | E_v2_repair_window "int list"
  | E_v2_save_checkpoint v2_checkpoint
  | E_v2_acknowledge_window v2_checkpoint
  | E_v2_stage_artifacts jsstring jsstring v2_evidence
  | E_v2_await_completion_receipt jsstring v2_evidence
  | E_v2_confirm_with_receipt jsstring bytes
  | E_v2_abort jsstring

record effect_envelope =
  env_requestId :: int
  env_operation :: core_operation
  env_cancellationId :: bytes
  env_effect :: core_effect

section \<open>Host events and workflow status\<close>

datatype host_event_kind =
    H_ble_scan_result device_candidate
  | H_ble_scan_stopped
  | H_ble_connected jsstring
  | H_ble_services_discovered jsstring
  | H_ble_subscribed jsstring
  | H_ble_disconnected jsstring "int option"
  | H_ble_read_completed bytes
  | H_ble_write_completed
  | H_ble_notification jsstring bytes
  | H_ble_failed "jsnum option"
  | H_timer_fired int
  | H_checkpoint_loaded "workflow_checkpoint option"
  | H_checkpoint_saved
  | H_connection_identity_saved
  | H_persistence_failed "int option"
  | H_provisioning_material_prepared bytes bytes "bytes option" int
  | H_host_material_failed "int option"
  | H_recording_sink_truncated
  | H_recording_sink_append_completed int
  | H_recording_sink_finalized int
  | H_recording_sink_integrity_failed
  | H_recording_sink_failed "int option"
  | H_firmware_chunk_read int int bytes
  | H_firmware_blob_failed "int option"
  | H_network_download_progress int int "int option"
  | H_network_download_completed int int
  | H_network_failed int "int option"
  | H_v2_checkpoint_loaded "v2_checkpoint option"
  | H_v2_sink_truncated
  | H_v2_session_prepared bytes
  | H_v2_transfer_started
  | H_v2_resume_rejected
  | H_v2_window_staged v2_checkpoint "int list"
  | H_v2_checkpoint_saved
  | H_v2_window_acknowledged v2_checkpoint
  | H_v2_transfer_completed v2_evidence
  | H_v2_artifacts_staged
  | H_v2_completion_receipt_accepted bytes
  | H_v2_recording_confirmed
  | H_v2_mixed_profile
  | H_v2_failed jsval

record host_event =
  he_requestId :: int
  he_kind :: host_event_kind

datatype workflow_status =
    Ws_idle
  | Ws_running core_operation bytes
  | Ws_completed core_operation
  | Ws_cancelled core_operation
  | Ws_failed jsval

section \<open>Decoded device values\<close>

datatype recording_codec = Codec_pcm_16k | Codec_pcm_8k | Codec_opus_16k | Codec_opus_8k | Codec_unknown

record device_recording =
  dr_uuid :: jsstring
  dr_startedAtTimestampSeconds :: int
  dr_durationMilliseconds :: int
  dr_fileSizeBytes :: int
  dr_codec :: recording_codec
  dr_encrypted :: bool
  dr_codecRaw :: "int option"

datatype connection_type = Conn_wifi | Conn_ble | Conn_cellular | Conn_unknown

record connection_settings =
  cs_enabled_wifi :: bool
  cs_enabled_cellular :: bool
  cs_heartbeat_wifi :: bool
  cs_heartbeat_cellular :: bool
  cs_uploadNetworkPreference :: "connection_type list"
  cs_cellularIdleTimeoutSeconds :: int
  cs_wifiIdleTimeoutSeconds :: int
  cs_streamingEnabled :: bool
  cs_streamingFlushIntervalSeconds :: int
  cs_supportedVersion :: bool

record operation_result =
  or_success :: bool
  or_error :: "jsstring option"
  or_errorRaw :: "int option"

datatype wifi_state = Wifi_idle | Wifi_connecting | Wifi_connected | Wifi_failed | Wifi_disconnected | Wifi_unknown

record wifi_status_info =
  ws_status :: wifi_state
  ws_statusRaw :: int
  ws_signalStrength :: "int option"
  ws_ssid :: "jsstring option"
  ws_lastError :: "jsstring option"

record wifi_network =
  wn_ssid :: jsstring
  wn_quality :: int
  wn_isCurrent :: bool
  wn_isOpen :: bool

datatype wifi_scan_update =
    Scan_pending int
  | Scan_done "wifi_network list" "jsstring option"

datatype device_state =
    Ds_idle | Ds_recording | Ds_syncing | Ds_uploading | Ds_charging | Ds_low_battery
    | Ds_storage_full | Ds_error | Ds_unknown | Ds_inherited string

record modem_info =
  mi_imei :: "jsstring option"
  mi_iccid :: "jsstring option"
  mi_operator :: "jsstring option"
  mi_rat :: "jsstring option"
  mi_band :: "jsstring option"
  mi_apn :: "jsstring option"
  mi_simStatus :: "jsstring option"
  mi_csq :: "int option"
  mi_ipAddress :: "jsstring option"
  mi_voltageMillivolts :: "int option"
  mi_firmware :: "jsstring option"
  mi_roaming :: "bool option"

record device_flags =
  df_charging :: bool
  df_lowBattery :: bool
  df_storageFull :: bool
  df_wifiConnected :: bool
  df_lteConnected :: bool
  df_syncActive :: bool

record device_status =
  st_batteryPercent :: int
  st_batteryMillivolts :: "int option"
  st_storageTotalMb :: int
  st_storageUsedMb :: int
  st_state :: device_state
  st_stateRaw :: "int option"
  st_pendingRecordings :: int
  st_lastTimeSyncTimestamp :: int
  st_flags :: device_flags
  st_lteStatusRaw :: int
  st_lteSignalQuality :: "int option"
  st_wifiStatusRaw :: "int option"
  st_modemInfo :: "modem_info option"

section \<open>Encrypted-upload transfer frames\<close>

record v2_common =
  vc_flags :: int
  vc_transportSessionId :: int

record v2_resume_frame =
  rf_uploadSessionUuid :: jsstring
  rf_recordingUuid :: jsstring
  rf_recordingGeneration :: int
  rf_checkpointRevision :: int
  rf_nextCiphertextOffset :: int
  rf_prefixSha256 :: bytes
  rf_windowPackets :: int
  rf_dataPayloadBytes :: int

datatype v2_frame =
    F_list
  | F_recording_entry jsstring int int int int int int int bytes
  | F_recording_list_end int int bytes
  | F_start jsstring jsstring int bytes int int bytes int int
  | F_start_ack jsstring jsstring int int bytes int int int int int bytes
  | F_data int int bytes
  | F_window_end int int int int bytes int
  | F_window_ack int int int bytes int "int list"
  | F_manifest_chunk int int bytes bytes
  | F_eof int int int bytes bytes
  | F_resume_request v2_resume_frame
  | F_resume_accept v2_resume_frame
  | F_resume_reject int int int bytes
  | F_confirm jsstring jsstring int int bytes
  | F_abort int
  | F_error int int int

type_synonym v2_transfer_frame = "v2_common \<times> v2_frame"

record v2_status =
  vs_phase :: int
  vs_result :: int
  vs_transportSessionId :: int
  vs_durableCiphertextBytes :: int
  vs_progressPercent :: int
  vs_transportProfile :: int

end
