(* ===== verification/CoreDecode.thy ===== *)
theory CoreDecode
  imports CoreTypes
begin

text \<open>
  The decoders of \<^verbatim>\<open>frameworks/web/src/wasmCore.ts\<close>: everything the
    generated WebAssembly
  bridge returns arrives as an \<open>unknown\<close> value and is admitted only through these
    functions,
  each of which throws \<open>internalBridgeError()\<close> on a value of the wrong shape.  Fields
    are read
  in the source's order.  The theorems say what an admitted value is guaranteed to satisfy:
  safe integers, bytes, 16- and 32-bit fields in range, digests and identifiers of their
  exact length.
\<close>

section \<open>Primitive decoders\<close>

definition internalBridgeError :: bota_error where
  "internalBridgeError = BotaSDKError Sdk_internal_error Op_unknown"

fun js_record :: "jsval \<Rightarrow> bota_error + jsval" where
  "js_record (JObject fs) = Inr (JObject fs)"
| "js_record (JBytes bs) = Inr (JBytes bs)"
| "js_record _ = Inl internalBridgeError"

fun js_string :: "jsval \<Rightarrow> bota_error + jsstring" where
  "js_string (JString s) = Inr s"
| "js_string _ = Inl internalBridgeError"

definition stringUnion :: "(string \<times> 'a) list \<Rightarrow> jsval \<Rightarrow> bota_error
  + 'a" where
  "stringUnion values value =
     rbind (js_string value) (\<lambda>result.
       case find (\<lambda>(k, _). js k = result) values of
         None \<Rightarrow> Inl internalBridgeError | Some (_, x) \<Rightarrow> Inr x)"

definition js_optional :: "(jsval \<Rightarrow> bota_error + 'a) \<Rightarrow> jsval \<Rightarrow>
  bota_error + 'a option" where
  "js_optional dec value =
     (if value = JUndefined \<or> value = JNull then Inr None
      else rbind (dec value) (\<lambda>x. Inr (Some x)))"

definition optionalString :: "jsval \<Rightarrow> bota_error + jsstring option" where
  "optionalString = js_optional js_string"

definition js_number :: "jsval \<Rightarrow> bota_error + int" where
  "js_number value =
     (case value of
        JNumber (JInt n) \<Rightarrow> if is_safe_integer value then Inr n else Inl
          internalBridgeError
      | _ \<Rightarrow> Inl internalBridgeError)"

definition optionalNumber :: "jsval \<Rightarrow> bota_error + int option" where
  "optionalNumber = js_optional js_number"

fun js_boolean :: "jsval \<Rightarrow> bota_error + bool" where
  "js_boolean (JBool b) = Inr b"
| "js_boolean _ = Inl internalBridgeError"

definition optionalBoolean :: "jsval \<Rightarrow> bota_error + bool option" where
  "optionalBoolean = js_optional js_boolean"

fun js_bigint :: "jsval \<Rightarrow> bota_error + int" where
  "js_bigint (JBigInt n) = Inr n"
| "js_bigint _ = Inl internalBridgeError"

definition js_byte :: "jsval \<Rightarrow> bota_error + int" where
  "js_byte value =
     rbind (js_number value) (\<lambda>result.
       if result < 0 \<or> result > 255 then Inl internalBridgeError else Inr result)"

definition js_u16 :: "jsval \<Rightarrow> bota_error + int" where
  "js_u16 value =
     rbind (js_number value) (\<lambda>result.
       if result < 0 \<or> result > 0xffff then Inl internalBridgeError else Inr result)"

definition u32Value :: "int \<Rightarrow> bota_error + int" where
  "u32Value value = (if value < 0 \<or> value > 0xffffffff then Inl internalBridgeError else Inr
    value)"

definition js_u32 :: "jsval \<Rightarrow> bota_error + int" where
  "js_u32 value = rbind (js_number value) u32Value"

fun js_array :: "jsval \<Rightarrow> bota_error + jsval list" where
  "js_array (JArray xs) = Inr xs"
| "js_array _ = Inl internalBridgeError"

definition js_numbers :: "jsval \<Rightarrow> bota_error + int list" where
  "js_numbers value = rbind (js_array value) (rtraverse js_number)"

definition js_bytes :: "nat option \<Rightarrow> jsval \<Rightarrow> bota_error + bytes" where
  "js_bytes expectedLength value =
     rbind (case value of
              JBytes bs \<Rightarrow> Inr bs
            | JArray xs \<Rightarrow> rbind (rtraverse js_byte xs) (\<lambda>ns. Inr (map
              word_of_int ns))
            | _ \<Rightarrow> Inl internalBridgeError) (\<lambda>result.
       case expectedLength of
         Some n \<Rightarrow> if length result \<noteq> n then Inl internalBridgeError else Inr
           result
       | None \<Rightarrow> Inr result)"

definition optionalBytes :: "nat option \<Rightarrow> jsval \<Rightarrow> bota_error + bytes
  option" where
  "optionalBytes expectedLength = js_optional (js_bytes expectedLength)"

definition enumValue :: "(string \<Rightarrow> 'a) \<Rightarrow> (string \<times> 'a) list
  \<Rightarrow> jsval \<Rightarrow> bota_error + 'a" where
  "enumValue inh values value =
     rbind (js_string value) (\<lambda>key.
       case table_lookup values inh key of
         None \<Rightarrow> Inl internalBridgeError | Some result \<Rightarrow> Inr result)"

text \<open>
  \<open>fall m rest\<close> is an \<open>if ('K' in v) { ... return } \<close> block whose body
    may end without
  returning: \<open>Inr None\<close> continues with the statements after the block.
\<close>

definition fall :: "'e + 'a option \<Rightarrow> 'e + 'a \<Rightarrow> 'e + 'a" where
  "fall m rest = rbind m (\<lambda>r. case r of Some x \<Rightarrow> Inr x | None \<Rightarrow>
    rest)"

section \<open>Enumerations\<close>

definition operation_table :: "(string \<times> core_operation) list" where
  "operation_table =
     [(''Validate'', Core_validate), (''Decode'', Core_decode), (''Encode'', Core_encode),
      (''Discover'', Core_discover), (''Connect'', Core_connect),
      (''Reconnect'', Core_reconnect), (''Provision'', Core_provision),
      (''TransferRecording'', Core_transfer_recording), (''Upload'', Core_upload),
      (''UpdateFirmware'', Core_update_firmware),
      (''ReadDeviceLogs'', Core_read_device_logs),
      (''FactoryReset'', Core_factory_reset), (''Unknown'', Core_unknown)]"

definition normalizeOperation :: "jsval \<Rightarrow> bota_error + core_operation" where
  "normalizeOperation = enumValue Core_inherited operation_table"

definition workflow_kind_table :: "(string \<times> workflow_kind) list" where
  "workflow_kind_table =
     [(''Discovery'', Wk_discovery), (''Connection'', Wk_connection),
      (''Provisioning'', Wk_provisioning),
      (''RecordingTransfer'', Wk_recording_transfer),
      (''RecordingUpload'', Wk_recording_upload),
      (''FirmwareUpdate'', Wk_firmware_update), (''DeviceLogs'', Wk_device_logs),
      (''FactoryReset'', Wk_factory_reset)]"

definition normalizeWorkflowKind :: "jsval \<Rightarrow> bota_error + workflow_kind" where
  "normalizeWorkflowKind = enumValue Wk_inherited workflow_kind_table"

definition checkpoint_phase_table :: "(string \<times> checkpoint_phase) list" where
  "checkpoint_phase_table =
     [(''Pending'', Cp_pending), (''Connecting'', Cp_connecting),
      (''Transferring'', Cp_transferring), (''Uploading'', Cp_uploading),
      (''Verifying'', Cp_verifying), (''Reconnecting'', Cp_reconnecting),
      (''AwaitingReceipt'', Cp_awaiting_receipt)]"

definition normalizeCheckpointPhase :: "jsval \<Rightarrow> bota_error + checkpoint_phase" where
  "normalizeCheckpointPhase = enumValue Cp_inherited checkpoint_phase_table"

definition upload_policy_table :: "(string \<times> upload_policy) list" where
  "upload_policy_table =
     [(''LegacyAllowed'', Pol_legacy_allowed), (''V2Preferred'', Pol_v2_preferred),
      (''V2Required'', Pol_v2_required)]"

definition normalizeUploadPolicy :: "jsval \<Rightarrow> bota_error + upload_policy" where
  "normalizeUploadPolicy = enumValue Pol_inherited upload_policy_table"

definition firmware_phase_table :: "(string \<times> firmware_phase) list" where
  "firmware_phase_table =
     [(''Downloading'', Fp_downloading), (''AwaitingDevice'', Fp_awaiting_device),
      (''Transferring'', Fp_transferring), (''Verifying'', Fp_verifying),
      (''Rebooting'', Fp_rebooting), (''Reconnecting'', Fp_reconnecting),
      (''Complete'', Fp_complete)]"

definition connection_mode_table :: "(string \<times> connection_mode) list" where
  "connection_mode_table =
     [(''Manual'', Mode_manual), (''Reconnect'', Mode_reconnect)]"

definition device_state_table :: "(string \<times> device_state) list" where
  "device_state_table =
     [(''Idle'', Ds_idle), (''Recording'', Ds_recording), (''Syncing'', Ds_syncing),
      (''Uploading'', Ds_uploading), (''Charging'', Ds_charging),
      (''LowBattery'', Ds_low_battery), (''StorageFull'', Ds_storage_full),
      (''Error'', Ds_error)]"

section \<open>Structures\<close>

definition normalizeCandidate :: "jsval \<Rightarrow> bota_error + device_candidate" where
  "normalizeCandidate value =
     rbind (js_record value) (\<lambda>candidate.
     rbind (js_string (js_get candidate ''peripheral_id'')) (\<lambda>peripheralId.
     rbind (optionalString (js_get candidate ''name'')) (\<lambda>name.
     rbind (optionalString (js_get candidate ''advertised_address'')) (\<lambda>advertisedAddress.
     rbind (js_number (js_get candidate ''rssi'')) (\<lambda>rssi.
     Inr \<lparr>cand_peripheralId = peripheralId, cand_name = name, cand_advertisedAddress =
       advertisedAddress, cand_rssi = rssi\<rparr>)))))"

definition normalizeWorkflowCheckpoint :: "jsval \<Rightarrow> bota_error + workflow_checkpoint"
  where
  "normalizeWorkflowCheckpoint value =
     rbind (js_record value) (\<lambda>checkpoint.
     rbind (normalizeWorkflowKind (js_get checkpoint ''workflow'')) (\<lambda>workflow.
     rbind (normalizeOperation (js_get checkpoint ''operation'')) (\<lambda>operation.
     rbind (js_string (js_get checkpoint ''device'')) (\<lambda>serialNumber.
     rbind (optionalBytes (Some 16) (js_get checkpoint ''recording'')) (\<lambda>recordingUuid.
     rbind (normalizeCheckpointPhase (js_get checkpoint ''phase'')) (\<lambda>phase.
     rbind (js_bigint (js_get checkpoint ''completed_units'')) (\<lambda>completedUnits.
     rbind (js_number (js_get checkpoint ''retry_count'')) (\<lambda>retryCount.
     rbind (optionalNumber (js_get checkpoint ''last_sequence'')) (\<lambda>lastSequence.
     rbind (optionalString (js_get checkpoint ''firmware_version'')) (\<lambda>firmwareVersion.
     Inr \<lparr>wc_workflow = workflow, wc_operation = operation, wc_serialNumber = serialNumber,
       wc_recordingUuid = recordingUuid, wc_phase = phase, wc_completedUnits = completedUnits,
       wc_retryCount = retryCount, wc_lastSequence = lastSequence, wc_firmwareVersion =
       firmwareVersion\<rparr>))))))))))"

definition normalizeEncryptedCheckpoint :: "jsval \<Rightarrow> bota_error + v2_checkpoint" where
  "normalizeEncryptedCheckpoint value =
     rbind (js_record value) (\<lambda>checkpoint.
     rbind (js_string (js_get checkpoint ''device'')) (\<lambda>serialNumber.
     rbind (js_bytes (Some 16) (js_get checkpoint ''recording'')) (\<lambda>recordingUuid.
     rbind (js_number (js_get checkpoint ''recording_generation'')) (\<lambda>recordingGeneration.
     rbind (js_bytes (Some 16) (js_get checkpoint ''upload_session_uuid''))
       (\<lambda>uploadSessionId.
     rbind (js_number (js_get checkpoint ''owner_revision'')) (\<lambda>ownerRevision.
     rbind (js_bigint (js_get checkpoint ''transport_session_id'')) (\<lambda>transportSessionId.
     rbind (js_number (js_get checkpoint ''checkpoint_revision'')) (\<lambda>checkpointRevision.
     rbind (js_bigint (js_get checkpoint ''next_ciphertext_offset''))
       (\<lambda>nextCiphertextOffset.
     rbind (js_bytes (Some 32) (js_get checkpoint ''prefix_sha256'')) (\<lambda>prefixSha256.
     rbind (js_number (js_get checkpoint ''window_packets'')) (\<lambda>windowPackets.
     rbind (js_number (js_get checkpoint ''data_payload_bytes'')) (\<lambda>dataPayloadBytes.
     Inr \<lparr>v2c_serialNumber = serialNumber, v2c_recordingUuid = recordingUuid,
       v2c_recordingGeneration = recordingGeneration, v2c_uploadSessionId = uploadSessionId,
       v2c_ownerRevision = ownerRevision, v2c_transportSessionId = transportSessionId,
       v2c_checkpointRevision = checkpointRevision, v2c_nextCiphertextOffset = nextCiphertextOffset,
       v2c_prefixSha256 = prefixSha256, v2c_windowPackets = windowPackets, v2c_dataPayloadBytes =
       dataPayloadBytes\<rparr>))))))))))))"

definition optionalEncryptedCheckpoint :: "jsval \<Rightarrow> bota_error + v2_checkpoint option"
  where
  "optionalEncryptedCheckpoint = js_optional normalizeEncryptedCheckpoint"

definition normalizeEncryptedEvidence :: "jsval \<Rightarrow> bota_error + v2_evidence" where
  "normalizeEncryptedEvidence value =
     rbind (js_record value) (\<lambda>evidence.
     rbind (js_bigint (js_get evidence ''ciphertext_length'')) (\<lambda>ciphertextLength.
     rbind (js_bytes (Some 32) (js_get evidence ''ciphertext_sha256'')) (\<lambda>ciphertextSha256.
     rbind (js_number (js_get evidence ''manifest_length'')) (\<lambda>manifestLength.
     rbind (js_bytes (Some 32) (js_get evidence ''manifest_sha256'')) (\<lambda>manifestSha256.
     rbind (js_number (js_get evidence ''block_count'')) (\<lambda>blockCount.
     Inr \<lparr>ev_ciphertextLength = ciphertextLength, ev_ciphertextSha256 = ciphertextSha256,
       ev_manifestLength = manifestLength, ev_manifestSha256 = manifestSha256, ev_blockCount =
       blockCount\<rparr>))))))"

definition normalizeCapabilities :: "jsval \<Rightarrow> bota_error + v2_capabilities" where
  "normalizeCapabilities value =
     rbind (js_record value) (\<lambda>capabilities.
     rbind (js_number (js_get capabilities ''flags'')) (\<lambda>flags.
     rbind (js_number (js_get capabilities ''maximum_signed_blob_bytes''))
       (\<lambda>maximumSignedBlobBytes.
     rbind (js_number (js_get capabilities ''maximum_manifest_bytes''))
       (\<lambda>maximumManifestBytes.
     rbind (js_number (js_get capabilities ''maximum_data_payload_bytes''))
       (\<lambda>maximumDataPayloadBytes.
     rbind (js_number (js_get capabilities ''maximum_window_packets''))
       (\<lambda>maximumWindowPackets.
     rbind (js_number (js_get capabilities ''durable_checkpoint_interval_blocks''))
       (\<lambda>durableCheckpointIntervalBlocks.
     rbind (js_number (js_get capabilities ''maximum_missing_sequences''))
       (\<lambda>maximumMissingSequences.
     Inr \<lparr>cap_flags = flags, cap_maximumSignedBlobBytes = maximumSignedBlobBytes,
       cap_maximumManifestBytes = maximumManifestBytes, cap_maximumDataPayloadBytes =
       maximumDataPayloadBytes, cap_maximumWindowPackets = maximumWindowPackets,
       cap_durableCheckpointIntervalBlocks = durableCheckpointIntervalBlocks,
       cap_maximumMissingSequences = maximumMissingSequences\<rparr>))))))))"

definition normalizeNotification :: "jsval \<Rightarrow> bota_error + core_notification" where
  "normalizeNotification value =
     rbind (js_record value) (\<lambda>notification.
     if js_has notification ''Started'' then
       rbind (js_record (js_get notification ''Started'')) (\<lambda>r.
       rbind (normalizeOperation (js_get r ''operation'')) (\<lambda>operation.
       Inr (N_started operation)))
     else
     if js_has notification ''ConnectionEstablished'' then
       rbind (js_record (js_get notification ''ConnectionEstablished'')) (\<lambda>established.
       rbind (js_string (js_get established ''device'')) (\<lambda>serialNumber.
       rbind (normalizeCandidate (js_get established ''candidate'')) (\<lambda>candidate.
       rbind (enumValue Mode_inherited connection_mode_table (js_get established ''mode''))
         (\<lambda>mode.
       Inr (N_connection_established serialNumber candidate mode)))))
     else
     if js_has notification ''Progress'' then
       rbind (js_record (js_get notification ''Progress'')) (\<lambda>progress.
       rbind (normalizeOperation (js_get progress ''operation'')) (\<lambda>operation.
       rbind (js_bigint (js_get progress ''completed_units'')) (\<lambda>completedUnits.
       rbind (js_bigint (js_get progress ''total_units'')) (\<lambda>totalUnits.
       Inr (N_progress operation completedUnits totalUnits)))))
     else
     if js_has notification ''Retrying'' then
       rbind (js_record (js_get notification ''Retrying'')) (\<lambda>retrying.
       rbind (normalizeOperation (js_get retrying ''operation'')) (\<lambda>operation.
       rbind (js_number (js_get retrying ''attempt'')) (\<lambda>attempt.
       Inr (N_retrying operation attempt))))
     else
     if js_has notification ''FirmwareProgress'' then
       rbind (js_record (js_get notification ''FirmwareProgress'')) (\<lambda>r.
       rbind (js_record (js_get r ''progress'')) (\<lambda>progress.
       rbind (enumValue Fp_inherited firmware_phase_table (js_get progress ''phase''))
         (\<lambda>phase.
       rbind (js_bigint (js_get progress ''completed_bytes'')) (\<lambda>completedBytes.
       rbind (js_bigint (js_get progress ''total_bytes'')) (\<lambda>totalBytes.
       Inr (N_firmware_progress phase completedBytes totalBytes))))))
     else
     if js_has notification ''DeviceLog'' then
       rbind (js_record (js_get notification ''DeviceLog'')) (\<lambda>r.
       rbind (js_record (js_get r ''event'')) (\<lambda>event.
       rbind (js_string (js_get event ''message'')) (\<lambda>message.
       rbind (js_boolean (js_get event ''is_backlog'')) (\<lambda>isBacklog.
       Inr (N_device_log message isBacklog)))))
     else
     if js_has notification ''RecordingTransferCompleted'' then
       rbind (js_record (js_get notification ''RecordingTransferCompleted'')) (\<lambda>completed.
       rbind (js_boolean (js_get completed ''encrypted'')) (\<lambda>encrypted.
       rbind (optionalBytes (Some 32) (js_get completed ''sha256'')) (\<lambda>sha256.
       Inr (N_recording_transfer_completed encrypted sha256))))
     else
     if js_has notification ''EncryptedUploadV2Staged'' then
       rbind (js_record (js_get notification ''EncryptedUploadV2Staged'')) (\<lambda>staged.
       rbind (js_bytes (Some 16) (js_get staged ''upload_session_uuid'')) (\<lambda>uploadSessionId.
       rbind (js_number (js_get staged ''owner_revision'')) (\<lambda>ownerRevision.
       rbind (js_bigint (js_get staged ''ciphertext_length'')) (\<lambda>ciphertextLength.
       rbind (js_bytes (Some 32) (js_get staged ''ciphertext_sha256'')) (\<lambda>ciphertextSha256.
       rbind (js_number (js_get staged ''manifest_length'')) (\<lambda>manifestLength.
       rbind (js_bytes (Some 32) (js_get staged ''manifest_sha256'')) (\<lambda>manifestSha256.
       Inr (N_encrypted_upload_v2_staged uploadSessionId ownerRevision ciphertextLength
         ciphertextSha256 manifestLength manifestSha256))))))))
     else
     if js_has notification ''Completed'' then
       rbind (js_record (js_get notification ''Completed'')) (\<lambda>r.
       rbind (normalizeOperation (js_get r ''operation'')) (\<lambda>operation.
       Inr (N_completed operation)))
     else
     if js_has notification ''Cancelled'' then
       rbind (js_record (js_get notification ''Cancelled'')) (\<lambda>r.
       rbind (normalizeOperation (js_get r ''operation'')) (\<lambda>operation.
       Inr (N_cancelled operation)))
     else
     if js_has notification ''Failed'' then
       rbind (js_record (js_get notification ''Failed'')) (\<lambda>r.
       Inr (N_failed (js_get r ''error'')))
     else
     Inl internalBridgeError)"

section \<open>Effects\<close>

definition normalizeBleEffect :: "jsval \<Rightarrow> bota_error + core_effect" where
  "normalizeBleEffect value =
     (if value = JString (js ''StopScan'') then Inr E_ble_stop_scan else
     rbind (js_record value) (\<lambda>ble.
     if js_has ble ''StartScan'' then
       rbind (js_record (js_get ble ''StartScan'')) (\<lambda>r.
       rbind (js_boolean (js_get r ''allow_duplicates'')) (\<lambda>x.
       Inr (E_ble_start_scan x)))
     else
     if js_has ble ''Connect'' then
       rbind (js_record (js_get ble ''Connect'')) (\<lambda>r.
       rbind (js_string (js_get r ''peripheral_id'')) (\<lambda>x.
       Inr (E_ble_connect x)))
     else
     if js_has ble ''DiscoverServices'' then
       rbind (js_record (js_get ble ''DiscoverServices'')) (\<lambda>r.
       rbind (js_string (js_get r ''peripheral_id'')) (\<lambda>x.
       Inr (E_ble_discover_services x)))
     else
     if js_has ble ''Disconnect'' then
       rbind (js_record (js_get ble ''Disconnect'')) (\<lambda>r.
       rbind (js_string (js_get r ''peripheral_id'')) (\<lambda>x.
       Inr (E_ble_disconnect x)))
     else
     if js_has ble ''Read'' then
       rbind (js_record (js_get ble ''Read'')) (\<lambda>read.
       rbind (js_string (js_get read ''service_uuid'')) (\<lambda>serviceUuid.
       rbind (js_string (js_get read ''characteristic_uuid'')) (\<lambda>characteristicUuid.
       Inr (E_ble_read serviceUuid characteristicUuid))))
     else
     if js_has ble ''Write'' then
       rbind (js_record (js_get ble ''Write'')) (\<lambda>write.
       rbind (js_string (js_get write ''service_uuid'')) (\<lambda>serviceUuid.
       rbind (js_string (js_get write ''characteristic_uuid'')) (\<lambda>characteristicUuid.
       rbind (js_bytes None (js_get write ''payload'')) (\<lambda>payload.
       rbind (js_boolean (js_get write ''with_response'')) (\<lambda>withResponse.
       Inr (E_ble_write serviceUuid characteristicUuid payload withResponse))))))
     else
     if js_has ble ''Subscribe'' then
       rbind (js_record (js_get ble ''Subscribe'')) (\<lambda>subscribe.
       rbind (js_string (js_get subscribe ''service_uuid'')) (\<lambda>serviceUuid.
       rbind (js_string (js_get subscribe ''characteristic_uuid'')) (\<lambda>characteristicUuid.
       Inr (E_ble_subscribe serviceUuid characteristicUuid))))
     else
     if js_has ble ''Unsubscribe'' then
       rbind (js_record (js_get ble ''Unsubscribe'')) (\<lambda>unsubscribe.
       rbind (js_string (js_get unsubscribe ''service_uuid'')) (\<lambda>serviceUuid.
       rbind (js_string (js_get unsubscribe ''characteristic_uuid'')) (\<lambda>characteristicUuid.
       Inr (E_ble_unsubscribe serviceUuid characteristicUuid))))
     else
     Inl internalBridgeError))"

definition normalizePersistenceEffect :: "jsval \<Rightarrow> bota_error + core_effect" where
  "normalizePersistenceEffect value =
     (if value = JString (js ''LoadCheckpoint'') then Inr E_persistence_load_checkpoint else
      if value = JString (js ''DeleteCheckpoint'') then Inr E_persistence_delete_checkpoint else
     rbind (js_record value) (\<lambda>persistence.
     if js_has persistence ''SaveCheckpoint'' then
       rbind (js_record (js_get persistence ''SaveCheckpoint'')) (\<lambda>r.
       rbind (normalizeWorkflowCheckpoint (js_get r ''checkpoint'')) (\<lambda>checkpoint.
       Inr (E_persistence_save_checkpoint checkpoint)))
     else
     if js_has persistence ''SaveConnectionIdentity'' then
       rbind (js_record (js_get persistence ''SaveConnectionIdentity'')) (\<lambda>save.
       rbind (js_string (js_get save ''device'')) (\<lambda>serialNumber.
       rbind (normalizeCandidate (js_get save ''candidate'')) (\<lambda>candidate.
       Inr (E_persistence_save_connection_identity serialNumber candidate))))
     else
     Inl internalBridgeError))"

definition normalizeRecordingSinkEffect :: "jsval \<Rightarrow> bota_error + core_effect" where
  "normalizeRecordingSinkEffect value =
     rbind (js_record value) (\<lambda>sink.
     if js_has sink ''Truncate'' then
       rbind (js_record (js_get sink ''Truncate'')) (\<lambda>truncate.
       rbind (js_string (js_get truncate ''sink_id'')) (\<lambda>sinkId.
       rbind (js_bigint (js_get truncate ''completed_units'')) (\<lambda>completedUnits.
       Inr (E_recording_sink_truncate sinkId completedUnits))))
     else
     if js_has sink ''Append'' then
       rbind (js_record (js_get sink ''Append'')) (\<lambda>append.
       rbind (js_string (js_get append ''sink_id'')) (\<lambda>sinkId.
       rbind (js_number (js_get append ''sequence'')) (\<lambda>sequence.
       rbind (js_bytes None (js_get append ''payload'')) (\<lambda>payload.
       Inr (E_recording_sink_append sinkId sequence payload)))))
     else
     if js_has sink ''Finalize'' then
       rbind (js_record (js_get sink ''Finalize'')) (\<lambda>finalize.
       rbind (js_string (js_get finalize ''sink_id'')) (\<lambda>sinkId.
       rbind (optionalNumber (js_get finalize ''expected_crc32'')) (\<lambda>expectedCrc32.
       Inr (E_recording_sink_finalize sinkId expectedCrc32))))
     else
     if js_has sink ''Discard'' then
       rbind (js_record (js_get sink ''Discard'')) (\<lambda>r.
       rbind (js_string (js_get r ''sink_id'')) (\<lambda>x.
       Inr (E_recording_sink_discard x)))
     else
     Inl internalBridgeError)"

definition normalizeStartTransfer :: "jsval \<Rightarrow> bota_error + v2_start" where
  "normalizeStartTransfer value =
     rbind (js_record value) (\<lambda>start.
     rbind (js_record (js_get start ''request'')) (\<lambda>request.
     rbind (js_record (js_get request ''selection'')) (\<lambda>selection.
     rbind (ensure (js_get selection ''profile'' = JString (js ''EncryptedUploadV2''))
       internalBridgeError) (\<lambda>_.
     rbind (js_string (js_get request ''device'')) (\<lambda>serialNumber.
     rbind (js_bytes (Some 16) (js_get request ''recording'')) (\<lambda>recordingUuid.
     rbind (js_number (js_get request ''recording_generation'')) (\<lambda>recordingGeneration.
     rbind (js_number (js_get request ''storage_format'')) (\<lambda>storageFormat.
     rbind (js_bytes (Some 16) (js_get request ''upload_session_uuid'')) (\<lambda>uploadSessionId.
     rbind (js_number (js_get request ''owner_revision'')) (\<lambda>ownerRevision.
     rbind (js_bigint (js_get request ''transport_session_id'')) (\<lambda>transportSessionId.
     rbind (js_string (js_get request ''material_id'')) (\<lambda>materialId.
     rbind (js_string (js_get request ''sink_id'')) (\<lambda>sinkId.
     rbind (normalizeUploadPolicy (js_get selection ''policy'')) (\<lambda>policy.
     rbind (normalizeCapabilities (js_get request ''capabilities'')) (\<lambda>capabilities.
     rbind (js_number (js_get request ''window_packets'')) (\<lambda>windowPackets.
     rbind (js_number (js_get request ''data_payload_bytes'')) (\<lambda>dataPayloadBytes.
     rbind (js_bigint (js_get request ''ciphertext_length'')) (\<lambda>ciphertextLength.
     rbind (js_bytes (Some 32) (js_get request ''ciphertext_sha256'')) (\<lambda>ciphertextSha256.
     rbind (optionalEncryptedCheckpoint (js_get start ''checkpoint'')) (\<lambda>checkpoint.
     rbind (js_bytes (Some 32) (js_get start ''authorization_sha256''))
       (\<lambda>authorizationSha256.
     Inr \<lparr>v2s_serialNumber = serialNumber, v2s_recordingUuid = recordingUuid,
       v2s_recordingGeneration = recordingGeneration, v2s_storageFormat = storageFormat,
       v2s_uploadSessionId = uploadSessionId, v2s_ownerRevision = ownerRevision,
       v2s_transportSessionId = transportSessionId, v2s_materialId = materialId, v2s_sinkId =
       sinkId, v2s_policy = policy, v2s_capabilities = capabilities, v2s_windowPackets =
       windowPackets, v2s_dataPayloadBytes = dataPayloadBytes, v2s_ciphertextLength =
       ciphertextLength, v2s_ciphertextSha256 = ciphertextSha256, v2s_checkpoint = checkpoint,
       v2s_authorizationSha256 = authorizationSha256\<rparr>)))))))))))))))))))))"

definition normalizeEncryptedUploadV2Effect :: "jsval \<Rightarrow> bota_error + core_effect" where
  "normalizeEncryptedUploadV2Effect value =
     rbind (js_record value) (\<lambda>encrypted.
     if js_has encrypted ''LoadCheckpoint'' then
       rbind (js_record (js_get encrypted ''LoadCheckpoint'')) (\<lambda>load.
       rbind (js_string (js_get load ''device'')) (\<lambda>serialNumber.
       rbind (js_bytes (Some 16) (js_get load ''recording'')) (\<lambda>recordingUuid.
       rbind (js_number (js_get load ''recording_generation'')) (\<lambda>recordingGeneration.
       rbind (js_bytes (Some 16) (js_get load ''upload_session_uuid'')) (\<lambda>uploadSessionId.
       rbind (js_number (js_get load ''owner_revision'')) (\<lambda>ownerRevision.
       Inr (E_v2_load_checkpoint serialNumber recordingUuid recordingGeneration uploadSessionId
         ownerRevision)))))))
     else
     if js_has encrypted ''DeleteCheckpoint'' then
       rbind (js_record (js_get encrypted ''DeleteCheckpoint'')) (\<lambda>r.
       rbind (js_bytes (Some 16) (js_get r ''upload_session_uuid'')) (\<lambda>x.
       Inr (E_v2_delete_checkpoint x)))
     else
     if js_has encrypted ''TruncateSink'' then
       rbind (js_record (js_get encrypted ''TruncateSink'')) (\<lambda>truncate.
       rbind (js_string (js_get truncate ''sink_id'')) (\<lambda>sinkId.
       rbind (js_bigint (js_get truncate ''next_ciphertext_offset''))
         (\<lambda>nextCiphertextOffset.
       Inr (E_v2_truncate_sink sinkId nextCiphertextOffset))))
     else
     if js_has encrypted ''PrepareSession'' then
       rbind (js_record (js_get encrypted ''PrepareSession'')) (\<lambda>r.
       rbind (js_string (js_get r ''material_id'')) (\<lambda>x.
       Inr (E_v2_prepare_session x)))
     else
     if js_has encrypted ''StartTransfer'' then
       rbind (normalizeStartTransfer (js_get encrypted ''StartTransfer'')) (\<lambda>s.
       Inr (E_v2_start_transfer s))
     else
     if js_has encrypted ''RepairWindow'' then
       rbind (js_record (js_get encrypted ''RepairWindow'')) (\<lambda>r.
       rbind (js_numbers (js_get r ''missing_sequences'')) (\<lambda>x.
       Inr (E_v2_repair_window x)))
     else
     if js_has encrypted ''SaveCheckpoint'' then
       rbind (js_record (js_get encrypted ''SaveCheckpoint'')) (\<lambda>r.
       rbind (normalizeEncryptedCheckpoint (js_get r ''checkpoint'')) (\<lambda>x.
       Inr (E_v2_save_checkpoint x)))
     else
     if js_has encrypted ''AcknowledgeWindow'' then
       rbind (js_record (js_get encrypted ''AcknowledgeWindow'')) (\<lambda>r.
       rbind (normalizeEncryptedCheckpoint (js_get r ''checkpoint'')) (\<lambda>x.
       Inr (E_v2_acknowledge_window x)))
     else
     if js_has encrypted ''StageArtifacts'' then
       rbind (js_record (js_get encrypted ''StageArtifacts'')) (\<lambda>stage.
       rbind (js_string (js_get stage ''sink_id'')) (\<lambda>sinkId.
       rbind (js_string (js_get stage ''material_id'')) (\<lambda>materialId.
       rbind (normalizeEncryptedEvidence (js_get stage ''evidence'')) (\<lambda>evidence.
       Inr (E_v2_stage_artifacts sinkId materialId evidence)))))
     else
     if js_has encrypted ''AwaitCompletionReceipt'' then
       rbind (js_record (js_get encrypted ''AwaitCompletionReceipt'')) (\<lambda>awaitReceipt.
       rbind (js_string (js_get awaitReceipt ''material_id'')) (\<lambda>materialId.
       rbind (normalizeEncryptedEvidence (js_get awaitReceipt ''evidence'')) (\<lambda>evidence.
       Inr (E_v2_await_completion_receipt materialId evidence))))
     else
     if js_has encrypted ''ConfirmWithReceipt'' then
       rbind (js_record (js_get encrypted ''ConfirmWithReceipt'')) (\<lambda>confirm.
       rbind (js_string (js_get confirm ''material_id'')) (\<lambda>materialId.
       rbind (js_bytes (Some 32) (js_get confirm ''receipt_sha256'')) (\<lambda>receiptSha256.
       Inr (E_v2_confirm_with_receipt materialId receiptSha256))))
     else
     if js_has encrypted ''AbortV2'' then
       rbind (js_record (js_get encrypted ''AbortV2'')) (\<lambda>r.
       rbind (js_string (js_get r ''material_id'')) (\<lambda>x.
       Inr (E_v2_abort x)))
     else
     Inl internalBridgeError)"

definition normalizeEffect :: "jsval \<Rightarrow> bota_error + core_effect" where
  "normalizeEffect value =
     rbind (js_record value) (\<lambda>effect.
     if js_has effect ''Notify'' then
       rbind (normalizeNotification (js_get effect ''Notify'')) (\<lambda>notification.
       Inr (E_notify notification))
     else if js_has effect ''Ble'' then normalizeBleEffect (js_get effect ''Ble'')
     else
     fall (if js_has effect ''Timer'' then
       rbind (js_record (js_get effect ''Timer'')) (\<lambda>timer.
       if js_has timer ''Schedule'' then
         rbind (js_record (js_get timer ''Schedule'')) (\<lambda>schedule.
         rbind (js_bigint (js_get schedule ''timer_id'')) (\<lambda>timerId.
         rbind (js_bigint (js_get schedule ''delay_ms'')) (\<lambda>delayMs.
         Inr (Some (E_timer_schedule timerId delayMs)))))
       else
       if js_has timer ''Cancel'' then
         rbind (js_record (js_get timer ''Cancel'')) (\<lambda>r.
         rbind (js_bigint (js_get r ''timer_id'')) (\<lambda>timerId.
         Inr (Some (E_timer_cancel timerId))))
       else
       Inr None)
       else Inr None) (
     if js_has effect ''Persistence'' then normalizePersistenceEffect (js_get effect
       ''Persistence'')
     else
     fall (if js_has effect ''Network'' then
       rbind (js_record (js_get effect ''Network'')) (\<lambda>network.
       if js_has network ''Download'' then
         rbind (js_record (js_get network ''Download'')) (\<lambda>r.
         rbind (js_bigint (js_get r ''download_id'')) (\<lambda>downloadId.
         Inr (Some (E_network_download downloadId))))
       else
       Inr None)
       else Inr None) (
     if js_has effect ''Progress'' then
       rbind (js_record (js_get effect ''Progress'')) (\<lambda>progress.
       rbind (js_bigint (js_get progress ''completed_units'')) (\<lambda>completedUnits.
       rbind (js_bigint (js_get progress ''total_units'')) (\<lambda>totalUnits.
       Inr (E_progress completedUnits totalUnits))))
     else
     fall (if js_has effect ''HostMaterial'' then
       rbind (js_record (js_get effect ''HostMaterial'')) (\<lambda>host.
       if js_has host ''PrepareProvisioning'' then
         rbind (js_record (js_get host ''PrepareProvisioning'')) (\<lambda>prepare.
         rbind (js_string (js_get prepare ''material_id'')) (\<lambda>materialId.
         rbind (js_string (js_get prepare ''device'')) (\<lambda>serialNumber.
         rbind (js_bytes (Some 16) (js_get prepare ''nonce'')) (\<lambda>nonce.
         rbind (js_bytes None (js_get prepare ''device_public_key'')) (\<lambda>devicePublicKey.
         Inr (Some (E_host_material_prepare_provisioning materialId serialNumber nonce
           devicePublicKey)))))))
       else
       Inr None)
       else Inr None) (
     if js_has effect ''RecordingSink'' then normalizeRecordingSinkEffect (js_get effect
       ''RecordingSink'')
     else
     fall (if js_has effect ''FirmwareBlob'' then
       rbind (js_record (js_get effect ''FirmwareBlob'')) (\<lambda>firmware.
       if js_has firmware ''ReadChunk'' then
         rbind (js_record (js_get firmware ''ReadChunk'')) (\<lambda>chunk.
         rbind (js_bigint (js_get chunk ''download_id'')) (\<lambda>downloadId.
         rbind (js_bigint (js_get chunk ''offset'')) (\<lambda>offset.
         rbind (js_number (js_get chunk ''max_length'')) (\<lambda>maxLength.
         Inr (Some (E_firmware_blob_read_chunk downloadId offset maxLength))))))
       else
       Inr None)
       else Inr None) (
     if js_has effect ''EncryptedUploadV2'' then
       normalizeEncryptedUploadV2Effect (js_get effect ''EncryptedUploadV2'')
     else Inl internalBridgeError)))))"

definition normalizeEnvelope :: "jsval \<Rightarrow> bota_error + effect_envelope" where
  "normalizeEnvelope item =
     rbind (js_record item) (\<lambda>request.
     rbind (js_bigint (js_get request ''request_id'')) (\<lambda>requestId.
     rbind (normalizeOperation (js_get request ''operation'')) (\<lambda>operation.
     rbind (js_bytes (Some 16) (js_get request ''cancellation_id'')) (\<lambda>cancellationId.
     rbind (normalizeEffect (js_get request ''effect'')) (\<lambda>effect.
     Inr \<lparr>env_requestId = requestId, env_operation = operation, env_cancellationId =
       cancellationId, env_effect = effect\<rparr>)))))"

text \<open>
  \<open>scrubBridgeBytes\<close> overwrites every typed array and every array of numbers inside a
    bridge
  value with zeros, in place.  Decoded byte fields are copies and keep their content; the
  \<open>error\<close> of a decoded \<open>failed\<close> notification is the bridge's own object,
    so the scrub reaches
  it (\<open>scrub_alias\<close>).  \<open>normalizeEffects\<close> returns its result or its
    error together with what
  the scrub leaves of its argument.
\<close>

definition is_number :: "jsval \<Rightarrow> bool" where
  "is_number v = (case v of JNumber _ \<Rightarrow> True | _ \<Rightarrow> False)"

fun scrubBridgeBytes :: "jsval \<Rightarrow> jsval" where
  "scrubBridgeBytes (JBytes bs) = JBytes (map (\<lambda>_. 0) bs)"
| "scrubBridgeBytes (JArray xs) =
     (if list_all is_number xs then JArray (map (\<lambda>_. JNumber (JInt 0)) xs)
      else JArray (map scrubBridgeBytes xs))"
| "scrubBridgeBytes (JObject fs) = JObject (map (\<lambda>(k, v). (k, scrubBridgeBytes v)) fs)"
| "scrubBridgeBytes v = v"

fun scrub_alias :: "effect_envelope \<Rightarrow> effect_envelope" where
  "scrub_alias e =
     (case env_effect e of
        E_notify (N_failed err) \<Rightarrow> e\<lparr>env_effect := E_notify (N_failed
          (scrubBridgeBytes err))\<rparr>
      | _ \<Rightarrow> e)"

definition normalizeEffects :: "jsval \<Rightarrow> (bota_error + effect_envelope list) \<times>
  jsval" where
  "normalizeEffects value =
     (rbind (rbind (js_array value) (rtraverse normalizeEnvelope)) (\<lambda>es. Inr (map
       scrub_alias es)),
      scrubBridgeBytes value)"

section \<open>Workflow status\<close>

definition normalizeStatus :: "jsval \<Rightarrow> bota_error + workflow_status" where
  "normalizeStatus value =
     (if value = JString (js ''Idle'') then Inr Ws_idle else
     rbind (js_record value) (\<lambda>status.
     if js_has status ''Running'' then
       rbind (js_record (js_get status ''Running'')) (\<lambda>running.
       rbind (normalizeOperation (js_get running ''operation'')) (\<lambda>operation.
       rbind (js_bytes (Some 16) (js_get running ''cancellation_id'')) (\<lambda>cancellationId.
       Inr (Ws_running operation cancellationId))))
     else
     if js_has status ''Completed'' then
       rbind (js_record (js_get status ''Completed'')) (\<lambda>r.
       rbind (normalizeOperation (js_get r ''operation'')) (\<lambda>operation.
       Inr (Ws_completed operation)))
     else
     if js_has status ''Cancelled'' then
       rbind (js_record (js_get status ''Cancelled'')) (\<lambda>r.
       rbind (normalizeOperation (js_get r ''operation'')) (\<lambda>operation.
       Inr (Ws_cancelled operation)))
     else
     if js_has status ''Failed'' then
       rbind (js_record (js_get status ''Failed'')) (\<lambda>r.
       Inr (Ws_failed (js_get r ''error'')))
     else
     Inl internalBridgeError))"

section \<open>What an admitted value satisfies\<close>

definition safe_int :: "int \<Rightarrow> bool" where
  "safe_int n \<longleftrightarrow> \<bar>n\<bar> \<le> max_safe_integer"

lemma js_number_eq_Inr [simp]: "js_number v = Inr n \<longleftrightarrow> v = JNumber (JInt n) \<and> safe_int n"
  by (auto simp: js_number_def safe_int_def split: jsval.splits jsnum.splits)

lemma js_bigint_eq_Inr [simp]: "js_bigint v = Inr n \<longleftrightarrow> v = JBigInt n"
  by (cases v) auto

lemma js_string_eq_Inr [simp]: "js_string v = Inr s \<longleftrightarrow> v = JString s"
  by (cases v) auto

lemma js_boolean_eq_Inr [simp]: "js_boolean v = Inr b \<longleftrightarrow> v = JBool b"
  by (cases v) auto

lemma js_array_eq_Inr [simp]: "js_array v = Inr xs \<longleftrightarrow> v = JArray xs"
  by (cases v) auto

lemma js_record_eq_Inr: "js_record v = Inr r \<longleftrightarrow> r = v \<and> (\<exists>fs bs. v = JObject fs \<or> v = JBytes bs)"
  by (cases v) auto

lemma js_record_Inr_same: "js_record v = Inr r \<Longrightarrow> r = v"
  by (simp add: js_record_eq_Inr)

lemma small_safe_int [simp]: "0 \<le> n \<Longrightarrow> n \<le> 0xffffffff \<Longrightarrow> safe_int n"
  by (simp add: safe_int_def max_safe_integer_def)

lemma js_byte_eq_Inr [simp]: "js_byte v = Inr n \<longleftrightarrow> v = JNumber (JInt n) \<and> 0 \<le> n \<and> n \<le> 255"
  by (auto simp: js_byte_def rbind_eq_Inr intro!: exI [of _ n] split: if_splits)

lemma js_u16_eq_Inr [simp]: "js_u16 v = Inr n \<longleftrightarrow> v = JNumber (JInt n) \<and> 0 \<le> n \<and> n \<le> 0xffff"
  by (auto simp: js_u16_def rbind_eq_Inr intro!: exI [of _ n] split: if_splits)

lemma u32Value_eq_Inr [simp]: "u32Value m = Inr n \<longleftrightarrow> m = n \<and> 0 \<le> n \<and> n \<le> 0xffffffff"
  by (auto simp: u32Value_def)

lemma js_u32_eq_Inr [simp]: "js_u32 v = Inr n \<longleftrightarrow> v = JNumber (JInt n) \<and> 0 \<le> n \<and> n \<le> 0xffffffff"
  by (auto simp: js_u32_def rbind_eq_Inr)

lemma js_bytes_length [decode_dests]: "js_bytes (Some n) v = Inr bs \<Longrightarrow> length bs = n"
  by (auto simp: js_bytes_def rbind_eq_Inr split: if_splits)

lemma js_optional_all:
  assumes "js_optional dec v = Inr x" and "\<And>y. dec v = Inr y \<Longrightarrow> P y"
  shows "option_all P x"
  using assms by (auto simp: js_optional_def rbind_eq_Inr split: if_splits)

lemma optionalBytes_length [decode_dests]:
  "optionalBytes (Some n) v = Inr x \<Longrightarrow> option_all (\<lambda>bs. length bs = n) x"
  unfolding optionalBytes_def by (erule js_optional_all) (rule js_bytes_length)

lemma optionalNumber_safe [decode_dests]: "optionalNumber v = Inr x \<Longrightarrow> option_all safe_int x"
  unfolding optionalNumber_def by (erule js_optional_all) simp

lemma js_numbers_safe [decode_dests]: "js_numbers v = Inr ns \<Longrightarrow> \<forall>n \<in> set ns. safe_int n"
  by (auto simp: js_numbers_def elim!: rtraverse_Inr_set [THEN bspec])

lemma fall_eq_Inr: "fall m rest = Inr y \<longleftrightarrow> m = Inr (Some y) \<or> m = Inr None \<and> rest = Inr y"
  by (auto simp: fall_def rbind_eq_Inr split: option.splits)

lemma fall_InrE:
  assumes "fall m rest = Inr y"
  obtains "m = Inr (Some y)" | "rest = Inr y"
  using assms by (auto simp: fall_eq_Inr)

definition candidate_wf :: "device_candidate \<Rightarrow> bool" where
  "candidate_wf c \<longleftrightarrow> safe_int (cand_rssi c)"

definition workflow_checkpoint_ok :: "workflow_checkpoint \<Rightarrow> bool" where
  "workflow_checkpoint_ok c \<longleftrightarrow>
     option_all (\<lambda>bs. length bs = 16) (wc_recordingUuid c) \<and> safe_int (wc_retryCount c)
     \<and> option_all safe_int (wc_lastSequence c)"

definition v2_checkpoint_wf :: "v2_checkpoint \<Rightarrow> bool" where
  "v2_checkpoint_wf c \<longleftrightarrow>
     length (v2c_recordingUuid c) = 16 \<and> length (v2c_uploadSessionId c) = 16
     \<and> length (v2c_prefixSha256 c) = 32
     \<and> safe_int (v2c_recordingGeneration c) \<and> safe_int (v2c_ownerRevision c)
     \<and> safe_int (v2c_checkpointRevision c) \<and> safe_int (v2c_windowPackets c)
     \<and> safe_int (v2c_dataPayloadBytes c)"

definition v2_evidence_wf :: "v2_evidence \<Rightarrow> bool" where
  "v2_evidence_wf e \<longleftrightarrow>
     length (ev_ciphertextSha256 e) = 32 \<and> length (ev_manifestSha256 e) = 32
     \<and> safe_int (ev_manifestLength e) \<and> safe_int (ev_blockCount e)"

definition v2_capabilities_wf :: "v2_capabilities \<Rightarrow> bool" where
  "v2_capabilities_wf c \<longleftrightarrow>
     safe_int (cap_flags c) \<and> safe_int (cap_maximumSignedBlobBytes c)
     \<and> safe_int (cap_maximumManifestBytes c) \<and> safe_int (cap_maximumDataPayloadBytes c)
     \<and> safe_int (cap_maximumWindowPackets c) \<and> safe_int (cap_durableCheckpointIntervalBlocks c)
     \<and> safe_int (cap_maximumMissingSequences c)"

definition v2_start_wf :: "v2_start \<Rightarrow> bool" where
  "v2_start_wf s \<longleftrightarrow>
     length (v2s_recordingUuid s) = 16 \<and> length (v2s_uploadSessionId s) = 16
     \<and> length (v2s_ciphertextSha256 s) = 32 \<and> length (v2s_authorizationSha256 s) = 32
     \<and> safe_int (v2s_recordingGeneration s) \<and> safe_int (v2s_storageFormat s)
     \<and> safe_int (v2s_ownerRevision s) \<and> safe_int (v2s_windowPackets s)
     \<and> safe_int (v2s_dataPayloadBytes s) \<and> v2_capabilities_wf (v2s_capabilities s)
     \<and> option_all v2_checkpoint_wf (v2s_checkpoint s)"

fun notification_wf :: "core_notification \<Rightarrow> bool" where
  "notification_wf (N_connection_established serial candidate mode) = candidate_wf candidate"
| "notification_wf (N_retrying operation attempt) = safe_int attempt"
| "notification_wf (N_recording_transfer_completed encrypted sha) = option_all (\<lambda>bs. length bs = 32) sha"
| "notification_wf (N_encrypted_upload_v2_staged session revision len sha mlen msha) =
     (length session = 16 \<and> length sha = 32 \<and> length msha = 32 \<and> safe_int revision \<and> safe_int mlen)"
| "notification_wf _ = True"

fun effect_wf :: "core_effect \<Rightarrow> bool" where
  "effect_wf (E_notify n) = notification_wf n"
| "effect_wf (E_persistence_save_checkpoint c) = workflow_checkpoint_ok c"
| "effect_wf (E_persistence_save_connection_identity serial c) = candidate_wf c"
| "effect_wf (E_host_material_prepare_provisioning mat serial nonce key) = (length nonce = 16)"
| "effect_wf (E_recording_sink_append sink sequence payload) = safe_int sequence"
| "effect_wf (E_recording_sink_finalize sink crc) = option_all safe_int crc"
| "effect_wf (E_firmware_blob_read_chunk download offset maxlen) = safe_int maxlen"
| "effect_wf (E_v2_load_checkpoint serial recording generation session revision) =
     (length recording = 16 \<and> length session = 16 \<and> safe_int generation \<and> safe_int revision)"
| "effect_wf (E_v2_delete_checkpoint session) = (length session = 16)"
| "effect_wf (E_v2_start_transfer s) = v2_start_wf s"
| "effect_wf (E_v2_repair_window missing) = (\<forall>n \<in> set missing. safe_int n)"
| "effect_wf (E_v2_save_checkpoint c) = v2_checkpoint_wf c"
| "effect_wf (E_v2_acknowledge_window c) = v2_checkpoint_wf c"
| "effect_wf (E_v2_stage_artifacts sink mat e) = v2_evidence_wf e"
| "effect_wf (E_v2_await_completion_receipt mat e) = v2_evidence_wf e"
| "effect_wf (E_v2_confirm_with_receipt mat sha) = (length sha = 32)"
| "effect_wf _ = True"

definition envelope_wf :: "effect_envelope \<Rightarrow> bool" where
  "envelope_wf e \<longleftrightarrow> length (env_cancellationId e) = 16 \<and> effect_wf (env_effect e)"

lemma normalizeCandidate_wf [decode_dests]: "normalizeCandidate v = Inr c \<Longrightarrow> candidate_wf c"
  by (auto simp: normalizeCandidate_def candidate_wf_def)

lemma normalizeWorkflowCheckpoint_ok [decode_dests]:
  "normalizeWorkflowCheckpoint v = Inr c \<Longrightarrow> workflow_checkpoint_ok c"
  by (auto simp: normalizeWorkflowCheckpoint_def workflow_checkpoint_ok_def dest!: decode_dests)

lemma normalizeEncryptedCheckpoint_wf [decode_dests]:
  "normalizeEncryptedCheckpoint v = Inr c \<Longrightarrow> v2_checkpoint_wf c"
  by (auto simp: normalizeEncryptedCheckpoint_def v2_checkpoint_wf_def dest!: decode_dests)

lemma optionalEncryptedCheckpoint_wf [decode_dests]:
  "optionalEncryptedCheckpoint v = Inr c \<Longrightarrow> option_all v2_checkpoint_wf c"
  unfolding optionalEncryptedCheckpoint_def by (erule js_optional_all) (rule normalizeEncryptedCheckpoint_wf)

lemma normalizeEncryptedEvidence_wf [decode_dests]:
  "normalizeEncryptedEvidence v = Inr e \<Longrightarrow> v2_evidence_wf e"
  by (auto simp: normalizeEncryptedEvidence_def v2_evidence_wf_def dest!: decode_dests)

lemma normalizeCapabilities_wf [decode_dests]:
  "normalizeCapabilities v = Inr c \<Longrightarrow> v2_capabilities_wf c"
  by (auto simp: normalizeCapabilities_def v2_capabilities_wf_def)

lemma normalizeStartTransfer_wf [decode_dests]: "normalizeStartTransfer v = Inr s \<Longrightarrow> v2_start_wf s"
  by (auto simp: normalizeStartTransfer_def v2_start_wf_def dest!: decode_dests)

lemma normalizeNotification_wf [decode_dests]: "normalizeNotification v = Inr n \<Longrightarrow> notification_wf n"
  by (auto simp: normalizeNotification_def dest!: decode_dests split: if_splits)

lemma normalizeBleEffect_wf [decode_dests]: "normalizeBleEffect v = Inr e \<Longrightarrow> effect_wf e"
  by (auto simp: normalizeBleEffect_def split: if_splits)

lemma normalizePersistenceEffect_wf [decode_dests]: "normalizePersistenceEffect v = Inr e \<Longrightarrow> effect_wf e"
  by (auto simp: normalizePersistenceEffect_def dest!: decode_dests split: if_splits)

lemma normalizeRecordingSinkEffect_wf [decode_dests]: "normalizeRecordingSinkEffect v = Inr e \<Longrightarrow> effect_wf e"
  by (auto simp: normalizeRecordingSinkEffect_def dest!: decode_dests split: if_splits)

lemma normalizeEncryptedUploadV2Effect_wf [decode_dests]:
  "normalizeEncryptedUploadV2Effect v = Inr e \<Longrightarrow> effect_wf e"
  by (auto simp: normalizeEncryptedUploadV2Effect_def dest!: decode_dests split: if_splits)

lemma normalizeEffect_wf [decode_dests]: "normalizeEffect v = Inr e \<Longrightarrow> effect_wf e"
  unfolding normalizeEffect_def
  by (elim rbind_InrE fall_InrE if_InrE) (auto dest!: decode_dests)

lemma normalizeEnvelope_wf: "normalizeEnvelope v = Inr e \<Longrightarrow> envelope_wf e"
  by (auto simp: normalizeEnvelope_def envelope_wf_def dest!: decode_dests)

lemma scrub_alias_wf: "envelope_wf e \<Longrightarrow> envelope_wf (scrub_alias e)"
  by (auto simp: envelope_wf_def split: core_effect.splits core_notification.splits)

lemma normalizeEffects_envelopes:
  assumes "fst (normalizeEffects v) = Inr es"
  shows "list_all envelope_wf es"
proof -
  from assms obtain items es' where "rtraverse normalizeEnvelope items = Inr es'" "es = map scrub_alias es'"
    by (auto simp: normalizeEffects_def)
  then have "\<forall>e \<in> set es'. envelope_wf e"
    using rtraverse_Inr_set [of normalizeEnvelope items es' envelope_wf] normalizeEnvelope_wf by blast
  with \<open>es = map scrub_alias es'\<close> show ?thesis
    by (auto simp: list_all_iff scrub_alias_wf simp del: scrub_alias.simps)
qed

text \<open>
  C31. Only well-formed effects reach the runtime: whatever the bridge returned, if the decoder
  accepts it then every envelope carries a 16-byte cancellation id and every digest, identifier,
  nonce and number of its effect has the length or range its type promises.
\<close>

theorem normalizeEffects_wf:
  assumes "fst (normalizeEffects v) = Inr es"
  shows "list_all envelope_wf es"
  by (rule normalizeEffects_envelopes [OF assms])

definition sample_envelope :: jsval where
  "sample_envelope =
     JObject [(''request_id'', JBigInt 1), (''operation'', JString (js ''Connect'')),
       (''cancellation_id'', JBytes (replicate 16 7)),
       (''effect'', JObject [(''Timer'', JObject [(''Cancel'', JObject [(''timer_id'', JBigInt 4)])])])]"

lemma sample_envelope_decodes:
  "fst (normalizeEffects (JArray [sample_envelope])) =
     Inr [\<lparr>env_requestId = 1, env_operation = Core_connect, env_cancellationId = replicate 16 7,
           env_effect = E_timer_cancel 4\<rparr>]"
  by code_simp

theorem normalizeEffects_wf_witness:
  "list_all envelope_wf [\<lparr>env_requestId = 1, env_operation = Core_connect,
      env_cancellationId = replicate 16 7, env_effect = E_timer_cancel 4\<rparr>]"
  by (rule normalizeEffects_wf [OF sample_envelope_decodes])

subsection \<open>Scrubbing\<close>

text \<open>\<open>js_at v path\<close> follows field names and array indices.\<close>

fun js_step :: "jsval \<Rightarrow> string + nat \<Rightarrow> jsval" where
  "js_step v (Inl k) = js_get v k"
| "js_step (JArray xs) (Inr i) = (if i < length xs then xs ! i else JUndefined)"
| "js_step _ (Inr i) = JUndefined"

definition js_at :: "jsval \<Rightarrow> (string + nat) list \<Rightarrow> jsval" where
  "js_at = foldl js_step"

definition zero_bytes :: "bytes \<Rightarrow> bool" where
  "zero_bytes bs \<longleftrightarrow> (\<forall>b \<in> set bs. b = 0)"

lemma js_get_scrub: "js_get (scrubBridgeBytes v) k = scrubBridgeBytes (js_get v k)"
proof (cases v)
  case (JObject fs)
  have "map_of (map (\<lambda>(k, v). (k, scrubBridgeBytes v)) fs) k = map_option scrubBridgeBytes (map_of fs k)"
    by (induction fs) auto
  with JObject show ?thesis by (simp split: option.split)
qed simp_all

text \<open>A number outside an all-number array survives; what \<open>js_bytes\<close> reads does not.\<close>

definition scrubbed :: "jsval \<Rightarrow> bool" where
  "scrubbed w \<longleftrightarrow> (\<exists>v. w = scrubBridgeBytes v) \<or> w = JNumber (JInt 0)"

lemma js_step_scrub: "scrubbed w \<Longrightarrow> scrubbed (js_step w s)"
proof (cases s)
  case (Inl k)
  assume "scrubbed w"
  then show ?thesis
    using Inl js_get_scrub [of _ k] scrubBridgeBytes.simps(6)
    by (auto simp: scrubbed_def intro: exI [of _ JUndefined])
next
  case (Inr i)
  assume "scrubbed w"
  then consider v where "w = scrubBridgeBytes v" | "w = JNumber (JInt 0)" by (auto simp: scrubbed_def)
  then show ?thesis
  proof cases
    case 1
    then show ?thesis
      by (cases v) (auto simp: Inr scrubbed_def intro: exI [of _ JUndefined])
  qed (auto simp: Inr scrubbed_def intro: exI [of _ JUndefined])
qed

lemma js_at_scrub: "scrubbed w \<Longrightarrow> scrubbed (js_at w path)"
  by (induction path arbitrary: w) (simp_all add: js_at_def js_step_scrub)

lemma js_bytes_scrubbed:
  assumes "scrubbed w" and "js_bytes n w = Inr bs"
  shows "zero_bytes bs"
proof -
  from assms(1) consider v where "w = scrubBridgeBytes v" | "w = JNumber (JInt 0)"
    by (auto simp: scrubbed_def)
  then show ?thesis
  proof cases
    case 1
    show ?thesis
    proof (cases v)
      case (JBytes cs)
      with 1 assms(2) show ?thesis
        by (auto simp: js_bytes_def zero_bytes_def split: option.splits if_splits)
    next
      case (JArray xs)
      show ?thesis
      proof (cases "list_all is_number xs")
        case True
        then have "rtraverse js_byte (map (\<lambda>_. JNumber (JInt 0)) xs) = Inr (map (\<lambda>_. 0) xs)"
          by (simp add: rtraverse_map rtraverse_all_Inr)
        with True 1 JArray assms(2) show ?thesis
          by (auto simp: js_bytes_def zero_bytes_def split: option.splits if_splits)
      next
        case False
        then obtain x where x: "x \<in> set xs" "\<not> is_number x" by (auto simp: list_all_iff)
        have "js_byte (scrubBridgeBytes x) \<noteq> Inr m" for m
          using x(2) by (cases x) (auto simp: is_number_def)
        moreover have "\<exists>m. js_byte (scrubBridgeBytes x) = Inr m"
          if "rtraverse js_byte (map scrubBridgeBytes ys) = Inr ms" "x \<in> set ys" for ys ms
          using that by (induction ys arbitrary: ms) fastforce+
        ultimately show ?thesis
          using False 1 JArray assms(2) x(1)
          by (auto simp: js_bytes_def split: option.splits if_splits)
      qed
    qed (use 1 assms(2) in \<open>auto simp: js_bytes_def\<close>)
  next
    case 2
    with assms(2) show ?thesis by (simp add: js_bytes_def)
  qed
qed

text \<open>
  C32. Secrets do not outlive decoding: after \<open>normalizeEffects\<close>, succeeding or throwing, no path of
  fields and indices into the bridge's value reaches a byte string with a non-zero byte.
\<close>

theorem normalizeEffects_scrubs:
  assumes "js_bytes n (js_at (snd (normalizeEffects v)) path) = Inr bs"
  shows "zero_bytes bs"
proof -
  have "scrubbed (snd (normalizeEffects v))"
    by (auto simp: normalizeEffects_def scrubbed_def)
  then show ?thesis using assms by (blast intro: js_bytes_scrubbed js_at_scrub)
qed

theorem normalizeEffects_scrubs_witness:
  "zero_bytes (replicate 16 0)"
proof -
  have "js_bytes (Some 16) (js_at (snd (normalizeEffects (JArray [sample_envelope])))
      [Inr 0, Inl ''cancellation_id'']) = Inr (replicate 16 0)"
    by code_simp
  then show ?thesis by (rule normalizeEffects_scrubs)
qed

end
