(* ===== verification/DeviceDecode.thy ===== *)
theory DeviceDecode
  imports CoreDecode
begin

text \<open>
  The decoders of \<^verbatim>\<open>frameworks/web/src/wasmCore.ts\<close> for device values:
    recording lists,
  operation results, connection settings, WiFi status and scans, device status with modem
  information, and the frames and status of the encrypted-upload transfer profile.
\<close>

section \<open>Lists, results and settings\<close>

definition recording_codec_union :: "(string \<times> recording_codec) list" where
  "recording_codec_union =
     [(''pcm_16k'', Codec_pcm_16k), (''pcm_8k'', Codec_pcm_8k), (''opus_16k'', Codec_opus_16k),
      (''opus_8k'', Codec_opus_8k), (''unknown'', Codec_unknown)]"

definition byte_option :: "int option \<Rightarrow> bota_error + int option" where
  "byte_option raw =
     (case raw of None \<Rightarrow> Inr None
      | Some n \<Rightarrow> rbind (js_byte (JNumber (JInt n))) (\<lambda>b. Inr (Some b)))"

definition normalizeRecording :: "jsval \<Rightarrow> bota_error + device_recording" where
  "normalizeRecording item =
     rbind (js_record item) (\<lambda>recording.
     rbind (stringUnion recording_codec_union (js_get recording ''codec'')) (\<lambda>codec.
     rbind (js_string (js_get recording ''uuid'')) (\<lambda>uuid.
     rbind (js_number (js_get recording ''startedAtTimestampSeconds''))
       (\<lambda>startedAtTimestampSeconds.
     rbind (js_bigint (js_get recording ''durationMilliseconds'')) (\<lambda>durationMilliseconds.
     rbind (js_bigint (js_get recording ''fileSizeBytes'')) (\<lambda>fileSizeBytes.
     rbind (js_boolean (js_get recording ''encrypted'')) (\<lambda>encrypted.
     rbind (optionalNumber (js_get recording ''codecRaw'')) (\<lambda>raw.
     rbind (byte_option raw) (\<lambda>codecRaw.
     Inr \<lparr>dr_uuid = uuid, dr_startedAtTimestampSeconds = startedAtTimestampSeconds,
       dr_durationMilliseconds = durationMilliseconds, dr_fileSizeBytes = fileSizeBytes, dr_codec =
       codec, dr_encrypted = encrypted, dr_codecRaw = codecRaw\<rparr>)))))))))"

definition normalizeRecordingList :: "jsval \<Rightarrow> bota_error + device_recording list" where
  "normalizeRecordingList value = rbind (js_array value) (rtraverse normalizeRecording)"

definition normalizeOperationResult :: "jsval \<Rightarrow> bota_error + operation_result" where
  "normalizeOperationResult value =
     rbind (js_record value) (\<lambda>raw.
     rbind (js_boolean (js_get raw ''success'')) (\<lambda>success.
     rbind (optionalString (js_get raw ''error'')) (\<lambda>error.
     rbind (optionalNumber (js_get raw ''errorRaw'')) (\<lambda>errorNumber.
     rbind (byte_option errorNumber) (\<lambda>errorRaw.
     Inr \<lparr>or_success = success, or_error = error, or_errorRaw = errorRaw\<rparr>)))))"

definition connection_type_union :: "(string \<times> connection_type) list" where
  "connection_type_union =
     [(''wifi'', Conn_wifi), (''ble'', Conn_ble), (''cellular'', Conn_cellular), (''unknown'',
       Conn_unknown)]"

definition normalizeConnectionSettings :: "jsval \<Rightarrow> bota_error + connection_settings"
  where
  "normalizeConnectionSettings value =
     rbind (js_record value) (\<lambda>raw.
     rbind (js_record (js_get raw ''enabledConnections'')) (\<lambda>enabled.
     rbind (js_record (js_get raw ''heartbeatEnabledConnections'')) (\<lambda>heartbeat.
     rbind (js_record (js_get raw ''powerManagement'')) (\<lambda>power.
     rbind (js_array (js_get raw ''uploadNetworkPreference'')) (\<lambda>preference.
     rbind (js_boolean (js_get enabled ''wifi'')) (\<lambda>enabledWifi.
     rbind (js_boolean (js_get enabled ''cellular'')) (\<lambda>enabledCellular.
     rbind (js_boolean (js_get heartbeat ''wifi'')) (\<lambda>heartbeatWifi.
     rbind (js_boolean (js_get heartbeat ''cellular'')) (\<lambda>heartbeatCellular.
     rbind (rtraverse (stringUnion connection_type_union) preference)
       (\<lambda>uploadNetworkPreference.
     rbind (js_number (js_get power ''cellularIdleTimeoutSeconds'')) (\<lambda>cellularIdle.
     rbind (js_number (js_get power ''wifiIdleTimeoutSeconds'')) (\<lambda>wifiIdle.
     rbind (js_boolean (js_get raw ''streamingEnabled'')) (\<lambda>streamingEnabled.
     rbind (js_byte (js_get raw ''streamingFlushIntervalSeconds'')) (\<lambda>flushInterval.
     rbind (js_boolean (js_get raw ''supportedVersion'')) (\<lambda>supportedVersion.
     Inr \<lparr>cs_enabled_wifi = enabledWifi, cs_enabled_cellular = enabledCellular,
       cs_heartbeat_wifi = heartbeatWifi, cs_heartbeat_cellular = heartbeatCellular,
       cs_uploadNetworkPreference = uploadNetworkPreference, cs_cellularIdleTimeoutSeconds =
       cellularIdle, cs_wifiIdleTimeoutSeconds = wifiIdle, cs_streamingEnabled = streamingEnabled,
       cs_streamingFlushIntervalSeconds = flushInterval, cs_supportedVersion =
       supportedVersion\<rparr>)))))))))))))))"

section \<open>WiFi\<close>

definition wifi_state_union :: "(string \<times> wifi_state) list" where
  "wifi_state_union =
     [(''idle'', Wifi_idle), (''connecting'', Wifi_connecting), (''connected'', Wifi_connected),
      (''failed'', Wifi_failed), (''disconnected'', Wifi_disconnected), (''unknown'',
        Wifi_unknown)]"

definition normalizeWiFiStatus :: "jsval \<Rightarrow> bota_error + wifi_status_info" where
  "normalizeWiFiStatus value =
     rbind (js_record value) (\<lambda>raw.
     rbind (stringUnion wifi_state_union (js_get raw ''status'')) (\<lambda>status.
     rbind (js_byte (js_get raw ''statusRaw'')) (\<lambda>statusRaw.
     rbind (optionalNumber (js_get raw ''signalStrength'')) (\<lambda>signal.
     rbind (optionalString (js_get raw ''ssid'')) (\<lambda>ssid.
     rbind (optionalString (js_get raw ''lastError'')) (\<lambda>lastError.
     rbind (byte_option signal) (\<lambda>signalStrength.
     Inr \<lparr>ws_status = status, ws_statusRaw = statusRaw, ws_signalStrength = signalStrength,
       ws_ssid = ssid, ws_lastError = lastError\<rparr>)))))))"

definition normalizeWiFiNetwork :: "jsval \<Rightarrow> bota_error + wifi_network" where
  "normalizeWiFiNetwork item =
     rbind (js_record item) (\<lambda>network.
     rbind (js_string (js_get network ''ssid'')) (\<lambda>ssid.
     rbind (js_byte (js_get network ''quality'')) (\<lambda>quality.
     rbind (js_boolean (js_get network ''isCurrent'')) (\<lambda>isCurrent.
     rbind (js_boolean (js_get network ''isOpen'')) (\<lambda>isOpen.
     Inr \<lparr>wn_ssid = ssid, wn_quality = quality, wn_isCurrent = isCurrent, wn_isOpen =
       isOpen\<rparr>)))))"

definition normalizeWiFiScanUpdate :: "jsval \<Rightarrow> bota_error + wifi_scan_update" where
  "normalizeWiFiScanUpdate value =
     rbind (js_record value) (\<lambda>raw.
     rbind (js_string (js_get raw ''kind'')) (\<lambda>kind.
     if kind = js ''pending'' then
       rbind (js_byte (js_get raw ''statusRaw'')) (\<lambda>statusRaw.
       Inr (Scan_pending statusRaw))
     else if kind = js ''done'' then
       rbind (js_array (js_get raw ''networks'')) (\<lambda>items.
       rbind (rtraverse normalizeWiFiNetwork items) (\<lambda>networks.
       rbind (optionalString (js_get raw ''currentSsid'')) (\<lambda>currentSsid.
       Inr (Scan_done networks currentSsid))))
     else Inl internalBridgeError))"

section \<open>Device status\<close>

definition normalizeDeviceState :: "jsval \<Rightarrow> bota_error + device_state \<times> int
  option" where
  "normalizeDeviceState value =
     (case value of
        JString s \<Rightarrow>
          Inr (case table_lookup device_state_table Ds_inherited s of Some x \<Rightarrow> x |
            None \<Rightarrow> Ds_unknown, None)
      | _ \<Rightarrow>
          rbind (js_record value) (\<lambda>r.
          rbind (js_number (js_get r ''Unknown'')) (\<lambda>stateRaw.
          Inr (Ds_unknown, Some stateRaw))))"

definition normalizeModem :: "jsval \<Rightarrow> bota_error + modem_info" where
  "normalizeModem value =
     rbind (js_record value) (\<lambda>modem.
     rbind (optionalString (js_get modem ''imei'')) (\<lambda>imei.
     rbind (optionalString (js_get modem ''iccid'')) (\<lambda>iccid.
     rbind (optionalString (js_get modem ''operator'')) (\<lambda>operator.
     rbind (optionalString (js_get modem ''rat'')) (\<lambda>rat.
     rbind (optionalString (js_get modem ''band'')) (\<lambda>band.
     rbind (optionalString (js_get modem ''apn'')) (\<lambda>apn.
     rbind (optionalString (js_get modem ''sim_status'')) (\<lambda>simStatus.
     rbind (optionalNumber (js_get modem ''csq'')) (\<lambda>csq.
     rbind (optionalString (js_get modem ''ip_address'')) (\<lambda>ipAddress.
     rbind (optionalNumber (js_get modem ''voltage_mv'')) (\<lambda>voltageMillivolts.
     rbind (optionalString (js_get modem ''firmware'')) (\<lambda>firmware.
     rbind (optionalBoolean (js_get modem ''roaming'')) (\<lambda>roaming.
     Inr \<lparr>mi_imei = imei, mi_iccid = iccid, mi_operator = operator, mi_rat = rat, mi_band =
       band, mi_apn = apn, mi_simStatus = simStatus, mi_csq = csq, mi_ipAddress = ipAddress,
       mi_voltageMillivolts = voltageMillivolts, mi_firmware = firmware, mi_roaming =
       roaming\<rparr>)))))))))))))"

definition normalizeModemInfo :: "jsval \<Rightarrow> bota_error + modem_info option" where
  "normalizeModemInfo = js_optional normalizeModem"

definition normalizeDeviceStatus :: "jsval \<Rightarrow> bota_error + device_status" where
  "normalizeDeviceStatus value =
     rbind (js_record value) (\<lambda>status.
     rbind (js_record (js_get status ''flags'')) (\<lambda>flags.
     rbind (js_number (js_get status ''battery_percent'')) (\<lambda>batteryPercent.
     rbind (optionalNumber (js_get status ''battery_mv'')) (\<lambda>batteryMillivolts.
     rbind (js_number (js_get status ''storage_total_mb'')) (\<lambda>storageTotalMb.
     rbind (js_number (js_get status ''storage_used_mb'')) (\<lambda>storageUsedMb.
     rbind (normalizeDeviceState (js_get status ''state'')) (\<lambda>state.
     rbind (js_number (js_get status ''pending_recordings'')) (\<lambda>pendingRecordings.
     rbind (js_number (js_get status ''last_time_sync_timestamp'')) (\<lambda>lastTimeSyncTimestamp.
     rbind (js_boolean (js_get flags ''charging'')) (\<lambda>charging.
     rbind (js_boolean (js_get flags ''low_battery'')) (\<lambda>lowBattery.
     rbind (js_boolean (js_get flags ''storage_full'')) (\<lambda>storageFull.
     rbind (js_boolean (js_get flags ''wifi_connected'')) (\<lambda>wifiConnected.
     rbind (js_boolean (js_get flags ''lte_connected'')) (\<lambda>lteConnected.
     rbind (js_boolean (js_get flags ''sync_active'')) (\<lambda>syncActive.
     rbind (js_number (js_get status ''lte_status_raw'')) (\<lambda>lteStatusRaw.
     rbind (optionalNumber (js_get status ''lte_signal_quality'')) (\<lambda>lteSignalQuality.
     rbind (optionalNumber (js_get status ''wifi_status_raw'')) (\<lambda>wifiStatusRaw.
     rbind (normalizeModemInfo (js_get status ''modem_info'')) (\<lambda>modemInfo.
     Inr \<lparr>st_batteryPercent = batteryPercent, st_batteryMillivolts = batteryMillivolts,
       st_storageTotalMb = storageTotalMb, st_storageUsedMb = storageUsedMb, st_state = fst state,
       st_stateRaw = snd state, st_pendingRecordings = pendingRecordings, st_lastTimeSyncTimestamp =
       lastTimeSyncTimestamp, st_flags = \<lparr>df_charging = charging, df_lowBattery = lowBattery,
       df_storageFull = storageFull, df_wifiConnected = wifiConnected, df_lteConnected =
       lteConnected, df_syncActive = syncActive\<rparr>, st_lteStatusRaw = lteStatusRaw,
       st_lteSignalQuality = lteSignalQuality, st_wifiStatusRaw = wifiStatusRaw, st_modemInfo =
       modemInfo\<rparr>)))))))))))))))))))"

section \<open>Encrypted-upload transfer\<close>

definition normalizeEncryptedUploadV2Status :: "jsval \<Rightarrow> bota_error + v2_status" where
  "normalizeEncryptedUploadV2Status value =
     rbind (js_record value) (\<lambda>raw.
     rbind (js_byte (js_get raw ''phase'')) (\<lambda>phase.
     rbind (js_u16 (js_get raw ''result'')) (\<lambda>result.
     rbind (js_bigint (js_get raw ''transportSessionId'')) (\<lambda>transportSessionId.
     rbind (js_bigint (js_get raw ''durableCiphertextBytes'')) (\<lambda>durableCiphertextBytes.
     rbind (js_byte (js_get raw ''progressPercent'')) (\<lambda>progressPercent.
     rbind (js_byte (js_get raw ''transportProfile'')) (\<lambda>transportProfile.
     Inr \<lparr>vs_phase = phase, vs_result = result, vs_transportSessionId = transportSessionId,
       vs_durableCiphertextBytes = durableCiphertextBytes, vs_progressPercent = progressPercent,
       vs_transportProfile = transportProfile\<rparr>)))))))"

definition normalizeResumeFrame :: "jsval \<Rightarrow> bota_error + v2_resume_frame" where
  "normalizeResumeFrame raw =
     rbind (js_string (js_get raw ''uploadSessionUuid'')) (\<lambda>uploadSessionUuid.
     rbind (js_string (js_get raw ''recordingUuid'')) (\<lambda>recordingUuid.
     rbind (js_u32 (js_get raw ''recordingGeneration'')) (\<lambda>recordingGeneration.
     rbind (js_u32 (js_get raw ''checkpointRevision'')) (\<lambda>checkpointRevision.
     rbind (js_bigint (js_get raw ''nextCiphertextOffset'')) (\<lambda>nextCiphertextOffset.
     rbind (js_bytes (Some 32) (js_get raw ''prefixSha256'')) (\<lambda>prefixSha256.
     rbind (js_u16 (js_get raw ''windowPackets'')) (\<lambda>windowPackets.
     rbind (js_u16 (js_get raw ''dataPayloadBytes'')) (\<lambda>dataPayloadBytes.
     Inr \<lparr>rf_uploadSessionUuid = uploadSessionUuid, rf_recordingUuid = recordingUuid,
       rf_recordingGeneration = recordingGeneration, rf_checkpointRevision = checkpointRevision,
       rf_nextCiphertextOffset = nextCiphertextOffset, rf_prefixSha256 = prefixSha256,
       rf_windowPackets = windowPackets, rf_dataPayloadBytes = dataPayloadBytes\<rparr>))))))))"

definition normalizeFrameBody :: "jsstring \<Rightarrow> jsval \<Rightarrow> bota_error +
  v2_frame" where
  "normalizeFrameBody kind raw =
     (if kind = js ''list'' then
       Inr F_list
     else if kind = js ''recording_entry'' then
       rbind (js_string (js_get raw ''recordingUuid'')) (\<lambda>recordingUuid.
       rbind (js_u32 (js_get raw ''recordingGeneration'')) (\<lambda>recordingGeneration.
       rbind (js_byte (js_get raw ''storageFormat'')) (\<lambda>storageFormat.
       rbind (js_byte (js_get raw ''completionState'')) (\<lambda>completionState.
       rbind (js_bigint (js_get raw ''startedAt'')) (\<lambda>startedAt.
       rbind (js_u32 (js_get raw ''durationSeconds'')) (\<lambda>durationSeconds.
       rbind (js_bigint (js_get raw ''plaintextLength'')) (\<lambda>plaintextLength.
       rbind (js_bigint (js_get raw ''ciphertextLength'')) (\<lambda>ciphertextLength.
       rbind (js_bytes (Some 32) (js_get raw ''ciphertextSha256'')) (\<lambda>ciphertextSha256.
       Inr (F_recording_entry recordingUuid recordingGeneration storageFormat completionState
         startedAt durationSeconds plaintextLength ciphertextLength ciphertextSha256))))))))))
     else if kind = js ''recording_list_end'' then
       rbind (js_u32 (js_get raw ''count'')) (\<lambda>count.
       rbind (js_u32 (js_get raw ''listRevision'')) (\<lambda>listRevision.
       rbind (js_bytes (Some 32) (js_get raw ''listSha256'')) (\<lambda>listSha256.
       Inr (F_recording_list_end count listRevision listSha256))))
     else if kind = js ''start'' then
       rbind (js_string (js_get raw ''uploadSessionUuid'')) (\<lambda>uploadSessionUuid.
       rbind (js_string (js_get raw ''recordingUuid'')) (\<lambda>recordingUuid.
       rbind (js_u32 (js_get raw ''recordingGeneration'')) (\<lambda>recordingGeneration.
       rbind (js_bytes (Some 32) (js_get raw ''authorizationSha256''))
         (\<lambda>authorizationSha256.
       rbind (js_u32 (js_get raw ''checkpointRevision'')) (\<lambda>checkpointRevision.
       rbind (js_bigint (js_get raw ''nextCiphertextOffset'')) (\<lambda>nextCiphertextOffset.
       rbind (js_bytes (Some 32) (js_get raw ''prefixSha256'')) (\<lambda>prefixSha256.
       rbind (js_u16 (js_get raw ''windowPackets'')) (\<lambda>windowPackets.
       rbind (js_u16 (js_get raw ''dataPayloadBytes'')) (\<lambda>dataPayloadBytes.
       Inr (F_start uploadSessionUuid recordingUuid recordingGeneration authorizationSha256
         checkpointRevision nextCiphertextOffset prefixSha256 windowPackets
         dataPayloadBytes))))))))))
     else if kind = js ''start_ack'' then
       rbind (js_string (js_get raw ''uploadSessionUuid'')) (\<lambda>uploadSessionUuid.
       rbind (js_string (js_get raw ''recordingUuid'')) (\<lambda>recordingUuid.
       rbind (js_u32 (js_get raw ''recordingGeneration'')) (\<lambda>recordingGeneration.
       rbind (js_bigint (js_get raw ''ciphertextLength'')) (\<lambda>ciphertextLength.
       rbind (js_bytes (Some 32) (js_get raw ''ciphertextSha256'')) (\<lambda>ciphertextSha256.
       rbind (js_u16 (js_get raw ''windowPackets'')) (\<lambda>windowPackets.
       rbind (js_u16 (js_get raw ''dataPayloadBytes'')) (\<lambda>dataPayloadBytes.
       rbind (js_u32 (js_get raw ''checkpointIntervalBlocks'')) (\<lambda>checkpointIntervalBlocks.
       rbind (js_u32 (js_get raw ''checkpointRevision'')) (\<lambda>checkpointRevision.
       rbind (js_bigint (js_get raw ''nextCiphertextOffset'')) (\<lambda>nextCiphertextOffset.
       rbind (js_bytes (Some 32) (js_get raw ''prefixSha256'')) (\<lambda>prefixSha256.
       Inr (F_start_ack uploadSessionUuid recordingUuid recordingGeneration ciphertextLength
         ciphertextSha256 windowPackets dataPayloadBytes checkpointIntervalBlocks checkpointRevision
         nextCiphertextOffset prefixSha256))))))))))))
     else if kind = js ''data'' then
       rbind (js_u32 (js_get raw ''sequence'')) (\<lambda>sequence.
       rbind (js_bigint (js_get raw ''offset'')) (\<lambda>offset.
       rbind (js_bytes None (js_get raw ''data'')) (\<lambda>data.
       Inr (F_data sequence offset data))))
     else if kind = js ''window_end'' then
       rbind (js_u32 (js_get raw ''windowIndex'')) (\<lambda>windowIndex.
       rbind (js_u32 (js_get raw ''firstSequence'')) (\<lambda>firstSequence.
       rbind (js_u32 (js_get raw ''lastSequence'')) (\<lambda>lastSequence.
       rbind (js_bigint (js_get raw ''nextCiphertextOffset'')) (\<lambda>nextCiphertextOffset.
       rbind (js_bytes (Some 32) (js_get raw ''prefixSha256'')) (\<lambda>prefixSha256.
       rbind (js_u32 (js_get raw ''checkpointRevision'')) (\<lambda>checkpointRevision.
       Inr (F_window_end windowIndex firstSequence lastSequence nextCiphertextOffset prefixSha256
         checkpointRevision)))))))
     else if kind = js ''window_ack'' then
       rbind (js_u32 (js_get raw ''windowIndex'')) (\<lambda>windowIndex.
       rbind (js_u32 (js_get raw ''highestContiguousSequence''))
         (\<lambda>highestContiguousSequence.
       rbind (js_bigint (js_get raw ''nextCiphertextOffset'')) (\<lambda>nextCiphertextOffset.
       rbind (js_bytes (Some 32) (js_get raw ''prefixSha256'')) (\<lambda>prefixSha256.
       rbind (js_u32 (js_get raw ''checkpointRevision'')) (\<lambda>checkpointRevision.
       rbind (rbind (js_numbers (js_get raw ''missingSequences'')) (rtraverse u32Value))
         (\<lambda>missingSequences.
       Inr (F_window_ack windowIndex highestContiguousSequence nextCiphertextOffset prefixSha256
         checkpointRevision missingSequences)))))))
     else if kind = js ''manifest_chunk'' then
       rbind (js_u16 (js_get raw ''totalManifestLength'')) (\<lambda>totalManifestLength.
       rbind (js_u16 (js_get raw ''chunkOffset'')) (\<lambda>chunkOffset.
       rbind (js_bytes (Some 32) (js_get raw ''manifestSha256'')) (\<lambda>manifestSha256.
       rbind (js_bytes None (js_get raw ''chunk'')) (\<lambda>chunk.
       Inr (F_manifest_chunk totalManifestLength chunkOffset manifestSha256 chunk)))))
     else if kind = js ''eof'' then
       rbind (js_u32 (js_get raw ''finalSequence'')) (\<lambda>finalSequence.
       rbind (js_u32 (js_get raw ''blockCount'')) (\<lambda>blockCount.
       rbind (js_bigint (js_get raw ''ciphertextLength'')) (\<lambda>ciphertextLength.
       rbind (js_bytes (Some 32) (js_get raw ''ciphertextSha256'')) (\<lambda>ciphertextSha256.
       rbind (js_bytes (Some 32) (js_get raw ''manifestSha256'')) (\<lambda>manifestSha256.
       Inr (F_eof finalSequence blockCount ciphertextLength ciphertextSha256 manifestSha256))))))
     else if kind = js ''resume_request'' then
       rbind (normalizeResumeFrame raw) (\<lambda>frame.
       Inr (F_resume_request frame))
     else if kind = js ''resume_accept'' then
       rbind (normalizeResumeFrame raw) (\<lambda>frame.
       Inr (F_resume_accept frame))
     else if kind = js ''resume_reject'' then
       rbind (js_u16 (js_get raw ''reason'')) (\<lambda>reason.
       rbind (js_u32 (js_get raw ''checkpointRevision'')) (\<lambda>checkpointRevision.
       rbind (js_bigint (js_get raw ''nextCiphertextOffset'')) (\<lambda>nextCiphertextOffset.
       rbind (js_bytes (Some 32) (js_get raw ''prefixSha256'')) (\<lambda>prefixSha256.
       Inr (F_resume_reject reason checkpointRevision nextCiphertextOffset prefixSha256)))))
     else if kind = js ''confirm'' then
       rbind (js_string (js_get raw ''uploadSessionUuid'')) (\<lambda>uploadSessionUuid.
       rbind (js_string (js_get raw ''recordingUuid'')) (\<lambda>recordingUuid.
       rbind (js_u32 (js_get raw ''recordingGeneration'')) (\<lambda>recordingGeneration.
       rbind (js_u32 (js_get raw ''ownerRevision'')) (\<lambda>ownerRevision.
       rbind (js_bytes (Some 32) (js_get raw ''receiptSha256'')) (\<lambda>receiptSha256.
       Inr (F_confirm uploadSessionUuid recordingUuid recordingGeneration ownerRevision
         receiptSha256))))))
     else if kind = js ''abort'' then
       rbind (js_u16 (js_get raw ''reason'')) (\<lambda>reason.
       Inr (F_abort reason))
     else if kind = js ''error'' then
       rbind (js_u16 (js_get raw ''result'')) (\<lambda>result.
       rbind (js_byte (js_get raw ''failedMessageType'')) (\<lambda>failedMessageType.
       rbind (js_u32 (js_get raw ''checkpointRevision'')) (\<lambda>checkpointRevision.
       Inr (F_error result failedMessageType checkpointRevision))))
     else Inl internalBridgeError)"

definition normalizeEncryptedUploadV2Transfer :: "jsval \<Rightarrow> bota_error +
  v2_transfer_frame" where
  "normalizeEncryptedUploadV2Transfer value =
     rbind (js_record value) (\<lambda>raw.
     rbind (js_u16 (js_get raw ''flags'')) (\<lambda>flags.
     rbind (js_bigint (js_get raw ''transportSessionId'')) (\<lambda>transportSessionId.
     rbind (js_string (js_get raw ''kind'')) (\<lambda>kind.
     rbind (normalizeFrameBody kind raw) (\<lambda>body.
     Inr (\<lparr>vc_flags = flags, vc_transportSessionId = transportSessionId\<rparr>, body))))))"

section \<open>Decoded frames fit their wire fields\<close>

definition u8_range :: "int \<Rightarrow> bool" where "u8_range n \<longleftrightarrow> 0 \<le> n \<and> n \<le> 255"
definition u16_range :: "int \<Rightarrow> bool" where "u16_range n \<longleftrightarrow> 0 \<le> n \<and> n \<le> 0xffff"
definition u32_range :: "int \<Rightarrow> bool" where "u32_range n \<longleftrightarrow> 0 \<le> n \<and> n \<le> 0xffffffff"

lemmas range_defs = u8_range_def u16_range_def u32_range_def

definition resume_frame_wf :: "v2_resume_frame \<Rightarrow> bool" where
  "resume_frame_wf f \<longleftrightarrow>
     u32_range (rf_recordingGeneration f) \<and> u32_range (rf_checkpointRevision f)
     \<and> length (rf_prefixSha256 f) = 32 \<and> u16_range (rf_windowPackets f) \<and> u16_range (rf_dataPayloadBytes f)"

fun frame_wf :: "v2_frame \<Rightarrow> bool" where
  "frame_wf F_list = True"
| "frame_wf (F_recording_entry uuid generation fmt state started duration plain cipher sha) =
     (u32_range generation \<and> u8_range fmt \<and> u8_range state \<and> u32_range duration \<and> length sha = 32)"
| "frame_wf (F_recording_list_end n revision sha) = (u32_range n \<and> u32_range revision \<and> length sha = 32)"
| "frame_wf (F_start session recording generation auth revision offset prefix window payload) =
     (u32_range generation \<and> length auth = 32 \<and> u32_range revision \<and> length prefix = 32
      \<and> u16_range window \<and> u16_range payload)"
| "frame_wf (F_start_ack session recording generation len sha window payload interval revision offset prefix) =
     (u32_range generation \<and> length sha = 32 \<and> u16_range window \<and> u16_range payload
      \<and> u32_range interval \<and> u32_range revision \<and> length prefix = 32)"
| "frame_wf (F_data sequence offset payload) = u32_range sequence"
| "frame_wf (F_window_end index low high offset prefix revision) =
     (u32_range index \<and> u32_range low \<and> u32_range high \<and> length prefix = 32 \<and> u32_range revision)"
| "frame_wf (F_window_ack index highest offset prefix revision missing) =
     (u32_range index \<and> u32_range highest \<and> length prefix = 32 \<and> u32_range revision
      \<and> (\<forall>n \<in> set missing. u32_range n))"
| "frame_wf (F_manifest_chunk len offset sha chunk) = (u16_range len \<and> u16_range offset \<and> length sha = 32)"
| "frame_wf (F_eof final blocks len sha msha) =
     (u32_range final \<and> u32_range blocks \<and> length sha = 32 \<and> length msha = 32)"
| "frame_wf (F_resume_request f) = resume_frame_wf f"
| "frame_wf (F_resume_accept f) = resume_frame_wf f"
| "frame_wf (F_resume_reject reason revision offset prefix) =
     (u16_range reason \<and> u32_range revision \<and> length prefix = 32)"
| "frame_wf (F_confirm session recording generation revision sha) =
     (u32_range generation \<and> u32_range revision \<and> length sha = 32)"
| "frame_wf (F_abort reason) = u16_range reason"
| "frame_wf (F_error result type revision) = (u16_range result \<and> u8_range type \<and> u32_range revision)"

lemma normalizeResumeFrame_wf [decode_dests]: "normalizeResumeFrame raw = Inr f \<Longrightarrow> resume_frame_wf f"
  by (auto simp: normalizeResumeFrame_def resume_frame_wf_def range_defs dest!: decode_dests)

lemma u32_list [decode_dests]: "rtraverse u32Value ns = Inr ms \<Longrightarrow> \<forall>n \<in> set ms. u32_range n"
  by (rule rtraverse_Inr_set [where f = u32Value and xs = ns]) (simp_all add: u32_range_def)

lemma normalizeFrameBody_wf: "normalizeFrameBody kind raw = Inr f \<Longrightarrow> frame_wf f"
  unfolding normalizeFrameBody_def
  by (elim if_InrE rbind_InrE) (auto simp: range_defs dest!: decode_dests)

text \<open>A frame as an object of the bridge: each field under its name, in the form the decoder asks for.\<close>

abbreviation int_field :: "string \<Rightarrow> int \<Rightarrow> string \<times> jsval" where
  "int_field k n \<equiv> (k, JNumber (JInt n))"

abbreviation resume_fields :: "v2_resume_frame \<Rightarrow> (string \<times> jsval) list" where
  "resume_fields f \<equiv>
     [(''uploadSessionUuid'', JString (rf_uploadSessionUuid f)), (''recordingUuid'', JString (rf_recordingUuid f)),
      int_field ''recordingGeneration'' (rf_recordingGeneration f),
      int_field ''checkpointRevision'' (rf_checkpointRevision f),
      (''nextCiphertextOffset'', JBigInt (rf_nextCiphertextOffset f)), (''prefixSha256'', JBytes (rf_prefixSha256 f)),
      int_field ''windowPackets'' (rf_windowPackets f), int_field ''dataPayloadBytes'' (rf_dataPayloadBytes f)]"

fun frame_kind :: "v2_frame \<Rightarrow> string" where
  "frame_kind F_list = ''list''"
| "frame_kind (F_recording_entry _ _ _ _ _ _ _ _ _) = ''recording_entry''"
| "frame_kind (F_recording_list_end _ _ _) = ''recording_list_end''"
| "frame_kind (F_start _ _ _ _ _ _ _ _ _) = ''start''"
| "frame_kind (F_start_ack _ _ _ _ _ _ _ _ _ _ _) = ''start_ack''"
| "frame_kind (F_data _ _ _) = ''data''"
| "frame_kind (F_window_end _ _ _ _ _ _) = ''window_end''"
| "frame_kind (F_window_ack _ _ _ _ _ _) = ''window_ack''"
| "frame_kind (F_manifest_chunk _ _ _ _) = ''manifest_chunk''"
| "frame_kind (F_eof _ _ _ _ _) = ''eof''"
| "frame_kind (F_resume_request _) = ''resume_request''"
| "frame_kind (F_resume_accept _) = ''resume_accept''"
| "frame_kind (F_resume_reject _ _ _ _) = ''resume_reject''"
| "frame_kind (F_confirm _ _ _ _ _) = ''confirm''"
| "frame_kind (F_abort _) = ''abort''"
| "frame_kind (F_error _ _ _) = ''error''"

fun frame_fields :: "v2_frame \<Rightarrow> (string \<times> jsval) list" where
  "frame_fields F_list = []"
| "frame_fields (F_recording_entry uuid generation fmt state started duration plain cipher sha) =
     [(''recordingUuid'', JString uuid), int_field ''recordingGeneration'' generation, int_field ''storageFormat'' fmt,
      int_field ''completionState'' state, (''startedAt'', JBigInt started), int_field ''durationSeconds'' duration,
      (''plaintextLength'', JBigInt plain), (''ciphertextLength'', JBigInt cipher), (''ciphertextSha256'', JBytes sha)]"
| "frame_fields (F_recording_list_end n revision sha) =
     [int_field ''count'' n, int_field ''listRevision'' revision, (''listSha256'', JBytes sha)]"
| "frame_fields (F_start session recording generation auth revision offset prefix window payload) =
     [(''uploadSessionUuid'', JString session), (''recordingUuid'', JString recording),
      int_field ''recordingGeneration'' generation, (''authorizationSha256'', JBytes auth),
      int_field ''checkpointRevision'' revision, (''nextCiphertextOffset'', JBigInt offset),
      (''prefixSha256'', JBytes prefix), int_field ''windowPackets'' window, int_field ''dataPayloadBytes'' payload]"
| "frame_fields (F_start_ack session recording generation len sha window payload interval revision offset prefix) =
     [(''uploadSessionUuid'', JString session), (''recordingUuid'', JString recording),
      int_field ''recordingGeneration'' generation, (''ciphertextLength'', JBigInt len), (''ciphertextSha256'', JBytes sha),
      int_field ''windowPackets'' window, int_field ''dataPayloadBytes'' payload,
      int_field ''checkpointIntervalBlocks'' interval, int_field ''checkpointRevision'' revision,
      (''nextCiphertextOffset'', JBigInt offset), (''prefixSha256'', JBytes prefix)]"
| "frame_fields (F_data sequence offset payload) =
     [int_field ''sequence'' sequence, (''offset'', JBigInt offset), (''data'', JBytes payload)]"
| "frame_fields (F_window_end index low high offset prefix revision) =
     [int_field ''windowIndex'' index, int_field ''firstSequence'' low, int_field ''lastSequence'' high,
      (''nextCiphertextOffset'', JBigInt offset), (''prefixSha256'', JBytes prefix),
      int_field ''checkpointRevision'' revision]"
| "frame_fields (F_window_ack index highest offset prefix revision missing) =
     [int_field ''windowIndex'' index, int_field ''highestContiguousSequence'' highest,
      (''nextCiphertextOffset'', JBigInt offset), (''prefixSha256'', JBytes prefix),
      int_field ''checkpointRevision'' revision, (''missingSequences'', JArray (map (JNumber \<circ> JInt) missing))]"
| "frame_fields (F_manifest_chunk len offset sha chunk) =
     [int_field ''totalManifestLength'' len, int_field ''chunkOffset'' offset, (''manifestSha256'', JBytes sha),
      (''chunk'', JBytes chunk)]"
| "frame_fields (F_eof final blocks len sha msha) =
     [int_field ''finalSequence'' final, int_field ''blockCount'' blocks, (''ciphertextLength'', JBigInt len),
      (''ciphertextSha256'', JBytes sha), (''manifestSha256'', JBytes msha)]"
| "frame_fields (F_resume_request f) = resume_fields f"
| "frame_fields (F_resume_accept f) = resume_fields f"
| "frame_fields (F_resume_reject reason revision offset prefix) =
     [int_field ''reason'' reason, int_field ''checkpointRevision'' revision,
      (''nextCiphertextOffset'', JBigInt offset), (''prefixSha256'', JBytes prefix)]"
| "frame_fields (F_confirm session recording generation revision sha) =
     [(''uploadSessionUuid'', JString session), (''recordingUuid'', JString recording),
      int_field ''recordingGeneration'' generation, int_field ''ownerRevision'' revision, (''receiptSha256'', JBytes sha)]"
| "frame_fields (F_abort reason) = [int_field ''reason'' reason]"
| "frame_fields (F_error result type revision) =
     [int_field ''result'' result, int_field ''failedMessageType'' type, int_field ''checkpointRevision'' revision]"

definition frame_object :: "v2_transfer_frame \<Rightarrow> jsval" where
  "frame_object x = (case x of (common, frame) \<Rightarrow>
     JObject ((''kind'', JString (js (frame_kind frame))) # int_field ''flags'' (vc_flags common)
       # (''transportSessionId'', JBigInt (vc_transportSessionId common)) # frame_fields frame))"

lemma decode_small:
  "0 \<le> n \<Longrightarrow> n \<le> 0xffffffff \<Longrightarrow> js_number (JNumber (JInt n)) = Inr n"
  by (simp add: js_number_def max_safe_integer_def)

lemma decode_ranges:
  "u8_range n \<Longrightarrow> js_byte (JNumber (JInt n)) = Inr n" "u16_range n \<Longrightarrow> js_u16 (JNumber (JInt n)) = Inr n"
  "u32_range n \<Longrightarrow> js_u32 (JNumber (JInt n)) = Inr n"
  by (simp_all add: range_defs js_byte_def js_u16_def js_u32_def u32Value_def decode_small)

lemma decode_bytes:
  "length bs = n \<Longrightarrow> js_bytes (Some n) (JBytes bs) = Inr bs" "js_bytes None (JBytes bs) = Inr bs"
  by (simp_all add: js_bytes_def)

lemma decode_missing:
  "\<forall>n \<in> set ns. u32_range n \<Longrightarrow>
     rbind (js_numbers (JArray (map (JNumber \<circ> JInt) ns))) (rtraverse u32Value) = Inr ns"
proof -
  assume ns: "\<forall>n \<in> set ns. u32_range n"
  then have "rtraverse js_number (map (JNumber \<circ> JInt) ns) = Inr ns"
    by (induction ns) (simp_all add: decode_small u32_range_def)
  moreover from ns have "rtraverse u32Value ns = Inr ns"
    by (induction ns) (simp_all add: u32Value_def u32_range_def)
  ultimately show ?thesis by (simp add: js_numbers_def)
qed

lemma frame_decodes:
  assumes "u16_range (vc_flags common)" and "frame_wf frame"
  shows "normalizeEncryptedUploadV2Transfer (frame_object (common, frame)) = Inr (common, frame)"
  using assms
  by (cases frame)
    (simp_all add: normalizeEncryptedUploadV2Transfer_def frame_object_def normalizeFrameBody_def
      normalizeResumeFrame_def resume_frame_wf_def decode_ranges decode_bytes decode_missing)

text \<open>
  C35. Which encrypted-upload frames the adapter accepts: exactly those whose flags and whose 8-, 16- and
  32-bit numbers are in the range of their wire field, with every missing sequence a 32-bit number and
  every digest 32 bytes long, and it delivers them with every field as it was sent.  There is no other
  condition: the transport session, offsets, lengths and times (64 bits on the wire) may be any integer, the
  UUIDs any string and a payload any number of bytes.  (\<open>frame_object\<close>: the frame as the object of the bridge.)
\<close>

theorem transfer_frame_wf:
  "((\<exists>v. normalizeEncryptedUploadV2Transfer v = Inr (common, frame)) \<longleftrightarrow> u16_range (vc_flags common) \<and> frame_wf frame)
   \<and> (normalizeEncryptedUploadV2Transfer (frame_object (common, frame)) = Inr (common, frame)
        \<longleftrightarrow> u16_range (vc_flags common) \<and> frame_wf frame)"
proof -
  have "u16_range (vc_flags common) \<and> frame_wf frame" if "normalizeEncryptedUploadV2Transfer v = Inr (common, frame)" for v
    using that by (auto simp: normalizeEncryptedUploadV2Transfer_def u16_range_def dest: normalizeFrameBody_wf)
  then show ?thesis using frame_decodes [of common frame] by blast
qed

theorem transfer_frame_wf_witness:
  "u16_range 3 \<and> frame_wf (F_abort 65535)
   \<and> (\<exists>v. normalizeEncryptedUploadV2Transfer v = Inr (\<lparr>vc_flags = 3, vc_transportSessionId = 2 ^ 70\<rparr>, F_data 0 (- 1) []))
   \<and> (\<nexists>v. normalizeEncryptedUploadV2Transfer v = Inr (\<lparr>vc_flags = 3, vc_transportSessionId = 12\<rparr>, F_abort 65536))"
proof -
  have "normalizeEncryptedUploadV2Transfer (JObject [(''kind'', JString (js ''abort'')),
      (''flags'', JNumber (JInt 3)), (''transportSessionId'', JBigInt 12), (''reason'', JNumber (JInt 65535))])
    = Inr (\<lparr>vc_flags = 3, vc_transportSessionId = 12\<rparr>, F_abort 65535)"
    by code_simp
  then have "u16_range 3 \<and> frame_wf (F_abort 65535)"
    using transfer_frame_wf [of "\<lparr>vc_flags = 3, vc_transportSessionId = 12\<rparr>" "F_abort 65535"] by auto
  then show ?thesis by (simp add: transfer_frame_wf) (simp add: range_defs)
qed

end
