(* ===== verification/CoreEncode.thy ===== *)
theory CoreEncode
  imports DeviceDecode
begin

text \<open>
  The encoders of \<^verbatim>\<open>frameworks/web/src/wasmCore.ts\<close>: what the SDK hands to the generated bridge.
  \<open>rawHostEvent\<close> builds the answer to an effect; the \<open>raw...\<close> helpers build the structures inside
  it.  A JavaScript \<open>number\<close> and a \<open>bigint\<close> are distinct values; an absent optional field is
  present in the object with the value \<open>undefined\<close>.  The codecs are instances of the contracts of
  the prelude: decoding what was encoded gives the structure back.
\<close>

section \<open>Values\<close>

abbreviation jsint :: "int \<Rightarrow> jsval" where
  "jsint n \<equiv> JNumber (JInt n)"

definition or_undefined :: "('a \<Rightarrow> jsval) \<Rightarrow> 'a option \<Rightarrow> jsval" where
  "or_undefined raw x = (case x of None \<Rightarrow> JUndefined | Some y \<Rightarrow> raw y)"

definition rawBytes :: "bytes \<Rightarrow> jsval" where
  "rawBytes value = JArray (map (\<lambda>b. jsint (uint b)) value)"

definition reverseEnumValue :: "'a \<Rightarrow> (string \<times> 'a) list \<Rightarrow> bota_error + jsval" where
  "reverseEnumValue value values =
     (case find (\<lambda>(_, normalized). normalized = value) values of
        None \<Rightarrow> Inl internalBridgeError
      | Some (name, _) \<Rightarrow> Inr (JString (js name)))"

definition rawOperation :: "core_operation \<Rightarrow> bota_error + jsval" where
  "rawOperation operation =
     reverseEnumValue operation
       [(''Validate'', Core_validate), (''Decode'', Core_decode), (''Encode'', Core_encode),
        (''Discover'', Core_discover), (''Connect'', Core_connect),
        (''Reconnect'', Core_reconnect), (''Provision'', Core_provision),
        (''TransferRecording'', Core_transfer_recording), (''Upload'', Core_upload),
        (''UpdateFirmware'', Core_update_firmware),
        (''ReadDeviceLogs'', Core_read_device_logs),
        (''FactoryReset'', Core_factory_reset), (''Unknown'', Core_unknown)]"

definition rawWorkflowKind :: "workflow_kind \<Rightarrow> bota_error + jsval" where
  "rawWorkflowKind value =
     reverseEnumValue value
       [(''Discovery'', Wk_discovery), (''Connection'', Wk_connection),
        (''Provisioning'', Wk_provisioning),
        (''RecordingTransfer'', Wk_recording_transfer),
        (''RecordingUpload'', Wk_recording_upload),
        (''FirmwareUpdate'', Wk_firmware_update), (''DeviceLogs'', Wk_device_logs),
        (''FactoryReset'', Wk_factory_reset)]"

definition rawCheckpointPhase :: "checkpoint_phase \<Rightarrow> bota_error + jsval" where
  "rawCheckpointPhase value =
     reverseEnumValue value
       [(''Pending'', Cp_pending), (''Connecting'', Cp_connecting),
        (''Transferring'', Cp_transferring), (''Uploading'', Cp_uploading),
        (''Verifying'', Cp_verifying), (''Reconnecting'', Cp_reconnecting),
        (''AwaitingReceipt'', Cp_awaiting_receipt)]"

primrec rawUploadPolicy :: "upload_policy \<Rightarrow> bota_error + jsval" where
  "rawUploadPolicy Pol_legacy_allowed = Inr (JString (js ''LegacyAllowed''))"
| "rawUploadPolicy Pol_v2_preferred = Inr (JString (js ''V2Preferred''))"
| "rawUploadPolicy Pol_v2_required = Inr (JString (js ''V2Required''))"
| "rawUploadPolicy (Pol_inherited k) = Inl internalBridgeError"

definition rawCandidate :: "device_candidate \<Rightarrow> jsval" where
  "rawCandidate candidate =
     JObject
       [(''peripheral_id'', JString (cand_peripheralId candidate)),
        (''name'', or_undefined JString (cand_name candidate)),
        (''advertised_address'', or_undefined JString (cand_advertisedAddress candidate)),
        (''rssi'', jsint (cand_rssi candidate))]"

definition rawWorkflowCheckpoint :: "workflow_checkpoint \<Rightarrow> bota_error + jsval" where
  "rawWorkflowCheckpoint checkpoint =
     rbind (rawWorkflowKind (wc_workflow checkpoint)) (\<lambda>workflow.
     rbind (rawOperation (wc_operation checkpoint)) (\<lambda>operation.
     rbind (rawCheckpointPhase (wc_phase checkpoint)) (\<lambda>phase.
     Inr (JObject
       [(''workflow'', workflow), (''operation'', operation),
        (''device'', JString (wc_serialNumber checkpoint)),
        (''recording'', or_undefined rawBytes (wc_recordingUuid checkpoint)),
        (''phase'', phase),
        (''completed_units'', JBigInt (wc_completedUnits checkpoint)),
        (''retry_count'', jsint (wc_retryCount checkpoint)),
        (''last_sequence'', or_undefined jsint (wc_lastSequence checkpoint)),
        (''firmware_version'', or_undefined JString (wc_firmwareVersion checkpoint))]))))"

definition rawEncryptedCheckpoint :: "v2_checkpoint \<Rightarrow> jsval" where
  "rawEncryptedCheckpoint checkpoint =
     JObject
       [(''device'', JString (v2c_serialNumber checkpoint)),
        (''recording'', rawBytes (v2c_recordingUuid checkpoint)),
        (''recording_generation'', jsint (v2c_recordingGeneration checkpoint)),
        (''upload_session_uuid'', rawBytes (v2c_uploadSessionId checkpoint)),
        (''owner_revision'', jsint (v2c_ownerRevision checkpoint)),
        (''transport_session_id'', JBigInt (v2c_transportSessionId checkpoint)),
        (''checkpoint_revision'', jsint (v2c_checkpointRevision checkpoint)),
        (''next_ciphertext_offset'', JBigInt (v2c_nextCiphertextOffset checkpoint)),
        (''prefix_sha256'', rawBytes (v2c_prefixSha256 checkpoint)),
        (''window_packets'', jsint (v2c_windowPackets checkpoint)),
        (''data_payload_bytes'', jsint (v2c_dataPayloadBytes checkpoint))]"

definition rawEncryptedEvidence :: "v2_evidence \<Rightarrow> jsval" where
  "rawEncryptedEvidence evidence =
     JObject
       [(''ciphertext_length'', JBigInt (ev_ciphertextLength evidence)),
        (''ciphertext_sha256'', rawBytes (ev_ciphertextSha256 evidence)),
        (''manifest_length'', jsint (ev_manifestLength evidence)),
        (''manifest_sha256'', rawBytes (ev_manifestSha256 evidence)),
        (''block_count'', jsint (ev_blockCount evidence))]"

definition rawCapabilities :: "v2_capabilities \<Rightarrow> jsval" where
  "rawCapabilities capabilities =
     JObject
       [(''flags'', jsint (cap_flags capabilities)),
        (''maximum_signed_blob_bytes'', jsint (cap_maximumSignedBlobBytes capabilities)),
        (''maximum_manifest_bytes'', jsint (cap_maximumManifestBytes capabilities)),
        (''maximum_data_payload_bytes'', jsint (cap_maximumDataPayloadBytes capabilities)),
        (''maximum_window_packets'', jsint (cap_maximumWindowPackets capabilities)),
        (''durable_checkpoint_interval_blocks'', jsint (cap_durableCheckpointIntervalBlocks capabilities)),
        (''maximum_missing_sequences'', jsint (cap_maximumMissingSequences capabilities))]"

section \<open>Host events\<close>

text \<open>\<open>bridge_object ''K'' v\<close> is the object literal \<open>{ K: v }\<close> and \<open>bridge_unit ''K''\<close> the string \<open>'K'\<close>.\<close>

definition bridge_object :: "string \<Rightarrow> jsval \<Rightarrow> jsval" where
  "bridge_object k v = JObject [(k, v)]"

definition bridge_unit :: "string \<Rightarrow> jsval" where
  "bridge_unit k = JString (js k)"

definition rawHostEventKind :: "host_event_kind \<Rightarrow> bota_error + jsval" where
  "rawHostEventKind kind =
     (case kind of
       H_ble_scan_result candidate \<Rightarrow>
         Inr (bridge_object ''Ble'' (bridge_object ''ScanResult'' (JObject
           [(''candidate'', rawCandidate candidate)])))
     | H_ble_scan_stopped \<Rightarrow>
         Inr (bridge_object ''Ble'' (bridge_unit ''ScanStopped''))
     | H_ble_connected peripheralId \<Rightarrow>
         Inr (bridge_object ''Ble'' (bridge_object ''Connected'' (JObject
           [(''peripheral_id'', JString peripheralId)])))
     | H_ble_services_discovered peripheralId \<Rightarrow>
         Inr (bridge_object ''Ble'' (bridge_object ''ServicesDiscovered'' (JObject
           [(''peripheral_id'', JString peripheralId)])))
     | H_ble_subscribed characteristicUuid \<Rightarrow>
         Inr (bridge_object ''Ble'' (bridge_object ''Subscribed'' (JObject
           [(''characteristic_uuid'', JString characteristicUuid)])))
     | H_ble_disconnected peripheralId reasonCode \<Rightarrow>
         Inr (bridge_object ''Ble'' (bridge_object ''Disconnected'' (JObject
           [(''peripheral_id'', JString peripheralId), (''reason_code'', or_undefined
           jsint reasonCode)])))
     | H_ble_read_completed val \<Rightarrow>
         Inr (bridge_object ''Ble'' (bridge_object ''ReadCompleted'' (JObject
           [(''value'', rawBytes val)])))
     | H_ble_write_completed \<Rightarrow>
         Inr (bridge_object ''Ble'' (bridge_unit ''WriteCompleted''))
     | H_ble_notification characteristicUuid val \<Rightarrow>
         Inr (bridge_object ''Ble'' (bridge_object ''Notification'' (JObject
           [(''characteristic_uuid'', JString characteristicUuid), (''value'', rawBytes
           val)])))
     | H_ble_failed platformCode \<Rightarrow>
         Inr (bridge_object ''Ble'' (bridge_object ''Failed'' (JObject
           [(''platform_code'', or_undefined JNumber platformCode)])))
     | H_timer_fired timerId \<Rightarrow>
         Inr (bridge_object ''TimerFired'' (JObject [(''timer_id'', JBigInt timerId)]))
     | H_checkpoint_loaded checkpoint \<Rightarrow>
         rbind (case checkpoint of None \<Rightarrow> Inr JUndefined | Some c \<Rightarrow> rawWorkflowCheckpoint c)
           (\<lambda>raw. Inr (bridge_object ''CheckpointLoaded'' (JObject [(''checkpoint'', raw)])))
     | H_checkpoint_saved \<Rightarrow>
         Inr (bridge_unit ''CheckpointSaved'')
     | H_connection_identity_saved \<Rightarrow>
         Inr (bridge_unit ''ConnectionIdentitySaved'')
     | H_persistence_failed platformCode \<Rightarrow>
         Inr (bridge_object ''PersistenceFailed'' (JObject [(''platform_code'',
           or_undefined jsint platformCode)]))
     | H_provisioning_material_prepared apiEndpoint deviceToken credentialEnvelope mtu \<Rightarrow>
         Inr (bridge_object ''ProvisioningMaterialPrepared'' (bridge_object ''material''
           (JObject [(''api_endpoint'', rawBytes apiEndpoint), (''device_token'',
           rawBytes deviceToken), (''credential_envelope'', case credentialEnvelope of
           None \<Rightarrow> JNull | Some e \<Rightarrow> rawBytes e), (''mtu'', jsint
           mtu)])))
     | H_host_material_failed platformCode \<Rightarrow>
         Inr (bridge_object ''HostMaterialFailed'' (JObject [(''platform_code'',
           or_undefined jsint platformCode)]))
     | H_recording_sink_truncated \<Rightarrow>
         Inr (bridge_unit ''RecordingSinkTruncated'')
     | H_recording_sink_append_completed durableUnits \<Rightarrow>
         Inr (bridge_object ''RecordingSinkAppendCompleted'' (JObject
           [(''durable_units'', JBigInt durableUnits)]))
     | H_recording_sink_finalized durableUnits \<Rightarrow>
         Inr (bridge_object ''RecordingSinkFinalized'' (JObject [(''durable_units'',
           JBigInt durableUnits)]))
     | H_recording_sink_integrity_failed \<Rightarrow>
         Inr (bridge_unit ''RecordingSinkIntegrityFailed'')
     | H_recording_sink_failed platformCode \<Rightarrow>
         Inr (bridge_object ''RecordingSinkFailed'' (JObject [(''platform_code'',
           or_undefined jsint platformCode)]))
     | H_firmware_chunk_read downloadId offset chunk \<Rightarrow>
         Inr (bridge_object ''FirmwareChunkRead'' (JObject [(''download_id'', JBigInt
           downloadId), (''offset'', JBigInt offset), (''bytes'', rawBytes chunk)]))
     | H_firmware_blob_failed platformCode \<Rightarrow>
         Inr (bridge_object ''FirmwareBlobFailed'' (JObject [(''platform_code'',
           or_undefined jsint platformCode)]))
     | H_network_download_progress downloadId completedBytes totalBytes \<Rightarrow>
         Inr (bridge_object ''Network'' (bridge_object ''DownloadProgress'' (JObject
           [(''download_id'', JBigInt downloadId), (''completed_bytes'', JBigInt
           completedBytes), (''total_bytes'', or_undefined JBigInt totalBytes)])))
     | H_network_download_completed downloadId crc32 \<Rightarrow>
         Inr (bridge_object ''Network'' (bridge_object ''DownloadCompleted'' (JObject
           [(''download_id'', JBigInt downloadId), (''crc32'', jsint crc32)])))
     | H_network_failed transferId statusCode \<Rightarrow>
         Inr (bridge_object ''Network'' (bridge_object ''Failed'' (JObject
           [(''transfer_id'', JBigInt transferId), (''status_code'', or_undefined jsint
           statusCode)])))
     | H_v2_checkpoint_loaded checkpoint \<Rightarrow>
         Inr (bridge_object ''EncryptedUploadV2'' (bridge_object ''CheckpointLoaded''
           (case checkpoint of None \<Rightarrow> JNull | Some c \<Rightarrow>
           rawEncryptedCheckpoint c)))
     | H_v2_sink_truncated \<Rightarrow>
         Inr (bridge_object ''EncryptedUploadV2'' (bridge_unit ''SinkTruncated''))
     | H_v2_session_prepared authorizationSha256 \<Rightarrow>
         Inr (bridge_object ''EncryptedUploadV2'' (bridge_object ''SessionPrepared''
           (JObject [(''authorization_sha256'', rawBytes authorizationSha256)])))
     | H_v2_transfer_started \<Rightarrow>
         Inr (bridge_object ''EncryptedUploadV2'' (bridge_unit ''TransferStarted''))
     | H_v2_resume_rejected \<Rightarrow>
         Inr (bridge_object ''EncryptedUploadV2'' (bridge_unit ''ResumeRejected''))
     | H_v2_window_staged checkpoint missingSequences \<Rightarrow>
         Inr (bridge_object ''EncryptedUploadV2'' (bridge_object ''WindowStaged''
           (JObject [(''checkpoint'', rawEncryptedCheckpoint checkpoint),
           (''missing_sequences'', JArray (map jsint missingSequences))])))
     | H_v2_checkpoint_saved \<Rightarrow>
         Inr (bridge_object ''EncryptedUploadV2'' (bridge_unit ''CheckpointSaved''))
     | H_v2_window_acknowledged checkpoint \<Rightarrow>
         Inr (bridge_object ''EncryptedUploadV2'' (bridge_object ''WindowAcknowledged''
           (JObject [(''checkpoint'', rawEncryptedCheckpoint checkpoint)])))
     | H_v2_transfer_completed evidence \<Rightarrow>
         Inr (bridge_object ''EncryptedUploadV2'' (bridge_object ''TransferCompleted''
           (rawEncryptedEvidence evidence)))
     | H_v2_artifacts_staged \<Rightarrow>
         Inr (bridge_object ''EncryptedUploadV2'' (bridge_unit ''ArtifactsStaged''))
     | H_v2_completion_receipt_accepted receiptSha256 \<Rightarrow>
         Inr (bridge_object ''EncryptedUploadV2'' (bridge_object
           ''CompletionReceiptAccepted'' (JObject [(''receipt_sha256'', rawBytes
           receiptSha256)])))
     | H_v2_recording_confirmed \<Rightarrow>
         Inr (bridge_object ''EncryptedUploadV2'' (bridge_unit ''RecordingConfirmed''))
     | H_v2_mixed_profile \<Rightarrow>
         Inr (bridge_object ''EncryptedUploadV2'' (bridge_unit ''MixedProfile''))
     | H_v2_failed error \<Rightarrow>
         Inr (bridge_object ''EncryptedUploadV2'' (bridge_object ''Failed''
           (bridge_object ''error'' error))))"

definition rawHostEvent :: "host_event \<Rightarrow> bota_error + jsval" where
  "rawHostEvent event =
     rbind (rawHostEventKind (he_kind event)) (\<lambda>kind.
     Inr (JObject [(''request_id'', JBigInt (he_requestId event)), (''kind'', kind)]))"

section \<open>Round trips\<close>

lemma js_number_jsint [decode_intros]: "safe_int n \<Longrightarrow> js_number (jsint n) = Inr n"
  by simp

lemma js_bytes_rawBytes [decode_intros]:
  assumes "option_all (\<lambda>m. length bs = m) n"
  shows "js_bytes n (rawBytes bs) = Inr bs"
proof -
  have "js_byte (jsint (uint b)) = Inr (uint b)" for b :: "8 word"
    using unsigned_less [of b, where 'a = int] by simp
  then have "rtraverse js_byte (map (\<lambda>b. jsint (uint b)) bs) = Inr (map uint bs)"
    by (simp add: rtraverse_map rtraverse_all_Inr comp_def)
  then show ?thesis
    using assms by (cases n) (simp_all add: rawBytes_def js_bytes_def comp_def)
qed

lemma js_optional_or_undefined [decode_intros]:
  assumes "option_all (\<lambda>y. dec (raw y) = Inr y \<and> raw y \<noteq> JUndefined \<and> raw y \<noteq> JNull) x"
  shows "js_optional dec (or_undefined raw x) = Inr x"
  using assms by (cases x) (simp_all add: js_optional_def or_undefined_def)

lemma js_optional_JNull [simp]: "js_optional dec JNull = Inr None"
  by (simp add: js_optional_def)

lemma rawBytes_defined [simp]: "rawBytes bs \<noteq> JUndefined" "rawBytes bs \<noteq> JNull"
  by (simp_all add: rawBytes_def)

lemma optionalString_or_undefined [decode_intros]: "optionalString (or_undefined JString x) = Inr x"
  unfolding optionalString_def by (rule js_optional_or_undefined) (cases x, simp_all)

lemma optionalNumber_or_undefined [decode_intros]:
  "option_all safe_int x \<Longrightarrow> optionalNumber (or_undefined jsint x) = Inr x"
  unfolding optionalNumber_def by (rule js_optional_or_undefined) (cases x, simp_all)

lemma optionalBytes_or_undefined [decode_intros]:
  "option_all (\<lambda>bs. length bs = n) x \<Longrightarrow> optionalBytes (Some n) (or_undefined rawBytes x) = Inr x"
  unfolding optionalBytes_def by (rule js_optional_or_undefined) (cases x, simp_all add: js_bytes_rawBytes)

lemmas codec_simps = js_number_jsint js_bytes_rawBytes optionalString_or_undefined
  optionalNumber_or_undefined optionalBytes_or_undefined

text \<open>
  An enumeration encodes every declared member, and a member read from \<open>Object.prototype\<close> is
  refused.  The same table serves both directions.
\<close>

definition operation_declared :: "core_operation \<Rightarrow> bool" where
  "operation_declared x \<longleftrightarrow> x \<in> snd ` set operation_table"

definition workflow_kind_declared :: "workflow_kind \<Rightarrow> bool" where
  "workflow_kind_declared x \<longleftrightarrow> x \<in> snd ` set workflow_kind_table"

definition checkpoint_phase_declared :: "checkpoint_phase \<Rightarrow> bool" where
  "checkpoint_phase_declared x \<longleftrightarrow> x \<in> snd ` set checkpoint_phase_table"

definition upload_policy_declared :: "upload_policy \<Rightarrow> bool" where
  "upload_policy_declared x \<longleftrightarrow> x \<in> snd ` set upload_policy_table"

lemma reverseEnumValue_total:
  "x \<in> snd ` set tbl \<Longrightarrow> \<exists>v. reverseEnumValue x tbl = Inr v"
proof -
  assume "x \<in> snd ` set tbl"
  then have "\<exists>k z. find (\<lambda>(_, y). y = x) tbl = Some (k, z)" by (induction tbl) auto
  then show ?thesis by (auto simp: reverseEnumValue_def)
qed

lemma find_snd_member: "find (\<lambda>(_, y). y = x) tbl = Some (k, z) \<Longrightarrow> z = x \<and> (k, x) \<in> set tbl"
  by (induction tbl) (auto split: if_splits)

lemma enumValue_reverse:
  assumes "distinct (map fst tbl)" and "reverseEnumValue x tbl = Inr v"
  shows "enumValue inh tbl v = Inr x"
proof -
  from assms(2) obtain k where k: "v = JString (js k)" "(k, x) \<in> set tbl"
    by (auto simp: reverseEnumValue_def dest: find_snd_member split: option.splits prod.splits)
  with assms(1) have "map_of tbl k = Some x" by simp
  then show ?thesis by (simp add: enumValue_def k(1) table_lookup_known)
qed

lemma rawOperation_table: "rawOperation x = reverseEnumValue x operation_table"
  by (simp add: rawOperation_def operation_table_def)

lemma rawWorkflowKind_table: "rawWorkflowKind x = reverseEnumValue x workflow_kind_table"
  by (simp add: rawWorkflowKind_def workflow_kind_table_def)

lemma rawCheckpointPhase_table: "rawCheckpointPhase x = reverseEnumValue x checkpoint_phase_table"
  by (simp add: rawCheckpointPhase_def checkpoint_phase_table_def)

lemma rawUploadPolicy_table: "rawUploadPolicy x = reverseEnumValue x upload_policy_table"
  by (cases x) (simp_all add: reverseEnumValue_def upload_policy_table_def)

interpretation operation_codec: codec rawOperation normalizeOperation operation_declared
proof
  fix x v
  show "operation_declared x \<Longrightarrow> \<exists>v. rawOperation x = Inr v"
    by (simp add: operation_declared_def rawOperation_table reverseEnumValue_total)
  show "operation_declared x \<Longrightarrow> rawOperation x = Inr v \<Longrightarrow> normalizeOperation v = Inr x"
    unfolding rawOperation_table normalizeOperation_def
    by (erule enumValue_reverse [rotated]) (simp add: operation_table_def)
qed

interpretation workflow_kind_codec: codec rawWorkflowKind normalizeWorkflowKind workflow_kind_declared
proof
  fix x v
  show "workflow_kind_declared x \<Longrightarrow> \<exists>v. rawWorkflowKind x = Inr v"
    by (simp add: workflow_kind_declared_def rawWorkflowKind_table reverseEnumValue_total)
  show "workflow_kind_declared x \<Longrightarrow> rawWorkflowKind x = Inr v \<Longrightarrow> normalizeWorkflowKind v = Inr x"
    unfolding rawWorkflowKind_table normalizeWorkflowKind_def
    by (erule enumValue_reverse [rotated]) (simp add: workflow_kind_table_def)
qed

interpretation checkpoint_phase_codec: codec rawCheckpointPhase normalizeCheckpointPhase checkpoint_phase_declared
proof
  fix x v
  show "checkpoint_phase_declared x \<Longrightarrow> \<exists>v. rawCheckpointPhase x = Inr v"
    by (simp add: checkpoint_phase_declared_def rawCheckpointPhase_table reverseEnumValue_total)
  show "checkpoint_phase_declared x \<Longrightarrow> rawCheckpointPhase x = Inr v \<Longrightarrow> normalizeCheckpointPhase v = Inr x"
    unfolding rawCheckpointPhase_table normalizeCheckpointPhase_def
    by (erule enumValue_reverse [rotated]) (simp add: checkpoint_phase_table_def)
qed

interpretation upload_policy_codec: codec rawUploadPolicy normalizeUploadPolicy upload_policy_declared
proof
  fix x v
  show "upload_policy_declared x \<Longrightarrow> \<exists>v. rawUploadPolicy x = Inr v"
    by (simp add: upload_policy_declared_def rawUploadPolicy_table reverseEnumValue_total)
  show "upload_policy_declared x \<Longrightarrow> rawUploadPolicy x = Inr v \<Longrightarrow> normalizeUploadPolicy v = Inr x"
    unfolding rawUploadPolicy_table normalizeUploadPolicy_def
    by (erule enumValue_reverse [rotated]) (simp add: upload_policy_table_def)
qed

definition workflow_checkpoint_wf :: "workflow_checkpoint \<Rightarrow> bool" where
  "workflow_checkpoint_wf c \<longleftrightarrow>
     workflow_kind_declared (wc_workflow c) \<and> operation_declared (wc_operation c)
     \<and> checkpoint_phase_declared (wc_phase c) \<and> workflow_checkpoint_ok c"

lemma js_get_object [simp]:
  "js_get (JObject ((k, v) # fs)) k' = (if k = k' then v else js_get (JObject fs) k')"
  by simp

lemma normalizeCandidate_raw: "candidate_wf c \<Longrightarrow> normalizeCandidate (rawCandidate c) = Inr c"
  by (simp add: candidate_wf_def normalizeCandidate_def rawCandidate_def codec_simps)

lemma normalizeEncryptedCheckpoint_raw:
  "v2_checkpoint_wf c \<Longrightarrow> normalizeEncryptedCheckpoint (rawEncryptedCheckpoint c) = Inr c"
  by (simp add: v2_checkpoint_wf_def normalizeEncryptedCheckpoint_def rawEncryptedCheckpoint_def codec_simps)

lemma normalizeEncryptedEvidence_raw:
  "v2_evidence_wf e \<Longrightarrow> normalizeEncryptedEvidence (rawEncryptedEvidence e) = Inr e"
  by (simp add: v2_evidence_wf_def normalizeEncryptedEvidence_def rawEncryptedEvidence_def codec_simps)

lemma normalizeCapabilities_raw:
  "v2_capabilities_wf c \<Longrightarrow> normalizeCapabilities (rawCapabilities c) = Inr c"
  by (simp add: v2_capabilities_wf_def normalizeCapabilities_def rawCapabilities_def codec_simps)

interpretation candidate_codec: strict_codec "Inr \<circ> rawCandidate" normalizeCandidate candidate_wf
  by unfold_locales (auto simp: normalizeCandidate_raw dest: normalizeCandidate_wf)

interpretation v2_checkpoint_codec:
  strict_codec "Inr \<circ> rawEncryptedCheckpoint" normalizeEncryptedCheckpoint v2_checkpoint_wf
  by unfold_locales (auto simp: normalizeEncryptedCheckpoint_raw dest: normalizeEncryptedCheckpoint_wf)

interpretation v2_evidence_codec:
  strict_codec "Inr \<circ> rawEncryptedEvidence" normalizeEncryptedEvidence v2_evidence_wf
  by unfold_locales (auto simp: normalizeEncryptedEvidence_raw dest: normalizeEncryptedEvidence_wf)

interpretation v2_capabilities_codec:
  strict_codec "Inr \<circ> rawCapabilities" normalizeCapabilities v2_capabilities_wf
  by unfold_locales (auto simp: normalizeCapabilities_raw dest: normalizeCapabilities_wf)

lemma rawWorkflowCheckpoint_total:
  assumes "workflow_checkpoint_wf c"
  obtains w p k where "rawWorkflowKind (wc_workflow c) = Inr w" and "rawOperation (wc_operation c) = Inr p"
    and "rawCheckpointPhase (wc_phase c) = Inr k" and "normalizeWorkflowKind w = Inr (wc_workflow c)"
    and "normalizeOperation p = Inr (wc_operation c)" and "normalizeCheckpointPhase k = Inr (wc_phase c)"
proof -
  from assms have "workflow_kind_declared (wc_workflow c)" "operation_declared (wc_operation c)"
    "checkpoint_phase_declared (wc_phase c)"
    by (simp_all add: workflow_checkpoint_wf_def)
  then show ?thesis
    using workflow_kind_codec.enc_obtain operation_codec.enc_obtain checkpoint_phase_codec.enc_obtain that
    by metis
qed

interpretation workflow_checkpoint_codec:
  codec rawWorkflowCheckpoint normalizeWorkflowCheckpoint workflow_checkpoint_wf
proof
  fix c v
  assume wf: "workflow_checkpoint_wf c"
  obtain w p k where parts: "rawWorkflowKind (wc_workflow c) = Inr w" "rawOperation (wc_operation c) = Inr p"
    "rawCheckpointPhase (wc_phase c) = Inr k" "normalizeWorkflowKind w = Inr (wc_workflow c)"
    "normalizeOperation p = Inr (wc_operation c)" "normalizeCheckpointPhase k = Inr (wc_phase c)"
    by (rule rawWorkflowCheckpoint_total [OF wf])
  then show "\<exists>v. rawWorkflowCheckpoint c = Inr v"
    by (simp add: rawWorkflowCheckpoint_def)
  from wf have "workflow_checkpoint_ok c" by (simp add: workflow_checkpoint_wf_def)
  with parts show "rawWorkflowCheckpoint c = Inr v \<Longrightarrow> normalizeWorkflowCheckpoint v = Inr c"
    by (auto simp: rawWorkflowCheckpoint_def normalizeWorkflowCheckpoint_def workflow_checkpoint_ok_def
        codec_simps)
qed

text \<open>
  C34. A workflow checkpoint survives the bridge: encoding a checkpoint whose workflow, operation and
  phase are declared members and whose fields are in range succeeds, decoding gives it back, and
  two such checkpoints with the same encoding are equal.
\<close>

theorem workflow_checkpoint_roundtrip:
  assumes "workflow_checkpoint_wf c" and "workflow_checkpoint_wf d"
  shows "rbind (rawWorkflowCheckpoint c) normalizeWorkflowCheckpoint = Inr c
    \<and> (rawWorkflowCheckpoint c = rawWorkflowCheckpoint d \<longleftrightarrow> c = d)"
  using workflow_checkpoint_codec.enc_dec [OF assms(1)] workflow_checkpoint_codec.enc_injective [OF assms]
  by auto

definition sample_checkpoint :: "int \<Rightarrow> workflow_checkpoint" where
  "sample_checkpoint units =
     \<lparr>wc_workflow = Wk_recording_transfer, wc_operation = Core_transfer_recording,
      wc_serialNumber = js ''BP-1'', wc_recordingUuid = Some (replicate 16 5), wc_phase = Cp_transferring,
      wc_completedUnits = units, wc_retryCount = 2, wc_lastSequence = Some 41, wc_firmwareVersion = None\<rparr>"

theorem workflow_checkpoint_roundtrip_witness:
  "rbind (rawWorkflowCheckpoint (sample_checkpoint 512)) normalizeWorkflowCheckpoint = Inr (sample_checkpoint 512)
   \<and> rawWorkflowCheckpoint (sample_checkpoint 512) \<noteq> rawWorkflowCheckpoint (sample_checkpoint 513)"
proof -
  have "workflow_checkpoint_wf (sample_checkpoint units)" for units
    by (simp add: workflow_checkpoint_wf_def workflow_checkpoint_ok_def sample_checkpoint_def
        workflow_kind_declared_def operation_declared_def checkpoint_phase_declared_def
        workflow_kind_table_def operation_table_def checkpoint_phase_table_def)
  moreover have "sample_checkpoint 512 \<noteq> sample_checkpoint 513" by (simp add: sample_checkpoint_def)
  ultimately show ?thesis
    using workflow_checkpoint_roundtrip [of "sample_checkpoint 512" "sample_checkpoint 513"] by simp
qed

text \<open>
  An encrypted-upload checkpoint is a fixed point of decode-encode-decode: whatever value the
  bridge returned, if it decodes then encoding the result and decoding it again gives the same
  checkpoint, so a saved checkpoint can be handed back to the core any number of times.
\<close>

theorem v2_checkpoint_stable:
  assumes "normalizeEncryptedCheckpoint v = Inr c"
  shows "normalizeEncryptedCheckpoint (rawEncryptedCheckpoint c) = Inr c"
  using v2_checkpoint_codec.decode_idempotent [OF assms] by simp

theorem v2_checkpoint_stable_witness:
  "\<exists>c. normalizeEncryptedCheckpoint (rawEncryptedCheckpoint c) = Inr c \<and> v2c_ownerRevision c = 4"
proof -
  let ?v = "JObject [(''device'', JString (js ''N-2'')), (''recording'', JBytes (replicate 16 1)),
      (''recording_generation'', JNumber (JInt 3)), (''upload_session_uuid'', JBytes (replicate 16 2)),
      (''owner_revision'', JNumber (JInt 4)), (''transport_session_id'', JBigInt 77),
      (''checkpoint_revision'', JNumber (JInt 5)), (''next_ciphertext_offset'', JBigInt 4096),
      (''prefix_sha256'', JBytes (replicate 32 9)), (''window_packets'', JNumber (JInt 16)),
      (''data_payload_bytes'', JNumber (JInt 480))]"
  have "\<exists>c. normalizeEncryptedCheckpoint ?v = Inr c \<and> v2c_ownerRevision c = 4"
    by (simp add: normalizeEncryptedCheckpoint_def js_bytes_def js_number_def max_safe_integer_def)
  then obtain c where "normalizeEncryptedCheckpoint ?v = Inr c" "v2c_ownerRevision c = 4" by blast
  with v2_checkpoint_stable [of ?v c] show ?thesis by blast
qed

end
