(* ===== verification/Interaction.thy ===== *)
theory Interaction
  imports SdkErrors
begin

text \<open>
  Asynchronous routines that run alone on their data: programs over a world.  A program yields
  an error, a value, or \<open>None\<close>: it has not got further when the run ends (the page was closed, or a
  promise it waits for never settles).  What the world does at an \<open>await\<close> is for the world type to
  say.  The rules below are for triples with one assertion for each way to end; an assertion on
  \<open>None\<close> is one that holds at whatever point a run is cut off.
\<close>

named_theorems triples \<open>what the operations of the world establish\<close>

type_synonym ('w, 'a) prog = "'w \<Rightarrow> (js_error + 'a) option \<times> 'w"

section \<open>Combinators\<close>

definition ret :: "'a \<Rightarrow> ('w, 'a) prog" where
  "ret x w = (Some (Inr x), w)"

definition raise :: "js_error \<Rightarrow> ('w, 'a) prog" where
  "raise e w = (Some (Inl e), w)"

definition seq :: "('w, 'a) prog \<Rightarrow> ('a \<Rightarrow> ('w, 'b) prog) \<Rightarrow> ('w, 'b) prog" where
  "seq m f w =
     (case m w of
        (None, w1) \<Rightarrow> (None, w1)
      | (Some (Inl e), w1) \<Rightarrow> (Some (Inl e), w1)
      | (Some (Inr x), w1) \<Rightarrow> f x w1)"

text \<open>\<open>try m catch (error) { h(error) }\<close>\<close>

definition catching :: "('w, 'a) prog \<Rightarrow> (js_error \<Rightarrow> ('w, 'a) prog) \<Rightarrow> ('w, 'a) prog" where
  "catching m h w =
     (case m w of
        (Some (Inl e), w1) \<Rightarrow> h e w1
      | (r, w1) \<Rightarrow> (r, w1))"

text \<open>\<open>m.catch(() => undefined)\<close>\<close>

definition ignoring :: "('w, 'a) prog \<Rightarrow> ('w, 'a option) prog" where
  "ignoring m = catching (seq m (\<lambda>x. ret (Some x))) (\<lambda>_. ret None)"

definition lift_sum :: "js_error + 'a \<Rightarrow> ('w, 'a) prog" where
  "lift_sum r w = (Some r, w)"

definition get :: "('w \<Rightarrow> 'a) \<Rightarrow> ('w, 'a) prog" where
  "get f w = (Some (Inr (f w)), w)"

definition modify :: "('w \<Rightarrow> 'w) \<Rightarrow> ('w, unit) prog" where
  "modify f w = (Some (Inr ()), f w)"

definition unless :: "bool \<Rightarrow> ('w, unit) prog \<Rightarrow> ('w, unit) prog" where
  "unless b m = (if b then ret () else m)"

fun each :: "('x \<Rightarrow> ('w, unit) prog) \<Rightarrow> 'x list \<Rightarrow> ('w, unit) prog" where
  "each f [] = ret ()"
| "each f (x # xs) = seq (f x) (\<lambda>_. each f xs)"

lemma seq_ret [simp]: "seq (ret x) f = f x"
  by (rule ext) (simp add: seq_def ret_def)

lemma seq_raise [simp]: "seq (raise e) f = raise e"
  by (rule ext) (simp add: seq_def raise_def)

lemma seq_assoc: "seq (seq m f) g = seq m (\<lambda>x. seq (f x) g)"
  by (rule ext) (auto simp: seq_def split: prod.splits option.splits sum.splits)

lemma catching_ret [simp]: "catching (ret x) h = ret x" "catching (raise e) h = h e"
  by (rule ext, simp add: catching_def ret_def raise_def)+

section \<open>Triples\<close>

definition triple ::
    "('w \<Rightarrow> bool) \<Rightarrow> ('w, 'a) prog \<Rightarrow> ('a \<Rightarrow> 'w \<Rightarrow> bool) \<Rightarrow> (js_error \<Rightarrow> 'w \<Rightarrow> bool) \<Rightarrow> ('w \<Rightarrow> bool) \<Rightarrow> bool" where
  "triple P m Q E C \<longleftrightarrow> (\<forall>w. P w \<longrightarrow>
     (case m w of (None, w') \<Rightarrow> C w' | (Some (Inl e), w') \<Rightarrow> E e w' | (Some (Inr x), w') \<Rightarrow> Q x w'))"

lemma tripleI:
  "(\<And>w r w'. P w \<Longrightarrow> m w = (r, w') \<Longrightarrow>
      (case r of None \<Rightarrow> C w' | Some (Inl e) \<Rightarrow> E e w' | Some (Inr x) \<Rightarrow> Q x w')) \<Longrightarrow> triple P m Q E C"
  unfolding triple_def by (fastforce split: prod.splits option.splits sum.splits)

lemma tripleD:
  assumes "triple P m Q E C" and "P w" and "m w = (r, w')"
  shows "case r of None \<Rightarrow> C w' | Some (Inl e) \<Rightarrow> E e w' | Some (Inr x) \<Rightarrow> Q x w'"
  using assms unfolding triple_def by (fastforce split: prod.splits option.splits sum.splits)

lemma triple_weaken:
  assumes "triple P m Q E C" and "\<And>w. P' w \<Longrightarrow> P w" and "\<And>x w. Q x w \<Longrightarrow> Q' x w"
    and "\<And>e w. E e w \<Longrightarrow> E' e w" and "\<And>w. C w \<Longrightarrow> C' w"
  shows "triple P' m Q' E' C'"
  unfolding triple_def
proof (intro allI impI)
  fix w
  assume "P' w"
  with assms(2) have "P w" .
  obtain r w1 where r: "m w = (r, w1)" by fastforce
  from tripleD [OF assms(1) \<open>P w\<close> r] assms(3-5)
  show "case m w of (None, w') \<Rightarrow> C' w' | (Some (Inl e), w') \<Rightarrow> E' e w' | (Some (Inr x), w') \<Rightarrow> Q' x w'"
    by (auto simp: r split: option.splits sum.splits)
qed

lemma triple_pre: "triple P m Q E C \<Longrightarrow> (\<And>w. P' w \<Longrightarrow> P w) \<Longrightarrow> triple P' m Q E C"
  by (rule triple_weaken)

lemma triple_post: "triple P m Q E C \<Longrightarrow> (\<And>x w. Q x w \<Longrightarrow> Q' x w) \<Longrightarrow> triple P m Q' E C"
  by (rule triple_weaken)

lemma triple_ret [triples]: "(\<And>w. P w \<Longrightarrow> Q x w) \<Longrightarrow> triple P (ret x) Q E C"
  by (simp add: triple_def ret_def)

lemma triple_raise [triples]: "(\<And>w. P w \<Longrightarrow> E e w) \<Longrightarrow> triple P (raise e) Q E C"
  by (simp add: triple_def raise_def)

lemma triple_lift [triples]:
  "(\<And>w x. P w \<Longrightarrow> r = Inr x \<Longrightarrow> Q x w) \<Longrightarrow> (\<And>w e. P w \<Longrightarrow> r = Inl e \<Longrightarrow> E e w) \<Longrightarrow> triple P (lift_sum r) Q E C"
  by (cases r) (simp_all add: triple_def lift_sum_def)

lemma triple_get [triples]: "(\<And>w. P w \<Longrightarrow> Q (f w) w) \<Longrightarrow> triple P (get f) Q E C"
  by (simp add: triple_def get_def)

lemma triple_modify [triples]: "(\<And>w. P w \<Longrightarrow> Q () (f w)) \<Longrightarrow> triple P (modify f) Q E C"
  by (simp add: triple_def modify_def)

lemma triple_seq:
  assumes "triple P m R E C" and "\<And>x. triple (R x) (f x) Q E C"
  shows "triple P (seq m f) Q E C"
  unfolding triple_def
proof (intro allI impI)
  fix w
  assume "P w"
  obtain r w1 where r: "m w = (r, w1)" by fastforce
  note m = tripleD [OF assms(1) \<open>P w\<close> r]
  show "case seq m f w of (None, w') \<Rightarrow> C w' | (Some (Inl e), w') \<Rightarrow> E e w' | (Some (Inr x), w') \<Rightarrow> Q x w'"
  proof (cases r)
    case None
    with m r show ?thesis by (simp add: seq_def)
  next
    case (Some v)
    show ?thesis
    proof (cases v)
      case (Inl e)
      with Some m r show ?thesis by (simp add: seq_def)
    next
      case (Inr x)
      with Some m have "R x w1" by simp
      with assms(2) [of x] Some Inr r show ?thesis by (simp add: seq_def triple_def)
    qed
  qed
qed

lemma triple_catching:
  assumes "triple P m Q F C" and "\<And>e. triple (F e) (h e) Q E C"
  shows "triple P (catching m h) Q E C"
  unfolding triple_def
proof (intro allI impI)
  fix w
  assume "P w"
  obtain r w1 where r: "m w = (r, w1)" by fastforce
  note m = tripleD [OF assms(1) \<open>P w\<close> r]
  show "case catching m h w of (None, w') \<Rightarrow> C w' | (Some (Inl e), w') \<Rightarrow> E e w' | (Some (Inr x), w') \<Rightarrow> Q x w'"
  proof (cases "\<exists>e. r = Some (Inl e)")
    case True
    then obtain e where e: "r = Some (Inl e)" by blast
    with m have "F e w1" by simp
    with assms(2) [of e] e r show ?thesis by (simp add: catching_def triple_def)
  next
    case False
    with m r show ?thesis by (cases r) (auto simp: catching_def split: sum.splits)
  qed
qed

lemma triple_ignoring:
  assumes "triple P m (\<lambda>x w. Q (Some x) w) (\<lambda>e w. Q None w) C"
  shows "triple P (ignoring m) Q E C"
  unfolding ignoring_def
  by (rule triple_catching [OF triple_seq [OF assms]]) (rule triple_ret, assumption)+

lemma triple_unless:
  assumes "\<not> b \<Longrightarrow> triple P m Q E C" and "\<And>w. b \<Longrightarrow> P w \<Longrightarrow> Q () w"
  shows "triple P (unless b m) Q E C"
  using assms by (cases b) (auto simp: unless_def intro: triple_ret)

lemma triple_if:
  "(b \<Longrightarrow> triple P m Q E C) \<Longrightarrow> (\<not> b \<Longrightarrow> triple P n Q E C) \<Longrightarrow> triple P (if b then m else n) Q E C"
  by simp

lemma triple_each:
  assumes "\<And>x. x \<in> set xs \<Longrightarrow> triple I (f x) (\<lambda>_. I) E C"
  shows "triple I (each f xs) (\<lambda>_. I) E C"
  using assms by (induction xs) (auto intro!: triple_ret triple_seq)

text \<open>An invariant: it holds however the program ends.\<close>

definition invariant :: "('w \<Rightarrow> bool) \<Rightarrow> ('w, 'a) prog \<Rightarrow> bool" where
  "invariant I m \<longleftrightarrow> triple I m (\<lambda>_. I) (\<lambda>_. I) I"

lemma invariantD: "invariant I m \<Longrightarrow> I w \<Longrightarrow> I (snd (m w))"
  unfolding invariant_def triple_def by (fastforce split: prod.splits option.splits sum.splits)

lemma invariantI: "(\<And>w. I w \<Longrightarrow> I (snd (m w))) \<Longrightarrow> invariant I m"
  unfolding invariant_def by (rule tripleI) (force split: option.splits sum.splits)

lemma invariant_seq: "invariant I m \<Longrightarrow> (\<And>x. invariant I (f x)) \<Longrightarrow> invariant I (seq m f)"
  unfolding invariant_def by (rule triple_seq)

lemma invariant_catching: "invariant I m \<Longrightarrow> (\<And>e. invariant I (h e)) \<Longrightarrow> invariant I (catching m h)"
  unfolding invariant_def by (rule triple_catching)

lemma invariant_basic: "invariant I (ret x)" "invariant I (raise e)" "invariant I (lift_sum r)" "invariant I (get f)"
  unfolding invariant_def by (auto intro: triples)

lemma invariant_ignoring: "invariant I m \<Longrightarrow> invariant I (ignoring m)"
  unfolding invariant_def by (rule triple_ignoring)

lemma invariant_if: "(b \<Longrightarrow> invariant I m) \<Longrightarrow> (\<not> b \<Longrightarrow> invariant I n) \<Longrightarrow> invariant I (if b then m else n)"
  by simp

lemma invariant_option: "invariant I m \<Longrightarrow> (\<And>x. invariant I (f x)) \<Longrightarrow> invariant I (case v of None \<Rightarrow> m | Some x \<Rightarrow> f x)"
  by (cases v) simp_all

lemma invariant_unless: "invariant I m \<Longrightarrow> invariant I (unless b m)"
  unfolding invariant_def by (rule triple_unless)

section \<open>Interface: what a program leaves alone\<close>

text \<open>
  A relation between worlds that agree in all that matters for an assertion.  A program is quiet if it
  stays within the relation; then it keeps every assertion that is stable under it.
\<close>

locale world_frame =
  fixes same :: "'w \<Rightarrow> 'w \<Rightarrow> bool"
  assumes same_refl: "same w w"
    and same_trans: "same w1 w2 \<Longrightarrow> same w2 w3 \<Longrightarrow> same w1 w3"
begin

definition quiet :: "('w, 'a) prog \<Rightarrow> bool" where
  "quiet m \<longleftrightarrow> (\<forall>w. same w (snd (m w)))"

definition stable :: "('w \<Rightarrow> bool) \<Rightarrow> bool" where
  "stable P \<longleftrightarrow> (\<forall>w w'. same w w' \<longrightarrow> P w \<longrightarrow> P w')"

lemma quietI: "(\<And>w. same w (snd (m w))) \<Longrightarrow> quiet m"
  by (simp add: quiet_def)

lemma quiet_basic: "quiet (ret x)" "quiet (raise e)" "quiet (lift_sum r)" "quiet (get f)"
  by (auto simp: quiet_def ret_def raise_def lift_sum_def get_def same_refl)

lemma quiet_modify: "(\<And>w. same w (f w)) \<Longrightarrow> quiet (modify f)"
  by (simp add: quiet_def modify_def)

lemma quiet_seq: "quiet m \<Longrightarrow> (\<And>x. quiet (f x)) \<Longrightarrow> quiet (seq m f)"
  unfolding quiet_def seq_def
  by (auto split: prod.splits option.splits sum.splits) (metis same_trans snd_conv)+

lemma quiet_catching: "quiet m \<Longrightarrow> (\<And>e. quiet (h e)) \<Longrightarrow> quiet (catching m h)"
  unfolding quiet_def catching_def
  by (auto split: prod.splits option.splits sum.splits) (metis same_trans snd_conv)+

lemma quiet_ignoring: "quiet m \<Longrightarrow> quiet (ignoring m)"
  unfolding ignoring_def by (intro quiet_catching quiet_seq quiet_basic)

lemma quiet_if: "(b \<Longrightarrow> quiet m) \<Longrightarrow> (\<not> b \<Longrightarrow> quiet n) \<Longrightarrow> quiet (if b then m else n)"
  by simp

lemma quiet_unless: "quiet m \<Longrightarrow> quiet (unless b m)"
  by (simp add: unless_def quiet_basic)

lemma quiet_option: "quiet m \<Longrightarrow> (\<And>x. quiet (f x)) \<Longrightarrow> quiet (case v of None \<Rightarrow> m | Some x \<Rightarrow> f x)"
  by (cases v) simp_all

lemma quiet_sum: "(\<And>x. quiet (f x)) \<Longrightarrow> (\<And>x. quiet (g x)) \<Longrightarrow> quiet (case v of Inl x \<Rightarrow> f x | Inr x \<Rightarrow> g x)"
  by (cases v) simp_all

lemma quiet_prod: "(\<And>x y. quiet (f x y)) \<Longrightarrow> quiet (case v of (x, y) \<Rightarrow> f x y)"
  by (cases v) simp

lemmas quiet_intros = quiet_basic quiet_seq quiet_catching quiet_ignoring quiet_unless quiet_if quiet_option
  quiet_sum quiet_prod

lemma triple_quiet: "quiet m \<Longrightarrow> stable P \<Longrightarrow> triple P m (\<lambda>_. P) (\<lambda>_. P) P"
  by (rule tripleI) (fastforce simp: quiet_def stable_def split: option.splits sum.splits dest: spec)

lemma invariant_quiet: "quiet m \<Longrightarrow> stable P \<Longrightarrow> invariant P m"
  by (simp add: invariant_def triple_quiet)

lemma triple_along:
  assumes "triple P m Q E C" and "quiet m" and "stable R"
  shows "triple (\<lambda>w. P w \<and> R w) m (\<lambda>x w. Q x w \<and> R w) E C"
proof (rule tripleI)
  fix w r w'
  assume w: "P w \<and> R w" and run: "m w = (r, w')"
  with assms(2,3) have "R w'" by (metis quiet_def snd_conv stable_def)
  with tripleD [OF assms(1) _ run] w
  show "case r of None \<Rightarrow> C w' | Some (Inl e) \<Rightarrow> E e w' | Some (Inr x) \<Rightarrow> Q x w' \<and> R w'"
    by (auto split: option.splits sum.splits)
qed

end

end
