(* ===== verification/RuntimeParts.thy ===== *)
theory RuntimeParts
  imports CoreTypes
begin

text \<open>
  The pure parts of \<^verbatim>\<open>frameworks/web/src/workflowRuntime.ts\<close>: which operation an identifier and a core
  operation stand for, how an error reaches the caller, which transient effects hold secrets and
  how they are wiped, which host executes an effect, and the two progress checks; with
  \<open>canonicalGattUuid\<close> of \<^verbatim>\<open>gatt.ts\<close>.  The progress checks are instances of one contract: a report that is
  accepted never goes back.
\<close>

section \<open>GATT identifiers\<close>

text \<open>UUIDs are ASCII; \<open>toLowerCase\<close> is written out for the ASCII range.\<close>

definition ascii_lower :: "16 word \<Rightarrow> 16 word" where
  "ascii_lower u = (if 65 \<le> u \<and> u \<le> 90 then u + 32 else u)"

definition hex_unit :: "16 word \<Rightarrow> bool" where
  "hex_unit u \<longleftrightarrow> 48 \<le> u \<and> u \<le> 57 \<or> 97 \<le> u \<and> u \<le> 102"

definition BLUETOOTH_BASE_UUID_SUFFIX :: jsstring where
  "BLUETOOTH_BASE_UUID_SUFFIX = js ''-0000-1000-8000-00805f9b34fb''"

definition canonicalGattUuid :: "jsstring \<Rightarrow> jsstring" where
  "canonicalGattUuid uuid =
     (let normalized = map ascii_lower uuid in
      if length normalized = 4 \<and> list_all hex_unit normalized
      then js ''0000'' @ normalized @ BLUETOOTH_BASE_UUID_SUFFIX
      else if length normalized = 8 \<and> list_all hex_unit normalized
      then normalized @ BLUETOOTH_BASE_UUID_SUFFIX
      else normalized)"

section \<open>Operations\<close>

primrec publicOperation :: "core_operation \<Rightarrow> bota_operation" where
  "publicOperation Core_connect = Op_connect"
| "publicOperation Core_reconnect = Op_reconnect"
| "publicOperation Core_provision = Op_provision"
| "publicOperation Core_transfer_recording = Op_transfer_recording"
| "publicOperation Core_upload = Op_upload"
| "publicOperation Core_update_firmware = Op_update_firmware"
| "publicOperation Core_read_device_logs = Op_read_device_logs"
| "publicOperation Core_validate = Op_unknown"
| "publicOperation Core_decode = Op_unknown"
| "publicOperation Core_encode = Op_unknown"
| "publicOperation Core_discover = Op_unknown"
| "publicOperation Core_factory_reset = Op_unknown"
| "publicOperation Core_unknown = Op_unknown"
| "publicOperation (Core_inherited k) = Op_unknown"

definition id_prefix :: "jsstring \<Rightarrow> jsstring" where
  "id_prefix operationId = takeWhile (\<lambda>u. u \<noteq> 58) operationId"

definition operationFromId :: "jsstring \<Rightarrow> bota_operation" where
  "operationFromId operationId =
     (let prefx = id_prefix operationId in
      if prefx = js ''connect'' then Op_connect
      else if prefx = js ''reconnect'' then Op_reconnect
      else if prefx = js ''provision'' then Op_provision
      else if prefx = js ''transfer_recording'' then Op_transfer_recording
      else if prefx = js ''upload'' then Op_upload
      else if prefx = js ''update_firmware'' then Op_update_firmware
      else if prefx = js ''read_device_logs'' then Op_read_device_logs
      else Op_unknown)"

section \<open>Errors\<close>

primrec storage_error_code :: "storage_code \<Rightarrow> bota_code" where
  "storage_error_code St_invalid_input = Sdk_invalid_input"
| "storage_error_code St_storage_unavailable = Sdk_storage_unavailable"
| "storage_error_code St_storage_quota_exceeded = Sdk_storage_quota_exceeded"
| "storage_error_code St_resume_rejected = Sdk_resume_rejected"

primrec transport_error_code :: "transport_code \<Rightarrow> bota_code" where
  "transport_error_code Tr_disconnected = Sdk_device_disconnected"
| "transport_error_code Tr_permission_denied = Sdk_permission_denied"
| "transport_error_code Tr_picker_cancelled = Sdk_picker_cancelled"
| "transport_error_code Tr_characteristic_not_found = Sdk_bluetooth_unavailable"
| "transport_error_code Tr_unavailable = Sdk_bluetooth_unavailable"

fun normalizeRuntimeError :: "js_error \<Rightarrow> bota_operation \<Rightarrow> bota_error" where
  "normalizeRuntimeError (SdkErr e) operation = e"
| "normalizeRuntimeError (StorageErr c) operation = BotaSDKError (storage_error_code c) operation"
| "normalizeRuntimeError (TransportErr c) operation = BotaSDKError (transport_error_code c) operation"
| "normalizeRuntimeError e operation = normalizeCoreError e operation"

definition platformCode :: "js_error \<Rightarrow> jsnum option" where
  "platformCode error =
     (if \<not> error_is_object error then None
      else case error_field error ''code'' of JNumber n \<Rightarrow> Some n | _ \<Rightarrow> None)"

section \<open>Bytes and transient effects\<close>

fun equalBytes_from :: "bytes \<Rightarrow> bytes \<Rightarrow> bool" where
  "equalBytes_from (l # left) (r # right) = (if l \<noteq> r then False else equalBytes_from left right)"
| "equalBytes_from _ _ = True"

definition equalBytes :: "bytes \<Rightarrow> bytes \<Rightarrow> bool" where
  "equalBytes left right = (if length left \<noteq> length right then False else equalBytes_from left right)"

lemma equalBytes_iff [simp]: "equalBytes left right \<longleftrightarrow> left = right"
proof -
  have "length left = length right \<Longrightarrow> equalBytes_from left right \<longleftrightarrow> left = right"
    by (induction left right rule: list_induct2) auto
  then show ?thesis by (auto simp: equalBytes_def)
qed

definition zeroed :: "bytes \<Rightarrow> bytes" where
  "zeroed bs = map (\<lambda>_. 0) bs"

fun scrub_effect :: "core_effect \<Rightarrow> core_effect" where
  "scrub_effect (E_ble_write service characteristic payload withResponse) =
     E_ble_write service characteristic (zeroed payload) withResponse"
| "scrub_effect (E_host_material_prepare_provisioning materialId serialNumber nonce devicePublicKey) =
     E_host_material_prepare_provisioning materialId serialNumber (zeroed nonce) (zeroed devicePublicKey)"
| "scrub_effect e = e"

definition scrubTransientEffect :: "effect_envelope \<Rightarrow> effect_envelope" where
  "scrubTransientEffect envelope = envelope\<lparr>env_effect := scrub_effect (env_effect envelope)\<rparr>"

text \<open>The payload bytes of an effect that must not outlive it.\<close>

fun transient_bytes :: "core_effect \<Rightarrow> bytes" where
  "transient_bytes (E_ble_write service characteristic payload withResponse) = payload"
| "transient_bytes (E_host_material_prepare_provisioning materialId serialNumber nonce key) = nonce @ key"
| "transient_bytes e = []"

section \<open>Routing\<close>

datatype host_slot =
    Slot_persistence | Slot_recordingSink | Slot_network | Slot_firmwareBlob | Slot_hostMaterial
    | Slot_encryptedUploadV2

text \<open>
  The hosts of a workflow by slot; two slots may hold the same host object, named by a number.
  \<open>persistence\<close> is always there.
\<close>

record workflow_hosts =
  wh_persistence :: nat
  wh_recordingSink :: "nat option"
  wh_network :: "nat option"
  wh_firmwareBlob :: "nat option"
  wh_hostMaterial :: "nat option"
  wh_encryptedUploadV2 :: "nat option"

primrec host_in :: "workflow_hosts \<Rightarrow> host_slot \<Rightarrow> nat option" where
  "host_in hosts Slot_persistence = Some (wh_persistence hosts)"
| "host_in hosts Slot_recordingSink = wh_recordingSink hosts"
| "host_in hosts Slot_network = wh_network hosts"
| "host_in hosts Slot_firmwareBlob = wh_firmwareBlob hosts"
| "host_in hosts Slot_hostMaterial = wh_hostMaterial hosts"
| "host_in hosts Slot_encryptedUploadV2 = wh_encryptedUploadV2 hosts"

text \<open>\<open>new Set\<close> keeps the first of equal elements, in order.\<close>

fun dedup :: "'a list \<Rightarrow> 'a list \<Rightarrow> 'a list" where
  "dedup seen [] = []"
| "dedup seen (x # xs) = (if List.member seen x then dedup seen xs else x # dedup (x # seen) xs)"

definition uniqueHosts :: "workflow_hosts \<Rightarrow> nat list" where
  "uniqueHosts hosts =
     dedup [] (List.map_filter (host_in hosts)
       [Slot_persistence, Slot_recordingSink, Slot_network, Slot_firmwareBlob, Slot_hostMaterial,
        Slot_encryptedUploadV2])"

text \<open>
  The \<open>switch\<close> of \<open>executeEffect\<close>: which routine of the runtime, or which host, executes an effect.
\<close>

datatype effect_route =
    Route_notification core_notification
  | Route_scan | Route_stop_scan | Route_connect | Route_discover | Route_disconnect | Route_read
  | Route_write | Route_subscribe | Route_unsubscribe jsstring jsstring
  | Route_timer_schedule | Route_timer_cancel int
  | Route_progress int int
  | Route_host host_slot

primrec route_effect :: "core_effect \<Rightarrow> effect_route" where
  "route_effect (E_notify notification) = Route_notification notification"
| "route_effect (E_ble_start_scan allowDuplicates) = Route_scan"
| "route_effect E_ble_stop_scan = Route_stop_scan"
| "route_effect (E_ble_connect peripheral) = Route_connect"
| "route_effect (E_ble_discover_services peripheral) = Route_discover"
| "route_effect (E_ble_disconnect peripheral) = Route_disconnect"
| "route_effect (E_ble_read service characteristic) = Route_read"
| "route_effect (E_ble_write service characteristic payload response) = Route_write"
| "route_effect (E_ble_subscribe service characteristic) = Route_subscribe"
| "route_effect (E_ble_unsubscribe service characteristic) = Route_unsubscribe service characteristic"
| "route_effect (E_timer_schedule timerId delay) = Route_timer_schedule"
| "route_effect (E_timer_cancel timerId) = Route_timer_cancel timerId"
| "route_effect (E_progress completed whole) = Route_progress completed whole"
| "route_effect E_persistence_load_checkpoint = Route_host Slot_persistence"
| "route_effect (E_persistence_save_checkpoint checkpoint) = Route_host Slot_persistence"
| "route_effect E_persistence_delete_checkpoint = Route_host Slot_persistence"
| "route_effect (E_persistence_save_connection_identity serial candidate) = Route_host Slot_persistence"
| "route_effect (E_host_material_prepare_provisioning material serial nonce key) = Route_host Slot_hostMaterial"
| "route_effect (E_recording_sink_truncate sink units) = Route_host Slot_recordingSink"
| "route_effect (E_recording_sink_append sink sequence payload) = Route_host Slot_recordingSink"
| "route_effect (E_recording_sink_finalize sink crc) = Route_host Slot_recordingSink"
| "route_effect (E_recording_sink_discard sink) = Route_host Slot_recordingSink"
| "route_effect (E_network_download download) = Route_host Slot_network"
| "route_effect (E_firmware_blob_read_chunk download offset len) = Route_host Slot_firmwareBlob"
| "route_effect (E_v2_load_checkpoint serial recording generation session revision) = Route_host Slot_encryptedUploadV2"
| "route_effect (E_v2_delete_checkpoint session) = Route_host Slot_encryptedUploadV2"
| "route_effect (E_v2_truncate_sink sink offset) = Route_host Slot_encryptedUploadV2"
| "route_effect (E_v2_prepare_session material) = Route_host Slot_encryptedUploadV2"
| "route_effect (E_v2_start_transfer start) = Route_host Slot_encryptedUploadV2"
| "route_effect (E_v2_repair_window missing) = Route_host Slot_encryptedUploadV2"
| "route_effect (E_v2_save_checkpoint checkpoint) = Route_host Slot_encryptedUploadV2"
| "route_effect (E_v2_acknowledge_window checkpoint) = Route_host Slot_encryptedUploadV2"
| "route_effect (E_v2_stage_artifacts sink material evidence) = Route_host Slot_encryptedUploadV2"
| "route_effect (E_v2_await_completion_receipt material evidence) = Route_host Slot_encryptedUploadV2"
| "route_effect (E_v2_confirm_with_receipt material receipt) = Route_host Slot_encryptedUploadV2"
| "route_effect (E_v2_abort material) = Route_host Slot_encryptedUploadV2"

section \<open>Progress\<close>

definition reportProgress :: "(int \<times> int) option \<Rightarrow> bota_operation \<Rightarrow> int \<times> int \<Rightarrow> bota_error + int \<times> int" where
  "reportProgress lastProgress operation report =
     (case report of (completedUnits, totalUnits) \<Rightarrow>
        if completedUnits < 0 \<or> totalUnits < 0 \<or> completedUnits > totalUnits
          \<or> (case lastProgress of
               None \<Rightarrow> False
             | Some (lastCompleted, lastTotal) \<Rightarrow> completedUnits < lastCompleted \<or> totalUnits \<noteq> lastTotal)
        then Inl (BotaSDKError Sdk_protocol_error operation)
        else Inr (completedUnits, totalUnits))"

primrec firmwarePhaseIndex :: "firmware_phase \<Rightarrow> int option" where
  "firmwarePhaseIndex Fp_downloading = Some 0"
| "firmwarePhaseIndex Fp_awaiting_device = Some 1"
| "firmwarePhaseIndex Fp_transferring = Some 2"
| "firmwarePhaseIndex Fp_verifying = Some 3"
| "firmwarePhaseIndex Fp_rebooting = Some 4"
| "firmwarePhaseIndex Fp_reconnecting = Some 5"
| "firmwarePhaseIndex Fp_complete = Some 6"
| "firmwarePhaseIndex (Fp_inherited k) = None"

text \<open>\<open>undefined\<close> on either side of \<open><\<close> makes the comparison false.\<close>

definition phase_less :: "firmware_phase \<Rightarrow> firmware_phase \<Rightarrow> bool" where
  "phase_less phase previous =
     (case (firmwarePhaseIndex phase, firmwarePhaseIndex previous) of
        (Some a, Some b) \<Rightarrow> a < b | _ \<Rightarrow> False)"

type_synonym firmware_report = "firmware_phase \<times> int \<times> int"

definition reportFirmwareProgress :: "firmware_report option \<Rightarrow> bota_operation \<Rightarrow> firmware_report \<Rightarrow> bota_error + firmware_report" where
  "reportFirmwareProgress previous operation report =
     (case report of (phase, completedBytes, totalBytes) \<Rightarrow>
        if completedBytes < 0 \<or> totalBytes < 0 \<or> completedBytes > totalBytes
          \<or> (case previous of
               None \<Rightarrow> False
             | Some (lastPhase, lastCompleted, lastTotal) \<Rightarrow>
                 phase_less phase lastPhase \<or> totalBytes \<noteq> lastTotal
                 \<or> phase = lastPhase \<and> completedBytes < lastCompleted)
        then Inl (BotaSDKError Sdk_protocol_error operation)
        else Inr (phase, completedBytes, totalBytes))"

text \<open>
  The contract of a progress check: it keeps the report it accepts, refuses with a protocol error,
  and what it accepts after a report is in order with it.
\<close>

locale progress_check =
  fixes check :: "'r option \<Rightarrow> bota_operation \<Rightarrow> 'r \<Rightarrow> bota_error + 'r"
    and valid :: "'r \<Rightarrow> bool" and le :: "'r \<Rightarrow> 'r \<Rightarrow> bool"
  assumes check_id: "check prev operation r = Inr r' \<Longrightarrow> r' = r"
    and check_valid: "check prev operation r = Inr r' \<Longrightarrow> valid r'"
    and check_order: "check (Some l) operation r = Inr r' \<Longrightarrow> le l r'"
    and check_error: "check prev operation r = Inl e \<Longrightarrow> e = BotaSDKError Sdk_protocol_error operation"
begin

text \<open>What was accepted so far, newest first, and the report that is kept for the next comparison.\<close>

definition kept :: "'r option \<Rightarrow> 'r list \<Rightarrow> bool" where
  "kept prev rs \<longleftrightarrow>
     prev = (case rs of [] \<Rightarrow> None | r # _ \<Rightarrow> Some r)
     \<and> (\<forall>r \<in> set rs. valid r) \<and> successively (\<lambda>newer older. le older newer) rs"

lemma kept_none: "kept None []"
  by (simp add: kept_def)

lemma kept_accepted: "kept prev rs \<Longrightarrow> check prev operation r = Inr r' \<Longrightarrow> kept (Some r') (r' # rs)"
  by (cases rs) (auto simp: kept_def dest: check_valid check_order)

lemma kept_told: "kept prev rs \<Longrightarrow> (\<forall>r \<in> set (rev rs). valid r) \<and> successively le (rev rs)"
  by (simp add: kept_def successively_rev)

end

definition progress_valid :: "int \<times> int \<Rightarrow> bool" where
  "progress_valid r \<longleftrightarrow> 0 \<le> fst r \<and> fst r \<le> snd r"

definition progress_le :: "int \<times> int \<Rightarrow> int \<times> int \<Rightarrow> bool" where
  "progress_le a b \<longleftrightarrow> fst a \<le> fst b \<and> snd a = snd b"

interpretation units: progress_check reportProgress progress_valid progress_le
  by unfold_locales
    (auto simp: reportProgress_def progress_valid_def progress_le_def split: prod.splits option.splits if_splits)

definition firmware_valid :: "firmware_report \<Rightarrow> bool" where
  "firmware_valid r \<longleftrightarrow> 0 \<le> fst (snd r) \<and> fst (snd r) \<le> snd (snd r)"

definition firmware_le :: "firmware_report \<Rightarrow> firmware_report \<Rightarrow> bool" where
  "firmware_le a b \<longleftrightarrow>
     \<not> phase_less (fst b) (fst a) \<and> snd (snd a) = snd (snd b)
     \<and> (fst a = fst b \<longrightarrow> fst (snd a) \<le> fst (snd b))"

interpretation firmware: progress_check reportFirmwareProgress firmware_valid firmware_le
  by unfold_locales
    (auto simp: reportFirmwareProgress_def firmware_valid_def firmware_le_def
      split: prod.splits option.splits if_splits)

section \<open>Facts for the runtime\<close>

lemma scrub_effect_zero: "\<forall>b \<in> set (transient_bytes (scrub_effect e)). b = 0"
  by (cases e) (auto simp: zeroed_def)

lemma set_dedup: "set (dedup seen xs) = set xs - set seen"
  by (induction xs arbitrary: seen) auto

lemma distinct_dedup: "distinct (dedup seen xs)"
  by (induction xs arbitrary: seen) (auto simp: set_dedup)

text \<open>
  Each host is asked exactly once: the host of every slot that is filled is in the list the runtime
  cancels and queries, and no host is in it twice, however many slots it fills.
\<close>

theorem uniqueHosts_exact:
  "distinct (uniqueHosts hosts) \<and> set (uniqueHosts hosts) = {h. \<exists>slot. host_in hosts slot = Some h}"
proof -
  have slots: "(\<exists>slot. host_in hosts slot = Some h) \<longleftrightarrow>
      (\<exists>slot \<in> set [Slot_persistence, Slot_recordingSink, Slot_network, Slot_firmwareBlob, Slot_hostMaterial,
        Slot_encryptedUploadV2]. host_in hosts slot = Some h)" for h
    by (metis (full_types) host_slot.exhaust list.set_intros)
  show ?thesis
    unfolding uniqueHosts_def slots
    by (auto simp: distinct_dedup set_dedup map_filter_def)
qed

text \<open>
  An error reaches the caller with a declared code whatever was thrown by storage or transport,
  and an SDK error is never changed on its way.
\<close>

theorem runtime_error_declared:
  "normalizeRuntimeError (SdkErr e) operation = e
   \<and> declared_code (err_code (normalizeRuntimeError (StorageErr sc) operation))
   \<and> declared_code (err_code (normalizeRuntimeError (TransportErr tc) operation))
   \<and> err_operation (normalizeRuntimeError (StorageErr sc) operation) = operation
   \<and> err_operation (normalizeRuntimeError (TransportErr tc) operation) = operation"
  by (cases sc; cases tc) (simp_all add: BotaSDKError_def declared_code_iff)

end
