(* ===== verification/UploadWorld.thy ===== *)
theory UploadWorld
  imports Interaction RuntimeParts WorkflowStore BlobFacts
begin

text \<open>
  What the encrypted upload works on: the blob the ciphertext is staged in, the receiver of the transfer,
  and, for every \<open>await\<close>, what happens then.  The page may be closed at any of them.  The helpers of
  \<^verbatim>\<open>frameworks/web/src/encryptedUploadV2Host.ts\<close> that several of its classes use are here as well.
\<close>

section \<open>Errors\<close>

definition protocolFailure :: bota_error where
  "protocolFailure = BotaSDKError Sdk_protocol_error Op_transfer_recording"

definition identityFailure :: bota_error where
  "identityFailure = BotaSDKError Sdk_identity_mismatch Op_transfer_recording"

definition integrityFailure :: bota_error where
  "integrityFailure = BotaSDKError Sdk_integrity_failed Op_transfer_recording"

definition cancelled :: bota_error where
  "cancelled = BotaSDKError Sdk_cancelled Op_transfer_recording"

definition operationInProgress :: bota_error where
  "operationInProgress = BotaSDKError Sdk_operation_in_progress Op_transfer_recording"

definition ownershipUnknown :: bota_error where
  "ownershipUnknown = BotaSDKError Sdk_integrity_failed Op_transfer_recording"

definition signedResultTimeout :: bota_error where
  "signedResultTimeout = (BotaSDKError Sdk_connection_failed Op_transfer_recording)\<lparr>err_retryable := True\<rparr>"

definition protocolStatus :: "int \<Rightarrow> bota_error" where
  "protocolStatus result = protocolFailure\<lparr>err_protocolStatus := Some (JInt result)\<rparr>"

primrec transport_failure_code :: "transport_code \<Rightarrow> bota_code" where
  "transport_failure_code Tr_disconnected = Sdk_device_disconnected"
| "transport_failure_code Tr_permission_denied = Sdk_permission_denied"
| "transport_failure_code Tr_characteristic_not_found = Sdk_bluetooth_unavailable"
| "transport_failure_code Tr_picker_cancelled = Sdk_bluetooth_unavailable"
| "transport_failure_code Tr_unavailable = Sdk_bluetooth_unavailable"

fun normalizeHostError :: "js_error \<Rightarrow> bota_error" where
  "normalizeHostError (SdkErr e) = e"
| "normalizeHostError (StorageErr c) = BotaSDKError (storage_error_code c) Op_transfer_recording"
| "normalizeHostError (TransportErr c) = BotaSDKError (transport_failure_code c) Op_transfer_recording"
| "normalizeHostError e = protocolFailure"

section \<open>Values\<close>

definition safeNumber :: "int \<Rightarrow> js_error + int" where
  "safeNumber value = (if value < 0 \<or> value > max_safe_integer then Inl (SdkErr protocolFailure) else Inr value)"

definition isUint32 :: "int \<Rightarrow> bool" where
  "isUint32 value \<longleftrightarrow> 0 \<le> value \<and> value \<le> 0xffffffff"

record native_checkpoint =
  nc_revision :: int
  nc_nextCiphertextOffset :: int
  nc_prefixSha256 :: bytes
  nc_highestContiguousSequence :: "int option"

text \<open>\<open>Number.parseInt(byte, 16)\<close> of two characters that are not blank, signs or a prefix; what cannot be read is 0.\<close>

definition hex_value :: "16 word \<Rightarrow> nat option" where
  "hex_value c =
     (if 48 \<le> c \<and> c \<le> 57 then Some (unat c - 48)
      else if 97 \<le> c \<and> c \<le> 102 then Some (unat c - 87)
      else if 65 \<le> c \<and> c \<le> 70 then Some (unat c - 55)
      else None)"

fun hexBytes :: "jsstring \<Rightarrow> bytes" where
  "hexBytes (a # b # rest) =
     (case hex_value a of
        None \<Rightarrow> 0
      | Some x \<Rightarrow> (case hex_value b of None \<Rightarrow> of_nat x | Some y \<Rightarrow> of_nat (16 * x + y))) # hexBytes rest"
| "hexBytes _ = []"

text \<open>The digest of no bytes at all.\<close>

definition EMPTY_SHA256_HEX :: jsstring where
  "EMPTY_SHA256_HEX = js ''e3b0c44298fc1c149afbf4c8996fb92427ae41e4649b934ca495991b7852b855''"

definition EMPTY_SHA256 :: bytes where
  "EMPTY_SHA256 = hexBytes EMPTY_SHA256_HEX"

lemma empty_sha256_length [simp]: "length EMPTY_SHA256 = 32"
  by (simp add: EMPTY_SHA256_def EMPTY_SHA256_HEX_def js_def)

definition initialEncryptedUploadV2Checkpoint :: native_checkpoint where
  "initialEncryptedUploadV2Checkpoint = \<lparr>nc_revision = 0, nc_nextCiphertextOffset = 0,
     nc_prefixSha256 = EMPTY_SHA256, nc_highestContiguousSequence = None\<rparr>"

definition sameCheckpoint :: "native_checkpoint \<Rightarrow> native_checkpoint \<Rightarrow> bool" where
  "sameCheckpoint left right \<longleftrightarrow>
     nc_revision left = nc_revision right
     \<and> nc_nextCiphertextOffset left = nc_nextCiphertextOffset right
     \<and> nc_highestContiguousSequence left = nc_highestContiguousSequence right
     \<and> equalBytes (nc_prefixSha256 left) (nc_prefixSha256 right)"

fun equalNumbers :: "int list \<Rightarrow> int list \<Rightarrow> bool" where
  "equalNumbers [] [] = True"
| "equalNumbers (l # left) (r # right) \<longleftrightarrow> l = r \<and> equalNumbers left right"
| "equalNumbers _ _ = False"

lemma equalNumbers_iff [simp]: "equalNumbers left right \<longleftrightarrow> left = right"
  by (induction left right rule: equalNumbers.induct) auto

lemma sameCheckpoint_iff [simp]: "sameCheckpoint left right \<longleftrightarrow> left = right"
  by (auto simp: sameCheckpoint_def intro: native_checkpoint.equality)

section \<open>The receiver\<close>

record receiver_options =
  ro_transportSessionId :: int
  ro_expectedCiphertextLength :: int
  ro_expectedCiphertextSha256 :: bytes
  ro_maximumDataPayloadBytes :: int
  ro_maximumWindowPackets :: int
  ro_maximumMissingSequences :: int
  ro_checkpoint :: native_checkpoint

record window_end =
  we_windowIndex :: int
  we_firstSequence :: int
  we_lastSequence :: int
  we_nextCiphertextOffset :: int
  we_prefixSha256 :: bytes
  we_checkpointRevision :: int

record pending_window =
  pw_boundary :: window_end
  pw_checkpoint :: native_checkpoint
  pw_missingSequences :: "int list"
  pw_highestContiguousSequence :: int
  pw_contiguousOffset :: int
  pw_contiguousSha256 :: bytes
  pw_persisted :: bool

record packet =
  pk_offset :: int
  pk_bytes :: bytes
  pk_sha256 :: bytes

record receiver =
  tr_options :: receiver_options
  tr_checkpoint :: native_checkpoint
  tr_packets :: "(int \<times> packet) list"
  tr_pendingWindow :: "pending_window option"
  tr_manifest :: bytes
  tr_manifestPresent :: bytes
  tr_manifestSha256 :: "bytes option"
  tr_prepared :: bool
  tr_terminal :: bool
  tr_completed :: bool
  tr_bufferedBytes :: int

section \<open>The world\<close>

text \<open>
  \<open>va_stop\<close>: the page is closed here.  \<open>va_opfs\<close>: what the calls of the file system report.
\<close>

record upload_answer =
  va_stop :: bool
  va_opfs :: opfs_env

record upload_world =
  vw_answers :: "nat \<Rightarrow> upload_answer"
  vw_time :: nat
  vw_files :: opfs
  vw_receiver :: receiver

definition await :: "('z upload_world_scheme, upload_answer) prog" where
  "await w =
     (let a = vw_answers w (vw_time w);
          w1 = w\<lparr>vw_time := Suc (vw_time w)\<rparr> in
      if va_stop a then (None, w1) else (Some (Inr a), w1))"

text \<open>One call of the blob.\<close>

definition blob_op :: "(opfs_env \<Rightarrow> opfs \<Rightarrow> (storage_code + 'a) \<times> opfs) \<Rightarrow> ('z upload_world_scheme, 'a) prog" where
  "blob_op q = seq await (\<lambda>a w.
     case q (va_opfs a) (vw_files w) of (r, fs) \<Rightarrow> (Some (storage_failure r), w\<lparr>vw_files := fs\<rparr>))"

text \<open>A mutation of a blob, with its two steps under the lock.\<close>

definition change_blob :: "jsstring \<times> jsstring \<Rightarrow> storage_code + mutation \<Rightarrow> ('z upload_world_scheme, unit) prog" where
  "change_blob f request =
     seq (lift_sum (storage_failure request)) (\<lambda>job.
       seq (blob_op (\<lambda>env fs. case mutation_check env f job fs of (r, fs1) \<Rightarrow> (Inr r, fs1))) (\<lambda>r.
         case r of
           Inl outcome \<Rightarrow> lift_sum (storage_failure outcome)
         | Inr _ \<Rightarrow> blob_op (\<lambda>env. mutation_commit env f job)))"

definition size_of_blob :: "jsstring \<times> jsstring \<Rightarrow> ('z upload_world_scheme, int) prog" where
  "size_of_blob f = blob_op (\<lambda>env. blob_size env f)"

text \<open>\<open>for await (const chunk of blob.stream(64 * 1024))\<close> with a body that may leave the loop.\<close>

definition STREAM_CHUNK :: int where
  "STREAM_CHUNK = 64 * 1024"

fun stream_until ::
    "jsstring \<times> jsstring \<Rightarrow> (bytes \<Rightarrow> 'b \<Rightarrow> js_error + 'b \<times> bool) \<Rightarrow> (int \<times> int) list \<Rightarrow> 'b
      \<Rightarrow> ('z upload_world_scheme, 'b) prog" where
  "stream_until f body [] acc = ret acc"
| "stream_until f body ((offset, len) # rs) acc =
     seq (blob_op (\<lambda>env. blob_read env f (JInt offset) (JInt len))) (\<lambda>chunk.
       seq (lift_sum (body chunk acc)) (\<lambda>(acc1, goes_on).
         if goes_on then stream_until f body rs acc1 else ret acc1))"

definition stream_while ::
    "jsstring \<times> jsstring \<Rightarrow> (bytes \<Rightarrow> 'b \<Rightarrow> js_error + 'b \<times> bool) \<Rightarrow> 'b \<Rightarrow> ('z upload_world_scheme, 'b) prog" where
  "stream_while f body acc =
     seq (size_of_blob f) (\<lambda>n. stream_until f body (stream_reads STREAM_CHUNK n 0) acc)"

text \<open>\<open>hashBlobPrefix\<close>; what the hasher was fed stands for the hasher.\<close>

definition prefix_chunk :: "int \<Rightarrow> bytes \<Rightarrow> bytes \<Rightarrow> js_error + bytes \<times> bool" where
  "prefix_chunk len chunk fed =
     rbind (safeNumber (int (length fed))) (\<lambda>n.
       let remaining = len - n in
       if remaining \<le> 0 then Inr (fed, False)
       else Inr (fed @ (if int (length chunk) \<le> remaining then chunk else take (nat remaining) chunk), True))"

definition hashBlobPrefix ::
    "(bytes \<Rightarrow> js_error + bytes) \<Rightarrow> jsstring \<times> jsstring \<Rightarrow> int \<Rightarrow> ('z upload_world_scheme, bytes) prog" where
  "hashBlobPrefix sha256 f len =
     seq (stream_while f (prefix_chunk len) []) (\<lambda>fed.
       if int (length fed) \<noteq> len then raise (SdkErr integrityFailure) else lift_sum (sha256 fed))"

definition receiver_state :: "(receiver \<Rightarrow> 'a) \<Rightarrow> ('z upload_world_scheme, 'a) prog" where
  "receiver_state g = get (\<lambda>w. g (vw_receiver w))"

definition set_receiver :: "(receiver \<Rightarrow> receiver) \<Rightarrow> ('z upload_world_scheme, unit) prog" where
  "set_receiver g = modify (\<lambda>w. w\<lparr>vw_receiver := g (vw_receiver w)\<rparr>)"

end
