(* ===== verification/UploadReceiver.thy ===== *)
theory UploadReceiver
  imports UploadWorld CoreTypes
begin

text \<open>
  \<open>EncryptedUploadV2TransferReceiver\<close> of \<^verbatim>\<open>frameworks/web/src/encryptedUploadV2Host.ts\<close>.  The device
  sends the ciphertext in windows of packets, in any order and with losses.  The receiver collects the packets
  of a window, asks for the missing ones, writes the window to the blob when it is complete and matches
  the digest of the boundary, and acknowledges it once the checkpoint has been persisted.
\<close>

definition MANIFEST_LENGTH :: int where
  "MANIFEST_LENGTH = 580"

definition MAXIMUM_QUEUED_BYTES :: int where
  "MAXIMUM_QUEUED_BYTES = 1024 * 1024"

section \<open>Making one\<close>

definition new_receiver :: "receiver_options \<Rightarrow> bota_error + receiver" where
  "new_receiver options =
     (let c = ro_checkpoint options in
      if ro_transportSessionId options \<le> 0
         \<or> ro_expectedCiphertextLength options \<le> 0
         \<or> ro_expectedCiphertextLength options > max_safe_integer
         \<or> length (ro_expectedCiphertextSha256 options) \<noteq> 32
         \<or> ro_maximumDataPayloadBytes options \<le> 0
         \<or> ro_maximumWindowPackets options \<le> 0
         \<or> ro_maximumMissingSequences options \<le> 0
         \<or> nc_nextCiphertextOffset c < 0
         \<or> nc_nextCiphertextOffset c > ro_expectedCiphertextLength options
         \<or> length (nc_prefixSha256 c) \<noteq> 32
         \<or> (nc_nextCiphertextOffset c = 0) \<noteq> (nc_highestContiguousSequence c = None)
      then Inl protocolFailure
      else Inr \<lparr>tr_options = options, tr_checkpoint = c, tr_packets = [], tr_pendingWindow = None,
        tr_manifest = replicate (nat MANIFEST_LENGTH) 0, tr_manifestPresent = replicate (nat MANIFEST_LENGTH) 0,
        tr_manifestSha256 = None, tr_prepared = False, tr_terminal = False, tr_completed = False, tr_bufferedBytes = 0\<rparr>)"

definition prepare :: "(bytes \<Rightarrow> js_error + bytes) \<Rightarrow> jsstring \<times> jsstring \<Rightarrow> ('z upload_world_scheme, unit) prog" where
  "prepare sha256 f =
     seq (receiver_state tr_checkpoint) (\<lambda>checkpoint.
       seq (lift_sum (safeNumber (nc_nextCiphertextOffset checkpoint))) (\<lambda>checkpointOffset.
         seq (size_of_blob f) (\<lambda>n.
           if n < checkpointOffset then raise (SdkErr integrityFailure)
           else
             seq (unless (n = checkpointOffset) (change_blob f (truncate_request (JInt checkpointOffset)))) (\<lambda>_.
               seq (hashBlobPrefix sha256 f checkpointOffset) (\<lambda>digest.
                 if \<not> equalBytes digest (nc_prefixSha256 checkpoint) then raise (SdkErr integrityFailure)
                 else set_receiver (\<lambda>r. r\<lparr>tr_prepared := True\<rparr>))))))"

section \<open>Packets\<close>

definition overlaps :: "packet \<Rightarrow> packet \<Rightarrow> bool" where
  "overlaps left right \<longleftrightarrow>
     pk_offset left < pk_offset right + int (length (pk_bytes right))
     \<and> pk_offset right < pk_offset left + int (length (pk_bytes left))"

definition receiveData ::
    "(bytes \<Rightarrow> js_error + bytes) \<Rightarrow> int \<Rightarrow> int \<Rightarrow> bytes \<Rightarrow> ('z upload_world_scheme, unit) prog" where
  "receiveData sha256 sequence offset payload =
     seq (receiver_state id) (\<lambda>r.
       let ending = offset + int (length payload);
           repair = map_option pw_missingSequences (tr_pendingWindow r) in
       if length payload = 0
          \<or> int (length payload) > ro_maximumDataPayloadBytes (tr_options r)
          \<or> offset < nc_nextCiphertextOffset (tr_checkpoint r)
          \<or> ending > ro_expectedCiphertextLength (tr_options r)
          \<or> (case repair of Some missing \<Rightarrow> sequence \<notin> set missing | None \<Rightarrow> False)
       then raise (SdkErr protocolFailure)
       else
         seq (lift_sum (sha256 payload)) (\<lambda>digest.
           let metadata = \<lparr>pk_offset = offset, pk_bytes = payload, pk_sha256 = digest\<rparr> in
           case map_of (tr_packets r) sequence of
             Some existing \<Rightarrow>
               if pk_offset existing \<noteq> offset
                  \<or> length (pk_bytes existing) \<noteq> length payload
                  \<or> \<not> equalBytes (pk_sha256 existing) digest
                  \<or> \<not> equalBytes (pk_bytes existing) payload
               then raise (SdkErr integrityFailure) else ret ()
           | None \<Rightarrow>
               if int (length (tr_packets r)) \<ge> ro_maximumWindowPackets (tr_options r)
                  \<or> list_ex (\<lambda>(_, candidate). overlaps candidate metadata) (tr_packets r)
                  \<or> tr_bufferedBytes r + int (length payload) + 80 > MAXIMUM_QUEUED_BYTES
               then raise (SdkErr protocolFailure)
               else set_receiver (\<lambda>r. r\<lparr>tr_packets := tr_packets r @ [(sequence, metadata)],
                      tr_bufferedBytes := tr_bufferedBytes r + int (length payload) + 80\<rparr>)))"

section \<open>The end of a window\<close>

text \<open>
  A boundary without its transport session: \<open>receive\<close> has compared that with the session of the receiver, so it is the
  same in all of them.
\<close>

definition sameWindow :: "window_end \<Rightarrow> window_end \<Rightarrow> bool" where
  "sameWindow left right \<longleftrightarrow>
     we_windowIndex left = we_windowIndex right
     \<and> we_firstSequence left = we_firstSequence right
     \<and> we_lastSequence left = we_lastSequence right
     \<and> we_nextCiphertextOffset left = we_nextCiphertextOffset right
     \<and> we_checkpointRevision left = we_checkpointRevision right
     \<and> equalBytes (we_prefixSha256 left) (we_prefixSha256 right)"

text \<open>The loop over the sequence numbers up to the first one that is missing.\<close>

fun contiguous :: "(int \<times> packet) list \<Rightarrow> int list \<Rightarrow> int \<Rightarrow> int \<Rightarrow> js_error + int \<times> int" where
  "contiguous packets [] offset highest = Inr (offset, highest)"
| "contiguous packets (s # rest) offset highest =
     (case map_of packets s of
        None \<Rightarrow> Inr (offset, highest)
      | Some p \<Rightarrow>
          if pk_offset p \<noteq> offset then Inl (SdkErr integrityFailure)
          else contiguous packets rest (offset + int (length (pk_bytes p))) s)"

definition prospective_chunk :: "int \<Rightarrow> bytes \<Rightarrow> bytes \<Rightarrow> js_error + bytes \<times> bool" where
  "prospective_chunk prefixLength chunk fed =
     (if int (length fed) + int (length chunk) > prefixLength
      then rbind (safeNumber (int (length fed))) (\<lambda>n.
        let remaining = prefixLength - n in
        Inr (if remaining > 0 then fed @ take (nat remaining) chunk else fed, False))
      else Inr (fed @ chunk, True))"

fun feed_packets :: "(int \<times> packet) list \<Rightarrow> int list \<Rightarrow> bytes \<Rightarrow> bytes" where
  "feed_packets packets [] fed = fed"
| "feed_packets packets (s # rest) fed =
     (case map_of packets s of None \<Rightarrow> fed | Some p \<Rightarrow> feed_packets packets rest (fed @ pk_bytes p))"

definition hashProspectivePrefix ::
    "(bytes \<Rightarrow> js_error + bytes) \<Rightarrow> jsstring \<times> jsstring \<Rightarrow> int \<Rightarrow> int \<Rightarrow> ('z upload_world_scheme, bytes) prog" where
  "hashProspectivePrefix sha256 f firstSequence highestSequence =
     seq (receiver_state id) (\<lambda>r.
       seq (lift_sum (safeNumber (nc_nextCiphertextOffset (tr_checkpoint r)))) (\<lambda>prefixLength.
         seq (stream_while f (prospective_chunk prefixLength) []) (\<lambda>fed.
           if int (length fed) \<noteq> prefixLength then raise (SdkErr integrityFailure)
           else lift_sum (sha256 (feed_packets (tr_packets r) [firstSequence..highestSequence] fed)))))"

text \<open>The loop of \<open>flushWindow\<close>.\<close>

fun flush_packets :: "jsstring \<times> jsstring \<Rightarrow> (int \<times> packet) list \<Rightarrow> int list \<Rightarrow> int \<Rightarrow> ('z upload_world_scheme, unit) prog" where
  "flush_packets f packets [] offset = ret ()"
| "flush_packets f packets (s # rest) offset =
     (case map_of packets s of
        None \<Rightarrow> raise (SdkErr integrityFailure)
      | Some p \<Rightarrow>
          seq (lift_sum (safeNumber (pk_offset p))) (\<lambda>o'.
            if o' \<noteq> offset then raise (SdkErr integrityFailure)
            else
              seq (change_blob f (write_request (JInt offset) (Some (pk_bytes p)))) (\<lambda>_.
                flush_packets f packets rest (offset + int (length (pk_bytes p))))))"

definition flushWindow :: "jsstring \<times> jsstring \<Rightarrow> int \<Rightarrow> int \<Rightarrow> ('z upload_world_scheme, unit) prog" where
  "flushWindow f firstSequence lastSequence =
     seq (receiver_state id) (\<lambda>r.
       seq (lift_sum (safeNumber (nc_nextCiphertextOffset (tr_checkpoint r)))) (\<lambda>offset.
         flush_packets f (tr_packets r) [firstSequence..lastSequence] offset))"

datatype receiver_event =
    Window_staged native_checkpoint "int list"
  | Completed bytes v2_evidence

definition window_acceptable :: "receiver \<Rightarrow> window_end \<Rightarrow> bool" where
  "window_acceptable r frame \<longleftrightarrow>
     (case tr_pendingWindow r of Some pending \<Rightarrow> sameWindow (pw_boundary pending) frame | None \<Rightarrow> True)
     \<and> we_firstSequence frame \<le> we_lastSequence frame
     \<and> (case nc_highestContiguousSequence (tr_checkpoint r) of
          None \<Rightarrow> True | Some previous \<Rightarrow> previous < 0xffffffff \<and> we_firstSequence frame = previous + 1)
     \<and> we_checkpointRevision frame > nc_revision (tr_checkpoint r)
     \<and> we_nextCiphertextOffset frame > nc_nextCiphertextOffset (tr_checkpoint r)
     \<and> we_nextCiphertextOffset frame \<le> ro_expectedCiphertextLength (tr_options r)
     \<and> length (we_prefixSha256 frame) = 32
     \<and> we_lastSequence frame - we_firstSequence frame < ro_maximumWindowPackets (tr_options r)
     \<and> list_all (\<lambda>(sequence, _). we_firstSequence frame \<le> sequence \<and> sequence \<le> we_lastSequence frame) (tr_packets r)"

definition missing_sequences :: "(int \<times> packet) list \<Rightarrow> window_end \<Rightarrow> int list" where
  "missing_sequences packets frame =
     filter (\<lambda>sequence. map_of packets sequence = None) [we_firstSequence frame..we_lastSequence frame]"

definition boundary_checkpoint :: "window_end \<Rightarrow> native_checkpoint" where
  "boundary_checkpoint frame =
     \<lparr>nc_revision = we_checkpointRevision frame, nc_nextCiphertextOffset = we_nextCiphertextOffset frame,
      nc_prefixSha256 = we_prefixSha256 frame, nc_highestContiguousSequence = Some (we_lastSequence frame)\<rparr>"

text \<open>The last part of \<open>receiveWindowEnd\<close>: a complete window is compared with its boundary and written.\<close>

definition note_window ::
    "window_end \<Rightarrow> int list \<Rightarrow> int \<Rightarrow> int \<Rightarrow> bytes \<Rightarrow> ('z upload_world_scheme, receiver_event) prog" where
  "note_window frame missing contiguousOffset highest contiguousSha256 =
     seq (set_receiver (\<lambda>r. r\<lparr>tr_pendingWindow := Some \<lparr>pw_boundary = frame,
           pw_checkpoint = boundary_checkpoint frame, pw_missingSequences = missing,
           pw_highestContiguousSequence = highest, pw_contiguousOffset = contiguousOffset,
           pw_contiguousSha256 = contiguousSha256, pw_persisted = False\<rparr>\<rparr>)) (\<lambda>_.
       ret (Window_staged (boundary_checkpoint frame) missing))"

definition stage_window ::
    "jsstring \<times> jsstring \<Rightarrow> window_end \<Rightarrow> int list \<Rightarrow> int \<Rightarrow> int \<Rightarrow> bytes \<Rightarrow> ('z upload_world_scheme, receiver_event) prog" where
  "stage_window f frame missing contiguousOffset highest contiguousSha256 =
     (if missing \<noteq> [] then note_window frame missing contiguousOffset highest contiguousSha256
      else if contiguousOffset \<noteq> we_nextCiphertextOffset frame
              \<or> \<not> equalBytes contiguousSha256 (we_prefixSha256 frame)
      then raise (SdkErr integrityFailure)
      else
        seq (flushWindow f (we_firstSequence frame) (we_lastSequence frame)) (\<lambda>_.
          note_window frame missing contiguousOffset highest contiguousSha256))"

definition receiveWindowEnd ::
    "(bytes \<Rightarrow> js_error + bytes) \<Rightarrow> jsstring \<times> jsstring \<Rightarrow> window_end \<Rightarrow> ('z upload_world_scheme, receiver_event) prog" where
  "receiveWindowEnd sha256 f frame =
     seq (receiver_state id) (\<lambda>r.
       if \<not> window_acceptable r frame then raise (SdkErr protocolFailure)
       else
         let missing = missing_sequences (tr_packets r) frame in
         if int (length missing) > ro_maximumMissingSequences (tr_options r) then raise (SdkErr protocolFailure)
         else
           seq (lift_sum (contiguous (tr_packets r) [we_firstSequence frame..we_lastSequence frame]
                 (nc_nextCiphertextOffset (tr_checkpoint r))
                 (if we_firstSequence frame = 0 then 0 else we_firstSequence frame - 1))) (\<lambda>(contiguousOffset, highest).
             seq (hashProspectivePrefix sha256 f (we_firstSequence frame) highest) (\<lambda>contiguousSha256.
               stage_window f frame missing contiguousOffset highest contiguousSha256)))"

section \<open>The manifest and the end\<close>

text \<open>The bytes of a chunk one by one, up to the first that contradicts one received before.\<close>

fun write_manifest :: "nat \<Rightarrow> bytes \<Rightarrow> bytes \<times> bytes \<Rightarrow> (bytes \<times> bytes) \<times> bool" where
  "write_manifest index [] arrays = (arrays, True)"
| "write_manifest index (b # rest) (manifest, present) =
     (if index < length present \<and> present ! index \<noteq> 0 \<and> manifest ! index \<noteq> b then ((manifest, present), False)
      else write_manifest (Suc index) rest (manifest[index := b], present[index := 1]))"

definition receiveManifest :: "int \<Rightarrow> int \<Rightarrow> bytes \<Rightarrow> bytes \<Rightarrow> ('z upload_world_scheme, unit) prog" where
  "receiveManifest totalManifestLength chunkOffset manifestSha256 chunk =
     seq (receiver_state id) (\<lambda>r.
       if tr_pendingWindow r \<noteq> None
          \<or> totalManifestLength \<noteq> MANIFEST_LENGTH
          \<or> length manifestSha256 \<noteq> 32
          \<or> length chunk = 0
          \<or> chunkOffset + int (length chunk) > MANIFEST_LENGTH
          \<or> (case tr_manifestSha256 r of Some known \<Rightarrow> \<not> equalBytes known manifestSha256 | None \<Rightarrow> False)
       then raise (SdkErr protocolFailure)
       else
         case write_manifest (nat chunkOffset) chunk (tr_manifest r, tr_manifestPresent r) of
           ((manifest, present), consistent) \<Rightarrow>
             seq (set_receiver (\<lambda>r. r\<lparr>tr_manifest := manifest, tr_manifestPresent := present\<rparr>)) (\<lambda>_.
               if \<not> consistent then raise (SdkErr integrityFailure)
               else set_receiver (\<lambda>r. r\<lparr>tr_manifestSha256 := Some manifestSha256\<rparr>)))"

definition check_end ::
    "(bytes \<Rightarrow> js_error + bytes) \<Rightarrow> receiver \<Rightarrow> int \<Rightarrow> bytes \<Rightarrow> int \<Rightarrow> int \<Rightarrow> int \<Rightarrow> bytes \<Rightarrow> bytes
      \<Rightarrow> ('z upload_world_scheme, receiver_event) prog" where
  "check_end sha256 r n digest finalSequence blockCount ciphertextLength ciphertextSha256 manifestSha256 =
     (if tr_pendingWindow r \<noteq> None
         \<or> tr_packets r \<noteq> []
         \<or> nc_highestContiguousSequence (tr_checkpoint r) \<noteq> Some finalSequence
         \<or> blockCount = 0
         \<or> ciphertextLength \<noteq> ro_expectedCiphertextLength (tr_options r)
         \<or> \<not> equalBytes ciphertextSha256 (ro_expectedCiphertextSha256 (tr_options r))
         \<or> (case tr_manifestSha256 r of None \<Rightarrow> True | Some known \<Rightarrow> \<not> equalBytes manifestSha256 known)
         \<or> list_ex (\<lambda>present. present \<noteq> 1) (tr_manifestPresent r)
      then raise (SdkErr integrityFailure)
      else
        seq (lift_sum (sha256 (tr_manifest r))) (\<lambda>manifestDigest.
          if \<not> equalBytes manifestDigest manifestSha256
             \<or> n \<noteq> ro_expectedCiphertextLength (tr_options r)
             \<or> \<not> equalBytes digest (ro_expectedCiphertextSha256 (tr_options r))
          then raise (SdkErr integrityFailure)
          else
            ret (Completed (tr_manifest r) \<lparr>ev_ciphertextLength = ciphertextLength,
              ev_ciphertextSha256 = ciphertextSha256, ev_manifestLength = MANIFEST_LENGTH,
              ev_manifestSha256 = manifestSha256, ev_blockCount = blockCount\<rparr>)))"

definition receiveEof ::
    "(bytes \<Rightarrow> js_error + bytes) \<Rightarrow> jsstring \<times> jsstring \<Rightarrow> int \<Rightarrow> int \<Rightarrow> int \<Rightarrow> bytes \<Rightarrow> bytes
      \<Rightarrow> ('z upload_world_scheme, receiver_event) prog" where
  "receiveEof sha256 f finalSequence blockCount ciphertextLength ciphertextSha256 manifestSha256 =
     seq (size_of_blob f) (\<lambda>n.
       seq (hashBlobPrefix sha256 f n) (\<lambda>digest.
         seq (receiver_state id) (\<lambda>r.
           check_end sha256 r n digest finalSequence blockCount ciphertextLength ciphertextSha256 manifestSha256)))"

section \<open>One frame\<close>

definition receive_frame ::
    "(bytes \<Rightarrow> js_error + bytes) \<Rightarrow> jsstring \<times> jsstring \<Rightarrow> v2_frame \<Rightarrow> ('z upload_world_scheme, receiver_event option) prog" where
  "receive_frame sha256 f frame =
     (case frame of
        F_data sequence offset payload \<Rightarrow> seq (receiveData sha256 sequence offset payload) (\<lambda>_. ret None)
      | F_window_end windowIndex firstSequence lastSequence nextCiphertextOffset prefixSha256 checkpointRevision \<Rightarrow>
          seq (receiveWindowEnd sha256 f \<lparr>we_windowIndex = windowIndex, we_firstSequence = firstSequence,
                 we_lastSequence = lastSequence, we_nextCiphertextOffset = nextCiphertextOffset,
                 we_prefixSha256 = prefixSha256, we_checkpointRevision = checkpointRevision\<rparr>) (\<lambda>event.
            ret (Some event))
      | F_manifest_chunk totalManifestLength chunkOffset manifestSha256 chunk \<Rightarrow>
          seq (receiveManifest totalManifestLength chunkOffset manifestSha256 chunk) (\<lambda>_. ret None)
      | F_eof finalSequence blockCount ciphertextLength ciphertextSha256 manifestSha256 \<Rightarrow>
          seq (receiveEof sha256 f finalSequence blockCount ciphertextLength ciphertextSha256 manifestSha256) (\<lambda>event.
            seq (set_receiver (\<lambda>r. r\<lparr>tr_completed := True\<rparr>)) (\<lambda>_. ret (Some event)))
      | F_error result failedType revision \<Rightarrow> raise (SdkErr (protocolStatus result))
      | _ \<Rightarrow> raise (SdkErr protocolFailure))"

definition receive ::
    "(bytes \<Rightarrow> js_error + bytes) \<Rightarrow> jsstring \<times> jsstring \<Rightarrow> v2_transfer_frame
      \<Rightarrow> ('z upload_world_scheme, receiver_event option) prog" where
  "receive sha256 f frame =
     seq (receiver_state id) (\<lambda>r.
       if \<not> tr_prepared r \<or> tr_terminal r \<or> tr_completed r then raise (SdkErr protocolFailure)
       else if vc_transportSessionId (fst frame) \<noteq> ro_transportSessionId (tr_options r)
       then seq (set_receiver (\<lambda>r. r\<lparr>tr_terminal := True\<rparr>)) (\<lambda>_. raise (SdkErr identityFailure))
       else
         catching (receive_frame sha256 f (snd frame)) (\<lambda>e.
           seq (set_receiver (\<lambda>r. r\<lparr>tr_terminal := True\<rparr>)) (\<lambda>_. raise (SdkErr (normalizeHostError e)))))"

section \<open>Acknowledgements\<close>

definition acknowledgement :: "receiver \<Rightarrow> pending_window \<Rightarrow> int \<Rightarrow> int \<Rightarrow> bytes \<Rightarrow> int \<Rightarrow> int list \<Rightarrow> v2_transfer_frame" where
  "acknowledgement r pending highestContiguousSequence nextCiphertextOffset prefixSha256 checkpointRevision missingSequences =
     (\<lparr>vc_flags = 0, vc_transportSessionId = ro_transportSessionId (tr_options r)\<rparr>,
      F_window_ack (we_windowIndex (pw_boundary pending)) highestContiguousSequence nextCiphertextOffset prefixSha256
        checkpointRevision missingSequences)"

definition repairAcknowledgement :: "int list \<Rightarrow> ('z upload_world_scheme, v2_transfer_frame) prog" where
  "repairAcknowledgement missingSequences =
     seq (receiver_state id) (\<lambda>r.
       case tr_pendingWindow r of
         None \<Rightarrow> raise (SdkErr protocolFailure)
       | Some pending \<Rightarrow>
           if pw_missingSequences pending = [] \<or> \<not> equalNumbers (pw_missingSequences pending) missingSequences
           then raise (SdkErr protocolFailure)
           else ret (acknowledgement r pending (pw_highestContiguousSequence pending) (pw_contiguousOffset pending)
                  (pw_contiguousSha256 pending) (nc_revision (tr_checkpoint r)) missingSequences))"

definition checkpointDidPersist :: "native_checkpoint \<Rightarrow> ('z upload_world_scheme, unit) prog" where
  "checkpointDidPersist checkpoint =
     seq (receiver_state id) (\<lambda>r.
       case tr_pendingWindow r of
         None \<Rightarrow> raise (SdkErr protocolFailure)
       | Some pending \<Rightarrow>
           if pw_missingSequences pending \<noteq> [] \<or> \<not> sameCheckpoint (pw_checkpoint pending) checkpoint
           then raise (SdkErr protocolFailure)
           else set_receiver (\<lambda>r. r\<lparr>tr_pendingWindow := Some (pending\<lparr>pw_persisted := True\<rparr>)\<rparr>))"

definition windowAcknowledgement :: "native_checkpoint \<Rightarrow> ('z upload_world_scheme, v2_transfer_frame) prog" where
  "windowAcknowledgement checkpoint =
     seq (receiver_state id) (\<lambda>r.
       case tr_pendingWindow r of
         None \<Rightarrow> raise (SdkErr protocolFailure)
       | Some pending \<Rightarrow>
           if pw_missingSequences pending \<noteq> [] \<or> \<not> sameCheckpoint (pw_checkpoint pending) checkpoint
              \<or> \<not> pw_persisted pending
           then raise (SdkErr protocolFailure)
           else
             seq (set_receiver (\<lambda>r. r\<lparr>tr_checkpoint := checkpoint, tr_packets := [], tr_bufferedBytes := 0,
                    tr_pendingWindow := None\<rparr>)) (\<lambda>_.
               ret (acknowledgement r pending (we_lastSequence (pw_boundary pending)) (nc_nextCiphertextOffset checkpoint)
                 (nc_prefixSha256 checkpoint) (nc_revision checkpoint) [])))"

end
