(* ===== verification/ReceiverInvariant.thy ===== *)
theory ReceiverInvariant
  imports UploadReceiver
begin

text \<open>
  What a receiver and its blob satisfy whatever the device sends, the file system reports and the host calls:
  the bytes up to the checkpoint are in the blob and have its digest.
\<close>

section \<open>Programs that leave the blob and the receiver alone\<close>

definition upload_same :: "'z upload_world_scheme \<Rightarrow> 'z upload_world_scheme \<Rightarrow> bool" where
  "upload_same w w' \<longleftrightarrow>
     file_content (vw_files w') = file_content (vw_files w) \<and> vw_receiver w' = vw_receiver w
     \<and> vw_answers w' = vw_answers w \<and> upload_world.more w' = upload_world.more w"

interpretation upl: world_frame upload_same
  by unfold_locales (auto simp: upload_same_def)

lemma upl_run: "upl.quiet prog \<Longrightarrow> upl.stable P \<Longrightarrow> P w \<Longrightarrow> prog w = (r, w') \<Longrightarrow> P w'"
  by (metis snd_conv upl.quiet_def upl.stable_def)

lemma upl_await: "upl.quiet await"
  by (rule upl.quietI) (simp add: await_def upload_same_def Let_def)

lemma upl_blob_op:
  assumes "\<And>env fs. file_content (snd (q env fs)) = file_content fs"
  shows "upl.quiet (blob_op q)"
proof -
  have "upl.quiet (\<lambda>w. case q (va_opfs a) (vw_files w) of (r, fs) \<Rightarrow> (Some (storage_failure r), w\<lparr>vw_files := fs\<rparr>))" for a
  proof (rule upl.quietI)
    fix w :: "'z upload_world_scheme"
    show "upload_same w (snd (case q (va_opfs a) (vw_files w) of (r, fs) \<Rightarrow> (Some (storage_failure r), w\<lparr>vw_files := fs\<rparr>)))"
      using assms [of "va_opfs a" "vw_files w"] by (simp add: upload_same_def split_def)
  qed
  then show ?thesis unfolding blob_op_def by (intro upl.quiet_seq upl_await)
qed

lemma upl_size: "upl.quiet (size_of_blob f)"
  unfolding size_of_blob_def
  by (rule upl_blob_op) (metis blob_size_content(1) ext prod.collapse)

lemma upl_read: "upl.quiet (blob_op (\<lambda>env. blob_read env f o' n))"
  by (rule upl_blob_op) (simp add: blob_read_content fun_eq_iff)

lemma upl_stream_until: "upl.quiet (stream_until f body rs acc)"
proof (induction rs arbitrary: acc)
  case (Cons x rs)
  obtain o' n where "x = (o', n)" by fastforce
  with Cons show ?case by (auto intro!: upl.quiet_intros upl_read)
qed (simp add: upl.quiet_basic)

lemma upl_stream: "upl.quiet (stream_while f body acc)"
  unfolding stream_while_def by (intro upl.quiet_intros upl_size upl_stream_until)

lemma upl_hash: "upl.quiet (hashBlobPrefix sha256 f n)"
  unfolding hashBlobPrefix_def by (intro upl.quiet_intros upl_stream)

lemma upl_state: "upl.quiet (receiver_state g)"
  by (simp add: receiver_state_def upl.quiet_basic)

lemma upl_prospective: "upl.quiet (hashProspectivePrefix sha256 f a b)"
  unfolding hashProspectivePrefix_def by (intro upl.quiet_intros upl_state upl_stream)

lemma upl_check: "upl.quiet (blob_op (\<lambda>env fs. case mutation_check env f job fs of (r, fs1) \<Rightarrow> (Inr r, fs1)))"
  by (rule upl_blob_op) (simp add: split_def mutation_check_content_all fun_eq_iff)

lemmas upl_access = upl_await upl_size upl_stream upl_hash upl_state upl_prospective

section \<open>Reading a prefix\<close>

text \<open>A list of reads that covers a stretch of the blob without gaps.\<close>

fun covering :: "int \<Rightarrow> int \<Rightarrow> (int \<times> int) list \<Rightarrow> bool" where
  "covering k e [] \<longleftrightarrow> k = e"
| "covering k e ((o', n) # rs) \<longleftrightarrow> o' = k \<and> 1 \<le> n \<and> k + n \<le> e \<and> covering (k + n) e rs"

lemma covering_reads: "0 < c \<Longrightarrow> 0 \<le> k \<Longrightarrow> k \<le> e \<Longrightarrow> covering k e (stream_reads c e k)"
proof (induction c e k rule: stream_reads.induct)
  case (1 c e k)
  show ?case
  proof (cases "e \<le> k")
    case False
    with 1 have "covering (k + min c (e - k)) e (stream_reads c e (k + min c (e - k)))" by simp
    with 1 False show ?thesis by (subst stream_reads.simps) (simp add: Let_def)
  qed (use 1 in \<open>subst stream_reads.simps, simp\<close>)
qed

text \<open>A loop body that collects the first \<open>n\<close> bytes, or fails.\<close>

definition collects :: "(bytes \<Rightarrow> bytes \<Rightarrow> js_error + bytes \<times> bool) \<Rightarrow> bytes \<Rightarrow> nat \<Rightarrow> bool" where
  "collects body bs n \<longleftrightarrow> (\<forall>k l fed goes_on. k + l \<le> length bs \<longrightarrow> 1 \<le> l \<longrightarrow>
     body (take l (drop k bs)) (take (min k n) bs) = Inr (fed, goes_on) \<longrightarrow>
       fed = take (min (k + l) n) bs \<and> (\<not> goes_on \<longrightarrow> n \<le> k + l))"

lemma take_more: "take l (drop k bs) = x \<Longrightarrow> take k bs @ x = take (k + l) bs"
  by (metis take_add)

lemma collects_prefix: "collects (prefix_chunk (int n)) bs n"
proof -
  have "fed = take (min (k + l) n) bs \<and> (\<not> goes_on \<longrightarrow> n \<le> k + l)"
    if kl: "k + l \<le> length bs" "1 \<le> l"
      and run: "prefix_chunk (int n) (take l (drop k bs)) (take (min k n) bs) = Inr (fed, goes_on)" for k l fed goes_on
  proof (cases "n \<le> k")
    case True
    with run kl show ?thesis by (auto simp: prefix_chunk_def rbind_eq_Inr safeNumber_def min_def split: if_splits)
  next
    case False
    have e: "nat (int n - int k) = n - k" by arith
    then have "(if int (length c) \<le> int n - int k then c else take (n - k) c) = take (n - k) c" for c :: bytes
      by auto
    with False run kl have "fed = take k bs @ take (n - k) (take l (drop k bs)) \<and> goes_on"
      by (simp add: prefix_chunk_def rbind_eq_Inr safeNumber_def Let_def e split: if_splits)
    moreover have "take k bs @ take (n - k) (take l (drop k bs)) = take (min (k + l) n) bs"
    proof -
      have "min (k + l) n = k + min l (n - k)" using False by auto
      then show ?thesis by (simp add: take_add min.commute)
    qed
    ultimately show ?thesis by simp
  qed
  then show ?thesis by (simp add: collects_def)
qed

lemma collects_prospective: "collects (prospective_chunk (int n)) bs n"
proof -
  have "fed = take (min (k + l) n) bs \<and> (\<not> goes_on \<longrightarrow> n \<le> k + l)"
    if kl: "k + l \<le> length bs" "1 \<le> l"
      and run: "prospective_chunk (int n) (take l (drop k bs)) (take (min k n) bs) = Inr (fed, goes_on)" for k l fed goes_on
  proof (cases "n \<le> k")
    case True
    with run kl show ?thesis
      by (auto simp: prospective_chunk_def rbind_eq_Inr safeNumber_def min_def Let_def split: if_splits)
  next
    case False
    show ?thesis
    proof (cases "k + l \<le> n")
      case True
      with False run kl show ?thesis by (auto simp: prospective_chunk_def min_def take_add split: if_splits)
    next
      case outside: False
      with False run kl have "fed = take k bs @ take (n - k) (take l (drop k bs)) \<and> \<not> goes_on"
        by (auto simp: prospective_chunk_def rbind_eq_Inr safeNumber_def min_def Let_def nat_diff_distrib split: if_splits)
      moreover have "take k bs @ take (n - k) (take l (drop k bs)) = take n bs"
        using False outside by (simp add: min_def take_add [symmetric])
      ultimately show ?thesis using outside by simp
    qed
  qed
  then show ?thesis by (simp add: collects_def)
qed

text \<open>The blob holds \<open>bs\<close>.\<close>

definition blob_holds :: "jsstring \<times> jsstring \<Rightarrow> bytes \<Rightarrow> receiver \<Rightarrow> 'z upload_world_scheme \<Rightarrow> bool" where
  "blob_holds f bs r w \<longleftrightarrow> file_content (vw_files w) f = bs \<and> vw_receiver w = r"

lemma holds_stable [simp]: "upl.stable (blob_holds f bs r)"
  by (auto simp: upl.stable_def upload_same_def blob_holds_def)

text \<open>A triple whose assertion on errors and on a cut is the same.\<close>

abbreviation ensures ::
    "('z upload_world_scheme \<Rightarrow> bool) \<Rightarrow> ('z upload_world_scheme, 'a) prog \<Rightarrow> ('a \<Rightarrow> 'z upload_world_scheme \<Rightarrow> bool)
      \<Rightarrow> ('z upload_world_scheme \<Rightarrow> bool) \<Rightarrow> bool" where
  "ensures P prog Q I \<equiv> triple P prog Q (\<lambda>_. I) I"

lemma keeps_quiet: "upl.quiet prog \<Longrightarrow> upl.stable P \<Longrightarrow> ensures P prog (\<lambda>_. P) P"
  by (rule upl.triple_quiet)

lemma keeps_value:
  assumes "upl.quiet prog" and "upl.stable P"
    and "\<And>w x w'. P w \<Longrightarrow> prog w = (Some (Inr x), w') \<Longrightarrow> R x"
  shows "ensures P prog (\<lambda>x w. P w \<and> R x) P"
proof (rule tripleI)
  fix w r w'
  assume w: "P w" and run: "prog w = (r, w')"
  with upl_run [OF assms(1,2) w run] assms(3) [OF w]
  show "case r of None \<Rightarrow> P w' | Some (Inl e) \<Rightarrow> P w' | Some (Inr x) \<Rightarrow> P w' \<and> R x"
    by (auto split: option.split sum.split)
qed

lemma keeps_fact: "(b \<Longrightarrow> ensures P prog Q I) \<Longrightarrow> ensures (\<lambda>w. P w \<and> b) prog Q I"
  by (auto simp: triple_def)

lemma blob_op_result:
  assumes "blob_op q w = (Some (Inr x), w')"
  shows "\<exists>env. fst (q env (vw_files w)) = Inr x \<and> vw_files w' = snd (q env (vw_files w)) \<and> vw_receiver w' = vw_receiver w"
  by (rule exI [of _ "va_opfs (vw_answers w (vw_time w))"])
    (use assms in \<open>auto simp: blob_op_def seq_def await_def Let_def storage_failure_def split: if_splits prod.splits sum.splits\<close>)

lemma keeps_size: "ensures (blob_holds f bs r) (size_of_blob f) (\<lambda>n w. blob_holds f bs r w \<and> n = int (length bs)) (blob_holds f bs r)"
proof (rule keeps_value [OF upl_size holds_stable])
  fix w w' :: "'a upload_world_scheme" and n
  assume w: "blob_holds f bs r w" and "size_of_blob f w = (Some (Inr n), w')"
  then have "blob_op (\<lambda>env. blob_size env f) w = (Some (Inr n), w')" by (simp add: size_of_blob_def)
  from blob_op_result [OF this] obtain env where "fst (blob_size env f (vw_files w)) = Inr n" by blast
  with blob_size_content(2) [of env f "vw_files w"] w show "n = int (length bs)"
    by (metis blob_holds_def prod.collapse)
qed

lemma keeps_read:
  assumes "k + l \<le> length bs" and "1 \<le> l"
  shows "ensures (blob_holds f bs r) (blob_op (\<lambda>env. blob_read env f (JInt (int k)) (JInt (int l))))
    (\<lambda>chunk w. blob_holds f bs r w \<and> chunk = take l (drop k bs)) (blob_holds f bs r)"
proof (rule keeps_value [OF upl_read holds_stable])
  fix w w' :: "'a upload_world_scheme" and chunk
  assume w: "blob_holds f bs r w"
    and "blob_op (\<lambda>env. blob_read env f (JInt (int k)) (JInt (int l))) w = (Some (Inr chunk), w')"
  from blob_op_result [OF this(2)] obtain env where
    "fst (blob_read env f (JInt (int k)) (JInt (int l)) (vw_files w)) = Inr chunk" by blast
  then have "blob_read env f (JInt (int k)) (JInt (int l)) (vw_files w)
      = (Inr chunk, snd (blob_read env f (JInt (int k)) (JInt (int l)) (vw_files w)))"
    by (metis prod.collapse)
  from read_slice [OF this, of bs] w assms show "chunk = take l (drop k bs)"
    by (simp add: blob_holds_def slice_def)
qed

lemma keeps_until:
  assumes "collects body bs n" and "covering (int k) (int (length bs)) rs"
  shows "ensures (blob_holds f bs r) (stream_until f body rs (take (min k n) bs))
    (\<lambda>fed w. blob_holds f bs r w \<and> fed = take n bs) (blob_holds f bs r)"
  (is "ensures ?P _ ?Q _")
  using assms(2)
proof (induction rs arbitrary: k)
  case Nil
  then show ?case by (auto intro!: triple_ret simp: min_def)
next
  case (Cons x rs)
  from Cons.prems obtain l where x: "x = (int k, int l)" and l: "1 \<le> l" "k + l \<le> length bs"
    and rest: "covering (int (k + l)) (int (length bs)) rs"
  proof -
    obtain o' m where "x = (o', m)" by fastforce
    with Cons.prems that [of "nat m"] show ?thesis by auto
  qed
  have next_: "ensures ?P (case (fed, goes_on) of (acc1, goes_on) \<Rightarrow>
      if goes_on then stream_until f body rs acc1 else ret acc1) ?Q ?P"
    if "body (take l (drop k bs)) (take (min k n) bs) = Inr (fed, goes_on)" for fed goes_on
  proof -
    from assms(1) that l have "fed = take (min (k + l) n) bs \<and> (\<not> goes_on \<longrightarrow> n \<le> k + l)"
      unfolding collects_def by blast
    with Cons.IH [OF rest] show ?thesis by (auto intro!: triple_ret simp: min_def)
  qed
  show ?case
    unfolding x stream_until.simps
  proof (rule triple_seq [OF keeps_read], goal_cases)
    case (3 chunk)
    show ?case
    proof (rule keeps_fact)
      assume chunk: "chunk = take l (drop k bs)"
      show "ensures ?P (seq (lift_sum (body chunk (take (min k n) bs))) (\<lambda>(acc1, goes_on).
          if goes_on then stream_until f body rs acc1 else ret acc1)) ?Q ?P"
      proof (rule triple_seq)
        show "ensures ?P (lift_sum (body chunk (take (min k n) bs)))
            (\<lambda>x w. ?P w \<and> body (take l (drop k bs)) (take (min k n) bs) = Inr x) ?P"
          by (rule triple_lift) (auto simp: chunk)
      next
        fix y
        show "ensures (\<lambda>w. ?P w \<and> body (take l (drop k bs)) (take (min k n) bs) = Inr y)
            (case y of (acc1, goes_on) \<Rightarrow> if goes_on then stream_until f body rs acc1 else ret acc1) ?Q ?P"
          by (rule keeps_fact, cases y) (use next_ in simp)
      qed
    qed
  qed (use l in auto)
qed

lemma keeps_stream:
  assumes "collects body bs n"
  shows "ensures (blob_holds f bs r) (stream_while f body [])
    (\<lambda>fed w. blob_holds f bs r w \<and> fed = take n bs) (blob_holds f bs r)"
  unfolding stream_while_def
proof (rule triple_seq [OF keeps_size], rule keeps_fact, goal_cases)
  case (1 m)
  have "covering (int 0) (int (length bs)) (stream_reads STREAM_CHUNK (int (length bs)) 0)"
    using covering_reads [of STREAM_CHUNK 0 "int (length bs)"] by (simp add: STREAM_CHUNK_def)
  from keeps_until [OF assms this] 1 show ?case by simp
qed

lemma keeps_hash:
  "ensures (blob_holds f bs r) (hashBlobPrefix sha256 f (int n))
    (\<lambda>digest w. blob_holds f bs r w \<and> n \<le> length bs \<and> sha256 (take n bs) = Inr digest) (blob_holds f bs r)"
  unfolding hashBlobPrefix_def
proof (rule triple_seq [OF keeps_stream [OF collects_prefix]], rule keeps_fact, rule triple_if, goal_cases)
  case (1 fed)
  then show ?case by (auto intro: triple_raise)
next
  case (2 fed)
  then show ?case by (auto intro!: triple_lift)
qed

lemma keeps_prospective:
  assumes "0 \<le> nc_nextCiphertextOffset (tr_checkpoint r)"
  shows "ensures (blob_holds f bs r) (hashProspectivePrefix sha256 f a b)
    (\<lambda>digest w. blob_holds f bs r w \<and> nat (nc_nextCiphertextOffset (tr_checkpoint r)) \<le> length bs
       \<and> sha256 (feed_packets (tr_packets r) [a..b] (take (nat (nc_nextCiphertextOffset (tr_checkpoint r))) bs)) = Inr digest)
    (blob_holds f bs r)"
  (is "ensures ?P _ ?Q _")
proof -
  let ?n = "nat (nc_nextCiphertextOffset (tr_checkpoint r))"
  have hash: "ensures ?P (seq (stream_while f (prospective_chunk (int ?n)) []) (\<lambda>fed.
      if int (length fed) \<noteq> int ?n then raise (SdkErr integrityFailure)
      else lift_sum (sha256 (feed_packets (tr_packets r) [a..b] fed)))) ?Q ?P"
  proof (rule triple_seq [OF keeps_stream [OF collects_prospective]], rule keeps_fact, rule triple_if, goal_cases)
    case (1 fed)
    then show ?case by (auto intro: triple_raise)
  next
    case (2 fed)
    then show ?case by (auto intro!: triple_lift simp: min_def split: if_splits)
  qed
  have offset: "ensures ?P (seq (lift_sum (safeNumber (nc_nextCiphertextOffset (tr_checkpoint r)))) (\<lambda>prefixLength.
      seq (stream_while f (prospective_chunk prefixLength) []) (\<lambda>fed.
      if int (length fed) \<noteq> prefixLength then raise (SdkErr integrityFailure)
      else lift_sum (sha256 (feed_packets (tr_packets r) [a..b] fed))))) ?Q ?P"
  proof (rule triple_seq)
    show "ensures ?P (lift_sum (safeNumber (nc_nextCiphertextOffset (tr_checkpoint r))))
        (\<lambda>p w. ?P w \<and> p = int ?n) ?P"
      using assms by (auto intro!: triple_lift simp: safeNumber_def split: if_splits)
  qed (rule keeps_fact, use hash in simp)
  show ?thesis
    unfolding hashProspectivePrefix_def
  proof (rule triple_seq)
    show "ensures ?P (receiver_state id) (\<lambda>x w. ?P w \<and> x = r) ?P"
      by (auto simp: receiver_state_def blob_holds_def intro!: triple_get)
  qed (rule keeps_fact, use offset in simp)
qed

section \<open>Writing\<close>

fun fits :: "mutation \<Rightarrow> bytes \<Rightarrow> bool" where
  "fits (M_truncate n) bs \<longleftrightarrow> n \<le> int (length bs)"
| "fits (M_write offset payload) bs \<longleftrightarrow> offset = int (length bs)"
| "fits M_delete bs \<longleftrightarrow> False"

lemma check_outcome:
  assumes "mutation_check env f job fs = (r, fs')" and "job \<noteq> M_delete"
  shows "r = Inl (Inr ()) \<Longrightarrow> fits job (file_content fs f) \<and> mutation_spec job (file_content fs f) = file_content fs f"
    and "r = Inr () \<Longrightarrow> fits job (file_content fs f) \<and> mutation_pre job (file_content fs f)"
proof -
  obtain h fs1 where h: "blob_size env f fs = (h, fs1)" by fastforce
  note size = blob_size_content(2) [OF h]
  show "r = Inl (Inr ()) \<Longrightarrow> fits job (file_content fs f) \<and> mutation_spec job (file_content fs f) = file_content fs f"
    using assms h size by (cases job) (auto split: sum.splits if_splits)
  show "r = Inr () \<Longrightarrow> fits job (file_content fs f) \<and> mutation_pre job (file_content fs f)"
    using assms h size by (cases job) (auto split: sum.splits if_splits)
qed

lemma commit_outcome:
  assumes "mutation_commit env f job fs = (r, fs')" and "mutation_pre job (file_content fs f)" and "job \<noteq> M_delete"
  shows "file_content fs' f = (case r of Inl e \<Rightarrow> file_content fs f | Inr _ \<Rightarrow> mutation_spec job (file_content fs f))"
proof -
  have "file_content fs' f = mutation_spec job (file_content fs f)" if r: "r = Inr ()"
  proof (cases job)
    case (M_truncate n)
    with assms r withWritable_content(2) [of env f "resized (nat n)" fs r fs'] show ?thesis by (simp add: resized_less)
  next
    case (M_write n payload)
    with assms r withWritable_content(2) [of env f "written (nat n) payload" fs r fs'] show ?thesis
      by (simp add: written_at_end)
  qed (use assms(3) in simp)
  with mutation_commit_content(3) [OF assms(1,2)] show ?thesis by (cases r) auto
qed

text \<open>One step of a change: what the call does to the files is known, and nothing else changes.\<close>

lemma keeps_call:
  assumes "\<And>env fs r fs'. q env fs = (r, fs') \<Longrightarrow> file_content fs f = bs \<Longrightarrow>
      (case r of Inl e \<Rightarrow> file_content fs' f = bs | Inr x \<Rightarrow> R x (file_content fs' f))"
  shows "ensures (blob_holds f bs r) (blob_op q) (\<lambda>x w. \<exists>bs'. blob_holds f bs' r w \<and> R x bs') (blob_holds f bs r)"
proof (rule tripleI)
  fix w v w'
  assume w: "blob_holds f bs r w" and run: "blob_op q w = (v, w')"
  show "case v of None \<Rightarrow> blob_holds f bs r w' | Some (Inl e) \<Rightarrow> blob_holds f bs r w'
      | Some (Inr x) \<Rightarrow> \<exists>bs'. blob_holds f bs' r w' \<and> R x bs'"
  proof (cases "va_stop (vw_answers w (vw_time w))")
    case True
    with run w show ?thesis by (auto simp: blob_op_def seq_def await_def Let_def blob_holds_def)
  next
    case False
    obtain x fs where q: "q (va_opfs (vw_answers w (vw_time w))) (vw_files w) = (x, fs)" by fastforce
    with False run have "v = Some (storage_failure x)" "w' = w\<lparr>vw_time := Suc (vw_time w), vw_files := fs\<rparr>"
      by (auto simp: blob_op_def seq_def await_def Let_def)
    with assms [OF q] w show ?thesis
      by (cases x) (auto simp: storage_failure_def blob_holds_def)
  qed
qed

lemma lift_Inr: "lift_sum (Inr x) = ret x"
  by (rule ext) (simp add: lift_sum_def ret_def)

lemma storage_failure_Inr: "storage_failure (Inr x) = Inr x"
  by (simp add: storage_failure_def)

lemma keeps_change:
  assumes "job \<noteq> M_delete"
  shows "ensures (blob_holds f bs r) (change_blob f (Inr job))
    (\<lambda>_ w. fits job bs \<and> blob_holds f (mutation_spec job bs) r w) (blob_holds f bs r)"
    (is "ensures ?P _ ?Q _")
proof -
  let ?R = "\<lambda>x bs'. bs' = bs \<and> (x = Inl (Inr ()) \<longrightarrow> fits job bs \<and> mutation_spec job bs = bs)
      \<and> (x = Inr () \<longrightarrow> fits job bs \<and> mutation_pre job bs)"
  have check: "ensures ?P (blob_op (\<lambda>env fs. case mutation_check env f job fs of (r, fs1) \<Rightarrow> (Inr r, fs1)))
      (\<lambda>x w. \<exists>bs'. blob_holds f bs' r w \<and> ?R x bs') ?P"
  proof (rule keeps_call)
    fix env fs v fs'
    assume "(case mutation_check env f job fs of (r, fs1) \<Rightarrow> (Inr r, fs1)) = (v, fs')" and bs: "file_content fs f = bs"
    then obtain x where v: "v = Inr x" and x: "mutation_check env f job fs = (x, fs')" by (auto split: prod.splits)
    from check_outcome [OF x assms] mutation_check_content(1) [OF x, of f] bs
    show "case v of Inl e \<Rightarrow> file_content fs' f = bs | Inr x \<Rightarrow> ?R x (file_content fs' f)" by (simp add: v)
  qed
  have commit: "ensures ?P (blob_op (\<lambda>env. mutation_commit env f job))
      (\<lambda>x w. \<exists>bs'. blob_holds f bs' r w \<and> bs' = mutation_spec job bs) ?P" if "mutation_pre job bs"
  proof (rule keeps_call)
    fix env fs v fs'
    assume run: "mutation_commit env f job fs = (v, fs')" and bs: "file_content fs f = bs"
    with that commit_outcome [OF run _ assms]
    show "case v of Inl e \<Rightarrow> file_content fs' f = bs | Inr x \<Rightarrow> file_content fs' f = mutation_spec job bs"
      by (cases v) auto
  qed
  have next_: "ensures (\<lambda>w. \<exists>bs'. blob_holds f bs' r w \<and> ?R x bs')
      (case x of Inl outcome \<Rightarrow> lift_sum (storage_failure outcome) | Inr _ \<Rightarrow> blob_op (\<lambda>env. mutation_commit env f job)) ?Q ?P" for x
  proof (cases x)
    case (Inl outcome)
    then show ?thesis by (cases outcome) (auto intro!: triple_lift simp: storage_failure_def)
  next
    case (Inr u)
    have "ensures (\<lambda>w. ?P w \<and> (fits job bs \<and> mutation_pre job bs)) (blob_op (\<lambda>env. mutation_commit env f job)) ?Q ?P"
      by (rule keeps_fact, rule triple_post [OF commit]) auto
    with Inr show ?thesis by (auto intro: triple_pre)
  qed
  show ?thesis
    unfolding change_blob_def storage_failure_Inr lift_Inr seq_ret by (rule triple_seq [OF check next_])
qed

lemma change_Inl: "change_blob f (Inl e) = raise (StorageErr e)"
  by (intro ext) (simp add: change_blob_def storage_failure_def lift_sum_def raise_def seq_def)

lemma keeps_request:
  assumes "\<And>job. request = Inr job \<Longrightarrow> job \<noteq> M_delete"
  shows "ensures (blob_holds f bs r) (change_blob f request)
    (\<lambda>_ w. \<exists>job. request = Inr job \<and> fits job bs \<and> blob_holds f (mutation_spec job bs) r w) (blob_holds f bs r)"
proof (cases request)
  case (Inl e)
  then show ?thesis by (simp add: change_Inl triple_raise)
next
  case (Inr job)
  with assms show ?thesis by (auto intro: triple_post [OF keeps_change])
qed

lemma keeps_append:
  "ensures (blob_holds f bs r) (change_blob f (write_request (JInt offset) (Some payload)))
    (\<lambda>_ w. offset = int (length bs) \<and> blob_holds f (bs @ payload) r w) (blob_holds f bs r)"
proof (rule triple_post [OF keeps_request])
  fix w job
  assume "\<exists>job. write_request (JInt offset) (Some payload) = Inr job \<and> fits job bs \<and> blob_holds f (mutation_spec job bs) r w"
  then show "offset = int (length bs) \<and> blob_holds f (bs @ payload) r w"
    by (auto simp: write_request_def rbind_eq_Inr validateRange_def validateOffset_def validateLength_def split: if_splits)
qed (auto simp: write_request_def rbind_eq_Inr validateRange_def split: if_splits)

lemma keeps_truncate:
  "ensures (blob_holds f bs r) (change_blob f (truncate_request (JInt n)))
    (\<lambda>_ w. n \<le> int (length bs) \<and> blob_holds f (take (nat n) bs) r w) (blob_holds f bs r)"
proof (rule triple_post [OF keeps_request])
  fix w job
  assume "\<exists>job. truncate_request (JInt n) = Inr job \<and> fits job bs \<and> blob_holds f (mutation_spec job bs) r w"
  then show "n \<le> int (length bs) \<and> blob_holds f (take (nat n) bs) r w"
    by (auto simp: truncate_request_def rbind_eq_Inr validateOffset_def validateLength_def split: if_splits)
qed (auto simp: truncate_request_def rbind_eq_Inr)

text \<open>The packets of a window, in order.\<close>

definition all_present :: "(int \<times> packet) list \<Rightarrow> int list \<Rightarrow> bool" where
  "all_present packets seqs \<longleftrightarrow> (\<forall>s \<in> set seqs. map_of packets s \<noteq> None)"

definition packet_bytes :: "(int \<times> packet) list \<Rightarrow> int list \<Rightarrow> bytes" where
  "packet_bytes packets seqs = concat (map (\<lambda>s. pk_bytes (the (map_of packets s))) seqs)"

lemma feed_all: "all_present packets seqs \<Longrightarrow> feed_packets packets seqs fed = fed @ packet_bytes packets seqs"
  by (induction packets seqs fed rule: feed_packets.induct) (auto simp: all_present_def packet_bytes_def)

lemma contiguous_all:
  "contiguous packets seqs offset highest = Inr (e, h) \<Longrightarrow> all_present packets seqs \<Longrightarrow>
     e = offset + int (length (packet_bytes packets seqs)) \<and> h = (if seqs = [] then highest else last seqs)"
  by (induction packets seqs offset highest rule: contiguous.induct)
    (auto simp: all_present_def packet_bytes_def split: if_splits)

lemma missing_none: "missing_sequences packets frame = [] \<longleftrightarrow>
    all_present packets [we_firstSequence frame..we_lastSequence frame]"
  by (auto simp: missing_sequences_def all_present_def filter_empty_conv)

text \<open>Flushing only appends, and appends exactly the packets when it succeeds.\<close>

definition blob_extends :: "jsstring \<times> jsstring \<Rightarrow> bytes \<Rightarrow> receiver \<Rightarrow> 'z upload_world_scheme \<Rightarrow> bool" where
  "blob_extends f bs r w \<longleftrightarrow> (\<exists>extra. blob_holds f (bs @ extra) r w)"

lemma holds_extends: "blob_holds f (bs @ extra) r w \<Longrightarrow> blob_extends f bs r w"
  by (auto simp: blob_extends_def)

lemma holds_itself: "blob_holds f bs r w \<Longrightarrow> blob_extends f bs r w"
  using holds_extends [of f bs "[]"] by simp

lemma keeps_flush:
  "ensures (blob_holds f (bs @ pre) r) (flush_packets f packets seqs offset)
    (\<lambda>_ w. (seqs \<noteq> [] \<longrightarrow> offset = int (length (bs @ pre))) \<and> all_present packets seqs
       \<and> blob_holds f (bs @ pre @ packet_bytes packets seqs) r w) (blob_extends f bs r)"
  (is "ensures (?P pre) _ (?Q seqs offset pre) ?I")
proof (induction seqs arbitrary: pre offset)
  case Nil
  show ?case by (auto intro!: triple_ret simp: packet_bytes_def all_present_def)
next
  case (Cons s rest)
  show ?case
  proof (cases "map_of packets s")
    case None
    then show ?thesis by (auto intro!: triple_raise holds_extends)
  next
    case (Some p)
    have later: "ensures (\<lambda>w. ?P (pre @ pk_bytes p) w \<and> offset = int (length (bs @ pre)))
        (flush_packets f packets rest (offset + int (length (pk_bytes p)))) (?Q (s # rest) offset pre) ?I"
      by (rule keeps_fact, rule triple_weaken [OF Cons.IH [of "pre @ pk_bytes p"]])
        (auto simp: Some packet_bytes_def all_present_def)
    have stores: "ensures (?P pre) (seq (change_blob f (write_request (JInt offset) (Some (pk_bytes p)))) (\<lambda>_.
        flush_packets f packets rest (offset + int (length (pk_bytes p))))) (?Q (s # rest) offset pre) ?I"
      by (rule triple_seq [OF triple_weaken [OF keeps_append] later]) (auto intro: holds_extends)
    have first: "ensures (?P pre) (seq (lift_sum (safeNumber (pk_offset p))) (\<lambda>o'.
            if o' \<noteq> offset then raise (SdkErr integrityFailure)
            else seq (change_blob f (write_request (JInt offset) (Some (pk_bytes p)))) (\<lambda>_.
                flush_packets f packets rest (offset + int (length (pk_bytes p)))))) (?Q (s # rest) offset pre) ?I"
    proof (rule triple_seq)
      show "ensures (?P pre) (lift_sum (safeNumber (pk_offset p))) (\<lambda>_. ?P pre) ?I"
        by (rule triple_lift) (auto intro: holds_extends)
    qed (intro triple_if stores triple_raise, auto intro: holds_extends)
    then show ?thesis by (simp add: Some)
  qed
qed

section \<open>The checkpoint is covered by the blob\<close>

definition covered :: "(bytes \<Rightarrow> js_error + bytes) \<Rightarrow> bytes \<Rightarrow> native_checkpoint \<Rightarrow> bool" where
  "covered sha256 bs c \<longleftrightarrow>
     0 \<le> nc_nextCiphertextOffset c \<and> nat (nc_nextCiphertextOffset c) \<le> length bs
     \<and> sha256 (take (nat (nc_nextCiphertextOffset c)) bs) = Inr (nc_prefixSha256 c)"

definition exactly :: "(bytes \<Rightarrow> js_error + bytes) \<Rightarrow> bytes \<Rightarrow> native_checkpoint \<Rightarrow> bool" where
  "exactly sha256 bs c \<longleftrightarrow> covered sha256 bs c \<and> length bs = nat (nc_nextCiphertextOffset c)"

lemma covered_extends: "covered sha256 bs c \<Longrightarrow> covered sha256 (bs @ extra) c"
  by (simp add: covered_def)

text \<open>The checkpoint the blob stands for: that of a complete window once it is written, else the last one.\<close>

definition written_checkpoint :: "receiver \<Rightarrow> native_checkpoint" where
  "written_checkpoint r =
     (case tr_pendingWindow r of
        Some p \<Rightarrow> if pw_missingSequences p = [] then pw_checkpoint p else tr_checkpoint r
      | None \<Rightarrow> tr_checkpoint r)"

definition receiver_inv :: "(bytes \<Rightarrow> js_error + bytes) \<Rightarrow> bytes \<Rightarrow> receiver \<Rightarrow> bool" where
  "receiver_inv sha256 bs r \<longleftrightarrow>
     0 \<le> nc_nextCiphertextOffset (tr_checkpoint r)
     \<and> (case tr_pendingWindow r of
          Some p \<Rightarrow> pw_missingSequences p = [] \<longrightarrow>
            all_present (tr_packets r) [we_firstSequence (pw_boundary p)..we_lastSequence (pw_boundary p)]
            \<and> nc_nextCiphertextOffset (tr_checkpoint r) \<le> nc_nextCiphertextOffset (pw_checkpoint p)
        | None \<Rightarrow> True)
     \<and> (tr_prepared r \<longrightarrow>
          covered sha256 bs (tr_checkpoint r) \<and> covered sha256 bs (written_checkpoint r)
          \<and> (\<not> tr_terminal r \<longrightarrow> exactly sha256 bs (written_checkpoint r)))"

text \<open>
  Invariants of the blob and the receiver.  \<open>broken\<close> is what is left when a frame has failed halfway; the receiver
  then takes no more.
\<close>

definition inv_of :: "(bytes \<Rightarrow> js_error + bytes) \<Rightarrow> jsstring \<times> jsstring \<Rightarrow> 'z upload_world_scheme \<Rightarrow> bool" where
  "inv_of sha256 f w \<longleftrightarrow> receiver_inv sha256 (file_content (vw_files w) f) (vw_receiver w)"

definition broken :: "(bytes \<Rightarrow> js_error + bytes) \<Rightarrow> jsstring \<times> jsstring \<Rightarrow> 'z upload_world_scheme \<Rightarrow> bool" where
  "broken sha256 f w \<longleftrightarrow>
     receiver_inv sha256 (file_content (vw_files w) f) ((vw_receiver w)\<lparr>tr_terminal := True\<rparr>)"

lemma inv_broken: "inv_of sha256 f w \<Longrightarrow> broken sha256 f w"
  by (auto simp: inv_of_def broken_def receiver_inv_def written_checkpoint_def split: option.splits)

lemma stable_receiver_inv [simp]: "upl.stable (inv_of sha256 f)" "upl.stable (broken sha256 f)"
  by (auto simp: upl.stable_def upload_same_def inv_of_def broken_def)

lemma written_terminal [simp]: "written_checkpoint (r\<lparr>tr_terminal := b\<rparr>) = written_checkpoint r"
  by (simp add: written_checkpoint_def split: option.split)

lemma broken_extends:
  assumes "receiver_inv sha256 bs r" and "blob_extends f bs r w"
  shows "broken sha256 f w"
  using assms by (auto simp: broken_def blob_extends_def blob_holds_def receiver_inv_def covered_extends split: option.splits)

text \<open>Reasoning about a program from each blob and receiver it may start with.\<close>

lemma keeps_each:
  fixes prog :: "('z upload_world_scheme, 'a) prog"
  assumes "\<And>bs r. receiver_inv sha256 bs r \<Longrightarrow> ensures (blob_holds f bs r) prog Q I"
  shows "ensures (inv_of sha256 f) prog Q I"
  unfolding triple_def
proof (intro allI impI)
  fix w :: "'z upload_world_scheme"
  assume "inv_of sha256 f w"
  then have "receiver_inv sha256 (file_content (vw_files w) f) (vw_receiver w)" by (simp add: inv_of_def)
  from assms [OF this] show "case prog w of (None, w') \<Rightarrow> I w' | (Some (Inl e), w') \<Rightarrow> I w' | (Some (Inr x), w') \<Rightarrow> Q x w'"
    by (simp add: triple_def blob_holds_def)
qed

lemma keeps_state:
  "ensures (blob_holds f bs r) (receiver_state g) (\<lambda>x w. blob_holds f bs r w \<and> x = g r) I"
  by (auto simp: receiver_state_def blob_holds_def intro!: triple_get)

lemma keeps_state_seq:
  "ensures (blob_holds f bs r) (h (g r)) Q I \<Longrightarrow> ensures (blob_holds f bs r) (seq (receiver_state g) h) Q I"
  by (rule triple_seq [OF keeps_state]) (rule keeps_fact, simp)

lemma keeps_set:
  "ensures (blob_holds f bs r) (set_receiver g) (\<lambda>_. blob_holds f bs (g r)) I"
  by (auto simp: set_receiver_def blob_holds_def intro!: triple_modify)

text \<open>A frame that only changes what \<open>receiver_inv\<close> does not look at.\<close>

definition same_place :: "receiver \<Rightarrow> receiver \<Rightarrow> bool" where
  "same_place r r' \<longleftrightarrow> tr_checkpoint r' = tr_checkpoint r \<and> tr_pendingWindow r' = tr_pendingWindow r
     \<and> tr_prepared r' = tr_prepared r \<and> (tr_terminal r \<longrightarrow> tr_terminal r')
     \<and> (\<forall>s. map_of (tr_packets r) s \<noteq> None \<longrightarrow> map_of (tr_packets r') s \<noteq> None)"

lemma same_place_inv: "receiver_inv sha256 bs r \<Longrightarrow> same_place r r' \<Longrightarrow> receiver_inv sha256 bs r'"
  by (auto simp: receiver_inv_def same_place_def written_checkpoint_def all_present_def split: option.splits)

lemma keeps_set_inv:
  assumes "receiver_inv sha256 bs r" and "same_place r (g r)"
  shows "ensures (blob_holds f bs r) (set_receiver g) (\<lambda>_. inv_of sha256 f) I"
  by (rule triple_post [OF keeps_set]) (use same_place_inv [OF assms] in \<open>auto simp: blob_holds_def inv_of_def\<close>)

lemma holds_inv: "receiver_inv sha256 bs r \<Longrightarrow> blob_holds f bs r w \<Longrightarrow> inv_of sha256 f w"
  by (simp add: blob_holds_def inv_of_def)

lemma holds_broken: "receiver_inv sha256 bs r \<Longrightarrow> blob_holds f bs r w \<Longrightarrow> broken sha256 f w"
  by (simp add: holds_inv inv_broken)

lemmas keeps_ends = triple_raise triple_ret triple_lift holds_inv holds_broken

lemma keeps_data: "ensures (inv_of sha256 f) (receiveData sha256 s offset payload) (\<lambda>_. inv_of sha256 f) (broken sha256 f)"
proof (rule keeps_each)
  fix bs r
  assume r: "receiver_inv sha256 bs r"
  show "ensures (blob_holds f bs r) (receiveData sha256 s offset payload) (\<lambda>_. inv_of sha256 f) (broken sha256 f)"
    unfolding receiveData_def Let_def
  proof (rule keeps_state_seq, rule triple_if, goal_cases)
    case 2
    show ?case
    proof (rule triple_seq)
      show "ensures (blob_holds f bs r) (lift_sum (sha256 payload)) (\<lambda>_. blob_holds f bs r) (broken sha256 f)"
        using r by (auto intro!: triple_lift intro: holds_broken)
    next
      fix digest
      show "ensures (blob_holds f bs r) (case map_of (tr_packets (id r)) s of
             Some existing \<Rightarrow>
               if pk_offset existing \<noteq> offset
                  \<or> length (pk_bytes existing) \<noteq> length payload
                  \<or> \<not> equalBytes (pk_sha256 existing) digest
                  \<or> \<not> equalBytes (pk_bytes existing) payload
               then raise (SdkErr integrityFailure) else ret ()
           | None \<Rightarrow>
               if int (length (tr_packets (id r))) \<ge> ro_maximumWindowPackets (tr_options (id r))
                  \<or> list_ex (\<lambda>(_, candidate). overlaps candidate \<lparr>pk_offset = offset, pk_bytes = payload, pk_sha256 = digest\<rparr>) (tr_packets (id r))
                  \<or> tr_bufferedBytes (id r) + int (length payload) + 80 > MAXIMUM_QUEUED_BYTES
               then raise (SdkErr protocolFailure)
               else set_receiver (\<lambda>r. r\<lparr>tr_packets := tr_packets r @ [(s, \<lparr>pk_offset = offset, pk_bytes = payload, pk_sha256 = digest\<rparr>)],
                      tr_bufferedBytes := tr_bufferedBytes r + int (length payload) + 80\<rparr>))
        (\<lambda>_. inv_of sha256 f) (broken sha256 f)"
        using r by (cases "map_of (tr_packets (id r)) s")
          (auto intro!: triple_if triple_raise triple_ret keeps_set_inv intro: holds_inv holds_broken simp: same_place_def map_add_def split: option.split)
    qed
  qed (use r in \<open>auto intro!: triple_raise intro: holds_broken\<close>)
qed

text \<open>A receiver that takes frames.\<close>

definition active :: "receiver \<Rightarrow> bool" where
  "active r \<longleftrightarrow> tr_prepared r \<and> \<not> tr_terminal r"

lemma upto_nonempty: "a \<le> b \<Longrightarrow> [a..b] \<noteq> []"
  by simp

definition staged_receiver :: "receiver \<Rightarrow> window_end \<Rightarrow> int \<Rightarrow> int \<Rightarrow> bytes \<Rightarrow> receiver" where
  "staged_receiver r frame e h digest = r\<lparr>tr_pendingWindow := Some \<lparr>pw_boundary = frame,
     pw_checkpoint = boundary_checkpoint frame,
     pw_missingSequences = missing_sequences (tr_packets r) frame, pw_highestContiguousSequence = h,
     pw_contiguousOffset = e, pw_contiguousSha256 = digest, pw_persisted = False\<rparr>\<rparr>"

text \<open>A window that is complete and has been written is covered.\<close>

lemma staged_complete:
  assumes "receiver_inv sha256 bs r" and "active r" and "window_acceptable r frame"
    and "missing_sequences (tr_packets r) frame = []"
    and "contiguous (tr_packets r) [we_firstSequence frame..we_lastSequence frame] (nc_nextCiphertextOffset (tr_checkpoint r)) h0
      = Inr (we_nextCiphertextOffset frame, h)"
    and "sha256 (feed_packets (tr_packets r) [we_firstSequence frame..h] (take (nat (nc_nextCiphertextOffset (tr_checkpoint r))) bs))
      = Inr (we_prefixSha256 frame)"
    and "nc_nextCiphertextOffset (tr_checkpoint r) = int (length bs)"
  shows "receiver_inv sha256 (bs @ packet_bytes (tr_packets r) [we_firstSequence frame..we_lastSequence frame])
    (staged_receiver r frame e h digest)"
proof -
  let ?s = "[we_firstSequence frame..we_lastSequence frame]"
  have order: "we_firstSequence frame \<le> we_lastSequence frame"
    using assms(3) by (simp add: window_acceptable_def)
  have present: "all_present (tr_packets r) ?s" using assms(4) missing_none by simp
  from contiguous_all [OF assms(5) present] order
  have off: "we_nextCiphertextOffset frame = int (length bs) + int (length (packet_bytes (tr_packets r) ?s))"
    and h: "h = we_lastSequence frame"
    using assms(7) upto_rec2 [OF order] by simp_all
  have sha: "sha256 (bs @ packet_bytes (tr_packets r) ?s) = Inr (we_prefixSha256 frame)"
    using assms(6,7) h feed_all [OF present] by simp
  from assms(1,2) have "covered sha256 bs (tr_checkpoint r)" by (simp add: receiver_inv_def active_def)
  then have "covered sha256 (bs @ packet_bytes (tr_packets r) ?s) (tr_checkpoint r)" by (rule covered_extends)
  with sha off present assms(1,4) show ?thesis
    by (simp add: receiver_inv_def staged_receiver_def written_checkpoint_def exactly_def covered_def nat_add_distrib
        boundary_checkpoint_def
        split: option.splits)
qed

lemma staged_incomplete:
  assumes "receiver_inv sha256 bs r" and "active r" and "window_acceptable r frame"
    and "missing_sequences (tr_packets r) frame \<noteq> []"
  shows "receiver_inv sha256 bs (staged_receiver r frame e h digest)"
proof -
  have "written_checkpoint r = tr_checkpoint r"
  proof (cases "tr_pendingWindow r")
    case (Some p)
    with assms(3) have "we_firstSequence (pw_boundary p) = we_firstSequence frame" "we_lastSequence (pw_boundary p) = we_lastSequence frame"
      by (auto simp: window_acceptable_def sameWindow_def)
    with assms(1,4) Some missing_none [of "tr_packets r" frame] show ?thesis
      by (auto simp: receiver_inv_def written_checkpoint_def)
  qed (simp add: written_checkpoint_def)
  with assms show ?thesis
    by (simp add: receiver_inv_def staged_receiver_def written_checkpoint_def active_def split: option.splits)
qed

text \<open>What an event promises about the blob.\<close>

fun event_holds :: "(bytes \<Rightarrow> js_error + bytes) \<Rightarrow> bytes \<Rightarrow> receiver \<Rightarrow> receiver_event \<Rightarrow> bool" where
  "event_holds sha256 bs r (Window_staged checkpoint missing) \<longleftrightarrow>
     (missing = [] \<longrightarrow> exactly sha256 bs checkpoint)
     \<and> (\<exists>p. tr_pendingWindow r = Some p \<and> pw_checkpoint p = checkpoint \<and> pw_missingSequences p = missing)"
| "event_holds sha256 bs r (Completed manifest evidence) \<longleftrightarrow>
     int (length bs) = ro_expectedCiphertextLength (tr_options r)
     \<and> sha256 bs = Inr (ro_expectedCiphertextSha256 (tr_options r))
     \<and> sha256 manifest = Inr (ev_manifestSha256 evidence)
     \<and> ev_ciphertextLength evidence = int (length bs)
     \<and> ev_ciphertextSha256 evidence = ro_expectedCiphertextSha256 (tr_options r)
     \<and> tr_pendingWindow r = None \<and> exactly sha256 bs (tr_checkpoint r)"

definition event_here :: "(bytes \<Rightarrow> js_error + bytes) \<Rightarrow> jsstring \<times> jsstring \<Rightarrow> receiver_event \<Rightarrow> 'z upload_world_scheme \<Rightarrow> bool" where
  "event_here sha256 f e w \<longleftrightarrow> inv_of sha256 f w \<and> event_holds sha256 (file_content (vw_files w) f) (vw_receiver w) e"

lemma staged_event:
  assumes "receiver_inv sha256 bs (staged_receiver r frame e h digest)" and "active r"
  shows "event_holds sha256 bs (staged_receiver r frame e h digest)
    (Window_staged (boundary_checkpoint frame) (missing_sequences (tr_packets r) frame))"
  using assms by (auto simp: receiver_inv_def active_def staged_receiver_def written_checkpoint_def)

lemma keeps_flushWindow:
  assumes r: "receiver_inv sha256 bs r" and "a \<le> b"
  shows "ensures (blob_holds f bs r) (flushWindow f a b)
    (\<lambda>_ w. blob_holds f (bs @ packet_bytes (tr_packets r) [a..b]) r w
       \<and> nc_nextCiphertextOffset (tr_checkpoint r) = int (length bs)) (broken sha256 f)"
  unfolding flushWindow_def
proof (rule keeps_state_seq, simp only: id_apply, rule triple_seq)
  show "ensures (blob_holds f bs r) (lift_sum (safeNumber (nc_nextCiphertextOffset (tr_checkpoint r))))
      (\<lambda>x w. blob_holds f bs r w \<and> x = nc_nextCiphertextOffset (tr_checkpoint r)) (broken sha256 f)"
    by (rule triple_lift) (use holds_broken [OF r, where f = f] in \<open>auto simp: safeNumber_def split: if_splits\<close>)
next
  fix x
  show "ensures (\<lambda>w. blob_holds f bs r w \<and> x = nc_nextCiphertextOffset (tr_checkpoint r)) (flush_packets f (tr_packets r) [a..b] x)
    (\<lambda>_ w. blob_holds f (bs @ packet_bytes (tr_packets r) [a..b]) r w
       \<and> nc_nextCiphertextOffset (tr_checkpoint r) = int (length bs)) (broken sha256 f)"
    by (rule keeps_fact, rule triple_weaken [OF keeps_flush [where pre = "[]"]])
      (use assms(2) broken_extends [OF r, where f = f] in auto)
qed

lemma keeps_stage:
  assumes r: "receiver_inv sha256 bs r" and active: "active r" and acc: "window_acceptable r frame"
    and run: "contiguous (tr_packets r) [we_firstSequence frame..we_lastSequence frame]
      (nc_nextCiphertextOffset (tr_checkpoint r)) h0 = Inr (e, h)"
    and sha: "sha256 (feed_packets (tr_packets r) [we_firstSequence frame..h]
      (take (nat (nc_nextCiphertextOffset (tr_checkpoint r))) bs)) = Inr digest"
  shows "ensures (blob_holds f bs r) (stage_window f frame (missing_sequences (tr_packets r) frame) e h digest)
    (event_here sha256 f) (broken sha256 f)"
proof -
  let ?missing = "missing_sequences (tr_packets r) frame"
  have finish: "ensures (blob_holds f bs' r) (note_window frame ?missing e h digest) (event_here sha256 f) (broken sha256 f)"
    if inv: "receiver_inv sha256 bs' (staged_receiver r frame e h digest)" for bs'
    unfolding note_window_def
    by (rule triple_seq [OF keeps_set], rule triple_ret)
      (use inv staged_event [OF inv active] in \<open>simp add: event_here_def inv_of_def blob_holds_def staged_receiver_def\<close>)
  show ?thesis
    unfolding stage_window_def
  proof (intro triple_if, goal_cases)
    case 1
    show ?case by (rule finish [OF staged_incomplete [OF r active acc 1]])
  next
    case 2
    show ?case using holds_broken [OF r, where f = f] by (auto intro: triple_raise)
  next
    case 3
    have order: "we_firstSequence frame \<le> we_lastSequence frame" using acc by (simp add: window_acceptable_def)
    show ?case
      by (intro triple_seq [OF keeps_flushWindow [OF r order]] keeps_fact finish)
        (use staged_complete [OF r active acc] run sha 3 in auto)
  qed
qed

lemma keeps_window:
  assumes r: "receiver_inv sha256 bs r" and active: "active r"
  shows "ensures (blob_holds f bs r) (receiveWindowEnd sha256 f frame) (event_here sha256 f) (broken sha256 f)"
    (is "ensures ?P _ ?Q ?I")
  unfolding receiveWindowEnd_def Let_def
proof (rule keeps_state_seq, simp only: id_apply, intro triple_if, goal_cases)
  case 3
  then have acc: "window_acceptable r frame" by simp
  let ?run = "contiguous (tr_packets r) [we_firstSequence frame..we_lastSequence frame] (nc_nextCiphertextOffset (tr_checkpoint r))
    (if we_firstSequence frame = 0 then 0 else we_firstSequence frame - 1)"
  have pos: "0 \<le> nc_nextCiphertextOffset (tr_checkpoint r)" using r by (simp add: receiver_inv_def)
  have broken: "?P w \<Longrightarrow> ?I w" for w using r holds_broken by blast
  show ?case
  proof (rule triple_seq)
    show "ensures ?P (lift_sum ?run) (\<lambda>x w. ?P w \<and> ?run = Inr x) ?I"
      by (rule triple_lift) (auto intro: broken)
  next
    fix x :: "int \<times> int"
    obtain e h where x: "x = (e, h)" by fastforce
    show "ensures (\<lambda>w. ?P w \<and> ?run = Inr x)
      (case x of (contiguousOffset, highest) \<Rightarrow> seq (hashProspectivePrefix sha256 f (we_firstSequence frame) highest)
        (stage_window f frame (missing_sequences (tr_packets r) frame) contiguousOffset highest)) ?Q ?I"
      unfolding x prod.case
    proof (rule keeps_fact, rule triple_seq)
      show "ensures ?P (hashProspectivePrefix sha256 f (we_firstSequence frame) h)
        (\<lambda>digest w. ?P w \<and> sha256 (feed_packets (tr_packets r) [we_firstSequence frame..h]
           (take (nat (nc_nextCiphertextOffset (tr_checkpoint r))) bs)) = Inr digest) ?I"
        by (rule triple_weaken [OF keeps_prospective [OF pos]]) (auto intro: broken)
    qed (rule keeps_fact, rule keeps_stage [OF r active acc], assumption+)
  qed
qed (use holds_broken [OF r, where f = f] in \<open>auto intro: triple_raise\<close>)

lemma keeps_manifest:
  assumes r: "receiver_inv sha256 bs r"
  shows "ensures (blob_holds f bs r) (receiveManifest len offset digest chunk) (\<lambda>_. inv_of sha256 f) (broken sha256 f)"
  unfolding receiveManifest_def
proof (rule keeps_state_seq, simp only: id_apply, intro triple_if, goal_cases)
  case 2
  obtain manifest present consistent where w: "write_manifest (nat offset) chunk (tr_manifest r, tr_manifestPresent r)
      = ((manifest, present), consistent)" by (metis prod.collapse)
  have noted: "receiver_inv sha256 bs (r\<lparr>tr_manifest := manifest, tr_manifestPresent := present\<rparr>)"
    using same_place_inv [OF r] by (simp add: same_place_def)
  show ?case
    unfolding w prod.case
  proof (rule triple_seq [OF keeps_set], intro triple_if, goal_cases)
    case 1
    show ?case using holds_broken [OF noted, where f = f] by (auto intro: triple_raise)
  next
    case 2
    show ?case by (rule keeps_set_inv [OF noted]) (simp add: same_place_def)
  qed
qed (use holds_broken [OF r, where f = f] in \<open>auto intro: triple_raise\<close>)

lemma keeps_check_end:
  assumes r: "receiver_inv sha256 bs r" and active: "active r" and sha: "sha256 bs = Inr blobDigest"
  shows "ensures (blob_holds f bs r) (check_end sha256 r (int (length bs)) blobDigest final blocks len digest manifestDigest)
    (\<lambda>e w. blob_holds f bs r w \<and> event_holds sha256 bs r e) (broken sha256 f)"
    (is "ensures ?P _ ?Q ?I")
  unfolding check_end_def
proof (rule triple_if, goal_cases)
  have broken: "?P w \<Longrightarrow> ?I w" for w using r holds_broken by blast
  {
    case 1
    show ?case by (auto intro: triple_raise broken)
  next
    case 2
    then have none: "tr_pendingWindow r = None" and len: "len = ro_expectedCiphertextLength (tr_options r)"
      and digest: "digest = ro_expectedCiphertextSha256 (tr_options r)" by auto
    from none r active have exact: "exactly sha256 bs (tr_checkpoint r)"
      by (simp add: receiver_inv_def active_def written_checkpoint_def)
    show ?case
    proof (rule triple_seq)
      show "ensures ?P (lift_sum (sha256 (tr_manifest r))) (\<lambda>x w. ?P w \<and> sha256 (tr_manifest r) = Inr x) ?I"
        by (rule triple_lift) (auto intro: broken)
    qed (rule keeps_fact, use none len digest exact sha in \<open>auto intro!: triple_raise triple_ret intro: broken\<close>)
  }
qed

lemma keeps_eof:
  assumes r: "receiver_inv sha256 bs r" and active: "active r"
  shows "ensures (blob_holds f bs r) (receiveEof sha256 f final blocks len digest manifestDigest)
    (\<lambda>e w. blob_holds f bs r w \<and> event_holds sha256 bs r e) (broken sha256 f)"
    (is "ensures ?P _ ?Q ?I")
proof -
  have broken: "?P w \<Longrightarrow> ?I w" for w using r holds_broken by blast
  have sized: "ensures ?P (seq (hashBlobPrefix sha256 f (int (length bs))) (\<lambda>blobDigest.
         seq (receiver_state id) (\<lambda>r. check_end sha256 r (int (length bs)) blobDigest final blocks len digest manifestDigest)))
      ?Q ?I"
  proof (rule triple_seq)
    show "ensures ?P (hashBlobPrefix sha256 f (int (length bs))) (\<lambda>d w. ?P w \<and> sha256 bs = Inr d) ?I"
      by (rule triple_weaken [OF keeps_hash]) (auto intro: broken)
  qed (rule keeps_fact, rule keeps_state_seq, simp add: keeps_check_end [OF r active])
  show ?thesis
    unfolding receiveEof_def
  proof (rule triple_seq)
    show "ensures ?P (size_of_blob f) (\<lambda>n w. ?P w \<and> n = int (length bs)) ?I"
      by (rule triple_weaken [OF keeps_size]) (auto intro: broken)
  qed (rule keeps_fact, use sized in simp)
qed

definition outcome_here :: "(bytes \<Rightarrow> js_error + bytes) \<Rightarrow> jsstring \<times> jsstring \<Rightarrow> receiver_event option \<Rightarrow> 'z upload_world_scheme \<Rightarrow> bool" where
  "outcome_here sha256 f e w \<longleftrightarrow> (case e of None \<Rightarrow> inv_of sha256 f w | Some e \<Rightarrow> event_here sha256 f e w)"

lemma event_completed:
  "event_holds sha256 bs r e \<Longrightarrow> event_holds sha256 bs (r\<lparr>tr_completed := b\<rparr>) e"
  by (cases e) auto

lemma completed_inv: "receiver_inv sha256 bs r \<Longrightarrow> receiver_inv sha256 bs (r\<lparr>tr_completed := b\<rparr>)"
  by (erule same_place_inv) (simp add: same_place_def)

lemma keeps_frame:
  assumes r: "receiver_inv sha256 bs r" and active: "active r"
  shows "ensures (blob_holds f bs r) (receive_frame sha256 f frame) (outcome_here sha256 f) (broken sha256 f)"
    (is "ensures ?P _ ?Q ?I")
proof -
  have fails: "ensures ?P (raise e) ?Q ?I" for e using holds_broken [OF r, where f = f] by (auto intro: triple_raise)
  have inv: "blob_holds f bs r w \<Longrightarrow> inv_of sha256 f w" for w using holds_inv [OF r] .
  show ?thesis
  proof (cases frame)
    case (F_data s offset payload)
    then show ?thesis
      by (auto simp: receive_frame_def outcome_here_def intro!: triple_seq [OF triple_pre [OF keeps_data]] triple_ret inv)
  next
    case (F_window_end i a b offset digest revision)
    then show ?thesis
      by (auto simp: receive_frame_def outcome_here_def intro!: triple_seq [OF keeps_window [OF r active]] triple_ret)
  next
    case (F_manifest_chunk len offset digest chunk)
    then show ?thesis
      by (auto simp: receive_frame_def outcome_here_def intro!: triple_seq [OF keeps_manifest [OF r]] triple_ret)
  next
    case (F_eof final blocks len digest manifestDigest)
    have "ensures ?P (receive_frame sha256 f frame) ?Q ?I"
      unfolding F_eof receive_frame_def v2_frame.case
    proof (rule triple_seq [OF keeps_eof [OF r active]], rule keeps_fact, rule triple_seq [OF keeps_set], rule triple_ret)
      fix e w
      assume "event_holds sha256 bs r e" and "blob_holds f bs (r\<lparr>tr_completed := True\<rparr>) w"
      with completed_inv [OF r] event_completed show "outcome_here sha256 f (Some e) w"
        by (auto simp: outcome_here_def event_here_def inv_of_def blob_holds_def)
    qed
    then show ?thesis .
  qed (auto simp: receive_frame_def fails)
qed

text \<open>After a frame that failed the receiver is terminal, and what is left is again the invariant.\<close>

lemma set_terminal_inv:
  "triple (broken sha256 f) (seq (set_receiver (\<lambda>r. r\<lparr>tr_terminal := True\<rparr>)) (\<lambda>_. raise e)) Q
     (\<lambda>_. inv_of sha256 f) (broken sha256 f)"
  by (auto simp: triple_def seq_def set_receiver_def modify_def raise_def broken_def inv_of_def)

text \<open>Whatever a frame does, the invariant holds afterwards; only a run that is cut off leaves less.\<close>

lemma receive_triple:
  "triple (inv_of sha256 f :: 'z upload_world_scheme \<Rightarrow> bool) (receive sha256 f frame) (outcome_here sha256 f) (\<lambda>_. inv_of sha256 f) (broken sha256 f)"
  unfolding triple_def
proof (intro allI impI)
  fix w :: "'z upload_world_scheme"
  assume w: "inv_of sha256 f w"
  let ?r = "vw_receiver w" and ?bs = "file_content (vw_files w) f"
  have inv: "receiver_inv sha256 ?bs ?r" using w by (simp add: inv_of_def)
  have holds: "blob_holds f ?bs ?r w" by (simp add: blob_holds_def)
  consider "\<not> tr_prepared ?r \<or> tr_terminal ?r \<or> tr_completed ?r"
    | "active ?r" "\<not> tr_completed ?r" "vc_transportSessionId (fst frame) \<noteq> ro_transportSessionId (tr_options ?r)"
    | "active ?r" "\<not> tr_completed ?r" "vc_transportSessionId (fst frame) = ro_transportSessionId (tr_options ?r)"
    unfolding active_def by blast
  then show "case receive sha256 f frame w of (None, w') \<Rightarrow> broken sha256 f w'
      | (Some (Inl e), w') \<Rightarrow> inv_of sha256 f w' | (Some (Inr x), w') \<Rightarrow> outcome_here sha256 f x w'"
  proof cases
    case 1
    with w show ?thesis by (simp add: receive_def receiver_state_def seq_def get_def raise_def)
  next
    case 2
    then have run: "receive sha256 f frame w = seq (set_receiver (\<lambda>r. r\<lparr>tr_terminal := True\<rparr>)) (\<lambda>_. raise (SdkErr identityFailure)) w"
      by (auto simp: receive_def receiver_state_def seq_def get_def active_def)
    from inv_broken [OF w] run show ?thesis
      by (simp add: seq_def set_receiver_def modify_def raise_def broken_def inv_of_def)
  next
    case 3
    then have run: "receive sha256 f frame w = catching (receive_frame sha256 f (snd frame)) (\<lambda>e.
        seq (set_receiver (\<lambda>r. r\<lparr>tr_terminal := True\<rparr>)) (\<lambda>_. raise (SdkErr (normalizeHostError e)))) w"
      by (auto simp: receive_def receiver_state_def seq_def get_def active_def)
    have "triple (blob_holds f ?bs ?r :: 'z upload_world_scheme \<Rightarrow> bool) (catching (receive_frame sha256 f (snd frame)) (\<lambda>e.
        seq (set_receiver (\<lambda>r. r\<lparr>tr_terminal := True\<rparr>)) (\<lambda>_. raise (SdkErr (normalizeHostError e)))))
        (outcome_here sha256 f) (\<lambda>_. inv_of sha256 f) (broken sha256 f)"
      by (rule triple_catching [OF keeps_frame [OF inv 3(1)] set_terminal_inv])
    with holds run show ?thesis by (simp add: triple_def)
  qed
qed

section \<open>Opening and acknowledging\<close>

lemma prepare_triple:
  assumes "0 \<le> nc_nextCiphertextOffset (tr_checkpoint r)"
  shows "ensures (blob_holds f bs r) (prepare sha256 f)
    (\<lambda>_ w. \<exists>bs'. blob_holds f bs' (r\<lparr>tr_prepared := True\<rparr>) w \<and> exactly sha256 bs' (tr_checkpoint r)
       \<and> bs' = take (nat (nc_nextCiphertextOffset (tr_checkpoint r))) bs)
    (\<lambda>w. blob_holds f bs r w \<or> nat (nc_nextCiphertextOffset (tr_checkpoint r)) \<le> length bs
       \<and> blob_holds f (take (nat (nc_nextCiphertextOffset (tr_checkpoint r))) bs) r w)"
    (is "ensures ?P _ ?Q ?I")
proof -
  let ?n = "nat (nc_nextCiphertextOffset (tr_checkpoint r))"
  have hashing: "ensures (blob_holds f (take ?n bs) r) (seq (hashBlobPrefix sha256 f (int ?n)) (\<lambda>digest.
      if \<not> equalBytes digest (nc_prefixSha256 (tr_checkpoint r)) then raise (SdkErr integrityFailure)
      else set_receiver (\<lambda>r. r\<lparr>tr_prepared := True\<rparr>))) ?Q ?I" if "?n \<le> length bs"
  proof (rule triple_seq)
    show "ensures (blob_holds f (take ?n bs) r) (hashBlobPrefix sha256 f (int ?n))
        (\<lambda>digest w. blob_holds f (take ?n bs) r w \<and> sha256 (take ?n bs) = Inr digest) ?I"
      by (rule triple_weaken [OF keeps_hash]) (use that in auto)
  next
    fix digest
    show "ensures (\<lambda>w. blob_holds f (take ?n bs) r w \<and> sha256 (take ?n bs) = Inr digest)
        (if \<not> equalBytes digest (nc_prefixSha256 (tr_checkpoint r)) then raise (SdkErr integrityFailure)
         else set_receiver (\<lambda>r. r\<lparr>tr_prepared := True\<rparr>)) ?Q ?I"
    proof (rule keeps_fact, rule triple_if, goal_cases)
      case 2
      then show ?case
        by (intro triple_post [OF keeps_set])
          (use that assms in \<open>auto simp: exactly_def covered_def\<close>)
    qed (use that in \<open>auto intro: triple_raise\<close>)
  qed
  have sized: "ensures ?P (if int (length bs) < int ?n then raise (SdkErr integrityFailure)
      else seq (unless (int (length bs) = int ?n) (change_blob f (truncate_request (JInt (int ?n))))) (\<lambda>_.
        seq (hashBlobPrefix sha256 f (int ?n)) (\<lambda>digest.
          if \<not> equalBytes digest (nc_prefixSha256 (tr_checkpoint r)) then raise (SdkErr integrityFailure)
          else set_receiver (\<lambda>r. r\<lparr>tr_prepared := True\<rparr>)))) ?Q ?I"
  proof (rule triple_if, goal_cases)
    case 2
    show ?case
    proof (rule triple_seq)
      show "ensures ?P (unless (int (length bs) = int ?n) (change_blob f (truncate_request (JInt (int ?n)))))
          (\<lambda>_. blob_holds f (take ?n bs) r) ?I"
        by (rule triple_unless, rule triple_weaken [OF keeps_truncate]) (use assms in \<open>auto simp: nat_eq_iff2\<close>)
    qed (rule hashing, use 2 in linarith)
  qed (auto intro: triple_raise)
  have offset: "ensures ?P (seq (size_of_blob f) (\<lambda>n. if n < int ?n then raise (SdkErr integrityFailure)
      else seq (unless (n = int ?n) (change_blob f (truncate_request (JInt (int ?n))))) (\<lambda>_.
        seq (hashBlobPrefix sha256 f (int ?n)) (\<lambda>digest.
          if \<not> equalBytes digest (nc_prefixSha256 (tr_checkpoint r)) then raise (SdkErr integrityFailure)
          else set_receiver (\<lambda>r. r\<lparr>tr_prepared := True\<rparr>))))) ?Q ?I"
  proof (rule triple_seq)
    show "ensures ?P (size_of_blob f) (\<lambda>n w. ?P w \<and> n = int (length bs)) ?I"
      by (rule triple_weaken [OF keeps_size]) auto
  qed (rule keeps_fact, use sized in simp)
  show ?thesis
    unfolding prepare_def
  proof (rule keeps_state_seq, rule triple_seq)
    show "ensures ?P (lift_sum (safeNumber (nc_nextCiphertextOffset (tr_checkpoint r)))) (\<lambda>x w. ?P w \<and> x = int ?n) ?I"
      using assms by (auto intro!: triple_lift simp: safeNumber_def split: if_splits)
  qed (rule keeps_fact, simp only:, rule offset)
qed

text \<open>What the calls of the host need and do.\<close>

lemma repair_run:
  assumes "repairAcknowledgement missing w = (Some (Inr frame), w')"
  shows "w' = w" and "\<exists>i h e digest revision. snd frame = F_window_ack i h e digest revision missing \<and> missing \<noteq> []"
  using assms
  by (auto simp: repairAcknowledgement_def receiver_state_def seq_def get_def raise_def ret_def acknowledgement_def
      split: option.splits if_splits)

lemma persist_run:
  assumes "checkpointDidPersist c w = (Some (Inr ()), w')"
  obtains p where "tr_pendingWindow (vw_receiver w) = Some p" "pw_missingSequences p = []" "pw_checkpoint p = c"
    "w' = w\<lparr>vw_receiver := (vw_receiver w)\<lparr>tr_pendingWindow := Some (p\<lparr>pw_persisted := True\<rparr>)\<rparr>\<rparr>"
  using assms
  by (auto simp: checkpointDidPersist_def receiver_state_def set_receiver_def modify_def seq_def get_def raise_def
      split: option.splits if_splits)

lemma ack_run:
  assumes "windowAcknowledgement c w = (Some (Inr frame), w')"
  obtains p where "tr_pendingWindow (vw_receiver w) = Some p" "pw_missingSequences p = []" "pw_checkpoint p = c"
    "pw_persisted p"
    "w' = w\<lparr>vw_receiver := (vw_receiver w)\<lparr>tr_checkpoint := c, tr_packets := [], tr_bufferedBytes := 0,
       tr_pendingWindow := None\<rparr>\<rparr>"
    "snd frame = F_window_ack (we_windowIndex (pw_boundary p)) (we_lastSequence (pw_boundary p)) (nc_nextCiphertextOffset c)
       (nc_prefixSha256 c) (nc_revision c) []"
  using assms
  by (auto simp: windowAcknowledgement_def receiver_state_def set_receiver_def modify_def seq_def get_def raise_def ret_def
      acknowledgement_def split: option.splits if_splits)

section \<open>A frame only adds to the blob\<close>

text \<open>The checkpoint stays, and a window that has been persisted is not replaced by another persisted one.\<close>

definition frame_step :: "jsstring \<times> jsstring \<Rightarrow> 'z upload_world_scheme \<Rightarrow> 'z upload_world_scheme \<Rightarrow> bool" where
  "frame_step f w w' \<longleftrightarrow>
     (\<exists>extra. file_content (vw_files w') f = file_content (vw_files w) f @ extra)
     \<and> tr_checkpoint (vw_receiver w') = tr_checkpoint (vw_receiver w)
     \<and> tr_prepared (vw_receiver w') = tr_prepared (vw_receiver w)
     \<and> (tr_pendingWindow (vw_receiver w') = tr_pendingWindow (vw_receiver w)
        \<or> (\<exists>p. tr_pendingWindow (vw_receiver w') = Some p \<and> \<not> pw_persisted p))"

interpretation adds: world_frame "frame_step f" for f
proof
  fix w1 w2 w3 :: "'z upload_world_scheme"
  assume "frame_step f w1 w2" and "frame_step f w2 w3"
  then show "frame_step f w1 w3" unfolding frame_step_def by (metis append.assoc)
qed (simp add: frame_step_def)

lemma same_frame_step: "upload_same w w' \<Longrightarrow> frame_step f w w'"
  by (simp add: upload_same_def frame_step_def)

lemma adds_quiet: "upl.quiet prog \<Longrightarrow> adds.quiet f prog"
  by (metis adds.quietI upl.quiet_def same_frame_step)

lemma adds_set:
  assumes "\<And>r. tr_checkpoint (g r) = tr_checkpoint r \<and> tr_prepared (g r) = tr_prepared r
     \<and> (tr_pendingWindow (g r) = tr_pendingWindow r \<or> (\<exists>p. tr_pendingWindow (g r) = Some p \<and> \<not> pw_persisted p))"
  shows "adds.quiet f (set_receiver g)"
  unfolding set_receiver_def by (rule adds.quiet_modify) (use assms in \<open>simp add: frame_step_def\<close>)

lemma adds_write: "adds.quiet f (change_blob f (write_request (JInt offset) (Some payload)))"
proof (rule adds.quietI)
  fix w :: "'z upload_world_scheme"
  let ?bs = "file_content (vw_files w) f"
  have "triple (blob_holds f ?bs (vw_receiver w) :: 'z upload_world_scheme \<Rightarrow> bool)
      (change_blob f (write_request (JInt offset) (Some payload)))
      (\<lambda>_. frame_step f w) (\<lambda>_. frame_step f w) (frame_step f w)"
    by (rule triple_weaken [OF keeps_append]) (auto simp: blob_holds_def frame_step_def)
  moreover have "blob_holds f ?bs (vw_receiver w) w" by (simp add: blob_holds_def)
  moreover obtain r w' where run: "change_blob f (write_request (JInt offset) (Some payload)) w = (r, w')" by fastforce
  ultimately have "case r of None \<Rightarrow> frame_step f w w' | Some (Inl e) \<Rightarrow> frame_step f w w' | Some (Inr x) \<Rightarrow> frame_step f w w'"
    by (rule tripleD)
  then show "frame_step f w (snd (change_blob f (write_request (JInt offset) (Some payload)) w))"
    unfolding run by (auto split: option.splits sum.splits)
qed

lemma adds_flush: "adds.quiet f (flush_packets f packets seqs offset)"
  by (induction seqs arbitrary: offset) (auto intro!: adds.quiet_intros adds_write split: option.split)

lemma adds_window: "adds.quiet f (receiveWindowEnd sha256 f frame)"
  unfolding receiveWindowEnd_def Let_def stage_window_def note_window_def flushWindow_def
  by (intro adds.quiet_intros adds_quiet [OF upl_state] adds_quiet [OF upl_prospective] adds_flush adds_set) simp_all

lemma adds_data: "adds.quiet f (receiveData sha256 s offset payload)"
  unfolding receiveData_def Let_def
  by (intro adds.quiet_intros adds_quiet [OF upl_state] adds_set) simp_all

lemma adds_manifest: "adds.quiet f (receiveManifest len offset digest chunk)"
  unfolding receiveManifest_def
  by (intro adds.quiet_intros adds_quiet [OF upl_state] adds_set) simp_all

lemma adds_eof: "adds.quiet f (receiveEof sha256 f final blocks len digest manifestDigest)"
  unfolding receiveEof_def check_end_def
  by (intro adds.quiet_intros adds_quiet [OF upl_state] adds_quiet [OF upl_size] adds_quiet [OF upl_hash])

lemma adds_frame: "adds.quiet f (receive_frame sha256 f frame)"
proof -
  have "adds.quiet f (set_receiver (\<lambda>r. r\<lparr>tr_completed := True\<rparr>))" by (rule adds_set) simp
  then show ?thesis
    by (cases frame)
      (auto simp: receive_frame_def intro!: adds.quiet_seq adds_data adds_window adds_manifest adds_eof adds.quiet_basic)
qed

lemma adds_receive: "adds.quiet f (receive sha256 f frame)"
proof -
  have "adds.quiet f (set_receiver (\<lambda>r. r\<lparr>tr_terminal := True\<rparr>))" by (rule adds_set) simp
  then show ?thesis
    unfolding receive_def by (intro adds.quiet_intros adds_quiet [OF upl_state] adds_frame)
qed

end
