(* ===== verification/ReceiverHistory.thy ===== *)
theory ReceiverHistory
  imports ReceiverInvariant
begin

text \<open>
  The life of one transfer over any number of receivers.  The page may be closed at every \<open>await\<close>; a new receiver
  is then opened on the checkpoint that was saved last.  In between the device sends what it likes.
\<close>

section \<open>Histories\<close>

text \<open>
  The host's part is the order of \<open>EncryptedUploadV2TransferControl\<close>: the checkpoint of a complete window is saved,
  the receiver is told so, and then the window is acknowledged.  \<open>saved\<close> is the checkpoint on record, \<open>alive\<close> whether
  there is a receiver, and \<open>acks\<close> the acknowledgements sent so far.  Not in it are the host's \<open>truncate_sink\<close> and
  \<open>delete_checkpoint\<close> and its restart from the initial checkpoint after \<open>resume_rejected\<close>: a history is that of one
  transfer up to there.
\<close>

definition sent :: "(js_error + v2_transfer_frame) option \<Rightarrow> v2_frame list" where
  "sent answer = (case answer of Some (Inr frame) \<Rightarrow> [snd frame] | _ \<Rightarrow> [])"

inductive transfers ::
    "(bytes \<Rightarrow> js_error + bytes) \<Rightarrow> jsstring \<times> jsstring \<Rightarrow> native_checkpoint \<Rightarrow> bool \<Rightarrow> 'z upload_world_scheme
      \<Rightarrow> v2_frame list \<Rightarrow> bool"
  for sha256 :: "bytes \<Rightarrow> js_error + bytes" and f :: "jsstring \<times> jsstring" where
  T_new: "transfers sha256 f initialEncryptedUploadV2Checkpoint False w []"
| T_elsewhere: "transfers sha256 f saved alive w1 acks \<Longrightarrow>
    file_content (vw_files w) f = file_content (vw_files w1) f \<Longrightarrow> vw_receiver w = vw_receiver w1 \<Longrightarrow>
    transfers sha256 f saved alive w acks"
| T_close: "transfers sha256 f saved alive w acks \<Longrightarrow> transfers sha256 f saved False w acks"
| T_open: "transfers sha256 f saved alive w1 acks \<Longrightarrow> ro_checkpoint options = saved \<Longrightarrow> new_receiver options = Inr r \<Longrightarrow>
    prepare sha256 f (w1\<lparr>vw_receiver := r\<rparr>) = (answer, w) \<Longrightarrow>
    transfers sha256 f saved (answer = Some (Inr ())) w acks"
| T_frame: "transfers sha256 f saved True w1 acks \<Longrightarrow> receive sha256 f frame w1 = (answer, w) \<Longrightarrow>
    transfers sha256 f saved (answer \<noteq> None) w acks"
| T_repair: "transfers sha256 f saved True w1 acks \<Longrightarrow> repairAcknowledgement missing w1 = (answer, w) \<Longrightarrow>
    transfers sha256 f saved True w (sent answer @ acks)"
| T_save: "transfers sha256 f saved True w acks \<Longrightarrow> tr_pendingWindow (vw_receiver w) = Some p \<Longrightarrow>
    pw_missingSequences p = [] \<Longrightarrow> transfers sha256 f (pw_checkpoint p) True w acks"
| T_persist: "transfers sha256 f saved True w1 acks \<Longrightarrow> checkpointDidPersist saved w1 = (answer, w) \<Longrightarrow>
    transfers sha256 f saved True w acks"
| T_ack: "transfers sha256 f saved True w1 acks \<Longrightarrow> windowAcknowledgement c w1 = (answer, w) \<Longrightarrow>
    transfers sha256 f saved True w (sent answer @ acks)"

section \<open>The invariant of a history\<close>

text \<open>The device may drop what it has sent up to here.\<close>

fun acknowledged :: "(bytes \<Rightarrow> js_error + bytes) \<Rightarrow> bytes \<Rightarrow> int \<Rightarrow> v2_frame \<Rightarrow> bool" where
  "acknowledged sha256 bs limit (F_window_ack windowIndex highest offset digest revision missing) \<longleftrightarrow>
     (missing = [] \<longrightarrow> 0 \<le> offset \<and> offset \<le> limit \<and> nat offset \<le> length bs \<and> sha256 (take (nat offset) bs) = Inr digest)"
| "acknowledged sha256 bs limit _ \<longleftrightarrow> False"

lemma acknowledged_extends: "acknowledged sha256 bs limit a \<Longrightarrow> acknowledged sha256 (bs @ extra) limit a"
  by (cases a) auto

lemma acknowledged_limit: "acknowledged sha256 bs limit a \<Longrightarrow> limit \<le> limit' \<Longrightarrow> acknowledged sha256 bs limit' a"
  by (cases a) auto

lemma acknowledged_take: "acknowledged sha256 bs limit a \<Longrightarrow> acknowledged sha256 (take (nat limit) bs) limit a"
  by (cases a) (auto simp: min_def nat_le_eq_zle)

definition acks_told :: "(bytes \<Rightarrow> js_error + bytes) \<Rightarrow> bytes \<Rightarrow> native_checkpoint \<Rightarrow> v2_frame list \<Rightarrow> bool" where
  "acks_told sha256 bs c acks \<longleftrightarrow> list_all (acknowledged sha256 bs (nc_nextCiphertextOffset c)) acks"

lemma told_extends: "acks_told sha256 bs c acks \<Longrightarrow> acks_told sha256 (bs @ extra) c acks"
  unfolding acks_told_def by (erule list.pred_mono_strong) (rule acknowledged_extends)

lemma told_later: "acks_told sha256 bs c acks \<Longrightarrow> nc_nextCiphertextOffset c \<le> nc_nextCiphertextOffset c' \<Longrightarrow> acks_told sha256 bs c' acks"
  unfolding acks_told_def by (erule list.pred_mono_strong) (erule acknowledged_limit)

lemma told_take: "acks_told sha256 bs c acks \<Longrightarrow> acks_told sha256 (take (nat (nc_nextCiphertextOffset c)) bs) c acks"
  unfolding acks_told_def by (erule list.pred_mono_strong) (rule acknowledged_take)

lemma covered_take: "covered sha256 bs c \<Longrightarrow> covered sha256 (take (nat (nc_nextCiphertextOffset c)) bs) c"
  by (simp add: covered_def min_def)

text \<open>A receiver: its invariant, and what it knows of the saved checkpoint.\<close>

definition in_step :: "(bytes \<Rightarrow> js_error + bytes) \<Rightarrow> bytes \<Rightarrow> native_checkpoint \<Rightarrow> v2_frame list \<Rightarrow> receiver \<Rightarrow> bool" where
  "in_step sha256 bs saved acks r \<longleftrightarrow>
     receiver_inv sha256 bs r \<and> tr_prepared r \<and> acks_told sha256 bs (tr_checkpoint r) acks
     \<and> (\<forall>p. tr_pendingWindow r = Some p \<longrightarrow> pw_persisted p \<longrightarrow> pw_missingSequences p = [] \<and> pw_checkpoint p = saved)"

definition durable :: "(bytes \<Rightarrow> js_error + bytes) \<Rightarrow> bytes \<Rightarrow> native_checkpoint \<Rightarrow> v2_frame list \<Rightarrow> bool" where
  "durable sha256 bs saved acks \<longleftrightarrow> covered sha256 bs saved \<and> acks_told sha256 bs saved acks"

lemma durable_extends: "durable sha256 bs saved acks \<Longrightarrow> durable sha256 (bs @ extra) saved acks"
  by (simp add: durable_def covered_extends told_extends)

lemma durable_take: "durable sha256 bs saved acks \<Longrightarrow> durable sha256 (take (nat (nc_nextCiphertextOffset saved)) bs) saved acks"
  by (simp add: durable_def covered_take told_take)

lemma new_receiver_Inr:
  assumes "new_receiver options = Inr r"
  shows "0 \<le> nc_nextCiphertextOffset (ro_checkpoint options)" "tr_options r = options"
    "tr_checkpoint r = ro_checkpoint options" "tr_packets r = []" "tr_pendingWindow r = None" "\<not> tr_prepared r"
    "\<not> tr_terminal r" "\<not> tr_completed r" "tr_bufferedBytes r = 0" "tr_manifestSha256 r = None"
  using assms by (auto simp: new_receiver_def Let_def split: if_splits)

text \<open>A receiver that has been opened on the saved checkpoint.\<close>

lemma opened:
  fixes w1 :: "'z upload_world_scheme"
  assumes "durable sha256 (file_content (vw_files w1) f) (ro_checkpoint options) acks"
    and "new_receiver options = Inr r"
    and "prepare sha256 f (w1\<lparr>vw_receiver := r\<rparr>) = (answer, w)"
  shows "durable sha256 (file_content (vw_files w) f) (ro_checkpoint options) acks"
    and "answer = Some (Inr ()) \<Longrightarrow> in_step sha256 (file_content (vw_files w) f) (ro_checkpoint options) acks (vw_receiver w)"
proof -
  let ?bs = "file_content (vw_files w1) f" and ?n = "nat (nc_nextCiphertextOffset (ro_checkpoint options))"
  note new = new_receiver_Inr [OF assms(2)]
  from new have pos: "0 \<le> nc_nextCiphertextOffset (tr_checkpoint r)" by simp
  have "blob_holds f ?bs r (w1\<lparr>vw_receiver := r\<rparr>)" by (simp add: blob_holds_def)
  from tripleD [OF prepare_triple [OF pos] this assms(3)] new
  have out: "file_content (vw_files w) f = ?bs \<or> file_content (vw_files w) f = take ?n ?bs"
    and good: "answer = Some (Inr ()) \<Longrightarrow> file_content (vw_files w) f = take ?n ?bs \<and> vw_receiver w = r\<lparr>tr_prepared := True\<rparr>
      \<and> exactly sha256 (take ?n ?bs) (ro_checkpoint options)"
    by (auto simp: blob_holds_def split: option.splits sum.splits)
  from out assms(1) durable_take [OF assms(1)]
  show "durable sha256 (file_content (vw_files w) f) (ro_checkpoint options) acks" by metis
  assume "answer = Some (Inr ())"
  with good durable_take [OF assms(1)] new
  show "in_step sha256 (file_content (vw_files w) f) (ro_checkpoint options) acks (vw_receiver w)"
    by (auto simp: in_step_def receiver_inv_def written_checkpoint_def exactly_def durable_def)
qed

text \<open>A frame.\<close>

lemma framed:
  assumes "durable sha256 (file_content (vw_files w1) f) saved acks"
    and "in_step sha256 (file_content (vw_files w1) f) saved acks (vw_receiver w1)"
    and run: "receive sha256 f frame w1 = (answer, w)"
  shows "durable sha256 (file_content (vw_files w) f) saved acks"
    and "answer \<noteq> None \<Longrightarrow> in_step sha256 (file_content (vw_files w) f) saved acks (vw_receiver w)"
proof -
  have "frame_step f w1 w" using adds_receive [of f sha256 frame] run unfolding adds.quiet_def by (metis snd_conv)
  then obtain extra where content: "file_content (vw_files w) f = file_content (vw_files w1) f @ extra"
    and same: "tr_checkpoint (vw_receiver w) = tr_checkpoint (vw_receiver w1)" "tr_prepared (vw_receiver w) = tr_prepared (vw_receiver w1)"
    and window: "tr_pendingWindow (vw_receiver w) = tr_pendingWindow (vw_receiver w1)
      \<or> (\<exists>p. tr_pendingWindow (vw_receiver w) = Some p \<and> \<not> pw_persisted p)"
    unfolding frame_step_def by blast
  show "durable sha256 (file_content (vw_files w) f) saved acks"
    unfolding content by (rule durable_extends [OF assms(1)])
  assume returned: "answer \<noteq> None"
  have "inv_of sha256 f w1" using assms(2) by (simp add: inv_of_def in_step_def)
  from tripleD [OF receive_triple this run] returned have "inv_of sha256 f w"
    by (auto simp: outcome_here_def event_here_def split: option.splits sum.splits)
  with assms(2) window same content
  show "in_step sha256 (file_content (vw_files w) f) saved acks (vw_receiver w)"
    by (auto simp: in_step_def inv_of_def told_extends)
qed

text \<open>The three calls of the host.\<close>

lemma repaired:
  assumes "repairAcknowledgement missing w1 = (answer, w)"
  shows "w = w1" and "acks_told sha256 bs c (sent answer)"
proof -
  show "w = w1"
    using assms by (auto simp: repairAcknowledgement_def receiver_state_def seq_def get_def raise_def ret_def
        split: option.splits if_splits)
  show "acks_told sha256 bs c (sent answer)"
    using assms by (auto simp: acks_told_def sent_def repairAcknowledgement_def receiver_state_def seq_def get_def raise_def ret_def
        acknowledgement_def split: option.splits if_splits)
qed

lemma persisted:
  assumes "in_step sha256 bs saved acks (vw_receiver w1)" and "checkpointDidPersist saved w1 = (answer, w)"
  shows "vw_files w = vw_files w1" and "in_step sha256 bs saved acks (vw_receiver w)"
proof -
  have "w = w1 \<or> (\<exists>p. tr_pendingWindow (vw_receiver w1) = Some p \<and> pw_missingSequences p = [] \<and> pw_checkpoint p = saved
      \<and> w = w1\<lparr>vw_receiver := (vw_receiver w1)\<lparr>tr_pendingWindow := Some (p\<lparr>pw_persisted := True\<rparr>)\<rparr>\<rparr>)"
    using assms(2) by (auto simp: checkpointDidPersist_def receiver_state_def set_receiver_def modify_def seq_def get_def
        raise_def split: option.splits if_splits)
  with assms(1) show "vw_files w = vw_files w1" and "in_step sha256 bs saved acks (vw_receiver w)"
    by (auto simp: in_step_def receiver_inv_def written_checkpoint_def)
qed

lemma acked:
  assumes "in_step sha256 bs saved acks (vw_receiver w1)" and "covered sha256 bs saved" and "acks_told sha256 bs saved acks"
    and "windowAcknowledgement c w1 = (answer, w)"
  shows "vw_files w = vw_files w1" and "in_step sha256 bs saved (sent answer @ acks) (vw_receiver w)"
    and "acks_told sha256 bs saved (sent answer @ acks)"
proof -
  consider (refused) "w = w1" "sent answer = []"
    | (sent) p where "tr_pendingWindow (vw_receiver w1) = Some p" "pw_missingSequences p = []" "pw_checkpoint p = c"
      "pw_persisted p" "w = w1\<lparr>vw_receiver := (vw_receiver w1)\<lparr>tr_checkpoint := c, tr_packets := [], tr_bufferedBytes := 0,
         tr_pendingWindow := None\<rparr>\<rparr>"
      "sent answer = [F_window_ack (we_windowIndex (pw_boundary p)) (we_lastSequence (pw_boundary p))
         (nc_nextCiphertextOffset c) (nc_prefixSha256 c) (nc_revision c) []]"
    using assms(4)
    by (auto simp: windowAcknowledgement_def receiver_state_def set_receiver_def modify_def seq_def get_def raise_def ret_def
        acknowledgement_def sent_def split: option.splits if_splits)
  then have "vw_files w = vw_files w1 \<and> in_step sha256 bs saved (sent answer @ acks) (vw_receiver w)
      \<and> acks_told sha256 bs saved (sent answer @ acks)"
  proof cases
    case refused
    with assms(1,3) show ?thesis by simp
  next
    case sent
    with assms(1) have "c = saved" by (auto simp: in_step_def)
    with sent assms(1-3) show ?thesis
      by (auto simp: in_step_def receiver_inv_def written_checkpoint_def acks_told_def covered_def)
  qed
  then show "vw_files w = vw_files w1" and "in_step sha256 bs saved (sent answer @ acks) (vw_receiver w)"
    and "acks_told sha256 bs saved (sent answer @ acks)" by blast+
qed

text \<open>The invariant.\<close>

lemma transfer_invariant:
  assumes "transfers sha256 f saved alive w acks" and "sha256 [] = Inr EMPTY_SHA256"
  shows "durable sha256 (file_content (vw_files w) f) saved acks
    \<and> (alive \<longrightarrow> in_step sha256 (file_content (vw_files w) f) saved acks (vw_receiver w))"
  using assms(1)
proof induction
  case (T_new w)
  then show ?case
    using assms(2) by (simp add: durable_def covered_def acks_told_def initialEncryptedUploadV2Checkpoint_def)
next
  case (T_open saved alive w1 acks options r answer w)
  then show ?case using opened [of sha256 w1 f options acks r answer w] by blast
next
  case (T_frame saved w1 acks frame answer w)
  then show ?case using framed [of sha256 w1 f saved acks frame answer w] by blast
next
  case (T_repair saved w1 acks missing answer w)
  then show ?case
    using repaired [OF T_repair.hyps(2)] by (auto simp: durable_def in_step_def acks_told_def)
next
  case (T_save saved w acks p)
  then show ?case
    using told_later [of sha256 "file_content (vw_files w) f" "tr_checkpoint (vw_receiver w)" acks "pw_checkpoint p"]
    by (auto simp: durable_def in_step_def receiver_inv_def written_checkpoint_def)
next
  case (T_persist saved w1 acks answer w)
  then show ?case using persisted [of sha256 "file_content (vw_files w1) f" saved acks w1 answer w] by auto
next
  case (T_ack saved w1 acks c answer w)
  then show ?case
    using acked [of sha256 "file_content (vw_files w1) f" saved acks w1 c answer w] by (auto simp: durable_def)
qed auto

end
