(* ===== verification/ReceiverProgress.thy ===== *)
theory ReceiverProgress
  imports ReceiverHistory
begin

text \<open>
  Where the page stays open, the file system answers and the digest is computed, the receiver does not fail by
  itself: it opens on any checkpoint the blob covers, and it takes what an honest device sends, in any order, with
  repetitions and losses.
\<close>

section \<open>The blob when the file system answers\<close>

definition answering :: "'z upload_world_scheme \<Rightarrow> bool" where
  "answering w \<longleftrightarrow> (\<forall>t. \<not> va_stop (vw_answers w t) \<and> va_opfs (vw_answers w t) = opfs_ok)"

definition ready :: "jsstring \<times> jsstring \<Rightarrow> bytes \<Rightarrow> receiver \<Rightarrow> 'z upload_world_scheme \<Rightarrow> bool" where
  "ready f bs r w \<longleftrightarrow> blob_holds f bs r w \<and> answering w"

abbreviation surely ::
    "('w \<Rightarrow> bool) \<Rightarrow> ('w, 'a) prog \<Rightarrow> ('a \<Rightarrow> 'w \<Rightarrow> bool) \<Rightarrow> bool" where
  "surely P prog Q \<equiv> triple P prog Q (\<lambda>_ _. False) (\<lambda>_. False)"

lemma surelyD:
  assumes "surely P prog Q" and "P w"
  obtains x w' where "prog w = (Some (Inr x), w')" "Q x w'"
proof -
  obtain r w' where run: "prog w = (r, w')" by fastforce
  from tripleD [OF assms run] run that show ?thesis by (auto split: option.splits sum.splits)
qed

lemma surely_unitD:
  assumes "surely P prog Q" and "P w"
  obtains w' where "prog w = (Some (Inr ()), w')" "Q () w'"
proof (rule surelyD [OF assms])
  fix u :: unit and w'
  assume "prog w = (Some (Inr u), w')" and "Q u w'"
  moreover have "u = ()" by simp
  ultimately show thesis by (intro that) simp_all
qed

lemma surely_fact: "(b \<Longrightarrow> surely P prog Q) \<Longrightarrow> surely (\<lambda>w. P w \<and> b) prog Q"
  by (auto simp: triple_def)

lemma surely_call:
  assumes "\<And>fs. file_content fs f = bs \<Longrightarrow> \<exists>fs'. q opfs_ok fs = (Inr x, fs') \<and> file_content fs' f = bs'"
  shows "surely (ready f bs r) (blob_op q) (\<lambda>y w. ready f bs' r w \<and> y = x)"
proof (rule tripleI)
  fix w v w'
  assume w: "ready f bs r w" and run: "blob_op q w = (v, w')"
  then have "file_content (vw_files w) f = bs" and env: "va_opfs (vw_answers w (vw_time w)) = opfs_ok" "\<not> va_stop (vw_answers w (vw_time w))"
    by (simp_all add: ready_def blob_holds_def answering_def)
  from assms [OF this(1)] obtain fs' where q: "q opfs_ok (vw_files w) = (Inr x, fs')" "file_content fs' f = bs'" by blast
  with run env have "v = Some (Inr x)" "w' = w\<lparr>vw_time := Suc (vw_time w), vw_files := fs'\<rparr>"
    by (auto simp: blob_op_def seq_def await_def Let_def storage_failure_def)
  with w q(2) show "case v of None \<Rightarrow> False | Some (Inl e) \<Rightarrow> False | Some (Inr y) \<Rightarrow> ready f bs' r w' \<and> y = x"
    by (simp add: ready_def blob_holds_def answering_def)
qed

lemma surely_op_seq:
  assumes "\<And>fs. file_content fs f = bs \<Longrightarrow> \<exists>fs'. q opfs_ok fs = (Inr x, fs') \<and> file_content fs' f = bs'"
    and "surely (ready f bs' r) (h x) Q"
  shows "surely (ready f bs r) (seq (blob_op q) h) Q"
proof (rule triple_seq)
  show "surely (ready f bs r) (blob_op q) (\<lambda>y w. ready f bs' r w \<and> y = x)"
    by (rule surely_call) (rule assms(1))
qed (rule surely_fact, use assms(2) in simp)

lemma surely_lift_seq:
  assumes "v = Inr x" and "surely P (h x) Q"
  shows "surely P (seq (lift_sum v) h) Q"
  by (rule triple_seq [where R = "\<lambda>y w. P w \<and> y = x"])
    (use assms in \<open>auto intro!: triple_lift surely_fact\<close>)

lemma surely_state_seq:
  "surely (ready f bs r) (h (g r)) Q \<Longrightarrow> surely (ready f bs r) (seq (receiver_state g) h) Q"
  by (auto simp: triple_def receiver_state_def seq_def get_def ready_def blob_holds_def)

lemma surely_set: "surely (ready f bs r) (set_receiver g) (\<lambda>_. ready f bs (g r))"
  by (auto simp: set_receiver_def ready_def blob_holds_def answering_def intro!: triple_modify)

lemma surely_set_seq:
  assumes "surely (ready f bs (g r)) (h ()) Q"
  shows "surely (ready f bs r) (seq (set_receiver g) h) Q"
  by (rule triple_seq [OF surely_set]) (use assms in simp)

definition small_blob :: "bytes \<Rightarrow> bool" where
  "small_blob bs \<longleftrightarrow> int (length bs) \<le> max_safe_integer"

lemma small_take: "small_blob bs \<Longrightarrow> small_blob (take n bs)"
  by (simp add: small_blob_def)

lemma surely_size_seq:
  assumes "small_blob bs" and "surely (ready f bs r) (h (int (length bs))) Q"
  shows "surely (ready f bs r) (seq (size_of_blob f) h) Q"
  unfolding size_of_blob_def
proof (rule surely_op_seq)
  fix fs
  assume "file_content fs f = bs"
  with size_ok [of fs f] assms(1)
  show "\<exists>fs'. blob_size opfs_ok f fs = (Inr (int (length bs)), fs') \<and> file_content fs' f = bs"
    by (auto simp: small_blob_def)
qed (rule assms(2))

text \<open>A stream whose body does not fail.\<close>

definition collects_surely :: "(bytes \<Rightarrow> bytes \<Rightarrow> js_error + bytes \<times> bool) \<Rightarrow> bytes \<Rightarrow> nat \<Rightarrow> bool" where
  "collects_surely body bs n \<longleftrightarrow> collects body bs n \<and>
     (\<forall>k l. k + l \<le> length bs \<longrightarrow> 1 \<le> l \<longrightarrow> (\<exists>x. body (take l (drop k bs)) (take (min k n) bs) = Inr x))"

lemma safe_length: "small_blob bs \<Longrightarrow> safeNumber (int (length (take n bs))) = Inr (int (length (take n bs)))"
  by (simp add: safeNumber_def small_blob_def)

lemma surely_prefix: "small_blob bs \<Longrightarrow> collects_surely (prefix_chunk (int n)) bs n"
  by (auto simp: collects_surely_def collects_prefix prefix_chunk_def safe_length Let_def simp del: length_take)

lemma surely_prospective: "small_blob bs \<Longrightarrow> collects_surely (prospective_chunk (int n)) bs n"
  by (auto simp: collects_surely_def collects_prospective prospective_chunk_def safe_length Let_def simp del: length_take)

lemma surely_until:
  assumes small: "small_blob bs" and body: "collects_surely body bs n" and "covering (int k) (int (length bs)) rs"
  shows "surely (ready f bs r) (stream_until f body rs (take (min k n) bs)) (\<lambda>fed w. ready f bs r w \<and> fed = take n bs)"
  (is "surely ?P _ ?Q")
  using assms(3)
proof (induction rs arbitrary: k)
  case Nil
  then show ?case by (auto intro!: triple_ret simp: min_def)
next
  case (Cons x rs)
  from Cons.prems obtain l where x: "x = (int k, int l)" and l: "k + l \<le> length bs" "1 \<le> l"
    and rest: "covering (int (k + l)) (int (length bs)) rs"
  proof -
    obtain o' m where "x = (o', m)" by fastforce
    with Cons.prems that [of "nat m"] show ?thesis by auto
  qed
  have reads: "\<exists>fs'. blob_read opfs_ok f (JInt (int k)) (JInt (int l)) fs = (Inr (take l (drop k bs)), fs') \<and> file_content fs' f = bs"
    if "file_content fs f = bs" for fs
    using read_ok [of "int k" "int l" fs f] that l small by (auto simp: small_blob_def slice_def)
  from body l obtain fed goes_on where run: "body (take l (drop k bs)) (take (min k n) bs) = Inr (fed, goes_on)"
    unfolding collects_surely_def by (metis prod.collapse)
  moreover from body have "collects body bs n" by (simp add: collects_surely_def)
  ultimately have fed: "fed = take (min (k + l) n) bs \<and> (\<not> goes_on \<longrightarrow> n \<le> k + l)"
    using l unfolding collects_def by blast
  have "surely ?P (if goes_on then stream_until f body rs fed else ret fed) ?Q"
    using fed Cons.IH [OF rest] by (auto intro!: triple_ret simp: min_def)
  then show ?case
    unfolding x stream_until.simps
    by (intro surely_op_seq [where x = "take l (drop k bs)" and bs' = bs] surely_lift_seq [OF run] reads) simp_all
qed

lemma surely_stream:
  assumes "small_blob bs" and "collects_surely body bs n"
  shows "surely (ready f bs r) (stream_while f body []) (\<lambda>fed w. ready f bs r w \<and> fed = take n bs)"
  unfolding stream_while_def
proof (rule surely_size_seq [OF assms(1)])
  have "covering (int 0) (int (length bs)) (stream_reads STREAM_CHUNK (int (length bs)) 0)"
    using covering_reads [of STREAM_CHUNK 0 "int (length bs)"] by (simp add: STREAM_CHUNK_def)
  from surely_until [OF assms this, of f r]
  show "surely (ready f bs r) (stream_until f body (stream_reads STREAM_CHUNK (int (length bs)) 0) [])
      (\<lambda>fed w. ready f bs r w \<and> fed = take n bs)" by simp
qed

lemma surely_stream_seq:
  assumes "small_blob bs" and "collects_surely body bs n" and "surely (ready f bs r) (h (take n bs)) Q"
  shows "surely (ready f bs r) (seq (stream_while f body []) h) Q"
  by (rule triple_seq [OF surely_stream [OF assms(1,2)]], rule surely_fact) (use assms(3) in simp)

lemma surely_hash_seq:
  assumes "small_blob bs" and "n \<le> length bs" and "sha256 (take n bs) = Inr digest" and "surely (ready f bs r) (h digest) Q"
  shows "surely (ready f bs r) (seq (hashBlobPrefix sha256 f (int n)) h) Q"
  unfolding hashBlobPrefix_def seq_assoc
  by (rule surely_stream_seq [OF assms(1) surely_prefix [OF assms(1)]])
    (use assms(2,4) surely_lift_seq [where h = h, OF assms(3,4)] in simp)

section \<open>Writing\<close>

lemma surely_change_seq:
  assumes "small_blob bs" and "mutation_pre job bs \<and> mutation_spec job bs \<noteq> bs \<or> fits job bs \<and> mutation_spec job bs = bs" and "job \<noteq> M_delete"
    and "\<And>n. job = M_truncate n \<Longrightarrow> 0 \<le> n" and "surely (ready f (mutation_spec job bs) r) (h ()) Q"
  shows "surely (ready f bs r) (seq (change_blob f (Inr job)) h) Q"
proof -
  let ?check = "\<lambda>env fs. case mutation_check env f job fs of (r, fs1) \<Rightarrow> (Inr r, fs1)"
  let ?next = "\<lambda>r :: (storage_code + unit) + unit. case r of Inl outcome \<Rightarrow> lift_sum (storage_failure outcome)
      | Inr _ \<Rightarrow> blob_op (\<lambda>env. mutation_commit env f job)"
  have commits: "\<exists>fs'. mutation_commit opfs_ok f job fs = (Inr (), fs') \<and> file_content fs' f = mutation_spec job bs"
    if "file_content fs f = bs" "mutation_pre job bs" for fs
  proof -
    obtain v fs' where run: "mutation_commit opfs_ok f job fs = (v, fs')" by fastforce
    moreover have "v = Inr ()"
      using run assms(3) withWritable_ok [of f _ fs] by (cases job) (metis mutation_commit.simps fst_conv)+
    ultimately show ?thesis using commit_outcome [OF run _ assms(3)] that by simp
  qed
  have ok: "small_blob (file_content fs f) \<Longrightarrow>
      \<exists>fs'. blob_size opfs_ok f fs = (Inr (int (length (file_content fs f))), fs') \<and> file_content fs' = file_content fs" for fs
    using size_ok [of fs f] by (simp add: small_blob_def)
  show ?thesis
    unfolding change_blob_def storage_failure_Inr lift_Inr seq_ret seq_assoc
  proof (cases "mutation_spec job bs = bs")
    case changes: False
    then have pre: "mutation_pre job bs" using assms(2) by simp
    show "surely (ready f bs r) (seq (blob_op ?check) (\<lambda>x. seq (?next x) h)) Q"
    proof (rule surely_op_seq)
      fix fs
      assume bs: "file_content fs f = bs"
      from ok [of fs] bs assms(1) obtain fs' where
        "blob_size opfs_ok f fs = (Inr (int (length bs)), fs')" "file_content fs' = file_content fs" by auto
      with pre changes assms(3) bs show "\<exists>fs'. ?check opfs_ok fs = (Inr (Inr ()), fs') \<and> file_content fs' f = bs"
        by (cases job) auto
    next
      show "surely (ready f bs r) (seq (?next (Inr ())) h) Q"
        unfolding sum.case by (rule surely_op_seq) (rule commits [OF _ pre], assumption, rule assms(5))
    qed
  next
    case same: True
    show "surely (ready f bs r) (seq (blob_op ?check) (\<lambda>x. seq (?next x) h)) Q"
    proof (rule surely_op_seq)
      fix fs
      assume bs: "file_content fs f = bs"
      from ok [of fs] bs assms(1) obtain fs' where
        "blob_size opfs_ok f fs = (Inr (int (length bs)), fs')" "file_content fs' = file_content fs" by auto
      with same assms(2-4) bs show "\<exists>fs'. ?check opfs_ok fs = (Inr (Inl (Inr ())), fs') \<and> file_content fs' f = bs"
        by (cases job) auto
    next
      show "surely (ready f bs r) (seq (?next (Inl (Inr ()))) h) Q"
        using assms(5) same by (simp add: storage_failure_Inr lift_Inr)
    qed
  qed
qed

lemma surely_append_seq:
  assumes "small_blob (bs @ payload)" and "surely (ready f (bs @ payload) r) (h ()) Q"
  shows "surely (ready f bs r) (seq (change_blob f (write_request (JInt (int (length bs))) (Some payload))) h) Q"
proof -
  have "write_request (JInt (int (length bs))) (Some payload) = Inr (M_write (int (length bs)) payload)"
    using assms(1) by (simp add: write_request_def validateRange_def validateOffset_def validateLength_def small_blob_def)
  with surely_change_seq [of bs "M_write (int (length bs)) payload" f r h Q] assms show ?thesis
    by (simp add: small_blob_def)
qed

lemma surely_truncate_seq:
  assumes "small_blob bs" and "n < length bs" and "surely (ready f (take n bs) r) (h ()) Q"
  shows "surely (ready f bs r) (seq (change_blob f (truncate_request (JInt (int n)))) h) Q"
proof -
  have "truncate_request (JInt (int n)) = Inr (M_truncate (int n))"
    using assms(1,2) by (simp add: truncate_request_def validateOffset_def validateLength_def small_blob_def)
  with surely_change_seq [of bs "M_truncate (int n)" f r h Q] assms show ?thesis by simp
qed

section \<open>Opening\<close>

lemma surely_prepare:
  assumes "small_blob bs" and "covered sha256 bs (tr_checkpoint r)" and pos: "nc_nextCiphertextOffset (tr_checkpoint r) \<le> max_safe_integer"
  shows "surely (ready f bs r) (prepare sha256 f)
    (\<lambda>_. ready f (take (nat (nc_nextCiphertextOffset (tr_checkpoint r))) bs) (r\<lparr>tr_prepared := True\<rparr>))"
proof -
  define n where "n = nat (nc_nextCiphertextOffset (tr_checkpoint r))"
  from assms(2) have off: "nc_nextCiphertextOffset (tr_checkpoint r) = int n" and n: "n \<le> length bs"
    and sha: "sha256 (take n bs) = Inr (nc_prefixSha256 (tr_checkpoint r))"
    by (simp_all add: covered_def n_def)
  have safe: "safeNumber (int n) = Inr (int n)" using pos off by (simp add: safeNumber_def)
  have hash: "surely (ready f (take n bs) r) (seq (hashBlobPrefix sha256 f (int n)) (\<lambda>digest.
      if \<not> equalBytes digest (nc_prefixSha256 (tr_checkpoint r)) then raise (SdkErr integrityFailure)
      else set_receiver (\<lambda>r. r\<lparr>tr_prepared := True\<rparr>))) (\<lambda>_. ready f (take n bs) (r\<lparr>tr_prepared := True\<rparr>))"
    by (rule surely_hash_seq [OF small_take [OF assms(1)], where digest = "nc_prefixSha256 (tr_checkpoint r)"])
      (use n sha surely_set [of f "take n bs" r] in simp_all)
  show ?thesis
    unfolding prepare_def n_def [symmetric]
  proof (rule surely_state_seq, unfold off, rule surely_lift_seq [OF safe], rule surely_size_seq [OF assms(1)], rule triple_if, goal_cases)
    case 2
    show ?case
    proof (cases "n = length bs")
      case True
      with hash show ?thesis by (simp add: unless_def)
    next
      case False
      with n have "n < length bs" by simp
      from surely_truncate_seq [OF assms(1) this hash] False show ?thesis by (simp add: unless_def)
    qed
  qed (use n in simp)
qed

end
