(* ===== verification/HonestTransfer.thy ===== *)
theory HonestTransfer
  imports ReceiverProgress
begin

text \<open>
  A device that sends what it should: the pieces of every window, each round in any order and with repetitions, and
  after a round with losses only what is missing.
\<close>

section \<open>A window as the device sends it\<close>

record window =
  wd_index :: int
  wd_first :: int
  wd_pieces :: "bytes list"
  wd_revision :: int

definition piece_offset :: "nat \<Rightarrow> window \<Rightarrow> nat \<Rightarrow> nat" where
  "piece_offset k v i = k + length (concat (take i (wd_pieces v)))"

definition piece_packet :: "(bytes \<Rightarrow> bytes) \<Rightarrow> nat \<Rightarrow> window \<Rightarrow> nat \<Rightarrow> int \<times> packet" where
  "piece_packet sha k v i = (wd_first v + int i,
     \<lparr>pk_offset = int (piece_offset k v i), pk_bytes = wd_pieces v ! i, pk_sha256 = sha (wd_pieces v ! i)\<rparr>)"

definition piece_frame :: "nat \<Rightarrow> window \<Rightarrow> nat \<Rightarrow> v2_frame" where
  "piece_frame k v i = F_data (wd_first v + int i) (int (piece_offset k v i)) (wd_pieces v ! i)"

definition window_last :: "window \<Rightarrow> int" where
  "window_last v = wd_first v + int (length (wd_pieces v)) - 1"

definition window_boundary :: "(bytes \<Rightarrow> bytes) \<Rightarrow> bytes \<Rightarrow> window \<Rightarrow> window_end" where
  "window_boundary sha bs v = \<lparr>we_windowIndex = wd_index v, we_firstSequence = wd_first v, we_lastSequence = window_last v,
     we_nextCiphertextOffset = int (length (bs @ concat (wd_pieces v))), we_prefixSha256 = sha (bs @ concat (wd_pieces v)),
     we_checkpointRevision = wd_revision v\<rparr>"

definition boundary_frame :: "window_end \<Rightarrow> v2_frame" where
  "boundary_frame e = F_window_end (we_windowIndex e) (we_firstSequence e) (we_lastSequence e) (we_nextCiphertextOffset e)
     (we_prefixSha256 e) (we_checkpointRevision e)"

text \<open>The receiver with the pieces that have arrived.\<close>

definition with_pieces :: "(bytes \<Rightarrow> bytes) \<Rightarrow> nat \<Rightarrow> window \<Rightarrow> nat list \<Rightarrow> receiver \<Rightarrow> receiver" where
  "with_pieces sha k v ds r = r\<lparr>tr_packets := map (piece_packet sha k v) ds,
     tr_bufferedBytes := (\<Sum>i\<leftarrow>ds. int (length (wd_pieces v ! i)) + 80)\<rparr>"

text \<open>What the window may be for the receiver to take it.\<close>

definition window_fits :: "nat \<Rightarrow> window \<Rightarrow> receiver \<Rightarrow> bool" where
  "window_fits k v r \<longleftrightarrow>
     wd_pieces v \<noteq> []
     \<and> list_all (\<lambda>p. p \<noteq> [] \<and> int (length p) \<le> ro_maximumDataPayloadBytes (tr_options r)) (wd_pieces v)
     \<and> int (length (wd_pieces v)) \<le> ro_maximumWindowPackets (tr_options r)
     \<and> int (length (wd_pieces v)) \<le> ro_maximumMissingSequences (tr_options r)
     \<and> (\<Sum>p\<leftarrow>wd_pieces v. int (length p) + 80) \<le> MAXIMUM_QUEUED_BYTES
     \<and> int (k + length (concat (wd_pieces v))) \<le> ro_expectedCiphertextLength (tr_options r)
     \<and> ro_expectedCiphertextLength (tr_options r) \<le> max_safe_integer
     \<and> nc_nextCiphertextOffset (tr_checkpoint r) = int k
     \<and> nc_revision (tr_checkpoint r) < wd_revision v
     \<and> (case nc_highestContiguousSequence (tr_checkpoint r) of
          None \<Rightarrow> True | Some previous \<Rightarrow> previous < 0xffffffff \<and> wd_first v = previous + 1)
     \<and> active r \<and> \<not> tr_completed r"

lemma with_pieces_simps [simp]:
  "tr_options (with_pieces sha k v ds r) = tr_options r" "tr_checkpoint (with_pieces sha k v ds r) = tr_checkpoint r"
  "tr_pendingWindow (with_pieces sha k v ds r) = tr_pendingWindow r" "tr_completed (with_pieces sha k v ds r) = tr_completed r"
  "active (with_pieces sha k v ds r) = active r" "tr_packets (with_pieces sha k v ds r) = map (piece_packet sha k v) ds"
  by (simp_all add: with_pieces_def active_def)

lemma map_of_pieces:
  "map_of (map (piece_packet sha k v) ds) (wd_first v + int i) = (if i \<in> set ds then Some (snd (piece_packet sha k v i)) else None)"
  by (induction ds) (auto simp: piece_packet_def)

text \<open>Pieces do not overlap.\<close>

lemma concat_take_le: "i \<le> j \<Longrightarrow> length (concat (take i xs)) \<le> length (concat (take j xs))"
  by (metis concat_append le_Suc_ex length_append le_add1 take_add)

lemma piece_offset_Suc: "i < length (wd_pieces v) \<Longrightarrow> piece_offset k v (Suc i) = piece_offset k v i + length (wd_pieces v ! i)"
  by (simp add: piece_offset_def take_Suc_conv_app_nth)

lemma piece_offset_mono: "i \<le> j \<Longrightarrow> piece_offset k v i \<le> piece_offset k v j"
  by (simp add: piece_offset_def concat_take_le)

lemma piece_offset_end: "i < length (wd_pieces v) \<Longrightarrow> piece_offset k v i + length (wd_pieces v ! i) \<le> k + length (concat (wd_pieces v))"
  using piece_offset_mono [of "Suc i" "length (wd_pieces v)" k v] by (simp add: piece_offset_Suc) (simp add: piece_offset_def)

lemma pieces_apart:
  assumes "i < length (wd_pieces v)" and "j < length (wd_pieces v)" and "i \<noteq> j"
  shows "\<not> overlaps (snd (piece_packet sha k v i)) (snd (piece_packet sha k v j))"
proof (cases "i < j")
  case True
  then have "piece_offset k v (Suc i) \<le> piece_offset k v j" by (intro piece_offset_mono) simp
  with assms show ?thesis by (simp add: overlaps_def piece_packet_def piece_offset_Suc)
next
  case False
  with assms have "piece_offset k v (Suc j) \<le> piece_offset k v i" by (intro piece_offset_mono) simp
  with assms show ?thesis by (simp add: overlaps_def piece_packet_def piece_offset_Suc)
qed

text \<open>Any number of different pieces fits where all of them fit.\<close>

lemma distinct_sum:
  assumes "distinct ds" and "set ds \<subseteq> {..<length ps}"
  shows "(\<Sum>i\<leftarrow>ds. int (length (ps ! i)) + 80) \<le> (\<Sum>p\<leftarrow>ps. int (length p) + 80)"
proof -
  have "(\<Sum>i\<leftarrow>ds. int (length (ps ! i)) + 80) = (\<Sum>i\<in>set ds. int (length (ps ! i)) + 80)"
    using assms(1) by (simp add: sum_list_distinct_conv_sum_set)
  also have "\<dots> \<le> (\<Sum>i\<in>{..<length ps}. int (length (ps ! i)) + 80)"
    by (rule sum_mono2) (use assms(2) in auto)
  also have "\<dots> = (\<Sum>p\<leftarrow>ps. int (length p) + 80)"
    by (simp add: sum_list_sum_nth atLeast0LessThan)
  finally show ?thesis .
qed

lemma distinct_few: "distinct ds \<Longrightarrow> set ds \<subseteq> {..<n} \<Longrightarrow> length ds \<le> n"
  by (metis card_lessThan card_mono distinct_card finite_lessThan)

section \<open>A round of pieces\<close>

definition arrives :: "nat list \<Rightarrow> nat \<Rightarrow> nat list" where
  "arrives ds i = (if i \<in> set ds then ds else ds @ [i])"

lemma set_arrives [simp]: "set (arrives ds i) = insert i (set ds)"
  by (auto simp: arrives_def)

lemma distinct_arrives [simp]: "distinct ds \<Longrightarrow> distinct (arrives ds i)"
  by (auto simp: arrives_def)

abbreviation session :: "receiver \<Rightarrow> int" where
  "session r \<equiv> ro_transportSessionId (tr_options r)"

definition session_frame :: "int \<Rightarrow> v2_frame \<Rightarrow> v2_transfer_frame" where
  "session_frame sid frame = (\<lparr>vc_flags = 0, vc_transportSessionId = sid\<rparr>, frame)"

lemma surely_receive:
  assumes "active r" and "\<not> tr_completed r" and "surely (ready f bs r) (receive_frame sha256 f frame) Q"
  shows "surely (ready f bs r) (receive sha256 f (session_frame (session r) frame)) Q"
  unfolding receive_def
proof (rule surely_state_seq)
  have "surely (ready f bs r) (catching (receive_frame sha256 f frame) (\<lambda>e.
      seq (set_receiver (\<lambda>r. r\<lparr>tr_terminal := True\<rparr>)) (\<lambda>_. raise (SdkErr (normalizeHostError e))))) Q"
    by (rule triple_catching [OF assms(3)]) (simp add: triple_def)
  with assms(1,2) show "surely (ready f bs r)
     (if \<not> tr_prepared (id r) \<or> tr_terminal (id r) \<or> tr_completed (id r) then raise (SdkErr protocolFailure)
      else if vc_transportSessionId (fst (session_frame (session r) frame)) \<noteq> ro_transportSessionId (tr_options (id r))
      then seq (set_receiver (\<lambda>r. r\<lparr>tr_terminal := True\<rparr>)) (\<lambda>_. raise (SdkErr identityFailure))
      else catching (receive_frame sha256 f (snd (session_frame (session r) frame))) (\<lambda>e.
          seq (set_receiver (\<lambda>r. r\<lparr>tr_terminal := True\<rparr>)) (\<lambda>_. raise (SdkErr (normalizeHostError e))))) Q"
    by (simp add: session_frame_def active_def)
qed

definition wanted :: "window \<Rightarrow> receiver \<Rightarrow> nat \<Rightarrow> bool" where
  "wanted v r i \<longleftrightarrow> i < length (wd_pieces v) \<and>
     (case tr_pendingWindow r of None \<Rightarrow> True | Some p \<Rightarrow> wd_first v + int i \<in> set (pw_missingSequences p))"

lemma surely_piece:
  assumes "window_fits k v r" and "wanted v r i" and "distinct ds" and "set ds \<subseteq> {..<length (wd_pieces v)}"
  shows "surely (ready f bs (with_pieces sha k v ds r)) (receive (\<lambda>bs. Inr (sha bs)) f (session_frame (session r) (piece_frame k v i)))
    (\<lambda>_. ready f bs (with_pieces sha k v (arrives ds i) r))"
proof -
  let ?r = "with_pieces sha k v ds r"
  let ?m = "\<lparr>pk_offset = int (piece_offset k v i), pk_bytes = wd_pieces v ! i, pk_sha256 = sha (wd_pieces v ! i)\<rparr>"
  have i: "i < length (wd_pieces v)" using assms(2) by (simp add: wanted_def)
  have m: "snd (piece_packet sha k v i) = ?m" by (simp add: piece_packet_def)
  from assms(1) i have piece: "wd_pieces v ! i \<noteq> []" "int (length (wd_pieces v ! i)) \<le> ro_maximumDataPayloadBytes (tr_options r)"
    by (simp_all add: window_fits_def list_all_length)
  have guard: "\<not> (length (wd_pieces v ! i) = 0
      \<or> ro_maximumDataPayloadBytes (tr_options ?r) < int (length (wd_pieces v ! i))
      \<or> int (piece_offset k v i) < nc_nextCiphertextOffset (tr_checkpoint ?r)
      \<or> ro_expectedCiphertextLength (tr_options ?r) < int (piece_offset k v i) + int (length (wd_pieces v ! i))
      \<or> (case map_option pw_missingSequences (tr_pendingWindow ?r) of
           None \<Rightarrow> False | Some missing \<Rightarrow> wd_first v + int i \<notin> set missing))"
    using assms(1,2) piece piece_offset_end [OF i, of k]
    by (auto simp: window_fits_def wanted_def piece_offset_def split: option.splits)
  have data: "surely (ready f bs ?r) (receiveData (\<lambda>bs. Inr (sha bs)) (wd_first v + int i) (int (piece_offset k v i)) (wd_pieces v ! i))
      (\<lambda>_. ready f bs (with_pieces sha k v (arrives ds i) r))"
    unfolding receiveData_def Let_def
  proof (rule surely_state_seq, simp only: id_apply guard if_False, rule surely_lift_seq [OF refl])
    show "surely (ready f bs ?r) (case map_of (tr_packets ?r) (wd_first v + int i) of
             Some existing \<Rightarrow>
               if pk_offset existing \<noteq> int (piece_offset k v i)
                  \<or> length (pk_bytes existing) \<noteq> length (wd_pieces v ! i)
                  \<or> \<not> equalBytes (pk_sha256 existing) (sha (wd_pieces v ! i))
                  \<or> \<not> equalBytes (pk_bytes existing) (wd_pieces v ! i)
               then raise (SdkErr integrityFailure) else ret ()
           | None \<Rightarrow>
               if ro_maximumWindowPackets (tr_options ?r) \<le> int (length (tr_packets ?r))
                  \<or> list_ex (\<lambda>(_, candidate). overlaps candidate ?m) (tr_packets ?r)
                  \<or> MAXIMUM_QUEUED_BYTES < tr_bufferedBytes ?r + int (length (wd_pieces v ! i)) + 80
               then raise (SdkErr protocolFailure)
               else set_receiver (\<lambda>r. r\<lparr>tr_packets := tr_packets r @ [(wd_first v + int i, ?m)],
                      tr_bufferedBytes := tr_bufferedBytes r + int (length (wd_pieces v ! i)) + 80\<rparr>))
        (\<lambda>_. ready f bs (with_pieces sha k v (arrives ds i) r))"
    proof (cases "i \<in> set ds")
      case True
      then show ?thesis by (auto simp: map_of_pieces m arrives_def intro!: triple_ret)
    next
      case False
      have fresh: "distinct (ds @ [i])" "set (ds @ [i]) \<subseteq> {..<length (wd_pieces v)}" using assms(3,4) i False by auto
      have "\<not> overlaps (snd (piece_packet sha k v j)) ?m" if "j \<in> set ds" for j
        using pieces_apart [of j v i sha k] that assms(4) i False m by auto
      then have "\<not> list_ex (\<lambda>(_, candidate). overlaps candidate ?m) (map (piece_packet sha k v) ds)"
        by (auto simp: list_ex_iff piece_packet_def)
      moreover have "int (length ds) < ro_maximumWindowPackets (tr_options r)"
        using distinct_few [OF fresh] assms(1) by (simp add: window_fits_def)
      moreover have "\<not> MAXIMUM_QUEUED_BYTES < tr_bufferedBytes ?r + int (length (wd_pieces v ! i)) + 80"
        using distinct_sum [OF fresh] assms(1) by (simp add: window_fits_def with_pieces_def)
      ultimately have "surely (ready f bs ?r) (if ro_maximumWindowPackets (tr_options ?r) \<le> int (length (tr_packets ?r))
                  \<or> list_ex (\<lambda>(_, candidate). overlaps candidate ?m) (tr_packets ?r)
                  \<or> MAXIMUM_QUEUED_BYTES < tr_bufferedBytes ?r + int (length (wd_pieces v ! i)) + 80
               then raise (SdkErr protocolFailure)
               else set_receiver (\<lambda>r. r\<lparr>tr_packets := tr_packets r @ [(wd_first v + int i, ?m)],
                      tr_bufferedBytes := tr_bufferedBytes r + int (length (wd_pieces v ! i)) + 80\<rparr>))
        (\<lambda>_. ready f bs (with_pieces sha k v (arrives ds i) r))"
        using False
        by (auto simp: arrives_def with_pieces_def piece_packet_def add.assoc intro!: triple_post [OF surely_set])
      with False show ?thesis by (simp add: map_of_pieces)
    qed
  qed
  have "surely (ready f bs ?r) (receive_frame (\<lambda>bs. Inr (sha bs)) f (piece_frame k v i)) (\<lambda>_. ready f bs (with_pieces sha k v (arrives ds i) r))"
    unfolding piece_frame_def receive_frame_def v2_frame.case by (rule triple_seq [OF data]) (auto intro: triple_ret)
  with surely_receive [of ?r f bs "\<lambda>bs. Inr (sha bs)" "piece_frame k v i"] assms(1)
  show ?thesis by (simp add: window_fits_def session_frame_def)
qed

text \<open>A round: pieces, then the end of the window.\<close>

fun receive_all ::
    "(bytes \<Rightarrow> js_error + bytes) \<Rightarrow> jsstring \<times> jsstring \<Rightarrow> v2_transfer_frame list \<Rightarrow> ('z upload_world_scheme, unit) prog" where
  "receive_all sha256 f [] = ret ()"
| "receive_all sha256 f (frame # frames) = seq (receive sha256 f frame) (\<lambda>_. receive_all sha256 f frames)"

definition window_round ::
    "(bytes \<Rightarrow> js_error + bytes) \<Rightarrow> jsstring \<times> jsstring \<Rightarrow> v2_transfer_frame list \<Rightarrow> v2_transfer_frame
      \<Rightarrow> ('z upload_world_scheme, receiver_event option) prog" where
  "window_round sha256 f frames boundary = seq (receive_all sha256 f frames) (\<lambda>_. receive sha256 f boundary)"

definition piece_round :: "int \<Rightarrow> nat \<Rightarrow> window \<Rightarrow> nat list \<Rightarrow> v2_transfer_frame list" where
  "piece_round sid k v is = map (\<lambda>i. session_frame sid (piece_frame k v i)) is"

lemma surely_pieces:
  assumes "window_fits k v r" and "list_all (wanted v r) is" and "distinct ds" and "set ds \<subseteq> {..<length (wd_pieces v)}"
  shows "surely (ready f bs (with_pieces sha k v ds r)) (receive_all (\<lambda>bs. Inr (sha bs)) f (piece_round (session r) k v is))
    (\<lambda>_. ready f bs (with_pieces sha k v (foldl arrives ds is) r))"
  using assms(2-4)
proof (induction "is" arbitrary: ds)
  case Nil
  then show ?case by (auto simp: piece_round_def intro: triple_ret)
next
  case (Cons i rest)
  then have "i < length (wd_pieces v)" by (simp add: wanted_def)
  with Cons.prems show ?case
    unfolding piece_round_def list.map receive_all.simps
    by (intro triple_seq [OF surely_piece [OF assms(1)]])
      (use Cons.IH [of "arrives ds i"] in \<open>simp_all add: piece_round_def\<close>)
qed

lemma set_foldl_arrives [simp]: "set (foldl arrives ds is) = set ds \<union> set is"
  by (induction "is" arbitrary: ds) auto

lemma distinct_foldl_arrives [simp]: "distinct ds \<Longrightarrow> distinct (foldl arrives ds is)"
  by (induction "is" arbitrary: ds) auto

section \<open>The end of a round\<close>

definition absent :: "window \<Rightarrow> nat set \<Rightarrow> int list" where
  "absent v D = map (\<lambda>i. wd_first v + int i) (filter (\<lambda>i. i \<notin> D) [0..<length (wd_pieces v)])"

lemma sequence_range: "[wd_first v..window_last v] = map (\<lambda>i. wd_first v + int i) [0..<length (wd_pieces v)]"
proof -
  have "[a..a + int n - 1] = map (\<lambda>i. a + int i) [0..<n]" for a n
  proof (induction n)
    case (Suc n)
    have "[a..a + int (Suc n) - 1] = [a..a + int n - 1] @ [a + int n]"
      using upto_rec2 [of a "a + int n"] by simp
    with Suc show ?case by simp
  qed simp
  then show ?thesis by (simp add: window_last_def)
qed

lemma missing_pieces:
  "missing_sequences (map (piece_packet sha k v) ds) (window_boundary sha bs v) = absent v (set ds)"
proof -
  have "filter (\<lambda>s. map_of packets s = None) (map g xs) = map g (filter (\<lambda>i. map_of packets (g i) = None) xs)"
    for g :: "nat \<Rightarrow> int" and packets :: "(int \<times> packet) list" and xs
    by (simp add: filter_map comp_def)
  then show ?thesis
    unfolding missing_sequences_def window_boundary_def window_end.simps sequence_range absent_def
    by (simp add: map_of_pieces)
qed

lemma absent_none: "absent v D = [] \<longleftrightarrow> {..<length (wd_pieces v)} \<subseteq> D"
  by (auto simp: absent_def filter_empty_conv)

lemma absent_few: "length (absent v D) \<le> length (wd_pieces v)"
  unfolding absent_def by (metis length_filter_le length_map length_upt minus_nat.diff_0)

text \<open>The loop over the pieces that are there without a gap.\<close>

lemma pieces_contiguous:
 "\<exists>e h. contiguous (map (piece_packet sha k v) ds) (map (\<lambda>i. wd_first v + int i) [j..<length (wd_pieces v)])
    (int (piece_offset k v j)) h0 = Inr (e, h)"
proof (induction "length (wd_pieces v) - j" arbitrary: j h0)
  case 0
  then show ?case by simp
next
  case (Suc n)
  then have j: "j < length (wd_pieces v)" by simp
  then have upt: "[j..<length (wd_pieces v)] = j # [Suc j..<length (wd_pieces v)]" by (simp add: upt_conv_Cons)
  have off: "int (piece_offset k v j) + int (length (wd_pieces v ! j)) = int (piece_offset k v (Suc j))"
    using piece_offset_Suc [OF j] by simp
  from Suc(1) [of "Suc j"] Suc(2) show ?case
    unfolding upt by (auto simp: map_of_pieces piece_packet_def off)
qed

lemma packet_bytes_pieces:
  assumes "{..<length (wd_pieces v)} \<subseteq> set ds"
  shows "packet_bytes (map (piece_packet sha k v) ds) (map (\<lambda>i. wd_first v + int i) [0..<length (wd_pieces v)])
    = concat (wd_pieces v)"
proof -
  have "map (\<lambda>i. pk_bytes (the (map_of (map (piece_packet sha k v) ds) (wd_first v + int i)))) [0..<length (wd_pieces v)]
      = map ((!) (wd_pieces v)) [0..<length (wd_pieces v)]"
    using assms by (auto simp: map_of_pieces piece_packet_def)
  then show ?thesis by (simp add: packet_bytes_def comp_def map_nth)
qed

lemma surely_flush:
  assumes "all_present packets seqs" and "contiguous packets seqs (int (length bs)) h0 = Inr (e, h)"
    and "small_blob (bs @ packet_bytes packets seqs)"
  shows "surely (ready f bs r) (flush_packets f packets seqs (int (length bs))) (\<lambda>_. ready f (bs @ packet_bytes packets seqs) r)"
  using assms
proof (induction seqs arbitrary: bs h0)
  case Nil
  then show ?case by (auto simp: packet_bytes_def intro: triple_ret)
next
  case (Cons s rest)
  from Cons.prems(1) obtain p where p: "map_of packets s = Some p" by (auto simp: all_present_def)
  with Cons.prems(2) have off: "pk_offset p = int (length bs)"
    and rest: "contiguous packets rest (int (length (bs @ pk_bytes p))) s = Inr (e, h)" by (auto split: if_splits)
  have all: "packet_bytes packets (s # rest) = pk_bytes p @ packet_bytes packets rest" by (simp add: packet_bytes_def p)
  from Cons.prems(3) have small: "small_blob ((bs @ pk_bytes p) @ packet_bytes packets rest)" "small_blob (bs @ pk_bytes p)"
    "safeNumber (int (length bs)) = Inr (int (length bs))"
    by (simp_all add: all small_blob_def safeNumber_def)
  from Cons.prems(1) have present: "all_present packets rest" by (simp add: all_present_def)
  show ?case
    unfolding flush_packets.simps p option.case off all
    by (rule surely_lift_seq [OF small(3)], simp only: if_False not_True_eq_False simp_thms, rule surely_append_seq [OF small(2)])
      (use Cons.IH [OF present rest small(1)] in simp)
qed

lemma boundary_simps [simp]:
  "we_firstSequence (window_boundary sha bs v) = wd_first v" "we_lastSequence (window_boundary sha bs v) = window_last v"
  "we_nextCiphertextOffset (window_boundary sha bs v) = int (length (bs @ concat (wd_pieces v)))"
  "we_prefixSha256 (window_boundary sha bs v) = sha (bs @ concat (wd_pieces v))"
  "we_checkpointRevision (window_boundary sha bs v) = wd_revision v"
  by (simp_all add: window_boundary_def)

lemma boundary_run:
  "receive_frame sha256 f (boundary_frame e) = seq (receiveWindowEnd sha256 f e) (\<lambda>event. ret (Some event))"
  by (cases e) (simp add: boundary_frame_def receive_frame_def)

definition same_boundary :: "window_end \<Rightarrow> receiver \<Rightarrow> bool" where
  "same_boundary e r \<longleftrightarrow> (case tr_pendingWindow r of None \<Rightarrow> True | Some p \<Rightarrow> pw_boundary p = e)"

lemma honest_acceptable:
  assumes "window_fits (length bs) v r" and "same_boundary (window_boundary sha bs v) r" and "set ds \<subseteq> {..<length (wd_pieces v)}"
    and "\<And>x. length (sha x) = 32"
  shows "window_acceptable (with_pieces sha (length bs) v ds r) (window_boundary sha bs v)"
proof -
  have "list_all (\<lambda>(s, _). wd_first v \<le> s \<and> s \<le> window_last v) (map (piece_packet sha (length bs) v) ds)"
    using assms(3) by (fastforce simp: list_all_iff piece_packet_def window_last_def)
  moreover have "0 < length (wd_pieces v)" "0 < length (concat (wd_pieces v))"
    using assms(1) by (auto simp: window_fits_def list_all_iff neq_Nil_conv)
  ultimately show ?thesis
    using assms(1,2,4)
    by (auto simp: window_acceptable_def window_fits_def same_boundary_def sameWindow_def window_last_def split: option.splits)
qed

lemma surely_prospective_seq:
  assumes "small_blob bs" and "nc_nextCiphertextOffset (tr_checkpoint r) = int (length bs)"
    and "sha256 (feed_packets (tr_packets r) [a..b] bs) = Inr digest" and "surely (ready f bs r) (h digest) Q"
  shows "surely (ready f bs r) (seq (hashProspectivePrefix sha256 f a b) h) Q"
proof -
  have safe: "safeNumber (nc_nextCiphertextOffset (tr_checkpoint (id r))) = Inr (int (length bs))"
    using assms(1,2) by (simp add: safeNumber_def small_blob_def)
  have fed: "surely (ready f bs r) (seq (stream_while f (prospective_chunk (int (length bs))) []) (\<lambda>fed.
      seq (if int (length fed) \<noteq> int (length bs) then raise (SdkErr integrityFailure)
           else lift_sum (sha256 (feed_packets (tr_packets (id r)) [a..b] fed))) h)) Q"
    by (rule surely_stream_seq [OF assms(1) surely_prospective [OF assms(1)]])
      (use surely_lift_seq [where h = h, OF assms(3,4)] in simp)
  show ?thesis
    unfolding hashProspectivePrefix_def seq_assoc by (intro surely_state_seq surely_lift_seq [OF safe] fed)
qed

lemma surely_window_end:
  assumes fits: "window_fits (length bs) v r" and same: "same_boundary (window_boundary sha bs v) r"
    and ds: "distinct ds" "set ds \<subseteq> {..<length (wd_pieces v)}" and sha: "\<And>x. length (sha x) = 32"
  shows "surely (ready f bs (with_pieces sha (length bs) v ds r) :: 'z upload_world_scheme \<Rightarrow> bool)
    (receive (\<lambda>bs. Inr (sha bs)) f (session_frame (session r) (boundary_frame (window_boundary sha bs v))))
    (\<lambda>event w. event = Some (Window_staged (boundary_checkpoint (window_boundary sha bs v)) (absent v (set ds)))
       \<and> (\<exists>e h digest. ready f (if absent v (set ds) = [] then bs @ concat (wd_pieces v) else bs)
            (staged_receiver (with_pieces sha (length bs) v ds r) (window_boundary sha bs v) e h digest) w))"
    (is "surely (?P) _ ?Q")
proof -
  let ?B = "window_boundary sha bs v" and ?k = "length bs"
  let ?r = "with_pieces sha ?k v ds r" and ?seqs = "[wd_first v..window_last v]"
  let ?packets = "map (piece_packet sha ?k v) ds"
  let ?sha256 = "\<lambda>bs. Inr (sha bs) :: js_error + bytes"
  let ?h0 = "if wd_first v = 0 then 0 else wd_first v - 1"
  from fits have len: "int (length (bs @ concat (wd_pieces v))) \<le> max_safe_integer"
    by (simp add: window_fits_def)
  then have small: "small_blob (bs @ concat (wd_pieces v))" "small_blob bs"
    and safe: "safeNumber (int ?k) = Inr (int ?k)" by (simp_all add: small_blob_def safeNumber_def)
  have ckpt: "nc_nextCiphertextOffset (tr_checkpoint r) = int ?k" using fits by (simp add: window_fits_def)
  from pieces_contiguous [of sha ?k v ds 0 ?h0] obtain e h where
    run: "contiguous ?packets ?seqs (int ?k) ?h0 = Inr (e, h)"
    unfolding sequence_range by (auto simp: piece_offset_def)
  have missing: "missing_sequences ?packets ?B = absent v (set ds)" by (rule missing_pieces)
  have few: "\<not> ro_maximumMissingSequences (tr_options r) < int (length (absent v (set ds)))"
    using fits absent_few [of v "set ds"] by (simp add: window_fits_def)
  define digest where "digest = sha (feed_packets ?packets [wd_first v..h] bs)"
  have note_run: "surely (ready f bs' ?r :: 'z upload_world_scheme \<Rightarrow> bool) (note_window ?B (absent v (set ds)) e h digest)
      (\<lambda>event w. event = Window_staged (boundary_checkpoint ?B) (absent v (set ds))
        \<and> ready f bs' (staged_receiver ?r ?B e h digest) w)" for bs'
    unfolding note_window_def
    by (rule surely_set_seq, rule triple_ret) (simp add: staged_receiver_def missing)
  have stage: "surely ?P (stage_window f ?B (absent v (set ds)) e h digest)
      (\<lambda>event w. event = Window_staged (boundary_checkpoint ?B) (absent v (set ds))
        \<and> ready f (if absent v (set ds) = [] then bs @ concat (wd_pieces v) else bs) (staged_receiver ?r ?B e h digest) w)"
  proof (cases "absent v (set ds) = []")
    case False
    with note_run [of bs] show ?thesis by (simp add: stage_window_def)
  next
    case True
    then have all: "{..<length (wd_pieces v)} \<subseteq> set ds" by (simp add: absent_none)
    from packet_bytes_pieces [OF all] have pieces: "packet_bytes ?packets ?seqs = concat (wd_pieces v)"
      by (simp add: sequence_range)
    have present: "all_present ?packets ?seqs" using True missing missing_none [of ?packets ?B] by simp
    from contiguous_all [OF run present] pieces have e: "e = int (length (bs @ concat (wd_pieces v)))" and h: "h = window_last v"
    proof -
      have "?seqs \<noteq> []" "last ?seqs = window_last v"
        using fits by (auto simp: window_last_def window_fits_def upto_rec2 Suc_le_eq)
      with contiguous_all [OF run present] pieces
      show "e = int (length (bs @ concat (wd_pieces v)))" "h = window_last v" by auto
    qed
    have digest: "digest = sha (bs @ concat (wd_pieces v))"
      unfolding digest_def h using feed_all [OF present] pieces by simp
    have "surely ?P (flush_packets f ?packets ?seqs (int ?k)) (\<lambda>_. ready f (bs @ concat (wd_pieces v)) ?r)"
      using surely_flush [OF present run, of f ?r] pieces small(1) by simp
    then have flush: "surely ?P (seq (flushWindow f (wd_first v) (window_last v)) (\<lambda>_. note_window ?B [] e h digest))
        (\<lambda>event w. event = Window_staged (boundary_checkpoint ?B) (absent v (set ds))
        \<and> ready f (bs @ concat (wd_pieces v)) (staged_receiver ?r ?B e h digest) w)"
      unfolding flushWindow_def seq_assoc
      by (intro surely_state_seq) (simp add: ckpt, rule surely_lift_seq [OF safe], rule triple_seq, assumption,
        use note_run True in simp)
    with True e digest show ?thesis by (simp add: stage_window_def)
  qed
  have hashed: "surely ?P (seq (hashProspectivePrefix ?sha256 f (wd_first v) h) (stage_window f ?B (absent v (set ds)) e h))
      (\<lambda>event w. event = Window_staged (boundary_checkpoint ?B) (absent v (set ds))
        \<and> ready f (if absent v (set ds) = [] then bs @ concat (wd_pieces v) else bs) (staged_receiver ?r ?B e h digest) w)"
    using surely_prospective_seq [where h = "stage_window f ?B (absent v (set ds)) e h" and ?sha256.0 = ?sha256 and r = ?r and digest = digest, OF small(2) _ _ stage] ckpt digest_def by simp
  have "surely ?P (receiveWindowEnd ?sha256 f ?B)
      (\<lambda>event w. event = Window_staged (boundary_checkpoint ?B) (absent v (set ds))
        \<and> ready f (if absent v (set ds) = [] then bs @ concat (wd_pieces v) else bs) (staged_receiver ?r ?B e h digest) w)"
    unfolding receiveWindowEnd_def Let_def
    by (rule surely_state_seq, simp only: id_apply with_pieces_simps boundary_simps missing few ckpt
        honest_acceptable [OF fits same ds(2) sha] not_True_eq_False if_False, rule surely_lift_seq [OF run], simp only: prod.case, rule hashed)
  then have frame: "surely ?P (receive_frame ?sha256 f (boundary_frame ?B)) ?Q"
    unfolding boundary_run by (rule triple_seq) (auto intro!: triple_ret)
  from fits have "active ?r" "\<not> tr_completed ?r" by (simp_all add: window_fits_def)
  from surely_receive [OF this frame] show ?thesis by (simp only: session_frame_def with_pieces_simps)
qed

section \<open>A window in rounds\<close>

text \<open>
  In which rounds the pieces arrive: the first may send any of them, a later one only what is missing, and the
  window is complete after the last round and not before.
\<close>

fun rounds_cover :: "nat \<Rightarrow> nat set \<Rightarrow> nat list list \<Rightarrow> bool" where
  "rounds_cover n D [] \<longleftrightarrow> False"
| "rounds_cover n D (is # rest) \<longleftrightarrow>
     (\<forall>i \<in> set is. i < n \<and> i \<notin> D)
     \<and> (if rest = [] then \<forall>i < n. i \<in> D \<union> set is
        else (\<exists>i < n. i \<notin> D \<union> set is) \<and> rounds_cover n (D \<union> set is) rest)"

fun receive_rounds ::
    "(bytes \<Rightarrow> js_error + bytes) \<Rightarrow> jsstring \<times> jsstring \<Rightarrow> v2_transfer_frame list list \<Rightarrow> v2_transfer_frame
      \<Rightarrow> ('z upload_world_scheme, unit) prog" where
  "receive_rounds sha256 f [] boundary = ret ()"
| "receive_rounds sha256 f (frames # rest) boundary =
     seq (window_round sha256 f frames boundary) (\<lambda>_. receive_rounds sha256 f rest boundary)"

text \<open>The rounds of a window, and what the host does when it is complete and has been saved.\<close>

definition take_window ::
    "(bytes \<Rightarrow> js_error + bytes) \<Rightarrow> jsstring \<times> jsstring \<Rightarrow> native_checkpoint \<Rightarrow> v2_transfer_frame list list \<Rightarrow> v2_transfer_frame
      \<Rightarrow> ('z upload_world_scheme, v2_transfer_frame) prog" where
  "take_window sha256 f c rounds boundary =
     seq (receive_rounds sha256 f rounds boundary) (\<lambda>_. seq (checkpointDidPersist c) (\<lambda>_. windowAcknowledgement c))"

definition waiting :: "(bytes \<Rightarrow> bytes) \<Rightarrow> bytes \<Rightarrow> window \<Rightarrow> nat list \<Rightarrow> receiver \<Rightarrow> bool" where
  "waiting sha bs v ds r \<longleftrightarrow> distinct ds \<and> set ds \<subseteq> {..<length (wd_pieces v)} \<and>
     (case tr_pendingWindow r of
        None \<Rightarrow> ds = []
      | Some p \<Rightarrow> pw_boundary p = window_boundary sha bs v \<and> pw_missingSequences p = absent v (set ds))"

definition with_pending :: "receiver \<Rightarrow> pending_window \<Rightarrow> receiver" where
  "with_pending r p = r\<lparr>tr_pendingWindow := Some p\<rparr>"

lemma with_pending_simps [simp]:
  "tr_options (with_pending r p) = tr_options r" "tr_pendingWindow (with_pending r p) = Some p"
  "window_fits k v (with_pending r p) = window_fits k v r" "with_pending (with_pending r p) q = with_pending r q"
  by (simp_all add: with_pending_def window_fits_def active_def)

lemma waiting_wanted:
  assumes "waiting sha bs v ds r" and "\<forall>i \<in> set is. i < length (wd_pieces v) \<and> i \<notin> set ds"
  shows "list_all (wanted v r) is"
  using assms by (auto simp: list_all_iff waiting_def wanted_def absent_def split: option.splits)

lemma staged_holding:
  "\<exists>p. staged_receiver (with_pieces sha k v ds r) (window_boundary sha bs v) e h digest = with_pieces sha k v ds (with_pending r p)
     \<and> pw_boundary p = window_boundary sha bs v \<and> pw_missingSequences p = absent v (set ds)
     \<and> pw_checkpoint p = boundary_checkpoint (window_boundary sha bs v)"
  by (rule exI [of _ "the (tr_pendingWindow (staged_receiver (with_pieces sha k v ds r) (window_boundary sha bs v) e h digest))"])
    (simp add: staged_receiver_def with_pending_def with_pieces_def missing_pieces)

lemma surely_round:
  assumes "window_fits (length bs) v r" and w: "waiting sha bs v ds r"
    and "\<forall>i \<in> set is. i < length (wd_pieces v) \<and> i \<notin> set ds" and sha: "\<And>x. length (sha x) = 32"
  shows "surely (ready f bs (with_pieces sha (length bs) v ds r) :: 'z upload_world_scheme \<Rightarrow> bool)
    (window_round (\<lambda>bs. Inr (sha bs)) f (piece_round (session r) (length bs) v is)
      (session_frame (session r) (boundary_frame (window_boundary sha bs v))))
    (\<lambda>_ w. \<exists>ds' p. set ds' = set ds \<union> set is \<and> waiting sha bs v ds' (with_pending r p)
       \<and> pw_checkpoint p = boundary_checkpoint (window_boundary sha bs v)
       \<and> ready f (if absent v (set ds') = [] then bs @ concat (wd_pieces v) else bs)
            (with_pieces sha (length bs) v ds' (with_pending r p)) w)"
  unfolding window_round_def
proof (rule triple_seq [OF surely_pieces [OF assms(1) waiting_wanted [OF w assms(3)]]])
  let ?ds = "foldl arrives ds is"
  have ds: "distinct ?ds" "set ?ds \<subseteq> {..<length (wd_pieces v)}" using w assms(3) by (auto simp: waiting_def)
  have same: "same_boundary (window_boundary sha bs v) r"
    using w by (auto simp: same_boundary_def waiting_def split: option.splits)
  show "surely (ready f bs (with_pieces sha (length bs) v ?ds r) :: 'z upload_world_scheme \<Rightarrow> bool)
      (receive (\<lambda>bs. Inr (sha bs)) f (session_frame (session r) (boundary_frame (window_boundary sha bs v))))
      (\<lambda>_ w. \<exists>ds' p. set ds' = set ds \<union> set is \<and> waiting sha bs v ds' (with_pending r p)
       \<and> pw_checkpoint p = boundary_checkpoint (window_boundary sha bs v)
       \<and> ready f (if absent v (set ds') = [] then bs @ concat (wd_pieces v) else bs)
            (with_pieces sha (length bs) v ds' (with_pending r p)) w)"
  proof (rule triple_post [OF surely_window_end [OF assms(1) same ds sha]])
    fix event :: "receiver_event option" and w1 :: "'z upload_world_scheme"
    assume "event = Some (Window_staged (boundary_checkpoint (window_boundary sha bs v)) (absent v (set ?ds)))
       \<and> (\<exists>e h digest. ready f (if absent v (set ?ds) = [] then bs @ concat (wd_pieces v) else bs)
            (staged_receiver (with_pieces sha (length bs) v ?ds r) (window_boundary sha bs v) e h digest) w1)"
    then obtain e h digest where out: "ready f (if absent v (set ?ds) = [] then bs @ concat (wd_pieces v) else bs)
            (staged_receiver (with_pieces sha (length bs) v ?ds r) (window_boundary sha bs v) e h digest) w1" by blast
    obtain p where p: "staged_receiver (with_pieces sha (length bs) v ?ds r) (window_boundary sha bs v) e h digest
        = with_pieces sha (length bs) v ?ds (with_pending r p)" "pw_boundary p = window_boundary sha bs v"
      "pw_missingSequences p = absent v (set ?ds)" "pw_checkpoint p = boundary_checkpoint (window_boundary sha bs v)"
      using staged_holding by blast
    have "waiting sha bs v ?ds (with_pending r p)" using ds p by (simp add: waiting_def)
    with out p show "\<exists>ds' p. set ds' = set ds \<union> set is \<and> waiting sha bs v ds' (with_pending r p)
       \<and> pw_checkpoint p = boundary_checkpoint (window_boundary sha bs v)
       \<and> ready f (if absent v (set ds') = [] then bs @ concat (wd_pieces v) else bs)
            (with_pieces sha (length bs) v ds' (with_pending r p)) w1"
      by (intro exI [of _ ?ds] exI [of _ p]) simp
  qed
qed (use w in \<open>simp_all add: waiting_def\<close>)

text \<open>A window that has been written: what the host may now do.\<close>

definition complete :: "(bytes \<Rightarrow> bytes) \<Rightarrow> bytes \<Rightarrow> window \<Rightarrow> jsstring \<times> jsstring \<Rightarrow> receiver \<Rightarrow> 'z upload_world_scheme \<Rightarrow> bool" where
  "complete sha bs v f r w \<longleftrightarrow>
     (\<exists>ds p. pw_missingSequences p = [] \<and> pw_boundary p = window_boundary sha bs v
        \<and> pw_checkpoint p = boundary_checkpoint (window_boundary sha bs v)
        \<and> ready f (bs @ concat (wd_pieces v)) (with_pieces sha (length bs) v ds (with_pending r p)) w)"

lemma triple_exists: "(\<And>x. triple (P x) m Q E C) \<Longrightarrow> triple (\<lambda>w. \<exists>x. P x w) m Q E C"
  by (rule tripleI, erule exE, rule tripleD)

lemma surely_rounds:
  assumes "window_fits (length bs) v r" and "waiting sha bs v ds r" and "rounds_cover (length (wd_pieces v)) (set ds) rounds"
    and sha: "\<And>x. length (sha x) = 32"
  shows "surely (ready f bs (with_pieces sha (length bs) v ds r) :: 'z upload_world_scheme \<Rightarrow> bool)
    (receive_rounds (\<lambda>bs. Inr (sha bs)) f (map (piece_round (session r) (length bs) v) rounds)
      (session_frame (session r) (boundary_frame (window_boundary sha bs v))))
    (\<lambda>_. complete sha bs v f r)"
  using assms(1-3)
proof (induction rounds arbitrary: ds r)
  case (Cons "is" rest)
  have sent: "\<forall>i \<in> set is. i < length (wd_pieces v) \<and> i \<notin> set ds" using Cons.prems(3) by simp
  have later: "surely (\<lambda>w. set ds' = set ds \<union> set is \<and> waiting sha bs v ds' (with_pending r p)
       \<and> pw_checkpoint p = boundary_checkpoint (window_boundary sha bs v)
       \<and> ready f (if absent v (set ds') = [] then bs @ concat (wd_pieces v) else bs)
            (with_pieces sha (length bs) v ds' (with_pending r p)) (w :: 'z upload_world_scheme))
    (receive_rounds (\<lambda>bs. Inr (sha bs)) f (map (piece_round (session r) (length bs) v) rest)
      (session_frame (session r) (boundary_frame (window_boundary sha bs v))))
    (\<lambda>_. complete sha bs v f r)" (is "surely (?S ds' p) ?prog _") for ds' p
  proof (cases "set ds' = set ds \<union> set is \<and> waiting sha bs v ds' (with_pending r p)
       \<and> pw_checkpoint p = boundary_checkpoint (window_boundary sha bs v)")
    case True
    then have p: "pw_boundary p = window_boundary sha bs v" "pw_missingSequences p = absent v (set ds')"
      by (simp_all add: waiting_def)
    show ?thesis
    proof (cases "rest = []")
      case last: True
      with Cons.prems(3) True have "absent v (set ds') = []" by (auto simp: absent_none)
      with last p True show ?thesis by (auto simp: complete_def intro!: triple_ret exI [of _ ds'] exI [of _ p])
    next
      case False
      with Cons.prems(3) True have cover: "rounds_cover (length (wd_pieces v)) (set ds') rest"
        and absent: "absent v (set ds') \<noteq> []" by (auto simp: absent_none)
      have "surely (ready f bs (with_pieces sha (length bs) v ds' (with_pending r p)) :: 'z upload_world_scheme \<Rightarrow> bool) ?prog (\<lambda>_. complete sha bs v f (with_pending r p))"
        using Cons.IH [of "with_pending r p" ds'] Cons.prems(1) True cover by simp
      then show ?thesis
        by (rule triple_weaken) (use absent in \<open>auto simp: complete_def\<close>)
    qed
  qed (auto simp: triple_def)
  show ?case
    unfolding list.map receive_rounds.simps
    by (rule triple_seq [OF surely_round [OF Cons.prems(1,2) sent sha]], rule triple_exists, rule triple_exists, rule later)
qed simp

section \<open>One window after the other\<close>

text \<open>A receiver between two windows.\<close>

definition idle :: "receiver \<Rightarrow> bool" where
  "idle r \<longleftrightarrow> tr_pendingWindow r = None \<and> tr_packets r = [] \<and> tr_bufferedBytes r = 0"

abbreviation at_checkpoint :: "receiver \<Rightarrow> native_checkpoint \<Rightarrow> receiver" where
  "at_checkpoint r c \<equiv> r\<lparr>tr_checkpoint := c\<rparr>"

lemma idle_holding: "idle r \<Longrightarrow> with_pieces sha k v [] r = r"
  by (cases r) (simp add: idle_def with_pieces_def)

lemma acknowledges:
  assumes "idle r" and "complete sha bs v f r w" and c: "c = boundary_checkpoint (window_boundary sha bs v)"
  shows "\<exists>w'. seq (checkpointDidPersist c) (\<lambda>_. windowAcknowledgement c) w = (Some (Inr (session_frame (session r)
      (F_window_ack (wd_index v) (window_last v) (nc_nextCiphertextOffset c) (nc_prefixSha256 c) (nc_revision c) []))), w')
    \<and> ready f (bs @ concat (wd_pieces v)) (at_checkpoint r c) w'"
proof -
  from assms(2) obtain ds p where p: "pw_missingSequences p = []" "pw_boundary p = window_boundary sha bs v" "pw_checkpoint p = c"
    and s: "ready f (bs @ concat (wd_pieces v)) (with_pieces sha (length bs) v ds (with_pending r p)) w"
    unfolding complete_def c by blast
  let ?r = "with_pieces sha (length bs) v ds (with_pending r p)"
  from s have r: "vw_receiver w = ?r" by (simp add: ready_def blob_holds_def)
  let ?r2 = "?r\<lparr>tr_pendingWindow := Some (p\<lparr>pw_persisted := True\<rparr>), tr_checkpoint := c, tr_packets := [], tr_bufferedBytes := 0,
    tr_pendingWindow := None\<rparr>"
  have "?r2 = at_checkpoint r c"
    using assms(1) by (cases r) (simp add: idle_def with_pieces_def with_pending_def)
  moreover have "we_windowIndex (window_boundary sha bs v) = wd_index v" by (simp add: window_boundary_def)
  ultimately have "seq (checkpointDidPersist c) (\<lambda>_. windowAcknowledgement c) w = (Some (Inr (session_frame (session r)
      (F_window_ack (wd_index v) (window_last v) (nc_nextCiphertextOffset c) (nc_prefixSha256 c) (nc_revision c) []))),
      w\<lparr>vw_receiver := at_checkpoint r c\<rparr>)"
    using r p by (simp add: checkpointDidPersist_def windowAcknowledgement_def receiver_state_def set_receiver_def
        modify_def seq_def get_def ret_def acknowledgement_def session_frame_def c boundary_checkpoint_def)
  moreover have "ready f (bs @ concat (wd_pieces v)) (at_checkpoint r c) (w\<lparr>vw_receiver := at_checkpoint r c\<rparr>)"
    using s by (simp add: ready_def blob_holds_def answering_def)
  ultimately show ?thesis by blast
qed

lemma surely_take_window:
  assumes "window_fits (length bs) v r" and "idle r" and "rounds_cover (length (wd_pieces v)) {} rounds"
    and sha: "\<And>x. length (sha x) = 32" and c: "c = boundary_checkpoint (window_boundary sha bs v)"
  shows "surely (ready f bs r :: 'z upload_world_scheme \<Rightarrow> bool)
    (take_window (\<lambda>bs. Inr (sha bs)) f c (map (piece_round (session r) (length bs) v) rounds)
      (session_frame (session r) (boundary_frame (window_boundary sha bs v))))
    (\<lambda>frame w. frame = session_frame (session r) (F_window_ack (wd_index v) (window_last v) (nc_nextCiphertextOffset c)
         (nc_prefixSha256 c) (nc_revision c) [])
       \<and> ready f (bs @ concat (wd_pieces v)) (at_checkpoint r c) w)"
  unfolding take_window_def
proof (rule triple_seq)
  have "waiting sha bs v [] r" using assms(2) by (simp add: waiting_def idle_def)
  from surely_rounds [OF assms(1) this _ sha] assms(3) idle_holding [OF assms(2)]
  show "surely (ready f bs r :: 'z upload_world_scheme \<Rightarrow> bool)
      (receive_rounds (\<lambda>bs. Inr (sha bs)) f (map (piece_round (session r) (length bs) v) rounds)
        (session_frame (session r) (boundary_frame (window_boundary sha bs v))))
      (\<lambda>_. complete sha bs v f r)" by simp
next
  fix u :: unit
  show "surely (complete sha bs v f r) (seq (checkpointDidPersist c) (\<lambda>_. windowAcknowledgement c))
     (\<lambda>frame w. frame = session_frame (session r) (F_window_ack (wd_index v) (window_last v) (nc_nextCiphertextOffset c)
         (nc_prefixSha256 c) (nc_revision c) [])
       \<and> ready f (bs @ concat (wd_pieces v)) (at_checkpoint r c) (w :: 'z upload_world_scheme))"
    by (rule tripleI) (use acknowledges [OF assms(2) _ c] in \<open>fastforce split: option.splits sum.splits\<close>)
qed

type_synonym delivery = "window \<times> nat list list"

fun take_windows :: "(bytes \<Rightarrow> bytes) \<Rightarrow> jsstring \<times> jsstring \<Rightarrow> int \<Rightarrow> bytes \<Rightarrow> delivery list \<Rightarrow> ('z upload_world_scheme, unit) prog" where
  "take_windows sha f sid bs [] = ret ()"
| "take_windows sha f sid bs ((v, rounds) # rest) =
     seq (take_window (\<lambda>bs. Inr (sha bs)) f (boundary_checkpoint (window_boundary sha bs v))
       (map (piece_round sid (length bs) v) rounds) (session_frame sid (boundary_frame (window_boundary sha bs v)))) (\<lambda>_.
     take_windows sha f sid (bs @ concat (wd_pieces v)) rest)"

definition after_window :: "(bytes \<Rightarrow> bytes) \<Rightarrow> bytes \<Rightarrow> receiver \<Rightarrow> window \<Rightarrow> receiver" where
  "after_window sha bs r v = at_checkpoint r (boundary_checkpoint (window_boundary sha bs v))"

fun windows_fit :: "(bytes \<Rightarrow> bytes) \<Rightarrow> bytes \<Rightarrow> receiver \<Rightarrow> delivery list \<Rightarrow> bool" where
  "windows_fit sha bs r [] \<longleftrightarrow> True"
| "windows_fit sha bs r ((v, rounds) # rest) \<longleftrightarrow>
     window_fits (length bs) v r \<and> rounds_cover (length (wd_pieces v)) {} rounds
     \<and> windows_fit sha (bs @ concat (wd_pieces v)) (after_window sha bs r v) rest"

definition sent_bytes :: "delivery list \<Rightarrow> bytes" where
  "sent_bytes ws = concat (map (\<lambda>(v, _). concat (wd_pieces v)) ws)"

fun last_receiver :: "(bytes \<Rightarrow> bytes) \<Rightarrow> bytes \<Rightarrow> receiver \<Rightarrow> delivery list \<Rightarrow> receiver" where
  "last_receiver sha bs r [] = r"
| "last_receiver sha bs r ((v, rounds) # rest) = last_receiver sha (bs @ concat (wd_pieces v)) (after_window sha bs r v) rest"

lemma after_window_simps [simp]:
  "tr_options (after_window sha bs r v) = tr_options r" "idle (after_window sha bs r v) = idle r"
  by (simp_all add: after_window_def idle_def)

lemma surely_windows:
  assumes "windows_fit sha bs r ws" and "idle r" and sha: "\<And>x. length (sha x) = 32"
  shows "surely (ready f bs r :: 'z upload_world_scheme \<Rightarrow> bool) (take_windows sha f (session r) bs ws)
    (\<lambda>_. ready f (bs @ sent_bytes ws) (last_receiver sha bs r ws))"
  using assms(1,2)
proof (induction ws arbitrary: bs r)
  case Nil
  show ?case by (auto simp: sent_bytes_def intro: triple_ret)
next
  case (Cons x rest)
  obtain v rounds where x: "x = (v, rounds)" by fastforce
  with Cons.prems have fits: "window_fits (length bs) v r" "rounds_cover (length (wd_pieces v)) {} rounds"
    and rest: "windows_fit sha (bs @ concat (wd_pieces v)) (after_window sha bs r v) rest" by simp_all
  show ?case
    unfolding x take_windows.simps
    by (rule triple_seq [OF triple_post [OF surely_take_window [OF fits(1) Cons.prems(2) fits(2) sha refl],
            where Q' = "\<lambda>_. ready f (bs @ concat (wd_pieces v)) (after_window sha bs r v)"]])
      (use Cons.IH [OF rest] Cons.prems(2) in \<open>simp_all add: after_window_def [symmetric] sent_bytes_def\<close>)
qed

section \<open>The manifest\<close>

text \<open>What has arrived of the manifest \<open>m\<close>: the bytes at the indices in \<open>J\<close>.\<close>

definition manifest_known :: "bytes \<Rightarrow> nat set \<Rightarrow> bytes \<Rightarrow> bytes \<Rightarrow> bool" where
  "manifest_known m J manifest present \<longleftrightarrow>
     length manifest = length m \<and> length present = length m
     \<and> (\<forall>j < length m. present ! j = (if j \<in> J then 1 else 0) \<and> (j \<in> J \<longrightarrow> manifest ! j = m ! j))"

lemma manifest_byte:
  assumes "manifest_known m J manifest present" and "i < length m"
  shows "manifest_known m (insert i J) (manifest[i := m ! i]) (present[i := 1])"
  using assms by (auto simp: manifest_known_def nth_list_update)

lemma manifest_chunk:
  assumes "manifest_known m J manifest present" and "i + n \<le> length m"
  shows "\<exists>manifest' present'. write_manifest i (take n (drop i m)) (manifest, present) = ((manifest', present'), True)
    \<and> manifest_known m (J \<union> {i..<i + n}) manifest' present'"
  using assms
proof (induction n arbitrary: i J manifest present)
  case 0
  then show ?case by simp
next
  case (Suc n)
  then have i: "i < length m" by simp
  then have "take (Suc n) (drop i m) = m ! i # take n (drop (Suc i) m)" by (simp add: Cons_nth_drop_Suc [symmetric])
  moreover have "\<not> (i < length present \<and> present ! i \<noteq> 0 \<and> manifest ! i \<noteq> m ! i)"
    using Suc.prems(1) i by (auto simp: manifest_known_def split: if_splits)
  moreover have "insert i J \<union> {Suc i..<Suc i + n} = J \<union> {i..<i + Suc n}" by auto
  ultimately show ?case
    using Suc.IH [OF manifest_byte [OF Suc.prems(1) i], of "Suc i"] Suc.prems(2) by simp
qed

definition manifest_frame :: "(bytes \<Rightarrow> bytes) \<Rightarrow> bytes \<Rightarrow> nat \<times> nat \<Rightarrow> v2_frame" where
  "manifest_frame sha m = (\<lambda>(i, n). F_manifest_chunk MANIFEST_LENGTH (int i) (sha m) (take n (drop i m)))"

definition chunk_fits :: "bytes \<Rightarrow> nat \<times> nat \<Rightarrow> bool" where
  "chunk_fits m = (\<lambda>(i, n). 1 \<le> n \<and> i + n \<le> length m)"

definition chunks_cover :: "(nat \<times> nat) list \<Rightarrow> nat set" where
  "chunks_cover cs = (\<Union>(i, n) \<in> set cs. {i..<i + n})"

definition knows_manifest :: "(bytes \<Rightarrow> bytes) \<Rightarrow> bytes \<Rightarrow> nat set \<Rightarrow> receiver \<Rightarrow> receiver \<Rightarrow> bool" where
  "knows_manifest sha m J r r' \<longleftrightarrow>
     (\<exists>manifest present known. manifest_known m J manifest present \<and> (known = None \<or> known = Some (sha m))
        \<and> (J \<noteq> {} \<longrightarrow> known = Some (sha m))
        \<and> r' = r\<lparr>tr_manifest := manifest, tr_manifestPresent := present, tr_manifestSha256 := known\<rparr>)"

lemma surely_chunk:
  assumes "active r" and "\<not> tr_completed r" and "tr_pendingWindow r = None" and "knows_manifest sha m J r r1"
    and "chunk_fits m c" and m: "int (length m) = MANIFEST_LENGTH" and sha: "\<And>x. length (sha x) = 32"
  shows "surely (ready f bs r1) (receive (\<lambda>bs. Inr (sha bs)) f (session_frame (session r) (manifest_frame sha m c)))
    (\<lambda>_ w. \<exists>r2. knows_manifest sha m (J \<union> chunks_cover [c]) r r2 \<and> ready f bs r2 w)"
proof -
  obtain i n where c: "c = (i, n)" by fastforce
  with assms(5) have n: "1 \<le> n" "i + n \<le> length m" by (simp_all add: chunk_fits_def)
  from assms(4) obtain manifest present known where k: "manifest_known m J manifest present"
    "known = None \<or> known = Some (sha m)"
    and r1: "r1 = r\<lparr>tr_manifest := manifest, tr_manifestPresent := present, tr_manifestSha256 := known\<rparr>"
    unfolding knows_manifest_def by blast
  from manifest_chunk [OF k(1) n(2)] obtain manifest' present' where
    run: "write_manifest i (take n (drop i m)) (manifest, present) = ((manifest', present'), True)"
    and k': "manifest_known m (J \<union> {i..<i + n}) manifest' present'" by blast
  let ?r2 = "r1\<lparr>tr_manifest := manifest', tr_manifestPresent := present'\<rparr>\<lparr>tr_manifestSha256 := Some (sha m)\<rparr>"
  have "?r2 = r\<lparr>tr_manifest := manifest', tr_manifestPresent := present', tr_manifestSha256 := Some (sha m)\<rparr>"
    unfolding r1 by simp
  with k' have known: "knows_manifest sha m (J \<union> chunks_cover [c]) r ?r2"
    unfolding knows_manifest_def by (auto simp: chunks_cover_def c)
  have guard: "\<not> (tr_pendingWindow r1 \<noteq> None \<or> MANIFEST_LENGTH \<noteq> MANIFEST_LENGTH \<or> length (sha m) \<noteq> 32
      \<or> length (take n (drop i m)) = 0 \<or> MANIFEST_LENGTH < int i + int (length (take n (drop i m)))
      \<or> (case tr_manifestSha256 r1 of None \<Rightarrow> False | Some known \<Rightarrow> \<not> equalBytes known (sha m)))"
    using assms(3) sha n m k(2) r1 by (auto split: option.splits)
  have run1: "write_manifest (nat (int i)) (take n (drop i m)) (tr_manifest r1, tr_manifestPresent r1) = ((manifest', present'), True)"
    using run by (simp add: r1)
  have "surely (ready f bs r1) (receiveManifest MANIFEST_LENGTH (int i) (sha m) (take n (drop i m))) (\<lambda>_. ready f bs ?r2)"
    unfolding receiveManifest_def
    by (rule surely_state_seq, simp only: id_apply guard if_False run1 prod.case, rule surely_set_seq,
        simp only: not_True_eq_False if_False, rule surely_set)
  then have frame: "surely (ready f bs r1) (receive_frame (\<lambda>bs. Inr (sha bs)) f (manifest_frame sha m c)) (\<lambda>_. ready f bs ?r2)"
    unfolding c manifest_frame_def receive_frame_def prod.case v2_frame.case by (rule triple_seq) (auto intro: triple_ret)
  have "active r1" "\<not> tr_completed r1" "session r1 = session r" using assms(1,2) by (simp_all add: r1 active_def)
  with surely_receive [OF this(1,2) frame] have "surely (ready f bs r1)
      (receive (\<lambda>bs. Inr (sha bs)) f (session_frame (session r) (manifest_frame sha m c))) (\<lambda>_. ready f bs ?r2)" by simp
  then show ?thesis by (rule triple_post) (use known in blast)
qed

lemma surely_manifest:
  assumes "active r" and "\<not> tr_completed r" and "tr_pendingWindow r = None" and "knows_manifest sha m J r r1"
    and "list_all (chunk_fits m) cs" and m: "int (length m) = MANIFEST_LENGTH" and sha: "\<And>x. length (sha x) = 32"
  shows "surely (ready f bs r1 :: 'z upload_world_scheme \<Rightarrow> bool)
    (receive_all (\<lambda>bs. Inr (sha bs)) f (map (\<lambda>c. session_frame (session r) (manifest_frame sha m c)) cs))
    (\<lambda>_ w. \<exists>r2. knows_manifest sha m (J \<union> chunks_cover cs) r r2 \<and> ready f bs r2 w)"
  using assms(4,5)
proof (induction cs arbitrary: J r1)
  case Nil
  then show ?case by (auto simp: chunks_cover_def intro!: triple_ret)
next
  case (Cons c cs)
  have all: "J \<union> chunks_cover [c] \<union> chunks_cover cs = J \<union> chunks_cover (c # cs)" by (auto simp: chunks_cover_def)
  have later: "surely (\<lambda>w. knows_manifest sha m (J \<union> chunks_cover [c]) r r2 \<and> ready f bs r2 w)
      (receive_all (\<lambda>bs. Inr (sha bs)) f (map (\<lambda>c. session_frame (session r) (manifest_frame sha m c)) cs))
      (\<lambda>_ w. \<exists>r2. knows_manifest sha m (J \<union> chunks_cover (c # cs)) r r2 \<and> ready f bs r2 (w :: 'z upload_world_scheme))" for r2
    using Cons.IH [of "J \<union> chunks_cover [c]" r2] Cons.prems(2) unfolding all by (auto simp: triple_def)
  show ?case
    unfolding list.map receive_all.simps
    by (rule triple_seq [OF surely_chunk [OF assms(1-3) Cons.prems(1) _ m sha]])
      (use Cons.prems(2) later in \<open>auto intro: triple_exists\<close>)
qed

lemma manifest_whole: "manifest_known m J manifest present \<Longrightarrow> {..<length m} \<subseteq> J \<Longrightarrow>
    manifest = m \<and> \<not> list_ex (\<lambda>p. p \<noteq> 1) present"
  by (auto simp: manifest_known_def list_ex_length intro!: nth_equalityI)

section \<open>The end of the transfer\<close>

definition eof_frame :: "(bytes \<Rightarrow> bytes) \<Rightarrow> bytes \<Rightarrow> bytes \<Rightarrow> int \<Rightarrow> int \<Rightarrow> v2_frame" where
  "eof_frame sha bs m final blocks = F_eof final blocks (int (length bs)) (sha bs) (sha m)"

definition evidence_of :: "(bytes \<Rightarrow> bytes) \<Rightarrow> bytes \<Rightarrow> bytes \<Rightarrow> int \<Rightarrow> v2_evidence" where
  "evidence_of sha bs m blocks = \<lparr>ev_ciphertextLength = int (length bs), ev_ciphertextSha256 = sha bs,
     ev_manifestLength = MANIFEST_LENGTH, ev_manifestSha256 = sha m, ev_blockCount = blocks\<rparr>"

lemma surely_eof:
  assumes "active r" and "\<not> tr_completed r" and "idle r" and "knows_manifest sha m J r r1" and "{..<length m} \<subseteq> J"
    and m: "int (length m) = MANIFEST_LENGTH" and "nc_highestContiguousSequence (tr_checkpoint r) = Some final" and "blocks \<noteq> 0"
    and "ro_expectedCiphertextLength (tr_options r) = int (length bs)" and "ro_expectedCiphertextSha256 (tr_options r) = sha bs"
    and small: "small_blob bs"
  shows "surely (ready f bs r1) (receive (\<lambda>bs. Inr (sha bs)) f (session_frame (session r) (eof_frame sha bs m final blocks)))
    (\<lambda>event w. event = Some (Completed m (evidence_of sha bs m blocks)) \<and> file_content (vw_files w) f = bs)"
proof -
  from assms(4) obtain manifest present known where k: "manifest_known m J manifest present" "J \<noteq> {} \<longrightarrow> known = Some (sha m)"
    and r1: "r1 = r\<lparr>tr_manifest := manifest, tr_manifestPresent := present, tr_manifestSha256 := known\<rparr>"
    unfolding knows_manifest_def by blast
  from manifest_whole [OF k(1) assms(5)] have whole: "manifest = m" "\<not> list_ex (\<lambda>p. p \<noteq> 1) present" by simp_all
  have "J \<noteq> {}" using assms(5) m by (auto simp: MANIFEST_LENGTH_def lessThan_empty_iff)
  with k(2) have known: "known = Some (sha m)" by simp
  have ends: "surely (ready f bs r1) (check_end (\<lambda>bs. Inr (sha bs)) r1 (int (length bs)) (sha bs) final blocks (int (length bs)) (sha bs) (sha m))
      (\<lambda>event w. ready f bs r1 w \<and> event = Completed m (evidence_of sha bs m blocks))"
    using assms(3,7-10) whole known unfolding check_end_def r1 idle_def evidence_of_def
    by (auto intro!: triple_ret surely_lift_seq [OF refl])
  have eof: "surely (ready f bs r1) (receiveEof (\<lambda>bs. Inr (sha bs)) f final blocks (int (length bs)) (sha bs) (sha m))
      (\<lambda>event w. ready f bs r1 w \<and> event = Completed m (evidence_of sha bs m blocks))"
    unfolding receiveEof_def
    by (rule surely_size_seq [OF small], rule surely_hash_seq [OF small order_refl, where digest = "sha bs"], simp,
        rule surely_state_seq, simp only: id_apply, rule ends)
  have frame: "surely (ready f bs r1) (receive_frame (\<lambda>bs. Inr (sha bs)) f (eof_frame sha bs m final blocks))
    (\<lambda>event w. event = Some (Completed m (evidence_of sha bs m blocks)) \<and> file_content (vw_files w) f = bs)"
    unfolding eof_frame_def receive_frame_def v2_frame.case
    by (rule triple_seq [OF eof], rule surely_fact, rule surely_set_seq, rule triple_ret) (simp add: ready_def blob_holds_def)
  have "active r1" "\<not> tr_completed r1" "session r1 = session r" using assms(1,2) by (simp_all add: r1 active_def)
  with surely_receive [OF this(1,2) frame] show ?thesis by simp
qed

section \<open>A whole transfer\<close>

text \<open>Opening the receiver, the windows, the manifest in chunks, and the end.\<close>

definition take_transfer ::
    "(bytes \<Rightarrow> bytes) \<Rightarrow> jsstring \<times> jsstring \<Rightarrow> int \<Rightarrow> bytes \<Rightarrow> delivery list \<Rightarrow> bytes \<Rightarrow> (nat \<times> nat) list \<Rightarrow> int
      \<Rightarrow> ('z upload_world_scheme, receiver_event option) prog" where
  "take_transfer sha f sid bs ws m chunks blocks =
     seq (prepare (\<lambda>bs. Inr (sha bs)) f) (\<lambda>_.
     seq (take_windows sha f sid bs ws) (\<lambda>_.
     seq (receive_all (\<lambda>bs. Inr (sha bs)) f (map (\<lambda>c. session_frame sid (manifest_frame sha m c)) chunks)) (\<lambda>_.
     receive (\<lambda>bs. Inr (sha bs)) f
       (session_frame sid (eof_frame sha (bs @ sent_bytes ws) m (window_last (fst (last ws))) blocks)))))"

lemma last_receiver_kept:
  "tr_options (last_receiver sha bs r ws) = tr_options r \<and> idle (last_receiver sha bs r ws) = idle r
   \<and> active (last_receiver sha bs r ws) = active r \<and> tr_completed (last_receiver sha bs r ws) = tr_completed r
   \<and> tr_manifest (last_receiver sha bs r ws) = tr_manifest r \<and> tr_manifestPresent (last_receiver sha bs r ws) = tr_manifestPresent r
   \<and> tr_manifestSha256 (last_receiver sha bs r ws) = tr_manifestSha256 r"
  by (induction sha bs r ws rule: last_receiver.induct) (auto simp: after_window_def idle_def active_def)

lemma last_receiver_highest:
  "ws \<noteq> [] \<Longrightarrow> nc_highestContiguousSequence (tr_checkpoint (last_receiver sha bs r ws)) = Some (window_last (fst (last ws)))"
proof (induction sha bs r ws rule: last_receiver.induct)
  case (2 sha bs r v rounds rest)
  then show ?case by (cases "rest = []") (auto simp: after_window_def boundary_checkpoint_def)
qed simp

lemma new_active: "new_receiver options = Inr r \<Longrightarrow> active (r\<lparr>tr_prepared := True\<rparr>) \<and> idle (r\<lparr>tr_prepared := True\<rparr>)
    \<and> \<not> tr_completed (r\<lparr>tr_prepared := True\<rparr>)"
  using new_receiver_Inr [of options r] by (simp add: active_def idle_def)

lemma new_manifest:
  assumes "new_receiver options = Inr r" and "int (length m) = MANIFEST_LENGTH"
  shows "manifest_known m {} (tr_manifest r) (tr_manifestPresent r)" and "tr_manifestSha256 r = None"
  using assms by (auto simp: new_receiver_def Let_def manifest_known_def split: if_splits)

lemma surely_transfer:
  fixes sha :: "bytes \<Rightarrow> bytes" and bs bs0 :: bytes and r :: receiver
  defines "opened \<equiv> r\<lparr>tr_prepared := True\<rparr>"
  assumes new: "new_receiver options = Inr r"
    and covered: "covered (\<lambda>bs. Inr (sha bs)) bs0 (ro_checkpoint options)" and small: "small_blob bs0"
    and bs: "bs = take (nat (nc_nextCiphertextOffset (ro_checkpoint options))) bs0"
    and ws: "ws \<noteq> []" "windows_fit sha bs opened ws"
    and whole: "ro_expectedCiphertextLength options = int (length (bs @ sent_bytes ws))"
      "ro_expectedCiphertextSha256 options = sha (bs @ sent_bytes ws)"
    and chunks: "list_all (chunk_fits m) chunks" "{..<length m} \<subseteq> chunks_cover chunks" "int (length m) = MANIFEST_LENGTH"
    and blocks: "blocks \<noteq> 0" and sha: "\<And>x. length (sha x) = 32"
  shows "surely (ready f bs0 r) (take_transfer sha f (ro_transportSessionId options) bs ws m chunks blocks)
    (\<lambda>event w. event = Some (Completed m (evidence_of sha (bs @ sent_bytes ws) m blocks))
       \<and> file_content (vw_files w) f = bs @ sent_bytes ws)"
proof -
  let ?total = "bs @ sent_bytes ws" and ?last = "last_receiver sha bs opened ws"
  note fields = new_receiver_Inr [OF new]
  have valid: "ro_expectedCiphertextLength options \<le> max_safe_integer"
    "nc_nextCiphertextOffset (ro_checkpoint options) \<le> ro_expectedCiphertextLength options"
    using new by (auto simp: new_receiver_def Let_def split: if_splits)
  have op: "active opened" "idle opened" "\<not> tr_completed opened" "session opened = ro_transportSessionId options"
    using new_active [OF new] fields by (simp_all add: opened_def)
  have last: "active ?last" "idle ?last" "\<not> tr_completed ?last" "session ?last = ro_transportSessionId options"
    "tr_options ?last = options" "tr_manifestSha256 ?last = None"
    "manifest_known m {} (tr_manifest ?last) (tr_manifestPresent ?last)"
    using last_receiver_kept [of sha bs opened ws] op fields new_manifest [OF new chunks(3)] by (simp_all add: opened_def)
  have small_total: "small_blob ?total" using whole(1) valid(1) by (simp add: small_blob_def)
  have opens: "surely (ready f bs0 r) (prepare (\<lambda>bs. Inr (sha bs)) f) (\<lambda>_. ready f bs opened)"
    using surely_prepare [OF small, of "\<lambda>bs. Inr (sha bs)" r f] covered fields valid bs by (simp add: opened_def)
  have windows: "surely (ready f bs opened) (take_windows sha f (ro_transportSessionId options) bs ws) (\<lambda>_. ready f ?total ?last)"
    using surely_windows [OF ws(2) op(2) sha] op(4) by simp
  have known: "knows_manifest sha m {} ?last ?last" 
    unfolding knows_manifest_def
    by (rule exI [of _ "tr_manifest ?last"], rule exI [of _ "tr_manifestPresent ?last"], rule exI [of _ None])
      (use last(6,7) in \<open>simp add: receiver.equality\<close>)
  have none: "tr_pendingWindow ?last = None" using last(2) by (simp add: idle_def)
  have manifest: "surely (ready f ?total ?last)
      (receive_all (\<lambda>bs. Inr (sha bs)) f (map (\<lambda>c. session_frame (ro_transportSessionId options) (manifest_frame sha m c)) chunks))
      (\<lambda>_ w. \<exists>r2. knows_manifest sha m (chunks_cover chunks) ?last r2 \<and> ready f ?total r2 w)"
    using surely_manifest [OF last(1,3) none known chunks(1,3) sha] last(4) by simp
  have ends: "surely (\<lambda>w. knows_manifest sha m (chunks_cover chunks) ?last r2 \<and> ready f ?total r2 w)
      (receive (\<lambda>bs. Inr (sha bs)) f (session_frame (ro_transportSessionId options)
         (eof_frame sha ?total m (window_last (fst (last ws))) blocks)))
      (\<lambda>event w. event = Some (Completed m (evidence_of sha ?total m blocks)) \<and> file_content (vw_files w) f = ?total)" for r2
  proof (cases "knows_manifest sha m (chunks_cover chunks) ?last r2")
    case True
    have "surely (ready f ?total r2) (receive (\<lambda>bs. Inr (sha bs)) f (session_frame (session ?last)
         (eof_frame sha ?total m (window_last (fst (last ws))) blocks)))
      (\<lambda>event w. event = Some (Completed m (evidence_of sha ?total m blocks)) \<and> file_content (vw_files w) f = ?total)"
      by (rule surely_eof [OF last(1,3,2) True chunks(2,3) last_receiver_highest [OF ws(1)] blocks _ _ small_total])
        (use whole last(5) in simp_all)
    then show ?thesis using last(4) by (auto intro: triple_pre)
  qed (simp add: triple_def)
  show ?thesis
    unfolding take_transfer_def
    by (rule triple_seq [OF opens], rule triple_seq [OF windows], rule triple_seq [OF manifest], rule triple_exists, rule ends)
qed

section \<open>A device that starts from the beginning\<close>

text \<open>
  What the device of the profile sends in an attempt that starts at byte 0: the packets are numbered from \<open>n\<close> on
  without a gap, a checkpoint revision is larger than the one before, a window has no more packets, and no
  longer ones, than was negotiated and fits into the buffer; when a window has been ended, only packets
  reported missing are sent again (\<open>rounds_cover\<close>).  Within a round packets come in any order, any of them may get
  lost and any may come more than once.
\<close>

fun protocol_windows :: "receiver_options \<Rightarrow> int \<Rightarrow> int \<Rightarrow> delivery list \<Rightarrow> bool" where
  "protocol_windows options n revision [] \<longleftrightarrow> True"
| "protocol_windows options n revision ((v, rounds) # rest) \<longleftrightarrow>
     wd_first v = n \<and> window_last v \<le> 0xffffffff \<and> revision < wd_revision v \<and> wd_pieces v \<noteq> []
     \<and> list_all (\<lambda>p. p \<noteq> [] \<and> int (length p) \<le> ro_maximumDataPayloadBytes options) (wd_pieces v)
     \<and> int (length (wd_pieces v)) \<le> ro_maximumWindowPackets options
     \<and> int (length (wd_pieces v)) \<le> ro_maximumMissingSequences options
     \<and> (\<Sum>p\<leftarrow>wd_pieces v. int (length p) + 80) \<le> MAXIMUM_QUEUED_BYTES
     \<and> rounds_cover (length (wd_pieces v)) {} rounds
     \<and> protocol_windows options (window_last v + 1) (wd_revision v) rest"

lemma protocol_fits:
  assumes "protocol_windows options n (nc_revision (tr_checkpoint r)) ws"
    and "tr_options r = options" and "active r" and "\<not> tr_completed r"
    and "nc_nextCiphertextOffset (tr_checkpoint r) = int (length bs)"
    and "int (length (bs @ sent_bytes ws)) \<le> ro_expectedCiphertextLength options"
    and "ro_expectedCiphertextLength options \<le> max_safe_integer"
    and "nc_highestContiguousSequence (tr_checkpoint r) \<in> {None, Some (n - 1)}"
  shows "windows_fit sha bs r ws"
  using assms
proof (induction ws arbitrary: n r bs)
  case (Cons x rest)
  obtain v rounds where x: "x = (v, rounds)" by fastforce
  let ?r = "after_window sha bs r v"
  have p: "wd_first v = n" "window_last v \<le> 0xffffffff" "nc_revision (tr_checkpoint r) < wd_revision v"
    "wd_pieces v \<noteq> []" "rounds_cover (length (wd_pieces v)) {} rounds"
    "protocol_windows options (window_last v + 1) (wd_revision v) rest"
    using Cons.prems(1) by (simp_all add: x)
  have sent: "sent_bytes (x # rest) = concat (wd_pieces v) @ sent_bytes rest" by (simp add: sent_bytes_def x)
  have "n \<le> window_last v" using p(1,4) by (cases "wd_pieces v") (simp_all add: window_last_def)
  then have "window_fits (length bs) v r"
    using Cons.prems p(1-4) unfolding window_fits_def sent by (auto simp: x)
  moreover have "windows_fit sha (bs @ concat (wd_pieces v)) ?r rest"
    by (rule Cons.IH [where n = "window_last v + 1"])
      (use Cons.prems p(6) in \<open>simp_all add: after_window_def boundary_checkpoint_def window_boundary_def active_def sent\<close>)
  ultimately show ?case using p(5) by (simp add: x)
qed simp

end
