(* ===== verification/OwnerState.thy ===== *)
theory OwnerState
  imports RuntimeParts "HOL-Library.AList"
begin

text \<open>
  The state of \<open>BrowserWorkflowRuntime\<close> (\<^verbatim>\<open>frameworks/web/src/workflowRuntime.ts\<close>) and the operations
  that run without waiting.

  Asynchronous code is modelled by threads.  A thread is what an \<open>async\<close> call leaves behind when it
  gives up control: the promise it waits for (\<open>wait\<close>) and the continuations behind it
  (\<open>frame\<close>), innermost first.  Everything between two \<open>await\<close>s is one function here, from the state to
  the state and the thread it leaves.  OwnerThreads holds the routines that wait and the step
  relation.

  An owner is named by a number (object identity); a promise of the transport or of a host is a
  ticket; JavaScript maps are association lists in insertion order.
\<close>

section \<open>Values, promises, threads\<close>

record device =
  dev_id :: jsstring
  dev_name :: "jsstring option"

text \<open>What a promise yields; the last three are the \<open>OwnerStepResult\<close> of \<open>awaitOwnerStep\<close>.\<close>

datatype (plugins only: size code) val =
    V_unit | V_flag bool | V_effects "effect_envelope list" | V_devices "device list" | V_bytes bytes
  | V_events "host_event list" | V_completed val | V_failed js_error | V_cancelled

type_synonym outcome = "js_error + val"

datatype settlement = Unsettled | Settled outcome

text \<open>The two abort signals an owner hands out.\<close>

datatype abort_signal = Sig_main | Sig_cancellation

record effect_context =
  ctx_owner :: nat
  ctx_envelope :: effect_envelope
  ctx_generation :: nat
  ctx_cancellationId :: bytes

datatype core_call =
    Call_dispatch nat nat host_event
  | Call_disconnected nat nat host_event
  | Call_cancel nat

datatype (plugins only: size code) wait =
    Done outcome
  | W_host
  | W_ticket nat
  | W_step nat abort_signal nat
  | W_core core_call
  | W_result nat | W_cancel nat | W_completion nat | W_failure nat | W_cleanup nat
  | W_writes nat | W_setups nat | W_externals nat
  | W_decision nat abort_signal nat
  | W_direct nat

datatype cleanup = Cl_subscription int | Cl_timer int nat | Cl_host

datatype (plugins only: size code) frame =
    K_pump nat | K_pump_catch nat | K_pump_finally nat
  | K_dispatched nat nat | K_disconnected nat nat | K_catch_fail nat
  | K_handoff nat | K_success_end nat | K_settle_completion nat
  | K_cancelled_end nat | K_failure_end nat js_error | K_settle_failure nat
  | K_claim nat "nat list" | K_cancel_claimed nat | K_cancel_cleaned nat
  | K_cancel_core nat "js_error option" | K_cancel_wait nat "js_error option"
  | K_cancel_final nat "js_error option" | K_settle_cancel nat
  | K_caf_claimed nat js_error | K_caf_cleaned nat js_error | K_caf_core nat js_error
  | K_caf_done nat js_error | K_inline nat "js_error list"
  | K_cs_writes nat bool | K_cs_cleanup nat "js_error option" | K_cs_setups nat "js_error option"
  | K_cs_externals nat "js_error option"
  | K_host_cancel nat "nat list" "js_error list" | K_cleanup nat "cleanup list" "js_error list"
  | K_settle_cleanup nat
  | K_ignore
  | K_scan effect_context | K_scan_loop effect_context "device list" nat
  | K_lifecycle nat nat | K_connect effect_context device nat nat
  | K_connection_settle device nat nat | K_connection_final device nat nat
  | K_discover effect_context device | K_disconnect effect_context | K_catch_ble effect_context
  | K_read effect_context | K_write effect_context | K_wipe nat effect_envelope
  | K_subscribe effect_context nat nat | K_setup nat nat nat | K_setup_decided nat nat | K_setup_end nat nat
  | K_unsubscribe nat "int list" int
  | K_host effect_context | K_events effect_context "host_event list"
  | K_direct nat

type_synonym thread = "wait \<times> frame list"

section \<open>Owners\<close>

record queued_effect =
  q_envelope :: effect_envelope
  q_generation :: nat

record request_owner =
  ro_generation :: nat
  ro_cancellationId :: bytes

record completion_evidence =
  ce_requestId :: int
  ce_generation :: nat
  ce_cancellationId :: bytes

text \<open>
  \<open>WorkflowOwner\<close>.  Of the two abort controllers only whether they are aborted is kept
  (\<open>None\<close>: the controller is \<open>null\<close>); \<open>ow_handoff\<close> says whether a completion handoff was given,
  \<open>ow_decisions\<close> holds the decisions of \<open>trackGattSetup\<close> by ticket.
\<close>

record owner =
  ow_operationId :: jsstring
  ow_operation :: bota_operation
  ow_cancellationId :: bytes
  ow_aborted :: bool
  ow_cancellationAborted :: "bool option"
  ow_cancellationGeneration :: "nat option"
  ow_hosts :: workflow_hosts
  ow_result :: "(bota_error + core_notification list) option"
  ow_notifications :: "core_notification list"
  ow_queue :: "queued_effect list"
  ow_requests :: "(int \<times> request_owner) list"
  ow_subscriptions :: "(int \<times> jsstring \<times> jsstring) list"
  ow_timers :: "(int \<times> nat) list"
  ow_cleanups :: "cleanup list"
  ow_setups :: "nat list"
  ow_decisions :: "(nat \<times> bool) list"
  ow_writes :: "nat list"
  ow_externals :: "nat list"
  ow_handoff :: bool
  ow_evidence :: "completion_evidence option"
  ow_completing :: bool
  ow_completionPromise :: "settlement option"
  ow_completionFailure :: "js_error option"
  ow_generation :: nat
  ow_pumping :: bool
  ow_inline :: "queued_effect list option"
  ow_terminal :: bool
  ow_cancelling :: bool
  ow_cancelPromise :: "settlement option"
  ow_failure :: "js_error option"
  ow_failurePromise :: "settlement option"
  ow_cleanupPromise :: "settlement option"
  ow_lastProgress :: "(int \<times> int) option"
  ow_lastFirmwareProgress :: "firmware_report option"
  ow_scanExhausted :: bool
  ow_reconnectIds :: "jsstring list"

text \<open>\<open>DirectOwner\<close>; \<open>di_result\<close> is the promise of \<open>runExclusive\<close>, settled together with \<open>settled\<close>.\<close>

record direct_owner =
  di_operation :: bota_operation
  di_aborted :: bool
  di_terminalError :: "bota_error option"
  di_result :: "(bota_error + unit) option"

datatype active_owner = Workflow nat | Direct nat

text \<open>
  What happens at the boundary of the runtime, newest first in the log: an effect is executed, an
  event or a cancellation reaches the core, the owner starts a new generation to cancel, an effect is
  dropped (as it is left in memory), effects that the core returned come too late and are thrown away
  (as they are left), the payload of an executed write is given up (as it is left), an observer is told
  of progress, the result of a workflow settles.
\<close>

datatype log_entry =
    L_execute nat effect_envelope nat
  | L_core nat host_event
  | L_cancelling nat
  | L_core_cancel nat
  | L_drop nat effect_envelope
  | L_late nat effect_envelope
  | L_payload nat effect_envelope
  | L_progress nat "int \<times> int"
  | L_firmware nat firmware_report
  | L_settle nat "bota_error + core_notification list"

section \<open>The runtime\<close>

text \<open>
  The fields of \<open>BrowserWorkflowRuntime\<close>, the owners ever made (those below the counter), and the state of
  the event loop: threads, tickets with their outcomes, the outstanding promises of the transport and
  the hosts, armed timers, contexts handed out.
\<close>

record runtime =
  rt_devices :: "(jsstring \<times> device) list"
  rt_leases :: "(jsstring \<times> nat) list"
  rt_nextLease :: nat
  rt_active :: "active_owner option"
  rt_connected :: "device option"
  rt_poisoned :: "jsstring option"
  rt_destroyed :: bool
  rt_nextAttempt :: nat
  rt_attempts :: "(jsstring \<times> nat) list"
  rt_pendingConnections :: "(jsstring \<times> nat) list"
  rt_owner :: "nat \<Rightarrow> owner"
  rt_owners :: nat
  rt_direct :: "nat \<Rightarrow> direct_owner"
  rt_directs :: nat
  rt_threads :: "thread list"
  rt_tickets :: "(nat \<times> outcome) list"
  rt_nextTicket :: nat
  rt_outstanding :: "nat list"
  rt_armed :: "(nat \<times> effect_context \<times> int) list"
  rt_nextTimer :: nat
  rt_contexts :: "effect_context list"
  rt_log :: "log_entry list"

text \<open>
  What the environment answers in one step: the reads of \<open>core.status()\<close> (before and after a
  dispatch, or alone), the effects of a core call, the answer of a promise,
  \<open>transport.supportsAuthorizedDevices\<close>, and what \<open>transport.write\<close> throws instead of returning a promise.
\<close>

record answers =
  in_status :: "js_error + workflow_status"
  in_statusAfter :: "js_error + workflow_status"
  in_effects :: "js_error + effect_envelope list"
  in_answer :: outcome
  in_supportsAuthorized :: bool
  in_writeThrows :: "js_error option"

definition upd :: "nat \<Rightarrow> (owner \<Rightarrow> owner) \<Rightarrow> runtime \<Rightarrow> runtime" where
  "upd i f w = w\<lparr>rt_owner := (rt_owner w)(i := f (rt_owner w i))\<rparr>"

definition emit :: "log_entry list \<Rightarrow> runtime \<Rightarrow> runtime" where
  "emit es w = w\<lparr>rt_log := es @ rt_log w\<rparr>"

fun spawn :: "runtime \<times> thread \<Rightarrow> runtime" where
  "spawn (w, t) = w\<lparr>rt_threads := rt_threads w @ [t]\<rparr>"

text \<open>\<open>await f()\<close>: what \<open>f\<close> leaves, with the caller's continuation behind it.\<close>

fun andthen :: "runtime \<times> thread \<Rightarrow> frame list \<Rightarrow> runtime \<times> thread" where
  "andthen (w, (wt, fs)) ks = (w, (wt, fs @ ks))"

abbreviation returned :: "runtime \<Rightarrow> runtime \<times> thread" where
  "returned w \<equiv> (w, (Done (Inr V_unit), []))"

abbreviation threw :: "js_error \<Rightarrow> runtime \<Rightarrow> runtime \<times> thread" where
  "threw e w \<equiv> (w, (Done (Inl e), []))"

definition or_set :: "'a option \<Rightarrow> 'a \<Rightarrow> 'a option" where
  "or_set old new = (case old of None \<Rightarrow> Some new | Some x \<Rightarrow> Some x)"

section \<open>Admission of effects\<close>

definition validateEnvelope :: "owner \<Rightarrow> effect_envelope \<Rightarrow> nat \<Rightarrow> (bota_error + unit) \<times> owner" where
  "validateEnvelope ow envelope generation =
     (if \<not> equalBytes (env_cancellationId envelope) (ow_cancellationId ow)
      then (Inl (BotaSDKError Sdk_internal_error (ow_operation ow)), ow)
      else
        let operation = publicOperation (env_operation envelope);
            ow1 = (if ow_operation ow = Op_unknown then ow\<lparr>ow_operation := operation\<rparr> else ow) in
        if operation \<noteq> Op_unknown \<and> ow_operation ow1 \<noteq> operation
        then (Inl (BotaSDKError Sdk_internal_error (ow_operation ow1)), ow1)
        else if map_of (ow_requests ow1) (env_requestId envelope) \<noteq> None
        then (Inl (BotaSDKError Sdk_internal_error (ow_operation ow1)), ow1)
        else (Inr (), ow1\<lparr>ow_requests := AList.update (env_requestId envelope)
               \<lparr>ro_generation = generation, ro_cancellationId = env_cancellationId envelope\<rparr> (ow_requests ow1)\<rparr>))"

definition push_effect :: "queued_effect \<Rightarrow> owner \<Rightarrow> owner" where
  "push_effect q ow =
     (case ow_inline ow of
        Some qs \<Rightarrow> ow\<lparr>ow_inline := Some (qs @ [q])\<rparr>
      | None \<Rightarrow> ow\<lparr>ow_queue := ow_queue ow @ [q]\<rparr>)"

text \<open>The loop of \<open>enqueueEffects\<close>: the outcome, the owner, and the effects it drops.\<close>

fun admit_effects :: "nat \<Rightarrow> effect_envelope list \<Rightarrow> owner \<Rightarrow> (bota_error + unit) \<times> owner \<times> effect_envelope list" where
  "admit_effects generation [] ow = (Inr (), ow, [])"
| "admit_effects generation (e # es) ow =
     (case validateEnvelope ow e generation of
        (Inl err, ow1) \<Rightarrow> (Inl err, ow1, map scrubTransientEffect (e # es))
      | (Inr _, ow1) \<Rightarrow>
          admit_effects generation es (push_effect \<lparr>q_envelope = e, q_generation = generation\<rparr> ow1))"

definition drop_effects :: "nat \<Rightarrow> effect_envelope list \<Rightarrow> runtime \<Rightarrow> runtime" where
  "drop_effects i es w = emit (map (L_drop i) (map scrubTransientEffect es)) w"

definition discardQueuedEffects :: "nat \<Rightarrow> runtime \<Rightarrow> runtime" where
  "discardQueuedEffects i w =
     upd i (\<lambda>ow. ow\<lparr>ow_queue := []\<rparr>) (drop_effects i (map q_envelope (ow_queue (rt_owner w i))) w)"

section \<open>Signals, evidence, settling\<close>

definition ownerSignal :: "owner \<Rightarrow> nat \<Rightarrow> abort_signal" where
  "ownerSignal ow generation =
     (if ow_cancellationGeneration ow = Some generation \<and> ow_cancellationAborted ow \<noteq> None
      then Sig_cancellation else Sig_main)"

definition signal_aborted :: "owner \<Rightarrow> abort_signal \<Rightarrow> bool" where
  "signal_aborted ow s =
     (case s of Sig_main \<Rightarrow> ow_aborted ow | Sig_cancellation \<Rightarrow> ow_cancellationAborted ow = Some True)"

definition hasCompletionEvidence :: "owner \<Rightarrow> bool" where
  "hasCompletionEvidence ow =
     (case ow_evidence ow of
        None \<Rightarrow> False
      | Some evidence \<Rightarrow>
          ce_generation evidence = ow_generation ow
          \<and> map_of (ow_requests ow) (ce_requestId evidence) \<noteq> None
          \<and> equalBytes (ce_cancellationId evidence) (ow_cancellationId ow))"

definition releaseOwner :: "nat \<Rightarrow> runtime \<Rightarrow> runtime" where
  "releaseOwner i w = (if rt_active w = Some (Workflow i) then w\<lparr>rt_active := None\<rparr> else w)"

text \<open>A promise settles once; later calls of \<open>resolve\<close> and \<open>reject\<close> do nothing.\<close>

definition settle_result :: "nat \<Rightarrow> bota_error + core_notification list \<Rightarrow> runtime \<Rightarrow> runtime" where
  "settle_result i r w =
     (if ow_result (rt_owner w i) = None
      then emit [L_settle i r] (upd i (\<lambda>ow. ow\<lparr>ow_result := Some r\<rparr>) w) else w)"

definition beginCancellation :: "nat \<Rightarrow> runtime \<Rightarrow> runtime" where
  "beginCancellation i w =
     upd i (\<lambda>ow. ow\<lparr>ow_cancellationAborted := Some False, ow_cancellationGeneration := Some (ow_generation ow)\<rparr>)
       (discardQueuedEffects i (emit [L_cancelling i]
         (upd i (\<lambda>ow. ow\<lparr>ow_cancelling := True, ow_generation := ow_generation ow + 1, ow_aborted := True\<rparr>) w)))"

text \<open>Setting \<open>terminal\<close>, with what the three endings do at once with it.\<close>

definition make_terminal :: "nat \<Rightarrow> bool \<Rightarrow> bool \<Rightarrow> runtime \<Rightarrow> runtime" where
  "make_terminal i abort_main abort_cancellation w =
     discardQueuedEffects i
       (upd i (\<lambda>ow. ow\<lparr>ow_terminal := True, ow_aborted := (ow_aborted ow \<or> abort_main),
          ow_cancellationAborted :=
            map_option (\<lambda>b. b \<or> abort_cancellation) (ow_cancellationAborted ow)\<rparr>) w)"

section \<open>Clean-up\<close>

text \<open>The body of \<open>cleanupOwner\<close>: the hosts are cancelled, then the clean-ups run, newest first.\<close>

definition clear_timer :: "nat \<Rightarrow> int \<Rightarrow> nat \<Rightarrow> runtime \<Rightarrow> runtime" where
  "clear_timer i timerId handle w =
     upd i (\<lambda>ow. ow\<lparr>ow_timers := AList.delete timerId (ow_timers ow)\<rparr>)
       (w\<lparr>rt_armed := AList.delete handle (rt_armed w)\<rparr>)"

definition cleanup_finish :: "nat \<Rightarrow> js_error list \<Rightarrow> runtime \<Rightarrow> runtime \<times> thread" where
  "cleanup_finish i failures w =
     (let w1 = w\<lparr>rt_armed := filter (\<lambda>(h, _). h \<notin> snd ` set (ow_timers (rt_owner w i))) (rt_armed w)\<rparr>;
          w2 = upd i (\<lambda>ow. ow\<lparr>ow_cleanups := [], ow_timers := [], ow_subscriptions := []\<rparr>) w1 in
      case failures of [] \<Rightarrow> returned w2 | e # _ \<Rightarrow> threw e w2)"

definition cleanup_loop :: "nat \<Rightarrow> cleanup list \<Rightarrow> js_error list \<Rightarrow> runtime \<Rightarrow> runtime \<times> thread" where
  "cleanup_loop i cleanups failures w =
     (case cleanups of
        [] \<Rightarrow> cleanup_finish i failures w
      | Cl_timer timerId handle # rest \<Rightarrow>
          (clear_timer i timerId handle w, (Done (Inr V_unit), [K_cleanup i rest failures]))
      | _ # rest \<Rightarrow> (w, (W_host, [K_cleanup i rest failures])))"

definition host_cancel_loop :: "nat \<Rightarrow> nat list \<Rightarrow> js_error list \<Rightarrow> runtime \<Rightarrow> runtime \<times> thread" where
  "host_cancel_loop i hosts failures w =
     (case hosts of
        [] \<Rightarrow> cleanup_loop i (rev (ow_cleanups (rt_owner w i))) failures w
      | _ # rest \<Rightarrow> (w, (W_host, [K_host_cancel i rest failures])))"

definition cleanupOwner :: "nat \<Rightarrow> bool \<Rightarrow> runtime \<Rightarrow> runtime \<times> thread" where
  "cleanupOwner i cancelHosts w =
     (if ow_cleanupPromise (rt_owner w i) \<noteq> None then (w, (W_cleanup i, []))
      else
        let w1 = upd i (\<lambda>ow. ow\<lparr>ow_cleanupPromise := Some Unsettled\<rparr>) w in
        (spawn (andthen (host_cancel_loop i
            (if cancelHosts then uniqueHosts (ow_hosts (rt_owner w i)) else []) [] w1) [K_settle_cleanup i]),
         (W_cleanup i, [])))"

definition cleanupAndSettle :: "nat \<Rightarrow> bool \<Rightarrow> runtime \<Rightarrow> runtime \<times> thread" where
  "cleanupAndSettle i cancelHosts w = (w, (W_writes i, [K_cs_writes i cancelHosts]))"

section \<open>The three endings\<close>

definition finishFailure :: "nat \<Rightarrow> js_error \<Rightarrow> runtime \<Rightarrow> runtime \<times> thread" where
  "finishFailure i err w =
     (if ow_terminal (rt_owner w i) then returned w
      else andthen (cleanupAndSettle i True (make_terminal i True True w)) [K_failure_end i err])"

definition finishCancelled :: "nat \<Rightarrow> runtime \<Rightarrow> runtime \<times> thread" where
  "finishCancelled i w =
     (if ow_terminal (rt_owner w i) then returned w
      else andthen (cleanupAndSettle i True (make_terminal i False True w)) [K_cancelled_end i])"

definition finishSuccess :: "nat \<Rightarrow> js_error option \<Rightarrow> runtime \<Rightarrow> runtime \<times> thread" where
  "finishSuccess i priorError w =
     (let w1 = (case priorError of
                  None \<Rightarrow> w
                | Some e \<Rightarrow> upd i (\<lambda>ow. ow\<lparr>ow_completionFailure := or_set (ow_completionFailure ow) e\<rparr>) w);
          ow = rt_owner w1 i in
      if ow_completionPromise ow \<noteq> None then (w1, (W_completion i, []))
      else if ow_terminal ow then returned w1
      else case ow_failure ow of
        Some e \<Rightarrow> finishFailure i e w1
      | None \<Rightarrow>
          (spawn (upd i (\<lambda>ow. ow\<lparr>ow_completing := True, ow_completionPromise := Some Unsettled\<rparr>) w1,
             (if ow_handoff ow then W_host else Done (Inr V_unit), [K_handoff i, K_settle_completion i])),
           (W_completion i, [])))"

section \<open>Cancellation and failure\<close>

definition claim_loop :: "nat \<Rightarrow> nat list \<Rightarrow> runtime \<Rightarrow> runtime \<times> thread" where
  "claim_loop i hosts w =
     (case hosts of
        [] \<Rightarrow> (w, (Done (Inr (V_flag False)), []))
      | _ # rest \<Rightarrow> (w, (W_host, [K_claim i rest])))"

definition confirmationAttemptedOrClaimCancellation :: "nat \<Rightarrow> runtime \<Rightarrow> runtime \<times> thread" where
  "confirmationAttemptedOrClaimCancellation i w = claim_loop i (uniqueHosts (ow_hosts (rt_owner w i))) w"

definition cancelOwner :: "nat \<Rightarrow> runtime \<Rightarrow> runtime \<times> thread" where
  "cancelOwner i w =
     (if ow_terminal (rt_owner w i) then returned w
      else if ow_completing (rt_owner w i) then (w, (W_result i, [K_ignore]))
      else andthen (confirmationAttemptedOrClaimCancellation i w) [K_cancel_claimed i])"

definition cancelAfterFailure :: "nat \<Rightarrow> js_error \<Rightarrow> runtime \<Rightarrow> runtime \<times> thread" where
  "cancelAfterFailure i err w =
     andthen (confirmationAttemptedOrClaimCancellation i w) [K_caf_claimed i err]"

definition enterCancellation :: "nat \<Rightarrow> runtime \<Rightarrow> runtime \<times> thread" where
  "enterCancellation i w =
     (if ow_cancelPromise (rt_owner w i) \<noteq> None then (w, (W_cancel i, []))
      else
        let w1 = upd i (\<lambda>ow. ow\<lparr>ow_cancelPromise := Some Unsettled\<rparr>) w in
        (spawn (andthen
          (case ow_failure (rt_owner w i) of
             Some e \<Rightarrow> cancelAfterFailure i e w1
           | None \<Rightarrow> cancelOwner i w1) [K_settle_cancel i]),
         (W_cancel i, [])))"

definition failOwner :: "nat \<Rightarrow> js_error \<Rightarrow> runtime \<Rightarrow> runtime \<times> thread" where
  "failOwner i err w =
     (let ow = rt_owner w i in
      if ow_terminal ow then returned w
      else if hasCompletionEvidence ow then finishSuccess i (Some err) w
      else if ow_failurePromise ow \<noteq> None then (w, (W_failure i, []))
      else
        let w1 = upd i (\<lambda>ow. ow\<lparr>ow_failure := Some err, ow_failurePromise := Some Unsettled\<rparr>) w in
        (spawn (andthen
          (if ow_cancelling ow then finishFailure i err w1 else enterCancellation i w1) [K_settle_failure i]),
         (W_failure i, [])))"

end
