(* ===== verification/OwnerThreads.thy ===== *)
theory OwnerThreads
  imports OwnerState
begin

text \<open>
  The routines of \<open>BrowserWorkflowRuntime\<close> that wait: dispatching to the core, the execution of
  effects, the pump and the continuations of every \<open>async\<close> function; and the step relation of the event
  loop.

  A step either satisfies the promise a thread waits for, or resumes a thread whose promise has
  settled, or is an action of the environment: a promise of the transport or of a host settles, a
  timer fires, a host uses the context it was given, a client calls the runtime.  Any enabled step
  may be next.  The microtask order of JavaScript allows fewer schedules, so what holds in every
  reachable state here holds in the program.  A callback of an observer is taken to act on the runtime in
  a later step only.
\<close>

section \<open>Tickets\<close>

text \<open>
  A promise the code settles itself (\<open>new_deferred\<close>), and one of the transport or of a host
  (\<open>new_ticket\<close>), which the environment settles.
\<close>

definition new_deferred :: "runtime \<Rightarrow> nat \<times> runtime" where
  "new_deferred w = (rt_nextTicket w, w\<lparr>rt_nextTicket := rt_nextTicket w + 1\<rparr>)"

definition new_ticket :: "runtime \<Rightarrow> nat \<times> runtime" where
  "new_ticket w =
     (rt_nextTicket w,
      w\<lparr>rt_nextTicket := rt_nextTicket w + 1, rt_outstanding := rt_nextTicket w # rt_outstanding w\<rparr>)"

definition settle_ticket :: "nat \<Rightarrow> outcome \<Rightarrow> runtime \<Rightarrow> runtime" where
  "settle_ticket t r w =
     (if map_of (rt_tickets w) t = None then w\<lparr>rt_tickets := (t, r) # rt_tickets w\<rparr> else w)"

definition trackExternal :: "nat \<Rightarrow> nat \<Rightarrow> runtime \<Rightarrow> runtime" where
  "trackExternal i t w = upd i (\<lambda>ow. ow\<lparr>ow_externals := ow_externals ow @ [t]\<rparr>) w"

definition trackWrite :: "nat \<Rightarrow> nat \<Rightarrow> runtime \<Rightarrow> runtime" where
  "trackWrite i t w = upd i (\<lambda>ow. ow\<lparr>ow_writes := ow_writes ow @ [t]\<rparr>) w"

definition untrack :: "nat \<Rightarrow> nat \<Rightarrow> runtime \<Rightarrow> runtime" where
  "untrack i t w =
     upd i (\<lambda>ow. ow\<lparr>ow_externals := removeAll t (ow_externals ow), ow_writes := removeAll t (ow_writes ow)\<rparr>) w"

section \<open>Dispatching to the core\<close>

definition dispatchFromContext :: "effect_context \<Rightarrow> host_event \<Rightarrow> runtime \<Rightarrow> runtime \<times> thread" where
  "dispatchFromContext ctx event w =
     (let i = ctx_owner ctx; ow = rt_owner w i; generation = ctx_generation ctx in
      if ow_terminal ow \<or> generation \<noteq> ow_generation ow then returned w
      else if he_requestId event \<noteq> env_requestId (ctx_envelope ctx)
              \<or> \<not> equalBytes (ctx_cancellationId ctx) (ow_cancellationId ow)
      then threw (SdkErr (BotaSDKError Sdk_internal_error (ow_operation ow))) w
      else case map_of (ow_requests ow) (he_requestId event) of
        None \<Rightarrow> threw (SdkErr (BotaSDKError Sdk_internal_error (ow_operation ow))) w
      | Some request \<Rightarrow>
          if ro_generation request \<noteq> generation
             \<or> \<not> equalBytes (ro_cancellationId request) (ow_cancellationId ow)
          then threw (SdkErr (BotaSDKError Sdk_internal_error (ow_operation ow))) w
          else (w, (W_core (Call_dispatch i generation event), [K_dispatched i generation])))"

definition status_ended :: "workflow_status \<Rightarrow> bool" where
  "status_ended s = (case s of Ws_completed _ \<Rightarrow> True | Ws_cancelled _ \<Rightarrow> True | Ws_failed _ \<Rightarrow> True | _ \<Rightarrow> False)"

definition dispatchCurrentOwnerEvent :: "nat \<Rightarrow> nat \<Rightarrow> host_event \<Rightarrow> answers \<Rightarrow> runtime \<Rightarrow> runtime \<times> outcome" where
  "dispatchCurrentOwnerEvent i generation event a w =
     (let w1 = emit [L_core i event] w in
      case in_effects a of
        Inl e \<Rightarrow> (w1, Inl e)
      | Inr effects \<Rightarrow>
          (case in_statusAfter a of
             Inl e \<Rightarrow> (w1, Inl e)
           | Inr status \<Rightarrow>
               let ow = rt_owner w1 i;
                   request = map_of (ow_requests ow) (he_requestId event);
                   evident = (case (status, request) of
                     (Ws_completed operation, Some r) \<Rightarrow>
                       publicOperation operation = ow_operation ow \<and> ro_generation r = generation
                       \<and> equalBytes (ro_cancellationId r) (ow_cancellationId ow)
                   | _ \<Rightarrow> False) in
               (if evident
                then upd i (\<lambda>ow. ow\<lparr>ow_evidence := Some
                  \<lparr>ce_requestId = he_requestId event, ce_generation = generation,
                   ce_cancellationId = ro_cancellationId (the request)\<rparr>\<rparr>) w1
                else w1, Inr (V_effects effects))))"

text \<open>The bodies of \<open>serializedCoreCall\<close>; they run without interruption.\<close>

fun core_body :: "core_call \<Rightarrow> answers \<Rightarrow> runtime \<Rightarrow> runtime \<times> outcome" where
  "core_body (Call_dispatch i generation event) a w =
     (let ow = rt_owner w i in
      if ow_terminal ow \<or> generation \<noteq> ow_generation ow then (w, Inr (V_effects []))
      else case in_status a of
        Inl e \<Rightarrow> (w, Inl e)
      | Inr status \<Rightarrow>
          if status_ended status then (w, Inr (V_effects []))
          else dispatchCurrentOwnerEvent i generation event a w)"
| "core_body (Call_disconnected i generation event) a w =
     (let ow = rt_owner w i in
      if ow_terminal ow \<or> rt_active w \<noteq> Some (Workflow i) \<or> ow_generation ow \<noteq> generation
      then (w, Inr (V_effects []))
      else case in_status a of
        Inl e \<Rightarrow> (w, Inl e)
      | Inr status \<Rightarrow>
          if status_ended status then (w, Inr (V_effects []))
          else dispatchCurrentOwnerEvent i generation event a w)"
| "core_body (Call_cancel i) a w =
     (emit [L_core_cancel i] w, map_sum id V_effects (in_effects a))"

definition dispatchBleFailure :: "effect_context \<Rightarrow> js_error option \<Rightarrow> runtime \<Rightarrow> runtime \<times> thread" where
  "dispatchBleFailure ctx err w =
     dispatchFromContext ctx
       \<lparr>he_requestId = env_requestId (ctx_envelope ctx),
        he_kind = H_ble_failed (case err of None \<Rightarrow> None | Some e \<Rightarrow> platformCode e)\<rparr> w"

definition answer_event :: "effect_context \<Rightarrow> host_event_kind \<Rightarrow> runtime \<Rightarrow> runtime \<times> thread" where
  "answer_event ctx kind w =
     dispatchFromContext ctx \<lparr>he_requestId = env_requestId (ctx_envelope ctx), he_kind = kind\<rparr> w"

definition awaitOwnerStep :: "nat \<Rightarrow> nat \<Rightarrow> nat \<Rightarrow> runtime \<Rightarrow> runtime \<times> thread" where
  "awaitOwnerStep i generation t w =
     (let ow = rt_owner w i; s = ownerSignal ow generation in
      if ow_terminal ow \<or> generation \<noteq> ow_generation ow \<or> signal_aborted ow s
      then (w, (Done (Inr V_cancelled), []))
      else (w, (W_step i s t, [])))"

definition addCleanup :: "nat \<Rightarrow> nat \<Rightarrow> cleanup \<Rightarrow> runtime \<Rightarrow> runtime" where
  "addCleanup i generation c w =
     (let ow = rt_owner w i in
      if ow_terminal ow \<or> generation \<noteq> ow_generation ow
      then (case c of
              Cl_timer timerId handle \<Rightarrow> clear_timer i timerId handle w
            | _ \<Rightarrow> spawn (w, (W_host, [K_ignore])))
      else upd i (\<lambda>ow. ow\<lparr>ow_cleanups := ow_cleanups ow @ [c]\<rparr>) w)"

section \<open>Notifications and progress\<close>

definition note_progress :: "nat \<Rightarrow> int \<Rightarrow> int \<Rightarrow> runtime \<Rightarrow> (bota_error + unit) \<times> runtime" where
  "note_progress i completedUnits totalUnits w =
     (let ow = rt_owner w i in
      case reportProgress (ow_lastProgress ow) (ow_operation ow) (completedUnits, totalUnits) of
        Inl e \<Rightarrow> (Inl e, w)
      | Inr r \<Rightarrow> (Inr (), emit [L_progress i r] (upd i (\<lambda>ow. ow\<lparr>ow_lastProgress := Some r\<rparr>) w)))"

definition note_firmware :: "nat \<Rightarrow> firmware_report \<Rightarrow> runtime \<Rightarrow> (bota_error + unit) \<times> runtime" where
  "note_firmware i report w =
     (let ow = rt_owner w i in
      case reportFirmwareProgress (ow_lastFirmwareProgress ow) (ow_operation ow) report of
        Inl e \<Rightarrow> (Inl e, w)
      | Inr r \<Rightarrow> (Inr (), emit [L_firmware i r] (upd i (\<lambda>ow. ow\<lparr>ow_lastFirmwareProgress := Some r\<rparr>) w)))"

definition handleNotification :: "nat \<Rightarrow> core_notification \<Rightarrow> runtime \<Rightarrow> runtime \<times> thread" where
  "handleNotification i notification w =
     (let w1 = upd i (\<lambda>ow. ow\<lparr>ow_notifications := ow_notifications ow @ [notification]\<rparr>) w in
      case (case notification of
              N_progress _ completedUnits totalUnits \<Rightarrow> note_progress i completedUnits totalUnits w1
            | N_firmware_progress phase completedBytes totalBytes \<Rightarrow>
                note_firmware i (phase, completedBytes, totalBytes) w1
            | _ \<Rightarrow> (Inr (), w1)) of
        (Inl e, w2) \<Rightarrow> threw (SdkErr e) w2
      | (Inr _, w2) \<Rightarrow>
          (case notification of
             N_completed _ \<Rightarrow> finishSuccess i None w2
           | N_cancelled _ \<Rightarrow> finishCancelled i w2
           | N_failed raw \<Rightarrow>
               let err = SdkErr (normalizeCoreError (Thrown raw) (ow_operation (rt_owner w2 i))) in
               if ow_cancelling (rt_owner w2 i)
               then let w3 = upd i (\<lambda>ow. ow\<lparr>ow_failure := or_set (ow_failure ow) err\<rparr>) w2 in
                    finishFailure i (the (ow_failure (rt_owner w3 i))) w3
               else failOwner i err w2
           | _ \<Rightarrow> returned w2))"

section \<open>Effects on the device\<close>

definition startAuthorizedScan :: "effect_context \<Rightarrow> answers \<Rightarrow> runtime \<Rightarrow> runtime \<times> thread" where
  "startAuthorizedScan ctx a w =
     (let i = ctx_owner ctx in
      if \<not> in_supportsAuthorized a
      then threw (SdkErr (BotaSDKError Sdk_picker_required (ow_operation (rt_owner w i)))) w
      else case new_ticket w of (t, w1) \<Rightarrow>
        andthen (awaitOwnerStep i (ctx_generation ctx) t (trackExternal i t w1)) [K_scan ctx])"

definition scan_end :: "effect_context \<Rightarrow> nat \<Rightarrow> runtime \<Rightarrow> runtime \<times> thread" where
  "scan_end ctx forwarded w =
     returned (upd (ctx_owner ctx) (\<lambda>ow. ow\<lparr>ow_scanExhausted := (forwarded = 0)\<rparr>) w)"

definition scan_loop :: "effect_context \<Rightarrow> device list \<Rightarrow> nat \<Rightarrow> runtime \<Rightarrow> runtime \<times> thread" where
  "scan_loop ctx authorized forwarded w =
     (case dropWhile (\<lambda>d. \<not> List.member (ow_reconnectIds (rt_owner w (ctx_owner ctx))) (dev_id d)) authorized of
        [] \<Rightarrow> scan_end ctx forwarded w
      | d # rest \<Rightarrow>
          andthen (answer_event ctx
              (H_ble_scan_result \<lparr>cand_peripheralId = dev_id d, cand_name = dev_name d,
                 cand_advertisedAddress = None, cand_rssi = 0\<rparr>)
              (w\<lparr>rt_devices := AList.update (dev_id d) d (rt_devices w)\<rparr>))
            [K_scan_loop ctx rest (forwarded + 1)])"

definition connected_id :: "runtime \<Rightarrow> jsstring option" where
  "connected_id w = map_option dev_id (rt_connected w)"

definition connectDevice :: "effect_context \<Rightarrow> jsstring \<Rightarrow> runtime \<Rightarrow> runtime \<times> thread" where
  "connectDevice ctx peripheralId w =
     (let i = ctx_owner ctx in
      case map_of (rt_devices w) peripheralId of
        None \<Rightarrow> dispatchBleFailure ctx None w
      | Some d \<Rightarrow>
          (case new_deferred w of (lifecycle, w1) \<Rightarrow>
            case new_ticket (trackExternal i lifecycle w1) of (t, w2) \<Rightarrow>
              let attempt = rt_nextAttempt w2 + 1;
                  w3 = w2\<lparr>rt_nextAttempt := attempt, rt_attempts := AList.update (dev_id d) attempt (rt_attempts w2)\<rparr> in
              andthen (awaitOwnerStep i (ctx_generation ctx) t w3)
                [K_connect ctx d attempt t, K_lifecycle i lifecycle]))"

definition discoverServices :: "effect_context \<Rightarrow> jsstring \<Rightarrow> runtime \<Rightarrow> runtime \<times> thread" where
  "discoverServices ctx peripheralId w =
     (let i = ctx_owner ctx in
      case map_of (rt_devices w) peripheralId of
        None \<Rightarrow> dispatchBleFailure ctx None w
      | Some d \<Rightarrow>
          if connected_id w \<noteq> Some (dev_id d) then dispatchBleFailure ctx None w
          else case new_ticket w of (t, w1) \<Rightarrow>
            andthen (awaitOwnerStep i (ctx_generation ctx) t (trackExternal i t w1)) [K_discover ctx d])"

text \<open>The end of \<open>disconnectDevice\<close>, inside its \<open>try\<close>.\<close>

definition disconnect_end :: "effect_context \<Rightarrow> jsstring \<Rightarrow> runtime \<Rightarrow> runtime \<times> thread" where
  "disconnect_end ctx peripheralId w =
     andthen (answer_event ctx (H_ble_disconnected peripheralId None)
         (if connected_id w = Some peripheralId then w\<lparr>rt_connected := None\<rparr> else w))
       [K_catch_ble ctx]"

definition disconnectDevice :: "effect_context \<Rightarrow> jsstring \<Rightarrow> runtime \<Rightarrow> runtime \<times> thread" where
  "disconnectDevice ctx peripheralId w =
     (let i = ctx_owner ctx in
      case map_of (rt_devices w) peripheralId of
        Some d \<Rightarrow>
          if connected_id w = Some (dev_id d)
          then case new_ticket w of (t, w1) \<Rightarrow>
            andthen (awaitOwnerStep i (ctx_generation ctx) t (trackExternal i t w1)) [K_disconnect ctx]
          else disconnect_end ctx peripheralId w
      | None \<Rightarrow> disconnect_end ctx peripheralId w)"

definition readCharacteristic :: "effect_context \<Rightarrow> runtime \<Rightarrow> runtime \<times> thread" where
  "readCharacteristic ctx w =
     (let i = ctx_owner ctx in
      if rt_connected w = None then dispatchBleFailure ctx None w
      else case new_ticket w of (t, w1) \<Rightarrow>
        andthen (awaitOwnerStep i (ctx_generation ctx) t (trackExternal i t w1)) [K_read ctx])"

text \<open>
  The payload and the copy of it that the transport is given are zeroed together: at once when there is no
  device or when \<open>transport.write\<close> throws, otherwise when its promise settles (\<open>finally\<close>, the thread with
  the continuation \<open>K_wipe\<close>).
\<close>

definition wipe_payload :: "nat \<Rightarrow> effect_envelope \<Rightarrow> runtime \<Rightarrow> runtime" where
  "wipe_payload i envelope w = emit [L_payload i (scrubTransientEffect envelope)] w"

definition writeCharacteristic :: "effect_context \<Rightarrow> answers \<Rightarrow> runtime \<Rightarrow> runtime \<times> thread" where
  "writeCharacteristic ctx a w =
     (let i = ctx_owner ctx; envelope = ctx_envelope ctx in
      if rt_connected w = None then dispatchBleFailure ctx None (wipe_payload i envelope w)
      else case in_writeThrows a of
        Some e \<Rightarrow> threw e (wipe_payload i envelope w)
      | None \<Rightarrow>
          (case new_ticket w of (t, w1) \<Rightarrow>
            andthen (awaitOwnerStep i (ctx_generation ctx) t
                (trackWrite i t (spawn (w1, (W_ticket t, [K_wipe i envelope])))))
              [K_write ctx]))"

text \<open>
  \<open>trackGattSetup\<close> leaves a thread that waits for the subscription and then for the decision who owns
  it.
\<close>

definition subscribe :: "effect_context \<Rightarrow> runtime \<Rightarrow> runtime \<times> thread" where
  "subscribe ctx w =
     (let i = ctx_owner ctx in
      if rt_connected w = None then dispatchBleFailure ctx None w
      else case new_ticket w of (t, w1) \<Rightarrow>
        case new_deferred w1 of (settlement, w2) \<Rightarrow>
          let w3 = spawn (upd i (\<lambda>ow. ow\<lparr>ow_setups := ow_setups ow @ [settlement]\<rparr>) w2,
                     (W_ticket t, [K_setup i (ctx_generation ctx) t, K_setup_end i settlement])) in
          andthen (awaitOwnerStep i (ctx_generation ctx) t w3) [K_subscribe ctx t settlement])"

text \<open>\<open>decide\<close>: the first decision stands; an aborted signal has decided \<open>cancelled\<close> (\<open>False\<close>).\<close>

definition decide :: "nat \<Rightarrow> nat \<Rightarrow> nat \<Rightarrow> bool \<Rightarrow> runtime \<Rightarrow> runtime" where
  "decide i generation t transferred w =
     (let ow = rt_owner w i in
      if map_of (ow_decisions ow) t \<noteq> None then w
      else upd i (\<lambda>ow. ow\<lparr>ow_decisions :=
             (t, transferred \<and> \<not> signal_aborted ow (ownerSignal ow generation)) # ow_decisions ow\<rparr>) w)"

definition unsubscribe_loop :: "nat \<Rightarrow> int list \<Rightarrow> runtime \<Rightarrow> runtime \<times> thread" where
  "unsubscribe_loop i matches w =
     (case matches of [] \<Rightarrow> returned w | requestId # rest \<Rightarrow> (w, (W_host, [K_unsubscribe i rest requestId])))"

definition unsubscribe :: "nat \<Rightarrow> jsstring \<Rightarrow> jsstring \<Rightarrow> runtime \<Rightarrow> runtime \<times> thread" where
  "unsubscribe i serviceUuid characteristicUuid w =
     unsubscribe_loop i
       (map fst (filter (\<lambda>(_, s, c). s = serviceUuid \<and> c = characteristicUuid) (ow_subscriptions (rt_owner w i)))) w"

definition cancelTimer :: "nat \<Rightarrow> int \<Rightarrow> runtime \<Rightarrow> runtime" where
  "cancelTimer i timerId w =
     (case map_of (ow_timers (rt_owner w i)) timerId of
        None \<Rightarrow> w
      | Some handle \<Rightarrow> clear_timer i timerId handle w)"

definition scheduleTimer :: "effect_context \<Rightarrow> int \<Rightarrow> int \<Rightarrow> runtime \<Rightarrow> runtime \<times> thread" where
  "scheduleTimer ctx timerId delayMs w =
     (let i = ctx_owner ctx in
      if delayMs < - max_safe_integer \<or> delayMs > max_safe_integer \<or> delayMs < 0 \<or> delayMs > 2147483647
      then threw (SdkErr (BotaSDKError Sdk_internal_error (ow_operation (rt_owner w i)))) w
      else
        let w1 = cancelTimer i timerId w in
        if ow_scanExhausted (rt_owner w1 i)
        then answer_event ctx (H_timer_fired timerId) (upd i (\<lambda>ow. ow\<lparr>ow_scanExhausted := False\<rparr>) w1)
        else
          let handle = rt_nextTimer w1;
              w2 = w1\<lparr>rt_nextTimer := handle + 1, rt_armed := (handle, ctx, timerId) # rt_armed w1\<rparr>;
              w3 = upd i (\<lambda>ow. ow\<lparr>ow_timers := AList.update timerId handle (ow_timers ow)\<rparr>) w2 in
          returned (addCleanup i (ctx_generation ctx) (Cl_timer timerId handle) w3))"

definition executeHost :: "effect_context \<Rightarrow> host_slot \<Rightarrow> runtime \<Rightarrow> runtime \<times> thread" where
  "executeHost ctx slot w =
     (let i = ctx_owner ctx in
      case host_in (ow_hosts (rt_owner w i)) slot of
        None \<Rightarrow> threw (SdkErr (BotaSDKError Sdk_unsupported_capability
                   (publicOperation (env_operation (ctx_envelope ctx))))) w
      | Some _ \<Rightarrow>
          (case new_ticket w of (t, w1) \<Rightarrow>
            andthen (awaitOwnerStep i (ctx_generation ctx) t (trackExternal i t w1)) [K_host ctx]))"

definition events_loop :: "effect_context \<Rightarrow> host_event list \<Rightarrow> runtime \<Rightarrow> runtime \<times> thread" where
  "events_loop ctx events w =
     (case events of
        [] \<Rightarrow> returned w
      | e # rest \<Rightarrow> andthen (dispatchFromContext ctx e w) [K_events ctx rest])"

section \<open>Executing one effect\<close>

definition effectContext :: "nat \<Rightarrow> queued_effect \<Rightarrow> runtime \<Rightarrow> effect_context" where
  "effectContext i queued w =
     \<lparr>ctx_owner = i, ctx_envelope = q_envelope queued, ctx_generation = q_generation queued,
      ctx_cancellationId = ow_cancellationId (rt_owner w i)\<rparr>"

definition peripheral_of :: "core_effect \<Rightarrow> jsstring" where
  "peripheral_of e =
     (case e of E_ble_connect p \<Rightarrow> p | E_ble_discover_services p \<Rightarrow> p | E_ble_disconnect p \<Rightarrow> p | _ \<Rightarrow> [])"

definition timer_of :: "core_effect \<Rightarrow> int \<times> int" where
  "timer_of e = (case e of E_timer_schedule timerId delayMs \<Rightarrow> (timerId, delayMs) | _ \<Rightarrow> (0, 0))"

text \<open>The routine of an effect, once its context is made and the effect recorded (\<open>begin_effect\<close>).\<close>

definition begin_effect :: "nat \<Rightarrow> queued_effect \<Rightarrow> runtime \<Rightarrow> runtime" where
  "begin_effect i queued w =
     emit [L_execute i (q_envelope queued) (q_generation queued)]
       (w\<lparr>rt_contexts := effectContext i queued w # rt_contexts w\<rparr>)"

definition perform_effect :: "effect_context \<Rightarrow> answers \<Rightarrow> runtime \<Rightarrow> runtime \<times> thread" where
  "perform_effect ctx a w =
     (let i = ctx_owner ctx; eff = env_effect (ctx_envelope ctx) in
      case route_effect eff of
        Route_notification notification \<Rightarrow> handleNotification i notification w
      | Route_scan \<Rightarrow> startAuthorizedScan ctx a w
      | Route_stop_scan \<Rightarrow> answer_event ctx H_ble_scan_stopped w
      | Route_connect \<Rightarrow> connectDevice ctx (peripheral_of eff) w
      | Route_discover \<Rightarrow> discoverServices ctx (peripheral_of eff) w
      | Route_disconnect \<Rightarrow> disconnectDevice ctx (peripheral_of eff) w
      | Route_read \<Rightarrow> readCharacteristic ctx w
      | Route_write \<Rightarrow> writeCharacteristic ctx a w
      | Route_subscribe \<Rightarrow> subscribe ctx w
      | Route_unsubscribe serviceUuid characteristicUuid \<Rightarrow> unsubscribe i serviceUuid characteristicUuid w
      | Route_timer_schedule \<Rightarrow> scheduleTimer ctx (fst (timer_of eff)) (snd (timer_of eff)) w
      | Route_timer_cancel timerId \<Rightarrow> returned (cancelTimer i timerId w)
      | Route_progress completedUnits totalUnits \<Rightarrow>
          (case note_progress i completedUnits totalUnits w of
             (Inl e, w1) \<Rightarrow> threw (SdkErr e) w1
           | (Inr _, w1) \<Rightarrow> returned w1)
      | Route_host slot \<Rightarrow> executeHost ctx slot w)"

definition executeEffect :: "nat \<Rightarrow> queued_effect \<Rightarrow> answers \<Rightarrow> runtime \<Rightarrow> runtime \<times> thread" where
  "executeEffect i queued a w = perform_effect (effectContext i queued w) a (begin_effect i queued w)"

section \<open>The pump\<close>

definition finishFromCoreStatus :: "nat \<Rightarrow> answers \<Rightarrow> runtime \<Rightarrow> runtime \<times> thread" where
  "finishFromCoreStatus i a w =
     (let ow = rt_owner w i in
      case in_status a of
        Inl e \<Rightarrow> threw e w
      | Inr (Ws_completed _) \<Rightarrow>
          if \<not> hasCompletionEvidence ow
          then threw (SdkErr (BotaSDKError Sdk_internal_error (ow_operation ow))) w
          else finishSuccess i None w
      | Inr (Ws_cancelled _) \<Rightarrow> finishCancelled i w
      | Inr (Ws_failed raw) \<Rightarrow> finishFailure i (SdkErr (normalizeCoreError (Thrown raw) (ow_operation ow))) w
      | Inr Ws_idle \<Rightarrow> returned w
      | Inr (Ws_running _ _) \<Rightarrow> returned w)"

text \<open>One round of a queue loop: effects of an older generation are dropped, the first other one is taken.\<close>

definition stale_prefix :: "nat \<Rightarrow> queued_effect list \<Rightarrow> queued_effect list" where
  "stale_prefix generation = takeWhile (\<lambda>q. q_generation q \<noteq> generation)"

definition fresh_rest :: "nat \<Rightarrow> queued_effect list \<Rightarrow> queued_effect list" where
  "fresh_rest generation = dropWhile (\<lambda>q. q_generation q \<noteq> generation)"

definition pump :: "nat \<Rightarrow> answers \<Rightarrow> runtime \<Rightarrow> runtime \<times> thread" where
  "pump i a w =
     (let ow = rt_owner w i in
      if ow_terminal ow then returned w
      else
        let w1 = drop_effects i (map q_envelope (stale_prefix (ow_generation ow) (ow_queue ow))) w in
        case fresh_rest (ow_generation ow) (ow_queue ow) of
          [] \<Rightarrow> finishFromCoreStatus i a (upd i (\<lambda>ow. ow\<lparr>ow_queue := []\<rparr>) w1)
        | q # rest \<Rightarrow> andthen (executeEffect i q a (upd i (\<lambda>ow. ow\<lparr>ow_queue := rest\<rparr>) w1)) [K_pump i])"

definition ensurePump :: "nat \<Rightarrow> answers \<Rightarrow> runtime \<Rightarrow> runtime" where
  "ensurePump i a w =
     (if ow_pumping (rt_owner w i) \<or> ow_terminal (rt_owner w i) then w
      else spawn (andthen (pump i a (upd i (\<lambda>ow. ow\<lparr>ow_pumping := True\<rparr>) w)) [K_pump_catch i]))"

definition enqueueEffects :: "nat \<Rightarrow> effect_envelope list \<Rightarrow> nat \<Rightarrow> answers \<Rightarrow> runtime \<Rightarrow> (bota_error + unit) \<times> runtime" where
  "enqueueEffects i effects generation a w =
     (let ow = rt_owner w i in
      if ow_terminal ow \<or> generation \<noteq> ow_generation ow then (Inr (), drop_effects i effects w)
      else case admit_effects generation effects ow of
        (Inl e, ow1, dropped) \<Rightarrow> (Inl e, emit (map (L_drop i) dropped) (upd i (\<lambda>_. ow1) w))
      | (Inr _, ow1, dropped) \<Rightarrow>
          let w1 = upd i (\<lambda>_. ow1) w in
          (Inr (), if ow_inline ow1 = None then ensurePump i a w1 else w1))"

text \<open>The loop of \<open>executeCancellationEffects\<close> and its \<open>finally\<close>.\<close>

definition inline_end :: "nat \<Rightarrow> js_error list \<Rightarrow> runtime \<Rightarrow> runtime \<times> thread" where
  "inline_end i failures w =
     (let left = (case ow_inline (rt_owner w i) of None \<Rightarrow> [] | Some qs \<Rightarrow> qs);
          w1 = upd i (\<lambda>ow. ow\<lparr>ow_inline := None\<rparr>) (drop_effects i (map q_envelope left) w) in
      case failures of [] \<Rightarrow> returned w1 | e # _ \<Rightarrow> threw e w1)"

definition inline_loop :: "nat \<Rightarrow> js_error list \<Rightarrow> answers \<Rightarrow> runtime \<Rightarrow> runtime \<times> thread" where
  "inline_loop i failures a w =
     (let ow = rt_owner w i; qs = (case ow_inline ow of None \<Rightarrow> [] | Some qs \<Rightarrow> qs) in
      if ow_terminal ow then inline_end i failures w
      else
        let w1 = drop_effects i (map q_envelope (stale_prefix (ow_generation ow) qs)) w in
        case fresh_rest (ow_generation ow) qs of
          [] \<Rightarrow> inline_end i failures (upd i (\<lambda>ow. ow\<lparr>ow_inline := Some []\<rparr>) w1)
        | q # rest \<Rightarrow>
            andthen (executeEffect i q a (upd i (\<lambda>ow. ow\<lparr>ow_inline := Some rest\<rparr>) w1)) [K_inline i failures])"

definition executeCancellationEffects :: "nat \<Rightarrow> effect_envelope list \<Rightarrow> nat \<Rightarrow> answers \<Rightarrow> runtime \<Rightarrow> runtime \<times> thread" where
  "executeCancellationEffects i effects generation a w =
     (if ow_inline (rt_owner w i) \<noteq> None
      then threw (SdkErr (BotaSDKError Sdk_internal_error (ow_operation (rt_owner w i)))) w
      else case enqueueEffects i effects generation a (upd i (\<lambda>ow. ow\<lparr>ow_inline := Some []\<rparr>) w) of
        (Inl e, w1) \<Rightarrow> inline_end i [SdkErr e] w1
      | (Inr _, w1) \<Rightarrow> inline_loop i [] a w1)"

section \<open>Continuations\<close>

definition unit_outcome :: "outcome \<Rightarrow> outcome" where
  "unit_outcome r = map_sum id (\<lambda>_. V_unit) r"

definition keep_first :: "js_error option \<Rightarrow> outcome \<Rightarrow> js_error option" where
  "keep_first failure r = (case r of Inl e \<Rightarrow> or_set failure e | Inr _ \<Rightarrow> failure)"

definition note_completion_failure :: "nat \<Rightarrow> outcome \<Rightarrow> runtime \<Rightarrow> runtime" where
  "note_completion_failure i r w =
     upd i (\<lambda>ow. ow\<lparr>ow_completionFailure := keep_first (ow_completionFailure ow) r\<rparr>) w"

definition success_end :: "nat \<Rightarrow> outcome \<Rightarrow> runtime \<Rightarrow> runtime \<times> thread" where
  "success_end i r w =
     (let w1 = releaseOwner i (note_completion_failure i r w); ow = rt_owner w1 i in
      returned (settle_result i
        (case ow_completionFailure ow of
           Some e \<Rightarrow> Inl (normalizeRuntimeError e (ow_operation ow))
         | None \<Rightarrow> Inr (ow_notifications ow)) w1))"

definition cancelled_end :: "nat \<Rightarrow> outcome \<Rightarrow> runtime \<Rightarrow> runtime \<times> thread" where
  "cancelled_end i r w =
     (let w1 = releaseOwner i w; ow = rt_owner w1 i in
      returned (settle_result i (Inl
        (case ow_failure ow of
           Some e \<Rightarrow> normalizeRuntimeError e (ow_operation ow)
         | None \<Rightarrow> (case r of
             Inl e \<Rightarrow> normalizeRuntimeError e (ow_operation ow)
           | Inr _ \<Rightarrow> BotaSDKError Sdk_cancelled (ow_operation ow)))) w1))"

definition failure_end :: "nat \<Rightarrow> js_error \<Rightarrow> runtime \<Rightarrow> runtime \<times> thread" where
  "failure_end i err w =
     (let w1 = releaseOwner i w in
      returned (settle_result i (Inl (normalizeRuntimeError err (ow_operation (rt_owner w1 i)))) w1))"

definition cancel_claimed :: "nat \<Rightarrow> outcome \<Rightarrow> runtime \<Rightarrow> runtime \<times> thread" where
  "cancel_claimed i r w =
     (case r of
        Inl e \<Rightarrow> threw e w
      | Inr (V_flag True) \<Rightarrow> (w, (W_result i, []))
      | Inr _ \<Rightarrow> andthen (cleanupAndSettle i True (beginCancellation i w)) [K_cancel_cleaned i])"

definition core_effects :: "outcome \<Rightarrow> js_error + effect_envelope list" where
  "core_effects r = (case r of Inl e \<Rightarrow> Inl e | Inr (V_effects es) \<Rightarrow> Inr es | Inr _ \<Rightarrow> Inr [])"

definition cancel_core :: "nat \<Rightarrow> js_error option \<Rightarrow> outcome \<Rightarrow> answers \<Rightarrow> runtime \<Rightarrow> runtime \<times> thread" where
  "cancel_core i cleanupError r a w =
     (case (case core_effects r of
              Inl e \<Rightarrow> (Inl e, w)
            | Inr effects \<Rightarrow>
                (case enqueueEffects i effects (ow_generation (rt_owner w i)) a w of
                   (Inl e, w1) \<Rightarrow> (Inl (SdkErr e), w1) | (Inr u, w1) \<Rightarrow> (Inr u, w1))) of
        (Inl e, w1) \<Rightarrow>
          andthen (finishFailure i (case cleanupError of Some c \<Rightarrow> c | None \<Rightarrow> e) w1) [K_cancel_wait i cleanupError]
      | (Inr _, w1) \<Rightarrow> (w1, (W_result i, [K_cancel_final i cleanupError])))"

definition cancel_final :: "nat \<Rightarrow> js_error option \<Rightarrow> outcome \<Rightarrow> runtime \<Rightarrow> runtime \<times> thread" where
  "cancel_final i cleanupError r w =
     (case r of
        Inr _ \<Rightarrow> returned w
      | Inl e \<Rightarrow>
          if cleanupError = None \<and> (case e of SdkErr b \<Rightarrow> err_code b = Sdk_cancelled | _ \<Rightarrow> False)
          then returned w
          else threw (SdkErr (normalizeRuntimeError (case cleanupError of Some c \<Rightarrow> c | None \<Rightarrow> e)
                 (ow_operation (rt_owner w i)))) w)"

definition caf_claimed :: "nat \<Rightarrow> js_error \<Rightarrow> outcome \<Rightarrow> runtime \<Rightarrow> runtime \<times> thread" where
  "caf_claimed i err r w =
     (case r of
        Inl e \<Rightarrow> threw e w
      | Inr (V_flag True) \<Rightarrow> finishFailure i err w
      | Inr _ \<Rightarrow> andthen (cleanupAndSettle i True (beginCancellation i w)) [K_caf_cleaned i err])"

definition caf_core :: "nat \<Rightarrow> js_error \<Rightarrow> outcome \<Rightarrow> answers \<Rightarrow> runtime \<Rightarrow> runtime \<times> thread" where
  "caf_core i err r a w =
     (case core_effects r of
        Inl _ \<Rightarrow> finishFailure i err w
      | Inr effects \<Rightarrow>
          andthen (executeCancellationEffects i effects (ow_generation (rt_owner w i)) a w) [K_caf_done i err])"

definition settle_of :: "outcome \<Rightarrow> settlement" where
  "settle_of r = Settled (unit_outcome r)"

definition scan_resumed :: "effect_context \<Rightarrow> outcome \<Rightarrow> runtime \<Rightarrow> runtime \<times> thread" where
  "scan_resumed ctx r w =
     (let ow = rt_owner w (ctx_owner ctx) in
      case r of
        Inr (V_failed e) \<Rightarrow> threw e w
      | Inr (V_completed (V_devices authorized)) \<Rightarrow>
          if ow_terminal ow \<or> ctx_generation ctx \<noteq> ow_generation ow then returned w
          else scan_loop ctx authorized 0 w
      | _ \<Rightarrow> returned w)"

definition connect_resumed :: "effect_context \<Rightarrow> device \<Rightarrow> nat \<Rightarrow> nat \<Rightarrow> outcome \<Rightarrow> runtime \<Rightarrow> runtime \<times> thread" where
  "connect_resumed ctx d attempt t r w =
     (if r = Inr V_cancelled
      then case new_deferred w of (settled, w1) \<Rightarrow>
        (spawn (w1\<lparr>rt_pendingConnections := AList.update (dev_id d) settled (rt_pendingConnections w1)\<rparr>,
           (W_ticket t, [K_connection_settle d attempt settled])), (W_ticket settled, []))
      else
        let w1 = (if map_of (rt_attempts w) (dev_id d) = Some attempt
                  then w\<lparr>rt_attempts := AList.delete (dev_id d) (rt_attempts w)\<rparr> else w);
            ow = rt_owner w1 (ctx_owner ctx) in
        case r of
          Inr (V_failed e) \<Rightarrow> dispatchBleFailure ctx (Some e) w1
        | _ \<Rightarrow>
            if ow_terminal ow \<or> ctx_generation ctx \<noteq> ow_generation ow \<or> ow_aborted ow
            then (w1, (W_host, [K_ignore]))
            else answer_event ctx (H_ble_connected (dev_id d)) (w1\<lparr>rt_connected := Some d\<rparr>))"

definition connection_settled :: "device \<Rightarrow> nat \<Rightarrow> nat \<Rightarrow> runtime \<Rightarrow> runtime \<times> thread" where
  "connection_settled d attempt settled w =
     (let w1 = (if map_of (rt_attempts w) (dev_id d) = Some attempt
                then w\<lparr>rt_attempts := AList.delete (dev_id d) (rt_attempts w)\<rparr> else w);
          w2 = (if map_of (rt_pendingConnections w1) (dev_id d) = Some settled
                then w1\<lparr>rt_pendingConnections := AList.delete (dev_id d) (rt_pendingConnections w1)\<rparr> else w1) in
      returned (settle_ticket settled (Inr V_unit) w2))"

definition connection_settle :: "device \<Rightarrow> nat \<Rightarrow> nat \<Rightarrow> outcome \<Rightarrow> runtime \<Rightarrow> runtime \<times> thread" where
  "connection_settle d attempt settled r w =
     (if (case r of Inr _ \<Rightarrow> True | Inl _ \<Rightarrow> False)
         \<and> map_of (rt_attempts w) (dev_id d) = Some attempt \<and> connected_id w \<noteq> Some (dev_id d)
      then (w, (W_host, [K_connection_final d attempt settled]))
      else connection_settled d attempt settled w)"

text \<open>The routines that answer with one event once the transport has.\<close>

definition step_answer :: "effect_context \<Rightarrow> (val \<Rightarrow> host_event_kind) \<Rightarrow> outcome \<Rightarrow> runtime \<Rightarrow> runtime \<times> thread" where
  "step_answer ctx f r w =
     (case r of
        Inr (V_completed v) \<Rightarrow> answer_event ctx (f v) w
      | Inr (V_failed e) \<Rightarrow> dispatchBleFailure ctx (Some e) w
      | _ \<Rightarrow> returned w)"

definition read_event :: "val \<Rightarrow> host_event_kind" where
  "read_event v = (case v of V_bytes bs \<Rightarrow> H_ble_read_completed bs | _ \<Rightarrow> H_ble_read_completed [])"

definition disconnect_resumed :: "effect_context \<Rightarrow> outcome \<Rightarrow> runtime \<Rightarrow> runtime \<times> thread" where
  "disconnect_resumed ctx r w =
     (case r of
        Inr V_cancelled \<Rightarrow> returned w
      | Inr (V_failed e) \<Rightarrow> dispatchBleFailure ctx (Some e) w
      | _ \<Rightarrow> disconnect_end ctx (peripheral_of (env_effect (ctx_envelope ctx))) w)"

text \<open>The end of \<open>subscribe\<close>, its \<open>try\<close> block: the subscription is the owner's from here.\<close>

definition subscribe_end :: "effect_context \<Rightarrow> nat \<Rightarrow> runtime \<Rightarrow> runtime \<times> thread" where
  "subscribe_end ctx t w =
     (let i = ctx_owner ctx; requestId = env_requestId (ctx_envelope ctx) in
      case env_effect (ctx_envelope ctx) of
        E_ble_subscribe serviceUuid characteristicUuid \<Rightarrow>
          let w1 = upd i (\<lambda>ow. ow\<lparr>ow_subscriptions :=
                     AList.update requestId (serviceUuid, characteristicUuid) (ow_subscriptions ow)\<rparr>) w;
              w2 = addCleanup i (ctx_generation ctx) (Cl_subscription requestId) w1 in
          andthen (answer_event ctx (H_ble_subscribed characteristicUuid) (decide i (ctx_generation ctx) t True w2))
            [K_catch_ble ctx]
      | _ \<Rightarrow> returned w)"

definition subscribe_resumed :: "effect_context \<Rightarrow> nat \<Rightarrow> nat \<Rightarrow> outcome \<Rightarrow> runtime \<Rightarrow> runtime \<times> thread" where
  "subscribe_resumed ctx t settlement r w =
     (let i = ctx_owner ctx; ow = rt_owner w i; generation = ctx_generation ctx in
      case r of
        Inr V_cancelled \<Rightarrow> returned w
      | Inr (V_failed e) \<Rightarrow> dispatchBleFailure ctx (Some e) (decide i generation t False w)
      | _ \<Rightarrow>
          if ow_terminal ow \<or> generation \<noteq> ow_generation ow
          then (decide i generation t False w, (W_ticket settlement, []))
          else subscribe_end ctx t w)"

definition setup_resumed :: "nat \<Rightarrow> nat \<Rightarrow> nat \<Rightarrow> outcome \<Rightarrow> runtime \<Rightarrow> runtime \<times> thread" where
  "setup_resumed i generation t r w =
     (case r of
        Inl _ \<Rightarrow> returned w
      | Inr _ \<Rightarrow> (w, (W_decision i (ownerSignal (rt_owner w i) generation) t, [K_setup_decided i generation])))"

definition setup_decided :: "nat \<Rightarrow> nat \<Rightarrow> outcome \<Rightarrow> runtime \<Rightarrow> runtime \<times> thread" where
  "setup_decided i generation r w =
     (let ow = rt_owner w i in
      if r \<noteq> Inr (V_flag True) \<or> ow_terminal ow \<or> generation \<noteq> ow_generation ow
      then (w, (W_host, [])) else returned w)"

definition host_resumed :: "effect_context \<Rightarrow> outcome \<Rightarrow> runtime \<Rightarrow> runtime \<times> thread" where
  "host_resumed ctx r w =
     (case r of
        Inr (V_failed e) \<Rightarrow> threw e w
      | Inr (V_completed (V_events events)) \<Rightarrow> events_loop ctx events w
      | _ \<Rightarrow> returned w)"

text \<open>Effects that come back for an owner that has ended or moved on: they are neither queued nor wiped.\<close>

definition discard_late :: "nat \<Rightarrow> effect_envelope list \<Rightarrow> runtime \<Rightarrow> runtime" where
  "discard_late i effects w = emit (map (L_late i) effects) w"

definition dispatched :: "nat \<Rightarrow> nat \<Rightarrow> outcome \<Rightarrow> answers \<Rightarrow> runtime \<Rightarrow> runtime \<times> thread" where
  "dispatched i generation r a w =
     (case core_effects r of
        Inl e \<Rightarrow> threw e w
      | Inr effects \<Rightarrow>
          if ow_terminal (rt_owner w i) \<or> generation \<noteq> ow_generation (rt_owner w i)
          then returned (discard_late i effects w)
          else case enqueueEffects i effects generation a w of
            (Inl e, w1) \<Rightarrow> threw (SdkErr e) w1
          | (Inr _, w1) \<Rightarrow> returned w1)"

definition direct_outcome :: "direct_owner \<Rightarrow> bool \<Rightarrow> outcome \<Rightarrow> bota_error + unit" where
  "direct_outcome di destroyed r =
     (case r of
        Inr _ \<Rightarrow>
          (case di_terminalError di of
             Some e \<Rightarrow> Inl e
           | None \<Rightarrow>
               if di_aborted di \<or> destroyed then Inl (BotaSDKError Sdk_cancelled (di_operation di)) else Inr ())
      | Inl err \<Rightarrow>
          let normalized = normalizeRuntimeError err (di_operation di) in
          (case di_terminalError di of
             Some e \<Rightarrow> Inl (if err_code normalized = Sdk_cancelled then e else normalized)
           | None \<Rightarrow>
               if di_aborted di \<or> destroyed then Inl (BotaSDKError Sdk_cancelled (di_operation di))
               else Inl normalized))"

definition upd_direct :: "nat \<Rightarrow> (direct_owner \<Rightarrow> direct_owner) \<Rightarrow> runtime \<Rightarrow> runtime" where
  "upd_direct d f w = w\<lparr>rt_direct := (rt_direct w)(d := f (rt_direct w d))\<rparr>"

definition direct_end :: "nat \<Rightarrow> outcome \<Rightarrow> runtime \<Rightarrow> runtime \<times> thread" where
  "direct_end d r w =
     (let res = direct_outcome (rt_direct w d) (rt_destroyed w) r;
          w1 = (if rt_active w = Some (Direct d) then w\<lparr>rt_active := None\<rparr> else w) in
      returned (upd_direct d (\<lambda>di. di\<lparr>di_result := Some res\<rparr>) w1))"

fun resume :: "frame \<Rightarrow> outcome \<Rightarrow> answers \<Rightarrow> runtime \<Rightarrow> runtime \<times> thread" where
  "resume (K_pump i) r a w = (case r of Inl e \<Rightarrow> threw e w | Inr _ \<Rightarrow> pump i a w)"
| "resume (K_pump_catch i) r a w =
     (case r of
        Inl e \<Rightarrow> andthen (failOwner i e w) [K_pump_finally i]
      | Inr _ \<Rightarrow> (w, (Done (Inr V_unit), [K_pump_finally i])))"
| "resume (K_pump_finally i) r a w =
     (let w1 = upd i (\<lambda>ow. ow\<lparr>ow_pumping := False\<rparr>) w in
      (if ow_queue (rt_owner w1 i) \<noteq> [] \<and> \<not> ow_terminal (rt_owner w1 i) then ensurePump i a w1 else w1,
       (Done r, [])))"
| "resume (K_dispatched i generation) r a w = dispatched i generation r a w"
| "resume (K_disconnected i generation) r a w =
     (case core_effects r of
        Inl e \<Rightarrow> threw e w
      | Inr effects \<Rightarrow>
          if rt_active w \<noteq> Some (Workflow i) then returned (discard_late i effects w)
          else dispatched i generation r a w)"
| "resume (K_catch_fail i) r a w =
     (case r of Inl e \<Rightarrow> returned (spawn (failOwner i e w)) | Inr _ \<Rightarrow> returned w)"
| "resume (K_handoff i) r a w =
     andthen (cleanupAndSettle i False (make_terminal i False False (note_completion_failure i r w)))
       [K_success_end i]"
| "resume (K_success_end i) r a w = success_end i r w"
| "resume (K_settle_completion i) r a w =
     returned (upd i (\<lambda>ow. ow\<lparr>ow_completionPromise := Some (settle_of r)\<rparr>) w)"
| "resume (K_cancelled_end i) r a w = cancelled_end i r w"
| "resume (K_failure_end i err) r a w = failure_end i err w"
| "resume (K_settle_failure i) r a w =
     returned (upd i (\<lambda>ow. ow\<lparr>ow_failurePromise := Some (settle_of r)\<rparr>) w)"
| "resume (K_claim i rest) r a w =
     (case r of
        Inl e \<Rightarrow> threw e w
      | Inr v \<Rightarrow> if v = V_flag True then (w, (Done (Inr (V_flag True)), [])) else claim_loop i rest w)"
| "resume (K_cancel_claimed i) r a w = cancel_claimed i r w"
| "resume (K_cancel_cleaned i) r a w = (w, (W_core (Call_cancel i), [K_cancel_core i (keep_first None r)]))"
| "resume (K_cancel_core i cleanupError) r a w = cancel_core i cleanupError r a w"
| "resume (K_cancel_wait i cleanupError) r a w = (w, (W_result i, [K_cancel_final i cleanupError]))"
| "resume (K_cancel_final i cleanupError) r a w = cancel_final i cleanupError r w"
| "resume (K_settle_cancel i) r a w =
     returned (upd i (\<lambda>ow. ow\<lparr>ow_cancelPromise := Some (settle_of r)\<rparr>) w)"
| "resume (K_caf_claimed i err) r a w = caf_claimed i err r w"
| "resume (K_caf_cleaned i err) r a w = (w, (W_core (Call_cancel i), [K_caf_core i err]))"
| "resume (K_caf_core i err) r a w = caf_core i err r a w"
| "resume (K_caf_done i err) r a w =
     (if ow_terminal (rt_owner w i) then returned w else finishFailure i err w)"
| "resume (K_inline i failures) r a w =
     inline_loop i (case r of Inl e \<Rightarrow> failures @ [e] | Inr _ \<Rightarrow> failures) a w"
| "resume (K_cs_writes i cancelHosts) r a w =
     andthen (cleanupOwner i cancelHosts w) [K_cs_cleanup i (keep_first None r)]"
| "resume (K_cs_cleanup i failure) r a w = (w, (W_setups i, [K_cs_setups i (keep_first failure r)]))"
| "resume (K_cs_setups i failure) r a w = (w, (W_externals i, [K_cs_externals i (keep_first failure r)]))"
| "resume (K_cs_externals i failure) r a w =
     (case keep_first failure r of None \<Rightarrow> returned w | Some e \<Rightarrow> threw e w)"
| "resume (K_host_cancel i rest failures) r a w =
     host_cancel_loop i rest (case r of Inl e \<Rightarrow> failures @ [e] | Inr _ \<Rightarrow> failures) w"
| "resume (K_cleanup i rest failures) r a w =
     cleanup_loop i rest (case r of Inl e \<Rightarrow> failures @ [e] | Inr _ \<Rightarrow> failures) w"
| "resume (K_settle_cleanup i) r a w =
     returned (upd i (\<lambda>ow. ow\<lparr>ow_cleanupPromise := Some (settle_of r)\<rparr>) w)"
| "resume K_ignore r a w = returned w"
| "resume (K_scan ctx) r a w = scan_resumed ctx r w"
| "resume (K_scan_loop ctx rest forwarded) r a w =
     (case r of Inl e \<Rightarrow> threw e w | Inr _ \<Rightarrow> scan_loop ctx rest forwarded w)"
| "resume (K_lifecycle i lifecycle) r a w = (settle_ticket lifecycle (Inr V_unit) w, (Done r, []))"
| "resume (K_connect ctx d attempt t) r a w = connect_resumed ctx d attempt t r w"
| "resume (K_connection_settle d attempt settled) r a w = connection_settle d attempt settled r w"
| "resume (K_connection_final d attempt settled) r a w = connection_settled d attempt settled w"
| "resume (K_discover ctx d) r a w = step_answer ctx (\<lambda>_. H_ble_services_discovered (dev_id d)) r w"
| "resume (K_disconnect ctx) r a w = disconnect_resumed ctx r w"
| "resume (K_catch_ble ctx) r a w =
     (case r of Inl e \<Rightarrow> dispatchBleFailure ctx (Some e) w | Inr _ \<Rightarrow> returned w)"
| "resume (K_read ctx) r a w = step_answer ctx read_event r w"
| "resume (K_write ctx) r a w = step_answer ctx (\<lambda>_. H_ble_write_completed) r w"
| "resume (K_wipe i envelope) r a w = (wipe_payload i envelope w, (Done r, []))"
| "resume (K_subscribe ctx t settlement) r a w = subscribe_resumed ctx t settlement r w"
| "resume (K_setup i generation t) r a w = setup_resumed i generation t r w"
| "resume (K_setup_decided i generation) r a w = setup_decided i generation r w"
| "resume (K_setup_end i settlement) r a w =
     (settle_ticket settlement (unit_outcome r)
        (upd i (\<lambda>ow. ow\<lparr>ow_setups := removeAll settlement (ow_setups ow)\<rparr>) w), (Done r, []))"
| "resume (K_unsubscribe i rest requestId) r a w =
     (case r of
        Inl e \<Rightarrow> threw e w
      | Inr _ \<Rightarrow> unsubscribe_loop i rest
          (upd i (\<lambda>ow. ow\<lparr>ow_subscriptions := AList.delete requestId (ow_subscriptions ow)\<rparr>) w))"
| "resume (K_host ctx) r a w = host_resumed ctx r w"
| "resume (K_events ctx rest) r a w = (case r of Inl e \<Rightarrow> threw e w | Inr _ \<Rightarrow> events_loop ctx rest w)"
| "resume (K_direct d) r a w = direct_end d r w"

section \<open>When a promise settles\<close>

definition settled_outcome :: "settlement option \<Rightarrow> outcome option" where
  "settled_outcome p = (case p of Some (Settled r) \<Rightarrow> Some r | _ \<Rightarrow> None)"

fun wait_outcome :: "wait \<Rightarrow> answers \<Rightarrow> runtime \<Rightarrow> outcome option" where
  "wait_outcome (Done r) a w = None"
| "wait_outcome W_host a w = Some (in_answer a)"
| "wait_outcome (W_ticket t) a w = map_of (rt_tickets w) t"
| "wait_outcome (W_step i s t) a w =
     (if signal_aborted (rt_owner w i) s \<and> in_answer a = Inr V_cancelled then Some (Inr V_cancelled)
      else map_option (\<lambda>r. Inr (case r of Inl e \<Rightarrow> V_failed e | Inr v \<Rightarrow> V_completed v)) (map_of (rt_tickets w) t))"
| "wait_outcome (W_core c) a w = None"
| "wait_outcome (W_result i) a w =
     map_option (\<lambda>r. map_sum SdkErr (\<lambda>_. V_unit) r) (ow_result (rt_owner w i))"
| "wait_outcome (W_cancel i) a w = settled_outcome (ow_cancelPromise (rt_owner w i))"
| "wait_outcome (W_completion i) a w = settled_outcome (ow_completionPromise (rt_owner w i))"
| "wait_outcome (W_failure i) a w = settled_outcome (ow_failurePromise (rt_owner w i))"
| "wait_outcome (W_cleanup i) a w = settled_outcome (ow_cleanupPromise (rt_owner w i))"
| "wait_outcome (W_writes i) a w =
     (if ow_writes (rt_owner w i) = [] then Some (unit_outcome (in_answer a)) else None)"
| "wait_outcome (W_setups i) a w =
     (if ow_setups (rt_owner w i) = [] then Some (unit_outcome (in_answer a)) else None)"
| "wait_outcome (W_externals i) a w = (if ow_externals (rt_owner w i) = [] then Some (Inr V_unit) else None)"
| "wait_outcome (W_decision i s t) a w =
     (case map_of (ow_decisions (rt_owner w i)) t of
        Some b \<Rightarrow> Some (Inr (V_flag b))
      | None \<Rightarrow> if signal_aborted (rt_owner w i) s then Some (Inr (V_flag False)) else None)"
| "wait_outcome (W_direct d) a w = map_option (\<lambda>_. Inr V_unit) (di_result (rt_direct w d))"

text \<open>A core call runs its body when its turn in the queue comes; any other wait leaves the state alone.\<close>

definition satisfy :: "wait \<Rightarrow> answers \<Rightarrow> runtime \<Rightarrow> (runtime \<times> outcome) option" where
  "satisfy wt a w =
     (case wt of
        W_core c \<Rightarrow> Some (core_body c a w)
      | _ \<Rightarrow> map_option (Pair w) (wait_outcome wt a w))"

section \<open>The calls of the client\<close>

definition new_owner :: "jsstring \<Rightarrow> bytes \<Rightarrow> workflow_hosts \<Rightarrow> bool \<Rightarrow> jsstring list \<Rightarrow> owner" where
  "new_owner operationId cancellationId hosts handoff deviceIds =
     \<lparr>ow_operationId = operationId, ow_operation = operationFromId operationId,
      ow_cancellationId = cancellationId, ow_aborted = False, ow_cancellationAborted = None,
      ow_cancellationGeneration = None, ow_hosts = hosts, ow_result = None, ow_notifications = [],
      ow_queue = [], ow_requests = [], ow_subscriptions = [], ow_timers = [], ow_cleanups = [],
      ow_setups = [], ow_decisions = [], ow_writes = [], ow_externals = [], ow_handoff = handoff,
      ow_evidence = None, ow_completing = False, ow_completionPromise = None, ow_completionFailure = None,
      ow_generation = 0, ow_pumping = False, ow_inline = None, ow_terminal = False, ow_cancelling = False,
      ow_cancelPromise = None, ow_failure = None, ow_failurePromise = None, ow_cleanupPromise = None,
      ow_lastProgress = None, ow_lastFirmwareProgress = None, ow_scanExhausted = False,
      ow_reconnectIds = deviceIds\<rparr>"

text \<open>The checks \<open>run\<close> and \<open>runExclusive\<close> share.\<close>

definition ownership_free :: "bota_operation \<Rightarrow> runtime \<Rightarrow> bota_error + unit" where
  "ownership_free operation w =
     (if rt_destroyed w then Inl (BotaSDKError Sdk_cancelled operation)
      else if rt_active w \<noteq> None \<or> rt_pendingConnections w \<noteq> []
              \<or> rt_poisoned w \<noteq> None \<and> operation \<noteq> Op_disconnect
      then Inl (BotaSDKError Sdk_operation_in_progress operation)
      else Inr ())"

text \<open>\<open>Inr i\<close>: the promise of the new owner's result; \<open>Inl\<close>: a promise rejected at once.\<close>

definition run :: "jsstring \<Rightarrow> bytes \<Rightarrow> workflow_hosts \<Rightarrow> bool \<Rightarrow> answers \<Rightarrow> runtime \<Rightarrow> (bota_error + nat) \<times> runtime" where
  "run operationId cancellationId hosts handoff a w =
     (let operation = operationFromId operationId in
      case ownership_free operation w of
        Inl e \<Rightarrow> (Inl e, w)
      | Inr _ \<Rightarrow>
          if length operationId = 0 \<or> length cancellationId \<noteq> 16
          then (Inl (BotaSDKError Sdk_invalid_input operation), w)
          else
            let i = rt_owners w;
                w1 = upd i (\<lambda>_. new_owner operationId cancellationId hosts handoff (map fst (rt_devices w)))
                       (w\<lparr>rt_owners := i + 1, rt_active := Some (Workflow i)\<rparr>) in
            (Inr i,
             case (case in_effects a of
                     Inl e \<Rightarrow> (Inl e, w1)
                   | Inr effects \<Rightarrow>
                       (case enqueueEffects i effects 0 a w1 of
                          (Inl e, w2) \<Rightarrow> (Inl (SdkErr e), w2) | (Inr u, w2) \<Rightarrow> (Inr u, w2))) of
               (Inl e, w2) \<Rightarrow> spawn (failOwner i e w2)
             | (Inr _, w2) \<Rightarrow> w2))"

definition cancelWorkflow :: "jsstring \<Rightarrow> runtime \<Rightarrow> runtime" where
  "cancelWorkflow operationId w =
     (case rt_active w of
        Some (Workflow i) \<Rightarrow>
          if ow_operationId (rt_owner w i) \<noteq> operationId \<or> ow_terminal (rt_owner w i) then w
          else spawn (enterCancellation i w)
      | _ \<Rightarrow> w)"

definition runExclusive :: "bota_operation \<Rightarrow> runtime \<Rightarrow> (bota_error + nat) \<times> runtime" where
  "runExclusive operation w =
     (case ownership_free operation w of
        Inl e \<Rightarrow> (Inl e, w)
      | Inr _ \<Rightarrow>
          let d = rt_directs w in
          (Inr d, spawn (upd_direct d (\<lambda>_. \<lparr>di_operation = operation, di_aborted = False,
                           di_terminalError = None, di_result = None\<rparr>)
                     (w\<lparr>rt_directs := d + 1, rt_active := Some (Direct d)\<rparr>), (W_host, [K_direct d]))))"

text \<open>The callback \<open>runExclusive\<close> gives its body to go over to a core workflow.\<close>

definition handoff_run :: "nat \<Rightarrow> jsstring \<Rightarrow> bytes \<Rightarrow> workflow_hosts \<Rightarrow> bool \<Rightarrow> answers \<Rightarrow> runtime
    \<Rightarrow> (bota_error + nat) \<times> runtime" where
  "handoff_run d operationId cancellationId hosts handoff a w =
     (let di = rt_direct w d in
      if rt_active w \<noteq> Some (Direct d) \<or> di_aborted di \<or> rt_destroyed w
      then (Inl (case di_terminalError di of Some e \<Rightarrow> e | None \<Rightarrow> BotaSDKError Sdk_cancelled (di_operation di)), w)
      else run operationId cancellationId hosts handoff a (w\<lparr>rt_active := None\<rparr>))"

definition destroy :: "runtime \<Rightarrow> runtime" where
  "destroy w =
     (if rt_destroyed w then w
      else
        let w1 = w\<lparr>rt_destroyed := True\<rparr> in
        case rt_active w1 of
          None \<Rightarrow> w1
        | Some (Workflow i) \<Rightarrow> cancelWorkflow (ow_operationId (rt_owner w1 i)) w1
        | Some (Direct d) \<Rightarrow>
            spawn (upd_direct d (\<lambda>di. di\<lparr>di_aborted := True\<rparr>) w1, (W_direct d, [K_ignore])))"

definition dispatchDeviceDisconnected :: "nat \<Rightarrow> jsstring \<Rightarrow> nat \<Rightarrow> runtime \<Rightarrow> runtime \<times> thread" where
  "dispatchDeviceDisconnected i deviceId generation w =
     (let ow = rt_owner w i in
      if ow_terminal ow \<or> rt_active w \<noteq> Some (Workflow i) \<or> ow_generation ow \<noteq> generation then returned w
      else case map fst (ow_subscriptions ow) @ map fst (ow_requests ow) of
        [] \<Rightarrow> threw (SdkErr (BotaSDKError Sdk_device_disconnected (ow_operation ow))) w
      | requestId # _ \<Rightarrow>
          (w, (W_core (Call_disconnected i generation
                 \<lparr>he_requestId = requestId, he_kind = H_ble_disconnected deviceId None\<rparr>),
               [K_disconnected i generation])))"

definition markDeviceDisconnected :: "jsstring \<Rightarrow> runtime \<Rightarrow> runtime" where
  "markDeviceDisconnected deviceId w =
     (let w1 = (if rt_poisoned w = Some deviceId then w\<lparr>rt_poisoned := None\<rparr> else w) in
      if connected_id w1 \<noteq> Some deviceId then w1
      else
        let w2 = w1\<lparr>rt_connected := None\<rparr> in
        case rt_active w2 of
          None \<Rightarrow> w2
        | Some (Direct d) \<Rightarrow>
            if di_operation (rt_direct w2 d) = Op_disconnect then w2
            else upd_direct d (\<lambda>di. di\<lparr>di_terminalError :=
                   or_set (di_terminalError di) (BotaSDKError Sdk_device_disconnected (di_operation di)),
                   di_aborted := True\<rparr>) w2
        | Some (Workflow i) \<Rightarrow>
            spawn (andthen (dispatchDeviceDisconnected i deviceId (ow_generation (rt_owner w2 i)) w2)
              [K_catch_fail i]))"

definition registerDevice :: "device \<Rightarrow> runtime \<Rightarrow> runtime" where
  "registerDevice d w = w\<lparr>rt_devices := AList.update (dev_id d) d (rt_devices w)\<rparr>"

definition unregisterDevice :: "jsstring \<Rightarrow> runtime \<Rightarrow> runtime" where
  "unregisterDevice deviceId w =
     (let w1 = w\<lparr>rt_devices := AList.delete deviceId (rt_devices w)\<rparr> in
      if connected_id w1 = Some deviceId then w1\<lparr>rt_connected := None\<rparr> else w1)"

definition poisonBleOwnership :: "jsstring \<Rightarrow> runtime \<Rightarrow> runtime" where
  "poisonBleOwnership deviceId w =
     (if connected_id w = Some deviceId then w\<lparr>rt_poisoned := Some deviceId\<rparr> else w)"

definition lease_key :: "jsstring \<Rightarrow> jsstring \<Rightarrow> jsstring \<Rightarrow> jsstring" where
  "lease_key deviceId serviceUuid characteristicUuid =
     deviceId @ [58] @ canonicalGattUuid serviceUuid @ [58] @ canonicalGattUuid characteristicUuid"

definition claimCharacteristicLease ::
    "bota_operation \<Rightarrow> device \<Rightarrow> jsstring \<Rightarrow> jsstring \<Rightarrow> runtime \<Rightarrow> (bota_error + jsstring \<times> nat) \<times> runtime" where
  "claimCharacteristicLease operation d serviceUuid characteristicUuid w =
     (if rt_destroyed w then (Inl (BotaSDKError Sdk_cancelled operation), w)
      else if connected_id w \<noteq> Some (dev_id d) then (Inl (BotaSDKError Sdk_device_disconnected operation), w)
      else if rt_poisoned w \<noteq> None then (Inl (BotaSDKError Sdk_operation_in_progress operation), w)
      else
        let key = lease_key (dev_id d) serviceUuid characteristicUuid in
        if map_of (rt_leases w) key \<noteq> None then (Inl (BotaSDKError Sdk_operation_in_progress operation), w)
        else (Inr (key, rt_nextLease w),
              w\<lparr>rt_leases := AList.update key (rt_nextLease w) (rt_leases w), rt_nextLease := rt_nextLease w + 1\<rparr>))"

text \<open>\<open>release\<close> of a lease: later calls find another owner under the key, or none.\<close>

definition release_lease :: "jsstring \<times> nat \<Rightarrow> runtime \<Rightarrow> runtime" where
  "release_lease lease w =
     (if map_of (rt_leases w) (fst lease) = Some (snd lease)
      then w\<lparr>rt_leases := AList.delete (fst lease) (rt_leases w)\<rparr> else w)"

section \<open>Steps\<close>

datatype (plugins only: size code) action =
    A_await nat | A_resume nat
  | A_settle nat | A_untrack nat nat
  | A_fire nat | A_notification effect_context bytes | A_host_dispatch effect_context host_event
  | A_host_cleanup effect_context
  | A_run jsstring bytes workflow_hosts bool | A_handoff_run nat jsstring bytes workflow_hosts bool
  | A_cancel jsstring | A_exclusive bota_operation | A_destroy
  | A_disconnected jsstring | A_register device | A_unregister jsstring | A_poison jsstring
  | A_lease bota_operation device jsstring jsstring | A_release "jsstring \<times> nat"

definition timer_fired :: "nat \<Rightarrow> effect_context \<times> int \<Rightarrow> runtime \<Rightarrow> runtime" where
  "timer_fired handle armed w =
     (case armed of (ctx, timerId) \<Rightarrow>
        let i = ctx_owner ctx;
            w1 = upd i (\<lambda>ow. ow\<lparr>ow_timers := AList.delete timerId (ow_timers ow)\<rparr>)
                   (w\<lparr>rt_armed := AList.delete handle (rt_armed w)\<rparr>) in
        if ow_terminal (rt_owner w1 i) \<or> ctx_generation ctx \<noteq> ow_generation (rt_owner w1 i) then w1
        else spawn (andthen (answer_event ctx (H_timer_fired timerId) w1) [K_catch_fail i]))"

definition notified :: "effect_context \<Rightarrow> bytes \<Rightarrow> runtime \<Rightarrow> runtime" where
  "notified ctx bs w =
     (case env_effect (ctx_envelope ctx) of
        E_ble_subscribe _ characteristicUuid \<Rightarrow>
          spawn (andthen (answer_event ctx (H_ble_notification characteristicUuid bs) w)
            [K_catch_fail (ctx_owner ctx)])
      | _ \<Rightarrow> w)"

fun act :: "action \<Rightarrow> answers \<Rightarrow> runtime \<Rightarrow> runtime option" where
  "act (A_await k) a w =
     (if k < length (rt_threads w)
      then case rt_threads w ! k of (wt, fs) \<Rightarrow>
        map_option (\<lambda>(w1, r). w1\<lparr>rt_threads := (rt_threads w1)[k := (Done r, fs)]\<rparr>) (satisfy wt a w)
      else None)"
| "act (A_resume k) a w =
     (if k < length (rt_threads w)
      then case rt_threads w ! k of
        (Done r, f # fs) \<Rightarrow>
          (case andthen (resume f r a w) fs of (w1, t) \<Rightarrow> Some (w1\<lparr>rt_threads := (rt_threads w1)[k := t]\<rparr>))
      | _ \<Rightarrow> None
      else None)"
| "act (A_settle t) a w =
     (if t \<in> set (rt_outstanding w)
      then Some (settle_ticket t (in_answer a) (w\<lparr>rt_outstanding := removeAll t (rt_outstanding w)\<rparr>)) else None)"
| "act (A_untrack i t) a w = (if i < rt_owners w \<and> map_of (rt_tickets w) t \<noteq> None then Some (untrack i t w) else None)"
| "act (A_fire handle) a w = map_option (\<lambda>armed. timer_fired handle armed w) (map_of (rt_armed w) handle)"
| "act (A_notification ctx bs) a w = (if ctx \<in> set (rt_contexts w) then Some (notified ctx bs w) else None)"
| "act (A_host_dispatch ctx event) a w =
     (if ctx \<in> set (rt_contexts w) then Some (spawn (dispatchFromContext ctx event w)) else None)"
| "act (A_host_cleanup ctx) a w =
     (if ctx \<in> set (rt_contexts w) then Some (addCleanup (ctx_owner ctx) (ctx_generation ctx) Cl_host w) else None)"
| "act (A_run operationId cancellationId hosts handoff) a w =
     Some (snd (run operationId cancellationId hosts handoff a w))"
| "act (A_handoff_run d operationId cancellationId hosts handoff) a w =
     (if d < rt_directs w then Some (snd (handoff_run d operationId cancellationId hosts handoff a w)) else None)"
| "act (A_cancel operationId) a w = Some (cancelWorkflow operationId w)"
| "act (A_exclusive operation) a w = Some (snd (runExclusive operation w))"
| "act A_destroy a w = Some (destroy w)"
| "act (A_disconnected deviceId) a w = Some (markDeviceDisconnected deviceId w)"
| "act (A_register d) a w = Some (registerDevice d w)"
| "act (A_unregister deviceId) a w = Some (unregisterDevice deviceId w)"
| "act (A_poison deviceId) a w = Some (poisonBleOwnership deviceId w)"
| "act (A_lease operation d s c) a w = Some (snd (claimCharacteristicLease operation d s c w))"
| "act (A_release lease) a w = Some (release_lease lease w)"

text \<open>The runtime as the constructor leaves it; there are no owners yet, so the two functions are arbitrary.\<close>

definition no_hosts :: workflow_hosts where
  "no_hosts = \<lparr>wh_persistence = 0, wh_recordingSink = None, wh_network = None, wh_firmwareBlob = None,
     wh_hostMaterial = None, wh_encryptedUploadV2 = None\<rparr>"

definition initial_runtime :: runtime where
  "initial_runtime =
     \<lparr>rt_devices = [], rt_leases = [], rt_nextLease = 0, rt_active = None, rt_connected = None,
      rt_poisoned = None, rt_destroyed = False, rt_nextAttempt = 0, rt_attempts = [],
      rt_pendingConnections = [], rt_owner = (\<lambda>_. new_owner [] [] no_hosts False []), rt_owners = 0,
      rt_direct = (\<lambda>_. \<lparr>di_operation = Op_unknown, di_aborted = False, di_terminalError = None, di_result = None\<rparr>),
      rt_directs = 0, rt_threads = [], rt_tickets = [], rt_nextTicket = 0, rt_outstanding = [], rt_armed = [],
      rt_nextTimer = 0, rt_contexts = [], rt_log = []\<rparr>"

inductive reachable :: "runtime \<Rightarrow> bool" where
  initial: "reachable initial_runtime"
| step: "reachable w \<Longrightarrow> act x a w = Some w' \<Longrightarrow> reachable w'"

end
