(* ===== verification/OwnerInv.thy ===== *)
theory OwnerInv
  imports OwnerThreads
begin

text \<open>
  The invariant of the workflow runtime.  \<open>inv\<close> says what holds of every owner, of the log and of every
  thread; \<open>ext w w'\<close> says in which ways a state may change that no waiting thread notices (maps
  grow, flags stay set, what is in flight for a finished owner only shrinks).  Every operation takes a
  state to one that it is related to (\<open>evolves\<close>) and leaves a thread whose assertion holds
  (\<open>good\<close>); the rules are composed as the code composes the operations.
\<close>

named_theorems evolve \<open>operations preserve the invariant\<close>

section \<open>What is recorded of an owner\<close>

definition ids :: "queued_effect list \<Rightarrow> int list" where
  "ids qs = map (\<lambda>q. env_requestId (q_envelope q)) qs"

definition inline_list :: "owner \<Rightarrow> queued_effect list" where
  "inline_list ow = (case ow_inline ow of None \<Rightarrow> [] | Some qs \<Rightarrow> qs)"

definition executed :: "nat \<Rightarrow> log_entry list \<Rightarrow> int list" where
  "executed i log = concat (map (\<lambda>l. case l of
     L_execute j e g \<Rightarrow> if j = i then [env_requestId e] else [] | _ \<Rightarrow> []) log)"

definition dropped :: "nat \<Rightarrow> log_entry list \<Rightarrow> int list" where
  "dropped i log = concat (map (\<lambda>l. case l of
     L_drop j e \<Rightarrow> if j = i then [env_requestId e] else [] | _ \<Rightarrow> []) log)"

definition settles :: "nat \<Rightarrow> log_entry list \<Rightarrow> (bota_error + core_notification list) list" where
  "settles i log = concat (map (\<lambda>l. case l of L_settle j r \<Rightarrow> if j = i then [r] else [] | _ \<Rightarrow> []) log)"

text \<open>What an observer was told of progress, newest first.\<close>

definition units_told :: "nat \<Rightarrow> log_entry list \<Rightarrow> (int \<times> int) list" where
  "units_told i log = concat (map (\<lambda>l. case l of L_progress j r \<Rightarrow> if j = i then [r] else [] | _ \<Rightarrow> []) log)"

definition firmware_told :: "nat \<Rightarrow> log_entry list \<Rightarrow> firmware_report list" where
  "firmware_told i log = concat (map (\<lambda>l. case l of L_firmware j r \<Rightarrow> if j = i then [r] else [] | _ \<Rightarrow> []) log)"

definition reports_ok :: "nat \<Rightarrow> (int \<times> int) option \<Rightarrow> firmware_report option \<Rightarrow> log_entry list \<Rightarrow> bool" where
  "reports_ok i p f log \<longleftrightarrow> units.kept p (units_told i log) \<and> firmware.kept f (firmware_told i log)"

lemma reports_append:
  "units_told i (a @ b) = units_told i a @ units_told i b" "firmware_told i (a @ b) = firmware_told i a @ firmware_told i b"
  by (simp_all add: units_told_def firmware_told_def)

definition cancellations :: "nat \<Rightarrow> log_entry list \<Rightarrow> nat" where
  "cancellations i log = length (filter (\<lambda>l. l = L_cancelling i) log)"

primrec entry_owner :: "log_entry \<Rightarrow> nat" where
  "entry_owner (L_execute i e g) = i"
| "entry_owner (L_core i e) = i"
| "entry_owner (L_cancelling i) = i"
| "entry_owner (L_core_cancel i) = i"
| "entry_owner (L_drop i e) = i"
| "entry_owner (L_late i e) = i"
| "entry_owner (L_payload i e) = i"
| "entry_owner (L_progress i r) = i"
| "entry_owner (L_firmware i r) = i"
| "entry_owner (L_settle i r) = i"

definition wiped :: "effect_envelope \<Rightarrow> bool" where
  "wiped e \<longleftrightarrow> (\<forall>b \<in> set (transient_bytes (env_effect e)). b = 0)"

definition is_wiped_entry :: "log_entry \<Rightarrow> bool" where
  "is_wiped_entry l = (case l of L_drop i e \<Rightarrow> wiped e | L_payload i e \<Rightarrow> wiped e | _ \<Rightarrow> True)"

text \<open>
  What a trace of the runtime may look like (newest entry first).  Work, that is the execution of an
  effect or an event for the core, is only ever that of the newest owner before its result settles; an
  effect is executed once, in the generation that is current; an event answers an effect executed in
  the current generation, or reports a disconnection; a result settles once.
\<close>

definition newest :: "nat \<Rightarrow> log_entry list \<Rightarrow> bool" where
  "newest i log \<longleftrightarrow> settles i log = [] \<and> (\<forall>l \<in> set log. entry_owner l \<le> i)"

definition answers_execution :: "nat \<Rightarrow> host_event \<Rightarrow> nat \<Rightarrow> log_entry list \<Rightarrow> bool" where
  "answers_execution i event g log \<longleftrightarrow>
     (\<exists>e. env_requestId e = he_requestId event \<and> L_execute i e g \<in> set log)"

fun trace_ok :: "log_entry list \<Rightarrow> bool" where
  "trace_ok [] \<longleftrightarrow> True"
| "trace_ok (L_execute i e g # log) \<longleftrightarrow>
     trace_ok log \<and> newest i log \<and> g = cancellations i log \<and> env_requestId e \<notin> set (executed i log)"
| "trace_ok (L_core i event # log) \<longleftrightarrow>
     trace_ok log \<and> newest i log
     \<and> (answers_execution i event (cancellations i log) log \<or> (\<exists>d. he_kind event = H_ble_disconnected d None))"
| "trace_ok (L_settle i r # log) \<longleftrightarrow> trace_ok log \<and> settles i log = []"
| "trace_ok (l # log) \<longleftrightarrow> trace_ok log"

text \<open>The core has reported completion: by a notification, or by its status after an event of this owner.\<close>

definition completion_reported :: "owner \<Rightarrow> bool" where
  "completion_reported ow \<longleftrightarrow> (\<exists>op. N_completed op \<in> set (ow_notifications ow)) \<or> ow_evidence ow \<noteq> None"

definition request_ok :: "owner \<Rightarrow> int \<Rightarrow> nat \<Rightarrow> bool" where
  "request_ok ow r g \<longleftrightarrow>
     map_of (ow_requests ow) r = Some \<lparr>ro_generation = g, ro_cancellationId = ow_cancellationId ow\<rparr>"

definition queued_ok :: "owner \<Rightarrow> queued_effect \<Rightarrow> bool" where
  "queued_ok ow q \<longleftrightarrow> env_cancellationId (q_envelope q) = ow_cancellationId ow
     \<and> request_ok ow (env_requestId (q_envelope q)) (q_generation q)"

definition request_ids :: "owner \<Rightarrow> int set" where
  "request_ids ow = fst ` set (ow_requests ow)"

definition active_here :: "nat \<Rightarrow> runtime \<Rightarrow> bool" where
  "active_here i w \<longleftrightarrow> rt_active w = Some (Workflow i)"

section \<open>The invariant\<close>

definition queues_ok :: "owner \<Rightarrow> bool" where
  "queues_ok ow \<longleftrightarrow>
     (ow_terminal ow \<longrightarrow> ow_queue ow = [])
     \<and> (\<forall>q \<in> set (ow_queue ow) \<union> set (inline_list ow). queued_ok ow q)
     \<and> fst ` set (ow_subscriptions ow) \<subseteq> request_ids ow"

definition account_ok :: "nat \<Rightarrow> owner \<Rightarrow> log_entry list \<Rightarrow> bool" where
  "account_ok i ow log \<longleftrightarrow>
     distinct (executed i log @ ids (ow_queue ow) @ ids (inline_list ow))
     \<and> set (executed i log) \<subseteq> request_ids ow
     \<and> request_ids ow \<subseteq> set (executed i log) \<union> set (dropped i log) \<union> set (ids (ow_queue ow))
          \<union> set (ids (inline_list ow))"

definition cleaned :: "nat \<Rightarrow> runtime \<Rightarrow> bool" where
  "cleaned i w \<longleftrightarrow> (\<exists>r. ow_cleanupPromise (rt_owner w i) = Some (Settled r))"

definition quiescent :: "nat \<Rightarrow> runtime \<Rightarrow> bool" where
  "quiescent i w \<longleftrightarrow>
     ow_writes (rt_owner w i) = [] \<and> cleaned i w \<and> ow_setups (rt_owner w i) = []
     \<and> ow_externals (rt_owner w i) = []"

definition ending_ok :: "nat \<Rightarrow> runtime \<Rightarrow> bool" where
  "ending_ok i w \<longleftrightarrow>
     (let ow = rt_owner w i in
      (ow_completionPromise ow \<noteq> None \<longrightarrow> completion_reported ow)
      \<and> (\<forall>ns. ow_result ow = Some (Inr ns) \<longrightarrow> ow_completionPromise ow \<noteq> None)
      \<and> settles i (rt_log w) = (case ow_result ow of None \<Rightarrow> [] | Some r \<Rightarrow> [r])
      \<and> (ow_result ow \<noteq> None \<longrightarrow> ow_terminal ow \<and> \<not> active_here i w \<and> quiescent i w)
      \<and> (ow_result ow = None \<longrightarrow> active_here i w)
      \<and> ow_generation ow = cancellations i (rt_log w))"

definition owner_inv :: "nat \<Rightarrow> runtime \<Rightarrow> bool" where
  "owner_inv i w \<longleftrightarrow>
     queues_ok (rt_owner w i) \<and> account_ok i (rt_owner w i) (rt_log w) \<and> ending_ok i w
     \<and> reports_ok i (ow_lastProgress (rt_owner w i)) (ow_lastFirmwareProgress (rt_owner w i)) (rt_log w)"

definition context_ok :: "runtime \<Rightarrow> effect_context \<Rightarrow> bool" where
  "context_ok w ctx \<longleftrightarrow>
     ctx_owner ctx < rt_owners w
     \<and> request_ok (rt_owner w (ctx_owner ctx)) (env_requestId (ctx_envelope ctx)) (ctx_generation ctx)
     \<and> ctx_cancellationId ctx = ow_cancellationId (rt_owner w (ctx_owner ctx))
     \<and> L_execute (ctx_owner ctx) (ctx_envelope ctx) (ctx_generation ctx) \<in> set (rt_log w)"

definition global_inv :: "runtime \<Rightarrow> bool" where
  "global_inv w \<longleftrightarrow>
     (\<forall>i. active_here i w \<longrightarrow> Suc i = rt_owners w)
     \<and> trace_ok (rt_log w)
     \<and> (\<forall>ctx \<in> set (rt_contexts w). context_ok w ctx)
     \<and> (\<forall>(h, ctx, timerId) \<in> set (rt_armed w). context_ok w ctx)
     \<and> (\<forall>l \<in> set (rt_log w). entry_owner l < rt_owners w \<and> is_wiped_entry l)"

subsection \<open>Threads\<close>

fun call_ok :: "runtime \<Rightarrow> core_call \<Rightarrow> bool" where
  "call_ok w (Call_dispatch i g event) \<longleftrightarrow> i < rt_owners w \<and> answers_execution i event g (rt_log w)"
| "call_ok w (Call_disconnected i g event) \<longleftrightarrow> i < rt_owners w \<and> (\<exists>d. he_kind event = H_ble_disconnected d None)"
| "call_ok w (Call_cancel i) \<longleftrightarrow> i < rt_owners w"

definition wait_ok :: "runtime \<Rightarrow> wait \<Rightarrow> bool" where
  "wait_ok w wt = (case wt of W_core c \<Rightarrow> call_ok w c | _ \<Rightarrow> True)"

definition ended :: "nat \<Rightarrow> runtime \<Rightarrow> bool" where
  "ended i w \<longleftrightarrow> i < rt_owners w \<and> ow_terminal (rt_owner w i)"

definition completing_ok :: "nat \<Rightarrow> runtime \<Rightarrow> bool" where
  "completing_ok i w \<longleftrightarrow> i < rt_owners w \<and> ow_completionPromise (rt_owner w i) \<noteq> None"

definition known :: "nat \<Rightarrow> runtime \<Rightarrow> bool" where
  "known i w \<longleftrightarrow> i < rt_owners w"

fun frame_ok :: "runtime \<Rightarrow> frame \<Rightarrow> bool" where
  "frame_ok w (K_handoff i) \<longleftrightarrow> completing_ok i w"
| "frame_ok w (K_success_end i) \<longleftrightarrow> ended i w \<and> completing_ok i w"
| "frame_ok w (K_cancelled_end i) \<longleftrightarrow> ended i w"
| "frame_ok w (K_failure_end i e) \<longleftrightarrow> ended i w"
| "frame_ok w (K_pump i) \<longleftrightarrow> known i w"
| "frame_ok w (K_pump_catch i) \<longleftrightarrow> known i w"
| "frame_ok w (K_pump_finally i) \<longleftrightarrow> known i w"
| "frame_ok w (K_dispatched i g) \<longleftrightarrow> known i w"
| "frame_ok w (K_disconnected i g) \<longleftrightarrow> known i w"
| "frame_ok w (K_catch_fail i) \<longleftrightarrow> known i w"
| "frame_ok w (K_settle_completion i) \<longleftrightarrow> completing_ok i w"
| "frame_ok w (K_settle_failure i) \<longleftrightarrow> known i w"
| "frame_ok w (K_claim i hs) \<longleftrightarrow> known i w"
| "frame_ok w (K_cancel_claimed i) \<longleftrightarrow> known i w"
| "frame_ok w (K_cancel_cleaned i) \<longleftrightarrow> known i w"
| "frame_ok w (K_cancel_core i ce) \<longleftrightarrow> known i w"
| "frame_ok w (K_cancel_wait i ce) \<longleftrightarrow> known i w"
| "frame_ok w (K_cancel_final i ce) \<longleftrightarrow> known i w"
| "frame_ok w (K_settle_cancel i) \<longleftrightarrow> known i w"
| "frame_ok w (K_caf_claimed i e) \<longleftrightarrow> known i w"
| "frame_ok w (K_caf_cleaned i e) \<longleftrightarrow> known i w"
| "frame_ok w (K_caf_core i e) \<longleftrightarrow> known i w"
| "frame_ok w (K_caf_done i e) \<longleftrightarrow> known i w"
| "frame_ok w (K_inline i es) \<longleftrightarrow> known i w"
| "frame_ok w (K_cs_writes i ch) \<longleftrightarrow> known i w"
| "frame_ok w (K_cs_cleanup i f) \<longleftrightarrow> known i w"
| "frame_ok w (K_cs_setups i f) \<longleftrightarrow> known i w"
| "frame_ok w (K_cs_externals i f) \<longleftrightarrow> known i w"
| "frame_ok w (K_host_cancel i hs es) \<longleftrightarrow> known i w"
| "frame_ok w (K_cleanup i cs es) \<longleftrightarrow> known i w"
| "frame_ok w (K_settle_cleanup i) \<longleftrightarrow> known i w"
| "frame_ok w K_ignore \<longleftrightarrow> True"
| "frame_ok w (K_scan ctx) \<longleftrightarrow> context_ok w ctx"
| "frame_ok w (K_scan_loop ctx ds n) \<longleftrightarrow> context_ok w ctx"
| "frame_ok w (K_lifecycle i l) \<longleftrightarrow> known i w"
| "frame_ok w (K_connect ctx d n t) \<longleftrightarrow> context_ok w ctx"
| "frame_ok w (K_connection_settle d n s) \<longleftrightarrow> True"
| "frame_ok w (K_connection_final d n s) \<longleftrightarrow> True"
| "frame_ok w (K_discover ctx d) \<longleftrightarrow> context_ok w ctx"
| "frame_ok w (K_disconnect ctx) \<longleftrightarrow> context_ok w ctx"
| "frame_ok w (K_catch_ble ctx) \<longleftrightarrow> context_ok w ctx"
| "frame_ok w (K_read ctx) \<longleftrightarrow> context_ok w ctx"
| "frame_ok w (K_write ctx) \<longleftrightarrow> context_ok w ctx"
| "frame_ok w (K_wipe i e) \<longleftrightarrow> known i w"
| "frame_ok w (K_subscribe ctx t s) \<longleftrightarrow> context_ok w ctx"
| "frame_ok w (K_setup i g t) \<longleftrightarrow> known i w"
| "frame_ok w (K_setup_decided i g) \<longleftrightarrow> known i w"
| "frame_ok w (K_setup_end i s) \<longleftrightarrow> known i w"
| "frame_ok w (K_unsubscribe i rs r) \<longleftrightarrow> known i w"
| "frame_ok w (K_host ctx) \<longleftrightarrow> context_ok w ctx"
| "frame_ok w (K_events ctx es) \<longleftrightarrow> context_ok w ctx"
| "frame_ok w (K_direct d) \<longleftrightarrow> True"

text \<open>The continuations that settle a result, and the stages of \<open>cleanupAndSettle\<close> before them.\<close>

fun end_of :: "frame \<Rightarrow> nat option" where
  "end_of (K_success_end i) = Some i"
| "end_of (K_cancelled_end i) = Some i"
| "end_of (K_failure_end i e) = Some i"
| "end_of _ = None"

fun stage_of :: "frame \<Rightarrow> nat option" where
  "stage_of (K_cs_writes i c) = Some i"
| "stage_of (K_cs_cleanup i f) = Some i"
| "stage_of (K_cs_setups i f) = Some i"
| "stage_of (K_cs_externals i f) = Some i"
| "stage_of _ = None"

definition is_done :: "wait \<Rightarrow> bool" where
  "is_done wt = (case wt of Done r \<Rightarrow> True | _ \<Rightarrow> False)"

fun stage_ok :: "runtime \<Rightarrow> wait \<Rightarrow> frame \<Rightarrow> bool" where
  "stage_ok w wt (K_cs_writes i c) \<longleftrightarrow> wt = W_writes i \<or> is_done wt \<and> ow_writes (rt_owner w i) = []"
| "stage_ok w wt (K_cs_cleanup i f) \<longleftrightarrow>
     ow_writes (rt_owner w i) = [] \<and> (wt = W_cleanup i \<or> is_done wt \<and> cleaned i w)"
| "stage_ok w wt (K_cs_setups i f) \<longleftrightarrow>
     ow_writes (rt_owner w i) = [] \<and> cleaned i w
     \<and> (wt = W_setups i \<or> is_done wt \<and> ow_setups (rt_owner w i) = [])"
| "stage_ok w wt (K_cs_externals i f) \<longleftrightarrow>
     ow_writes (rt_owner w i) = [] \<and> cleaned i w \<and> ow_setups (rt_owner w i) = []
     \<and> (wt = W_externals i \<or> is_done wt \<and> ow_externals (rt_owner w i) = [])"
| "stage_ok w wt f \<longleftrightarrow> False"

text \<open>
  A continuation that settles a result is the next one of its thread, and then all is quiet, or it is
  the next but one, behind a stage of \<open>cleanupAndSettle\<close> that has got as far as it says.
\<close>

definition plain :: "frame list \<Rightarrow> bool" where
  "plain fs \<longleftrightarrow> list_all (\<lambda>f. end_of f = None) fs"

fun form_ok :: "runtime \<Rightarrow> wait \<Rightarrow> frame list \<Rightarrow> bool" where
  "form_ok w wt [] \<longleftrightarrow> True"
| "form_ok w wt (f # fs) \<longleftrightarrow>
     (case end_of f of
        Some i \<Rightarrow> plain fs \<and> is_done wt \<and> quiescent i w
      | None \<Rightarrow>
          (case fs of
             [] \<Rightarrow> True
           | e # rest \<Rightarrow> plain rest \<and> (end_of e \<noteq> None \<longrightarrow> stage_of f = end_of e \<and> stage_ok w wt f)))"

fun thread_ok :: "runtime \<Rightarrow> thread \<Rightarrow> bool" where
  "thread_ok w (wt, fs) \<longleftrightarrow> wait_ok w wt \<and> list_all (frame_ok w) fs \<and> form_ok w wt fs"

definition inv :: "runtime \<Rightarrow> bool" where
  "inv w \<longleftrightarrow> global_inv w \<and> (\<forall>i < rt_owners w. owner_inv i w) \<and> (\<forall>t \<in> set (rt_threads w). thread_ok w t)"

section \<open>Change that no thread notices\<close>

definition owner_ext :: "owner \<Rightarrow> owner \<Rightarrow> bool" where
  "owner_ext ow ow' \<longleftrightarrow>
     ow_cancellationId ow' = ow_cancellationId ow
     \<and> (\<forall>k v. map_of (ow_requests ow) k = Some v \<longrightarrow> map_of (ow_requests ow') k = Some v)
     \<and> (ow_terminal ow \<longrightarrow> ow_terminal ow')
     \<and> (ow_completionPromise ow \<noteq> None \<longrightarrow> ow_completionPromise ow' \<noteq> None)
     \<and> (\<forall>r. ow_cleanupPromise ow = Some (Settled r) \<longrightarrow> (\<exists>r'. ow_cleanupPromise ow' = Some (Settled r')))
     \<and> (ow_terminal ow \<longrightarrow> set (ow_writes ow') \<subseteq> set (ow_writes ow)
          \<and> set (ow_setups ow') \<subseteq> set (ow_setups ow)
          \<and> set (ow_externals ow') \<subseteq> set (ow_externals ow))"

definition ext :: "runtime \<Rightarrow> runtime \<Rightarrow> bool" where
  "ext w w' \<longleftrightarrow> rt_owners w \<le> rt_owners w'
     \<and> (\<forall>i < rt_owners w. owner_ext (rt_owner w i) (rt_owner w' i))
     \<and> set (rt_log w) \<subseteq> set (rt_log w')"

lemma owner_ext_refl [simp]: "owner_ext ow ow"
  by (auto simp: owner_ext_def)

lemma owner_ext_trans: "owner_ext a b \<Longrightarrow> owner_ext b c \<Longrightarrow> owner_ext a c"
  unfolding owner_ext_def by (elim conjE, intro conjI) (simp, blast, blast, blast, blast, blast)

lemma owner_ext_dests:
  assumes "owner_ext ow ow'"
  shows owner_ext_cancellationId: "ow_cancellationId ow' = ow_cancellationId ow"
    and owner_ext_terminal: "ow_terminal ow \<Longrightarrow> ow_terminal ow'"
    and owner_ext_completion: "ow_completionPromise ow \<noteq> None \<Longrightarrow> ow_completionPromise ow' \<noteq> None"
    and owner_ext_requests: "map_of (ow_requests ow) k = Some v \<Longrightarrow> map_of (ow_requests ow') k = Some v"
    and owner_ext_cleanup: "ow_cleanupPromise ow = Some (Settled r) \<Longrightarrow> \<exists>r'. ow_cleanupPromise ow' = Some (Settled r')"
  using assms unfolding owner_ext_def by blast+

lemma ext_refl [simp]: "ext w w"
  by (simp add: ext_def)

lemma ext_trans: "ext a b \<Longrightarrow> ext b c \<Longrightarrow> ext a c"
  unfolding ext_def by (meson order.trans order_less_le_trans owner_ext_trans)

lemma ext_log: "ext w w' \<Longrightarrow> l \<in> set (rt_log w) \<Longrightarrow> l \<in> set (rt_log w')"
  by (auto simp: ext_def)

lemma answers_ext: "ext w w' \<Longrightarrow> answers_execution i event g (rt_log w) \<Longrightarrow> answers_execution i event g (rt_log w')"
  unfolding answers_execution_def using ext_log by blast

lemma ext_owners: "ext w w' \<Longrightarrow> i < rt_owners w \<Longrightarrow> i < rt_owners w'"
  by (auto simp: ext_def)

lemma ext_owner: "ext w w' \<Longrightarrow> i < rt_owners w \<Longrightarrow> owner_ext (rt_owner w i) (rt_owner w' i)"
  by (auto simp: ext_def)

lemma request_ok_ext: "owner_ext ow ow' \<Longrightarrow> request_ok ow r g \<Longrightarrow> request_ok ow' r g"
  by (auto simp: owner_ext_def request_ok_def)

lemma map_of_keys: "map_of xs k \<noteq> None \<longleftrightarrow> k \<in> fst ` set xs"
  by (metis map_of_eq_None_iff)

lemma request_ids_ext: "owner_ext ow ow' \<Longrightarrow> request_ids ow \<subseteq> request_ids ow'"
  unfolding request_ids_def using owner_ext_requests map_of_keys by (metis not_None_eq subsetI)

lemma context_ok_ext: "ext w w' \<Longrightarrow> context_ok w ctx \<Longrightarrow> context_ok w' ctx"
  unfolding context_ok_def
  by (auto dest: ext_owners ext_owner simp: owner_ext_cancellationId [OF ext_owner] intro: request_ok_ext ext_log)

lemma ended_ext: "ext w w' \<Longrightarrow> ended i w \<Longrightarrow> ended i w'"
  unfolding ended_def using ext_owner ext_owners owner_ext_terminal by blast

lemma completing_ok_ext: "ext w w' \<Longrightarrow> completing_ok i w \<Longrightarrow> completing_ok i w'"
  unfolding completing_ok_def using ext_owner ext_owners owner_ext_completion by blast

lemma known_ext: "ext w w' \<Longrightarrow> known i w \<Longrightarrow> known i w'"
  unfolding known_def using ext_owners by metis

lemma call_ok_ext: "ext w w' \<Longrightarrow> call_ok w c \<Longrightarrow> call_ok w' c"
  by (cases c) (auto dest: ext_owners intro: answers_ext)

lemma wait_ok_ext: "ext w w' \<Longrightarrow> wait_ok w wt \<Longrightarrow> wait_ok w' wt"
  by (cases wt) (auto simp: wait_ok_def intro: call_ok_ext)

lemma frame_ok_ext: "ext w w' \<Longrightarrow> frame_ok w f \<Longrightarrow> frame_ok w' f"
  by (cases f) (auto intro: ended_ext completing_ok_ext known_ext context_ok_ext)

lemma frames_ok_ext: "ext w w' \<Longrightarrow> list_all (frame_ok w) fs \<Longrightarrow> list_all (frame_ok w') fs"
  by (auto simp: list_all_iff intro: frame_ok_ext)

lemma end_frame_ended: "frame_ok w f \<Longrightarrow> end_of f = Some i \<Longrightarrow> ended i w"
  by (cases f) auto

lemma ended_lists_ext:
  assumes "ext w w'" and "ended i w"
  shows "ow_writes (rt_owner w i) = [] \<Longrightarrow> ow_writes (rt_owner w' i) = []"
    and "ow_setups (rt_owner w i) = [] \<Longrightarrow> ow_setups (rt_owner w' i) = []"
    and "ow_externals (rt_owner w i) = [] \<Longrightarrow> ow_externals (rt_owner w' i) = []"
  using assms ext_owner [of w w' i] by (auto simp: ended_def owner_ext_def)

lemma cleaned_ext: "ext w w' \<Longrightarrow> i < rt_owners w \<Longrightarrow> cleaned i w \<Longrightarrow> cleaned i w'"
  unfolding cleaned_def using ext_owner owner_ext_cleanup by blast

lemma quiescent_ext: "ext w w' \<Longrightarrow> ended i w \<Longrightarrow> quiescent i w \<Longrightarrow> quiescent i w'"
  unfolding quiescent_def using ended_lists_ext [of w w' i] cleaned_ext [of w w' i]
  by (auto simp: ended_def)

lemma stage_ok_ext:
  "ext w w' \<Longrightarrow> ended i w \<Longrightarrow> stage_of f = Some i \<Longrightarrow> stage_ok w wt f \<Longrightarrow> stage_ok w' wt f"
  using ended_lists_ext [of w w' i] cleaned_ext [of w w' i] by (cases f) (auto simp: ended_def)

lemma form_ok_ext:
  assumes "ext w w'" and "list_all (frame_ok w) fs" and "form_ok w wt fs"
  shows "form_ok w' wt fs"
proof (cases fs)
  case (Cons f rest)
  show ?thesis
  proof (cases "end_of f")
    case None
    with Cons assms show ?thesis
      by (auto split: list.splits dest!: end_frame_ended intro: stage_ok_ext)
  next
    case (Some i)
    with Cons assms show ?thesis by (auto dest: end_frame_ended intro: quiescent_ext)
  qed
qed simp

lemma thread_ok_ext: "ext w w' \<Longrightarrow> thread_ok w t \<Longrightarrow> thread_ok w' t"
  by (cases t) (auto intro: wait_ok_ext frames_ok_ext form_ok_ext)

section \<open>Composition\<close>

definition evolves :: "runtime \<Rightarrow> runtime \<Rightarrow> bool" where
  "evolves w0 w \<longleftrightarrow> inv w \<and> ext w0 w"

definition good :: "runtime \<Rightarrow> runtime \<times> thread \<Rightarrow> bool" where
  "good w0 r \<longleftrightarrow> evolves w0 (fst r) \<and> thread_ok (fst r) (snd r)"

lemma evolves_refl: "inv w \<Longrightarrow> evolves w w"
  by (simp add: evolves_def)

lemma evolves_trans: "evolves a b \<Longrightarrow> evolves b c \<Longrightarrow> evolves a c"
  by (auto simp: evolves_def intro: ext_trans)

lemma evolves_owners: "evolves w0 w \<Longrightarrow> i < rt_owners w0 \<Longrightarrow> i < rt_owners w"
  by (auto simp: evolves_def ext_def)

lemma evolves_owner_inv: "evolves w0 w \<Longrightarrow> i < rt_owners w0 \<Longrightarrow> owner_inv i w"
  using evolves_owners by (auto simp: evolves_def inv_def)

lemma known_evolves: "known i w0 \<Longrightarrow> evolves w0 w \<Longrightarrow> known i w"
  by (auto simp: evolves_def intro: known_ext)

lemma context_ok_evolves: "context_ok w0 ctx \<Longrightarrow> evolves w0 w \<Longrightarrow> context_ok w ctx"
  by (auto simp: evolves_def intro: context_ok_ext)

lemma evolves_step:
  assumes "evolves w0 w" and "ext w w'" and "rt_threads w' = rt_threads w" and "global_inv w'"
    and "\<And>i. i < rt_owners w' \<Longrightarrow> owner_inv i w'"
  shows "evolves w0 w'"
  using assms by (auto simp: evolves_def inv_def intro: ext_trans thread_ok_ext)

lemma good_leaves: "evolves w0 w \<Longrightarrow> thread_ok w t \<Longrightarrow> good w0 (w, t)"
  by (simp add: good_def)

lemma good_returned [evolve]: "evolves w0 w \<Longrightarrow> good w0 (w, (Done r, []))"
  by (simp add: good_def wait_ok_def)

lemma good_waits [evolve]:
  assumes "evolves w0 w" and "wait_ok w0 wt" and "list_all (frame_ok w0) fs" and "plain fs"
  shows "good w0 (w, (wt, fs))"
proof -
  have "form_ok w wt fs"
    using assms(4) by (cases fs) (auto simp: plain_def split: list.splits)
  with assms show ?thesis
    by (auto simp: good_def evolves_def intro: wait_ok_ext frames_ok_ext)
qed

lemma form_ok_append:
  assumes "form_ok w wt fs" and "plain ks"
  shows "form_ok w wt (fs @ ks)"
proof (cases fs)
  case Nil
  with assms show ?thesis by (cases ks) (auto simp: plain_def split: list.splits)
next
  case (Cons f rest)
  with assms show ?thesis by (cases rest) (auto simp: plain_def split: option.splits list.splits)
qed

lemma good_andthen [evolve]:
  assumes "good w0 r" and "list_all (frame_ok w0) ks" and "plain ks"
  shows "good w0 (andthen r ks)"
proof -
  obtain w wt fs where r: "r = (w, (wt, fs))" by (metis surj_pair)
  with assms have "list_all (frame_ok w) ks" by (auto simp: good_def evolves_def intro: frames_ok_ext)
  with r assms show ?thesis by (auto simp: good_def intro: form_ok_append)
qed

lemma evolves_spawn [evolve]:
  assumes "good w0 r"
  shows "evolves w0 (spawn r)"
proof -
  obtain w t where r: "r = (w, t)" by (metis surj_pair)
  let ?w = "w\<lparr>rt_threads := rt_threads w @ [t]\<rparr>"
  have same: "global_inv ?w = global_inv w" "\<And>i. owner_inv i ?w = owner_inv i w"
    by (simp_all add: global_inv_def active_here_def context_ok_def owner_inv_def ending_ok_def quiescent_def cleaned_def)
  have ext: "ext w ?w" by (simp add: ext_def)
  from assms r have w: "inv w" "ext w0 w" "thread_ok w t" by (auto simp: good_def evolves_def)
  have "\<forall>u \<in> set (rt_threads ?w). thread_ok ?w u"
    using w ext thread_ok_ext [OF ext] by (auto simp: inv_def)
  with w same have "inv ?w" by (simp add: inv_def)
  moreover have "ext w0 ?w" using w(2) ext by (rule ext_trans)
  ultimately show ?thesis by (simp add: r evolves_def)
qed

section \<open>Changes of the runtime's own fields\<close>

lemma evolves_fields:
  assumes "evolves w0 w" and "rt_owner w' = rt_owner w" and "rt_owners w' = rt_owners w"
    and "rt_log w' = rt_log w" and "rt_active w' = rt_active w" and "rt_threads w' = rt_threads w"
    and "set (rt_contexts w') \<subseteq> set (rt_contexts w)" and "set (rt_armed w') \<subseteq> set (rt_armed w)"
  shows "evolves w0 w'"
proof (rule evolves_step [OF assms(1)])
  from assms have inv: "inv w" by (simp add: evolves_def)
  show "ext w w'" using assms by (simp add: ext_def)
  show "rt_threads w' = rt_threads w" by fact
  show "global_inv w'" using inv assms unfolding inv_def global_inv_def active_here_def context_ok_def by auto
  show "owner_inv i w'" if "i < rt_owners w'" for i
    using inv assms that unfolding inv_def owner_inv_def ending_ok_def active_here_def quiescent_def cleaned_def by auto
qed

lemma evolves_field_updates [evolve]:
  assumes "evolves w0 w"
  shows "evolves w0 (w\<lparr>rt_devices := a1\<rparr>)" "evolves w0 (w\<lparr>rt_leases := a2\<rparr>)"
    "evolves w0 (w\<lparr>rt_nextLease := a3\<rparr>)" "evolves w0 (w\<lparr>rt_connected := a4\<rparr>)"
    "evolves w0 (w\<lparr>rt_poisoned := a5\<rparr>)" "evolves w0 (w\<lparr>rt_destroyed := a6\<rparr>)"
    "evolves w0 (w\<lparr>rt_nextAttempt := a7\<rparr>)" "evolves w0 (w\<lparr>rt_attempts := a8\<rparr>)"
    "evolves w0 (w\<lparr>rt_pendingConnections := a9\<rparr>)" "evolves w0 (w\<lparr>rt_tickets := a10\<rparr>)"
    "evolves w0 (w\<lparr>rt_nextTicket := a11\<rparr>)" "evolves w0 (w\<lparr>rt_outstanding := a12\<rparr>)"
    "evolves w0 (w\<lparr>rt_nextTimer := a13\<rparr>)" "evolves w0 (w\<lparr>rt_direct := a14\<rparr>)"
    "evolves w0 (w\<lparr>rt_directs := a15\<rparr>)"
  by (rule evolves_fields [OF assms]; simp)+

lemma delete_subset: "set (AList.delete k xs) \<subseteq> set xs"
  by (auto simp: AList.delete_eq)

lemma evolves_armed [evolve]:
  "evolves w0 w \<Longrightarrow> set a \<subseteq> set (rt_armed w) \<Longrightarrow> evolves w0 (w\<lparr>rt_armed := a\<rparr>)"
  by (rule evolves_fields) auto

lemma evolves_settle_ticket [evolve]: "evolves w0 w \<Longrightarrow> evolves w0 (settle_ticket t r w)"
  unfolding settle_ticket_def by (auto intro: evolve)

lemma evolves_arm [evolve]:
  assumes "evolves w0 w" and "context_ok w0 ctx"
  shows "evolves w0 (w\<lparr>rt_armed := (h, ctx, t) # rt_armed w\<rparr>)"
proof (rule evolves_step [OF assms(1)])
  from assms have inv: "inv w" and "context_ok w ctx" by (auto simp: evolves_def intro: context_ok_ext)
  then show "global_inv (w\<lparr>rt_armed := (h, ctx, t) # rt_armed w\<rparr>)"
    unfolding inv_def global_inv_def active_here_def context_ok_def by auto
qed (use assms in \<open>auto simp: ext_def evolves_def inv_def owner_inv_def ending_ok_def active_here_def quiescent_def cleaned_def\<close>)

lemma evolves_context [evolve]:
  assumes "evolves w0 w" and "context_ok w ctx"
  shows "evolves w0 (w\<lparr>rt_contexts := ctx # rt_contexts w\<rparr>)"
proof (rule evolves_step [OF assms(1)])
  from assms have "inv w" by (simp add: evolves_def)
  then show "global_inv (w\<lparr>rt_contexts := ctx # rt_contexts w\<rparr>)"
    using assms(2) unfolding inv_def global_inv_def active_here_def context_ok_def by auto
qed (use assms in \<open>auto simp: ext_def evolves_def inv_def owner_inv_def ending_ok_def active_here_def quiescent_def cleaned_def\<close>)

section \<open>Changes of an owner\<close>

lemma upd_simps [simp]:
  "rt_owner (upd i f w) i = f (rt_owner w i)"
  "j \<noteq> i \<Longrightarrow> rt_owner (upd i f w) j = rt_owner w j"
  "rt_owners (upd i f w) = rt_owners w" "rt_log (upd i f w) = rt_log w"
  "rt_active (upd i f w) = rt_active w" "rt_threads (upd i f w) = rt_threads w"
  "rt_contexts (upd i f w) = rt_contexts w" "rt_armed (upd i f w) = rt_armed w"
  "rt_devices (upd i f w) = rt_devices w" "rt_connected (upd i f w) = rt_connected w"
  "rt_tickets (upd i f w) = rt_tickets w" "rt_destroyed (upd i f w) = rt_destroyed w"
  by (simp_all add: upd_def)

lemma upd_other: "rt_owner (upd i f w) j = (if j = i then f (rt_owner w i) else rt_owner w j)"
  by (simp add: upd_def)

lemma emit_simps [simp]:
  "rt_owner (emit es w) = rt_owner w" "rt_owners (emit es w) = rt_owners w"
  "rt_log (emit es w) = es @ rt_log w" "rt_active (emit es w) = rt_active w"
  "rt_threads (emit es w) = rt_threads w" "rt_contexts (emit es w) = rt_contexts w"
  "rt_armed (emit es w) = rt_armed w" "rt_devices (emit es w) = rt_devices w"
  "rt_connected (emit es w) = rt_connected w" "rt_tickets (emit es w) = rt_tickets w"
  by (simp_all add: emit_def)

lemma global_inv_ext:
  assumes "global_inv w" and "ext w w'" and "rt_owners w' = rt_owners w" and "rt_active w' = rt_active w"
    and "rt_contexts w' = rt_contexts w" and "rt_armed w' = rt_armed w" and "rt_log w' = es @ rt_log w"
    and "\<forall>l \<in> set es. entry_owner l < rt_owners w \<and> is_wiped_entry l" and "trace_ok (es @ rt_log w)"
  shows "global_inv w'"
proof -
  have "context_ok w' ctx" if "context_ok w ctx" for ctx
    using assms(2) that by (rule context_ok_ext)
  with assms show ?thesis unfolding global_inv_def active_here_def by auto
qed

lemma owner_inv_other:
  assumes "owner_inv j w" and "j \<noteq> i" and "\<forall>l \<in> set es. entry_owner l = i"
  shows "owner_inv j (emit es (upd i f w))"
proof -
  have "executed j es = []" "dropped j es = []" "settles j es = []"
    using assms(2,3) by (auto simp: executed_def dropped_def settles_def split: log_entry.splits)
  moreover have "units_told j es = []" "firmware_told j es = []"
    using assms(2,3) by (auto simp: units_told_def firmware_told_def split: log_entry.splits)
  moreover have "cancellations j es = 0"
    using assms(2,3) by (auto simp: cancellations_def filter_empty_conv)
  ultimately have "executed j (es @ l) = executed j l" "dropped j (es @ l) = dropped j l"
    "settles j (es @ l) = settles j l" "cancellations j (es @ l) = cancellations j l"
    "reports_ok j p f (es @ l) = reports_ok j p f l" for l p f
    by (simp_all add: executed_def dropped_def settles_def cancellations_def reports_ok_def reports_append)
  with assms(1,2) show ?thesis
    by (simp add: owner_inv_def account_ok_def ending_ok_def active_here_def quiescent_def cleaned_def)
qed

text \<open>One owner changes and records what it does.\<close>

lemma evolves_change:
  assumes "evolves w0 w" and "i < rt_owners w0"
    and "owner_ext (rt_owner w i) (f (rt_owner w i))"
    and "\<forall>l \<in> set es. entry_owner l = i \<and> is_wiped_entry l"
    and "owner_inv i w \<Longrightarrow> owner_inv i (emit es (upd i f w))"
    and "inv w \<Longrightarrow> trace_ok (es @ rt_log w)"
  shows "evolves w0 (emit es (upd i f w))"
proof (rule evolves_step [OF assms(1)])
  let ?w = "emit es (upd i f w)"
  from assms(1,2) have i: "i < rt_owners w" and inv: "inv w" by (auto simp: evolves_def ext_def)
  show ext: "ext w ?w" using assms(3) by (auto simp: ext_def upd_other)
  show "rt_threads ?w = rt_threads w" by simp
  show "global_inv ?w"
    using inv i assms(4) assms(6) [OF inv] by (intro global_inv_ext [where es = es, OF _ ext]) (auto simp: inv_def)
  show "owner_inv j ?w" if "j < rt_owners ?w" for j
  proof (cases "j = i")
    case True
    with assms(5) inv i show ?thesis by (simp add: inv_def)
  next
    case False
    with inv that assms(4) show ?thesis by (intro owner_inv_other) (auto simp: inv_def)
  qed
qed

lemma emit_Nil [simp]: "emit [] w = w"
  by (simp add: emit_def)

lemma evolves_change_quiet:
  assumes "evolves w0 w" and "i < rt_owners w0" and "owner_ext (rt_owner w i) (f (rt_owner w i))"
    and "owner_inv i w \<Longrightarrow> owner_inv i (upd i f w)"
  shows "evolves w0 (upd i f w)"
  using evolves_change [where f = f and es = "[]", OF assms(1-3)] assms(4) by (simp add: inv_def global_inv_def)

text \<open>Fields no assertion speaks of may change at will.\<close>

definition same_view :: "owner \<Rightarrow> owner \<Rightarrow> bool" where
  "same_view ow ow' \<longleftrightarrow>
     ow_terminal ow' = ow_terminal ow \<and> ow_queue ow' = ow_queue ow \<and> ow_inline ow' = ow_inline ow
     \<and> ow_requests ow' = ow_requests ow \<and> ow_cancellationId ow' = ow_cancellationId ow
     \<and> ow_subscriptions ow' = ow_subscriptions ow \<and> ow_completionPromise ow' = ow_completionPromise ow
     \<and> ow_notifications ow' = ow_notifications ow \<and> ow_evidence ow' = ow_evidence ow
     \<and> ow_result ow' = ow_result ow \<and> ow_writes ow' = ow_writes ow \<and> ow_setups ow' = ow_setups ow
     \<and> ow_externals ow' = ow_externals ow \<and> ow_generation ow' = ow_generation ow
     \<and> ow_cleanupPromise ow' = ow_cleanupPromise ow \<and> ow_lastProgress ow' = ow_lastProgress ow
     \<and> ow_lastFirmwareProgress ow' = ow_lastFirmwareProgress ow"

lemmas owner_defs = owner_inv_def queues_ok_def account_ok_def ending_ok_def active_here_def
  quiescent_def cleaned_def
  completion_reported_def queued_ok_def request_ok_def request_ids_def inline_list_def

lemma evolves_upd [evolve]:
  assumes "evolves w0 w" and "known i w0" and "same_view (rt_owner w i) (f (rt_owner w i))"
  shows "evolves w0 (upd i f w)"
proof (rule evolves_change_quiet [OF assms(1)])
  show "i < rt_owners w0" using assms(2) by (simp add: known_def)
  show "owner_ext (rt_owner w i) (f (rt_owner w i))"
    using assms(3) by (simp add: same_view_def owner_ext_def)
  show "owner_inv i (upd i f w)" if "owner_inv i w"
    using that assms(3) by (simp add: same_view_def owner_defs Let_def)
qed

lemma evolves_upd_direct [evolve]: "evolves w0 w \<Longrightarrow> evolves w0 (upd_direct d f w)"
  unfolding upd_direct_def by (rule evolve)

lemma good_trans: "evolves w0 w \<Longrightarrow> good w r \<Longrightarrow> good w0 r"
  by (auto simp: good_def intro: evolves_trans)

lemma executed_append [simp]:
  "executed i (a @ b) = executed i a @ executed i b" "cancellations i (a @ b) = cancellations i a + cancellations i b"
  "dropped i (a @ b) = dropped i a @ dropped i b" "settles i (a @ b) = settles i a @ settles i b"
  by (simp_all add: executed_def dropped_def settles_def cancellations_def)

lemma executed_drops [simp]:
  "cancellations i (map (L_drop j) es) = 0" "trace_ok (map (L_drop j) es @ log) = trace_ok log"
  "executed i (map (L_drop j) es) = []" "settles i (map (L_drop j) es) = []"
  "dropped i (map (L_drop i) es) = map env_requestId es"
  by (induction es) (simp_all add: executed_def dropped_def settles_def cancellations_def o_def)

lemma executed_drops_o [simp]:
  "cancellations i (map (L_drop j \<circ> g) es) = 0" "trace_ok (map (L_drop j \<circ> g) es @ log) = trace_ok log"
  "executed i (map (L_drop j \<circ> g) es) = []" "settles i (map (L_drop j \<circ> g) es) = []"
  "dropped i (map (L_drop i \<circ> g) es) = map (env_requestId \<circ> g) es"
  by (induction es) (simp_all add: executed_def dropped_def settles_def cancellations_def o_def)

lemma executed_Cons [simp]:
  "executed i (L_cancelling j # log) = executed i log" "dropped i (L_cancelling j # log) = dropped i log"
  "settles i (L_cancelling j # log) = settles i log"
  "cancellations i (L_cancelling j # log) = (if j = i then Suc (cancellations i log) else cancellations i log)"
  "cancellations i (L_execute j e g # log) = cancellations i log"
  "cancellations i (L_core j ev # log) = cancellations i log"
  "cancellations i (L_core_cancel j # log) = cancellations i log"
  "cancellations i (L_drop j e # log) = cancellations i log"
  "cancellations i (L_settle j r # log) = cancellations i log"
  "executed i (L_execute j e g # log) = (if j = i then env_requestId e # executed i log else executed i log)"
  "executed i (L_core j ev # log) = executed i log" "executed i (L_core_cancel j # log) = executed i log"
  "executed i (L_settle j r # log) = executed i log"
  "dropped i (L_execute j e g # log) = dropped i log" "dropped i (L_core j ev # log) = dropped i log"
  "dropped i (L_core_cancel j # log) = dropped i log" "dropped i (L_settle j r # log) = dropped i log"
  "settles i (L_execute j e g # log) = settles i log" "settles i (L_core j ev # log) = settles i log"
  "settles i (L_core_cancel j # log) = settles i log"
  "settles i (L_settle j r # log) = (if j = i then r # settles i log else settles i log)"
  by (simp_all add: executed_def dropped_def settles_def cancellations_def)

lemma untold_drops:
  "units_told i (map (L_drop j) es) = []" "firmware_told i (map (L_drop j) es) = []"
  by (induction es) (simp_all add: units_told_def firmware_told_def)

lemma reports_skip [simp]:
  "reports_ok i p f (L_execute j e g # log) = reports_ok i p f log"
  "reports_ok i p f (L_core j ev # log) = reports_ok i p f log"
  "reports_ok i p f (L_core_cancel j # log) = reports_ok i p f log"
  "reports_ok i p f (L_cancelling j # log) = reports_ok i p f log"
  "reports_ok i p f (L_settle j r # log) = reports_ok i p f log"
  by (simp_all add: reports_ok_def units_told_def firmware_told_def)

lemma reports_drops [simp]:
  "reports_ok i p f (map (L_drop j) es @ log) = reports_ok i p f log"
  "reports_ok i p f (map (L_drop j \<circ> h) qs @ log) = reports_ok i p f log"
  using untold_drops [of _ _ "map h qs"] by (simp_all add: reports_ok_def reports_append untold_drops)

lemma executed_Nil [simp]: "executed i [] = []" "dropped i [] = []" "settles i [] = []" "cancellations i [] = 0"
  by (simp_all add: executed_def dropped_def settles_def cancellations_def)

lemma account_skip [simp]:
  "account_ok i ow (L_settle j r # log) = account_ok i ow log"
  "account_ok i ow (L_core j ev # log) = account_ok i ow log"
  "account_ok i ow (L_core_cancel j # log) = account_ok i ow log"
  "account_ok i ow (L_cancelling j # log) = account_ok i ow log"
  by (simp_all add: account_ok_def)

lemma inv_trace: "inv w \<Longrightarrow> trace_ok (rt_log w)"
  by (simp add: inv_def global_inv_def)

lemma scrub_keeps [simp]: "env_requestId (scrubTransientEffect e) = env_requestId e"
  by (simp add: scrubTransientEffect_def)

lemma scrub_wipes [simp]: "wiped (scrubTransientEffect e)"
  by (simp add: wiped_def scrubTransientEffect_def scrub_effect_zero)

text \<open>The accounting over lists: \<open>es\<close> executed, \<open>qs\<close> waiting, \<open>D\<close> dropped, \<open>R\<close> admitted.\<close>

lemma account_drop:
  assumes "distinct (es @ (a1 @ k1) @ (a2 @ k2))" and "R \<subseteq> set es \<union> D \<union> set (a1 @ k1) \<union> set (a2 @ k2)"
  shows "distinct (es @ k1 @ k2) \<and> R \<subseteq> set es \<union> (set (a1 @ a2) \<union> D) \<union> set k1 \<union> set k2"
proof
  show "distinct (es @ k1 @ k2)" using assms(1) by (simp only: distinct_append set_append) blast
  show "R \<subseteq> set es \<union> (set (a1 @ a2) \<union> D) \<union> set k1 \<union> set k2" using assms(2) by (simp only: set_append) blast
qed

lemma map_scrub_keeps [simp]: "map (env_requestId \<circ> (scrubTransientEffect \<circ> q_envelope)) qs = ids qs"
  "map (env_requestId \<circ> q_envelope) qs = ids qs"
  by (simp_all add: ids_def)

lemma ids_append [simp]: "ids (a @ b) = ids a @ ids b" "ids [] = []"
  "ids (q # qs) = env_requestId (q_envelope q) # ids qs"
  by (simp_all add: ids_def)

lemma drop_entries:
  "l \<in> set (map (L_drop i) (map scrubTransientEffect es)) \<Longrightarrow> entry_owner l = i \<and> is_wiped_entry l"
  by (auto simp: is_wiped_entry_def)

text \<open>What becomes of bytes is recorded beside: it touches no account and no trace.\<close>

definition bytes_entry :: "nat \<Rightarrow> log_entry \<Rightarrow> bool" where
  "bytes_entry i l \<longleftrightarrow> (\<exists>e. l = L_late i e \<or> l = L_payload i e \<and> wiped e)"

lemma bytes_entry_simps [simp]:
  "bytes_entry i (L_late i e)" "bytes_entry i (L_payload i e) = wiped e"
  by (auto simp: bytes_entry_def)

lemma bytes_unreported:
  assumes "\<forall>l \<in> set es. bytes_entry i l"
  shows "reports_ok j p f (es @ log) = reports_ok j p f log"
  using assms
  by (induction es) (auto simp: bytes_entry_def reports_ok_def units_told_def firmware_told_def)

lemma bytes_entries:
  assumes "\<forall>l \<in> set es. bytes_entry i l"
  shows "executed j es = []" "dropped j es = []" "settles j es = []" "cancellations j es = 0"
    "trace_ok (es @ log) = trace_ok log" "\<forall>l \<in> set es. entry_owner l = i \<and> is_wiped_entry l"
  using assms
  by (induction es)
    (auto simp: bytes_entry_def executed_def dropped_def settles_def cancellations_def is_wiped_entry_def)

lemma evolves_bytes [evolve]:
  assumes "evolves w0 w" and "known i w0" and es: "\<forall>l \<in> set es. bytes_entry i l"
  shows "evolves w0 (emit es w)"
proof -
  have "evolves w0 (emit es (upd i (\<lambda>ow. ow) w))"
  proof (rule evolves_change [OF assms(1)])
    show "i < rt_owners w0" using assms(2) by (simp add: known_def)
    show "owner_inv i (emit es (upd i (\<lambda>ow. ow) w))" if "owner_inv i w"
      using that by (simp add: owner_inv_def account_ok_def ending_ok_def active_here_def quiescent_def cleaned_def
        Let_def bytes_entries [OF es] bytes_unreported [OF es])
    show "trace_ok (es @ rt_log w)" if "inv w"
      using that by (simp add: bytes_entries [OF es] inv_def global_inv_def)
  qed (simp_all add: bytes_entries [OF es] owner_ext_def)
  then show ?thesis by (simp add: upd_def)
qed

lemma upd_emit: "upd i f (emit es w) = emit es (upd i f w)"
  by (simp add: upd_def emit_def)

lemma upd_upd: "upd i f (upd i g w) = upd i (f \<circ> g) w"
  by (simp add: upd_def)

lemma upd_id: "upd i (\<lambda>ow. ow) w = w"
  by (simp add: upd_def)

text \<open>Effects leave the two queues only as dropped effects, and those are wiped.\<close>

lemma evolves_drop_from_queues:
  assumes "evolves w0 w" and "known i w0" and ow: "rt_owner w i = ow"
    and q: "ow_queue ow = dropped1 @ kept1" and n: "inline_list ow = dropped2 @ kept2"
    and f: "ow_queue (f ow) = kept1" "inline_list (f ow) = kept2"
      "same_view (ow\<lparr>ow_queue := kept1, ow_inline := ow_inline (f ow)\<rparr>) (f ow)"
  shows "evolves w0 (emit (map (L_drop i) (map scrubTransientEffect (map q_envelope (dropped1 @ dropped2)))) (upd i f w))"
proof (rule evolves_change [OF assms(1)])
  show "i < rt_owners w0" using assms(2) by (simp add: known_def)
  show "owner_ext (rt_owner w i) (f (rt_owner w i))"
    using f(3) ow by (simp add: same_view_def owner_ext_def)
  show "\<forall>l \<in> set (map (L_drop i) (map scrubTransientEffect (map q_envelope (dropped1 @ dropped2)))).
          entry_owner l = i \<and> is_wiped_entry l"
    using drop_entries by blast
  show "trace_ok (map (L_drop i) (map scrubTransientEffect (map q_envelope (dropped1 @ dropped2))) @ rt_log w)"
    if "inv w" using that by (simp only: executed_drops inv_trace)
next
  let ?w = "emit (map (L_drop i) (map scrubTransientEffect (map q_envelope (dropped1 @ dropped2)))) (upd i f w)"
  assume inv: "owner_inv i w"
  have f': "ow_terminal (f ow) = ow_terminal ow" "ow_requests (f ow) = ow_requests ow"
    "ow_cancellationId (f ow) = ow_cancellationId ow" "ow_subscriptions (f ow) = ow_subscriptions ow"
    "ow_completionPromise (f ow) = ow_completionPromise ow" "ow_notifications (f ow) = ow_notifications ow"
    "ow_evidence (f ow) = ow_evidence ow" "ow_result (f ow) = ow_result ow"
    "ow_writes (f ow) = ow_writes ow" "ow_setups (f ow) = ow_setups ow" "ow_externals (f ow) = ow_externals ow"
    "ow_cleanupPromise (f ow) = ow_cleanupPromise ow" "ow_generation (f ow) = ow_generation ow"
    "ow_lastProgress (f ow) = ow_lastProgress ow" "ow_lastFirmwareProgress (f ow) = ow_lastFirmwareProgress ow"
    using f(3) by (simp_all add: same_view_def)
  have "queues_ok (f ow)"
    using inv ow q n f(1,2) f' by (auto simp: owner_inv_def queues_ok_def queued_ok_def request_ok_def request_ids_def)
  moreover have "account_ok i (f ow) (rt_log ?w)"
  proof -
    have acc: "account_ok i ow (rt_log w)" using inv ow by (simp add: owner_inv_def)
    then have "distinct (executed i (rt_log w) @ (ids dropped1 @ ids kept1) @ (ids dropped2 @ ids kept2))"
      and "request_ids ow \<subseteq> set (executed i (rt_log w)) \<union> set (dropped i (rt_log w))
            \<union> set (ids dropped1 @ ids kept1) \<union> set (ids dropped2 @ ids kept2)"
      and sub: "set (executed i (rt_log w)) \<subseteq> request_ids ow"
      using q n by (simp_all only: account_ok_def ids_append)
    from account_drop [OF this(1,2)] sub show ?thesis
      using f(1,2) f'(2) by (simp add: account_ok_def request_ids_def Un_assoc)
  qed
  moreover have "ending_ok i ?w"
    using inv ow f' by (simp add: owner_inv_def ending_ok_def Let_def completion_reported_def active_here_def
      quiescent_def cleaned_def)
  ultimately show "owner_inv i ?w" using inv ow f' by (simp add: owner_inv_def)
qed

lemma evolves_drop_effects [evolve]:
  assumes "evolves w0 w" and "known i w0"
  shows "evolves w0 (drop_effects i es w)"
proof -
  have "evolves w0 (emit (map (L_drop i) (map scrubTransientEffect es)) (upd i (\<lambda>ow. ow) w))"
  proof (rule evolves_change [OF assms(1)])
    show "i < rt_owners w0" using assms(2) by (simp add: known_def)
    show "owner_inv i (emit (map (L_drop i) (map scrubTransientEffect es)) (upd i (\<lambda>ow. ow) w))"
      if "owner_inv i w"
    proof -
      have "account_ok i (rt_owner w i) (map (L_drop i) (map scrubTransientEffect es) @ rt_log w)"
        using that by (simp add: owner_inv_def account_ok_def) blast
      with that show ?thesis by (simp add: owner_inv_def ending_ok_def Let_def active_here_def upd_id quiescent_def cleaned_def)
    qed
    show "\<forall>l \<in> set (map (L_drop i) (map scrubTransientEffect es)). entry_owner l = i \<and> is_wiped_entry l"
      using drop_entries by blast
    show "trace_ok (map (L_drop i) (map scrubTransientEffect es) @ rt_log w)" if "inv w"
      using that by (simp only: executed_drops inv_trace)
  qed simp
  then show ?thesis by (simp add: drop_effects_def upd_id)
qed

lemma evolves_discard [evolve]:
  assumes "evolves w0 w" and "known i w0"
  shows "evolves w0 (discardQueuedEffects i w)"
proof -
  have "evolves w0 (emit (map (L_drop i) (map scrubTransientEffect (map q_envelope (ow_queue (rt_owner w i) @ []))))
          (upd i (\<lambda>ow. ow\<lparr>ow_queue := []\<rparr>) w))"
    by (rule evolves_drop_from_queues [OF assms refl])
      (simp_all add: same_view_def inline_list_def)
  then show ?thesis by (simp add: discardQueuedEffects_def drop_effects_def upd_emit)
qed

lemma discard_simps [simp]:
  "rt_owner (discardQueuedEffects i w) i = (rt_owner w i)\<lparr>ow_queue := []\<rparr>"
  "rt_owners (discardQueuedEffects i w) = rt_owners w" "rt_active (discardQueuedEffects i w) = rt_active w"
  by (simp_all add: discardQueuedEffects_def drop_effects_def)

lemma evolves_beginCancellation [evolve]:
  "evolves w0 w \<Longrightarrow> known i w0 \<Longrightarrow> evolves w0 (beginCancellation i w)"
proof -
  assume ev: "evolves w0 w" and i: "known i w0"
  have "evolves w0 (emit [L_cancelling i]
      (upd i (\<lambda>ow. ow\<lparr>ow_cancelling := True, ow_generation := ow_generation ow + 1, ow_aborted := True\<rparr>) w))"
  proof (rule evolves_change [OF ev])
    show "i < rt_owners w0" using i by (simp add: known_def)
    show "owner_inv i (emit [L_cancelling i]
      (upd i (\<lambda>ow. ow\<lparr>ow_cancelling := True, ow_generation := ow_generation ow + 1, ow_aborted := True\<rparr>) w))"
      if "owner_inv i w" using that by (simp add: owner_defs Let_def)
  qed (simp_all add: owner_ext_def is_wiped_entry_def inv_trace)
  from evolves_discard [OF this i] i show ?thesis
    unfolding beginCancellation_def by (intro evolves_upd) (simp_all add: same_view_def)
qed

lemma make_terminal_eq:
  "make_terminal i b c w =
     emit (map (L_drop i) (map scrubTransientEffect (map q_envelope (ow_queue (rt_owner w i)))))
       (upd i (\<lambda>ow. ow\<lparr>ow_terminal := True, ow_aborted := (ow_aborted ow \<or> b),
          ow_cancellationAborted := map_option (\<lambda>x. x \<or> c) (ow_cancellationAborted ow), ow_queue := []\<rparr>) w)"
  by (simp add: make_terminal_def discardQueuedEffects_def drop_effects_def upd_emit upd_upd o_def)

lemma evolves_make_terminal [evolve]:
  assumes "evolves w0 w" and "known i w0"
  shows "evolves w0 (make_terminal i b c w)"
  unfolding make_terminal_eq
proof (rule evolves_change [OF assms(1)])
  let ?ds = "map (L_drop i) (map scrubTransientEffect (map q_envelope (ow_queue (rt_owner w i))))"
  let ?f = "\<lambda>ow. ow\<lparr>ow_terminal := True, ow_aborted := (ow_aborted ow \<or> b),
     ow_cancellationAborted := map_option (\<lambda>x. x \<or> c) (ow_cancellationAborted ow), ow_queue := []\<rparr>"
  show "i < rt_owners w0" using assms(2) by (simp add: known_def)
  show "owner_ext (rt_owner w i) (?f (rt_owner w i))" by (simp add: owner_ext_def)
  show "\<forall>l \<in> set ?ds. entry_owner l = i \<and> is_wiped_entry l" using drop_entries by blast
  show "trace_ok (?ds @ rt_log w)" if "inv w" using that by (simp only: executed_drops inv_trace)
  assume inv: "owner_inv i w"
  let ?w = "emit ?ds (upd i ?f w)"
  have "queues_ok (rt_owner ?w i)"
    using inv by (simp add: owner_inv_def queues_ok_def queued_ok_def request_ok_def request_ids_def inline_list_def)
  moreover have "account_ok i (rt_owner ?w i) (rt_log ?w)"
  proof -
    have acc: "account_ok i (rt_owner w i) (rt_log w)" using inv by (simp add: owner_inv_def)
    let ?q = "ids (ow_queue (rt_owner w i))" and ?n = "ids (inline_list (rt_owner w i))"
    from acc have "distinct (executed i (rt_log w) @ (?q @ []) @ ([] @ ?n))"
      and "request_ids (rt_owner w i) \<subseteq> set (executed i (rt_log w)) \<union> set (dropped i (rt_log w))
            \<union> set (?q @ []) \<union> set ([] @ ?n)"
      and sub: "set (executed i (rt_log w)) \<subseteq> request_ids (rt_owner w i)"
      by (simp_all add: account_ok_def)
    from account_drop [OF this(1,2)] sub show ?thesis
      by (simp add: account_ok_def request_ids_def inline_list_def Un_assoc)
  qed
  moreover have "ending_ok i ?w"
    using inv by (simp add: owner_inv_def ending_ok_def Let_def completion_reported_def active_here_def
      quiescent_def cleaned_def)
  ultimately show "owner_inv i ?w" using inv by (simp add: owner_inv_def)
qed

lemma make_terminal_ended: "i < rt_owners w \<Longrightarrow> ended i (make_terminal i b c w)"
  by (simp add: ended_def make_terminal_eq)

lemma make_terminal_completion [simp]:
  "ow_completionPromise (rt_owner (make_terminal i b c w) i) = ow_completionPromise (rt_owner w i)"
  by (simp add: make_terminal_eq)

end
