(* ===== verification/OwnerOps.thy ===== *)
theory OwnerOps
  imports OwnerInv
begin

text \<open>
  Every operation and every continuation of the runtime preserves the invariant: one lemma per
  definition of OwnerState and OwnerThreads, in their order, then the actions of the step relation.
\<close>

section \<open>Flags that only help\<close>

lemma known_evolvesI: "evolves w0 w \<Longrightarrow> i < rt_owners w0 \<Longrightarrow> known i w"
  by (auto simp: known_def intro: evolves_owners)

lemma evolves_change_known:
  assumes "evolves w0 w" and "known i w0" and "owner_ext (rt_owner w i) (f (rt_owner w i))"
    and "owner_inv i w \<Longrightarrow> owner_inv i (upd i f w)"
  shows "evolves w0 (upd i f w)"
  using assms by (intro evolves_change_quiet) (auto simp: known_def)

lemma evolves_notification [evolve]:
  "evolves w0 w \<Longrightarrow> known i w0 \<Longrightarrow> evolves w0 (upd i (\<lambda>ow. ow\<lparr>ow_notifications := ow_notifications ow @ [n]\<rparr>) w)"
  by (erule evolves_change_known) (auto simp: owner_ext_def owner_defs Let_def)

lemma evolves_evidence [evolve]:
  "evolves w0 w \<Longrightarrow> known i w0 \<Longrightarrow> evolves w0 (upd i (\<lambda>ow. ow\<lparr>ow_evidence := Some e\<rparr>) w)"
  by (erule evolves_change_known) (auto simp: owner_ext_def owner_defs Let_def)

lemma evolves_completing:
  "evolves w0 w \<Longrightarrow> known i w0 \<Longrightarrow> completion_reported (rt_owner w i)
    \<Longrightarrow> evolves w0 (upd i (\<lambda>ow. ow\<lparr>ow_completing := True, ow_completionPromise := Some p\<rparr>) w)"
  by (erule evolves_change_known) (auto simp: owner_ext_def owner_defs Let_def)

lemma evolves_settle_completion [evolve]:
  assumes "evolves w0 w" and "completing_ok i w0"
  shows "evolves w0 (upd i (\<lambda>ow. ow\<lparr>ow_completionPromise := Some p\<rparr>) w)"
proof (rule evolves_change_known [OF assms(1)])
  have "completing_ok i w" using assms by (auto simp: evolves_def intro: completing_ok_ext)
  then show "owner_inv i (upd i (\<lambda>ow. ow\<lparr>ow_completionPromise := Some p\<rparr>) w)" if "owner_inv i w"
    using that by (auto simp: owner_defs Let_def completing_ok_def)
qed (use assms in \<open>auto simp: completing_ok_def known_def owner_ext_def\<close>)

lemma evolves_cleanup_begins:
  "evolves w0 w \<Longrightarrow> known i w0 \<Longrightarrow> ow_cleanupPromise (rt_owner w i) = None
    \<Longrightarrow> evolves w0 (upd i (\<lambda>ow. ow\<lparr>ow_cleanupPromise := Some Unsettled\<rparr>) w)"
  by (erule evolves_change_known) (auto simp: owner_ext_def owner_defs Let_def)

lemma evolves_cleanup_settles [evolve]:
  "evolves w0 w \<Longrightarrow> known i w0
    \<Longrightarrow> evolves w0 (upd i (\<lambda>ow. ow\<lparr>ow_cleanupPromise := Some (settle_of r)\<rparr>) w)"
  by (erule evolves_change_known) (auto simp: owner_ext_def owner_defs Let_def settle_of_def)

lemma evolves_subscriptions_shrink:
  assumes "evolves w0 w" and "known i w0"
    and "set (ow_subscriptions (f (rt_owner w i))) \<subseteq> set (ow_subscriptions (rt_owner w i))"
    and "same_view ((rt_owner w i)\<lparr>ow_subscriptions := ow_subscriptions (f (rt_owner w i))\<rparr>) (f (rt_owner w i))"
  shows "evolves w0 (upd i f w)"
proof (rule evolves_change_known [OF assms(1,2)])
  show "owner_ext (rt_owner w i) (f (rt_owner w i))"
    using assms(4) by (simp add: same_view_def owner_ext_def)
  have sub: "fst ` set (ow_subscriptions (f (rt_owner w i))) \<subseteq> fst ` set (ow_subscriptions (rt_owner w i))"
    using assms(3) by (rule image_mono)
  show "owner_inv i (upd i f w)" if "owner_inv i w"
    using that assms(4) order.trans [OF sub] by (simp add: owner_defs Let_def same_view_def)
qed

lemma evolves_track [evolve]:
  assumes "evolves w0 w" and "known i w0" and "\<not> ow_terminal (rt_owner w i)"
  shows "evolves w0 (trackExternal i t w)" and "evolves w0 (trackWrite i t w)"
    and "evolves w0 (upd i (\<lambda>ow. ow\<lparr>ow_setups := ow_setups ow @ [t]\<rparr>) w)"
  unfolding trackExternal_def trackWrite_def
  by (rule evolves_change_known [OF assms(1,2)]; use assms(3) in \<open>auto simp: owner_ext_def owner_defs Let_def\<close>)+

lemma evolves_untrack [evolve]:
  "evolves w0 w \<Longrightarrow> known i w0 \<Longrightarrow> evolves w0 (untrack i t w)"
  unfolding untrack_def by (erule evolves_change_known) (auto simp: owner_ext_def owner_defs Let_def)

lemma evolves_setup_ends [evolve]:
  "evolves w0 w \<Longrightarrow> known i w0
    \<Longrightarrow> evolves w0 (upd i (\<lambda>ow. ow\<lparr>ow_setups := removeAll s (ow_setups ow)\<rparr>) w)"
  by (erule evolves_change_known) (auto simp: owner_ext_def owner_defs Let_def)

lemma keys_update: "fst ` set (AList.update k v xs) = insert k (fst ` set xs)"
  by (simp add: dom_map_of_conv_image_fst [symmetric] update_conv')

lemma evolves_subscribed [evolve]:
  assumes "evolves w0 w" and "context_ok w0 ctx"
  shows "evolves w0 (upd (ctx_owner ctx) (\<lambda>ow. ow\<lparr>ow_subscriptions :=
           AList.update (env_requestId (ctx_envelope ctx)) v (ow_subscriptions ow)\<rparr>) w)"
proof (rule evolves_change_known [OF assms(1)])
  have "context_ok w ctx" by (rule context_ok_evolves [OF assms(2,1)])
  then have "env_requestId (ctx_envelope ctx) \<in> request_ids (rt_owner w (ctx_owner ctx))"
    unfolding context_ok_def request_ok_def request_ids_def by (metis map_of_keys not_None_eq)
  then show "owner_inv (ctx_owner ctx) (upd (ctx_owner ctx) (\<lambda>ow. ow\<lparr>ow_subscriptions :=
      AList.update (env_requestId (ctx_envelope ctx)) v (ow_subscriptions ow)\<rparr>) w)"
    if "owner_inv (ctx_owner ctx) w"
    using that by (auto simp: owner_defs Let_def keys_update)
qed (use assms in \<open>auto simp: context_ok_def known_def owner_ext_def\<close>)

section \<open>Release and result\<close>

lemma unsettled_newest:
  assumes "inv w" and "i < rt_owners w" and "ow_result (rt_owner w i) = None"
  shows "newest i (rt_log w)" and "active_here i w" and "Suc i = rt_owners w"
proof -
  have end_ok: "ending_ok i w" using assms(1,2) by (simp add: inv_def owner_inv_def)
  then show act: "active_here i w" using assms(3) by (simp add: ending_ok_def Let_def)
  then show suc: "Suc i = rt_owners w" using assms(1) by (simp add: inv_def global_inv_def)
  have "\<forall>l \<in> set (rt_log w). entry_owner l < rt_owners w" using assms(1) by (simp add: inv_def global_inv_def)
  then have "\<forall>l \<in> set (rt_log w). entry_owner l \<le> i" using suc less_Suc_eq_le by auto
  moreover have "settles i (rt_log w) = []" using end_ok assms(3) by (simp add: ending_ok_def Let_def)
  ultimately show "newest i (rt_log w)" by (simp add: newest_def)
qed

lemma running_unsettled:
  assumes "inv w" and "i < rt_owners w" and "\<not> ow_terminal (rt_owner w i)"
  shows "ow_result (rt_owner w i) = None"
  using assms by (auto simp: inv_def owner_inv_def ending_ok_def Let_def)

lemma release_simps [simp]:
  "rt_owner (releaseOwner i w) = rt_owner w" "rt_owners (releaseOwner i w) = rt_owners w"
  "rt_log (releaseOwner i w) = rt_log w" "rt_threads (releaseOwner i w) = rt_threads w"
  "rt_contexts (releaseOwner i w) = rt_contexts w" "rt_armed (releaseOwner i w) = rt_armed w"
  by (simp_all add: releaseOwner_def)

text \<open>
  The end of a workflow, in one step: the owner is released and its result settles, unless it has settled
  before.
\<close>

lemma evolves_end:
  assumes "evolves w0 w" and "ended i w0" and "quiescent i w"
    and "\<And>ns. r = Inr ns \<Longrightarrow> completing_ok i w"
  shows "evolves w0 (settle_result i r (releaseOwner i w))"
proof -
  have inv: "inv w" using assms(1) by (simp add: evolves_def)
  have i: "i < rt_owners w" "ow_terminal (rt_owner w i)"
    using assms(1,2) by (auto simp: evolves_def ended_def dest: ended_ext [unfolded ended_def])
  then have own: "owner_inv i w" using inv by (simp add: inv_def)
  show ?thesis
  proof (cases "ow_result (rt_owner w i)")
    case (Some x)
    with own have "rt_active w \<noteq> Some (Workflow i)"
      by (simp add: owner_inv_def ending_ok_def Let_def active_here_def)
    with Some assms(1) show ?thesis by (simp add: settle_result_def releaseOwner_def)
  next
    case None
    let ?w = "emit [L_settle i r] (upd i (\<lambda>ow. ow\<lparr>ow_result := Some r\<rparr>) (releaseOwner i w))"
    note new = unsettled_newest [OF inv i(1) None]
    have act: "rt_active (releaseOwner i w) = None"
      using new(2) by (simp add: releaseOwner_def active_here_def)
    have settled: "settles i (rt_log w) = []" using new(1) by (simp add: newest_def)
    have "evolves w0 ?w"
    proof (rule evolves_step [OF assms(1)])
      show ext: "ext w ?w" by (auto simp: ext_def upd_other owner_ext_def)
      show "rt_threads ?w = rt_threads w" by simp
      show "global_inv ?w"
        using inv i settled act context_ok_ext [OF ext] unfolding inv_def global_inv_def
        by (auto simp: active_here_def is_wiped_entry_def)
      show "owner_inv j ?w" if "j < rt_owners ?w" for j
      proof (cases "j = i")
        case True
        have "completion_reported (rt_owner w i)" if "r = Inr ns" for ns
          using assms(4) [OF that] own by (simp add: completing_ok_def owner_inv_def ending_ok_def Let_def)
        with True own i assms(3,4) act settled None show ?thesis
          by (auto simp: owner_defs Let_def completing_ok_def)
      next
        case False
        have "ow_result (rt_owner w j) \<noteq> None"
        proof
          assume "ow_result (rt_owner w j) = None"
          with inv that have "active_here j w" by (intro unsettled_newest(2)) simp_all
          with new(2) False show False by (simp add: active_here_def)
        qed
        with False inv that act show ?thesis
          by (simp add: inv_def owner_inv_def ending_ok_def active_here_def quiescent_def cleaned_def Let_def)
      qed
    qed
    with None show ?thesis by (simp add: settle_result_def)
  qed
qed

section \<open>Clean-up\<close>

lemma evolves_clear_timer [evolve]:
  "evolves w0 w \<Longrightarrow> known i w0 \<Longrightarrow> evolves w0 (clear_timer i timerId h w)"
  unfolding clear_timer_def by (intro evolve delete_subset) (simp_all add: same_view_def)

lemma good_cleanup_finish [evolve]:
  assumes "evolves w0 w" and "known i w0"
  shows "good w0 (cleanup_finish i failures w)"
proof -
  have "evolves w0 (upd i (\<lambda>ow. ow\<lparr>ow_cleanups := [], ow_timers := [], ow_subscriptions := []\<rparr>)
      (w\<lparr>rt_armed := filter (\<lambda>(h, _). h \<notin> snd ` set (ow_timers (rt_owner w i))) (rt_armed w)\<rparr>))"
    by (rule evolves_subscriptions_shrink)
      (use assms in \<open>auto intro!: evolves_armed simp: same_view_def\<close>)
  then show ?thesis
    by (auto simp: cleanup_finish_def Let_def split: list.splits intro: evolve)
qed

lemma good_cleanup_loop [evolve]:
  "evolves w0 w \<Longrightarrow> known i w0 \<Longrightarrow> good w0 (cleanup_loop i cs failures w)"
  unfolding cleanup_loop_def
  by (auto split: list.splits cleanup.splits intro!: good_waits evolve simp: wait_ok_def plain_def)

lemma good_host_cancel_loop [evolve]:
  "evolves w0 w \<Longrightarrow> known i w0 \<Longrightarrow> good w0 (host_cancel_loop i hs failures w)"
  unfolding host_cancel_loop_def
  by (auto split: list.splits intro!: good_waits good_cleanup_loop simp: wait_ok_def plain_def)

lemma good_cleanupOwner [evolve]:
  assumes "evolves w0 w" and "known i w0"
  shows "good w0 (cleanupOwner i ch w)"
proof -
  have "evolves w0 (upd i (\<lambda>ow. ow\<lparr>ow_cleanupPromise := Some Unsettled\<rparr>) w)"
    if "ow_cleanupPromise (rt_owner w i) = None"
    by (rule evolves_cleanup_begins [OF assms that])
  then show ?thesis using assms
    by (auto simp: cleanupOwner_def Let_def wait_ok_def plain_def
      intro!: good_waits evolves_spawn good_andthen good_host_cancel_loop)
qed

lemma cleanupOwner_thread: "snd (cleanupOwner i ch w) = (W_cleanup i, [])"
  by (simp add: cleanupOwner_def Let_def)

lemma good_cleanupAndSettle [evolve]:
  "evolves w0 w \<Longrightarrow> known i w0 \<Longrightarrow> good w0 (cleanupAndSettle i ch w)"
  unfolding cleanupAndSettle_def by (rule good_waits) (simp_all add: wait_ok_def plain_def)

section \<open>The endings\<close>

lemma good_ending:
  assumes "evolves w0 w" and "end_of f = Some i" and "frame_ok w f"
  shows "good w0 (andthen (cleanupAndSettle i ch w) [f])"
proof -
  have "known i w" using end_frame_ended [OF assms(3,2)] by (simp add: ended_def known_def)
  with assms show ?thesis
    by (simp add: cleanupAndSettle_def good_def wait_ok_def plain_def)
qed

lemma good_finishFailure [evolve]:
  assumes "evolves w0 w" and "known i w0"
  shows "good w0 (finishFailure i e w)"
proof -
  have "ended i (make_terminal i True True w)"
    using known_evolves [OF assms(2,1)] by (simp add: known_def make_terminal_ended)
  with assms show ?thesis
    unfolding finishFailure_def by (auto intro!: good_returned good_ending evolves_make_terminal)
qed

lemma good_finishCancelled [evolve]:
  assumes "evolves w0 w" and "known i w0"
  shows "good w0 (finishCancelled i w)"
proof -
  have "ended i (make_terminal i False True w)"
    using known_evolves [OF assms(2,1)] by (simp add: known_def make_terminal_ended)
  with assms show ?thesis
    unfolding finishCancelled_def by (auto intro!: good_returned good_ending evolves_make_terminal)
qed

lemma evolves_completion_failure [evolve]:
  "evolves w0 w \<Longrightarrow> known i w0 \<Longrightarrow> evolves w0 (note_completion_failure i r w)"
  unfolding note_completion_failure_def by (intro evolve) (simp_all add: same_view_def)

lemma good_begin_success:
  assumes "evolves w0 w" and "known i w0" and "completion_reported (rt_owner w i)"
    and "wt = W_host \<or> wt = Done (Inr V_unit)"
  shows "evolves w0 (spawn (upd i (\<lambda>ow. ow\<lparr>ow_completing := True, ow_completionPromise := Some Unsettled\<rparr>) w,
           (wt, [K_handoff i, K_settle_completion i])))"
proof (rule evolves_spawn, rule good_leaves)
  let ?w = "upd i (\<lambda>ow. ow\<lparr>ow_completing := True, ow_completionPromise := Some Unsettled\<rparr>) w"
  show "evolves w0 ?w" by (rule evolves_completing [OF assms(1-3)])
  show "thread_ok ?w (wt, [K_handoff i, K_settle_completion i])"
    using assms(4) known_evolves [OF assms(2,1)]
    by (auto simp: wait_ok_def plain_def completing_ok_def known_def)
qed

lemma good_finishSuccess [evolve]:
  assumes "evolves w0 w" and "known i w0" and "completion_reported (rt_owner w i)"
  shows "good w0 (finishSuccess i prior w)"
proof -
  define w1 where "w1 = (case prior of None \<Rightarrow> w
    | Some e \<Rightarrow> upd i (\<lambda>ow. ow\<lparr>ow_completionFailure := or_set (ow_completionFailure ow) e\<rparr>) w)"
  have w1: "evolves w0 w1"
    unfolding w1_def using assms(1,2) by (auto split: option.splits intro!: evolves_upd simp: same_view_def)
  have "completion_reported (rt_owner w1 i)"
    unfolding w1_def using assms(3) by (auto split: option.splits simp: completion_reported_def)
  note starts = good_begin_success [OF w1 assms(2) this]
  have wait: "good w0 (w', (W_completion i, []))" if "evolves w0 w'" for w'
    using that by (rule good_waits) (simp_all add: wait_ok_def plain_def)
  show ?thesis
  proof (cases "ow_completionPromise (rt_owner w1 i) \<noteq> None \<or> ow_terminal (rt_owner w1 i)
      \<or> ow_failure (rt_owner w1 i) \<noteq> None")
    case True
    with w1 assms(2) wait show ?thesis
      unfolding finishSuccess_def w1_def [symmetric] Let_def
      by (auto split: option.splits intro: good_returned good_finishFailure)
  next
    case False
    with wait starts show ?thesis
      unfolding finishSuccess_def w1_def [symmetric] Let_def by (simp del: spawn.simps)
  qed
qed

section \<open>Cancellation and failure\<close>

lemma good_W [evolve]:
  assumes "evolves w0 w"
  shows "good w0 (w, (W_result i, []))" "good w0 (w, (W_cancel i, []))" "good w0 (w, (W_completion i, []))"
    "good w0 (w, (W_failure i, []))" "good w0 (w, (W_cleanup i, []))" "good w0 (w, (W_host, []))"
    "good w0 (w, (W_ticket t, []))" "good w0 (w, (W_step i s t, []))"
    "good w0 (w, (W_host, [K_ignore]))" "good w0 (w, (W_result i, [K_ignore]))"
  by (intro good_waits [OF assms]; simp add: wait_ok_def plain_def)+

lemma good_claim_loop [evolve]:
  "evolves w0 w \<Longrightarrow> known i w0 \<Longrightarrow> good w0 (claim_loop i hs w)"
  unfolding claim_loop_def
  by (auto split: list.splits intro!: good_waits simp: wait_ok_def plain_def)

lemma good_claim [evolve]:
  "evolves w0 w \<Longrightarrow> known i w0 \<Longrightarrow> good w0 (confirmationAttemptedOrClaimCancellation i w)"
  unfolding confirmationAttemptedOrClaimCancellation_def by (rule good_claim_loop)

lemma good_cancelOwner [evolve]:
  "evolves w0 w \<Longrightarrow> known i w0 \<Longrightarrow> good w0 (cancelOwner i w)"
  unfolding cancelOwner_def
  by (auto intro!: good_W good_returned good_andthen good_claim simp: plain_def)

lemma good_cancelAfterFailure [evolve]:
  "evolves w0 w \<Longrightarrow> known i w0 \<Longrightarrow> good w0 (cancelAfterFailure i e w)"
  unfolding cancelAfterFailure_def by (auto intro!: good_andthen good_claim simp: plain_def)

lemma good_enterCancellation [evolve]:
  assumes "evolves w0 w" and "known i w0"
  shows "good w0 (enterCancellation i w)"
proof -
  have "evolves w0 (upd i (\<lambda>ow. ow\<lparr>ow_cancelPromise := Some Unsettled\<rparr>) w)"
    using assms by (intro evolve) (simp_all add: same_view_def)
  with assms show ?thesis
    unfolding enterCancellation_def Let_def
    by (auto simp del: spawn.simps simp: plain_def split: option.splits
      intro!: good_W evolves_spawn good_andthen good_cancelAfterFailure good_cancelOwner)
qed

lemma evidence_reported: "hasCompletionEvidence ow \<Longrightarrow> completion_reported ow"
  by (auto simp: hasCompletionEvidence_def completion_reported_def split: option.splits)

lemma good_failOwner [evolve]:
  assumes "evolves w0 w" and "known i w0"
  shows "good w0 (failOwner i e w)"
proof -
  have "evolves w0 (upd i (\<lambda>ow. ow\<lparr>ow_failure := Some e, ow_failurePromise := Some Unsettled\<rparr>) w)"
    using assms by (intro evolve) (simp_all add: same_view_def)
  with assms show ?thesis
    unfolding failOwner_def Let_def
    by (auto simp del: spawn.simps simp: plain_def dest: evidence_reported
      intro!: good_W good_returned evolves_spawn good_andthen good_finishFailure good_finishSuccess
        good_enterCancellation)
qed

section \<open>Dispatching\<close>

lemma context_known: "context_ok w ctx \<Longrightarrow> known (ctx_owner ctx) w"
  by (simp add: context_ok_def known_def)

lemma good_dispatch [evolve]:
  assumes "evolves w0 w" and "context_ok w0 ctx"
  shows "good w0 (dispatchFromContext ctx event w)"
proof -
  have ctx: "context_ok w ctx" by (rule context_ok_evolves [OF assms(2,1)])
  show ?thesis
  proof (cases "he_requestId event = env_requestId (ctx_envelope ctx)")
    case True
    have "wait_ok w0 (W_core (Call_dispatch (ctx_owner ctx) (ctx_generation ctx) event))"
      using assms(2) True by (auto simp: wait_ok_def context_ok_def answers_execution_def)
    with assms show ?thesis
      unfolding dispatchFromContext_def Let_def
      by (auto split: option.splits intro!: good_returned good_waits simp: plain_def context_known)
  next
    case False
    with assms(1) show ?thesis
      unfolding dispatchFromContext_def Let_def by (auto intro!: good_returned)
  qed
qed

lemma good_answer_event [evolve]:
  "evolves w0 w \<Longrightarrow> context_ok w0 ctx \<Longrightarrow> good w0 (answer_event ctx k w)"
  unfolding answer_event_def by (rule good_dispatch)

lemma good_ble_failure [evolve]:
  "evolves w0 w \<Longrightarrow> context_ok w0 ctx \<Longrightarrow> good w0 (dispatchBleFailure ctx e w)"
  unfolding dispatchBleFailure_def by (rule good_dispatch)

lemma evolves_emit_core:
  assumes "evolves w0 w" and "known i w0"
    and "l = L_core_cancel i \<or> l = L_core i ev \<and> \<not> ow_terminal (rt_owner w i)
      \<and> (answers_execution i ev (ow_generation (rt_owner w i)) (rt_log w)
         \<or> (\<exists>d. he_kind ev = H_ble_disconnected d None))"
  shows "evolves w0 (emit [l] w)"
proof -
  have i: "i < rt_owners w" using known_evolves [OF assms(2,1)] by (simp add: known_def)
  have inv: "inv w" using assms(1) by (simp add: evolves_def)
  have "evolves w0 (emit [l] (upd i (\<lambda>ow. ow) w))"
  proof (rule evolves_change [OF assms(1)])
    show "i < rt_owners w0" using assms(2) by (simp add: known_def)
    show "owner_inv i (emit [l] (upd i (\<lambda>ow. ow) w))" if "owner_inv i w"
      using assms(3) that by (elim disjE conjE) (simp_all add: owner_defs Let_def upd_id)
    show "\<forall>l' \<in> set [l]. entry_owner l' = i \<and> is_wiped_entry l'"
      using assms(3) by (auto simp: is_wiped_entry_def)
    have "ow_generation (rt_owner w i) = cancellations i (rt_log w)"
      using inv i by (simp add: inv_def owner_inv_def ending_ok_def Let_def)
    moreover have "newest i (rt_log w)" if "\<not> ow_terminal (rt_owner w i)"
      using unsettled_newest(1) [OF inv i running_unsettled [OF inv i that]] .
    ultimately show "trace_ok ([l] @ rt_log w)"
      using assms(3) inv_trace [OF inv] by (elim disjE conjE) simp_all
  qed simp
  then show ?thesis by (simp add: upd_id)
qed

lemma evolves_dispatchCurrent:
  assumes "evolves w0 w" and "known i w0" and "\<not> ow_terminal (rt_owner w i)"
    and "answers_execution i event (ow_generation (rt_owner w i)) (rt_log w)
         \<or> (\<exists>d. he_kind event = H_ble_disconnected d None)"
  shows "evolves w0 (fst (dispatchCurrentOwnerEvent i g event a w))"
proof -
  have "evolves w0 (emit [L_core i event] w)"
    using assms(3,4) by (intro evolves_emit_core [OF assms(1,2)]) blast
  with assms(2) show ?thesis
    unfolding dispatchCurrentOwnerEvent_def Let_def
    by (auto split: sum.splits intro!: evolves_evidence)
qed

lemma evolves_core_body:
  assumes "evolves w0 w" and "call_ok w0 c"
  shows "evolves w0 (fst (core_body c a w))"
proof (cases c)
  case (Call_dispatch i g event)
  with assms have i: "known i w0" by (simp add: known_def)
  have "answers_execution i event g (rt_log w)"
    using assms Call_dispatch by (auto simp: evolves_def intro: answers_ext)
  with assms(1) i Call_dispatch show ?thesis
    by (auto simp: Let_def split: sum.splits intro!: evolves_dispatchCurrent)
next
  case (Call_disconnected i g event)
  with assms have "known i w0" by (simp add: known_def)
  with assms Call_disconnected show ?thesis
    by (auto simp: Let_def split: sum.splits intro!: evolves_dispatchCurrent)
next
  case (Call_cancel i)
  with assms have "known i w0" by (simp add: known_def)
  with assms(1) Call_cancel show ?thesis by (auto intro: evolves_emit_core)
qed

lemma good_awaitOwnerStep [evolve]:
  "evolves w0 w \<Longrightarrow> good w0 (awaitOwnerStep i g t w)"
  unfolding awaitOwnerStep_def Let_def by (auto intro: good_W good_returned)

lemma good_step_then:
  "evolves w0 w \<Longrightarrow> list_all (frame_ok w0) ks \<Longrightarrow> plain ks \<Longrightarrow> good w0 (andthen (awaitOwnerStep i g t w) ks)"
  by (intro good_andthen good_awaitOwnerStep)

lemma evolves_addCleanup [evolve]:
  "evolves w0 w \<Longrightarrow> known i w0 \<Longrightarrow> evolves w0 (addCleanup i g c w)"
  unfolding addCleanup_def Let_def
  by (auto split: cleanup.splits intro!: evolves_clear_timer evolves_upd evolves_spawn good_W
    simp del: spawn.simps simp: same_view_def)

section \<open>Notifications\<close>

lemma evolves_told:
  assumes "evolves w0 w" and "known i w0" and "l = L_progress i p \<or> l = L_firmware i q"
    and "owner_ext (rt_owner w i) (f (rt_owner w i))"
    and "owner_inv i w \<Longrightarrow> owner_inv i (emit [l] (upd i f w))"
  shows "evolves w0 (emit [l] (upd i f w))"
proof (rule evolves_change [OF assms(1)])
  show "i < rt_owners w0" using assms(2) by (simp add: known_def)
  show "owner_ext (rt_owner w i) (f (rt_owner w i))" by (rule assms(4))
  show "\<forall>l' \<in> set [l]. entry_owner l' = i \<and> is_wiped_entry l'"
    using assms(3) by (auto simp: is_wiped_entry_def)
  show "trace_ok ([l] @ rt_log w)" if "inv w" using assms(3) inv_trace [OF that] by auto
  show "owner_inv i w \<Longrightarrow> owner_inv i (emit [l] (upd i f w))" by (rule assms(5))
qed

lemma told_Cons [simp]:
  "executed i (L_progress j p # log) = executed i log" "executed i (L_firmware j q # log) = executed i log"
  "dropped i (L_progress j p # log) = dropped i log" "dropped i (L_firmware j q # log) = dropped i log"
  "settles i (L_progress j p # log) = settles i log" "settles i (L_firmware j q # log) = settles i log"
  "cancellations i (L_progress j p # log) = cancellations i log"
  "cancellations i (L_firmware j q # log) = cancellations i log"
  "units_told i (L_progress i p # log) = p # units_told i log" "units_told i (L_firmware j q # log) = units_told i log"
  "firmware_told i (L_progress j p # log) = firmware_told i log"
  "firmware_told i (L_firmware i q # log) = q # firmware_told i log"
  by (simp_all add: executed_def dropped_def settles_def cancellations_def units_told_def firmware_told_def)

lemma evolves_note_progress [evolve]:
  assumes "evolves w0 w" and "known i w0"
  shows "evolves w0 (snd (note_progress i c t w))"
proof (cases "reportProgress (ow_lastProgress (rt_owner w i)) (ow_operation (rt_owner w i)) (c, t)")
  case (Inr r)
  have "evolves w0 (emit [L_progress i r] (upd i (\<lambda>ow. ow\<lparr>ow_lastProgress := Some r\<rparr>) w))"
  proof (rule evolves_told [OF assms])
    show "owner_inv i (emit [L_progress i r] (upd i (\<lambda>ow. ow\<lparr>ow_lastProgress := Some r\<rparr>) w))" if "owner_inv i w"
      using that units.kept_accepted [OF _ Inr] by (simp add: owner_defs Let_def reports_ok_def)
  qed (auto simp: owner_ext_def)
  with Inr show ?thesis by (simp add: note_progress_def Let_def)
qed (use assms in \<open>simp add: note_progress_def Let_def\<close>)

lemma evolves_note_firmware [evolve]:
  assumes "evolves w0 w" and "known i w0"
  shows "evolves w0 (snd (note_firmware i x w))"
proof (cases "reportFirmwareProgress (ow_lastFirmwareProgress (rt_owner w i)) (ow_operation (rt_owner w i)) x")
  case (Inr r)
  have "evolves w0 (emit [L_firmware i r] (upd i (\<lambda>ow. ow\<lparr>ow_lastFirmwareProgress := Some r\<rparr>) w))"
  proof (rule evolves_told [OF assms])
    show "owner_inv i (emit [L_firmware i r] (upd i (\<lambda>ow. ow\<lparr>ow_lastFirmwareProgress := Some r\<rparr>) w))" if "owner_inv i w"
      using that firmware.kept_accepted [OF _ Inr] by (simp add: owner_defs Let_def reports_ok_def)
  qed (auto simp: owner_ext_def)
  with Inr show ?thesis by (simp add: note_firmware_def Let_def)
qed (use assms in \<open>simp add: note_firmware_def Let_def\<close>)

lemma note_owner:
  "ow_notifications (rt_owner (snd (note_progress i c t w)) i) = ow_notifications (rt_owner w i)"
  "ow_notifications (rt_owner (snd (note_firmware i r w)) i) = ow_notifications (rt_owner w i)"
  by (auto simp: note_progress_def note_firmware_def Let_def split: sum.splits)

lemma good_handleNotification [evolve]:
  assumes "evolves w0 w" and "known i w0"
  shows "good w0 (handleNotification i n w)"
proof -
  define w1 where "w1 = upd i (\<lambda>ow. ow\<lparr>ow_notifications := ow_notifications ow @ [n]\<rparr>) w"
  have w1: "evolves w0 w1" unfolding w1_def by (rule evolves_notification [OF assms])
  have p: "evolves w0 w2" if "note_progress i c t w1 = (r, w2)" for c t r w2
    using evolves_note_progress [OF w1 assms(2), of c t] that by simp
  have f: "evolves w0 w2" if "note_firmware i c w1 = (r, w2)" for c r w2
    using evolves_note_firmware [OF w1 assms(2), of c] that by simp
  have rep: "completion_reported (rt_owner w1 i)" if "n = N_completed op" for op
    using that by (auto simp: w1_def completion_reported_def)
  have cancelling: "evolves w0 (upd i (\<lambda>ow. ow\<lparr>ow_failure := or_set (ow_failure ow) e\<rparr>) w1)" for e
    using w1 assms(2) by (intro evolve) (simp_all add: same_view_def)
  show ?thesis
    unfolding handleNotification_def Let_def w1_def [symmetric]
    by (cases n) (auto split: prod.splits sum.splits dest: p f intro!: good_returned good_finishCancelled
      good_finishFailure good_failOwner good_finishSuccess rep w1 assms(2) cancelling)
qed

section \<open>Effects on the device\<close>

lemma evolves_ticket [evolve]:
  "evolves w0 w \<Longrightarrow> evolves w0 (snd (new_ticket w))" "evolves w0 w \<Longrightarrow> evolves w0 (snd (new_deferred w))"
  by (simp_all add: new_ticket_def new_deferred_def evolve)

lemma new_ticket_owner [simp]:
  "rt_owner (snd (new_ticket w)) = rt_owner w" "rt_owner (snd (new_deferred w)) = rt_owner w"
  by (simp_all add: new_ticket_def new_deferred_def)

lemma new_ticket_split:
  "(case new_ticket w of (t, w1) \<Rightarrow> F t w1) = F (fst (new_ticket w)) (snd (new_ticket w))"
  "(case new_deferred w of (t, w1) \<Rightarrow> F t w1) = F (fst (new_deferred w)) (snd (new_deferred w))"
  by (simp_all add: case_prod_beta)

lemmas step_rules = good_returned good_ble_failure good_step_then evolves_track evolves_ticket

lemma good_startAuthorizedScan [evolve]:
  "evolves w0 w \<Longrightarrow> context_ok w0 ctx \<Longrightarrow> \<not> ow_terminal (rt_owner w (ctx_owner ctx))
    \<Longrightarrow> good w0 (startAuthorizedScan ctx a w)"
  unfolding startAuthorizedScan_def Let_def new_ticket_split
  by (auto intro!: step_rules simp: context_known plain_def)

lemma good_scan_loop [evolve]:
  assumes "evolves w0 w" and "context_ok w0 ctx"
  shows "good w0 (scan_loop ctx ds n w)"
  using assms unfolding scan_loop_def scan_end_def
  by (auto split: list.splits intro!: good_returned good_andthen good_answer_event evolves_upd
    evolves_field_updates simp: context_known plain_def same_view_def)

lemma good_connectDevice [evolve]:
  assumes "evolves w0 w" and "context_ok w0 ctx" and "\<not> ow_terminal (rt_owner w (ctx_owner ctx))"
  shows "good w0 (connectDevice ctx p w)"
  using assms unfolding connectDevice_def Let_def new_ticket_split
  by (auto split: option.splits intro!: step_rules evolves_field_updates simp: context_known plain_def)

lemma good_discoverServices [evolve]:
  assumes "evolves w0 w" and "context_ok w0 ctx" and "\<not> ow_terminal (rt_owner w (ctx_owner ctx))"
  shows "good w0 (discoverServices ctx p w)"
  using assms unfolding discoverServices_def Let_def new_ticket_split
  by (auto split: option.splits intro!: step_rules simp: context_known plain_def)

lemma good_disconnect_end [evolve]:
  assumes "evolves w0 w" and "context_ok w0 ctx"
  shows "good w0 (disconnect_end ctx p w)"
  using assms unfolding disconnect_end_def
  by (auto intro!: good_andthen good_answer_event evolves_field_updates simp: plain_def)

lemma good_disconnectDevice [evolve]:
  assumes "evolves w0 w" and "context_ok w0 ctx" and "\<not> ow_terminal (rt_owner w (ctx_owner ctx))"
  shows "good w0 (disconnectDevice ctx p w)"
  using assms unfolding disconnectDevice_def Let_def new_ticket_split
  by (auto split: option.splits intro!: step_rules good_disconnect_end simp: context_known plain_def)

lemma good_readCharacteristic [evolve]:
  assumes "evolves w0 w" and "context_ok w0 ctx" and "\<not> ow_terminal (rt_owner w (ctx_owner ctx))"
  shows "good w0 (readCharacteristic ctx w)"
  using assms unfolding readCharacteristic_def Let_def new_ticket_split
  by (auto intro!: step_rules simp: context_known plain_def)

lemma evolves_wipe_payload [evolve]:
  "evolves w0 w \<Longrightarrow> known i w0 \<Longrightarrow> evolves w0 (wipe_payload i e w)"
  unfolding wipe_payload_def by (rule evolves_bytes [where i = i]) simp_all

lemma evolves_discard_late [evolve]:
  "evolves w0 w \<Longrightarrow> known i w0 \<Longrightarrow> evolves w0 (discard_late i es w)"
  unfolding discard_late_def by (rule evolves_bytes [where i = i]) auto

lemma spawn_owner: "rt_owner (spawn (w, t)) = rt_owner w"
  by simp

lemma good_writeCharacteristic [evolve]:
  assumes "evolves w0 w" and "context_ok w0 ctx" and "\<not> ow_terminal (rt_owner w (ctx_owner ctx))"
  shows "good w0 (writeCharacteristic ctx a w)"
  using assms unfolding writeCharacteristic_def Let_def new_ticket_split
  by (auto simp del: spawn.simps simp: spawn_owner context_known plain_def wait_ok_def split: option.split
    intro!: step_rules evolves_wipe_payload evolves_spawn good_waits)

lemma good_subscribe [evolve]:
  assumes "evolves w0 w" and "context_ok w0 ctx" and "\<not> ow_terminal (rt_owner w (ctx_owner ctx))"
  shows "good w0 (subscribe ctx w)"
  using assms unfolding subscribe_def Let_def new_ticket_split
  by (auto simp del: spawn.simps simp: context_known plain_def wait_ok_def
    intro!: step_rules evolves_spawn good_waits)

lemma evolves_decide [evolve]:
  "evolves w0 w \<Longrightarrow> known i w0 \<Longrightarrow> evolves w0 (decide i g t b w)"
  unfolding decide_def Let_def by (auto intro!: evolves_upd simp: same_view_def)

lemma good_unsubscribe_loop [evolve]:
  "evolves w0 w \<Longrightarrow> known i w0 \<Longrightarrow> good w0 (unsubscribe_loop i rs w)"
  unfolding unsubscribe_loop_def
  by (auto split: list.splits intro!: good_returned good_waits simp: wait_ok_def plain_def)

lemma good_unsubscribe [evolve]:
  "evolves w0 w \<Longrightarrow> known i w0 \<Longrightarrow> good w0 (unsubscribe i s c w)"
  unfolding unsubscribe_def by (rule good_unsubscribe_loop)

lemma evolves_cancelTimer [evolve]:
  "evolves w0 w \<Longrightarrow> known i w0 \<Longrightarrow> evolves w0 (cancelTimer i t w)"
  unfolding cancelTimer_def by (auto split: option.splits intro: evolves_clear_timer)

lemma good_scheduleTimer [evolve]:
  assumes "evolves w0 w" and "context_ok w0 ctx"
  shows "good w0 (scheduleTimer ctx t d w)"
proof -
  let ?i = "ctx_owner ctx"
  define w1 where "w1 = cancelTimer ?i t w"
  have i: "known ?i w0" by (rule context_known [OF assms(2)])
  have w1: "evolves w0 w1" unfolding w1_def by (rule evolves_cancelTimer [OF assms(1) i])
  have ex: "evolves w0 (upd ?i (\<lambda>ow. ow\<lparr>ow_scanExhausted := False\<rparr>) w1)"
    using w1 i by (rule evolves_upd) (simp add: same_view_def)
  have "evolves w0 (w1\<lparr>rt_nextTimer := rt_nextTimer w1 + 1\<rparr>)" using w1 by (rule evolve)
  from evolves_arm [OF this assms(2), of "rt_nextTimer w1" t]
  have armed: "evolves w0 (w1\<lparr>rt_nextTimer := rt_nextTimer w1 + 1, rt_armed := (rt_nextTimer w1, ctx, t) # rt_armed w1\<rparr>)"
    by simp
  have "evolves w0 (upd ?i (\<lambda>ow. ow\<lparr>ow_timers := AList.update t (rt_nextTimer w1) (ow_timers ow)\<rparr>)
      (w1\<lparr>rt_nextTimer := rt_nextTimer w1 + 1, rt_armed := (rt_nextTimer w1, ctx, t) # rt_armed w1\<rparr>))"
    by (rule evolves_upd [OF armed i]) (simp add: same_view_def)
  from evolves_addCleanup [OF this i] ex assms show ?thesis
    unfolding scheduleTimer_def Let_def w1_def [symmetric]
    by (auto intro!: good_returned good_answer_event)
qed

lemma good_executeHost [evolve]:
  assumes "evolves w0 w" and "context_ok w0 ctx" and "\<not> ow_terminal (rt_owner w (ctx_owner ctx))"
  shows "good w0 (executeHost ctx slot w)"
  using assms unfolding executeHost_def Let_def new_ticket_split
  by (auto split: option.splits intro!: step_rules simp: context_known plain_def)

lemma good_events_loop [evolve]:
  "evolves w0 w \<Longrightarrow> context_ok w0 ctx \<Longrightarrow> good w0 (events_loop ctx es w)"
  unfolding events_loop_def
  by (auto split: list.splits intro!: good_returned good_andthen good_dispatch simp: plain_def)

lemma good_perform_effect [evolve]:
  assumes "evolves w0 w" and "context_ok w0 ctx" and "\<not> ow_terminal (rt_owner w (ctx_owner ctx))"
  shows "good w0 (perform_effect ctx a w)"
proof -
  have i: "known (ctx_owner ctx) w0" by (rule context_known [OF assms(2)])
  have p: "evolves w0 w2" if "note_progress (ctx_owner ctx) c t w = (r, w2)" for c t r w2
    using evolves_note_progress [OF assms(1) i, of c t] that by simp
  show ?thesis
    unfolding perform_effect_def Let_def
    by (cases "route_effect (env_effect (ctx_envelope ctx))")
      (use assms i in \<open>auto split: prod.splits sum.splits dest: p intro!: good_handleNotification
        good_startAuthorizedScan good_answer_event good_connectDevice good_discoverServices
        good_disconnectDevice good_readCharacteristic good_writeCharacteristic good_subscribe good_unsubscribe good_scheduleTimer
        good_returned evolves_cancelTimer good_executeHost\<close>)
qed

section \<open>Taking an effect from a queue\<close>

lemma account_take:
  assumes "distinct (es @ k @ n)" and "R \<subseteq> set es \<union> D \<union> set k \<union> set n" and "set es \<subseteq> R" and "q \<in> R"
    and "k = q # k' \<and> n = n' \<or> k = k' \<and> n = q # n'"
  shows "distinct ((q # es) @ k' @ n') \<and> set (q # es) \<subseteq> R \<and> R \<subseteq> set (q # es) \<union> D \<union> set k' \<union> set n'"
  using assms by (elim disjE conjE) auto

lemma begin_effect_eq:
  "begin_effect i q w =
     (emit [L_execute i (q_envelope q) (q_generation q)] w)\<lparr>rt_contexts := effectContext i q w # rt_contexts w\<rparr>"
  by (simp add: begin_effect_def emit_def)

lemma begin_effect_simps [simp]:
  "rt_owner (begin_effect i q w) = rt_owner w" "rt_owners (begin_effect i q w) = rt_owners w"
  by (simp_all add: begin_effect_def)

lemma evolves_begin_effect:
  assumes "evolves w0 w" and "known i w0" and ow: "rt_owner w i = ow"
    and take: "ow_queue ow = q # ow_queue (f ow) \<and> inline_list (f ow) = inline_list ow
      \<or> ow_queue (f ow) = ow_queue ow \<and> inline_list ow = q # inline_list (f ow)"
    and view: "same_view (ow\<lparr>ow_queue := ow_queue (f ow), ow_inline := ow_inline (f ow)\<rparr>) (f ow)"
    and current: "\<not> ow_terminal ow" "q_generation q = ow_generation ow"
  shows "evolves w0 (begin_effect i q (upd i f w))"
    and "context_ok (begin_effect i q (upd i f w)) (effectContext i q (upd i f w))"
proof -
  let ?es = "[L_execute i (q_envelope q) (q_generation q)]"
  let ?w = "emit ?es (upd i f w)"
  have i: "i < rt_owners w" using known_evolves [OF assms(2,1)] by (simp add: known_def)
  have inv: "owner_inv i w" using assms(1) i by (simp add: evolves_def inv_def)
  have f: "ow_terminal (f ow) = ow_terminal ow" "ow_requests (f ow) = ow_requests ow"
    "ow_cancellationId (f ow) = ow_cancellationId ow" "ow_subscriptions (f ow) = ow_subscriptions ow"
    "ow_completionPromise (f ow) = ow_completionPromise ow" "ow_notifications (f ow) = ow_notifications ow"
    "ow_evidence (f ow) = ow_evidence ow" "ow_result (f ow) = ow_result ow"
    "ow_writes (f ow) = ow_writes ow" "ow_setups (f ow) = ow_setups ow" "ow_externals (f ow) = ow_externals ow"
    "ow_cleanupPromise (f ow) = ow_cleanupPromise ow" "ow_generation (f ow) = ow_generation ow"
    "ow_lastProgress (f ow) = ow_lastProgress ow" "ow_lastFirmwareProgress (f ow) = ow_lastFirmwareProgress ow"
    using view by (simp_all add: same_view_def)
  have q: "queued_ok ow q"
    using inv ow take by (auto simp: owner_inv_def queues_ok_def)
  then have req: "env_requestId (q_envelope q) \<in> request_ids ow"
    unfolding queued_ok_def request_ok_def request_ids_def by (metis map_of_keys not_None_eq)
  have w: "inv w" using assms(1) by (simp add: evolves_def)
  have fresh: "env_requestId (q_envelope q) \<notin> set (executed i (rt_log w))"
    using inv ow take by (auto simp: owner_inv_def account_ok_def)
  have "evolves w0 ?w"
  proof (rule evolves_change [OF assms(1)])
    show "i < rt_owners w0" using assms(2) by (simp add: known_def)
    show "owner_ext (rt_owner w i) (f (rt_owner w i))"
      using view ow by (simp add: same_view_def owner_ext_def)
    have "newest i (rt_log w)"
      using unsettled_newest(1) [OF w i] running_unsettled [OF w i] current(1) ow by simp
    moreover have "q_generation q = cancellations i (rt_log w)"
      using inv ow current(2) by (simp add: owner_inv_def ending_ok_def Let_def)
    ultimately show "trace_ok (?es @ rt_log w)" using inv_trace [OF w] fresh by simp
    have "queues_ok (f ow)"
      using inv take ow f
      by (elim disjE conjE)
        (simp_all add: owner_inv_def queues_ok_def queued_ok_def request_ok_def request_ids_def)
    moreover have "account_ok i (f ow) (rt_log ?w)"
    proof -
      have acc: "account_ok i ow (rt_log w)" using inv ow by (simp add: owner_inv_def)
      have k: "ids (ow_queue ow) = env_requestId (q_envelope q) # ids (ow_queue (f ow))
            \<and> ids (inline_list ow) = ids (inline_list (f ow))
          \<or> ids (ow_queue ow) = ids (ow_queue (f ow))
            \<and> ids (inline_list ow) = env_requestId (q_envelope q) # ids (inline_list (f ow))"
        using take by auto
      from acc have "distinct (executed i (rt_log w) @ ids (ow_queue ow) @ ids (inline_list ow))"
        and "request_ids ow \<subseteq> set (executed i (rt_log w)) \<union> set (dropped i (rt_log w))
              \<union> set (ids (ow_queue ow)) \<union> set (ids (inline_list ow))"
        and "set (executed i (rt_log w)) \<subseteq> request_ids ow"
        by (simp_all add: account_ok_def)
      from account_take [OF this req k] show ?thesis
        using f(2) by (simp add: account_ok_def request_ids_def)
    qed
    moreover have "ending_ok i ?w"
      using inv ow f by (simp add: owner_inv_def ending_ok_def Let_def completion_reported_def active_here_def
        quiescent_def cleaned_def)
    ultimately show "owner_inv i ?w" using inv ow f by (simp add: owner_inv_def)
  qed (simp add: is_wiped_entry_def)
  moreover have ctx: "context_ok ?w (effectContext i q (upd i f w))"
    using q i f ow by (simp add: context_ok_def effectContext_def queued_ok_def request_ok_def)
  ultimately have "evolves w0 (?w\<lparr>rt_contexts := effectContext i q (upd i f w) # rt_contexts ?w\<rparr>)"
    by (rule evolves_context)
  then show "evolves w0 (begin_effect i q (upd i f w))" by (simp add: begin_effect_eq)
  show "context_ok (begin_effect i q (upd i f w)) (effectContext i q (upd i f w))"
    using ctx by (simp add: begin_effect_eq context_ok_def)
qed

lemma good_executeEffect:
  assumes "evolves w0 w" and "known i w0" and "rt_owner w i = ow"
    and "ow_queue ow = q # ow_queue (f ow) \<and> inline_list (f ow) = inline_list ow
      \<or> ow_queue (f ow) = ow_queue ow \<and> inline_list ow = q # inline_list (f ow)"
    and "same_view (ow\<lparr>ow_queue := ow_queue (f ow), ow_inline := ow_inline (f ow)\<rparr>) (f ow)"
    and "\<not> ow_terminal ow" and "q_generation q = ow_generation ow"
  shows "good w0 (executeEffect i q a (upd i f w))"
  unfolding executeEffect_def
proof (rule good_trans)
  let ?w = "begin_effect i q (upd i f w)"
  show ev: "evolves w0 ?w" by (rule evolves_begin_effect(1) [where f = f, OF assms])
  have "evolves ?w ?w" using ev by (simp add: evolves_def)
  then show "good ?w (perform_effect (effectContext i q (upd i f w)) a ?w)"
    using assms(3,5,6) evolves_begin_effect(2) [where f = f, OF assms]
    by (intro good_perform_effect) (simp_all add: effectContext_def same_view_def)
qed

section \<open>The pump and the admission of effects\<close>

lemma good_finishFromCoreStatus [evolve]:
  assumes "evolves w0 w" and "known i w0"
  shows "good w0 (finishFromCoreStatus i a w)"
  using assms unfolding finishFromCoreStatus_def Let_def
  by (auto split: sum.splits workflow_status.splits dest: evidence_reported
    intro!: good_returned good_finishSuccess good_finishCancelled good_finishFailure)

lemma fresh_generation: "fresh_rest g qs = q # rest \<Longrightarrow> q_generation q = g"
  by (induction qs) (auto simp: fresh_rest_def split: if_splits)

lemma stale_fresh: "stale_prefix g qs @ fresh_rest g qs = qs"
  by (simp add: stale_prefix_def fresh_rest_def)

lemma evolves_drop_queue:
  assumes "evolves w0 w" and "known i w0" and "ow_queue (rt_owner w i) = d @ k"
  shows "evolves w0 (upd i (\<lambda>ow. ow\<lparr>ow_queue := k\<rparr>) (drop_effects i (map q_envelope d) w))"
proof -
  have "evolves w0 (emit (map (L_drop i) (map scrubTransientEffect (map q_envelope (d @ []))))
          (upd i (\<lambda>ow. ow\<lparr>ow_queue := k\<rparr>) w))"
    by (rule evolves_drop_from_queues [OF assms(1,2) refl])
      (simp_all add: assms(3) same_view_def inline_list_def)
  then show ?thesis by (simp add: drop_effects_def upd_emit)
qed

lemma evolves_drop_inline:
  assumes "evolves w0 w" and "known i w0" and "inline_list (rt_owner w i) = d @ k"
    and "inline_list ((rt_owner w i)\<lparr>ow_inline := n\<rparr>) = k"
  shows "evolves w0 (upd i (\<lambda>ow. ow\<lparr>ow_inline := n\<rparr>) (drop_effects i (map q_envelope d) w))"
proof -
  have "evolves w0 (emit (map (L_drop i) (map scrubTransientEffect (map q_envelope ([] @ d))))
          (upd i (\<lambda>ow. ow\<lparr>ow_inline := n\<rparr>) w))"
    by (rule evolves_drop_from_queues [OF assms(1,2) refl, where ?kept1.0 = "ow_queue (rt_owner w i)"])
      (use assms(3,4) in \<open>simp_all add: same_view_def inline_list_def\<close>)
  then show ?thesis by (simp add: drop_effects_def upd_emit)
qed

lemma drop_effects_owner [simp]:
  "rt_owner (drop_effects i es w) = rt_owner w" "rt_owners (drop_effects i es w) = rt_owners w"
  by (simp_all add: drop_effects_def)

lemma good_pump [evolve]:
  assumes "evolves w0 w" and "known i w0"
  shows "good w0 (pump i a w)"
proof (cases "ow_terminal (rt_owner w i)")
  case True
  with assms show ?thesis by (simp add: pump_def Let_def good_returned)
next
  case False
  let ?ow = "rt_owner w i"
  let ?stale = "stale_prefix (ow_generation ?ow) (ow_queue ?ow)"
  let ?d = "drop_effects i (map q_envelope ?stale) w"
  show ?thesis
  proof (cases "fresh_rest (ow_generation ?ow) (ow_queue ?ow)")
    case Nil
    then have "evolves w0 (upd i (\<lambda>ow. ow\<lparr>ow_queue := []\<rparr>) ?d)"
      using stale_fresh by (intro evolves_drop_queue [OF assms]) metis
    with Nil False assms(2) show ?thesis
      by (simp add: pump_def Let_def good_finishFromCoreStatus)
  next
    case (Cons q rest)
    then have "evolves w0 (upd i (\<lambda>ow. ow\<lparr>ow_queue := q # rest\<rparr>) ?d)"
      using stale_fresh by (intro evolves_drop_queue [OF assms]) metis
    from good_executeEffect [OF this assms(2) refl, of q "\<lambda>ow. ow\<lparr>ow_queue := rest\<rparr>" a] False
      fresh_generation [OF Cons]
    have "good w0 (executeEffect i q a (upd i (\<lambda>ow. ow\<lparr>ow_queue := rest\<rparr>) ?d))"
      by (simp add: inline_list_def same_view_def upd_upd o_def)
    with Cons False assms(2) show ?thesis
      by (auto simp: pump_def Let_def plain_def intro!: good_andthen)
  qed
qed

lemma evolves_ensurePump [evolve]:
  assumes "evolves w0 w" and "known i w0"
  shows "evolves w0 (ensurePump i a w)"
proof -
  have "evolves w0 (upd i (\<lambda>ow. ow\<lparr>ow_pumping := True\<rparr>) w)"
    using assms by (intro evolve) (simp_all add: same_view_def)
  with assms show ?thesis
    unfolding ensurePump_def
    by (auto simp del: spawn.simps simp: plain_def intro!: evolves_spawn good_andthen good_pump)
qed

definition admits :: "nat \<Rightarrow> log_entry list \<Rightarrow> owner \<Rightarrow> owner \<Rightarrow> bool" where
  "admits i log ow ow' \<longleftrightarrow>
     owner_ext ow ow' \<and> queues_ok ow' \<and> account_ok i ow' log
     \<and> same_view (ow\<lparr>ow_queue := ow_queue ow', ow_inline := ow_inline ow', ow_requests := ow_requests ow'\<rparr>) ow'"

lemma push_simps [simp]:
  "ow_requests (push_effect q ow) = ow_requests ow" "ow_terminal (push_effect q ow) = ow_terminal ow"
  "ow_cancellationId (push_effect q ow) = ow_cancellationId ow"
  by (simp_all add: push_effect_def split: option.splits)

lemma account_add:
  assumes "distinct (es @ k @ n)" and "R \<subseteq> set es \<union> D \<union> set k \<union> set n" and "set es \<subseteq> R" and "r \<notin> R"
    and "set k \<subseteq> R" and "set n \<subseteq> R" and "k' = k @ [r] \<and> n' = n \<or> k' = k \<and> n' = n @ [r]"
  shows "distinct (es @ k' @ n') \<and> set es \<subseteq> insert r R \<and> insert r R \<subseteq> set es \<union> D \<union> set k' \<union> set n'"
  using assms by (elim disjE conjE) auto

lemma queued_ids: "queued_ok ow q \<Longrightarrow> env_requestId (q_envelope q) \<in> request_ids ow"
  unfolding queued_ok_def request_ok_def request_ids_def by (metis map_of_keys not_None_eq)

lemma admit_one:
  assumes "validateEnvelope ow e g = (Inr (), ow1)" and "\<not> ow_terminal ow" and "queues_ok ow"
    and "account_ok i ow log"
  shows "admits i log ow (push_effect \<lparr>q_envelope = e, q_generation = g\<rparr> ow1)"
proof -
  let ?q = "\<lparr>q_envelope = e, q_generation = g\<rparr>"
  let ?r = "\<lparr>ro_generation = g, ro_cancellationId = env_cancellationId e\<rparr>"
  from assms(1) have canc: "env_cancellationId e = ow_cancellationId ow"
    and new: "map_of (ow_requests ow) (env_requestId e) = None"
    and ow1: "\<exists>op. ow1 = ow\<lparr>ow_operation := op, ow_requests := AList.update (env_requestId e) ?r (ow_requests ow)\<rparr>"
    by (auto simp: validateEnvelope_def Let_def split: if_splits intro: exI [of _ "ow_operation ow"])
  then obtain op where ow1': "ow1 = ow\<lparr>ow_operation := op,
    ow_requests := AList.update (env_requestId e) ?r (ow_requests ow)\<rparr>" by blast
  let ?o = "push_effect ?q ow1"
  have req: "request_ids ?o = insert (env_requestId e) (request_ids ow)"
    by (simp add: ow1' request_ids_def keys_update)
  have notin: "env_requestId e \<notin> request_ids ow"
    using new map_of_keys by (metis request_ids_def)
  have qs: "ow_queue ?o = ow_queue ow @ [?q] \<and> inline_list ?o = inline_list ow
      \<or> ow_queue ?o = ow_queue ow \<and> inline_list ?o = inline_list ow @ [?q]"
    by (auto simp: push_effect_def ow1' inline_list_def split: option.splits)
  have grow: "map_of (ow_requests ?o) k = Some v" if "map_of (ow_requests ow) k = Some v" for k v
    using that new by (auto simp: ow1' update_conv')
  have ext: "owner_ext ow ?o"
    using grow by (auto simp: owner_ext_def ow1' push_effect_def split: option.splits)
  have new_ok: "queued_ok ?o ?q"
    by (simp add: queued_ok_def request_ok_def ow1' update_conv' canc)
  have old_ok: "queued_ok ?o q" if "queued_ok ow q" for q
    using that request_ok_ext [OF ext] by (simp add: queued_ok_def ow1')
  have subs: "ow_subscriptions ?o = ow_subscriptions ow"
    by (simp add: ow1' push_effect_def split: option.splits)
  have "queues_ok ?o"
    using assms(2,3) qs new_ok old_ok req subs by (auto simp: queues_ok_def ow1')
  moreover have "account_ok i ?o log"
  proof -
    have "set (ids (ow_queue ow)) \<subseteq> request_ids ow" "set (ids (inline_list ow)) \<subseteq> request_ids ow"
      using assms(3) queued_ids by (auto simp: queues_ok_def ids_def)
    moreover have "ids (ow_queue ?o) = ids (ow_queue ow) @ [env_requestId e] \<and> ids (inline_list ?o) = ids (inline_list ow)
        \<or> ids (ow_queue ?o) = ids (ow_queue ow) \<and> ids (inline_list ?o) = ids (inline_list ow) @ [env_requestId e]"
      using qs by auto
    ultimately show ?thesis
      using account_add [where R = "request_ids ow"] assms(4) notin unfolding account_ok_def req by blast
  qed
  moreover have "same_view (ow\<lparr>ow_queue := ow_queue ?o, ow_inline := ow_inline ?o, ow_requests := ow_requests ?o\<rparr>) ?o"
    by (simp add: same_view_def ow1' push_effect_def split: option.splits)
  ultimately show ?thesis using ext by (simp add: admits_def)
qed

lemma admit_refused:
  assumes "validateEnvelope ow e g = (Inl err, ow1)" and "queues_ok ow" and "account_ok i ow log"
  shows "admits i log ow ow1"
proof -
  from assms(1) have "\<exists>op. ow1 = ow\<lparr>ow_operation := op\<rparr>"
    by (auto simp: validateEnvelope_def Let_def split: if_splits intro: exI [of _ "ow_operation ow"])
  then obtain op where "ow1 = ow\<lparr>ow_operation := op\<rparr>" by blast
  with assms(2,3) show ?thesis
    by (simp add: admits_def owner_ext_def queues_ok_def account_ok_def same_view_def request_ids_def
      inline_list_def queued_ok_def request_ok_def)
qed

lemma admits_trans: "admits i log a b \<Longrightarrow> admits i log b c \<Longrightarrow> admits i log a c"
  unfolding admits_def using owner_ext_trans by (auto simp: same_view_def)

lemma admit_effects_admits:
  assumes "admit_effects g es ow = (r, ow', d)" and "\<not> ow_terminal ow" and "queues_ok ow"
    and "account_ok i ow log"
  shows "admits i log ow ow' \<and> (\<forall>e \<in> set d. wiped e)"
  using assms
proof (induction g es ow rule: admit_effects.induct)
  case (1 g ow)
  then show ?case by (auto simp: admits_def same_view_def)
next
  case (2 g e es ow)
  obtain v ow1 where v: "validateEnvelope ow e g = (v, ow1)" by fastforce
  show ?case
  proof (cases v)
    case (Inl err)
    with v 2 admit_refused [of ow e g err ow1 i log] show ?thesis by auto
  next
    case (Inr u)
    let ?o = "push_effect \<lparr>q_envelope = e, q_generation = g\<rparr> ow1"
    from v Inr 2 have one: "admits i log ow ?o" by (intro admit_one) simp_all
    with v Inr 2 have "admits i log ?o ow' \<and> (\<forall>e \<in> set d. wiped e)"
      by (intro "2.IH" [OF v [symmetric] Inr]) (simp_all add: admits_def same_view_def)
    with one admits_trans show ?thesis by blast
  qed
qed

lemma evolves_admitted:
  assumes "evolves w0 w" and "known i w0" and "admits i (rt_log w) (rt_owner w i) ow'"
    and "\<forall>e \<in> set d. wiped e"
  shows "evolves w0 (emit (map (L_drop i) d) (upd i (\<lambda>_. ow') w))"
proof (rule evolves_change [OF assms(1)])
  show "i < rt_owners w0" using assms(2) by (simp add: known_def)
  show "owner_ext (rt_owner w i) ow'" using assms(3) by (simp add: admits_def)
  show "\<forall>l \<in> set (map (L_drop i) d). entry_owner l = i \<and> is_wiped_entry l"
    using assms(4) by (auto simp: is_wiped_entry_def)
  show "trace_ok (map (L_drop i) d @ rt_log w)" if "inv w" using that by (simp only: executed_drops inv_trace)
  let ?w = "emit (map (L_drop i) d) (upd i (\<lambda>_. ow') w)"
  assume inv: "owner_inv i w"
  have "account_ok i ow' (rt_log ?w)"
    using assms(3) by (simp add: admits_def account_ok_def) blast
  moreover have "ending_ok i ?w"
    using inv assms(3)
    by (simp add: admits_def same_view_def owner_inv_def ending_ok_def Let_def completion_reported_def active_here_def
      quiescent_def cleaned_def)
  ultimately show "owner_inv i ?w"
    using inv assms(3) by (simp add: owner_inv_def admits_def same_view_def)
qed

lemma evolves_enqueueEffects [evolve]:
  assumes "evolves w0 w" and "known i w0"
  shows "evolves w0 (snd (enqueueEffects i es g a w))"
proof (cases "ow_terminal (rt_owner w i) \<or> g \<noteq> ow_generation (rt_owner w i)")
  case True
  with assms show ?thesis by (simp add: enqueueEffects_def Let_def evolves_drop_effects)
next
  case False
  obtain r ow' d where ad: "admit_effects g es (rt_owner w i) = (r, ow', d)" by (metis surj_pair)
  have i: "i < rt_owners w" using known_evolves [OF assms(2,1)] by (simp add: known_def)
  then have "owner_inv i w" using assms(1) by (simp add: evolves_def inv_def)
  with admit_effects_admits [OF ad] False
  have adm: "admits i (rt_log w) (rt_owner w i) ow'" "\<forall>e \<in> set d. wiped e"
    by (auto simp: owner_inv_def)
  note fst = evolves_admitted [OF assms adm]
  have snd: "evolves w0 (upd i (\<lambda>_. ow') w)"
    using evolves_admitted [OF assms adm(1), of "[]"] by simp
  show ?thesis
    using False ad fst evolves_ensurePump [OF snd assms(2)] snd
    by (cases r) (auto simp: enqueueEffects_def Let_def)
qed

lemma evolves_enqueued:
  "evolves w0 w \<Longrightarrow> known i w0 \<Longrightarrow> enqueueEffects i es g a w = (r, w') \<Longrightarrow> evolves w0 w'"
  using evolves_enqueueEffects [of w0 w i es g a] by simp

lemma good_inline_end [evolve]:
  assumes "evolves w0 w" and "known i w0"
  shows "good w0 (inline_end i failures w)"
proof -
  have "evolves w0 (upd i (\<lambda>ow. ow\<lparr>ow_inline := None\<rparr>)
      (drop_effects i (map q_envelope (inline_list (rt_owner w i))) w))"
    by (rule evolves_drop_inline [OF assms, where k = "[]"]) (simp_all add: inline_list_def)
  then show ?thesis
    unfolding inline_end_def Let_def
    by (auto simp: inline_list_def split: list.splits intro: good_returned)
qed

lemma good_inline_loop [evolve]:
  assumes "evolves w0 w" and "known i w0"
  shows "good w0 (inline_loop i failures a w)"
proof (cases "ow_terminal (rt_owner w i)")
  case True
  with assms show ?thesis by (simp add: inline_loop_def Let_def good_inline_end)
next
  case False
  let ?ow = "rt_owner w i"
  let ?qs = "inline_list ?ow"
  let ?d = "drop_effects i (map q_envelope (stale_prefix (ow_generation ?ow) ?qs)) w"
  have def: "inline_loop i failures a w =
    (case fresh_rest (ow_generation ?ow) ?qs of
       [] \<Rightarrow> inline_end i failures (upd i (\<lambda>ow. ow\<lparr>ow_inline := Some []\<rparr>) ?d)
     | q # rest \<Rightarrow>
         andthen (executeEffect i q a (upd i (\<lambda>ow. ow\<lparr>ow_inline := Some rest\<rparr>) ?d)) [K_inline i failures])"
    by (simp only: inline_loop_def Let_def inline_list_def False if_False)
  show ?thesis
  proof (cases "fresh_rest (ow_generation ?ow) ?qs")
    case Nil
    then have "?qs = stale_prefix (ow_generation ?ow) ?qs @ []" using stale_fresh by metis
    then have "evolves w0 (upd i (\<lambda>ow. ow\<lparr>ow_inline := Some []\<rparr>) ?d)"
      by (rule evolves_drop_inline [OF assms]) (simp add: inline_list_def)
    with Nil assms(2) show ?thesis by (simp add: def good_inline_end)
  next
    case (Cons q rest)
    then have "?qs = stale_prefix (ow_generation ?ow) ?qs @ (q # rest)" using stale_fresh by metis
    then have "evolves w0 (upd i (\<lambda>ow. ow\<lparr>ow_inline := Some (q # rest)\<rparr>) ?d)"
      by (rule evolves_drop_inline [OF assms]) (simp add: inline_list_def)
    from good_executeEffect [OF this assms(2) refl, of q "\<lambda>ow. ow\<lparr>ow_inline := Some rest\<rparr>" a] False
      fresh_generation [OF Cons]
    have "good w0 (executeEffect i q a (upd i (\<lambda>ow. ow\<lparr>ow_inline := Some rest\<rparr>) ?d))"
      by (simp add: inline_list_def same_view_def upd_upd o_def)
    with Cons assms(2) show ?thesis
      by (auto simp: def plain_def intro!: good_andthen)
  qed
qed

lemma good_executeCancellationEffects [evolve]:
  assumes "evolves w0 w" and "known i w0"
  shows "good w0 (executeCancellationEffects i es g a w)"
proof (cases "ow_inline (rt_owner w i)")
  case None
  have "evolves w0 (upd i (\<lambda>ow. ow\<lparr>ow_inline := Some []\<rparr>) (drop_effects i (map q_envelope ([] :: queued_effect list)) w))"
    by (rule evolves_drop_inline [OF assms, where k = "[]"]) (simp_all add: inline_list_def None)
  then have "evolves w0 (upd i (\<lambda>ow. ow\<lparr>ow_inline := Some []\<rparr>) w)" by (simp add: drop_effects_def)
  note enq = evolves_enqueued [OF this assms(2)]
  with None assms(2) show ?thesis
    unfolding executeCancellationEffects_def
    by (auto split: prod.splits sum.splits intro!: good_inline_end good_inline_loop dest: enq)
qed (use assms in \<open>auto simp: executeCancellationEffects_def intro: good_returned\<close>)

section \<open>Continuations\<close>

lemma good_trivial:
  assumes "evolves w0 w"
  shows "good w0 (w, (Done r, []))"
  using assms by (rule good_returned)

lemma good_dispatched [evolve]:
  assumes "evolves w0 w" and "known i w0"
  shows "good w0 (dispatched i g r a w)"
  using assms evolves_enqueued [OF assms]
  unfolding dispatched_def by (auto split: sum.splits prod.splits intro!: good_returned evolves_discard_late)

lemma good_success_end:
  assumes "evolves w0 w" and "ended i w0" and "completing_ok i w0" and "quiescent i w0"
  shows "good w0 (success_end i r w)"
proof -
  have i: "known i w0" using assms(2) by (simp add: ended_def known_def)
  have a: "evolves w0 (note_completion_failure i r w)" by (rule evolves_completion_failure [OF assms(1) i])
  then have e: "quiescent i (note_completion_failure i r w)" "completing_ok i (note_completion_failure i r w)"
    using assms(2-4) by (auto simp: evolves_def intro: quiescent_ext completing_ok_ext)
  have "evolves w0 (settle_result i x (releaseOwner i (note_completion_failure i r w)))" for x
    using e by (intro evolves_end [OF a assms(2)])
  then show ?thesis unfolding success_end_def Let_def by (rule good_returned)
qed

lemma good_failed_end:
  assumes "evolves w0 w" and "ended i w0" and "quiescent i w0"
  shows "good w0 (failure_end i e w)" and "good w0 (cancelled_end i r w)"
proof -
  have "quiescent i w" using assms by (auto simp: evolves_def intro: quiescent_ext)
  then have "evolves w0 (settle_result i (Inl x) (releaseOwner i w))" for x
    by (intro evolves_end [OF assms(1,2)]) simp_all
  then show "good w0 (failure_end i e w)" "good w0 (cancelled_end i r w)"
    unfolding failure_end_def cancelled_end_def Let_def by (auto intro: good_returned)
qed

lemma good_begin_cleanup:
  assumes "evolves w0 w" and "known i w0" and "frame_ok w0 f" and "end_of f = None"
  shows "good w0 (andthen (cleanupAndSettle i b (beginCancellation i w)) [f])"
  using assms by (intro good_andthen good_cleanupAndSettle evolves_beginCancellation) (simp_all add: plain_def)

lemma good_claimed [evolve]:
  assumes "evolves w0 w" and "known i w0"
  shows "good w0 (cancel_claimed i r w)" and "good w0 (caf_claimed i e r w)"
  using assms good_begin_cleanup [OF assms]
  unfolding cancel_claimed_def caf_claimed_def
  by (auto split: sum.splits val.splits bool.splits intro!: good_returned good_W good_finishFailure)

lemma good_cancel_core [evolve]:
  assumes "evolves w0 w" and "known i w0"
  shows "good w0 (cancel_core i ce r a w)"
  using assms evolves_enqueued [OF assms]
  unfolding cancel_core_def
  by (auto split: sum.splits prod.splits option.splits simp: wait_ok_def plain_def
    intro!: good_waits good_andthen good_finishFailure)

lemma good_cancel_final [evolve]:
  "evolves w0 w \<Longrightarrow> good w0 (cancel_final i ce r w)"
  unfolding cancel_final_def by (auto split: sum.splits intro: good_returned)

lemma good_caf_core [evolve]:
  assumes "evolves w0 w" and "known i w0"
  shows "good w0 (caf_core i e r a w)"
  using assms unfolding caf_core_def
  by (auto split: sum.splits simp: plain_def intro!: good_andthen good_finishFailure good_executeCancellationEffects)

lemma good_scan_resumed [evolve]:
  assumes "evolves w0 w" and "context_ok w0 ctx"
  shows "good w0 (scan_resumed ctx r w)"
  using assms unfolding scan_resumed_def Let_def
  by (auto split: sum.splits val.splits intro!: good_returned good_scan_loop)

lemma good_connect_resumed [evolve]:
  assumes "evolves w0 w" and "context_ok w0 ctx"
  shows "good w0 (connect_resumed ctx d n t r w)"
proof (cases "r = Inr V_cancelled")
  case True
  with assms show ?thesis
    unfolding connect_resumed_def new_ticket_split
    by (auto simp del: spawn.simps simp: wait_ok_def plain_def
      intro!: good_W evolves_spawn good_waits evolves_field_updates evolves_ticket)
next
  case False
  define w1 where "w1 = (if map_of (rt_attempts w) (dev_id d) = Some n
    then w\<lparr>rt_attempts := AList.delete (dev_id d) (rt_attempts w)\<rparr> else w)"
  have "evolves w0 w1" using assms(1) by (simp add: w1_def evolves_field_updates)
  with False assms(2) show ?thesis
    unfolding connect_resumed_def Let_def w1_def [symmetric]
    by (auto split: sum.splits val.splits intro!: good_ble_failure good_W good_answer_event evolves_field_updates)
qed

lemma good_connection_settled [evolve]:
  "evolves w0 w \<Longrightarrow> good w0 (connection_settled d n s w)"
  unfolding connection_settled_def Let_def
  by (auto intro!: good_returned evolves_settle_ticket evolves_field_updates)

lemma good_connection_settle [evolve]:
  "evolves w0 w \<Longrightarrow> good w0 (connection_settle d n s r w)"
  unfolding connection_settle_def
  by (auto intro!: good_waits good_connection_settled simp: wait_ok_def plain_def)

lemma good_step_answer [evolve]:
  "evolves w0 w \<Longrightarrow> context_ok w0 ctx \<Longrightarrow> good w0 (step_answer ctx f r w)"
  unfolding step_answer_def
  by (auto split: sum.splits val.splits intro: good_returned good_answer_event good_ble_failure)

lemma good_disconnect_resumed [evolve]:
  "evolves w0 w \<Longrightarrow> context_ok w0 ctx \<Longrightarrow> good w0 (disconnect_resumed ctx r w)"
  unfolding disconnect_resumed_def
  by (auto split: sum.splits val.splits intro: good_returned good_disconnect_end good_ble_failure)

lemma good_subscribe_end [evolve]:
  assumes "evolves w0 w" and "context_ok w0 ctx"
  shows "good w0 (subscribe_end ctx t w)"
proof (cases "\<exists>s c. env_effect (ctx_envelope ctx) = E_ble_subscribe s c")
  case True
  with assms show ?thesis unfolding subscribe_end_def Let_def
    by (auto simp: plain_def context_known
      intro!: good_andthen good_answer_event evolves_decide evolves_addCleanup evolves_subscribed)
next
  case False
  with assms(1) show ?thesis unfolding subscribe_end_def Let_def
    by (cases "env_effect (ctx_envelope ctx)") (auto intro: good_returned)
qed

lemma good_subscribe_resumed [evolve]:
  assumes "evolves w0 w" and "context_ok w0 ctx"
  shows "good w0 (subscribe_resumed ctx t s r w)"
  using assms unfolding subscribe_resumed_def Let_def
  by (auto split: sum.splits val.splits simp: context_known
    intro!: good_returned good_ble_failure evolves_decide good_W good_subscribe_end)

lemma good_setup_resumed [evolve]:
  "evolves w0 w \<Longrightarrow> known i w0 \<Longrightarrow> good w0 (setup_resumed i g t r w)"
  unfolding setup_resumed_def
  by (auto split: sum.splits intro!: good_returned good_waits simp: wait_ok_def plain_def)

lemma good_setup_decided [evolve]: "evolves w0 w \<Longrightarrow> good w0 (setup_decided i g r w)"
  unfolding setup_decided_def Let_def by (auto intro: good_returned good_W)

lemma good_host_resumed [evolve]:
  "evolves w0 w \<Longrightarrow> context_ok w0 ctx \<Longrightarrow> good w0 (host_resumed ctx r w)"
  unfolding host_resumed_def
  by (auto split: sum.splits val.splits intro: good_returned good_events_loop)

lemma evolves_active:
  assumes "evolves w0 w" and "\<nexists>i. rt_active w = Some (Workflow i)" and "\<nexists>i. x = Some (Workflow i)"
  shows "evolves w0 (w\<lparr>rt_active := x\<rparr>)"
proof (rule evolves_step [OF assms(1)])
  have inv: "inv w" using assms(1) by (simp add: evolves_def)
  show "global_inv (w\<lparr>rt_active := x\<rparr>)"
    using inv assms(3) unfolding inv_def global_inv_def active_here_def context_ok_def by auto
  show "owner_inv i (w\<lparr>rt_active := x\<rparr>)" if "i < rt_owners (w\<lparr>rt_active := x\<rparr>)" for i
    using inv assms(2,3) that by (auto simp: inv_def owner_inv_def ending_ok_def Let_def active_here_def
      quiescent_def cleaned_def)
qed (simp_all add: ext_def)

lemma good_direct_end [evolve]:
  assumes "evolves w0 w"
  shows "good w0 (direct_end d r w)"
  using assms unfolding direct_end_def Let_def
  by (auto intro!: good_returned evolves_upd_direct evolves_active)

lemma good_handoff:
  assumes "evolves w0 w" and "completing_ok i w0"
  shows "good w0 (resume (K_handoff i) r a w)"
proof -
  have i: "known i w0" using assms(2) by (simp add: completing_ok_def known_def)
  let ?w = "make_terminal i False False (note_completion_failure i r w)"
  have ev: "evolves w0 (note_completion_failure i r w)" by (rule evolves_completion_failure [OF assms(1) i])
  then have "completing_ok i (note_completion_failure i r w)"
    using assms(2) by (auto simp: evolves_def intro: completing_ok_ext)
  then have "frame_ok ?w (K_success_end i)"
    by (simp add: completing_ok_def make_terminal_ended) (simp add: make_terminal_eq)
  with ev i show ?thesis by (auto intro!: good_ending evolves_make_terminal)
qed

lemma good_resume:
  assumes "evolves w0 w" and f: "frame_ok w0 f" and "stage_of f = None"
    and "\<And>i. end_of f = Some i \<Longrightarrow> quiescent i w0"
  shows "good w0 (resume f r a w)"
proof (cases f)
  case (K_handoff i)
  with f show ?thesis using good_handoff [OF assms(1)] by simp
next
  case (K_pump_finally i)
  have "evolves w0 (upd i (\<lambda>ow. ow\<lparr>ow_pumping := False\<rparr>) w)"
    using assms K_pump_finally by (intro evolve) (simp_all add: same_view_def)
  with K_pump_finally f show ?thesis by (auto simp: Let_def intro!: good_returned evolves_ensurePump)
next
  case (K_settle_failure i)
  then show ?thesis using assms by (auto intro!: good_returned evolves_upd simp: same_view_def)
next
  case (K_settle_cancel i)
  then show ?thesis using assms by (auto intro!: good_returned evolves_upd simp: same_view_def)
next
  case (K_unsubscribe i rest q)
  have "evolves w0 (upd i (\<lambda>ow. ow\<lparr>ow_subscriptions := AList.delete q (ow_subscriptions ow)\<rparr>) w)"
    using assms K_unsubscribe by (intro evolves_subscriptions_shrink) (simp_all add: same_view_def delete_subset)
  with K_unsubscribe f assms show ?thesis by (auto split: sum.splits intro!: good_returned good_unsubscribe_loop)
next
  case (K_catch_fail i)
  then show ?thesis using assms
    by (auto split: sum.splits simp del: spawn.simps intro!: good_returned evolves_spawn good_failOwner)
next
  case (K_success_end i)
  with assms show ?thesis by (simp add: good_success_end)
next
  case (K_setup_end i s)
  with assms show ?thesis by (auto intro!: good_returned evolves_settle_ticket evolves_setup_ends)
qed (use assms in \<open>auto split: sum.splits simp: wait_ok_def plain_def known_def
    intro!: good_returned good_andthen good_waits good_pump good_failOwner good_dispatched good_failed_end
      good_claim_loop good_claimed good_cancel_core good_cancel_final good_caf_core good_finishFailure
      good_inline_loop good_host_cancel_loop good_cleanup_loop good_scan_resumed good_scan_loop
      good_connect_resumed good_connection_settled good_connection_settle good_step_answer
      good_disconnect_resumed good_ble_failure good_subscribe_resumed good_setup_resumed good_setup_decided
      good_host_resumed good_events_loop good_direct_end evolves_settle_ticket evolves_settle_completion
      evolves_wipe_payload evolves_discard_late evolves_cleanup_settles\<close>)

section \<open>The stages of \<open>cleanupAndSettle\<close>\<close>

lemma cleanup_waits:
  "i < rt_owners w \<Longrightarrow> wait_outcome (W_cleanup i) a w = Some r \<Longrightarrow> cleaned i w"
  by (auto simp: settled_outcome_def cleaned_def split: option.splits settlement.splits)

lemma cleanupOwner_shape:
  "\<exists>w'. cleanupOwner i ch w = (w', (W_cleanup i, []))"
  by (simp add: cleanupOwner_def Let_def)

lemma ended_writes_evolve:
  "evolves w w' \<Longrightarrow> ended i w \<Longrightarrow> ow_writes (rt_owner w i) = [] \<Longrightarrow> ow_writes (rt_owner w' i) = []"
  unfolding evolves_def using ended_lists_ext(1) by blast

lemma end_after_stage:
  assumes "frame_ok w e" and "end_of e = Some i"
  shows "ended i w" and "known i w"
  using end_frame_ended [OF assms] by (auto simp: ended_def known_def)

text \<open>
  A stage resumes: either an ordinary continuation follows, or the one that settles the result, and then
  the stage reached so far is the assertion of the next.
\<close>

lemma good_stage_plain:
  assumes "evolves w w" and "frame_ok w s" and "stage_of s = Some i" and "list_all (frame_ok w) fs" and "plain fs"
  shows "good w (andthen (resume s r a w) fs)"
proof (intro good_andthen assms(4,5))
  show "good w (resume s r a w)"
    using assms(1-3)
    by (cases s) (auto split: option.splits simp: wait_ok_def plain_def
      intro!: good_andthen good_cleanupOwner good_waits good_returned)
qed

lemma good_stage_end:
  assumes ev: "evolves w w" and s: "frame_ok w s" "stage_of s = Some i" "stage_ok w (Done r) s"
    and e: "end_of e = Some i" "frame_ok w e" and fs: "list_all (frame_ok w) fs" "plain fs"
  shows "good w (andthen (resume s r a w) (e # fs))"
proof -
  have i: "ended i w" "known i w" using end_after_stage [OF e(2,1)] by auto
  show ?thesis
  proof (cases s)
    case (K_cs_writes j c)
    with s have j: "j = i" and wr: "ow_writes (rt_owner w i) = []" by (auto simp: is_done_def)
    obtain w' where c: "cleanupOwner i c w = (w', (W_cleanup i, []))" using cleanupOwner_shape by blast
    have "good w (cleanupOwner i c w)" by (rule good_cleanupOwner [OF ev i(2)])
    then have ev': "evolves w w'" by (simp add: good_def c)
    then have ext: "ext w w'" by (simp add: evolves_def)
    have "ow_writes (rt_owner w' i) = []" by (rule ended_writes_evolve [OF ev' i(1) wr])
    then have "form_ok w' (W_cleanup i) (K_cs_cleanup i f # e # fs)" for f
      using e(1) fs(2) by (simp add: plain_def)
    moreover have "frame_ok w' e" "list_all (frame_ok w') fs" "known i w'"
      using frame_ok_ext [OF ext e(2)] frames_ok_ext [OF ext fs(1)] known_ext [OF ext i(2)] by auto
    ultimately show ?thesis
      using ev' K_cs_writes j c by (simp add: good_def wait_ok_def)
  next
    case (K_cs_cleanup j f)
    with s e fs i ev show ?thesis by (auto simp: good_def wait_ok_def is_done_def)
  next
    case (K_cs_setups j f)
    with s e fs i ev show ?thesis by (auto simp: good_def wait_ok_def is_done_def)
  next
    case (K_cs_externals j f)
    with s have "j = i" "quiescent i w" by (auto simp: is_done_def quiescent_def)
    with K_cs_externals e fs ev show ?thesis
      by (auto simp: good_def wait_ok_def is_done_def split: option.splits)
  qed (use s(2) in simp_all)
qed

lemma stage_end_None: "stage_of f = Some i \<Longrightarrow> end_of f = None"
  by (cases f) auto

lemma good_resume_thread:
  assumes ev: "evolves w w" and t: "thread_ok w (Done r, f # fs)"
  shows "good w (andthen (resume f r a w) fs)"
proof (cases "stage_of f")
  case None
  have "plain fs"
  proof (cases "end_of f")
    case n: None
    with t None show ?thesis by (cases fs) (auto simp: plain_def)
  qed (use t in simp)
  moreover have "quiescent i w" if "end_of f = Some i" for i using t that by simp
  ultimately show ?thesis using t None ev by (intro good_andthen good_resume) auto
next
  case (Some i)
  with t stage_end_None [OF Some] have form: "case fs of [] \<Rightarrow> True
    | e # rest \<Rightarrow> plain rest \<and> (end_of e \<noteq> None \<longrightarrow> Some i = end_of e \<and> stage_ok w (Done r) f)" by (cases fs) auto
  show ?thesis
  proof (cases "plain fs")
    case True
    with t Some ev show ?thesis by (intro good_stage_plain) auto
  next
    case False
    then obtain e rest where fs: "fs = e # rest" by (cases fs) (auto simp: plain_def)
    with False form have "end_of e = Some i" "stage_ok w (Done r) f" "plain rest" by (auto simp: plain_def)
    with t Some ev fs show ?thesis by (auto intro!: good_stage_end)
  qed
qed

section \<open>Waiting\<close>

lemma wait_form:
  assumes "form_ok w wt fs" and "wait_outcome wt a w = Some r" and "list_all (frame_ok w) fs"
  shows "form_ok w (Done r) fs"
proof (cases fs)
  case (Cons f rest)
  have nd: "\<not> is_done wt" using assms(2) by (cases wt) (auto simp: is_done_def)
  with assms(1) Cons have f: "end_of f = None" by (auto split: option.splits)
  show ?thesis
  proof (cases rest)
    case Nil
    with Cons f show ?thesis by simp
  next
    case (Cons e rest')
    have "stage_ok w (Done r) f" if "stage_ok w wt f" "known i w" "stage_of f = Some i" for i
      using that nd assms(2) cleanup_waits [of i w a r]
      by (cases f) (auto simp: is_done_def known_def split: if_splits)
    moreover have "known i w" if "end_of e = Some i" for i
      using end_after_stage [of w e i] that assms(3) \<open>fs = f # rest\<close> Cons by simp
    ultimately show ?thesis using assms(1) f \<open>fs = f # rest\<close> Cons by auto
  qed
qed simp

lemma core_form: "form_ok w (W_core c) fs \<Longrightarrow> plain fs"
  by (cases fs; cases "end_of (hd fs)")
    (auto simp: is_done_def plain_def split: list.splits elim!: stage_ok.elims)

lemma thread_ok_done:
  assumes "evolves w w" and "thread_ok w (wt, fs)" and "satisfy wt a w = Some (w', r)"
  shows "good w (w', (Done r, fs))"
proof (cases "\<exists>c. wt = W_core c")
  case True
  then obtain c where c: "wt = W_core c" by blast
  have "evolves w (fst (core_body c a w))"
    using assms(1,2) c by (intro evolves_core_body) (auto simp: wait_ok_def)
  with assms c have "evolves w w'" by (auto simp: satisfy_def)
  moreover have "plain fs" using assms(2) c core_form by auto
  ultimately show ?thesis using assms(2) by (intro good_waits) (auto simp: wait_ok_def)
next
  case False
  then have "satisfy wt a w = map_option (Pair w) (wait_outcome wt a w)"
    by (cases wt) (auto simp: satisfy_def simp del: wait_outcome.simps)
  with assms(3) have "w' = w" "wait_outcome wt a w = Some r" by auto
  with assms(1,2) wait_form show ?thesis by (auto simp: good_def wait_ok_def)
qed

lemma evolves_replace:
  assumes "good w0 (w, t)"
  shows "evolves w0 (w\<lparr>rt_threads := (rt_threads w)[k := t]\<rparr>)"
proof -
  let ?w = "w\<lparr>rt_threads := (rt_threads w)[k := t]\<rparr>"
  have same: "global_inv ?w = global_inv w" "\<And>i. owner_inv i ?w = owner_inv i w"
    by (simp_all add: global_inv_def active_here_def context_ok_def owner_inv_def ending_ok_def
      quiescent_def cleaned_def)
  have ext: "ext w ?w" by (simp add: ext_def)
  from assms have w: "inv w" "ext w0 w" "thread_ok w t" by (auto simp: good_def evolves_def)
  have "thread_ok w u" if "u \<in> set ((rt_threads w)[k := t])" for u
    using w that set_update_subset_insert [of "rt_threads w" k t] by (auto simp: inv_def)
  then have "\<forall>u \<in> set (rt_threads ?w). thread_ok ?w u" using thread_ok_ext [OF ext] by simp
  with w same have "inv ?w" by (simp add: inv_def)
  moreover have "ext w0 ?w" using w(2) ext by (rule ext_trans)
  ultimately show ?thesis by (simp add: evolves_def)
qed

section \<open>The calls of the client\<close>

lemma fresh_log:
  assumes "inv w" and "i = rt_owners w"
  shows "executed i (rt_log w) = []" "dropped i (rt_log w) = []" "settles i (rt_log w) = []"
    "cancellations i (rt_log w) = 0"
proof -
  have "\<forall>l \<in> set (rt_log w). entry_owner l \<noteq> i" using assms by (auto simp: inv_def global_inv_def)
  then show "executed i (rt_log w) = []" "dropped i (rt_log w) = []" "settles i (rt_log w) = []"
    "cancellations i (rt_log w) = 0"
    by (auto simp: executed_def dropped_def settles_def cancellations_def filter_empty_conv split: log_entry.splits)
qed

lemma fresh_reports:
  assumes "inv w"
  shows "reports_ok (rt_owners w) None None (rt_log w)"
proof -
  have "\<forall>l \<in> set (rt_log w). entry_owner l < rt_owners w" using assms by (simp add: inv_def global_inv_def)
  then have "units_told (rt_owners w) (rt_log w) = []" "firmware_told (rt_owners w) (rt_log w) = []"
    by (auto simp: units_told_def firmware_told_def split: log_entry.splits)
  then show ?thesis by (simp add: reports_ok_def units.kept_none firmware.kept_none)
qed

definition with_owner :: "owner \<Rightarrow> runtime \<Rightarrow> runtime" where
  "with_owner ow w =
     upd (rt_owners w) (\<lambda>_. ow) (w\<lparr>rt_owners := rt_owners w + 1, rt_active := Some (Workflow (rt_owners w))\<rparr>)"

lemma evolves_new_owner:
  assumes "evolves w0 w" and "\<nexists>i. rt_active w = Some (Workflow i)"
  shows "evolves w0 (with_owner (new_owner operationId cancellationId hosts handoff ds) w)"
    (is "evolves w0 ?w")
proof (rule evolves_step [OF assms(1)])
  let ?i = "rt_owners w"
  have inv: "inv w" using assms(1) by (simp add: evolves_def)
  show ext: "ext w ?w" by (auto simp: ext_def with_owner_def)
  show "rt_threads ?w = rt_threads w" by (simp add: with_owner_def)
  show "global_inv ?w"
    using inv context_ok_ext [OF ext] unfolding inv_def global_inv_def
    by (auto simp: with_owner_def active_here_def less_Suc_eq)
  show "owner_inv j ?w" if "j < rt_owners ?w" for j
  proof (cases "j = ?i")
    case True
    have "owner_inv ?i ?w"
      using fresh_log [OF inv refl] fresh_reports [OF inv]
      by (simp add: with_owner_def new_owner_def owner_inv_def queues_ok_def account_ok_def ending_ok_def
        request_ids_def inline_list_def active_here_def)
    with True show ?thesis by simp
  next
    case False
    with that have j: "j < ?i" by (simp add: with_owner_def)
    with inv assms(2) have "ow_result (rt_owner w j) \<noteq> None" "owner_inv j w"
      by (auto simp: inv_def owner_inv_def ending_ok_def Let_def active_here_def)
    with False show ?thesis
      by (simp add: with_owner_def owner_inv_def ending_ok_def Let_def active_here_def quiescent_def cleaned_def)
  qed
qed

lemma evolves_run:
  assumes "evolves w0 w"
  shows "evolves w0 (snd (run operationId cancellationId hosts handoff a w))"
proof (cases "ownership_free (operationFromId operationId) w = Inr ()
    \<and> length operationId \<noteq> 0 \<and> length cancellationId = 16")
  case True
  let ?i = "rt_owners w"
  let ?w = "with_owner (new_owner operationId cancellationId hosts handoff (map fst (rt_devices w))) w"
  from True have free: "rt_active w = None" by (auto simp: ownership_free_def split: if_splits)
  then have ev: "evolves w0 ?w" by (intro evolves_new_owner [OF assms]) simp
  have self: "evolves ?w ?w" using ev by (simp add: evolves_def)
  have i: "known ?i ?w" by (simp add: known_def with_owner_def)
  have "evolves ?w w2" if "enqueueEffects ?i es 0 a ?w = (r, w2)" for es r w2
    using evolves_enqueued [OF self i that] .
  then have *: "evolves w0 w2" "evolves ?w w2" if "enqueueEffects ?i es 0 a ?w = (r, w2)" for es r w2
    using that ev evolves_trans by blast+
  have fail: "evolves w0 (spawn (failOwner ?i e w2))" if "evolves ?w w2" for e w2
    using that i ev evolves_trans by (meson evolves_spawn good_failOwner)
  have run: "run operationId cancellationId hosts handoff a w =
    (Inr ?i,
     case (case in_effects a of
             Inl e \<Rightarrow> (Inl e, ?w)
           | Inr effects \<Rightarrow>
               (case enqueueEffects ?i effects 0 a ?w of
                  (Inl e, w2) \<Rightarrow> (Inl (SdkErr e), w2) | (Inr u, w2) \<Rightarrow> (Inr u, w2))) of
       (Inl e, w2) \<Rightarrow> spawn (failOwner ?i e w2)
     | (Inr _, w2) \<Rightarrow> w2)"
    unfolding with_owner_def run_def Let_def using True by simp
  show ?thesis
  proof (cases "in_effects a")
    case (Inl e)
    then show ?thesis using fail [OF self] by (simp add: run)
  next
    case (Inr effects)
    obtain v w2 where e: "enqueueEffects ?i effects 0 a ?w = (v, w2)" by fastforce
    with * [OF e] fail [of w2] Inr show ?thesis by (cases v) (simp_all add: run)
  qed
next
  case False
  then have "snd (run operationId cancellationId hosts handoff a w) = w"
    by (auto simp: run_def Let_def split: sum.splits)
  with assms show ?thesis by simp
qed

lemma evolves_cancel [evolve]:
  assumes "evolves w w"
  shows "evolves w (cancelWorkflow operationId w)"
proof (cases "rt_active w")
  case (Some o')
  show ?thesis
  proof (cases o')
    case (Workflow i)
    with Some assms have "known i w"
      by (auto simp: evolves_def inv_def global_inv_def active_here_def known_def)
    with Some Workflow assms show ?thesis
      by (auto simp: cancelWorkflow_def simp del: spawn.simps intro!: evolves_spawn good_enterCancellation)
  qed (use assms Some in \<open>simp add: cancelWorkflow_def\<close>)
qed (use assms in \<open>simp add: cancelWorkflow_def\<close>)

lemma evolves_runExclusive:
  assumes "evolves w0 w"
  shows "evolves w0 (snd (runExclusive operation w))"
proof (cases "ownership_free operation w")
  case (Inr u)
  then have free: "rt_active w = None" by (auto simp: ownership_free_def split: if_splits)
  have "evolves w0 (w\<lparr>rt_directs := rt_directs w + 1\<rparr>)" using assms by (rule evolve)
  then have "evolves w0 (w\<lparr>rt_directs := rt_directs w + 1, rt_active := Some (Direct (rt_directs w))\<rparr>)"
    using free by (intro evolves_active) simp_all
  then have "evolves w0 (w\<lparr>rt_directs := rt_directs w + 1, rt_active := Some (Direct (rt_directs w))\<rparr>)"
    by simp
  with Inr show ?thesis
    by (auto simp: runExclusive_def Let_def wait_ok_def plain_def simp del: spawn.simps
      intro!: evolves_spawn good_waits evolves_upd_direct)
qed (use assms in \<open>simp add: runExclusive_def\<close>)

lemma evolves_handoff_run:
  assumes "evolves w0 w"
  shows "evolves w0 (snd (handoff_run d operationId cancellationId hosts handoff a w))"
proof (cases "rt_active w = Some (Direct d)")
  case True
  then have "evolves w0 (w\<lparr>rt_active := None\<rparr>)" by (intro evolves_active [OF assms]) simp_all
  from evolves_run [OF this] assms show ?thesis by (auto simp: handoff_run_def Let_def)
qed (use assms in \<open>simp add: handoff_run_def Let_def\<close>)

lemma evolves_destroy:
  assumes "evolves w w"
  shows "evolves w (destroy w)"
proof -
  let ?w = "w\<lparr>rt_destroyed := True\<rparr>"
  have ev: "evolves w ?w" using assms by (rule evolve)
  then have "evolves ?w (cancelWorkflow x ?w)" for x by (intro evolves_cancel) (simp add: evolves_def)
  with ev have c: "evolves w (cancelWorkflow x ?w)" for x using evolves_trans by blast
  show ?thesis
    using assms ev c
    by (auto simp: destroy_def Let_def wait_ok_def plain_def simp del: spawn.simps
      split: option.splits active_owner.splits intro!: evolves_spawn good_waits evolves_upd_direct)
qed

lemma evolves_markDeviceDisconnected:
  assumes "evolves w w"
  shows "evolves w (markDeviceDisconnected deviceId w)"
proof -
  define w1 where "w1 = (if rt_poisoned w = Some deviceId then w\<lparr>rt_poisoned := None\<rparr> else w)"
  let ?w = "w1\<lparr>rt_connected := None\<rparr>"
  have w1: "evolves w w1" using assms by (simp add: w1_def evolves_field_updates)
  then have ev: "evolves w ?w" by (rule evolve)
  have thr: "evolves w (spawn (andthen (dispatchDeviceDisconnected i deviceId g ?w) [K_catch_fail i]))"
    if "rt_active ?w = Some (Workflow i)" for i g
  proof (intro evolves_spawn good_trans [OF ev] good_andthen)
    have inv: "inv ?w" and self: "evolves ?w ?w" using ev by (simp_all add: evolves_def)
    with that have i: "known i ?w" by (auto simp: inv_def global_inv_def active_here_def known_def)
    show "list_all (frame_ok ?w) [K_catch_fail i]" "plain [K_catch_fail i]" using i by (simp_all add: plain_def)
    have sub: "fst ` set (ow_subscriptions (rt_owner ?w i)) \<subseteq> request_ids (rt_owner ?w i)"
      using inv i by (simp only: inv_def owner_inv_def queues_ok_def known_def)
    have "r \<in> request_ids (rt_owner ?w i)"
      if "map fst (ow_subscriptions (rt_owner ?w i)) @ map fst (ow_requests (rt_owner ?w i)) = r # rs" for r rs
    proof -
      have "r \<in> fst ` set (ow_subscriptions (rt_owner ?w i)) \<union> fst ` set (ow_requests (rt_owner ?w i))"
        using arg_cong [OF that, of set] by auto
      with sub show ?thesis by (auto simp: request_ids_def)
    qed
    with self i show "good ?w (dispatchDeviceDisconnected i deviceId g ?w)"
      unfolding dispatchDeviceDisconnected_def Let_def
      by (auto split: list.splits simp: wait_ok_def plain_def known_def intro!: good_returned good_waits)
  qed
  show ?thesis
    using w1 ev thr unfolding markDeviceDisconnected_def Let_def w1_def [symmetric]
    by (auto split: option.splits active_owner.splits simp del: spawn.simps intro!: evolves_upd_direct)
qed

section \<open>Every step\<close>

lemma evolves_timer_fired:
  assumes "evolves w w" and "(h, ctx, t) \<in> set (rt_armed w)"
  shows "evolves w (timer_fired h (ctx, t) w)"
proof -
  have ctx: "context_ok w ctx"
    using assms unfolding evolves_def inv_def global_inv_def by auto
  then have i: "known (ctx_owner ctx) w" by (rule context_known)
  have "evolves w (upd (ctx_owner ctx) (\<lambda>ow. ow\<lparr>ow_timers := AList.delete t (ow_timers ow)\<rparr>)
      (w\<lparr>rt_armed := AList.delete h (rt_armed w)\<rparr>))"
    using assms(1) i by (intro evolve delete_subset) (simp_all add: same_view_def)
  with ctx i show ?thesis
    unfolding timer_fired_def Let_def
    by (auto simp: plain_def simp del: spawn.simps intro!: evolves_spawn good_andthen good_answer_event)
qed

lemma evolves_act:
  assumes inv: "inv w" and act: "act x a w = Some w'"
  shows "evolves w w'"
proof -
  have ev: "evolves w w" by (rule evolves_refl [OF inv])
  have ctx: "context_ok w ctx" if "ctx \<in> set (rt_contexts w)" for ctx
    using inv that by (simp add: inv_def global_inv_def)
  show ?thesis
  proof (cases x)
    case (A_await k)
    then obtain wt fs w1 r where k: "k < length (rt_threads w)" "rt_threads w ! k = (wt, fs)"
      and s: "satisfy wt a w = Some (w1, r)" and w': "w' = w1\<lparr>rt_threads := (rt_threads w1)[k := (Done r, fs)]\<rparr>"
      using act by (auto split: if_splits prod.splits)
    have "thread_ok w (wt, fs)" using inv k by (metis inv_def nth_mem)
    from thread_ok_done [OF ev this s] show ?thesis unfolding w' by (rule evolves_replace)
  next
    case (A_resume k)
    then obtain r f fs w1 t where k: "k < length (rt_threads w)" "rt_threads w ! k = (Done r, f # fs)"
      and s: "andthen (resume f r a w) fs = (w1, t)" and w': "w' = w1\<lparr>rt_threads := (rt_threads w1)[k := t]\<rparr>"
      using act by (auto split: if_splits prod.splits wait.splits list.splits)
    have "thread_ok w (Done r, f # fs)" using inv k by (metis inv_def nth_mem)
    from good_resume_thread [OF ev this, of a] show ?thesis unfolding w' s by (rule evolves_replace)
  next
    case (A_settle t)
    with act ev show ?thesis by (auto split: if_splits intro!: evolves_settle_ticket evolves_field_updates)
  next
    case (A_untrack i t)
    with act ev show ?thesis by (auto split: if_splits simp: known_def intro!: evolves_untrack)
  next
    case (A_fire h)
    with act obtain ctx t where "map_of (rt_armed w) h = Some (ctx, t)" "w' = timer_fired h (ctx, t) w" by auto
    then show ?thesis using evolves_timer_fired [OF ev] map_of_SomeD by fastforce
  next
    case (A_notification c bs)
    with act ctx ev show ?thesis
      by (auto simp: notified_def plain_def context_known simp del: spawn.simps
        split: if_splits core_effect.splits intro!: evolves_spawn good_andthen good_answer_event)
  next
    case (A_host_dispatch c event)
    with act ctx ev show ?thesis
      by (auto simp del: spawn.simps split: if_splits intro!: evolves_spawn good_dispatch)
  next
    case (A_host_cleanup c)
    with act ctx ev show ?thesis by (auto split: if_splits intro!: evolves_addCleanup context_known)
  next
    case (A_run operationId cancellationId hosts handoff)
    with act evolves_run [OF ev] show ?thesis by auto
  next
    case (A_handoff_run d operationId cancellationId hosts handoff)
    with act evolves_handoff_run [OF ev] show ?thesis by (auto split: if_splits)
  next
    case (A_exclusive operation)
    with act evolves_runExclusive [OF ev] show ?thesis by auto
  next
    case (A_disconnected d)
    with act evolves_markDeviceDisconnected [OF ev] show ?thesis by auto
  qed (use act ev in \<open>auto simp: registerDevice_def unregisterDevice_def poisonBleOwnership_def
      claimCharacteristicLease_def release_lease_def Let_def
      intro!: evolves_cancel evolves_destroy evolves_field_updates\<close>)
qed

theorem reachable_inv: "reachable w \<Longrightarrow> inv w"
proof (induction rule: reachable.induct)
  case initial
  show ?case by (simp add: inv_def initial_runtime_def global_inv_def active_here_def)
next
  case (step w x a w')
  with evolves_act show ?case by (auto simp: evolves_def)
qed

end
