(* ===== verification/OwnerTokens.thy ===== *)
theory OwnerTokens
  imports OwnerOps
begin

text \<open>
  Things that may happen once.  A continuation that has the right to do something carries a token; the
  \<open>budget\<close> of an owner counts its tokens together with what its flags say has been done.  No operation
  raises a budget.  The interface is the locale \<open>token_budget\<close>: which weights two kinds of token have
  and how the flags account for them.  It is used for the start of a cancellation (\<open>cancelPromise\<close> and
  the generation) and for the pump (\<open>pumping\<close>).
\<close>

section \<open>Budgets\<close>

text \<open>\<open>a\<close>: the weight of the right to begin the cancellation; \<open>p\<close>: of a running pump.\<close>

fun weight :: "nat \<Rightarrow> nat \<Rightarrow> nat \<Rightarrow> frame \<Rightarrow> nat" where
  "weight a p i (K_cancel_claimed j) = (if j = i then a else 0)"
| "weight a p i (K_caf_claimed j e) = (if j = i then a else 0)"
| "weight a p i (K_pump_catch j) = (if j = i then p else 0)"
| "weight a p i (K_pump_finally j) = (if j = i then p else 0)"
| "weight a p i _ = 0"

definition frames_weight :: "nat \<Rightarrow> nat \<Rightarrow> nat \<Rightarrow> frame list \<Rightarrow> nat" where
  "frames_weight a p i fs = sum_list (map (weight a p i) fs)"

definition threads_weight :: "nat \<Rightarrow> nat \<Rightarrow> nat \<Rightarrow> thread list \<Rightarrow> nat" where
  "threads_weight a p i ts = sum_list (map (\<lambda>t. frames_weight a p i (snd t)) ts)"

definition flags :: "(nat \<Rightarrow> bool \<Rightarrow> bool \<Rightarrow> nat) \<Rightarrow> owner \<Rightarrow> nat" where
  "flags M ow = M (ow_generation ow) (ow_cancelPromise ow \<noteq> None) (ow_pumping ow)"

definition budget :: "nat \<Rightarrow> nat \<Rightarrow> (nat \<Rightarrow> bool \<Rightarrow> bool \<Rightarrow> nat) \<Rightarrow> nat \<Rightarrow> runtime \<Rightarrow> nat" where
  "budget a p M i w = threads_weight a p i (rt_threads w) + flags M (rt_owner w i)"

definition same_flags :: "owner \<Rightarrow> owner \<Rightarrow> bool" where
  "same_flags ow ow' \<longleftrightarrow>
     ow_generation ow' = ow_generation ow \<and> ow_cancelPromise ow' = ow_cancelPromise ow
     \<and> ow_pumping ow' = ow_pumping ow"

definition token_free :: "frame list \<Rightarrow> bool" where
  "token_free fs \<longleftrightarrow> (\<forall>a p i. frames_weight a p i fs = 0)"

lemma frames_weight_simps [simp]:
  "frames_weight a p i [] = 0" "frames_weight a p i (f # fs) = weight a p i f + frames_weight a p i fs"
  "frames_weight a p i (fs @ gs) = frames_weight a p i fs + frames_weight a p i gs"
  by (simp_all add: frames_weight_def)

lemma threads_weight_simps [simp]:
  "threads_weight a p i [] = 0"
  "threads_weight a p i (ts @ us) = threads_weight a p i ts + threads_weight a p i us"
  "threads_weight a p i (t # ts) = frames_weight a p i (snd t) + threads_weight a p i ts"
  by (simp_all add: threads_weight_def)

lemma token_free_simps [simp]:
  "token_free []" "token_free (f # fs) \<longleftrightarrow> (\<forall>a p i. weight a p i f = 0) \<and> token_free fs"
  by (auto simp: token_free_def)

definition grows :: "runtime \<Rightarrow> runtime \<Rightarrow> bool" where
  "grows w w' \<longleftrightarrow> rt_owners w' = rt_owners w \<and> (\<exists>ts. rt_threads w' = rt_threads w @ ts)"

lemma grows_refl [simp]: "grows w w"
  by (simp add: grows_def)

lemma grows_trans: "grows x y \<Longrightarrow> grows y z \<Longrightarrow> grows x z"
  by (auto simp: grows_def)

lemma grows_upd [simp]: "grows w (upd i f w)"
  by (simp add: grows_def)

lemma threads_weight_update:
  "k < length ts \<Longrightarrow> threads_weight a p i (ts[k := t]) + frames_weight a p i (snd (ts ! k))
     = threads_weight a p i ts + frames_weight a p i (snd t)"
  by (induction ts arbitrary: k) (auto split: nat.splits)

locale token_budget =
  fixes a p :: nat and M :: "nat \<Rightarrow> bool \<Rightarrow> bool \<Rightarrow> nat"
  assumes enter: "M g True q + a \<le> M g False q"
    and starts: "M (Suc g) c q \<le> M g c q + a"
    and pump_on: "M g c True + p \<le> M g c False"
    and pump_off: "M g c False \<le> M g c True + p"
    and fresh: "M 0 False False \<le> 1"
begin

definition keeps :: "runtime \<Rightarrow> runtime \<Rightarrow> bool" where
  "keeps w0 w \<longleftrightarrow> grows w0 w \<and> (\<forall>i. budget a p M i w \<le> budget a p M i w0)"

definition leaves :: "runtime \<Rightarrow> runtime \<times> thread \<Rightarrow> bool" where
  "leaves w0 r \<longleftrightarrow> grows w0 (fst r) \<and>
     (\<forall>i. budget a p M i (fst r) + frames_weight a p i (snd (snd r)) \<le> budget a p M i w0)"

text \<open>The same with \<open>n\<close> tokens of owner \<open>i\<close> in hand, which may be given to a continuation.\<close>

definition holds :: "nat \<Rightarrow> nat \<Rightarrow> runtime \<Rightarrow> runtime \<Rightarrow> bool" where
  "holds i n w0 w \<longleftrightarrow> grows w0 w \<and> (\<forall>j. budget a p M j w + (if j = i then n else 0) \<le> budget a p M j w0)"

lemma keeps_refl [simp]: "keeps w w"
  by (simp add: keeps_def)

lemma keeps_trans: "keeps x y \<Longrightarrow> keeps y z \<Longrightarrow> keeps x z"
  unfolding keeps_def using le_trans grows_trans by blast

lemma leaves_trans: "keeps x y \<Longrightarrow> leaves y r \<Longrightarrow> leaves x r"
  unfolding keeps_def leaves_def using le_trans grows_trans by blast

lemma holds_keeps: "holds i n w0 w \<Longrightarrow> keeps w0 w"
  unfolding holds_def keeps_def using add_leE by blast

lemma leaves_thread: "keeps w0 w \<Longrightarrow> token_free fs \<Longrightarrow> leaves w0 (w, (wt, fs))"
  by (simp add: leaves_def keeps_def token_free_def)

lemma leaves_done [simp]: "keeps w0 w \<Longrightarrow> leaves w0 (w, (wt, []))"
  by (simp add: leaves_def keeps_def)

lemma leaves_andthen: "leaves w0 r \<Longrightarrow> token_free ks \<Longrightarrow> leaves w0 (andthen r ks)"
  by (cases r; cases "snd r") (simp add: leaves_def token_free_def)

lemma keeps_spawn: "leaves w0 r \<Longrightarrow> keeps w0 (spawn r)"
  by (cases r) (auto simp: leaves_def keeps_def budget_def grows_def add_ac)

lemma keeps_same:
  "keeps w0 w \<Longrightarrow> rt_threads w' = rt_threads w \<Longrightarrow> rt_owners w' = rt_owners w \<Longrightarrow> (\<And>i. same_flags (rt_owner w i) (rt_owner w' i)) \<Longrightarrow> keeps w0 w'"
  by (simp add: keeps_def budget_def flags_def same_flags_def grows_def)

lemma keeps_upd: "keeps w0 w \<Longrightarrow> same_flags (rt_owner w i) (f (rt_owner w i)) \<Longrightarrow> keeps w0 (upd i f w)"
  by (erule keeps_same) (auto simp: upd_other same_flags_def)

lemma keeps_emit: "keeps w0 w \<Longrightarrow> keeps w0 (emit es w)"
  by (erule keeps_same) (simp_all add: same_flags_def)

lemma keeps_fields:
  assumes "keeps w0 w"
  shows "keeps w0 (w\<lparr>rt_devices := a1\<rparr>)" "keeps w0 (w\<lparr>rt_leases := a2\<rparr>)"
    "keeps w0 (w\<lparr>rt_nextLease := a3\<rparr>)" "keeps w0 (w\<lparr>rt_connected := a4\<rparr>)"
    "keeps w0 (w\<lparr>rt_poisoned := a5\<rparr>)" "keeps w0 (w\<lparr>rt_destroyed := a6\<rparr>)"
    "keeps w0 (w\<lparr>rt_nextAttempt := a7\<rparr>)" "keeps w0 (w\<lparr>rt_attempts := a8\<rparr>)"
    "keeps w0 (w\<lparr>rt_pendingConnections := a9\<rparr>)" "keeps w0 (w\<lparr>rt_tickets := a10\<rparr>)"
    "keeps w0 (w\<lparr>rt_nextTicket := a11\<rparr>)" "keeps w0 (w\<lparr>rt_outstanding := a12\<rparr>)"
    "keeps w0 (w\<lparr>rt_nextTimer := a13\<rparr>)" "keeps w0 (w\<lparr>rt_direct := a14\<rparr>)"
    "keeps w0 (w\<lparr>rt_directs := a15\<rparr>)" "keeps w0 (w\<lparr>rt_armed := a16\<rparr>)"
    "keeps w0 (w\<lparr>rt_contexts := a17\<rparr>)" "keeps w0 (w\<lparr>rt_active := a18\<rparr>)"
  by (rule keeps_same [OF assms]; simp add: same_flags_def)+

lemmas keeps_basic = keeps_upd keeps_emit keeps_fields keeps_spawn

lemma keeps_small:
  assumes "keeps w0 w"
  shows "keeps w0 (drop_effects i es w)" "keeps w0 (discardQueuedEffects i w)" "keeps w0 (settle_ticket t r w)"
    "keeps w0 (releaseOwner i w)" "keeps w0 (settle_result i x w)" "keeps w0 (clear_timer i tid h w)"
    "keeps w0 (make_terminal i b c w)" "keeps w0 (note_completion_failure i r w)"
    "keeps w0 (trackExternal i t w)" "keeps w0 (trackWrite i t w)" "keeps w0 (untrack i t w)"
    "keeps w0 (decide i g t b w)" "keeps w0 (upd_direct d f w)" "keeps w0 (cancelTimer i tid w)"
    "keeps w0 (snd (new_ticket w))" "keeps w0 (snd (new_deferred w))"
    "keeps w0 (begin_effect i q w)" "keeps w0 (snd (note_progress i c1 c2 w))" "keeps w0 (snd (note_firmware i fr w))"
  using assms
  by (auto simp: drop_effects_def discardQueuedEffects_def settle_ticket_def releaseOwner_def settle_result_def
    clear_timer_def make_terminal_def note_completion_failure_def trackExternal_def trackWrite_def untrack_def
    decide_def upd_direct_def cancelTimer_def new_ticket_def new_deferred_def begin_effect_def note_progress_def
    note_firmware_def Let_def same_flags_def split: option.splits sum.splits intro!: keeps_upd keeps_emit keeps_fields)

lemma leaves_cleanup:
  assumes "keeps w0 w"
  shows "leaves w0 (cleanup_finish i es w)" "leaves w0 (cleanup_loop i cs es w)" "leaves w0 (host_cancel_loop i hs es w)"
proof -
  have f: "leaves w0 (cleanup_finish i es w)" if "keeps w0 w" for w es
    using that unfolding cleanup_finish_def Let_def
    by (auto split: list.splits intro!: leaves_thread keeps_upd keeps_fields simp: same_flags_def)
  have l: "leaves w0 (cleanup_loop i cs es w)" if "keeps w0 w" for w cs es
    using that f unfolding cleanup_loop_def
    by (auto split: list.splits cleanup.splits intro!: leaves_thread keeps_small)
  show "leaves w0 (host_cancel_loop i hs es w)"
    using assms l unfolding host_cancel_loop_def by (auto split: list.splits intro!: leaves_thread)
  show "leaves w0 (cleanup_finish i es w)" "leaves w0 (cleanup_loop i cs es w)"
    using f [OF assms] l [OF assms] by blast+
qed

lemma leaves_cleanupOwner: "keeps w0 w \<Longrightarrow> leaves w0 (cleanupOwner i ch w)"
  unfolding cleanupOwner_def Let_def
  by (auto simp del: spawn.simps simp: same_flags_def
    intro!: leaves_thread keeps_spawn leaves_andthen leaves_cleanup keeps_upd)

lemma leaves_cleanupAndSettle: "keeps w0 w \<Longrightarrow> leaves w0 (cleanupAndSettle i ch w)"
  unfolding cleanupAndSettle_def by (auto intro!: leaves_thread)

lemma leaves_ending:
  assumes "keeps w0 w"
  shows "leaves w0 (finishFailure i e w)" "leaves w0 (finishCancelled i w)" "leaves w0 (finishSuccess i prior w)"
proof -
  have f: "leaves w0 (finishFailure i e w)" if "keeps w0 w" for w e
    using that unfolding finishFailure_def
    by (auto intro!: leaves_andthen leaves_cleanupAndSettle keeps_small)
  show "leaves w0 (finishCancelled i w)"
    using assms unfolding finishCancelled_def
    by (auto intro!: leaves_andthen leaves_cleanupAndSettle keeps_small)
  define w1 where "w1 = (case prior of None \<Rightarrow> w
    | Some e \<Rightarrow> upd i (\<lambda>ow. ow\<lparr>ow_completionFailure := or_set (ow_completionFailure ow) e\<rparr>) w)"
  have "keeps w0 w1"
    unfolding w1_def using assms by (auto split: option.splits intro!: keeps_upd simp: same_flags_def)
  with f show "leaves w0 (finishSuccess i prior w)"
    unfolding finishSuccess_def Let_def w1_def [symmetric]
    by (auto simp del: spawn.simps simp: same_flags_def split: option.splits
      intro!: leaves_thread keeps_spawn keeps_upd)
  show "leaves w0 (finishFailure i e w)" by (rule f [OF assms])
qed

lemma leaves_claim: "keeps w0 w \<Longrightarrow> leaves w0 (claim_loop i hs w)"
  unfolding claim_loop_def by (auto split: list.splits intro!: leaves_thread)

text \<open>The right to cancel is given out where \<open>cancelPromise\<close> is set.\<close>

lemma leaves_token:
  assumes "holds i n w0 w" and "leaves w r" and "\<And>j. frames_weight a p j ks \<le> (if j = i then n else 0)"
  shows "leaves w0 (andthen r ks)"
  unfolding leaves_def
proof (intro conjI allI)
  show "grows w0 (fst (andthen r ks))"
    using assms(1,2) grows_trans by (cases r; cases "snd r") (auto simp: holds_def leaves_def)
next
  fix j
  obtain v wt fs where r: "r = (v, (wt, fs))" by (metis surj_pair)
  have "budget a p M j v + frames_weight a p j fs \<le> budget a p M j w"
    using assms(2) by (simp add: leaves_def r)
  moreover have "budget a p M j w + (if j = i then n else 0) \<le> budget a p M j w0"
    using assms(1) by (simp only: holds_def)
  ultimately show "budget a p M j (fst (andthen r ks)) + frames_weight a p j (snd (snd (andthen r ks)))
      \<le> budget a p M j w0"
    using assms(3) [of j] by (simp add: r)
qed

lemma holds_enter:
  assumes "ow_cancelPromise (rt_owner w i) = None"
  shows "holds i a w (upd i (\<lambda>ow. ow\<lparr>ow_cancelPromise := Some Unsettled\<rparr>) w)"
  using assms enter by (auto simp: holds_def budget_def flags_def upd_other)

lemma leaves_enterCancellation: 
  assumes "keeps w0 w"
  shows "leaves w0 (enterCancellation i w)"
proof (cases "ow_cancelPromise (rt_owner w i)")
  case None
  let ?w = "upd i (\<lambda>ow. ow\<lparr>ow_cancelPromise := Some Unsettled\<rparr>) w"
  note h = holds_enter [OF None]
  have c: "leaves w (cancelAfterFailure i e ?w)" for e
    unfolding cancelAfterFailure_def confirmationAttemptedOrClaimCancellation_def
    by (rule leaves_token [OF h leaves_claim]) simp_all
  have k: "keeps w ?w" using h by (rule holds_keeps)
  have t: "leaves w (andthen (confirmationAttemptedOrClaimCancellation i ?w) [K_cancel_claimed i])"
    unfolding confirmationAttemptedOrClaimCancellation_def
    by (rule leaves_token [OF h leaves_claim]) simp_all
  then have "leaves w (cancelOwner i ?w)"
    using k unfolding cancelOwner_def by (auto intro!: leaves_thread)
  with c have "leaves w (case ow_failure (rt_owner w i) of Some e \<Rightarrow> cancelAfterFailure i e ?w | None \<Rightarrow> cancelOwner i ?w)"
    by (auto split: option.splits)
  then have "keeps w (spawn (andthen
      (case ow_failure (rt_owner w i) of Some e \<Rightarrow> cancelAfterFailure i e ?w | None \<Rightarrow> cancelOwner i ?w) [K_settle_cancel i]))"
    by (intro keeps_spawn leaves_andthen) simp_all
  with assms None show ?thesis
    unfolding enterCancellation_def Let_def
    by (auto simp del: spawn.simps intro!: leaves_thread intro: keeps_trans)
qed (use assms in \<open>auto simp: enterCancellation_def intro!: leaves_thread\<close>)

lemma leaves_failOwner: "keeps w0 w \<Longrightarrow> leaves w0 (failOwner i e w)"
  unfolding failOwner_def Let_def
  by (auto simp del: spawn.simps simp: same_flags_def
    intro!: leaves_thread leaves_ending keeps_spawn leaves_andthen leaves_enterCancellation keeps_upd)

lemma leaves_dispatch:
  assumes "keeps w0 w"
  shows "leaves w0 (dispatchFromContext ctx ev w)" "leaves w0 (answer_event ctx k w)"
    "leaves w0 (dispatchBleFailure ctx er w)" "leaves w0 (awaitOwnerStep i g t w)"
  using assms unfolding dispatchFromContext_def answer_event_def dispatchBleFailure_def awaitOwnerStep_def Let_def
  by (auto split: option.splits intro!: leaves_thread)

lemma keeps_dispatchCurrent: "keeps w0 w \<Longrightarrow> keeps w0 (fst (dispatchCurrentOwnerEvent i g ev x w))"
  unfolding dispatchCurrentOwnerEvent_def Let_def
  by (auto split: sum.splits simp: same_flags_def intro!: keeps_upd keeps_emit)

lemma keeps_core_body: "keeps w0 w \<Longrightarrow> keeps w0 (fst (core_body c x w))"
  by (cases c) (auto simp: Let_def split: sum.splits intro!: keeps_dispatchCurrent keeps_emit)

lemma keeps_addCleanup: "keeps w0 w \<Longrightarrow> keeps w0 (addCleanup i g c w)"
  unfolding addCleanup_def Let_def
  by (auto split: cleanup.splits simp del: spawn.simps simp: same_flags_def
    intro!: keeps_small keeps_upd keeps_spawn leaves_thread)

lemma leaves_handleNotification:
  assumes "keeps w0 w"
  shows "leaves w0 (handleNotification i n w)"
proof -
  define w1 where "w1 = upd i (\<lambda>ow. ow\<lparr>ow_notifications := ow_notifications ow @ [n]\<rparr>) w"
  have w1: "keeps w0 w1" unfolding w1_def using assms by (rule keeps_upd) (simp add: same_flags_def)
  have pf: "keeps w0 w2" if "note_progress i c t w1 = (r, w2) \<or> note_firmware i f w1 = (r, w2)" for c t f r w2
    using keeps_small(18) [OF w1, of i c t] keeps_small(19) [OF w1, of i f] that by auto
  have "keeps w0 (upd i (\<lambda>ow. ow\<lparr>ow_failure := or_set (ow_failure ow) e\<rparr>) w1)" for e
    using w1 by (rule keeps_upd) (simp add: same_flags_def)
  then show ?thesis
    unfolding handleNotification_def Let_def w1_def [symmetric]
    by (cases n) (auto split: prod.splits sum.splits intro!: leaves_done leaves_ending leaves_failOwner w1 intro: pf)
qed

lemmas leaves_steps = leaves_thread leaves_andthen leaves_dispatch keeps_small keeps_fields keeps_upd

lemma leaves_device:
  assumes "keeps w0 w"
  shows "leaves w0 (startAuthorizedScan ctx x w)" "leaves w0 (scan_loop ctx ds n w)"
    "leaves w0 (connectDevice ctx pid w)" "leaves w0 (discoverServices ctx pid w)"
    "leaves w0 (disconnectDevice ctx pid w)" "leaves w0 (disconnect_end ctx pid w)"
    "leaves w0 (readCharacteristic ctx w)"
    "leaves w0 (executeHost ctx slot w)" "leaves w0 (events_loop ctx es w)"
    "leaves w0 (unsubscribe_loop i rs w)" "leaves w0 (unsubscribe i s c w)"
  using assms
  unfolding startAuthorizedScan_def scan_loop_def scan_end_def connectDevice_def discoverServices_def
    disconnectDevice_def disconnect_end_def readCharacteristic_def executeHost_def
    events_loop_def unsubscribe_def unsubscribe_loop_def Let_def new_ticket_split
  by (auto split: option.splits list.splits simp: same_flags_def intro!: leaves_steps)

lemma keeps_bytes:
  "keeps w0 w \<Longrightarrow> keeps w0 (wipe_payload i e w)" "keeps w0 w \<Longrightarrow> keeps w0 (discard_late i es w)"
  by (simp_all add: wipe_payload_def discard_late_def keeps_emit)

lemma leaves_writeCharacteristic: "keeps w0 w \<Longrightarrow> leaves w0 (writeCharacteristic ctx x w)"
  unfolding writeCharacteristic_def Let_def new_ticket_split
  by (auto simp del: spawn.simps split: option.split intro!: leaves_steps keeps_bytes keeps_spawn)

lemma leaves_subscribe: "keeps w0 w \<Longrightarrow> leaves w0 (subscribe ctx w)"
  unfolding subscribe_def Let_def new_ticket_split
  by (auto simp del: spawn.simps simp: same_flags_def intro!: leaves_steps keeps_spawn)

lemma leaves_scheduleTimer: "keeps w0 w \<Longrightarrow> leaves w0 (scheduleTimer ctx t d w)"
  unfolding scheduleTimer_def Let_def
  by (auto simp: same_flags_def intro!: leaves_steps keeps_addCleanup)

lemma leaves_perform_effect:
  assumes "keeps w0 w"
  shows "leaves w0 (perform_effect ctx x w)"
proof -
  have pr: "keeps w0 w2" if "note_progress i c t w = (r, w2)" for i c t r w2
    using keeps_small(18) [OF assms, of i c t] that by simp
  show ?thesis
    unfolding perform_effect_def Let_def
    by (cases "route_effect (env_effect (ctx_envelope ctx))")
      (use assms in \<open>auto split: prod.splits sum.splits dest: pr intro!: leaves_handleNotification leaves_writeCharacteristic leaves_device
        leaves_dispatch leaves_subscribe leaves_scheduleTimer leaves_done keeps_small\<close>)
qed

lemma leaves_executeEffect: "keeps w0 w \<Longrightarrow> leaves w0 (executeEffect i q x w)"
  unfolding executeEffect_def by (intro leaves_perform_effect keeps_small)

lemma leaves_finishFromCoreStatus: "keeps w0 w \<Longrightarrow> leaves w0 (finishFromCoreStatus i x w)"
  unfolding finishFromCoreStatus_def Let_def
  by (auto split: sum.splits workflow_status.splits intro!: leaves_ending)

lemma leaves_pump: "keeps w0 w \<Longrightarrow> leaves w0 (pump i x w)"
  unfolding pump_def Let_def
  by (auto split: list.splits simp: same_flags_def
    intro!: leaves_andthen leaves_executeEffect leaves_finishFromCoreStatus keeps_upd keeps_small)

lemma keeps_ensurePump: 
  assumes "keeps w0 w"
  shows "keeps w0 (ensurePump i x w)"
proof (cases "ow_pumping (rt_owner w i)")
  case False
  let ?w = "upd i (\<lambda>ow. ow\<lparr>ow_pumping := True\<rparr>) w"
  have "holds i p w ?w"
    using False pump_on by (auto simp: holds_def budget_def flags_def upd_other)
  then have "leaves w (andthen (pump i x ?w) [K_pump_catch i])"
    by (rule leaves_token [OF _ leaves_pump]) simp_all
  then have "keeps w (spawn (andthen (pump i x ?w) [K_pump_catch i]))" by (rule keeps_spawn)
  with assms keeps_trans show ?thesis unfolding ensurePump_def by (auto simp del: spawn.simps)
qed (use assms in \<open>simp add: ensurePump_def\<close>)

lemma validate_flags: "same_flags ow (snd (validateEnvelope ow e g))"
  by (auto simp: validateEnvelope_def Let_def same_flags_def)

lemma admit_flags: "same_flags ow (fst (snd (admit_effects g es ow)))"
proof (induction g es ow rule: admit_effects.induct)
  case (2 g e es ow)
  obtain v ow1 where v: "validateEnvelope ow e g = (v, ow1)" by fastforce
  with validate_flags [of ow e g] have "same_flags ow ow1" by simp
  with 2 [OF v [symmetric]] v show ?case
    by (cases v) (auto simp: same_flags_def push_effect_def split: option.splits)
qed (simp add: same_flags_def)

lemma keeps_enqueueEffects: 
  assumes "keeps w0 w"
  shows "keeps w0 (snd (enqueueEffects i es g x w))"
proof -
  obtain r ow' d where ad: "admit_effects g es (rt_owner w i) = (r, ow', d)" by (metis surj_pair)
  have "keeps w0 (upd i (\<lambda>_. ow') w)"
    using assms admit_flags [of "rt_owner w i" g es] ad by (intro keeps_upd) simp_all
  with assms ad show ?thesis
    by (cases r) (auto simp: enqueueEffects_def Let_def intro!: keeps_small keeps_emit keeps_ensurePump)
qed

lemma keeps_enqueued: "keeps w0 w \<Longrightarrow> enqueueEffects i es g x w = (r, w') \<Longrightarrow> keeps w0 w'"
  using keeps_enqueueEffects [of w0 w i es g x] by simp

lemma leaves_inline:
  assumes "keeps w0 w"
  shows "leaves w0 (inline_end i fl w)" "leaves w0 (inline_loop i fl x w)"
proof -
  have e: "leaves w0 (inline_end i fl w)" if "keeps w0 w" for w
    using that unfolding inline_end_def Let_def
    by (auto split: list.splits simp: same_flags_def intro!: leaves_thread keeps_upd keeps_small)
  show "leaves w0 (inline_loop i fl x w)"
    using assms unfolding inline_loop_def Let_def
    by (auto split: list.splits simp: same_flags_def
      intro!: e leaves_andthen leaves_executeEffect keeps_upd keeps_small)
  show "leaves w0 (inline_end i fl w)" by (rule e [OF assms])
qed

lemma leaves_executeCancellationEffects:
  assumes "keeps w0 w"
  shows "leaves w0 (executeCancellationEffects i es g x w)"
proof -
  have "keeps w0 (upd i (\<lambda>ow. ow\<lparr>ow_inline := Some []\<rparr>) w)"
    using assms by (rule keeps_upd) (simp add: same_flags_def)
  with assms show ?thesis
    unfolding executeCancellationEffects_def
    by (auto split: prod.splits sum.splits intro!: leaves_thread leaves_inline dest: keeps_enqueued)
qed

text \<open>Resuming a continuation may use up its own weight.\<close>

definition paid :: "frame \<Rightarrow> runtime \<Rightarrow> runtime \<times> thread \<Rightarrow> bool" where
  "paid f w r \<longleftrightarrow> grows w (fst r) \<and>
     (\<forall>i. budget a p M i (fst r) + frames_weight a p i (snd (snd r)) \<le> budget a p M i w + weight a p i f)"

lemma leaves_paid: "leaves w r \<Longrightarrow> paid f w r"
  unfolding leaves_def paid_def using trans_le_add1 by blast

lemma paid_claimed:
  "paid (K_cancel_claimed i) w (cancel_claimed i r w)" "paid (K_caf_claimed i e) w (caf_claimed i e r w)"
proof -
  have cleanup: "paid f w (andthen (cleanupAndSettle i True (beginCancellation i w)) [f'])"
    if f: "\<And>j. weight a p j f = (if j = i then a else 0)" and f': "token_free [f']" for f f'
    unfolding paid_def
  proof (intro conjI allI)
    show "grows w (fst (andthen (cleanupAndSettle i True (beginCancellation i w)) [f']))"
      by (simp add: cleanupAndSettle_def beginCancellation_def grows_def discardQueuedEffects_def drop_effects_def)
  next
    fix j
    let ?w1 = "upd i (\<lambda>ow. ow\<lparr>ow_cancelling := True, ow_generation := ow_generation ow + 1, ow_aborted := True\<rparr>) w"
    have "keeps ?w1 (beginCancellation i w)"
      unfolding beginCancellation_def
      by (rule keeps_upd [OF keeps_small(2) [OF keeps_emit [OF keeps_refl]]]) (simp add: same_flags_def)
    then have "budget a p M j (beginCancellation i w) \<le> budget a p M j ?w1" by (simp add: keeps_def)
    also have "\<dots> \<le> budget a p M j w + (if j = i then a else 0)"
      using starts by (auto simp: budget_def flags_def upd_other)
    finally show "budget a p M j (fst (andthen (cleanupAndSettle i True (beginCancellation i w)) [f']))
        + frames_weight a p j (snd (snd (andthen (cleanupAndSettle i True (beginCancellation i w)) [f'])))
        \<le> budget a p M j w + weight a p j f"
      using f f' by (simp add: cleanupAndSettle_def)
  qed
  have "paid (K_cancel_claimed i) w (andthen (cleanupAndSettle i True (beginCancellation i w)) [K_cancel_cleaned i])"
    by (rule cleanup) simp_all
  then show "paid (K_cancel_claimed i) w (cancel_claimed i r w)"
    unfolding cancel_claimed_def
    by (auto split: sum.splits val.splits bool.splits intro: leaves_paid)
  have "paid (K_caf_claimed i e) w (andthen (cleanupAndSettle i True (beginCancellation i w)) [K_caf_cleaned i e])"
    by (rule cleanup) simp_all
  moreover have "paid (K_caf_claimed i e) w (finishFailure i e w)"
    by (intro leaves_paid leaves_ending) simp
  ultimately show "paid (K_caf_claimed i e) w (caf_claimed i e r w)"
    unfolding caf_claimed_def
    by (auto split: sum.splits val.splits bool.splits intro: leaves_paid)
qed

lemma paid_pump_finally: "paid (K_pump_finally i) w (resume (K_pump_finally i) r x w)"
proof -
  let ?w = "upd i (\<lambda>ow. ow\<lparr>ow_pumping := False\<rparr>) w"
  have off: "budget a p M j ?w \<le> budget a p M j w + (if j = i then p else 0)" for j
    using pump_off pump_off [of _ _] by (cases "ow_pumping (rt_owner w i)") (auto simp: budget_def flags_def upd_other)
  have k: "keeps ?w (ensurePump i x ?w)" by (rule keeps_ensurePump) simp
  then have "budget a p M j (ensurePump i x ?w) \<le> budget a p M j ?w" for j by (simp only: keeps_def)
  then have "budget a p M j (ensurePump i x ?w) \<le> budget a p M j w + (if j = i then p else 0)" for j
    using off [of j] by (rule order.trans)
  note on = this
  show ?thesis
    unfolding paid_def
  proof (intro conjI allI)
    have "grows ?w (ensurePump i x ?w)" using k by (simp add: keeps_def)
    then have "grows w (ensurePump i x ?w)" by (rule grows_trans [rotated]) simp
    then show "grows w (fst (resume (K_pump_finally i) r x w))" by (simp add: Let_def)
  next
    fix j
    show "budget a p M j (fst (resume (K_pump_finally i) r x w))
        + frames_weight a p j (snd (snd (resume (K_pump_finally i) r x w)))
      \<le> budget a p M j w + weight a p j (K_pump_finally i)"
      using on [of j] off [of j] by (cases "j = i") (simp_all add: Let_def)
  qed
qed

lemma paid_pump_catch: "paid (K_pump_catch i) w (resume (K_pump_catch i) r x w)"
proof (cases r)
  case (Inl e)
  obtain v wt fs where f: "failOwner i e w = (v, (wt, fs))" by (metis surj_pair)
  have "leaves w (failOwner i e w)" by (rule leaves_failOwner) simp
  with Inl f show ?thesis by (simp add: paid_def leaves_def)
next
  case (Inr v)
  then show ?thesis by (simp add: paid_def)
qed

lemma leaves_dispatched: "keeps w0 w \<Longrightarrow> leaves w0 (dispatched i g r x w)"
  unfolding dispatched_def
  by (auto split: sum.splits prod.splits intro!: leaves_done keeps_bytes dest: keeps_enqueued)

lemma leaves_cancel_core: "keeps w0 w \<Longrightarrow> leaves w0 (cancel_core i ce r x w)"
  unfolding cancel_core_def
  by (auto split: sum.splits prod.splits option.splits intro!: leaves_thread leaves_andthen leaves_ending
    dest: keeps_enqueued)

lemma leaves_caf_core: "keeps w0 w \<Longrightarrow> leaves w0 (caf_core i e r x w)"
  unfolding caf_core_def
  by (auto split: sum.splits intro!: leaves_andthen leaves_ending leaves_executeCancellationEffects)

lemma leaves_resumed:
  assumes "keeps w0 w"
  shows "leaves w0 (scan_resumed ctx r w)" "leaves w0 (connection_settled d n s w)"
    "leaves w0 (connection_settle d n s r w)" "leaves w0 (step_answer ctx f r w)"
    "leaves w0 (disconnect_resumed ctx r w)" "leaves w0 (setup_resumed i g t r w)"
    "leaves w0 (setup_decided i g r w)" "leaves w0 (host_resumed ctx r w)" "leaves w0 (direct_end d' r w)"
    "leaves w0 (cancel_final i ce r w)" "leaves w0 (success_end i r w)" "leaves w0 (failure_end i e w)"
    "leaves w0 (cancelled_end i r w)"
  using assms
  unfolding scan_resumed_def connection_settled_def connection_settle_def step_answer_def disconnect_resumed_def
    setup_resumed_def setup_decided_def host_resumed_def direct_end_def cancel_final_def success_end_def
    failure_end_def cancelled_end_def Let_def
  by (auto split: sum.splits val.splits intro!: leaves_thread leaves_dispatch leaves_device keeps_small keeps_fields)

lemma leaves_connect_resumed:
  assumes "keeps w0 w"
  shows "leaves w0 (connect_resumed ctx d n t r w)"
proof (cases "r = Inr V_cancelled")
  case True
  with assms show ?thesis
    unfolding connect_resumed_def new_ticket_split
    by (auto simp del: spawn.simps intro!: leaves_thread keeps_spawn keeps_small keeps_fields)
next
  case False
  define w1 where "w1 = (if map_of (rt_attempts w) (dev_id d) = Some n
    then w\<lparr>rt_attempts := AList.delete (dev_id d) (rt_attempts w)\<rparr> else w)"
  have "keeps w0 w1" using assms by (simp add: w1_def keeps_fields)
  with False show ?thesis
    unfolding connect_resumed_def Let_def w1_def [symmetric]
    by (auto split: sum.splits val.splits intro!: leaves_thread leaves_dispatch keeps_fields)
qed

lemma leaves_subscribe_resumed:
  assumes "keeps w0 w"
  shows "leaves w0 (subscribe_resumed ctx t s r w)"
proof -
  have "leaves w0 (subscribe_end ctx t w)"
  proof (cases "\<exists>s c. env_effect (ctx_envelope ctx) = E_ble_subscribe s c")
    case True
    with assms show ?thesis unfolding subscribe_end_def Let_def
      by (auto simp: same_flags_def intro!: leaves_andthen leaves_dispatch keeps_small keeps_addCleanup keeps_upd)
  next
    case False
    with assms show ?thesis unfolding subscribe_end_def Let_def
      by (cases "env_effect (ctx_envelope ctx)") (auto intro: leaves_done)
  qed
  with assms show ?thesis unfolding subscribe_resumed_def Let_def
    by (auto split: sum.splits val.splits intro!: leaves_thread leaves_dispatch keeps_small)
qed

lemma leaves_handoff: "keeps w0 w \<Longrightarrow> leaves w0 (resume (K_handoff i) r x w)"
  by (auto intro!: leaves_andthen leaves_cleanupAndSettle keeps_small)

lemma paid_resume: "paid f w (resume f r x w)"
proof (cases "\<exists>i e. f \<in> {K_cancel_claimed i, K_caf_claimed i e, K_pump_catch i, K_pump_finally i}")
  case True
  then show ?thesis using paid_claimed paid_pump_catch paid_pump_finally by (auto simp del: resume.simps) simp_all
next
  case False
  have "keeps w w" by simp
  have "leaves w (resume f r x w)"
  proof (cases f)
    case (K_handoff i)
    then show ?thesis using leaves_handoff by simp
  next
    case (K_settle_cancel i)
    have "keeps w (upd i (\<lambda>ow. ow\<lparr>ow_cancelPromise := Some (settle_of r)\<rparr>) w)"
      unfolding keeps_def
    proof (intro conjI allI)
      show "grows w (upd i (\<lambda>ow. ow\<lparr>ow_cancelPromise := Some (settle_of r)\<rparr>) w)" by simp
      fix j
      show "budget a p M j (upd i (\<lambda>ow. ow\<lparr>ow_cancelPromise := Some (settle_of r)\<rparr>) w) \<le> budget a p M j w"
        using add_leD1 [OF enter]
        by (cases "ow_cancelPromise (rt_owner w i)") (auto simp: budget_def flags_def upd_other)
    qed
    with K_settle_cancel show ?thesis by (auto intro!: leaves_done)
  next
    case (K_unsubscribe i rest q)
    have "keeps w (upd i (\<lambda>ow. ow\<lparr>ow_subscriptions := AList.delete q (ow_subscriptions ow)\<rparr>) w)"
      by (rule keeps_upd) (simp_all add: same_flags_def)
    with K_unsubscribe show ?thesis by (auto split: sum.splits intro!: leaves_device leaves_done)
  qed (use False in \<open>auto split: sum.splits option.splits simp del: spawn.simps simp: same_flags_def
      intro!: leaves_thread leaves_andthen leaves_pump leaves_dispatched leaves_ending leaves_failOwner leaves_claim
        leaves_resumed leaves_cancel_core leaves_caf_core leaves_inline leaves_cleanupOwner leaves_cleanup
        keeps_bytes leaves_device leaves_connect_resumed leaves_dispatch leaves_subscribe_resumed keeps_spawn keeps_upd
        keeps_small\<close>)
  then show ?thesis by (rule leaves_paid)
qed

section \<open>Every step\<close>

lemma keeps_cancel: "keeps w0 w \<Longrightarrow> keeps w0 (cancelWorkflow operationId w)"
  unfolding cancelWorkflow_def
  by (auto split: option.splits active_owner.splits simp del: spawn.simps intro!: keeps_spawn leaves_enterCancellation)

lemma keeps_calls:
  assumes "keeps w0 w"
  shows "keeps w0 (snd (runExclusive operation w))" "keeps w0 (destroy w)" "keeps w0 (markDeviceDisconnected deviceId w)"
    "keeps w0 (timer_fired h armed w)" "keeps w0 (notified ctx bs w)"
proof -
  show "keeps w0 (snd (runExclusive operation w))"
    using assms unfolding runExclusive_def Let_def
    by (auto split: sum.splits simp del: spawn.simps intro!: keeps_spawn leaves_thread keeps_small keeps_fields)
  show "keeps w0 (destroy w)"
    using assms unfolding destroy_def Let_def
    by (auto split: option.splits active_owner.splits simp del: spawn.simps
      intro!: keeps_cancel keeps_spawn leaves_thread keeps_small keeps_fields)
  show "keeps w0 (markDeviceDisconnected deviceId w)"
    using assms unfolding markDeviceDisconnected_def dispatchDeviceDisconnected_def Let_def
    by (auto split: option.splits active_owner.splits list.splits simp del: spawn.simps
      intro!: keeps_spawn leaves_andthen leaves_thread keeps_small keeps_fields)
  show "keeps w0 (timer_fired h armed w)"
    using assms unfolding timer_fired_def Let_def
    by (auto split: prod.splits simp del: spawn.simps simp: same_flags_def
      intro!: keeps_spawn leaves_andthen leaves_dispatch keeps_upd keeps_fields)
  show "keeps w0 (notified ctx bs w)"
    using assms unfolding notified_def
    by (cases "env_effect (ctx_envelope ctx)")
      (auto simp del: spawn.simps intro!: keeps_spawn leaves_andthen leaves_dispatch)
qed

definition within :: "runtime \<Rightarrow> bool" where
  "within w \<longleftrightarrow> (\<forall>i < rt_owners w. budget a p M i w \<le> 1)"

lemma within_keeps: "within w \<Longrightarrow> keeps w w' \<Longrightarrow> within w'"
  unfolding within_def keeps_def grows_def using le_trans by metis

lemma known_weight:
  assumes "inv w" and "i \<ge> rt_owners w"
  shows "threads_weight a p i (rt_threads w) = 0"
proof -
  have "weight a p i f = 0" if "frame_ok w f" for f
    using that assms(2) by (cases f) (auto simp: known_def)
  then have "frames_weight a p i (snd t) = 0" if "t \<in> set (rt_threads w)" for t
    using assms(1) that unfolding inv_def frames_weight_def
    by (cases t) (auto simp: list_all_iff sum_list_eq_0_iff)
  then show ?thesis unfolding threads_weight_def by (auto simp: sum_list_eq_0_iff)
qed

lemma within_replace:
  assumes "within w" and "k < length (rt_threads w)" and "grows w w1"
    and "\<And>i. budget a p M i w1 + frames_weight a p i (snd t)
           \<le> budget a p M i w + frames_weight a p i (snd (rt_threads w ! k))"
  shows "within (w1\<lparr>rt_threads := (rt_threads w1)[k := t]\<rparr>)"
  unfolding within_def
proof (intro allI impI)
  fix i
  assume "i < rt_owners (w1\<lparr>rt_threads := (rt_threads w1)[k := t]\<rparr>)"
  with assms(1,3) have "budget a p M i w \<le> 1" by (simp add: within_def grows_def)
  moreover have "threads_weight a p i ((rt_threads w1)[k := t]) + frames_weight a p i (snd (rt_threads w ! k))
      = threads_weight a p i (rt_threads w1) + frames_weight a p i (snd t)"
    using threads_weight_update [of k "rt_threads w1" a p i t] assms(2,3) by (auto simp: nth_append grows_def)
  ultimately show "budget a p M i (w1\<lparr>rt_threads := (rt_threads w1)[k := t]\<rparr>) \<le> 1"
    using assms(4) [of i] by (simp add: budget_def)
qed

lemma within_resume:
  assumes "within w" and "k < length (rt_threads w)" and "rt_threads w ! k = (Done r, f # fs)"
    and "andthen (resume f r x w) fs = (w1, t)"
  shows "within (w1\<lparr>rt_threads := (rt_threads w1)[k := t]\<rparr>)"
proof -
  obtain v wt gs where e: "resume f r x w = (v, (wt, gs))" by (metis surj_pair)
  with assms(4) have t: "w1 = v" "t = (wt, gs @ fs)" by simp_all
  have "paid f w (resume f r x w)" by (rule paid_resume)
  with e have "grows w v" and "budget a p M i v + frames_weight a p i gs \<le> budget a p M i w + weight a p i f" for i
    by (simp_all add: paid_def)
  moreover have "budget a p M i v + frames_weight a p i (snd t)
      \<le> budget a p M i w + frames_weight a p i (snd (rt_threads w ! k))" for i
    using calculation(2) [of i] assms(3) by (simp add: t)
  ultimately show ?thesis using assms(1,2) t(1) by (intro within_replace) simp_all
qed

lemma within_await:
  assumes "within w" and "k < length (rt_threads w)" and "rt_threads w ! k = (wt, fs)"
    and "satisfy wt x w = Some (w1, r)"
  shows "within (w1\<lparr>rt_threads := (rt_threads w1)[k := (Done r, fs)]\<rparr>)"
proof -
  have "keeps w w1"
  proof (cases "\<exists>c. wt = W_core c")
    case True
    then obtain c where "wt = W_core c" by blast
    with assms(4) keeps_core_body [OF keeps_refl, of w c x] show ?thesis by (simp add: satisfy_def)
  next
    case False
    then have "satisfy wt x w = map_option (Pair w) (wait_outcome wt x w)"
      by (cases wt) (auto simp: satisfy_def simp del: wait_outcome.simps)
    with assms(4) show ?thesis by auto
  qed
  then have g: "grows w w1" and b: "budget a p M i w1 \<le> budget a p M i w" for i by (auto simp: keeps_def)
  have "budget a p M i w1 + frames_weight a p i (snd (Done r, fs))
      \<le> budget a p M i w + frames_weight a p i (snd (rt_threads w ! k))" for i
    using b [of i] assms(3) by simp
  then show ?thesis using assms(1,2) g by (intro within_replace)
qed

lemma within_new_owner:
  assumes "inv w" and "within w"
  shows "within (with_owner (new_owner operationId cancellationId hosts handoff ds) w)"
proof -
  have "threads_weight a p (rt_owners w) (rt_threads w) = 0" by (rule known_weight [OF assms(1)]) simp
  with assms(2) fresh show ?thesis
    by (auto simp: within_def with_owner_def budget_def flags_def new_owner_def less_Suc_eq upd_other)
qed

lemma within_run:
  assumes "inv w" and "within w"
  shows "within (snd (run operationId cancellationId hosts handoff x w))"
proof (cases "ownership_free (operationFromId operationId) w = Inr ()
    \<and> length operationId \<noteq> 0 \<and> length cancellationId = 16")
  case True
  let ?i = "rt_owners w"
  let ?w = "with_owner (new_owner operationId cancellationId hosts handoff (map fst (rt_devices w))) w"
  have new: "within ?w" by (rule within_new_owner [OF assms])
  have run: "run operationId cancellationId hosts handoff x w =
    (Inr ?i,
     case (case in_effects x of
             Inl e \<Rightarrow> (Inl e, ?w)
           | Inr effects \<Rightarrow>
               (case enqueueEffects ?i effects 0 x ?w of
                  (Inl e, w2) \<Rightarrow> (Inl (SdkErr e), w2) | (Inr u, w2) \<Rightarrow> (Inr u, w2))) of
       (Inl e, w2) \<Rightarrow> spawn (failOwner ?i e w2)
     | (Inr _, w2) \<Rightarrow> w2)"
    unfolding with_owner_def run_def Let_def using True by simp
  have q: "keeps ?w w2" if "enqueueEffects ?i es 0 x ?w = (v, w2)" for es v w2
    using keeps_enqueued [OF keeps_refl that] .
  have f: "within (spawn (failOwner ?i e w2))" if "keeps ?w w2" for e w2
    using new keeps_spawn [OF leaves_failOwner [OF that]] by (rule within_keeps)
  show ?thesis
  proof (cases "in_effects x")
    case (Inl e)
    with f [of ?w] show ?thesis by (simp add: run)
  next
    case (Inr effects)
    obtain v w2 where e: "enqueueEffects ?i effects 0 x ?w = (v, w2)" by fastforce
    with q [OF e] f [of w2] new Inr show ?thesis by (cases v) (simp_all add: run within_keeps)
  qed
next
  case False
  then have "snd (run operationId cancellationId hosts handoff x w) = w"
    by (auto simp: run_def Let_def split: sum.splits)
  with assms(2) show ?thesis by simp
qed

lemma within_handoff_run:
  assumes "inv w" and "within w"
  shows "within (snd (handoff_run d operationId cancellationId hosts handoff x w))"
proof (cases "rt_active w = Some (Direct d)")
  case True
  have "evolves w w" using assms(1) by (simp add: evolves_def ext_def)
  then have "evolves w (w\<lparr>rt_active := None\<rparr>)" using True by (intro evolves_active) simp_all
  then have "inv (w\<lparr>rt_active := None\<rparr>)" by (simp add: evolves_def)
  moreover have "within (w\<lparr>rt_active := None\<rparr>)" using assms(2) keeps_fields(18) [OF keeps_refl] by (rule within_keeps)
  ultimately have "within (snd (run operationId cancellationId hosts handoff x (w\<lparr>rt_active := None\<rparr>)))"
    by (rule within_run)
  with assms(2) show ?thesis by (auto simp: handoff_run_def Let_def)
qed (use assms in \<open>simp add: handoff_run_def Let_def\<close>)

lemma within_act:
  assumes "inv w" and "within w" and "act y x w = Some w'"
  shows "within w'"
proof -
  note k = within_keeps [OF assms(2)]
  note s = keeps_small [OF keeps_refl] and c = keeps_calls [OF keeps_refl] and f = keeps_fields [OF keeps_refl]
  have lease: "keeps w (snd (claimCharacteristicLease operation d sv ch w))" "keeps w (release_lease lease w)"
    "keeps w (unregisterDevice deviceId w)" "keeps w (registerDevice d w)" "keeps w (poisonBleOwnership deviceId w)"
    for operation d sv ch lease deviceId
    unfolding claimCharacteristicLease_def release_lease_def unregisterDevice_def registerDevice_def
      poisonBleOwnership_def Let_def
    by (auto intro!: keeps_fields)
  show ?thesis
  proof (cases y)
    case (A_await n)
    with assms within_await show ?thesis by (auto split: if_splits prod.splits)
  next
    case (A_resume n)
    with assms within_resume show ?thesis by (auto split: if_splits prod.splits wait.splits list.splits)
  next
    case (A_settle t)
    have "keeps w (w\<lparr>rt_outstanding := o'\<rparr>)" for o' by (rule f)
    with A_settle assms(3) show ?thesis by (auto split: if_splits intro!: k keeps_small)
  next
    case (A_untrack i t)
    with assms(3) show ?thesis by (auto split: if_splits intro!: k s)
  next
    case (A_fire h)
    with assms(3) show ?thesis by (auto intro!: k c)
  next
    case (A_notification ctx bs)
    with assms(3) show ?thesis by (auto split: if_splits intro!: k c)
  next
    case (A_host_dispatch ctx event)
    with assms(3) show ?thesis
      by (auto split: if_splits simp del: spawn.simps intro!: k keeps_spawn leaves_dispatch)
  next
    case (A_host_cleanup ctx)
    with assms(3) show ?thesis by (auto split: if_splits intro!: k keeps_addCleanup)
  next
    case (A_cancel operationId)
    with assms(3) show ?thesis by (auto intro!: k keeps_cancel)
  next
    case (A_run operationId cancellationId hosts handoff)
    with assms show ?thesis by (auto intro!: within_run)
  next
    case (A_handoff_run d operationId cancellationId hosts handoff)
    with assms show ?thesis by (auto split: if_splits intro!: within_handoff_run)
  qed (use assms in \<open>auto split: if_splits intro!: k c lease\<close>)
qed

lemma reachable_within: "reachable w \<Longrightarrow> within w"
proof (induction rule: reachable.induct)
  case initial
  show ?case by (simp add: within_def initial_runtime_def)
next
  case (step w x a w')
  then show ?case using within_act reachable_inv by blast
qed

lemma reachable_budget: "reachable w \<Longrightarrow> i < rt_owners w \<Longrightarrow> budget a p M i w \<le> 1"
  using reachable_within by (simp add: within_def)

end

section \<open>Two budgets of the runtime\<close>

text \<open>The cancellation: a claim under way, or a generation above 0; one only, and only with \<open>cancelPromise\<close>.\<close>

interpretation cancellation: token_budget 1 0 "\<lambda>g c q. g + (if c then 0 else 1)"
  by unfold_locales auto

text \<open>The pump: one thread at most runs it, and then \<open>pumping\<close> is set.\<close>

interpretation pump: token_budget 0 1 "\<lambda>g c q. if q then 0 else 1"
  by unfold_locales auto

lemma reachable_generation:
  assumes "reachable w" and "i < rt_owners w"
  shows "ow_generation (rt_owner w i) \<le> 1"
  using cancellation.reachable_budget [OF assms] by (simp add: budget_def flags_def)

lemma reachable_pump:
  assumes "reachable w" and "i < rt_owners w"
  shows "threads_weight 0 1 i (rt_threads w) \<le> 1"
  using pump.reachable_budget [OF assms] by (simp add: budget_def)

end
