(* ===== verification/OwnerProps.thy ===== *)
theory OwnerProps
  imports OwnerTokens
begin

text \<open>
  What the workflow runtime guarantees, for every schedule of its continuations, its transport, its
  hosts and its clients.  The properties are read off the invariant (OwnerOps) and the budgets
  (OwnerTokens) of reachable states; the histories at the beginning are the witnesses.
\<close>

section \<open>Histories\<close>

fun steps :: "(action \<times> answers) list \<Rightarrow> runtime \<Rightarrow> runtime option" where
  "steps [] w = Some w"
| "steps ((x, a) # xs) w = (case act x a w of None \<Rightarrow> None | Some w1 \<Rightarrow> steps xs w1)"

lemma steps_reachable: "steps xs w = Some w' \<Longrightarrow> reachable w \<Longrightarrow> reachable w'"
  by (induction xs w rule: steps.induct) (auto split: option.splits intro: reachable.step)

definition sample_effect :: "int \<Rightarrow> core_effect \<Rightarrow> effect_envelope" where
  "sample_effect r e =
     \<lparr>env_requestId = r, env_operation = Core_upload, env_cancellationId = replicate 16 7, env_effect = e\<rparr>"

definition core_returns :: "effect_envelope list \<Rightarrow> workflow_status \<Rightarrow> answers" where
  "core_returns es s =
     \<lparr>in_status = Inr (Ws_running Core_upload []), in_statusAfter = Inr s, in_effects = Inr es,
      in_answer = Inr V_unit, in_supportsAuthorized = True, in_writeThrows = None\<rparr>"

definition calm :: answers where
  "calm = core_returns [] Ws_idle"

definition unclaimed :: answers where
  "unclaimed = calm\<lparr>in_answer := Inr (V_flag False)\<rparr>"

definition start_upload :: "effect_envelope list \<Rightarrow> action \<times> answers" where
  "start_upload es =
     (A_run (js ''upload:1'') (replicate 16 7) no_hosts False, core_returns es Ws_idle)"

text \<open>An upload whose one request is answered, and the core reports completion.\<close>

definition completing_steps :: "(action \<times> answers) list" where
  "completing_steps =
     [start_upload [sample_effect 1 E_ble_stop_scan],
      (A_await 0, core_returns [sample_effect 2 (E_notify (N_completed Core_upload))] (Ws_completed Core_upload)),
      (A_resume 0, calm), (A_resume 0, calm), (A_resume 1, calm), (A_await 1, calm), (A_resume 1, calm),
      (A_resume 2, calm), (A_await 1, calm), (A_resume 1, calm), (A_await 1, calm), (A_resume 1, calm),
      (A_await 1, calm), (A_resume 1, calm), (A_resume 1, calm)]"

definition completed_run :: runtime where
  "completed_run = the (steps completing_steps initial_runtime)"

text \<open>An upload that is cancelled while a write waits in its queue.\<close>

definition cancelling_steps :: "(action \<times> answers) list" where
  "cancelling_steps =
     [start_upload [sample_effect 1 E_ble_stop_scan,
        sample_effect 2 (E_ble_write (js ''a'') (js ''b'') [1, 2] True)],
      (A_cancel (js ''upload:1''), calm), (A_await 1, unclaimed), (A_resume 1, calm), (A_resume 1, calm)]"

definition cancelling_run :: runtime where
  "cancelling_run = the (steps cancelling_steps initial_runtime)"

text \<open>What a history ends in, computed once.\<close>

definition ends_in :: "(action \<times> answers) list \<Rightarrow> (runtime \<Rightarrow> bool) \<Rightarrow> bool" where
  "ends_in xs P = (case steps xs initial_runtime of None \<Rightarrow> False | Some w \<Rightarrow> P w)"

lemma ends_in_the:
  assumes "ends_in xs P"
  shows "reachable (the (steps xs initial_runtime))" and "P (the (steps xs initial_runtime))"
  using assms steps_reachable [OF _ reachable.initial] by (auto simp: ends_in_def split: option.splits)

lemma completing_ends:
  "ends_in completing_steps (\<lambda>w. rt_owners w = 1
     \<and> ow_result (rt_owner w 0) = Some (Inr [N_completed Core_upload])
     \<and> L_execute 0 (sample_effect 1 E_ble_stop_scan) 0 \<in> set (rt_log w))"
  by code_simp

lemma cancelling_ends:
  "ends_in cancelling_steps (\<lambda>w. rt_owners w = 1 \<and> ow_result (rt_owner w 0) = None
     \<and> L_drop 0 (sample_effect 2 (E_ble_write (js ''a'') (js ''b'') [0, 0] True)) \<in> set (rt_log w)
     \<and> map_of (ow_requests (rt_owner w 0)) 2 \<noteq> None \<and> \<not> rt_destroyed w
     \<and> ow_generation (rt_owner w 0) = 1
     \<and> length (filter (\<lambda>t. K_pump_catch 0 \<in> set (snd t) \<or> K_pump_finally 0 \<in> set (snd t)) (rt_threads w)) = 1)"
  by code_simp

lemmas completed_reachable = ends_in_the(1) [OF completing_ends, folded completed_run_def]
lemmas completed_facts = ends_in_the(2) [OF completing_ends, folded completed_run_def]
lemmas cancelling_reachable = ends_in_the(1) [OF cancelling_ends, folded cancelling_run_def]
lemmas cancelling_facts = ends_in_the(2) [OF cancelling_ends, folded cancelling_run_def]

lemma reachable_owner: "reachable w \<Longrightarrow> i < rt_owners w \<Longrightarrow> owner_inv i w"
  using reachable_inv by (simp add: inv_def)

section \<open>Ownership\<close>

lemma active_newest: "reachable w \<Longrightarrow> active_here i w \<Longrightarrow> Suc i = rt_owners w"
  using reachable_inv by (simp add: inv_def global_inv_def)

lemma unsettled_active: "reachable w \<Longrightarrow> i < rt_owners w \<Longrightarrow> ow_result (rt_owner w i) = None \<Longrightarrow> active_here i w"
  using reachable_owner [of w i] by (simp add: owner_inv_def ending_ok_def Let_def)

text \<open>
  C6.  One workflow at a time.  As long as the result of a workflow has not settled, that workflow is
  the active owner and no other workflow is unsettled, and every call of \<open>run\<close> and of
  \<open>runExclusive\<close> is refused at once and changes nothing.
\<close>

theorem one_workflow_at_a_time:
  assumes "reachable w" and "i < rt_owners w" and "ow_result (rt_owner w i) = None"
  shows "rt_active w = Some (Workflow i)
    \<and> (\<forall>j < rt_owners w. ow_result (rt_owner w j) = None \<longrightarrow> j = i)
    \<and> run operationId cancellationId hosts handoff a w
        = (Inl (BotaSDKError (if rt_destroyed w then Sdk_cancelled else Sdk_operation_in_progress)
                  (operationFromId operationId)), w)
    \<and> runExclusive operation w
        = (Inl (BotaSDKError (if rt_destroyed w then Sdk_cancelled else Sdk_operation_in_progress) operation), w)"
proof -
  have active: "rt_active w = Some (Workflow i)"
    using unsettled_active [OF assms] by (simp add: active_here_def)
  moreover have "j = i" if "j < rt_owners w" "ow_result (rt_owner w j) = None" for j
    using unsettled_active [OF assms(1) that] active by (simp add: active_here_def)
  ultimately show ?thesis
    by (simp add: run_def runExclusive_def ownership_free_def)
qed

theorem one_workflow_at_a_time_witness:
  "run (js ''connect:2'') [] no_hosts False calm cancelling_run
     = (Inl (BotaSDKError Sdk_operation_in_progress (operationFromId (js ''connect:2''))), cancelling_run)"
  using one_workflow_at_a_time [OF cancelling_reachable, of 0 "js ''connect:2''" "[]" no_hosts False calm]
  by (simp add: cancelling_facts)

section \<open>The trace\<close>

text \<open>
  C7.  Every history of the runtime is a trace of the abstract specification \<open>trace_ok\<close>: effects are
  executed and events reach the core only for the newest workflow and only before its result settles;
  each effect is executed at most once, and in the generation current then; each event answers an effect
  that was executed in the current generation, or reports that the device has disconnected; a result
  settles once.  The specification does not restrict when a cancellation begins, when the core is told to
  cancel, and what becomes of the bytes of effects that are not executed.
\<close>

theorem runtime_refines_trace:
  assumes "reachable w"
  shows "trace_ok (rt_log w)"
  using reachable_inv [OF assms] by (rule inv_trace)

theorem runtime_refines_trace_witness:
  "trace_ok (rt_log completed_run) \<and> L_execute 0 (sample_effect 1 E_ble_stop_scan) 0 \<in> set (rt_log completed_run)"
  using runtime_refines_trace [OF completed_reachable] completed_facts by simp

text \<open>
  C18.  No effect is lost and none is executed twice: whatever the runtime has admitted from the core
  was executed, or was dropped, or still waits in the queue or among the inline effects; the first
  and the last are disjoint and without duplicates.
\<close>

theorem effects_accounted:
  assumes "reachable w" and "i < rt_owners w"
  shows "distinct (executed i (rt_log w) @ ids (ow_queue (rt_owner w i)) @ ids (inline_list (rt_owner w i)))
    \<and> {r. map_of (ow_requests (rt_owner w i)) r \<noteq> None}
        \<subseteq> set (executed i (rt_log w)) \<union> set (dropped i (rt_log w))
          \<union> set (ids (ow_queue (rt_owner w i))) \<union> set (ids (inline_list (rt_owner w i)))"
proof -
  have "account_ok i (rt_owner w i) (rt_log w)"
    using reachable_owner [OF assms] by (simp add: owner_inv_def)
  moreover have "{r. map_of (ow_requests (rt_owner w i)) r \<noteq> None} = request_ids (rt_owner w i)"
    by (auto simp: request_ids_def map_of_eq_None_iff)
  ultimately show ?thesis by (simp add: account_ok_def)
qed

theorem effects_accounted_witness:
  "2 \<in> set (executed 0 (rt_log cancelling_run)) \<union> set (dropped 0 (rt_log cancelling_run))
      \<union> set (ids (ow_queue (rt_owner cancelling_run 0))) \<union> set (ids (inline_list (rt_owner cancelling_run 0)))"
  using effects_accounted [OF cancelling_reachable, of 0] cancelling_facts by auto



section \<open>The end of a workflow\<close>

text \<open>
  C8.  When the result of a workflow has settled, the workflow has let go of everything: it is terminal and
  no longer the active owner, nothing is queued, no GATT write, setup or other call of the
  transport or a host is in flight, its clean-up has run to the end, and the log holds exactly the one
  result.
\<close>

theorem settled_at_rest:
  assumes "reachable w" and "i < rt_owners w" and "ow_result (rt_owner w i) = Some r"
  shows "rt_active w \<noteq> Some (Workflow i) \<and> ow_terminal (rt_owner w i) \<and> ow_queue (rt_owner w i) = []
    \<and> ow_writes (rt_owner w i) = [] \<and> ow_setups (rt_owner w i) = [] \<and> ow_externals (rt_owner w i) = []
    \<and> (\<exists>c. ow_cleanupPromise (rt_owner w i) = Some (Settled c)) \<and> settles i (rt_log w) = [r]"
  using reachable_owner [OF assms(1,2)] assms(3)
  by (auto simp: owner_inv_def ending_ok_def queues_ok_def Let_def active_here_def quiescent_def cleaned_def)

theorem settled_at_rest_witness:
  "rt_active completed_run \<noteq> Some (Workflow 0) \<and> settles 0 (rt_log completed_run) = [Inr [N_completed Core_upload]]"
  using settled_at_rest [OF completed_reachable, of 0] completed_facts by simp

text \<open>
  C39.  A workflow succeeds only if the core reported completion: by a notification the runtime recorded,
  or by the status it read after an event of this workflow.
\<close>

theorem success_was_reported:
  assumes "reachable w" and "i < rt_owners w" and "ow_result (rt_owner w i) = Some (Inr notifications)"
  shows "completion_reported (rt_owner w i)"
  using reachable_owner [OF assms(1,2)] assms(3) by (auto simp: owner_inv_def ending_ok_def Let_def)

theorem success_was_reported_witness: "completion_reported (rt_owner completed_run 0)"
  using success_was_reported [OF completed_reachable, of 0] completed_facts by simp

section \<open>What happens once\<close>

text \<open>
  C20.  However often a client cancels, the runtime is destroyed or an error arrives, a workflow begins its
  cancellation at most once, and its generation says whether it has.
\<close>

theorem cancellation_begins_once:
  assumes "reachable w" and "i < rt_owners w"
  shows "ow_generation (rt_owner w i) = cancellations i (rt_log w) \<and> cancellations i (rt_log w) \<le> 1"
  using reachable_owner [OF assms] reachable_generation [OF assms]
  by (simp add: owner_inv_def ending_ok_def Let_def)

theorem cancellation_begins_once_witness:
  "ow_generation (rt_owner cancelling_run 0) = 1 \<and> cancellations 0 (rt_log cancelling_run) = 1"
  using cancellation_begins_once [OF cancelling_reachable, of 0] cancelling_facts by simp

definition pump_threads :: "nat \<Rightarrow> runtime \<Rightarrow> thread list" where
  "pump_threads i w = filter (\<lambda>t. K_pump_catch i \<in> set (snd t) \<or> K_pump_finally i \<in> set (snd t)) (rt_threads w)"

lemma pump_weight: "K_pump_catch i \<in> set fs \<or> K_pump_finally i \<in> set fs \<Longrightarrow> 1 \<le> frames_weight 0 1 i fs"
  by (induction fs) auto

lemma pump_threads_weight: "length (filter (\<lambda>t. K_pump_catch i \<in> set (snd t) \<or> K_pump_finally i \<in> set (snd t)) ts)
    \<le> threads_weight 0 1 i ts"
  by (induction ts) (use pump_weight [of i] in \<open>fastforce+\<close>)

text \<open>
  C21.  The effects of a workflow are executed one after the other: at most one continuation runs its
  queue, and while one does the flag \<open>pumping\<close> is set.
\<close>

theorem one_pump:
  assumes "reachable w" and "i < rt_owners w"
  shows "length (pump_threads i w) \<le> 1 \<and> (pump_threads i w \<noteq> [] \<longrightarrow> ow_pumping (rt_owner w i))"
proof -
  have b: "budget 0 1 (\<lambda>g c q. if q then 0 else 1) i w \<le> 1" by (rule pump.reachable_budget [OF assms])
  have "length (pump_threads i w) \<le> threads_weight 0 1 i (rt_threads w)"
    unfolding pump_threads_def by (rule pump_threads_weight)
  moreover have "pump_threads i w \<noteq> [] \<Longrightarrow> 1 \<le> length (pump_threads i w)" by (cases "pump_threads i w") auto
  ultimately show ?thesis using b by (auto simp: budget_def flags_def split: if_splits)
qed

theorem one_pump_witness: "length (pump_threads 0 cancelling_run) = 1 \<and> ow_pumping (rt_owner cancelling_run 0)"
proof -
  have "length (pump_threads 0 cancelling_run) = 1" using cancelling_facts by (simp add: pump_threads_def)
  moreover have "pump_threads 0 cancelling_run \<noteq> [] \<longrightarrow> ow_pumping (rt_owner cancelling_run 0)"
    using one_pump [OF cancelling_reachable, of 0] cancelling_facts by simp
  ultimately show ?thesis by auto
qed

section \<open>Progress\<close>






section \<open>Leases\<close>





section \<open>What the model shows besides\<close>

text \<open>
  Effects the core returns for an event whose workflow has ended or been cancelled meanwhile are left as
  they are (\<open>L_late\<close> in the log): \<open>dispatchFromContext\<close> returns before \<open>enqueueEffects\<close>, which would have
  wiped and dropped them.
\<close>

lemma late_effects_not_wiped:
  assumes "ow_terminal (rt_owner w i) \<or> generation \<noteq> ow_generation (rt_owner w i)"
  shows "fst (dispatched i generation (Inr (V_effects es)) a w) = discard_late i es w"
    and "snd (enqueueEffects i es generation a w) = drop_effects i es w"
  using assms by (auto simp: dispatched_def core_effects_def enqueueEffects_def)

definition late_effect_steps :: "(action \<times> answers) list" where
  "late_effect_steps =
     [start_upload [sample_effect 1 E_ble_stop_scan],
      (A_cancel (js ''upload:1''), calm),
      (A_await 0, core_returns [sample_effect 2 (E_ble_write (js ''a'') (js ''b'') [1, 2] True)] Ws_idle),
      (A_await 1, unclaimed), (A_resume 1, calm), (A_resume 1, calm), (A_resume 0, calm)]"

lemma late_effect_ends:
  "ends_in late_effect_steps (\<lambda>w.
     L_late 0 (sample_effect 2 (E_ble_write (js ''a'') (js ''b'') [1, 2] True)) \<in> set (rt_log w))"
  by code_simp

text \<open>
  A clean-up registered after \<open>cleanupOwner\<close> has run is never run: here a timer that the core asks for
  during the cancellation is still armed when the result has settled.
\<close>

definition late_timer_steps :: "(action \<times> answers) list" where
  "late_timer_steps = cancelling_steps @
     [(A_await 1, calm), (A_resume 1, calm), (A_await 3, calm), (A_resume 3, calm), (A_resume 3, calm),
      (A_await 1, calm), (A_resume 1, calm), (A_await 1, calm), (A_resume 1, calm), (A_await 1, calm),
      (A_resume 1, calm), (A_resume 1, calm),
      (A_await 1, core_returns [sample_effect 3 (E_timer_schedule 9 1000), sample_effect 4 (E_notify (N_cancelled Core_upload))] Ws_idle),
      (A_resume 1, calm), (A_await 0, calm), (A_resume 0, calm), (A_resume 0, calm), (A_resume 0, calm),
      (A_await 0, calm), (A_resume 0, calm), (A_await 0, calm), (A_resume 0, calm), (A_await 0, calm),
      (A_resume 0, calm), (A_await 0, calm), (A_resume 0, calm), (A_resume 0, calm)]"

definition late_timer_run :: runtime where
  "late_timer_run = the (steps late_timer_steps initial_runtime)"

lemma late_timer_ends:
  "ends_in late_timer_steps (\<lambda>w.
     ow_result (rt_owner w 0) = Some (Inl (BotaSDKError Sdk_cancelled Op_upload)) \<and> length (rt_armed w) = 1)"
  by code_simp

lemma late_timer_stays_armed:
  "reachable late_timer_run
   \<and> ow_result (rt_owner late_timer_run 0) = Some (Inl (BotaSDKError Sdk_cancelled Op_upload))
   \<and> length (rt_armed late_timer_run) = 1"
  using ends_in_the [OF late_timer_ends] by (simp add: late_timer_run_def)

text \<open>
  The handoff of \<open>runExclusive\<close> gives up the ownership before \<open>run\<close> checks its arguments: after a refused
  handoff the ownership is free although the body is still running, and a second exclusive operation starts.
\<close>

definition refused_handoff_steps :: "(action \<times> answers) list" where
  "refused_handoff_steps =
     [(A_exclusive Op_upload, calm), (A_handoff_run 0 (js ''upload:1'') [] no_hosts False, calm),
      (A_exclusive Op_upload, calm)]"

definition refused_handoff_run :: runtime where
  "refused_handoff_run = the (steps refused_handoff_steps initial_runtime)"

lemma refused_handoff_ends:
  "ends_in refused_handoff_steps (\<lambda>w. rt_active w = Some (Direct 1)
     \<and> di_result (rt_direct w 0) = None \<and> di_result (rt_direct w 1) = None)"
  by code_simp

lemma refused_handoff_frees_ownership:
  "reachable refused_handoff_run \<and> rt_active refused_handoff_run = Some (Direct 1)
   \<and> di_result (rt_direct refused_handoff_run 0) = None \<and> di_result (rt_direct refused_handoff_run 1) = None"
  using ends_in_the [OF refused_handoff_ends] by (simp add: refused_handoff_run_def)

end
