(* ===== verification/ReceiverBounds.thy ===== *)
theory ReceiverBounds
  imports ReceiverHistory
begin

text \<open>What a receiver holds in memory stays within the bounds that were negotiated, whatever the device sends.\<close>

definition queued_bytes :: "(int \<times> packet) list \<Rightarrow> int" where
  "queued_bytes packets = (\<Sum>(s, p) \<leftarrow> packets. int (length (pk_bytes p)) + 80)"

definition apart :: "(int \<times> packet) list \<Rightarrow> bool" where
  "apart packets \<longleftrightarrow> sorted_wrt (\<lambda>(s, p) (s', p'). s \<noteq> s' \<and> \<not> overlaps p p') packets"

definition packet_within :: "receiver \<Rightarrow> packet \<Rightarrow> bool" where
  "packet_within r p \<longleftrightarrow> pk_bytes p \<noteq> [] \<and> int (length (pk_bytes p)) \<le> ro_maximumDataPayloadBytes (tr_options r)
     \<and> nc_nextCiphertextOffset (tr_checkpoint r) \<le> pk_offset p
     \<and> pk_offset p + int (length (pk_bytes p)) \<le> ro_expectedCiphertextLength (tr_options r)"

definition bounded_receiver :: "receiver \<Rightarrow> bool" where
  "bounded_receiver r \<longleftrightarrow>
     int (length (tr_packets r)) \<le> ro_maximumWindowPackets (tr_options r)
     \<and> tr_bufferedBytes r = queued_bytes (tr_packets r) \<and> tr_bufferedBytes r \<le> MAXIMUM_QUEUED_BYTES
     \<and> apart (tr_packets r) \<and> list_all (\<lambda>(_, p). packet_within r p) (tr_packets r)
     \<and> (case tr_pendingWindow r of
          Some p \<Rightarrow> int (length (pw_missingSequences p)) \<le> ro_maximumMissingSequences (tr_options r)
        | None \<Rightarrow> True)
     \<and> int (length (tr_manifest r)) = MANIFEST_LENGTH \<and> int (length (tr_manifestPresent r)) = MANIFEST_LENGTH"

abbreviation bounded_here :: "'z upload_world_scheme \<Rightarrow> bool" where
  "bounded_here w \<equiv> bounded_receiver (vw_receiver w)"

lemma stable_bounded [simp]: "upl.stable bounded_here" "upl.stable (\<lambda>w. vw_receiver w = r)"
  by (auto simp: upl.stable_def upload_same_def)

lemma new_bounded: "new_receiver options = Inr r \<Longrightarrow> bounded_receiver r"
  by (auto simp: new_receiver_def Let_def bounded_receiver_def queued_bytes_def apart_def MANIFEST_LENGTH_def
      MAXIMUM_QUEUED_BYTES_def split: if_splits)

text \<open>Programs that leave the receiver alone.\<close>

interpretation rcv: world_frame "\<lambda>w w' :: 'z upload_world_scheme. vw_receiver w' = vw_receiver w"
  by unfold_locales auto

lemma rcv_quiet: "upl.quiet prog \<Longrightarrow> rcv.quiet prog"
  by (simp add: upl.quiet_def rcv.quiet_def upload_same_def)

lemma rcv_blob_op: "rcv.quiet (blob_op q)"
proof -
  have "rcv.quiet (\<lambda>w. case q (va_opfs a) (vw_files w) of (r, fs) \<Rightarrow> (Some (storage_failure r), w\<lparr>vw_files := fs\<rparr>))" for a
    by (rule rcv.quietI) (simp add: split_def)
  then show ?thesis unfolding blob_op_def by (intro rcv.quiet_seq rcv_quiet [OF upl_await])
qed

lemma rcv_change: "rcv.quiet (change_blob f request)"
  unfolding change_blob_def
  by (intro rcv.quiet_seq rcv.quiet_basic rcv.quiet_sum rcv_blob_op)

lemma rcv_flush: "rcv.quiet (flush_packets f packets seqs offset)"
  by (induction seqs arbitrary: offset) (auto intro!: rcv.quiet_intros rcv_change split: option.split)

lemma rcv_flushWindow: "rcv.quiet (flushWindow f a b)"
  unfolding flushWindow_def by (intro rcv.quiet_seq rcv_quiet [OF upl_state] rcv.quiet_basic rcv_flush)

text \<open>One packet more.\<close>

lemma apart_snoc:
  "apart packets \<Longrightarrow> map_of packets s = None \<Longrightarrow> \<not> list_ex (\<lambda>(_, q). overlaps q p) packets \<Longrightarrow> apart (packets @ [(s, p)])"
  by (auto simp: apart_def sorted_wrt_append list_ex_iff map_of_eq_None_iff image_iff)

lemma bounded_snoc:
  assumes "bounded_receiver r" and "map_of (tr_packets r) s = None" and "packet_within r p"
    and "int (length (tr_packets r)) < ro_maximumWindowPackets (tr_options r)"
    and "\<not> list_ex (\<lambda>(_, q). overlaps q p) (tr_packets r)"
    and "tr_bufferedBytes r + int (length (pk_bytes p)) + 80 \<le> MAXIMUM_QUEUED_BYTES"
  shows "bounded_receiver (r\<lparr>tr_packets := tr_packets r @ [(s, p)],
    tr_bufferedBytes := tr_bufferedBytes r + int (length (pk_bytes p)) + 80\<rparr>)"
  using assms apart_snoc [of "tr_packets r" s p]
  by (auto simp: bounded_receiver_def queued_bytes_def packet_within_def list_all_iff split: option.splits)

text \<open>Reasoning from each receiver a program may start with.\<close>

lemma bounded_each:
  fixes prog :: "('z upload_world_scheme, 'a) prog"
  assumes "\<And>r. bounded_receiver r \<Longrightarrow> ensures (\<lambda>w. vw_receiver w = r) prog (\<lambda>_. bounded_here) bounded_here"
  shows "ensures bounded_here prog (\<lambda>_. bounded_here) bounded_here"
proof (rule tripleI)
  fix w :: "'z upload_world_scheme" and r w'
  assume "bounded_here w" and "prog w = (r, w')"
  from tripleD [OF assms [OF this(1)] refl this(2)]
  show "case r of None \<Rightarrow> bounded_here w' | Some (Inl e) \<Rightarrow> bounded_here w' | Some (Inr x) \<Rightarrow> bounded_here w'" .
qed

lemma bounded_state_seq:
  assumes "bounded_receiver r"
    and "ensures (\<lambda>w. vw_receiver w = r) (h (g r)) (\<lambda>_. bounded_here) (bounded_here :: 'z upload_world_scheme \<Rightarrow> bool)"
  shows "ensures (\<lambda>w. vw_receiver w = r) (seq (receiver_state g) h) (\<lambda>_. bounded_here) (bounded_here :: 'z upload_world_scheme \<Rightarrow> bool)"
  using assms unfolding triple_def receiver_state_def get_def seq_def by simp

lemma bounded_quiet_seq:
  assumes "rcv.quiet prog" and "bounded_receiver r"
    and "\<And>x. ensures (\<lambda>w. vw_receiver w = r) (h x) (\<lambda>_. bounded_here) (bounded_here :: 'z upload_world_scheme \<Rightarrow> bool)"
  shows "ensures (\<lambda>w. vw_receiver w = r) (seq prog h) (\<lambda>_. bounded_here) (bounded_here :: 'z upload_world_scheme \<Rightarrow> bool)"
proof (rule triple_seq [where R = "\<lambda>_ w. vw_receiver w = r", OF _ assms(3)])
  show "ensures (\<lambda>w. vw_receiver w = r) prog (\<lambda>_ w. vw_receiver w = r) bounded_here"
    by (rule triple_weaken [OF rcv.triple_quiet [where P = "\<lambda>w. vw_receiver w = r", OF assms(1)]])
      (use assms(2) in \<open>auto simp: rcv.stable_def\<close>)
qed

lemma bounded_set:
  assumes "\<And>r. bounded_receiver r \<Longrightarrow> bounded_receiver (g r)"
  shows "ensures bounded_here (set_receiver g) (\<lambda>_. bounded_here) bounded_here"
  by (auto simp: set_receiver_def assms intro!: triple_modify)

lemma bounded_data: "ensures bounded_here (receiveData sha256 s offset payload) (\<lambda>_. bounded_here) bounded_here"
proof (rule bounded_each)
  fix r
  assume r: "bounded_receiver r"
  show "ensures (\<lambda>w. vw_receiver w = r) (receiveData sha256 s offset payload) (\<lambda>_. bounded_here) bounded_here"
    unfolding receiveData_def Let_def
  proof (rule bounded_state_seq [OF r], rule triple_if, goal_cases)
    case 1
    show ?case using r by (auto intro: triple_raise)
  next
    case 2
    show ?case
    proof (rule bounded_quiet_seq [OF rcv.quiet_basic(3) r])
      fix digest
      let ?p = "\<lparr>pk_offset = offset, pk_bytes = payload, pk_sha256 = digest\<rparr>"
      from 2 have p: "packet_within r ?p" by (auto simp: packet_within_def)
      show "ensures (\<lambda>w. vw_receiver w = r) (case map_of (tr_packets (id r)) s of
             Some existing \<Rightarrow>
               if pk_offset existing \<noteq> offset
                  \<or> length (pk_bytes existing) \<noteq> length payload
                  \<or> \<not> equalBytes (pk_sha256 existing) digest
                  \<or> \<not> equalBytes (pk_bytes existing) payload
               then raise (SdkErr integrityFailure) else ret ()
           | None \<Rightarrow>
               if int (length (tr_packets (id r))) \<ge> ro_maximumWindowPackets (tr_options (id r))
                  \<or> list_ex (\<lambda>(_, candidate). overlaps candidate ?p) (tr_packets (id r))
                  \<or> tr_bufferedBytes (id r) + int (length payload) + 80 > MAXIMUM_QUEUED_BYTES
               then raise (SdkErr protocolFailure)
               else set_receiver (\<lambda>r. r\<lparr>tr_packets := tr_packets r @ [(s, ?p)],
                      tr_bufferedBytes := tr_bufferedBytes r + int (length payload) + 80\<rparr>))
        (\<lambda>_. bounded_here) bounded_here"
      proof (cases "map_of (tr_packets r) s")
        case None
        show ?thesis
          unfolding id_apply None option.case set_receiver_def
          by (intro triple_if triple_raise triple_modify) (use r bounded_snoc [OF r None p] in auto)
      qed (use r in \<open>auto intro!: triple_if triple_raise triple_ret\<close>)
    qed
  qed
qed

lemma bounded_stage:
  assumes r: "bounded_receiver r" and "int (length missing) \<le> ro_maximumMissingSequences (tr_options r)"
  shows "ensures (\<lambda>w. vw_receiver w = r) (stage_window f frame missing e h digest) (\<lambda>_. bounded_here) bounded_here"
proof -
  have noting: "ensures (\<lambda>w. vw_receiver w = r) (note_window frame missing e h digest) (\<lambda>_. bounded_here) bounded_here"
    unfolding note_window_def set_receiver_def
    by (rule triple_seq [OF triple_modify [where Q = "\<lambda>_. bounded_here"]])
      (use assms in \<open>auto simp: bounded_receiver_def packet_within_def split: option.splits intro: triple_ret\<close>)
  show ?thesis
    unfolding stage_window_def
    by (intro triple_if noting bounded_quiet_seq [OF rcv_flushWindow r]) (use r in \<open>auto intro: triple_raise\<close>)
qed

lemma bounded_window: "ensures bounded_here (receiveWindowEnd sha256 f frame) (\<lambda>_. bounded_here) bounded_here"
proof (rule bounded_each)
  fix r
  assume r: "bounded_receiver r"
  show "ensures (\<lambda>w. vw_receiver w = r) (receiveWindowEnd sha256 f frame) (\<lambda>_. bounded_here) bounded_here"
    unfolding receiveWindowEnd_def Let_def
  proof (rule bounded_state_seq [OF r], intro triple_if, goal_cases)
    case 3
    show ?case
    proof (rule bounded_quiet_seq [OF rcv.quiet_basic(3) r], clarsimp)
      fix e h
      show "ensures (\<lambda>w. vw_receiver w = r) (seq (hashProspectivePrefix sha256 f (we_firstSequence frame) h)
          (stage_window f frame (missing_sequences (tr_packets r) frame) e h)) (\<lambda>_. bounded_here) bounded_here"
        by (rule bounded_quiet_seq [OF rcv_quiet [OF upl_prospective] r], rule bounded_stage [OF r]) (use 3 in simp)
    qed
  qed (use r in \<open>auto intro: triple_raise\<close>)
qed

lemma written_length:
  "write_manifest index chunk (manifest, present) = ((manifest', present'), consistent) \<Longrightarrow>
     length manifest' = length manifest \<and> length present' = length present"
  by (induction chunk arbitrary: index manifest present) (auto split: if_splits)

lemma bounded_same:
  assumes "bounded_receiver r" and "tr_packets r' = tr_packets r" and "tr_options r' = tr_options r"
    and "tr_bufferedBytes r' = tr_bufferedBytes r" and "tr_checkpoint r' = tr_checkpoint r"
    and "tr_pendingWindow r' = tr_pendingWindow r"
    and "length (tr_manifest r') = length (tr_manifest r)" and "length (tr_manifestPresent r') = length (tr_manifestPresent r)"
  shows "bounded_receiver r'"
  using assms by (simp add: bounded_receiver_def packet_within_def cong: option.case_cong)

lemma bounded_manifest: "ensures bounded_here (receiveManifest len offset digest chunk) (\<lambda>_. bounded_here) bounded_here"
proof (rule bounded_each)
  fix r
  assume r: "bounded_receiver r"
  show "ensures (\<lambda>w. vw_receiver w = r) (receiveManifest len offset digest chunk) (\<lambda>_. bounded_here) bounded_here"
    unfolding receiveManifest_def
  proof (rule bounded_state_seq [OF r], intro triple_if, goal_cases)
    case 2
    obtain manifest present consistent where w: "write_manifest (nat offset) chunk (tr_manifest r, tr_manifestPresent r)
        = ((manifest, present), consistent)" by (metis prod.collapse)
    have noted: "bounded_receiver (r\<lparr>tr_manifest := manifest, tr_manifestPresent := present\<rparr>)"
      using written_length [OF w] by (intro bounded_same [OF r]) simp_all
    have "ensures bounded_here (set_receiver (\<lambda>r. r\<lparr>tr_manifestSha256 := Some digest\<rparr>)) (\<lambda>_. bounded_here) bounded_here"
      by (rule bounded_set) (erule bounded_same, simp_all)
    then have "ensures bounded_here (if \<not> consistent then raise (SdkErr integrityFailure)
        else set_receiver (\<lambda>r. r\<lparr>tr_manifestSha256 := Some digest\<rparr>)) (\<lambda>_. bounded_here) bounded_here"
      by (auto intro: triple_if triple_raise)
    moreover have "ensures (\<lambda>w. vw_receiver w = r) (set_receiver (\<lambda>r. r\<lparr>tr_manifest := manifest, tr_manifestPresent := present\<rparr>))
        (\<lambda>_. bounded_here) bounded_here"
      unfolding set_receiver_def by (rule triple_modify) (use noted in simp)
    ultimately show ?case unfolding id_apply w prod.case by (rule triple_seq [rotated])
  qed (use r in \<open>auto intro: triple_raise\<close>)
qed

lemma bounded_quiet: "rcv.quiet prog \<Longrightarrow> ensures bounded_here prog (\<lambda>_. bounded_here) bounded_here"
  by (rule rcv.triple_quiet) (auto simp: rcv.stable_def)

lemma rcv_eof: "rcv.quiet (receiveEof sha256 f final blocks len digest manifestDigest)"
  unfolding receiveEof_def check_end_def
  by (intro rcv.quiet_intros rcv_quiet [OF upl_state] rcv_quiet [OF upl_size] rcv_quiet [OF upl_hash])

lemma bounded_frame: "ensures bounded_here (receive_frame sha256 f frame) (\<lambda>_. bounded_here) bounded_here"
proof -
  have "ensures bounded_here (set_receiver (\<lambda>r. r\<lparr>tr_completed := True\<rparr>)) (\<lambda>_. bounded_here) bounded_here"
    by (rule bounded_set) (erule bounded_same, simp_all)
  then show ?thesis
    by (cases frame)
      (auto simp: receive_frame_def intro!: triple_seq [OF bounded_data] triple_seq [OF bounded_window]
        triple_seq [OF bounded_manifest] triple_seq [OF bounded_quiet [OF rcv_eof]] triple_ret triple_raise
        elim: triple_seq)
qed

lemma bounded_receive: "ensures bounded_here (receive sha256 f frame) (\<lambda>_. bounded_here) bounded_here"
proof -
  have terminal: "ensures bounded_here (set_receiver (\<lambda>r. r\<lparr>tr_terminal := True\<rparr>)) (\<lambda>_. bounded_here) bounded_here"
    by (rule bounded_set) (erule bounded_same, simp_all)
  have ends: "ensures bounded_here (seq (set_receiver (\<lambda>r. r\<lparr>tr_terminal := True\<rparr>)) (\<lambda>_. raise e)) (\<lambda>_. bounded_here) bounded_here" for e
    by (rule triple_seq [OF terminal triple_raise])
  show ?thesis
    unfolding receive_def
    by (intro triple_seq [OF bounded_quiet [OF rcv_quiet [OF upl_state]]] triple_if triple_raise ends
        triple_catching [OF bounded_frame]) simp_all
qed

text \<open>Every receiver of a history.\<close>

lemma bounded_run:
  assumes "ensures bounded_here prog (\<lambda>_. bounded_here) bounded_here" and "bounded_here w" and "prog w = (r, w')"
  shows "bounded_here w'"
  using tripleD [OF assms] by (auto split: option.splits sum.splits)

lemma transfer_bounded: "transfers sha256 f saved alive w acks \<Longrightarrow> alive \<Longrightarrow> bounded_here w"
proof (induction rule: transfers.induct)
  case (T_open saved alive w1 acks options r answer w)
  then have run: "prepare sha256 f (w1\<lparr>vw_receiver := r\<rparr>) = (Some (Inr ()), w)" by simp
  have pos: "0 \<le> nc_nextCiphertextOffset (tr_checkpoint r)" using new_receiver_Inr [OF T_open(3)] by simp
  have "blob_holds f (file_content (vw_files w1) f) r (w1\<lparr>vw_receiver := r\<rparr>)" by (simp add: blob_holds_def)
  from tripleD [OF prepare_triple [OF pos] this run] have "vw_receiver w = r\<lparr>tr_prepared := True\<rparr>"
    by (auto simp: blob_holds_def)
  then show ?case using bounded_same [OF new_bounded [OF T_open(3)]] by simp
next
  case (T_frame saved w1 acks frame answer w)
  then show ?case using bounded_run [OF bounded_receive] by blast
next
  case (T_repair saved w1 acks missing answer w)
  then show ?case using repaired(1) by blast
next
  case (T_persist saved w1 acks answer w)
  then have "bounded_here w1" by simp
  with T_persist(2) show ?case
    by (auto simp: checkpointDidPersist_def receiver_state_def set_receiver_def modify_def seq_def get_def raise_def
        bounded_receiver_def packet_within_def split: option.splits if_splits)
next
  case (T_ack saved w1 acks c answer w)
  then have "bounded_here w1" by simp
  moreover from this have "0 \<le> ro_maximumWindowPackets (tr_options (vw_receiver w1))"
    by (simp add: bounded_receiver_def)
  ultimately show ?case using T_ack(2)
    by (auto simp: windowAcknowledgement_def receiver_state_def set_receiver_def modify_def seq_def get_def raise_def ret_def
        bounded_receiver_def queued_bytes_def apart_def MAXIMUM_QUEUED_BYTES_def split: option.splits if_splits)
qed auto

end
