(* ===== verification/ReceiverProps.thy ===== *)
theory ReceiverProps
  imports ReceiverBounds HonestTransfer
begin

text \<open>
  The promises of the receiver of an encrypted upload, over the histories of \<open>ReceiverHistory\<close> and the honest
  device of \<open>HonestTransfer\<close>; the transfer of such a device is one of the histories.
\<close>

section \<open>An honest transfer is a history\<close>

lemma history_all:
  assumes "transfers sha256 f saved True w1 acks" and "receive_all sha256 f frames w1 = (Some (Inr ()), w)"
  shows "transfers sha256 f saved True w acks"
  using assms
proof (induction frames arbitrary: w1)
  case (Cons frame frames)
  from Cons.prems(2) obtain e w2 where first: "receive sha256 f frame w1 = (Some (Inr e), w2)"
    and rest: "receive_all sha256 f frames w2 = (Some (Inr ()), w)"
    by (auto simp: seq_def split: prod.splits option.splits sum.splits)
  from T_frame [OF Cons.prems(1) first] have "transfers sha256 f saved True w2 acks" by simp
  from Cons.IH [OF this rest] show ?case .
qed (simp add: ret_def)

lemma history_rounds:
  assumes "transfers sha256 f saved True w1 acks" and "receive_rounds sha256 f rounds boundary w1 = (Some (Inr ()), w)"
  shows "transfers sha256 f saved True w acks"
  using assms
proof (induction rounds arbitrary: w1)
  case (Cons frames rest)
  from Cons.prems(2) obtain e w2 w3 where all: "receive_all sha256 f frames w1 = (Some (Inr ()), w2)"
    and boundary: "receive sha256 f boundary w2 = (Some (Inr e), w3)"
    and rest: "receive_rounds sha256 f rest boundary w3 = (Some (Inr ()), w)"
    by (auto simp: window_round_def seq_def split: prod.splits option.splits sum.splits)
  from T_frame [OF history_all [OF Cons.prems(1) all] boundary] have "transfers sha256 f saved True w3 acks" by simp
  from Cons.IH [OF this rest] show ?case .
qed (simp add: ret_def)

text \<open>The acknowledgement of a whole window.\<close>

definition window_ack :: "window \<Rightarrow> native_checkpoint \<Rightarrow> v2_frame" where
  "window_ack v c = F_window_ack (wd_index v) (window_last v) (nc_nextCiphertextOffset c) (nc_prefixSha256 c) (nc_revision c) []"

lemma history_window:
  fixes w1 :: "'z upload_world_scheme"
  assumes "transfers (\<lambda>bs. Inr (sha bs)) f saved True w1 acks" and "ready f bs r w1" and "idle r"
    and "window_fits (length bs) v r" and "rounds_cover (length (wd_pieces v)) {} rounds" and sha: "\<And>x. length (sha x) = 32"
    and c: "c = boundary_checkpoint (window_boundary sha bs v)"
  shows "\<exists>w. transfers (\<lambda>bs. Inr (sha bs)) f c True w (window_ack v c # acks)
    \<and> ready f (bs @ concat (wd_pieces v)) (at_checkpoint r c) (w :: 'z upload_world_scheme)"
proof -
  have "waiting sha bs v [] r" using assms(3) by (simp add: waiting_def idle_def)
  from surely_rounds [OF assms(4) this _ sha] assms(5) idle_holding [OF assms(3)]
  have rounds: "surely (ready f bs r :: 'z upload_world_scheme \<Rightarrow> bool)
      (receive_rounds (\<lambda>bs. Inr (sha bs)) f (map (piece_round (session r) (length bs) v) rounds)
        (session_frame (session r) (boundary_frame (window_boundary sha bs v))))
      (\<lambda>_. complete sha bs v f r)" by simp
  from surely_unitD [OF rounds assms(2)] obtain w2 where
    run: "receive_rounds (\<lambda>bs. Inr (sha bs)) f (map (piece_round (session r) (length bs) v) rounds)
        (session_frame (session r) (boundary_frame (window_boundary sha bs v))) w1 = (Some (Inr ()), w2)"
    and complete: "complete sha bs v f r w2" .
  from complete obtain p where p: "tr_pendingWindow (vw_receiver w2) = Some p" "pw_missingSequences p = []" "pw_checkpoint p = c"
    unfolding complete_def c by (auto simp: ready_def blob_holds_def)
  from T_save [OF history_rounds [OF assms(1) run] p(1,2)] p(3) have saved: "transfers (\<lambda>bs. Inr (sha bs)) f c True w2 acks" by simp
  from acknowledges [OF assms(3) complete c] obtain w where
    both: "seq (checkpointDidPersist c) (\<lambda>_. windowAcknowledgement c) w2 = (Some (Inr (session_frame (session r) (window_ack v c))), w)"
    and w: "ready f (bs @ concat (wd_pieces v)) (at_checkpoint r c) w"
    unfolding window_ack_def by blast
  then obtain w3 where "checkpointDidPersist c w2 = (Some (Inr ()), w3)"
    and ack: "windowAcknowledgement c w3 = (Some (Inr (session_frame (session r) (window_ack v c))), w)"
    by (auto simp: seq_def split: prod.splits option.splits sum.splits)
  with T_ack [OF T_persist [OF saved] ack] w show ?thesis by (auto simp: sent_def session_frame_def)
qed

lemma history_windows:
  fixes w1 :: "'z upload_world_scheme"
  assumes "transfers (\<lambda>bs. Inr (sha bs)) f saved True w1 acks" and "ready f bs r w1" and "idle r" and "windows_fit sha bs r ws"
    and sha: "\<And>x. length (sha x) = 32"
  shows "\<exists>saved' w acks'. transfers (\<lambda>bs. Inr (sha bs)) f saved' True w (acks' @ acks) \<and> length acks' = length ws
    \<and> ready f (bs @ sent_bytes ws) (last_receiver sha bs r ws) (w :: 'z upload_world_scheme)"
  using assms(1-4)
proof (induction ws arbitrary: saved w1 acks bs r)
  case Nil
  then show ?case by (auto simp: sent_bytes_def)
next
  case (Cons x rest)
  obtain v rounds where x: "x = (v, rounds)" by fastforce
  with Cons.prems(4) have fits: "window_fits (length bs) v r" "rounds_cover (length (wd_pieces v)) {} rounds"
    and rest: "windows_fit sha (bs @ concat (wd_pieces v)) (after_window sha bs r v) rest" by simp_all
  from history_window [OF Cons.prems(1-3) fits sha refl] obtain c w2 where
    "transfers (\<lambda>bs. Inr (sha bs)) f c True w2 (window_ack v c # acks)"
    "ready f (bs @ concat (wd_pieces v)) (after_window sha bs r v) (w2 :: 'z upload_world_scheme)"
    by (auto simp: after_window_def)
  from Cons.IH [OF this _ rest] Cons.prems(3) obtain saved' w acks' where
    "transfers (\<lambda>bs. Inr (sha bs)) f saved' True w (acks' @ window_ack v c # acks)" "length acks' = length rest"
    "ready f ((bs @ concat (wd_pieces v)) @ sent_bytes rest) (last_receiver sha (bs @ concat (wd_pieces v)) (after_window sha bs r v) rest)
       (w :: 'z upload_world_scheme)" by auto
  then show ?case
    unfolding x by (intro exI [of _ saved'] exI [of _ w] exI [of _ "acks' @ [window_ack v c]"]) (simp add: sent_bytes_def)
qed

section \<open>A scene\<close>

definition scene_sha :: "bytes \<Rightarrow> bytes" where
  "scene_sha bs = (if bs = [] then EMPTY_SHA256 else replicate 31 0 @ [of_nat (length bs)])"

definition scene_window :: window where
  "scene_window = \<lparr>wd_index = 0, wd_first = 1, wd_pieces = [[1, 2], [3]], wd_revision = 1\<rparr>"

text \<open>The second piece arrives twice, the first one not before it is asked for.\<close>

definition scene_deliveries :: "delivery list" where
  "scene_deliveries = [(scene_window, [[1, 1], [0]])]"

definition scene_options :: receiver_options where
  "scene_options = \<lparr>ro_transportSessionId = 7, ro_expectedCiphertextLength = 3, ro_expectedCiphertextSha256 = scene_sha [1, 2, 3],
     ro_maximumDataPayloadBytes = 10, ro_maximumWindowPackets = 4, ro_maximumMissingSequences = 4,
     ro_checkpoint = initialEncryptedUploadV2Checkpoint\<rparr>"

definition scene_receiver :: receiver where
  "scene_receiver = \<lparr>tr_options = scene_options, tr_checkpoint = initialEncryptedUploadV2Checkpoint, tr_packets = [],
     tr_pendingWindow = None, tr_manifest = replicate 580 0, tr_manifestPresent = replicate 580 0,
     tr_manifestSha256 = None, tr_prepared = False, tr_terminal = False, tr_completed = False, tr_bufferedBytes = 0\<rparr>"

definition scene_file :: "jsstring \<times> jsstring" where
  "scene_file = (js ''d'', js ''b'')"

definition scene_manifest :: bytes where
  "scene_manifest = replicate 580 5"

text \<open>There are two bytes in the blob that no checkpoint stands for.\<close>

definition scene_world :: upload_world where
  "scene_world = \<lparr>vw_answers = (\<lambda>_. \<lparr>va_stop = False, va_opfs = opfs_ok\<rparr>), vw_time = 0,
     vw_files = (\<lambda>_. None)(scene_file \<mapsto> [9, 9]), vw_receiver = scene_receiver\<rparr>"

lemma scene_sha_length: "length (scene_sha x) = 32"
  by (simp add: scene_sha_def)

lemma scene_new: "new_receiver scene_options = Inr scene_receiver"
  by (simp add: new_receiver_def scene_options_def scene_receiver_def scene_sha_length initialEncryptedUploadV2Checkpoint_def
      MANIFEST_LENGTH_def max_safe_integer_def Let_def)

lemma scene_sent: "sent_bytes scene_deliveries = [1, 2, 3]"
  by (simp add: sent_bytes_def scene_deliveries_def scene_window_def)

lemma scene_fits: "windows_fit scene_sha [] (scene_receiver\<lparr>tr_prepared := True\<rparr>) scene_deliveries"
  by (auto simp: scene_deliveries_def window_fits_def scene_window_def scene_receiver_def scene_options_def
      initialEncryptedUploadV2Checkpoint_def MAXIMUM_QUEUED_BYTES_def max_safe_integer_def active_def less_Suc_eq numeral_2_eq_2
      intro: exI [of _ "0::nat"])

lemma scene_protocol: "protocol_windows scene_options 1 0 scene_deliveries"
  by code_simp

lemma scene_answers: "answering scene_world"
  by (simp add: answering_def scene_world_def)

lemma scene_bytes: "file_content (vw_files scene_world) scene_file = [9, 9]"
  by (simp add: scene_world_def file_content_def)

lemma scene_settled: "ready scene_file [9, 9] scene_receiver scene_world"
  using scene_answers scene_bytes by (simp add: ready_def blob_holds_def) (simp add: scene_world_def)

lemma scene_covered: "covered (\<lambda>bs. Inr (scene_sha bs)) [9, 9] (ro_checkpoint scene_options)"
  by (simp add: covered_def scene_options_def initialEncryptedUploadV2Checkpoint_def scene_sha_def)

lemma scene_opened:
  "\<exists>w. transfers (\<lambda>bs. Inr (scene_sha bs)) scene_file initialEncryptedUploadV2Checkpoint True w []
     \<and> ready scene_file [] (scene_receiver\<lparr>tr_prepared := True\<rparr>) (w :: upload_world)"
proof -
  have small: "small_blob [9, 9]" by (simp add: small_blob_def max_safe_integer_def)
  have "tr_checkpoint scene_receiver = ro_checkpoint scene_options" by (simp add: scene_receiver_def scene_options_def)
  with surely_prepare [OF small, of "\<lambda>bs. Inr (scene_sha bs)" scene_receiver scene_file] scene_covered
  have "surely (ready scene_file [9, 9] scene_receiver) (prepare (\<lambda>bs. Inr (scene_sha bs)) scene_file)
      (\<lambda>_. ready scene_file [] (scene_receiver\<lparr>tr_prepared := True\<rparr>) :: upload_world \<Rightarrow> bool)"
    by (simp add: scene_options_def initialEncryptedUploadV2Checkpoint_def max_safe_integer_def)
  from surely_unitD [OF this scene_settled] obtain w where
    run: "prepare (\<lambda>bs. Inr (scene_sha bs)) scene_file scene_world = (Some (Inr ()), w)"
    and w: "ready scene_file [] (scene_receiver\<lparr>tr_prepared := True\<rparr>) (w :: upload_world)" .
  have "scene_world\<lparr>vw_receiver := scene_receiver\<rparr> = scene_world" by (simp add: scene_world_def)
  with run have opens: "prepare (\<lambda>bs. Inr (scene_sha bs)) scene_file (scene_world\<lparr>vw_receiver := scene_receiver\<rparr>) = (Some (Inr ()), w)"
    by simp
  have "ro_checkpoint scene_options = initialEncryptedUploadV2Checkpoint" by (simp add: scene_options_def)
  from T_open [OF T_new this scene_new opens] w show ?thesis by auto
qed

text \<open>The scene up to the end of the window.\<close>

lemma scene_history:
  "\<exists>saved w acks. transfers (\<lambda>bs. Inr (scene_sha bs)) scene_file saved True (w :: upload_world) acks \<and> length acks = 1
     \<and> ready scene_file [1, 2, 3] (last_receiver scene_sha [] (scene_receiver\<lparr>tr_prepared := True\<rparr>) scene_deliveries) w"
proof -
  from scene_opened obtain w1 where w1: "transfers (\<lambda>bs. Inr (scene_sha bs)) scene_file initialEncryptedUploadV2Checkpoint True w1 []"
    "ready scene_file [] (scene_receiver\<lparr>tr_prepared := True\<rparr>) (w1 :: upload_world)" by blast
  have "idle (scene_receiver\<lparr>tr_prepared := True\<rparr>)" by (simp add: idle_def scene_receiver_def)
  from history_windows [OF w1 this scene_fits scene_sha_length] show ?thesis
    unfolding scene_sent by (auto simp: scene_deliveries_def)
qed

section \<open>What has been acknowledged is kept\<close>

text \<open>
  C4.  The device may drop what a window acknowledgement covers: whatever it sends afterwards, wherever the page is
  closed and however often the receiver is opened again, the bytes up to the acknowledged offset stay in the blob with the
  digest that was acknowledged, and the saved checkpoint is not before them and is itself covered by the blob.
\<close>

theorem acknowledged_prefix_kept:
  assumes "transfers sha256 f saved alive w acks" and "sha256 [] = Inr EMPTY_SHA256"
    and "F_window_ack i highest offset digest revision [] \<in> set acks"
  shows "0 \<le> offset \<and> offset \<le> nc_nextCiphertextOffset saved
    \<and> nat (nc_nextCiphertextOffset saved) \<le> length (file_content (vw_files w) f)
    \<and> sha256 (take (nat offset) (file_content (vw_files w) f)) = Inr digest
    \<and> sha256 (take (nat (nc_nextCiphertextOffset saved)) (file_content (vw_files w) f)) = Inr (nc_prefixSha256 saved)"
proof -
  from transfer_invariant [OF assms(1,2)] have d: "durable sha256 (file_content (vw_files w) f) saved acks" by blast
  then have "acknowledged sha256 (file_content (vw_files w) f) (nc_nextCiphertextOffset saved)
      (F_window_ack i highest offset digest revision [])"
    using assms(3) by (auto simp: durable_def acks_told_def list_all_iff)
  with d show ?thesis by (simp add: durable_def covered_def)
qed

theorem acknowledged_prefix_kept_witness:
  "\<exists>(w :: upload_world) c. transfers (\<lambda>bs. Inr (scene_sha bs)) scene_file c True w [window_ack scene_window c]
     \<and> nat (nc_nextCiphertextOffset c) \<le> length (file_content (vw_files w) scene_file)
     \<and> scene_sha (take (nat (nc_nextCiphertextOffset c)) (file_content (vw_files w) scene_file)) = nc_prefixSha256 c"
proof -
  from scene_opened obtain w1 where w1: "transfers (\<lambda>bs. Inr (scene_sha bs)) scene_file initialEncryptedUploadV2Checkpoint True w1 []"
    "ready scene_file [] (scene_receiver\<lparr>tr_prepared := True\<rparr>) (w1 :: upload_world)" by blast
  have idle: "idle (scene_receiver\<lparr>tr_prepared := True\<rparr>)" by (simp add: idle_def scene_receiver_def)
  from scene_fits have fits: "window_fits (length ([] :: bytes)) scene_window (scene_receiver\<lparr>tr_prepared := True\<rparr>)"
    "rounds_cover (length (wd_pieces scene_window)) {} [[1, 1], [0]]" by (simp_all add: scene_deliveries_def)
  from history_window [OF w1 idle fits scene_sha_length refl] obtain w c where
    w: "transfers (\<lambda>bs. Inr (scene_sha bs)) scene_file c True (w :: upload_world) [window_ack scene_window c]" by auto
  have "Inr (scene_sha []) = (Inr EMPTY_SHA256 :: js_error + bytes)" by (simp add: scene_sha_def)
  from acknowledged_prefix_kept [OF w this, unfolded window_ack_def, of "wd_index scene_window" "window_last scene_window" "nc_nextCiphertextOffset c"
      "nc_prefixSha256 c" "nc_revision c"]
  show ?thesis by (intro exI [of _ w] exI [of _ c]) (use w in \<open>simp add: window_ack_def\<close>)
qed

section \<open>What is reported as complete\<close>

text \<open>
  C15.  When the receiver reports a completed transfer, the blob holds exactly the ciphertext that was expected, by length
  and by digest, the manifest has the digest of the evidence, and the evidence describes that ciphertext.
\<close>

theorem completion_describes_blob:
  assumes "transfers sha256 f saved True w1 acks" and "sha256 [] = Inr EMPTY_SHA256"
    and "receive sha256 f frame w1 = (Some (Inr (Some (Completed manifest evidence))), w)"
  shows "int (length (file_content (vw_files w) f)) = ro_expectedCiphertextLength (tr_options (vw_receiver w))
    \<and> sha256 (file_content (vw_files w) f) = Inr (ro_expectedCiphertextSha256 (tr_options (vw_receiver w)))
    \<and> sha256 manifest = Inr (ev_manifestSha256 evidence)
    \<and> ev_ciphertextLength evidence = int (length (file_content (vw_files w) f))
    \<and> ev_ciphertextSha256 evidence = ro_expectedCiphertextSha256 (tr_options (vw_receiver w))"
proof -
  from transfer_invariant [OF assms(1,2)] have "inv_of sha256 f w1" by (simp add: in_step_def inv_of_def)
  from tripleD [OF receive_triple this assms(3)] show ?thesis by (simp add: outcome_here_def event_here_def)
qed

lemma scene_last: "idle (last_receiver scene_sha [] (scene_receiver\<lparr>tr_prepared := True\<rparr>) scene_deliveries)"
    "active (last_receiver scene_sha [] (scene_receiver\<lparr>tr_prepared := True\<rparr>) scene_deliveries)"
    "\<not> tr_completed (last_receiver scene_sha [] (scene_receiver\<lparr>tr_prepared := True\<rparr>) scene_deliveries)"
    "tr_options (last_receiver scene_sha [] (scene_receiver\<lparr>tr_prepared := True\<rparr>) scene_deliveries) = scene_options"
    "knows_manifest scene_sha scene_manifest {} (last_receiver scene_sha [] (scene_receiver\<lparr>tr_prepared := True\<rparr>) scene_deliveries)
       (last_receiver scene_sha [] (scene_receiver\<lparr>tr_prepared := True\<rparr>) scene_deliveries)"
    "nc_highestContiguousSequence (tr_checkpoint (last_receiver scene_sha [] (scene_receiver\<lparr>tr_prepared := True\<rparr>) scene_deliveries)) = Some 2"
proof -
  let ?r = "last_receiver scene_sha [] (scene_receiver\<lparr>tr_prepared := True\<rparr>) scene_deliveries"
  have r: "?r = scene_receiver\<lparr>tr_prepared := True, tr_checkpoint := boundary_checkpoint (window_boundary scene_sha [] scene_window)\<rparr>"
    by (simp add: scene_deliveries_def after_window_def)
  show "idle ?r" "active ?r" "\<not> tr_completed ?r" "tr_options ?r = scene_options"
    unfolding r by (simp_all add: idle_def active_def scene_receiver_def)
  show "nc_highestContiguousSequence (tr_checkpoint ?r) = Some 2"
    unfolding r by (simp add: boundary_checkpoint_def window_last_def scene_window_def)
  show "knows_manifest scene_sha scene_manifest {} ?r ?r"
    unfolding knows_manifest_def r
    by (rule exI [of _ "replicate 580 0"], rule exI [of _ "replicate 580 0"], rule exI [of _ None])
      (simp add: scene_receiver_def manifest_known_def scene_manifest_def)
qed

lemma scene_chunks: "list_all (chunk_fits scene_manifest) [(300, 280), (0, 400)]"
    "{..<length scene_manifest} \<subseteq> {} \<union> chunks_cover [(300, 280), (0, 400)]" "int (length scene_manifest) = MANIFEST_LENGTH"
  by (auto simp: chunk_fits_def chunks_cover_def scene_manifest_def MANIFEST_LENGTH_def)

theorem completion_describes_blob_witness:
  "\<exists>(w1 :: upload_world) w frame manifest evidence. receive (\<lambda>bs. Inr (scene_sha bs)) scene_file frame w1
       = (Some (Inr (Some (Completed manifest evidence))), w)
     \<and> int (length (file_content (vw_files w) scene_file)) = ro_expectedCiphertextLength (tr_options (vw_receiver w))
     \<and> ev_ciphertextLength evidence = int (length (file_content (vw_files w) scene_file))"
proof -
  let ?r = "last_receiver scene_sha [] (scene_receiver\<lparr>tr_prepared := True\<rparr>) scene_deliveries"
  from scene_history obtain saved w1 acks where w1: "transfers (\<lambda>bs. Inr (scene_sha bs)) scene_file saved True (w1 :: upload_world) acks"
    "ready scene_file [1, 2, 3] ?r w1" by blast
  have none: "tr_pendingWindow ?r = None" using scene_last(1) by (simp add: idle_def)
  from surely_unitD [OF surely_manifest [OF scene_last(2,3) none scene_last(5) scene_chunks(1,3) scene_sha_length] w1(2)]
  obtain w2 where all: "receive_all (\<lambda>bs. Inr (scene_sha bs)) scene_file
      (map (\<lambda>c. session_frame (session ?r) (manifest_frame scene_sha scene_manifest c)) [(300, 280), (0, 400)]) w1 = (Some (Inr ()), w2)"
    and known: "\<exists>r2. knows_manifest scene_sha scene_manifest ({} \<union> chunks_cover [(300, 280), (0, 400)]) ?r r2
      \<and> ready scene_file [1, 2, 3] r2 w2" .
  from known obtain r2 where w2: "ready scene_file [1, 2, 3] r2 w2"
    "knows_manifest scene_sha scene_manifest ({} \<union> chunks_cover [(300, 280), (0, 400)]) ?r r2" by (elim exE conjE)
  have options: "ro_expectedCiphertextLength (tr_options ?r) = int (length ([1, 2, 3] :: bytes))"
    "ro_expectedCiphertextSha256 (tr_options ?r) = scene_sha [1, 2, 3]" "small_blob [1, 2, 3]" "(1 :: int) \<noteq> 0"
    using scene_last(4) by (simp_all add: scene_options_def small_blob_def max_safe_integer_def)
  from surelyD [OF surely_eof [OF scene_last(2,3,1) w2(2) scene_chunks(2,3) scene_last(6) options(4,1,2,3)] w2(1)]
  obtain w where ending: "receive (\<lambda>bs. Inr (scene_sha bs)) scene_file
      (session_frame (session ?r) (eof_frame scene_sha [1, 2, 3] scene_manifest 2 1)) w2
      = (Some (Inr (Some (Completed scene_manifest (evidence_of scene_sha [1, 2, 3] scene_manifest 1)))), w)" by blast
  have "Inr (scene_sha []) = (Inr EMPTY_SHA256 :: js_error + bytes)" by (simp add: scene_sha_def)
  from completion_describes_blob [OF history_all [OF w1(1) all] this ending] have facts:
    "int (length (file_content (vw_files w) scene_file)) = ro_expectedCiphertextLength (tr_options (vw_receiver w))"
    "ev_ciphertextLength (evidence_of scene_sha [1, 2, 3] scene_manifest 1) = int (length (file_content (vw_files w) scene_file))"
    by blast+
  show ?thesis by (intro exI conjI, rule ending, rule facts(1), rule facts(2))
qed

section \<open>Going on after a crash\<close>

text \<open>
  C16.  Wherever a transfer was cut off, a receiver can be opened again on the saved checkpoint: when the file system answers,
  \<open>prepare\<close> succeeds and leaves in the blob exactly the bytes the checkpoint stands for.
\<close>

theorem saved_checkpoint_opens:
  fixes w :: "'z upload_world_scheme"
  assumes "transfers sha256 f saved alive w acks" and "sha256 [] = Inr EMPTY_SHA256"
    and "ro_checkpoint options = saved" and "new_receiver options = Inr r"
    and "answering w" and "int (length (file_content (vw_files w) f)) \<le> max_safe_integer"
  shows "\<exists>w'. prepare sha256 f (w\<lparr>vw_receiver := r\<rparr>) = (Some (Inr ()), w')
    \<and> file_content (vw_files w') f = take (nat (nc_nextCiphertextOffset saved)) (file_content (vw_files w) f)
    \<and> vw_receiver w' = r\<lparr>tr_prepared := True\<rparr> \<and> transfers sha256 f saved True w' acks"
proof -
  let ?bs = "file_content (vw_files w) f"
  have small: "small_blob ?bs" using assms(6) by (simp add: small_blob_def)
  note new = new_receiver_Inr [OF assms(4)]
  from transfer_invariant [OF assms(1,2)] have "durable sha256 ?bs saved acks" by blast
  with new assms(3) have covered: "covered sha256 ?bs (tr_checkpoint r)" by (simp add: durable_def)
  have safe: "nc_nextCiphertextOffset (tr_checkpoint r) \<le> max_safe_integer"
    using assms(4) new by (auto simp: new_receiver_def Let_def split: if_splits)
  have "ready f ?bs r (w\<lparr>vw_receiver := r\<rparr>)"
    using assms(5) by (simp add: ready_def blob_holds_def answering_def)
  from surely_unitD [OF surely_prepare [OF small covered safe] this] obtain w' where
    run: "prepare sha256 f (w\<lparr>vw_receiver := r\<rparr>) = (Some (Inr ()), w')"
    and w': "ready f (take (nat (nc_nextCiphertextOffset (tr_checkpoint r))) ?bs) (r\<lparr>tr_prepared := True\<rparr>) w'" .
  from T_open [OF assms(1,3,4) run] run w' new assms(3) show ?thesis by (auto simp: ready_def blob_holds_def)
qed

theorem saved_checkpoint_opens_witness:
  "\<exists>w'. prepare (\<lambda>bs. Inr (scene_sha bs)) scene_file scene_world = (Some (Inr ()), w')
    \<and> file_content (vw_files w') scene_file = []"
proof -
  have "(Inr (scene_sha []) :: js_error + bytes) = Inr EMPTY_SHA256" "ro_checkpoint scene_options = initialEncryptedUploadV2Checkpoint"
    "int (length (file_content (vw_files scene_world) scene_file)) \<le> max_safe_integer"
    using scene_bytes by (simp_all add: scene_sha_def scene_options_def max_safe_integer_def)
  moreover have "scene_world\<lparr>vw_receiver := scene_receiver\<rparr> = scene_world" by (simp add: scene_world_def)
  ultimately show ?thesis
    using saved_checkpoint_opens [where f = scene_file and alive = False, OF T_new _ _ scene_new scene_answers,
        of "\<lambda>bs. Inr (scene_sha bs)"]
    by (auto simp: initialEncryptedUploadV2Checkpoint_def)
qed

section \<open>Memory\<close>

text \<open>
  C17.  Whatever the device sends, a receiver buffers no more packets than the negotiated window has, no more than a megabyte
  of them (with 80 bytes for each packet), no two of the same sequence number and none that overlap, all of them between
  the checkpoint and the expected end; and it asks for no more missing packets than was negotiated.
\<close>

theorem receiver_within_bounds:
  assumes "transfers sha256 f saved True w acks"
  shows "int (length (tr_packets (vw_receiver w))) \<le> ro_maximumWindowPackets (tr_options (vw_receiver w))
    \<and> tr_bufferedBytes (vw_receiver w) = (\<Sum>(s, p)\<leftarrow>tr_packets (vw_receiver w). int (length (pk_bytes p)) + 80)
    \<and> tr_bufferedBytes (vw_receiver w) \<le> 1024 * 1024
    \<and> sorted_wrt (\<lambda>(s, p) (s', p'). s \<noteq> s' \<and> \<not> overlaps p p') (tr_packets (vw_receiver w))
    \<and> list_all (\<lambda>(s, p). nc_nextCiphertextOffset (tr_checkpoint (vw_receiver w)) \<le> pk_offset p
         \<and> pk_offset p + int (length (pk_bytes p)) \<le> ro_expectedCiphertextLength (tr_options (vw_receiver w)))
        (tr_packets (vw_receiver w))
    \<and> list_all (\<lambda>p. int (length (pw_missingSequences p)) \<le> ro_maximumMissingSequences (tr_options (vw_receiver w)))
        (case tr_pendingWindow (vw_receiver w) of None \<Rightarrow> [] | Some p \<Rightarrow> [p])"
proof -
  have "bounded_here w" using transfer_bounded [OF assms] by simp
  then show ?thesis
    by (auto simp: bounded_receiver_def queued_bytes_def apart_def packet_within_def MAXIMUM_QUEUED_BYTES_def list_all_iff
        split: option.splits)
qed

theorem receiver_within_bounds_witness:
  "\<exists>w :: upload_world. transfers (\<lambda>bs. Inr (scene_sha bs)) scene_file initialEncryptedUploadV2Checkpoint True w []
     \<and> tr_bufferedBytes (vw_receiver w) \<le> 1024 * 1024"
proof -
  from scene_opened obtain w where
    w: "transfers (\<lambda>bs. Inr (scene_sha bs)) scene_file initialEncryptedUploadV2Checkpoint True (w :: upload_world) []" by blast
  from receiver_within_bounds [OF w] have "tr_bufferedBytes (vw_receiver w) \<le> 1024 * 1024" by (elim conjE)
  with w show ?thesis by blast
qed

section \<open>An honest device\<close>

text \<open>
  C5.  A transfer that starts from the beginning is completed when the device keeps to the profile: it numbers its packets
  from 1, and after the end of a window it sends again only packets that were reported missing.  Whatever the sizes of
  the packets and windows within what was negotiated, in whatever order the packets of a round arrive, whichever of
  them get lost or come more than once in it, and in whatever chunks the manifest comes, the receiver ends by
  reporting the manifest and the evidence, and the blob holds the whole ciphertext and nothing else, also when
  it held other bytes before.
\<close>

theorem honest_transfer_completes:
  fixes w :: "'z upload_world_scheme" and sha :: "bytes \<Rightarrow> bytes"
  assumes "new_receiver options = Inr r" and "vw_receiver w = r" and "answering w"
    and "ro_checkpoint options = initialEncryptedUploadV2Checkpoint" and "sha [] = EMPTY_SHA256"
    and "int (length (file_content (vw_files w) f)) \<le> max_safe_integer"
    and "ws \<noteq> []" and "protocol_windows options 1 0 ws"
    and "ro_expectedCiphertextLength options = int (length (sent_bytes ws))"
    and "ro_expectedCiphertextSha256 options = sha (sent_bytes ws)"
    and "list_all (chunk_fits m) chunks" and "{..<length m} \<subseteq> chunks_cover chunks" and "int (length m) = MANIFEST_LENGTH"
    and "blocks \<noteq> 0" and "\<And>x. length (sha x) = 32"
  shows "\<exists>w'. take_transfer sha f (ro_transportSessionId options) [] ws m chunks blocks w
      = (Some (Inr (Some (Completed m (evidence_of sha (sent_bytes ws) m blocks)))), w')
    \<and> file_content (vw_files w') f = sent_bytes ws"
proof -
  let ?bs = "file_content (vw_files w) f" and ?opened = "r\<lparr>tr_prepared := True\<rparr>"
  note fields = new_receiver_Inr [OF assms(1)]
  have small: "small_blob ?bs" using assms(6) by (simp add: small_blob_def)
  have settled: "ready f ?bs r w" using assms(2,3) by (simp add: ready_def blob_holds_def)
  have covered: "covered (\<lambda>bs. Inr (sha bs)) ?bs (ro_checkpoint options)"
    using assms(4,5) by (simp add: covered_def initialEncryptedUploadV2Checkpoint_def)
  have none: "[] = take (nat (nc_nextCiphertextOffset (ro_checkpoint options))) ?bs"
    using assms(4) by (simp add: initialEncryptedUploadV2Checkpoint_def)
  have "ro_expectedCiphertextLength options \<le> max_safe_integer"
    using assms(1) by (auto simp: new_receiver_def Let_def split: if_splits)
  then have fit: "windows_fit sha [] ?opened ws"
    using new_active [OF assms(1)] assms(4,8,9) fields
    by (intro protocol_fits [where options = options and n = 1]) (simp_all add: initialEncryptedUploadV2Checkpoint_def)
  have whole: "ro_expectedCiphertextLength options = int (length ([] @ sent_bytes ws))"
    "ro_expectedCiphertextSha256 options = sha ([] @ sent_bytes ws)" using assms(9,10) by simp_all
  from surelyD [OF surely_transfer [OF assms(1) covered small none assms(7) fit whole assms(11-15)] settled]
  show ?thesis unfolding append_Nil by blast
qed

theorem honest_transfer_completes_witness:
  "\<exists>w'. take_transfer scene_sha scene_file 7 [] scene_deliveries scene_manifest [(300, 280), (0, 400)] 1 scene_world
      = (Some (Inr (Some (Completed scene_manifest (evidence_of scene_sha [1, 2, 3] scene_manifest 1)))), w')
    \<and> file_content (vw_files w') scene_file = [1, 2, 3]"
proof -
  have "vw_receiver scene_world = scene_receiver" by (simp add: scene_world_def)
  moreover have "int (length (file_content (vw_files scene_world) scene_file)) \<le> max_safe_integer"
    using scene_bytes by (simp add: max_safe_integer_def)
  moreover have "ro_checkpoint scene_options = initialEncryptedUploadV2Checkpoint" "scene_sha [] = EMPTY_SHA256"
    by (simp_all add: scene_options_def scene_sha_def)
  moreover have "scene_deliveries \<noteq> []" by (simp add: scene_deliveries_def)
  moreover have "ro_expectedCiphertextLength scene_options = int (length (sent_bytes scene_deliveries))"
    "ro_expectedCiphertextSha256 scene_options = scene_sha (sent_bytes scene_deliveries)"
    unfolding scene_sent by (simp_all add: scene_options_def)
  moreover have "{..<length scene_manifest} \<subseteq> chunks_cover [(300, 280), (0, 400)]" using scene_chunks(2) by simp
  ultimately show ?thesis
    using honest_transfer_completes [where f = scene_file and blocks = 1, OF scene_new _ scene_answers _ _ _ _ scene_protocol
        _ _ scene_chunks(1) _ scene_chunks(3) _ scene_sha_length]
    by (simp add: scene_sent) (simp add: scene_options_def)
qed
section \<open>The numbering of a resumed transfer\<close>

text \<open>
  A receiver that was opened on a checkpoint goes on counting from the sequence number of that checkpoint, and refuses the
  end of a window that starts at any other number.  The protocol document says the opposite: the packets of each
  attempt are numbered from 1, and it calls restoring the historical sequence as the counter invalid.
\<close>

lemma other_numbering_refused:
  assumes "new_receiver options = Inr r" and "nc_highestContiguousSequence (ro_checkpoint options) = Some n"
    and "vw_receiver w = r\<lparr>tr_prepared := True\<rparr>" and "firstSequence \<noteq> n + 1"
  shows "receive sha256 f (session_frame (ro_transportSessionId options)
        (F_window_end i firstSequence lastSequence offset digest revision)) w
    = (Some (Inl (SdkErr protocolFailure)), w\<lparr>vw_receiver := r\<lparr>tr_prepared := True, tr_terminal := True\<rparr>\<rparr>)"
proof -
  have "\<not> window_acceptable (r\<lparr>tr_prepared := True\<rparr>) \<lparr>we_windowIndex = i, we_firstSequence = firstSequence,
      we_lastSequence = lastSequence, we_nextCiphertextOffset = offset, we_prefixSha256 = digest, we_checkpointRevision = revision\<rparr>"
    using new_receiver_Inr [OF assms(1)] assms(2,4) by (simp add: window_acceptable_def)
  then show ?thesis
    using new_receiver_Inr [OF assms(1)] assms(3)
    by (simp add: receive_def receive_frame_def receiveWindowEnd_def receiver_state_def set_receiver_def modify_def seq_def
        get_def raise_def catching_def session_frame_def)
qed

definition resumed_options :: receiver_options where
  "resumed_options = scene_options\<lparr>ro_checkpoint := \<lparr>nc_revision = 1, nc_nextCiphertextOffset = 2,
     nc_prefixSha256 = scene_sha [1, 2], nc_highestContiguousSequence = Some 4\<rparr>\<rparr>"

lemma numbering_from_one_refused:
  "\<exists>r. new_receiver resumed_options = Inr r
     \<and> fst (receive (\<lambda>bs. Inr (scene_sha bs)) scene_file (session_frame 7 (F_window_end 0 1 1 3 (scene_sha [1, 2, 3]) 2))
         (scene_world\<lparr>vw_receiver := r\<lparr>tr_prepared := True\<rparr>\<rparr>)) = Some (Inl (SdkErr protocolFailure))"
proof -
  obtain r where r: "new_receiver resumed_options = Inr r"
    by (simp add: new_receiver_def resumed_options_def scene_options_def scene_sha_length max_safe_integer_def Let_def)
  have "nc_highestContiguousSequence (ro_checkpoint resumed_options) = Some 4" "(1 :: int) \<noteq> 4 + 1"
    "ro_transportSessionId resumed_options = 7"
    by (simp_all add: resumed_options_def scene_options_def)
  with other_numbering_refused [OF r, of 4 "scene_world\<lparr>vw_receiver := r\<lparr>tr_prepared := True\<rparr>\<rparr>" 1] r show ?thesis
    by simp
qed

end
