(* ===== verification/RecordingWorld.thy ===== *)
theory RecordingWorld
  imports OwnerThreads BrowserStorage Interaction
begin

text \<open>
  What the recording manager works on, and its surroundings: the database, the blobs, the signals
  that cancel an operation, and for every moment at which the manager asks somebody else what the
  answer would be.  The page may be closed at every \<open>await\<close>.  The log lists what matters outside:
  what was transferred, sent, declared complete and confirmed, in order.
\<close>

section \<open>Recordings\<close>

record v2_metadata =
  vm_generation :: int
  vm_storageFormat :: int
  vm_plaintextLength :: int
  vm_ciphertextLength :: int
  vm_ciphertextSha256 :: bytes

record rec_item = device_recording +
  ri_encryptedUploadV2 :: "v2_metadata option"

record legacy_context =
  lc_operationId :: jsstring
  lc_serialNumber :: jsstring
  lc_recording :: rec_item
  lc_sizeBytes :: int
  lc_plaintextSha256Hex :: "jsstring option"
  lc_stagedBodySha256Hex :: jsstring
  lc_encrypted :: bool

record rec_result =
  rr_operationId :: jsstring
  rr_recordingUuid :: jsstring
  rr_profile :: recording_profile
  rr_cloudCompletionId :: jsstring

section \<open>Answers and the log\<close>

text \<open>
  \<open>an_lost\<close>: the abort comes before what is awaited with the signal.  \<open>an_threw\<close>: the called function
  throws before it returns a promise.  \<open>an_effects\<close>: the effects the core asks for during a
  workflow; \<open>an_run\<close>: how the workflow ends.  \<open>an_pulls\<close>: how many chunks of the body are read before
  the request is answered.
\<close>

record answer =
  an_stop :: bool
  an_aborted :: bool
  an_directAborted :: bool
  an_directError :: "bota_error option"
  an_lost :: bool
  an_exclusive :: "bota_error option"
  an_idb :: idb_env
  an_opfs :: opfs_env
  an_now :: int
  an_connected :: "(jsstring \<times> jsstring) option"
  an_device :: "jsstring option"
  an_read :: "js_error + bytes"
  an_capability :: "js_error + bytes"
  an_io :: "js_error option"
  an_notifications :: "(jsstring \<times> bytes) list"
  an_entries :: "js_error + v2_frame list"
  an_uuid :: jsstring
  an_threw :: "js_error option"
  an_provider :: "js_error + jsval"
  an_fetch :: "js_error + bool"
  an_pulls :: nat
  an_effects :: "core_effect list"
  an_run :: "bota_error + core_notification list"
  an_callback :: "js_error option"
  an_hasher :: "js_error option"

text \<open>
  \<open>Ev_transferred\<close> carries what the sink holds when the transfer workflow has ended well, \<open>Ev_put\<close> what
  was read into the body of a request, and whether that was all of it, \<open>Ev_accepted\<close>
  that the request was answered with success; \<open>Ev_completed\<close> and
  \<open>Ev_reconciled\<close> what the provider answered; \<open>Ev_confirm\<close> is the write that lets the device delete
  the recording.
\<close>

datatype rec_event =
    Ev_transferred jsstring jsstring jsstring bytes
  | Ev_put jsstring jsstring bytes bool
  | Ev_completed legacy_context jsstring jsstring
  | Ev_reconciled legacy_context jsstring jsstring
  | Ev_accepted jsstring jsstring
  | Ev_confirm jsstring jsstring

record sink_state =
  sk_hashed :: bytes
  sk_finalized :: bool

record rec_world =
  rw_answers :: "nat \<Rightarrow> answer"
  rw_time :: nat
  rw_db :: idb
  rw_files :: opfs
  rw_aborted :: bool
  rw_direct :: direct_owner
  rw_sink :: sink_state
  rw_active :: "jsstring list"
  rw_destroyed :: bool
  rw_log :: "rec_event list"

section \<open>Asking\<close>

text \<open>\<open>observe\<close> looks at the surroundings between two \<open>await\<close>s, \<open>tick\<close> is an \<open>await\<close>.\<close>

definition observe :: "(rec_world, answer) prog" where
  "observe w = (Some (Inr (rw_answers w (rw_time w))), w\<lparr>rw_time := Suc (rw_time w)\<rparr>)"

definition later_direct :: "answer \<Rightarrow> direct_owner \<Rightarrow> direct_owner" where
  "later_direct a d =
     d\<lparr>di_aborted := di_aborted d \<or> an_directAborted a,
       di_terminalError := (case di_terminalError d of Some e \<Rightarrow> Some e | None \<Rightarrow> an_directError a)\<rparr>"

definition tick :: "(rec_world, answer) prog" where
  "tick w =
     (let a = rw_answers w (rw_time w);
          w1 = w\<lparr>rw_time := Suc (rw_time w), rw_aborted := rw_aborted w \<or> an_aborted a,
                 rw_direct := later_direct a (rw_direct w)\<rparr> in
      if an_stop a then (None, w1) else (Some (Inr a), w1))"

definition logged :: "rec_event \<Rightarrow> (rec_world, unit) prog" where
  "logged e = modify (\<lambda>w. w\<lparr>rw_log := rw_log w @ [e]\<rparr>)"

definition db_read :: "(idb_env \<Rightarrow> idb \<Rightarrow> storage_code + 'a) \<Rightarrow> (rec_world, 'a) prog" where
  "db_read q = seq tick (\<lambda>a w. (Some (storage_failure (q (an_idb a) (rw_db w))), w))"

definition db_write :: "(idb_env \<Rightarrow> idb \<Rightarrow> (storage_code + 'a) \<times> idb) \<Rightarrow> (rec_world, 'a) prog" where
  "db_write q = seq tick (\<lambda>a w.
     case q (an_idb a) (rw_db w) of (r, db) \<Rightarrow> (Some (storage_failure r), w\<lparr>rw_db := db\<rparr>))"

definition file_op :: "(opfs_env \<Rightarrow> opfs \<Rightarrow> (storage_code + 'a) \<times> opfs) \<Rightarrow> (rec_world, 'a) prog" where
  "file_op q = seq tick (\<lambda>a w.
     case q (an_opfs a) (rw_files w) of (r, fs) \<Rightarrow> (Some (storage_failure r), w\<lparr>rw_files := fs\<rparr>))"

text \<open>A mutation of a blob, with its two steps under the lock.\<close>

definition mutate_blob :: "jsstring \<times> jsstring \<Rightarrow> storage_code + mutation \<Rightarrow> (rec_world, unit) prog" where
  "mutate_blob f request =
     seq (lift_sum (storage_failure request)) (\<lambda>job.
       seq (file_op (\<lambda>env fs. case mutation_check env f job fs of (r, fs1) \<Rightarrow> (Inr r, fs1))) (\<lambda>r.
         case r of
           Inl outcome \<Rightarrow> lift_sum (storage_failure outcome)
         | Inr _ \<Rightarrow> file_op (\<lambda>env. mutation_commit env f job)))"

section \<open>Cancellation\<close>

type_synonym signal = "rec_world \<Rightarrow> bool"

definition cancelled_error :: "bota_operation \<Rightarrow> js_error" where
  "cancelled_error operation = SdkErr (BotaSDKError Sdk_cancelled operation)"

definition throwIfAborted :: "signal \<Rightarrow> bota_operation \<Rightarrow> (rec_world, unit) prog" where
  "throwIfAborted sig operation = seq (get sig) (\<lambda>aborted. if aborted then raise (cancelled_error operation) else ret ())"

text \<open>\<open>Promise.race\<close> of an answer and the abort of the signal.\<close>

definition race :: "signal \<Rightarrow> bota_operation \<Rightarrow> (answer \<Rightarrow> js_error + 'a) \<Rightarrow> (rec_world, 'a) prog" where
  "race sig operation q =
     seq tick (\<lambda>a. seq (get sig) (\<lambda>aborted.
       if aborted \<and> an_lost a then raise (cancelled_error operation) else lift_sum (q a)))"

definition awaitWithSignal :: "signal \<Rightarrow> bota_operation \<Rightarrow> (answer \<Rightarrow> js_error + 'a) \<Rightarrow> (rec_world, 'a) prog" where
  "awaitWithSignal sig operation q = seq (throwIfAborted sig operation) (\<lambda>_. race sig operation q)"

text \<open>The call of the provider itself may throw; a promise it returns is raced with the signal.\<close>

definition awaitProviderCall :: "signal \<Rightarrow> bota_operation \<Rightarrow> (answer \<Rightarrow> js_error + 'a) \<Rightarrow> (rec_world, 'a) prog" where
  "awaitProviderCall sig operation q =
     seq observe (\<lambda>a. case an_threw a of
       Some e \<Rightarrow> raise e
     | None \<Rightarrow> seq (throwIfAborted sig operation) (\<lambda>_. race sig operation q))"

definition operation_signal :: signal where
  "operation_signal w = rw_aborted w"

text \<open>\<open>combineSignals\<close> with the signal of the exclusive section.\<close>

definition combineSignals :: "bool \<Rightarrow> signal" where
  "combineSignals external w \<longleftrightarrow> external \<and> rw_aborted w \<or> di_aborted (rw_direct w)"

text \<open>\<open>try { m } finally { cleanup }\<close>\<close>

definition finally_do :: "(rec_world, 'a) prog \<Rightarrow> (rec_world, unit) prog \<Rightarrow> (rec_world, 'a) prog" where
  "finally_do m cleanup w =
     (case m w of
        (None, w1) \<Rightarrow> (None, w1)
      | (Some r, w1) \<Rightarrow> seq cleanup (\<lambda>_. lift_sum r) w1)"

text \<open>A call of a function the application passed in.\<close>

definition callback :: "(rec_world, unit) prog" where
  "callback = seq observe (\<lambda>a. case an_callback a of Some e \<Rightarrow> raise e | None \<Rightarrow> ret ())"

text \<open>
  \<open>runExclusive\<close> of the runtime: it may refuse; otherwise the body runs with a signal of its own, and
  the outcome is the one \<open>direct_outcome\<close> gives.
\<close>

definition runExclusive_prog :: "bota_operation \<Rightarrow> (rec_world, 'a) prog \<Rightarrow> (rec_world, 'a) prog" where
  "runExclusive_prog operation body =
     seq observe (\<lambda>a. case an_exclusive a of
       Some e \<Rightarrow> raise (SdkErr e)
     | None \<Rightarrow>
         seq (modify (\<lambda>w. w\<lparr>rw_direct := \<lparr>di_operation = operation, di_aborted = False, di_terminalError = None,
                                           di_result = None\<rparr>\<rparr>)) (\<lambda>_ w.
           case body w of
             (None, w1) \<Rightarrow> (None, w1)
           | (Some r, w1) \<Rightarrow>
               (case direct_outcome (rw_direct w1) False (map_sum id (\<lambda>_. V_unit) r) of
                  Inl e \<Rightarrow> (Some (Inl (SdkErr e)), w1)
                | Inr _ \<Rightarrow> (Some r, w1))))"

section \<open>Errors\<close>

primrec transport_code_of :: "transport_code \<Rightarrow> bota_code" where
  "transport_code_of Tr_disconnected = Sdk_device_disconnected"
| "transport_code_of Tr_permission_denied = Sdk_permission_denied"
| "transport_code_of Tr_characteristic_not_found = Sdk_bluetooth_unavailable"
| "transport_code_of Tr_picker_cancelled = Sdk_bluetooth_unavailable"
| "transport_code_of Tr_unavailable = Sdk_bluetooth_unavailable"

fun recordingError :: "js_error \<Rightarrow> bota_operation \<Rightarrow> bota_error" where
  "recordingError (SdkErr e) operation = e"
| "recordingError (StorageErr c) operation = BotaSDKError (storage_error_code c) operation"
| "recordingError (TransportErr c) operation = BotaSDKError (transport_code_of c) operation"
| "recordingError e operation = normalizeCoreError e operation"

definition retryable_upload_failure :: bota_error where
  "retryable_upload_failure = (BotaSDKError Sdk_upload_failed Op_upload)\<lparr>err_retryable := True\<rparr>"

definition uploadError :: "js_error \<Rightarrow> bool \<Rightarrow> bota_error" where
  "uploadError error aborted =
     (if aborted then BotaSDKError Sdk_cancelled Op_upload
      else (case error of
        SdkErr e \<Rightarrow> e
      | StorageErr c \<Rightarrow> BotaSDKError (storage_error_code c) Op_upload
      | _ \<Rightarrow> retryable_upload_failure))"

end
