(* ===== verification/RecordingManager.thy ===== *)
theory RecordingManager
  imports RecordingWorld
begin

text \<open>
  \<^verbatim>\<open>frameworks/web/src/recordingManager.ts\<close>: listing, synchronising, resuming, cancelling and
  confirming recordings of the legacy profile.  Every routine is a program over the world of
  \<open>RecordingWorld\<close>.  What the manager was constructed with is a parameter (\<open>rec_manager\<close>): whether
  there is a storage and a provider, the names of the namespace, and the functions of the core.
  The branches of the encrypted profile that need its host are parameters as well (\<open>v2_branch\<close>).
\<close>

record rec_manager =
  rm_storage :: bool
  rm_provider :: bool
  rm_authorizes :: bool
  rm_prefix :: jsstring
  rm_directory :: jsstring
  rm_sha256 :: "nat list \<Rightarrow> js_error + bytes"
  rm_crc32 :: "bytes \<Rightarrow> js_error + int"
  rm_listCommand :: "js_error + bytes"
  rm_confirmCommand :: "jsstring \<Rightarrow> js_error + bytes"
  rm_decodeList :: "bytes \<Rightarrow> js_error + device_recording list"
  rm_decodeCapabilities :: "bytes \<Rightarrow> js_error + v2_capabilities"
  rm_supportsBatch :: "v2_capabilities \<Rightarrow> js_error + bool"
  rm_urlProtocol :: "jsstring \<Rightarrow> jsstring option"
  rm_checkpointObject :: "workflow_checkpoint \<Rightarrow> jsval"
  rm_ordered :: "jsstring \<Rightarrow> jsstring \<Rightarrow> bool"

record v2_branch =
  vb_resume :: "recording_journal \<Rightarrow> (rec_world, rec_result) prog"
  vb_delete :: "recording_journal \<Rightarrow> (rec_world, unit) prog"

section \<open>Guards and validation\<close>

definition reject :: "bota_code \<Rightarrow> bota_operation \<Rightarrow> (rec_world, 'a) prog" where
  "reject code operation = raise (SdkErr (BotaSDKError code operation))"

definition ensureAvailable :: "bota_operation \<Rightarrow> (rec_world, unit) prog" where
  "ensureAvailable operation = seq (get rw_destroyed) (\<lambda>d. if d then reject Sdk_cancelled operation else ret ())"

definition requireStorage :: "rec_manager \<Rightarrow> (rec_world, unit) prog" where
  "requireStorage m = (if rm_storage m then ret () else reject Sdk_storage_unavailable Op_upload)"

definition requireUploadProvider :: "rec_manager \<Rightarrow> (rec_world, unit) prog" where
  "requireUploadProvider m = (if rm_provider m then ret () else reject Sdk_unsupported_capability Op_upload)"

definition validateRecording :: "rec_item \<Rightarrow> (rec_world, unit) prog" where
  "validateRecording recording =
     (if \<not> is_safe_integer (JNumber (JInt (dr_startedAtTimestampSeconds recording)))
         \<or> dr_startedAtTimestampSeconds recording < 0
         \<or> dr_durationMilliseconds recording < 0
         \<or> dr_fileSizeBytes recording < 0
         \<or> dr_fileSizeBytes recording > max_safe_integer
      then reject Sdk_invalid_input Op_transfer_recording else ret ())"

definition validateOperationId :: "jsstring \<Rightarrow> (rec_world, unit) prog" where
  "validateOperationId operationId =
     (if length operationId = 0 \<or> \<not> isWellFormedUtf16 operationId
      then reject Sdk_invalid_input Op_transfer_recording else ret ())"

definition validateProviderIdentifier :: "jsval \<Rightarrow> (rec_world, jsstring) prog" where
  "validateProviderIdentifier value =
     (case value of
        JString s \<Rightarrow> if length s = 0 \<or> \<not> isWellFormedUtf16 s then reject Sdk_upload_failed Op_upload else ret s
      | _ \<Rightarrow> reject Sdk_upload_failed Op_upload)"

text \<open>\<open>value.name\<close>, which throws on \<open>null\<close> and \<open>undefined\<close>.\<close>

definition js_property :: "jsval \<Rightarrow> string \<Rightarrow> js_error + jsval" where
  "js_property value name =
     (if value = JNull \<or> value = JUndefined then Inl (Thrown (JObject [(''name'', JString (js ''TypeError''))]))
      else Inr (js_get value name))"

definition line_break :: "16 word \<Rightarrow> bool" where
  "line_break u \<longleftrightarrow> u = 0xd \<or> u = 0xa"

definition header_ok :: "jsstring \<times> jsval \<Rightarrow> bool" where
  "header_ok h =
     (case h of (name, value) \<Rightarrow>
        \<not> (name = [] \<or> (case value of
              JString s \<Rightarrow> list_ex line_break name \<or> list_ex line_break s
            | _ \<Rightarrow> True)))"

definition header_entries :: "jsval \<Rightarrow> (jsstring \<times> jsval) list option" where
  "header_entries headers =
     (case headers of
        JObject fs \<Rightarrow> Some (map (\<lambda>(k, v). (js k, v)) fs)
      | JBytes bs \<Rightarrow> Some (map (\<lambda>b. (js ''0'', JNumber (JInt (uint b)))) bs)
      | _ \<Rightarrow> None)"

definition validateUploadRequest :: "rec_manager \<Rightarrow> jsval \<Rightarrow> (rec_world, jsstring) prog" where
  "validateUploadRequest m request =
     (if \<not> js_object request \<or> request = JNull then reject Sdk_upload_failed Op_upload
      else if js_get request ''method'' \<noteq> JString (js ''PUT'') then reject Sdk_upload_failed Op_upload
      else
        (case js_get request ''url'' of
           JString url \<Rightarrow>
             if rm_urlProtocol m url \<noteq> Some (js ''https:'') then reject Sdk_upload_failed Op_upload
             else
               (case header_entries (js_get request ''headers'') of
                  None \<Rightarrow> reject Sdk_upload_failed Op_upload
                | Some entries \<Rightarrow>
                    if list_all header_ok entries then ret url else reject Sdk_upload_failed Op_upload)
         | _ \<Rightarrow> reject Sdk_upload_failed Op_upload))"

definition safeBrowserBigint :: "int \<Rightarrow> bota_operation \<Rightarrow> js_error + int" where
  "safeBrowserBigint value operation =
     (if value < 0 \<or> value > max_safe_integer then Inl (SdkErr (BotaSDKError Sdk_invalid_input operation)) else Inr value)"

definition safeBrowserNumber :: "int \<Rightarrow> bota_operation \<Rightarrow> js_error + int" where
  "safeBrowserNumber value operation =
     (if \<not> is_safe_integer (JNumber (JInt value)) \<or> value < 0
      then Inl (SdkErr (BotaSDKError Sdk_invalid_input operation)) else Inr value)"

definition safeBrowserRange :: "int \<Rightarrow> int \<Rightarrow> bota_operation \<Rightarrow> js_error + int" where
  "safeBrowserRange offset len operation =
     rbind (safeBrowserNumber offset operation) (\<lambda>_.
       rbind (safeBrowserNumber len operation) (\<lambda>_.
         if len > max_safe_integer - offset then Inl (SdkErr (BotaSDKError Sdk_invalid_input operation))
         else Inr (offset + len)))"

definition sinkId :: "jsstring \<Rightarrow> jsstring" where
  "sinkId operationId = js ''recording:'' @ operationId"

definition hex :: "bytes \<Rightarrow> jsstring" where
  "hex value = concat (map (\<lambda>b. hex_byte (unat b)) value)"

section \<open>The serial number of the device\<close>

text \<open>
  The decoder \<open>new TextDecoder('utf-8', { fatal: true })\<close>: code points of the shortest form, no
  surrogates, none above \<open>0x10FFFF\<close>; anything else throws.  A byte order mark at the start is
  dropped.
\<close>

definition continuation :: "nat \<Rightarrow> nat \<Rightarrow> nat \<Rightarrow> bool" where
  "continuation lower upper b \<longleftrightarrow> lower \<le> b \<and> b \<le> upper"

fun decode_points :: "nat list \<Rightarrow> nat list option" where
  "decode_points [] = Some []"
| "decode_points (b # bs) =
     (if b < 0x80 then map_option ((#) b) (decode_points bs)
      else if 0xc2 \<le> b \<and> b \<le> 0xdf then
        (case bs of
           c # rest \<Rightarrow>
             if continuation 0x80 0xbf c
             then map_option ((#) ((b - 0xc0) * 64 + (c - 0x80))) (decode_points rest) else None
         | _ \<Rightarrow> None)
      else if 0xe0 \<le> b \<and> b \<le> 0xef then
        (case bs of
           c # d # rest \<Rightarrow>
             if continuation (if b = 0xe0 then 0xa0 else 0x80) (if b = 0xed then 0x9f else 0xbf) c
                \<and> continuation 0x80 0xbf d
             then map_option ((#) ((b - 0xe0) * 4096 + (c - 0x80) * 64 + (d - 0x80))) (decode_points rest) else None
         | _ \<Rightarrow> None)
      else if 0xf0 \<le> b \<and> b \<le> 0xf4 then
        (case bs of
           c # d # e # rest \<Rightarrow>
             if continuation (if b = 0xf0 then 0x90 else 0x80) (if b = 0xf4 then 0x8f else 0xbf) c
                \<and> continuation 0x80 0xbf d \<and> continuation 0x80 0xbf e
             then map_option ((#) ((b - 0xf0) * 262144 + (c - 0x80) * 4096 + (d - 0x80) * 64 + (e - 0x80)))
                    (decode_points rest) else None
         | _ \<Rightarrow> None)
      else None)"

definition utf16_units :: "nat \<Rightarrow> jsstring" where
  "utf16_units c =
     (if c < 0x10000 then [word_of_nat c]
      else [word_of_nat (0xd800 + (c - 0x10000) div 0x400), word_of_nat (0xdc00 + (c - 0x10000) mod 0x400)])"

definition utf8_decode :: "nat list \<Rightarrow> jsstring option" where
  "utf8_decode bs =
     map_option (\<lambda>points. concat (map utf16_units (case points of c # cs \<Rightarrow> if c = 0xfeff then cs else points | [] \<Rightarrow> [])))
       (decode_points bs)"

text \<open>\<open>.replace(/^[\0\s]+|[\0\s]+$/g, '')\<close>\<close>

definition serial_padding :: "16 word \<Rightarrow> bool" where
  "serial_padding u \<longleftrightarrow> u = 0 \<or> js_whitespace u"

definition trim_serial :: "jsstring \<Rightarrow> jsstring" where
  "trim_serial s = rev (dropWhile serial_padding (rev (dropWhile serial_padding s)))"

definition decodeSerial :: "bytes \<Rightarrow> bota_operation \<Rightarrow> js_error + jsstring" where
  "decodeSerial value operation =
     (case utf8_decode (map unat value) of
        None \<Rightarrow> Inl (SdkErr (BotaSDKError Sdk_protocol_error operation))
      | Some s \<Rightarrow>
          if trim_serial s = [] then Inl (SdkErr (BotaSDKError Sdk_protocol_error operation))
          else Inr (trim_serial s))"

section \<open>The connection\<close>

definition requireConnectedDevice :: "(rec_world, jsstring \<times> jsstring) prog" where
  "requireConnectedDevice =
     seq observe (\<lambda>a.
       case an_connected a of
         None \<Rightarrow> reject Sdk_device_disconnected Op_transfer_recording
       | Some (i, serialNumber) \<Rightarrow>
           (case an_device a of
              None \<Rightarrow> reject Sdk_device_disconnected Op_transfer_recording
            | Some device \<Rightarrow>
                if i \<noteq> device then reject Sdk_device_disconnected Op_transfer_recording
                else ret (device, serialNumber)))"

definition disconnect :: "(rec_world, unit) prog" where
  "disconnect = seq tick (\<lambda>a. case an_io a of Some e \<Rightarrow> raise e | None \<Rightarrow> ret ())"

text \<open>\<open>external\<close>: whether the caller passed a signal.\<close>

definition verified_section ::
    "bool \<Rightarrow> bota_operation \<Rightarrow> jsstring \<Rightarrow> (jsstring \<times> jsstring \<Rightarrow> (rec_world, 'a) prog) \<Rightarrow> (rec_world, 'a) prog" where
  "verified_section external operation deviceId body =
     seq (throwIfAborted (combineSignals external) operation) (\<lambda>_.
       seq requireConnectedDevice (\<lambda>current.
         if fst current \<noteq> deviceId then reject Sdk_device_disconnected operation
         else
           seq (awaitWithSignal (combineSignals external) operation an_read) (\<lambda>value.
             seq (lift_sum (decodeSerial value operation)) (\<lambda>serial.
               if serial \<noteq> snd current then reject Sdk_identity_mismatch operation
               else body current))))"

definition withVerifiedConnection ::
    "bool \<Rightarrow> bota_operation \<Rightarrow> (jsstring \<times> jsstring \<Rightarrow> (rec_world, 'a) prog) \<Rightarrow> (rec_world, 'a) prog" where
  "withVerifiedConnection external operation body =
     seq requireConnectedDevice (\<lambda>connection.
       catching (runExclusive_prog operation (verified_section external operation (fst connection) body)) (\<lambda>e.
         let normalized = recordingError e operation in
         seq (unless (err_code normalized \<noteq> Sdk_identity_mismatch) (seq (ignoring disconnect) (\<lambda>_. ret ()))) (\<lambda>_.
           raise (SdkErr normalized))))"

definition verifyConnection :: "(rec_world, jsstring \<times> jsstring) prog" where
  "verifyConnection =
     seq (throwIfAborted operation_signal Op_transfer_recording) (\<lambda>_.
       withVerifiedConnection True Op_transfer_recording (\<lambda>connection.
         seq (throwIfAborted (combineSignals True) Op_transfer_recording) (\<lambda>_. ret connection)))"

section \<open>Listing\<close>

definition RECORDING_LIST_CHARACTERISTIC :: jsstring where
  "RECORDING_LIST_CHARACTERISTIC = js ''b07a0004-0002-1000-8000-00805f9b34fb''"

definition deviceRecording :: "device_recording \<Rightarrow> rec_item" where
  "deviceRecording r = device_recording.extend r \<lparr>ri_encryptedUploadV2 = None\<rparr>"

text \<open>One entry of the list a device of the encrypted profile sends.\<close>

definition encryptedDeviceRecording :: "v2_frame \<Rightarrow> js_error + rec_item" where
  "encryptedDeviceRecording entry =
     (case entry of
        F_recording_entry uuid generation storageFormat completionState startedAt durationSeconds
            plaintextLength ciphertextLength ciphertextSha256 \<Rightarrow>
          if startedAt < 0 \<or> startedAt > max_safe_integer
             \<or> durationSeconds > max_safe_integer div 1000
             \<or> plaintextLength > max_safe_integer
          then Inl (SdkErr (BotaSDKError Sdk_protocol_error Op_transfer_recording))
          else Inr \<lparr>dr_uuid = uuid, dr_startedAtTimestampSeconds = startedAt,
                 dr_durationMilliseconds = durationSeconds * 1000, dr_fileSizeBytes = plaintextLength,
                 dr_codec = Codec_unknown, dr_encrypted = True, dr_codecRaw = None,
                 ri_encryptedUploadV2 = Some \<lparr>vm_generation = generation, vm_storageFormat = storageFormat,
                   vm_plaintextLength = plaintextLength, vm_ciphertextLength = ciphertextLength,
                   vm_ciphertextSha256 = ciphertextSha256\<rparr>\<rparr>
      | _ \<Rightarrow> Inl (SdkErr (BotaSDKError Sdk_protocol_error Op_transfer_recording)))"

definition readOptionalV2Capability :: "rec_manager \<Rightarrow> signal \<Rightarrow> (rec_world, v2_capabilities option) prog" where
  "readOptionalV2Capability m sig =
     seq (catching (seq (awaitWithSignal sig Op_transfer_recording an_capability) (\<lambda>raw. ret (Some raw)))
           (\<lambda>e. if e = TransportErr Tr_characteristic_not_found then ret None else raise e)) (\<lambda>raw.
       case raw of
         None \<Rightarrow> ret None
       | Some bytes \<Rightarrow> seq (lift_sum (rm_decodeCapabilities m bytes)) (\<lambda>c. ret (Some c)))"

text \<open>The first notification of the characteristic, if one ever comes.\<close>

definition list_notification :: "answer \<Rightarrow> bytes option" where
  "list_notification a =
     map_option snd (find (\<lambda>(uuid, value). map ascii_lower uuid = RECORDING_LIST_CHARACTERISTIC) (an_notifications a))"

definition never :: "(rec_world, 'a) prog" where
  "never w = (None, w)"

definition legacy_list :: "rec_manager \<Rightarrow> signal \<Rightarrow> (rec_world, rec_item list) prog" where
  "legacy_list m sig =
     seq tick (\<lambda>a. case an_io a of
       Some e \<Rightarrow> raise e
     | None \<Rightarrow>
         finally_do
           (seq (throwIfAborted sig Op_transfer_recording) (\<lambda>_.
             seq (lift_sum (rm_listCommand m)) (\<lambda>_.
               seq (awaitWithSignal sig Op_transfer_recording
                     (\<lambda>b. case an_io b of Some e \<Rightarrow> Inl e | None \<Rightarrow> Inr ())) (\<lambda>_.
                 seq (awaitWithSignal sig Op_transfer_recording (\<lambda>b. Inr (list_notification b))) (\<lambda>received.
                   case received of
                     None \<Rightarrow> never
                   | Some bytes \<Rightarrow>
                       (case rm_decodeList m bytes of
                          Inl _ \<Rightarrow> reject Sdk_protocol_error Op_transfer_recording
                        | Inr recordings \<Rightarrow> ret (map deviceRecording recordings)))))))
           (seq tick (\<lambda>b. case an_io b of Some e \<Rightarrow> raise e | None \<Rightarrow> ret ())))"

text \<open>
  The exchange with a device of the encrypted profile, with the refresh of its upload context before it,
  touches neither records nor blobs; it is an answer.
\<close>

definition encrypted_list :: "(rec_world, rec_item list) prog" where
  "encrypted_list =
     seq tick (\<lambda>a. seq (lift_sum (an_entries a)) (\<lambda>entries. lift_sum (rtraverse encryptedDeviceRecording entries)))"

definition listWithSignal :: "rec_manager \<Rightarrow> bool \<Rightarrow> (rec_world, rec_item list) prog" where
  "listWithSignal m external =
     seq (ensureAvailable Op_transfer_recording) (\<lambda>_.
       withVerifiedConnection external Op_transfer_recording (\<lambda>connection.
         seq (readOptionalV2Capability m (combineSignals external)) (\<lambda>capability.
           case capability of
             None \<Rightarrow> legacy_list m (combineSignals external)
           | Some c \<Rightarrow>
               seq (lift_sum (rm_supportsBatch m c)) (\<lambda>batch.
                 if batch then encrypted_list else legacy_list m (combineSignals external)))))"

definition list_recordings :: "rec_manager \<Rightarrow> (rec_world, rec_item list) prog" where
  "list_recordings m = listWithSignal m False"

section \<open>Records and blobs\<close>

definition load_recording :: "rec_manager \<Rightarrow> jsstring \<Rightarrow> (rec_world, recording_journal option) prog" where
  "load_recording m operationId = db_read (\<lambda>env db. loadRecordingJournal (rm_prefix m) env db operationId)"

definition open_sink :: "rec_manager \<Rightarrow> jsstring \<Rightarrow> (rec_world, jsstring \<times> jsstring) prog" where
  "open_sink m sink = lift_sum (storage_failure (open_blob (rm_sha256 m) (rm_directory m) sink))"

definition blob_size_now :: "jsstring \<times> jsstring \<Rightarrow> (rec_world, int) prog" where
  "blob_size_now f = file_op (\<lambda>env. blob_size env f)"

definition delete_blob :: "jsstring \<times> jsstring \<Rightarrow> (rec_world, unit) prog" where
  "delete_blob f = mutate_blob f (Inr M_delete)"

record journal_update =
  ju_phase :: recording_phase
  ju_uploadId :: "jsstring option option"
  ju_cloudCompletionId :: "jsstring option option"
  ju_confirmationDigestHex :: "jsstring option option"
  ju_devicePlaintextSha256Hex :: "jsstring option option"

definition to_phase :: "recording_phase \<Rightarrow> journal_update" where
  "to_phase phase = \<lparr>ju_phase = phase, ju_uploadId = None, ju_cloudCompletionId = None,
     ju_confirmationDigestHex = None, ju_devicePlaintextSha256Hex = None\<rparr>"

definition updated :: "'a option \<Rightarrow> 'a \<Rightarrow> 'a" where
  "updated u old = (case u of None \<Rightarrow> old | Some x \<Rightarrow> x)"

definition next_journal :: "recording_journal \<Rightarrow> journal_update \<Rightarrow> int \<Rightarrow> recording_journal" where
  "next_journal journal u now =
     journal\<lparr>rj_phase := ju_phase u,
       rj_uploadId := updated (ju_uploadId u) (rj_uploadId journal),
       rj_cloudCompletionId := updated (ju_cloudCompletionId u) (rj_cloudCompletionId journal),
       rj_confirmationDigestHex := updated (ju_confirmationDigestHex u) (rj_confirmationDigestHex journal),
       rj_devicePlaintextSha256Hex := updated (ju_devicePlaintextSha256Hex u) (rj_devicePlaintextSha256Hex journal),
       rj_updatedAtEpochMs := max (rj_updatedAtEpochMs journal) now\<rparr>"

definition store_journal :: "rec_manager \<Rightarrow> recording_journal \<Rightarrow> (rec_world, unit) prog" where
  "store_journal m journal =
     db_write (\<lambda>env db. saveRecordingJournal (rm_prefix m) env db (recording_journal_value journal))"

definition saveJournal :: "rec_manager \<Rightarrow> recording_journal \<Rightarrow> journal_update \<Rightarrow> (rec_world, recording_journal) prog" where
  "saveJournal m journal u =
     seq observe (\<lambda>a.
       let next = next_journal journal u (an_now a) in
       seq (requireStorage m) (\<lambda>_. seq (store_journal m next) (\<lambda>_. ret next)))"

definition delete_checkpoint_of :: "rec_manager \<Rightarrow> jsstring \<Rightarrow> (rec_world, unit) prog" where
  "delete_checkpoint_of m operationId = db_write (\<lambda>env db. deleteWorkflowCheckpoint (rm_prefix m) env db operationId)"

definition delete_journal_of :: "rec_manager \<Rightarrow> jsstring \<Rightarrow> (rec_world, unit) prog" where
  "delete_journal_of m operationId = db_write (\<lambda>env db. deleteRecordingJournal (rm_prefix m) env db operationId)"

definition deleteUnverifiedState :: "rec_manager \<Rightarrow> v2_branch \<Rightarrow> recording_journal \<Rightarrow> (rec_world, unit) prog" where
  "deleteUnverifiedState m v2 journal =
     (if rj_phase journal \<noteq> Rp_prepared \<and> rj_phase journal \<noteq> Rp_transferring then ret ()
      else
        seq (requireStorage m) (\<lambda>_.
          if rj_profile journal = Profile_encrypted_upload_v2 then vb_delete v2 journal
          else
            seq (open_sink m (rj_sinkId journal)) (\<lambda>f.
              seq (delete_blob f) (\<lambda>_.
                seq (delete_checkpoint_of m (rj_operationId journal)) (\<lambda>_.
                  delete_journal_of m (rj_operationId journal))))))"

text \<open>\<open>!value\<close> of an identifier: \<open>null\<close> or the empty string.\<close>

definition no_id :: "jsstring option \<Rightarrow> bool" where
  "no_id value \<longleftrightarrow> value = None \<or> value = Some []"

definition resultFromJournal :: "recording_journal \<Rightarrow> (rec_world, rec_result) prog" where
  "resultFromJournal journal =
     (if no_id (rj_cloudCompletionId journal) then reject Sdk_resume_rejected Op_upload
      else ret \<lparr>rr_operationId = rj_operationId journal, rr_recordingUuid = rj_recordingUuid journal,
        rr_profile = rj_profile journal, rr_cloudCompletionId = the (rj_cloudCompletionId journal)\<rparr>)"

definition finishConfirmedJournal :: "rec_manager \<Rightarrow> recording_journal \<Rightarrow> (rec_world, rec_result) prog" where
  "finishConfirmedJournal m journal =
     (if rj_phase journal \<noteq> Rp_confirmed \<or> no_id (rj_cloudCompletionId journal) then reject Sdk_resume_rejected Op_upload
      else
        seq (requireStorage m) (\<lambda>_.
          seq (open_sink m (rj_sinkId journal)) (\<lambda>f.
            seq (delete_blob f) (\<lambda>_.
              seq (delete_checkpoint_of m (rj_operationId journal)) (\<lambda>_.
                seq (if rj_profile journal = Profile_encrypted_upload_v2
                     then db_write (\<lambda>env db. deleteEncryptedUploadV2Operation (rm_prefix m) env db (rj_operationId journal))
                     else delete_journal_of m (rj_operationId journal)) (\<lambda>_.
                  resultFromJournal journal))))))"

section \<open>Streams\<close>

definition OPFS_STREAM_CHUNK_SIZE :: int where
  "OPFS_STREAM_CHUNK_SIZE = 64 * 1024"

text \<open>\<open>for await (const chunk of blob.stream(OPFS_STREAM_CHUNK_SIZE)) body\<close>\<close>

fun stream_loop ::
    "jsstring \<times> jsstring \<Rightarrow> (bytes \<Rightarrow> 'b \<Rightarrow> (rec_world, 'b) prog) \<Rightarrow> (int \<times> int) list \<Rightarrow> 'b \<Rightarrow> (rec_world, 'b) prog" where
  "stream_loop f body [] acc = ret acc"
| "stream_loop f body ((offset, len) # rs) acc =
     seq (file_op (\<lambda>env. blob_read env f (JInt offset) (JInt len))) (\<lambda>chunk.
       seq (body chunk acc) (\<lambda>acc1. stream_loop f body rs acc1))"

definition stream_blob ::
    "jsstring \<times> jsstring \<Rightarrow> (bytes \<Rightarrow> 'b \<Rightarrow> (rec_world, 'b) prog) \<Rightarrow> 'b \<Rightarrow> (rec_world, 'b) prog" where
  "stream_blob f body acc =
     seq (blob_size_now f) (\<lambda>n. stream_loop f body (stream_reads OPFS_STREAM_CHUNK_SIZE n 0) acc)"

section \<open>The hosts of a transfer\<close>

datatype host_reply = Reply host_event_kind | Reply_checkpoint "jsval option" | No_reply

definition createHasher :: "(rec_world, unit) prog" where
  "createHasher = seq observe (\<lambda>a. case an_hasher a of Some e \<Rightarrow> raise e | None \<Rightarrow> ret ())"

definition set_hashed :: "(bytes \<Rightarrow> bytes) \<Rightarrow> (rec_world, unit) prog" where
  "set_hashed g = modify (\<lambda>w. w\<lparr>rw_sink := (rw_sink w)\<lparr>sk_hashed := g (sk_hashed (rw_sink w))\<rparr>\<rparr>)"

definition assertSink :: "jsstring \<Rightarrow> jsstring \<Rightarrow> (rec_world, unit) prog" where
  "assertSink actual expected =
     (if actual \<noteq> expected then reject Sdk_internal_error Op_transfer_recording else ret ())"

definition sinkFailure :: host_reply where
  "sinkFailure = Reply (H_recording_sink_failed None)"

definition sink_truncate :: "jsstring \<times> jsstring \<Rightarrow> int \<Rightarrow> (rec_world, host_reply) prog" where
  "sink_truncate f completedUnits =
     seq (lift_sum (safeBrowserBigint completedUnits Op_transfer_recording)) (\<lambda>newSize.
       seq (mutate_blob f (truncate_request (JInt newSize))) (\<lambda>_.
         seq createHasher (\<lambda>_.
           seq (set_hashed (\<lambda>_. [])) (\<lambda>_.
             seq (stream_blob f (\<lambda>chunk restored.
                   seq (lift_sum (safeBrowserRange restored (int (length chunk)) Op_transfer_recording)) (\<lambda>r.
                     seq (set_hashed (\<lambda>h. h @ chunk)) (\<lambda>_. ret r))) 0) (\<lambda>restored.
               ret (if restored \<noteq> newSize then sinkFailure else Reply H_recording_sink_truncated))))))"

definition sink_append :: "jsstring \<times> jsstring \<Rightarrow> bytes \<Rightarrow> (rec_world, host_reply) prog" where
  "sink_append f payload =
     seq (blob_size_now f) (\<lambda>n.
       seq (lift_sum (safeBrowserNumber n Op_transfer_recording)) (\<lambda>offset.
         seq (lift_sum (safeBrowserRange offset (int (length payload)) Op_transfer_recording)) (\<lambda>durable.
           seq (mutate_blob f (write_request (JInt offset) (Some payload))) (\<lambda>_.
             seq (set_hashed (\<lambda>h. h @ payload)) (\<lambda>_.
               ret (Reply (H_recording_sink_append_completed durable)))))))"

definition sink_finalize :: "rec_manager \<Rightarrow> jsstring \<times> jsstring \<Rightarrow> int option \<Rightarrow> (rec_world, host_reply) prog" where
  "sink_finalize m f expectedCrc32 =
     seq (blob_size_now f) (\<lambda>n.
       seq (lift_sum (safeBrowserNumber n Op_transfer_recording)) (\<lambda>size_now.
         seq (case expectedCrc32 of
                None \<Rightarrow> ret True
              | Some expected \<Rightarrow>
                  seq (get (\<lambda>w. sk_hashed (rw_sink w))) (\<lambda>hashed.
                    seq (lift_sum (rm_crc32 m hashed)) (\<lambda>crc. ret (crc = expected)))) (\<lambda>intact.
           if \<not> intact then ret (Reply H_recording_sink_integrity_failed)
           else
             seq (modify (\<lambda>w. w\<lparr>rw_sink := (rw_sink w)\<lparr>sk_finalized := True\<rparr>\<rparr>)) (\<lambda>_.
               ret (Reply (H_recording_sink_finalized size_now))))))"

definition sink_effect :: "rec_manager \<Rightarrow> jsstring \<Rightarrow> jsstring \<times> jsstring \<Rightarrow> core_effect \<Rightarrow> (rec_world, host_reply) prog" where
  "sink_effect m sink f effect =
     (case effect of
        E_recording_sink_truncate s units \<Rightarrow> seq (assertSink s sink) (\<lambda>_. sink_truncate f units)
      | E_recording_sink_append s sequence payload \<Rightarrow> seq (assertSink s sink) (\<lambda>_. sink_append f payload)
      | E_recording_sink_finalize s expectedCrc32 \<Rightarrow> seq (assertSink s sink) (\<lambda>_. sink_finalize m f expectedCrc32)
      | E_recording_sink_discard s \<Rightarrow>
          seq (assertSink s sink) (\<lambda>_. seq (delete_blob f) (\<lambda>_. ret No_reply))
      | _ \<Rightarrow> reject Sdk_internal_error Op_transfer_recording)"

text \<open>\<open>execute\<close> of the host \<open>createRecordingSinkHost\<close> makes.\<close>

definition sink_execute :: "rec_manager \<Rightarrow> jsstring \<Rightarrow> jsstring \<times> jsstring \<Rightarrow> core_effect \<Rightarrow> (rec_world, host_reply) prog" where
  "sink_execute m sink f effect =
     catching (sink_effect m sink f effect) (\<lambda>e.
       case e of SdkErr _ \<Rightarrow> raise e | StorageErr _ \<Rightarrow> raise e | _ \<Rightarrow> ret sinkFailure)"

text \<open>\<open>execute\<close> of the host \<open>createBrowserPersistenceHost\<close> of \<^verbatim>\<open>workflowRuntime.ts\<close> makes.\<close>

definition candidate_hint :: "jsstring \<Rightarrow> device_candidate \<Rightarrow> int \<Rightarrow> jsval" where
  "candidate_hint serialNumber candidate now =
     JObject [(''schemaVersion'', JNumber (JInt 1)), (''serialNumber'', JString serialNumber),
       (''browserDeviceId'', JString (cand_peripheralId candidate)), (''name'', or_null (cand_name candidate)),
       (''updatedAtEpochMs'', JNumber (JInt now))]"

definition persistence_execute :: "rec_manager \<Rightarrow> jsstring \<Rightarrow> core_effect \<Rightarrow> (rec_world, host_reply) prog" where
  "persistence_execute m operationId effect =
     (case effect of
        E_persistence_load_checkpoint \<Rightarrow>
          if rm_storage m
          then seq (db_read (\<lambda>env db. loadWorkflowCheckpoint (rm_prefix m) env db operationId)) (\<lambda>c.
                 ret (Reply_checkpoint c))
          else ret (Reply_checkpoint None)
      | E_persistence_save_checkpoint checkpoint \<Rightarrow>
          seq (unless (\<not> rm_storage m)
                (db_write (\<lambda>env db.
                   saveWorkflowCheckpoint (rm_prefix m) env db operationId (rm_checkpointObject m checkpoint)))) (\<lambda>_.
            ret (Reply H_checkpoint_saved))
      | E_persistence_delete_checkpoint \<Rightarrow>
          seq (unless (\<not> rm_storage m) (delete_checkpoint_of m operationId)) (\<lambda>_. ret No_reply)
      | E_persistence_save_connection_identity serialNumber candidate \<Rightarrow>
          seq observe (\<lambda>a.
            seq (unless (\<not> rm_storage m)
                  (db_write (\<lambda>env db.
                     saveVerifiedDevice (rm_prefix m) env db (candidate_hint serialNumber candidate (an_now a))))) (\<lambda>_.
              ret (Reply H_connection_identity_saved)))
      | _ \<Rightarrow> reject Sdk_internal_error Op_unknown)"

text \<open>
  The effects a workflow executes, each with the host the runtime gives it to; the first failure ends
  the workflow with that error, even when effects of the cancellation follow.
\<close>

definition execute_effect :: "rec_manager \<Rightarrow> recording_journal \<Rightarrow> jsstring \<times> jsstring \<Rightarrow> core_effect \<Rightarrow> (rec_world, host_reply) prog" where
  "execute_effect m journal f effect =
     (case route_effect effect of
        Route_host Slot_recordingSink \<Rightarrow> sink_execute m (rj_sinkId journal) f effect
      | Route_host Slot_persistence \<Rightarrow> persistence_execute m (rj_operationId journal) effect
      | _ \<Rightarrow> ret No_reply)"

fun run_effects ::
    "rec_manager \<Rightarrow> recording_journal \<Rightarrow> jsstring \<times> jsstring \<Rightarrow> core_effect list \<Rightarrow> js_error option \<Rightarrow> (rec_world, js_error option) prog" where
  "run_effects m journal f [] failure = ret failure"
| "run_effects m journal f (effect # rest) failure =
     seq (catching (seq (execute_effect m journal f effect) (\<lambda>_. ret failure))
           (\<lambda>e. ret (Some (case failure of Some e1 \<Rightarrow> e1 | None \<Rightarrow> e)))) (\<lambda>failure1.
       run_effects m journal f rest failure1)"

text \<open>\<open>runtime.run\<close>: how it ends is an answer, except that it cannot end well after a failed effect.\<close>

definition run_transfer :: "rec_manager \<Rightarrow> recording_journal \<Rightarrow> jsstring \<times> jsstring \<Rightarrow> (rec_world, core_notification list) prog" where
  "run_transfer m journal f =
     seq tick (\<lambda>a.
       seq (run_effects m journal f (an_effects a) None) (\<lambda>failure.
         seq tick (\<lambda>b.
           case an_run b of
             Inl e \<Rightarrow> raise (SdkErr e)
           | Inr notifications \<Rightarrow>
               (case failure of
                  Some e \<Rightarrow> raise (SdkErr (normalizeRuntimeError e Op_transfer_recording))
                | None \<Rightarrow> ret notifications))))"

text \<open>
  \<open>[...notifications].reverse().find(...)\<close>: the last of the notifications that says the transfer is
  complete.
\<close>

fun find_completed :: "core_notification list \<Rightarrow> (bool \<times> bytes option) option" where
  "find_completed [] = None"
| "find_completed (N_recording_transfer_completed encrypted sha256 # ns) = Some (encrypted, sha256)"
| "find_completed (n # ns) = find_completed ns"

definition transfer_completed :: "core_notification list \<Rightarrow> (bool \<times> bytes option) option" where
  "transfer_completed notifications = find_completed (rev notifications)"

section \<open>Upload\<close>

text \<open>The body of the loop: the bytes read so far go into the hasher and are counted.\<close>

definition note_chunk :: "bytes \<Rightarrow> int \<times> bytes \<Rightarrow> (rec_world, int \<times> bytes) prog" where
  "note_chunk chunk acc = (case acc of (streamed, digested) \<Rightarrow>
     seq (throwIfAborted operation_signal Op_upload) (\<lambda>_.
       seq (lift_sum (safeBrowserRange streamed (int (length chunk)) Op_upload)) (\<lambda>streamed1.
         ret (streamed1, digested @ chunk))))"

definition legacyContext ::
    "rec_manager \<Rightarrow> recording_journal \<Rightarrow> rec_item \<Rightarrow> jsstring \<times> jsstring \<Rightarrow> (rec_world, legacy_context) prog" where
  "legacyContext m journal recording f =
     seq createHasher (\<lambda>_.
       seq (stream_blob f note_chunk (0, [])) (\<lambda>(streamedSize, content).
         seq (blob_size_now f) (\<lambda>n.
           seq (lift_sum (safeBrowserNumber n Op_upload)) (\<lambda>reportedSize.
             if reportedSize \<noteq> streamedSize then reject Sdk_integrity_failed Op_upload
             else
               seq (lift_sum (rm_sha256 m (map unat content))) (\<lambda>digest.
                 ret \<lparr>lc_operationId = rj_operationId journal, lc_serialNumber = rj_serialNumber journal,
                   lc_recording = recording, lc_sizeBytes = reportedSize,
                   lc_plaintextSha256Hex = rj_devicePlaintextSha256Hex journal,
                   lc_stagedBodySha256Hex = hex digest, lc_encrypted = dr_encrypted recording\<rparr>)))))"

text \<open>
  \<open>blobReadableStream\<close>: the chunks the request reads before it is answered; a failed read ends the body.
\<close>

fun pull_chunks :: "jsstring \<times> jsstring \<Rightarrow> (int \<times> int) list \<Rightarrow> bytes \<Rightarrow> (rec_world, bytes \<times> bool) prog" where
  "pull_chunks f [] sent = ret (sent, True)"
| "pull_chunks f ((offset, len) # rs) sent =
     seq (ignoring
           (seq (throwIfAborted operation_signal Op_upload) (\<lambda>_.
              file_op (\<lambda>env. blob_read env f (JInt offset) (JInt len))))) (\<lambda>r.
       case r of
         None \<Rightarrow> ret (sent, False)
       | Some chunk \<Rightarrow> pull_chunks f rs (sent @ chunk))"

definition pull_body :: "jsstring \<times> jsstring \<Rightarrow> nat \<Rightarrow> (rec_world, bytes \<times> bool) prog" where
  "pull_body f pulls =
     seq (ignoring (blob_size_now f)) (\<lambda>r.
       case r of
         None \<Rightarrow> ret ([], False)
       | Some n \<Rightarrow>
           seq (pull_chunks f (take pulls (stream_reads OPFS_STREAM_CHUNK_SIZE n 0)) []) (\<lambda>(sent, complete).
             ret (sent, complete \<and> length (stream_reads OPFS_STREAM_CHUNK_SIZE n 0) \<le> pulls)))"

definition uploadBlob :: "jsstring \<Rightarrow> jsstring \<Rightarrow> jsstring \<times> jsstring \<Rightarrow> (rec_world, unit) prog" where
  "uploadBlob operationId uploadId f =
     seq (throwIfAborted operation_signal Op_upload) (\<lambda>_.
       seq observe (\<lambda>a.
         seq (pull_body f (an_pulls a)) (\<lambda>(sent, complete).
           seq (logged (Ev_put operationId uploadId sent complete)) (\<lambda>_.
             seq (awaitWithSignal operation_signal Op_upload an_fetch) (\<lambda>accepted.
               if \<not> accepted then raise (SdkErr retryable_upload_failure)
               else logged (Ev_accepted operationId uploadId))))))"

section \<open>From transfer to confirmation\<close>

definition confirmJournal :: "rec_manager \<Rightarrow> recording_journal \<Rightarrow> (rec_world, rec_result) prog" where
  "confirmJournal m journal =
     (if rj_profile journal \<noteq> Profile_legacy \<or> rj_phase journal \<noteq> Rp_cloud_completed
         \<or> no_id (rj_cloudCompletionId journal)
      then reject Sdk_resume_rejected Op_upload
      else
        seq (throwIfAborted operation_signal Op_upload) (\<lambda>_.
          withVerifiedConnection True Op_upload (\<lambda>(device, serialNumber).
            if serialNumber \<noteq> rj_serialNumber journal then reject Sdk_identity_mismatch Op_upload
            else
              seq (throwIfAborted (combineSignals True) Op_upload) (\<lambda>_.
                seq (lift_sum (rm_confirmCommand m (rj_recordingUuid journal))) (\<lambda>_.
                  seq (logged (Ev_confirm serialNumber (rj_recordingUuid journal))) (\<lambda>_.
                    seq tick (\<lambda>a. case an_io a of
                      Some e \<Rightarrow> raise e
                    | None \<Rightarrow>
                        seq (saveJournal m journal (to_phase Rp_confirmed)) (\<lambda>confirmed.
                          finishConfirmedJournal m confirmed))))))))"

definition failed_upload :: "js_error \<Rightarrow> (rec_world, 'a) prog" where
  "failed_upload e = seq (get operation_signal) (\<lambda>aborted. raise (SdkErr (uploadError e aborted)))"

text \<open>The second half of \<open>uploadStaged\<close>: send the body, let the provider complete, confirm.\<close>

definition complete_upload ::
    "rec_manager \<Rightarrow> legacy_context \<Rightarrow> jsstring \<Rightarrow> jsstring \<times> jsstring \<Rightarrow> recording_journal \<Rightarrow> (rec_world, rec_result) prog" where
  "complete_upload m context uploadId f uploading =
     catching
       (seq (uploadBlob (rj_operationId uploading) uploadId f) (\<lambda>_.
         seq (awaitProviderCall operation_signal Op_upload an_provider) (\<lambda>completion.
           seq (lift_sum (js_property completion ''cloudCompletionId'')) (\<lambda>value.
             seq (validateProviderIdentifier value) (\<lambda>cloudCompletionId.
               seq (logged (Ev_completed context uploadId cloudCompletionId)) (\<lambda>_.
                 seq (saveJournal m uploading
                       ((to_phase Rp_cloud_completed)\<lparr>ju_cloudCompletionId := Some (Some cloudCompletionId)\<rparr>)) (\<lambda>cloudCompleted.
                   confirmJournal m cloudCompleted)))))))
       failed_upload"

definition uploadStaged :: "rec_manager \<Rightarrow> recording_journal \<Rightarrow> rec_item \<Rightarrow> (rec_world, rec_result) prog" where
  "uploadStaged m journal recording =
     seq (requireStorage m) (\<lambda>_.
       seq (requireUploadProvider m) (\<lambda>_.
         seq (open_sink m (rj_sinkId journal)) (\<lambda>f.
           seq (legacyContext m journal recording f) (\<lambda>context.
             seq (catching (awaitProviderCall operation_signal Op_upload an_provider) failed_upload) (\<lambda>prepared.
               seq (lift_sum (js_property prepared ''uploadId'')) (\<lambda>value.
                 seq (validateProviderIdentifier value) (\<lambda>uploadId.
                   seq (validateUploadRequest m (js_get prepared ''request'')) (\<lambda>_.
                     seq (saveJournal m journal ((to_phase Rp_uploading)\<lparr>ju_uploadId := Some (Some uploadId)\<rparr>)) (\<lambda>uploading.
                       complete_upload m context uploadId f uploading)))))))))"

definition reconcileUpload :: "rec_manager \<Rightarrow> recording_journal \<Rightarrow> rec_item \<Rightarrow> (rec_world, rec_result) prog" where
  "reconcileUpload m journal recording =
     (if no_id (rj_uploadId journal) then reject Sdk_resume_rejected Op_upload
      else
        seq (requireUploadProvider m) (\<lambda>_.
          seq (requireStorage m) (\<lambda>_.
            seq (open_sink m (rj_sinkId journal)) (\<lambda>f.
              seq (legacyContext m journal recording f) (\<lambda>context.
                seq (catching (awaitProviderCall operation_signal Op_upload an_provider) failed_upload) (\<lambda>reconciliation.
                  seq (lift_sum (js_property reconciliation ''state'')) (\<lambda>state.
                    if state = JString (js ''cloud_completed'') then
                      seq (validateProviderIdentifier (js_get reconciliation ''cloudCompletionId'')) (\<lambda>cloudCompletionId.
                        seq (logged (Ev_reconciled context (the (rj_uploadId journal)) cloudCompletionId)) (\<lambda>_.
                          seq (saveJournal m journal
                                ((to_phase Rp_cloud_completed)\<lparr>ju_cloudCompletionId := Some (Some cloudCompletionId)\<rparr>)) (\<lambda>cloudCompleted.
                            confirmJournal m cloudCompleted)))
                    else if state \<noteq> JString (js ''not_uploaded'') then raise (SdkErr retryable_upload_failure)
                    else
                      seq (saveJournal m journal ((to_phase Rp_staged)\<lparr>ju_uploadId := Some None\<rparr>)) (\<lambda>staged.
                        uploadStaged m staged recording))))))))"

text \<open>What a cancelled or damaged transfer leaves behind is removed, as far as that succeeds.\<close>

definition drop_unverified :: "rec_manager \<Rightarrow> v2_branch \<Rightarrow> jsstring \<Rightarrow> (rec_world, unit) prog" where
  "drop_unverified m v2 operationId =
     seq (ignoring (load_recording m operationId)) (\<lambda>r.
       case r of
         Some (Some current) \<Rightarrow> seq (ignoring (deleteUnverifiedState m v2 current)) (\<lambda>_. ret ())
       | _ \<Rightarrow> ret ())"

definition after_failure ::
    "rec_manager \<Rightarrow> v2_branch \<Rightarrow> jsstring \<Rightarrow> bota_code list \<Rightarrow> js_error \<Rightarrow> (rec_world, 'a) prog" where
  "after_failure m v2 operationId codes e =
     (let normalized = recordingError e Op_transfer_recording in
      seq (unless (err_code normalized \<notin> set codes) (drop_unverified m v2 operationId)) (\<lambda>_.
        raise (SdkErr normalized)))"

text \<open>The guarded part of \<open>transferLegacy\<close>: run the workflow, note the staged blob, upload it.\<close>

definition transfer_and_upload ::
    "rec_manager \<Rightarrow> recording_journal \<Rightarrow> rec_item \<Rightarrow> jsstring \<times> jsstring \<Rightarrow> (rec_world, rec_result) prog" where
  "transfer_and_upload m transferring recording f =
     seq (run_transfer m transferring f) (\<lambda>notifications.
       seq (get (\<lambda>w. (sk_finalized (rw_sink w), rw_files w f))) (\<lambda>(finalized, content).
         case transfer_completed notifications of
           None \<Rightarrow> reject Sdk_internal_error Op_transfer_recording
         | Some (encrypted, sha256) \<Rightarrow>
             if \<not> finalized then reject Sdk_internal_error Op_transfer_recording
             else
               seq (logged (Ev_transferred (rj_operationId transferring) (rj_serialNumber transferring)
                     (rj_recordingUuid transferring) (case content of None \<Rightarrow> [] | Some bs \<Rightarrow> bs))) (\<lambda>_.
                 seq (saveJournal m transferring ((to_phase Rp_staged)\<lparr>ju_devicePlaintextSha256Hex :=
                       Some (map_option hex sha256)\<rparr>)) (\<lambda>staged.
                   seq (blob_size_now f) (\<lambda>n.
                     seq (lift_sum (safeBrowserNumber n Op_transfer_recording)) (\<lambda>_.
                       seq callback (\<lambda>_.
                         uploadStaged m staged (recording\<lparr>dr_encrypted := encrypted\<rparr>))))))))"

definition transferLegacy ::
    "rec_manager \<Rightarrow> v2_branch \<Rightarrow> recording_journal \<Rightarrow> rec_item \<Rightarrow> (rec_world, rec_result) prog" where
  "transferLegacy m v2 journal recording =
     seq (requireStorage m) (\<lambda>_.
       seq (throwIfAborted operation_signal Op_transfer_recording) (\<lambda>_.
         seq (delete_checkpoint_of m (rj_operationId journal)) (\<lambda>_.
           seq (throwIfAborted operation_signal Op_transfer_recording) (\<lambda>_.
             seq (open_sink m (rj_sinkId journal)) (\<lambda>f.
               seq (throwIfAborted operation_signal Op_transfer_recording) (\<lambda>_.
                 seq (blob_size_now f) (\<lambda>currentSizeValue.
                   seq (throwIfAborted operation_signal Op_transfer_recording) (\<lambda>_.
                     seq (lift_sum (safeBrowserNumber currentSizeValue Op_transfer_recording)) (\<lambda>currentSize.
                       seq (unless (\<not> currentSize > 0)
                             (seq (mutate_blob f (truncate_request (JInt 0))) (\<lambda>_.
                                throwIfAborted operation_signal Op_transfer_recording))) (\<lambda>_.
                         seq (saveJournal m journal ((to_phase Rp_transferring)\<lparr>ju_uploadId := Some None,
                               ju_cloudCompletionId := Some None\<rparr>)) (\<lambda>transferring.
                           seq (throwIfAborted operation_signal Op_transfer_recording) (\<lambda>_.
                             seq createHasher (\<lambda>_.
                               seq (modify (\<lambda>w. w\<lparr>rw_sink := \<lparr>sk_hashed = [], sk_finalized = False\<rparr>\<rparr>)) (\<lambda>_.
                                 catching (transfer_and_upload m transferring recording f)
                                   (after_failure m v2 (rj_operationId journal)
                                      [Sdk_cancelled, Sdk_integrity_failed])))))))))))))))"

section \<open>The public operations\<close>

definition runManagedOperation ::
    "jsstring \<Rightarrow> bota_operation \<Rightarrow> (rec_world, 'a) prog \<Rightarrow> (rec_world, 'a) prog" where
  "runManagedOperation operationId operation body =
     seq (ensureAvailable operation) (\<lambda>_.
       seq (get rw_active) (\<lambda>active.
         if operationId \<in> set active then reject Sdk_operation_in_progress operation
         else
           seq (throwIfAborted operation_signal operation) (\<lambda>_.
             seq (modify (\<lambda>w. w\<lparr>rw_active := operationId # rw_active w\<rparr>)) (\<lambda>_.
               finally_do body (modify (\<lambda>w. w\<lparr>rw_active := removeAll operationId (rw_active w)\<rparr>))))))"

text \<open>\<open>authorizeLegacyTransfer?.(...)\<close>: a provider without this function is passed over.\<close>

definition authorize :: "rec_manager \<Rightarrow> (rec_world, unit) prog" where
  "authorize m =
     seq (requireUploadProvider m) (\<lambda>_.
       seq (if rm_authorizes m
            then seq (awaitProviderCall operation_signal Op_transfer_recording an_provider) (\<lambda>_. ret ())
            else awaitWithSignal operation_signal Op_transfer_recording (\<lambda>_. Inr ())) (\<lambda>_.
         throwIfAborted operation_signal Op_transfer_recording))"

definition prepared_journal :: "jsstring \<Rightarrow> jsstring \<Rightarrow> jsstring \<Rightarrow> int \<Rightarrow> recording_journal" where
  "prepared_journal operationId serialNumber uuid now =
     \<lparr>rj_operationId = operationId, rj_serialNumber = serialNumber, rj_recordingUuid = uuid,
      rj_profile = Profile_legacy, rj_phase = Rp_prepared, rj_sinkId = sinkId operationId,
      rj_uploadId = None, rj_cloudCompletionId = None, rj_confirmationDigestHex = None,
      rj_devicePlaintextSha256Hex = None, rj_updatedAtEpochMs = now\<rparr>"

definition sync_body :: "rec_manager \<Rightarrow> v2_branch \<Rightarrow> rec_item \<Rightarrow> jsstring \<Rightarrow> (rec_world, rec_result) prog" where
  "sync_body m v2 recording operationId =
     seq (load_recording m operationId) (\<lambda>existing.
       seq (throwIfAborted operation_signal Op_transfer_recording) (\<lambda>_.
         if existing \<noteq> None then reject Sdk_resume_rejected Op_transfer_recording
         else
           seq verifyConnection (\<lambda>(device, serialNumber).
             seq (throwIfAborted operation_signal Op_transfer_recording) (\<lambda>_.
               seq (authorize m) (\<lambda>_.
                 seq observe (\<lambda>a.
                   let prepared = prepared_journal operationId serialNumber (dr_uuid recording) (an_now a) in
                   catching
                     (seq (store_journal m prepared) (\<lambda>_.
                       seq (throwIfAborted operation_signal Op_transfer_recording) (\<lambda>_.
                         transferLegacy m v2 prepared recording)))
                     (after_failure m v2 operationId [Sdk_cancelled])))))))"

text \<open>\<open>sync\<close> with the legacy profile; the caller may leave the identifier of the operation out.\<close>

definition sync_legacy :: "rec_manager \<Rightarrow> v2_branch \<Rightarrow> rec_item \<Rightarrow> jsstring option \<Rightarrow> (rec_world, rec_result) prog" where
  "sync_legacy m v2 recording requested =
     seq (ensureAvailable Op_transfer_recording) (\<lambda>_.
       seq (validateRecording recording) (\<lambda>_.
         seq (requireStorage m) (\<lambda>_.
           seq (requireUploadProvider m) (\<lambda>_.
             seq (throwIfAborted operation_signal Op_transfer_recording) (\<lambda>_.
               seq observe (\<lambda>a.
                 let operationId = (case requested of
                       Some i \<Rightarrow> i | None \<Rightarrow> js ''transfer_recording:'' @ an_uuid a) in
                 seq (validateOperationId operationId) (\<lambda>_.
                   runManagedOperation operationId Op_transfer_recording
                     (sync_body m v2 recording operationId))))))))"

definition resume_legacy :: "rec_manager \<Rightarrow> v2_branch \<Rightarrow> recording_journal \<Rightarrow> (rec_world, rec_result) prog" where
  "resume_legacy m v2 journal =
     (if rj_phase journal = Rp_confirmed then finishConfirmedJournal m journal
      else if rj_phase journal = Rp_cloud_completed then confirmJournal m journal
      else
        seq requireConnectedDevice (\<lambda>(device, serialNumber).
          if serialNumber \<noteq> rj_serialNumber journal then reject Sdk_identity_mismatch Op_transfer_recording
          else
            seq (listWithSignal m True) (\<lambda>recordings.
              seq (throwIfAborted operation_signal Op_transfer_recording) (\<lambda>_.
                case find (\<lambda>r. dr_uuid r = rj_recordingUuid journal) recordings of
                  None \<Rightarrow> reject Sdk_resume_rejected Op_transfer_recording
                | Some recording \<Rightarrow>
                    seq (validateRecording recording) (\<lambda>_.
                      seq (authorize m) (\<lambda>_.
                        if rj_phase journal = Rp_staged then uploadStaged m journal recording
                        else if rj_phase journal = Rp_uploading then reconcileUpload m journal recording
                        else transferLegacy m v2 journal recording))))))"

definition resume_body :: "rec_manager \<Rightarrow> v2_branch \<Rightarrow> jsstring \<Rightarrow> (rec_world, rec_result) prog" where
  "resume_body m v2 operationId =
     catching
       (seq (load_recording m operationId) (\<lambda>r.
         seq (throwIfAborted operation_signal Op_transfer_recording) (\<lambda>_.
           case r of
             None \<Rightarrow> reject Sdk_resume_rejected Op_transfer_recording
           | Some journal \<Rightarrow>
               if rj_profile journal = Profile_encrypted_upload_v2
               then if rj_phase journal = Rp_confirmed then finishConfirmedJournal m journal else vb_resume v2 journal
               else resume_legacy m v2 journal)))
       (after_failure m v2 operationId [Sdk_cancelled])"

definition resume_recording :: "rec_manager \<Rightarrow> v2_branch \<Rightarrow> jsstring \<Rightarrow> (rec_world, rec_result) prog" where
  "resume_recording m v2 operationId =
     seq (ensureAvailable Op_transfer_recording) (\<lambda>_.
       seq (validateOperationId operationId) (\<lambda>_.
         seq (requireStorage m) (\<lambda>_.
           seq (requireUploadProvider m) (\<lambda>_.
             seq (throwIfAborted operation_signal Op_transfer_recording) (\<lambda>_.
               runManagedOperation operationId Op_transfer_recording (resume_body m v2 operationId))))))"

definition confirm_body :: "rec_manager \<Rightarrow> v2_branch \<Rightarrow> jsstring \<Rightarrow> (rec_world, unit) prog" where
  "confirm_body m v2 operationId =
     seq (load_recording m operationId) (\<lambda>r.
       seq (throwIfAborted operation_signal Op_upload) (\<lambda>_.
         case r of
           None \<Rightarrow> reject Sdk_resume_rejected Op_upload
         | Some journal \<Rightarrow>
             if rj_profile journal = Profile_encrypted_upload_v2
             then
               if rj_phase journal \<noteq> Rp_cloud_completed then reject Sdk_resume_rejected Op_upload
               else seq (vb_resume v2 journal) (\<lambda>_. ret ())
             else if rj_phase journal = Rp_confirmed then seq (finishConfirmedJournal m journal) (\<lambda>_. ret ())
             else if rj_phase journal \<noteq> Rp_cloud_completed then reject Sdk_resume_rejected Op_upload
             else seq (confirmJournal m journal) (\<lambda>_. ret ())))"

definition confirm_recording :: "rec_manager \<Rightarrow> v2_branch \<Rightarrow> jsstring \<Rightarrow> (rec_world, unit) prog" where
  "confirm_recording m v2 operationId =
     seq (ensureAvailable Op_upload) (\<lambda>_.
       seq (validateOperationId operationId) (\<lambda>_.
         seq (requireStorage m) (\<lambda>_.
           runManagedOperation operationId Op_upload (confirm_body m v2 operationId))))"

text \<open>
  \<open>cancel\<close>: an active operation is aborted together with its workflow, and the call waits for it to
  settle; of another one the state before staging is removed.
\<close>

definition abort_operation :: "(rec_world, unit) prog" where
  "abort_operation =
     seq (modify (\<lambda>w. w\<lparr>rw_aborted := True\<rparr>)) (\<lambda>_.
       seq tick (\<lambda>a. case an_io a of Some e \<Rightarrow> raise e | None \<Rightarrow> ret ()))"

definition cancel_recording :: "rec_manager \<Rightarrow> v2_branch \<Rightarrow> jsstring \<Rightarrow> (rec_world, unit) prog" where
  "cancel_recording m v2 operationId =
     seq (ensureAvailable Op_transfer_recording) (\<lambda>_.
       seq (validateOperationId operationId) (\<lambda>_.
         seq (get rw_active) (\<lambda>active.
           if operationId \<in> set active then abort_operation
           else
             seq (requireStorage m) (\<lambda>_.
               seq (load_recording m operationId) (\<lambda>r.
                 case r of
                   None \<Rightarrow> ret ()
                 | Some journal \<Rightarrow>
                     if rj_phase journal = Rp_prepared \<or> rj_phase journal = Rp_transferring
                     then deleteUnverifiedState m v2 journal else ret ())))))"

record journal_summary =
  js_operationId :: jsstring
  js_serialNumber :: jsstring
  js_recordingUuid :: jsstring
  js_profile :: recording_profile
  js_phase :: recording_phase
  js_updatedAtEpochMs :: int

definition journal_summary_of :: "recording_journal \<Rightarrow> journal_summary" where
  "journal_summary_of journal =
     \<lparr>js_operationId = rj_operationId journal, js_serialNumber = rj_serialNumber journal,
      js_recordingUuid = rj_recordingUuid journal, js_profile = rj_profile journal, js_phase = rj_phase journal,
      js_updatedAtEpochMs = rj_updatedAtEpochMs journal\<rparr>"

definition listPendingOperations :: "rec_manager \<Rightarrow> (rec_world, journal_summary list) prog" where
  "listPendingOperations m =
     seq (ensureAvailable Op_upload) (\<lambda>_.
       seq (requireStorage m) (\<lambda>_.
         seq (db_read (\<lambda>env db. listRecordingJournals (rm_ordered m) (rm_prefix m) env db)) (\<lambda>journals.
           ret (map journal_summary_of journals))))"

text \<open>
  \<open>destroy\<close> aborts the active operations one after the other and then waits for them to settle; a second
  call does nothing of its own.
\<close>

primrec abort_all :: "jsstring list \<Rightarrow> (rec_world, unit) prog" where
  "abort_all [] = ret ()"
| "abort_all (i # rest) = seq abort_operation (\<lambda>_. abort_all rest)"

definition destroy_recordings :: "(rec_world, unit) prog" where
  "destroy_recordings =
     seq (get rw_destroyed) (\<lambda>destroyed.
       if destroyed then ret ()
       else
         seq (modify (\<lambda>w. w\<lparr>rw_destroyed := True\<rparr>)) (\<lambda>_.
           seq (get rw_active) (\<lambda>active. abort_all active)))"

end
