(* ===== verification/RecordingInvariant.thy ===== *)
theory RecordingInvariant
  imports RecordingManager BlobFacts
begin

text \<open>
  What holds of every history of the recording manager: the device is told to let a recording go only
  after the cloud has declared it complete, and what is uploaded is what was transferred.  The
  invariant ties the journals and the blobs to the log; it holds at every point at which a run may
  be cut off.
\<close>

section \<open>Quiet routines\<close>

text \<open>Worlds that agree in the journals, in the content of the blobs and in the log.\<close>

definition rec_same :: "rec_world \<Rightarrow> rec_world \<Rightarrow> bool" where
  "rec_same w w' \<longleftrightarrow>
     rw_db w' Sn_recording_journals = rw_db w Sn_recording_journals
     \<and> file_content (rw_files w') = file_content (rw_files w) \<and> rw_log w' = rw_log w
     \<and> rw_answers w' = rw_answers w"

interpretation rec: world_frame rec_same
  by unfold_locales (auto simp: rec_same_def)

lemma rec_run: "rec.quiet prog \<Longrightarrow> rec.stable P \<Longrightarrow> P w \<Longrightarrow> prog w = (r, w') \<Longrightarrow> P w'"
  using rec.same_refl unfolding rec.quiet_def rec.stable_def by (metis snd_conv)

lemma quiet_observe: "rec.quiet observe"
  by (rule rec.quietI) (simp add: observe_def rec_same_def)

lemma quiet_tick: "rec.quiet tick"
  by (rule rec.quietI) (simp add: tick_def rec_same_def Let_def)

lemma quiet_reject: "rec.quiet (reject c p)"
  unfolding reject_def by (rule rec.quiet_intros)

lemma quiet_throwIfAborted: "rec.quiet (throwIfAborted sig p)"
  unfolding throwIfAborted_def by (intro rec.quiet_intros)

lemma quiet_race: "rec.quiet (race sig p q)"
  unfolding race_def by (intro rec.quiet_intros quiet_tick)

lemma quiet_await: "rec.quiet (awaitWithSignal sig p q)" "rec.quiet (awaitProviderCall sig p q)"
  unfolding awaitWithSignal_def awaitProviderCall_def
  by (intro rec.quiet_intros quiet_race quiet_throwIfAborted quiet_observe)+

lemma quiet_db_read: "rec.quiet (db_read q)"
proof -
  have "rec.quiet (\<lambda>w. (Some (storage_failure (q (an_idb a) (rw_db w))), w))" for a
    by (rule rec.quietI) (simp add: rec.same_refl)
  then show ?thesis unfolding db_read_def by (intro rec.quiet_intros quiet_tick)
qed

lemma quiet_finally: "rec.quiet m \<Longrightarrow> rec.quiet c \<Longrightarrow> rec.quiet (finally_do m c)"
proof (rule rec.quietI)
  fix w
  assume m: "rec.quiet m" and c: "rec.quiet c"
  obtain r w1 where r: "m w = (r, w1)" by fastforce
  with m have 1: "rec_same w w1" by (metis rec.quiet_def snd_conv)
  have "rec.quiet (seq c (\<lambda>_. lift_sum x))" for x :: "js_error + 'a"
    by (intro rec.quiet_intros c)
  then have "rec_same w1 (snd (seq c (\<lambda>_. lift_sum x) w1))" for x :: "js_error + 'a"
    by (simp add: rec.quiet_def)
  with 1 r show "rec_same w (snd (finally_do m c w))"
    by (cases r) (auto simp: finally_do_def intro: rec.same_trans)
qed

lemma quiet_never: "rec.quiet never"
  by (rule rec.quietI) (simp add: never_def rec.same_refl)

lemma quiet_callback: "rec.quiet callback"
  unfolding callback_def by (intro rec.quiet_intros quiet_observe)

lemma quiet_createHasher: "rec.quiet createHasher"
  unfolding createHasher_def by (intro rec.quiet_intros quiet_observe)

lemma quiet_set_hashed: "rec.quiet (set_hashed g)"
  unfolding set_hashed_def by (rule rec.quiet_modify) (simp add: rec_same_def)

lemma quiet_exclusive: "rec.quiet body \<Longrightarrow> rec.quiet (runExclusive_prog p body)"
proof -
  assume body: "rec.quiet body"
  let ?run = "\<lambda>w. case body w of
             (None, w1) \<Rightarrow> (None, w1)
           | (Some r, w1) \<Rightarrow>
               (case direct_outcome (rw_direct w1) False (map_sum id (\<lambda>_. V_unit) r) of
                  Inl e \<Rightarrow> (Some (Inl (SdkErr e)), w1)
                | Inr _ \<Rightarrow> (Some r, w1))"
  have "rec.quiet ?run"
  proof (rule rec.quietI)
    fix w
    obtain r w1 where r: "body w = (r, w1)" by fastforce
    with body have "rec_same w w1" by (metis rec.quiet_def snd_conv)
    with r show "rec_same w (snd (?run w))" by (cases r) (auto split: sum.splits)
  qed
  then show ?thesis
    unfolding runExclusive_prog_def
    by (intro rec.quiet_intros quiet_observe rec.quiet_modify) (simp add: rec_same_def)
qed

lemmas quiet_prims = quiet_observe quiet_tick quiet_reject quiet_throwIfAborted quiet_race quiet_await
  quiet_db_read quiet_finally quiet_never quiet_callback quiet_createHasher quiet_set_hashed quiet_exclusive

lemma quiet_string: "(\<And>s. rec.quiet (f s)) \<Longrightarrow> rec.quiet g \<Longrightarrow> rec.quiet (case v of JString s \<Rightarrow> f s | _ \<Rightarrow> g)"
  by (cases v) simp_all

lemma quiet_guards:
  "rec.quiet (ensureAvailable p)" "rec.quiet (requireStorage m)" "rec.quiet (requireUploadProvider m)"
  "rec.quiet (validateRecording r)" "rec.quiet (validateOperationId i)" "rec.quiet (validateUploadRequest m v)"
  "rec.quiet requireConnectedDevice" "rec.quiet disconnect" "rec.quiet (assertSink s t)"
  "rec.quiet (validateProviderIdentifier v)"
  unfolding ensureAvailable_def requireStorage_def requireUploadProvider_def validateRecording_def
    validateOperationId_def validateUploadRequest_def requireConnectedDevice_def disconnect_def assertSink_def
    validateProviderIdentifier_def
  by (intro rec.quiet_intros quiet_prims quiet_string)+

lemma quiet_verified_section: "(\<And>c. rec.quiet (body c)) \<Longrightarrow> rec.quiet (verified_section x p d body)"
  unfolding verified_section_def by (intro rec.quiet_intros quiet_prims quiet_guards)

lemma quiet_withVerifiedConnection: "(\<And>c. rec.quiet (body c)) \<Longrightarrow> rec.quiet (withVerifiedConnection x p body)"
  unfolding withVerifiedConnection_def Let_def
  by (intro rec.quiet_intros quiet_prims quiet_guards quiet_verified_section)

lemma quiet_verifyConnection: "rec.quiet verifyConnection"
  unfolding verifyConnection_def by (intro rec.quiet_intros quiet_prims quiet_withVerifiedConnection)

lemma quiet_legacy_list: "rec.quiet (legacy_list m sig)"
  unfolding legacy_list_def by (intro rec.quiet_intros quiet_prims)

lemma quiet_listWithSignal: "rec.quiet (listWithSignal m x)"
  unfolding listWithSignal_def encrypted_list_def readOptionalV2Capability_def
  by (intro rec.quiet_intros quiet_prims quiet_guards quiet_withVerifiedConnection quiet_legacy_list)

lemma quiet_authorize: "rec.quiet (authorize m)"
  unfolding authorize_def by (intro rec.quiet_intros quiet_prims quiet_guards)

lemma quiet_failed_upload: "rec.quiet (failed_upload e)"
  unfolding failed_upload_def by (intro rec.quiet_intros)

lemma quiet_load: "rec.quiet (load_recording m i)" "rec.quiet (open_sink m s)"
  unfolding load_recording_def open_sink_def by (intro rec.quiet_intros quiet_db_read)+

lemma quiet_resultFromJournal: "rec.quiet (resultFromJournal j)"
  unfolding resultFromJournal_def by (intro rec.quiet_intros quiet_prims)

lemmas quiet_routines = quiet_guards quiet_verifyConnection quiet_listWithSignal quiet_authorize
  quiet_failed_upload quiet_load quiet_resultFromJournal

section \<open>Quiet access to records and blobs\<close>

lemma quiet_db_write:
  "(\<And>env db. snd (q env db) Sn_recording_journals = db Sn_recording_journals) \<Longrightarrow> rec.quiet (db_write q)"
proof -
  assume q: "\<And>env db. snd (q env db) Sn_recording_journals = db Sn_recording_journals"
  have "rec.quiet (\<lambda>w. case q (an_idb a) (rw_db w) of (r, db) \<Rightarrow> (Some (storage_failure r), w\<lparr>rw_db := db\<rparr>))" for a
    by (rule rec.quietI) (use q in \<open>auto simp: rec_same_def split: prod.split\<close>, metis snd_conv)
  then show ?thesis unfolding db_write_def by (intro rec.quiet_intros quiet_tick)
qed

lemma quiet_file_op:
  "(\<And>env fs g. file_content (snd (q env fs)) g = file_content fs g) \<Longrightarrow> rec.quiet (file_op q)"
proof -
  assume q: "\<And>env fs g. file_content (snd (q env fs)) g = file_content fs g"
  have "rec.quiet (\<lambda>w. case q (an_opfs a) (rw_files w) of (r, fs) \<Rightarrow> (Some (storage_failure r), w\<lparr>rw_files := fs\<rparr>))" for a
    by (rule rec.quietI) (use q in \<open>auto simp: rec_same_def fun_eq_iff split: prod.split\<close>, metis snd_conv)
  then show ?thesis unfolding file_op_def by (intro rec.quiet_intros quiet_tick)
qed

lemma transaction_other:
  "(\<And>d. snd (body d) s = d s) \<Longrightarrow> snd (idb_transaction env body db) s = db s"
  by (auto simp: idb_transaction_def split: option.split sum.split prod.split) (metis snd_conv)

lemma delete_other: "s \<noteq> t \<Longrightarrow> snd (idb_delete p env db t i) s = db s"
  unfolding idb_delete_def by (auto split: sum.split intro!: transaction_other)

lemma put_other: "s \<noteq> t \<Longrightarrow> snd (idb_put p env db t i v) s = db s"
  unfolding idb_put_def by (auto split: sum.split intro!: transaction_other simp: put_record_def)

lemma quiet_checkpoints:
  "rec.quiet (delete_checkpoint_of m i)"
  "rec.quiet (db_write (\<lambda>env db. saveWorkflowCheckpoint p env db i v))"
  "rec.quiet (db_write (\<lambda>env db. saveVerifiedDevice p env db v))"
  unfolding delete_checkpoint_of_def
  by (rule quiet_db_write,
      simp add: deleteWorkflowCheckpoint_def saveWorkflowCheckpoint_def saveVerifiedDevice_def save_checkpoint_def
        delete_other put_other split: sum.split)+

lemma quiet_persistence: "rec.quiet (persistence_execute m i e)"
  unfolding persistence_execute_def
  by (cases e) (auto intro!: rec.quiet_intros quiet_prims quiet_checkpoints)

lemma quiet_blob_size: "rec.quiet (blob_size_now f)"
  unfolding blob_size_now_def
  by (rule quiet_file_op) (metis blob_size_content(1) prod.collapse)

lemma quiet_blob_read: "rec.quiet (file_op (\<lambda>env. blob_read env f o' n))"
  by (rule quiet_file_op) (metis blob_read_content prod.collapse)

lemma quiet_stream_loop: "(\<And>c a. rec.quiet (body c a)) \<Longrightarrow> rec.quiet (stream_loop f body rs acc)"
  by (induction f body rs acc rule: stream_loop.induct)
    (auto intro!: rec.quiet_intros quiet_blob_read)

lemma quiet_stream_blob: "(\<And>c a. rec.quiet (body c a)) \<Longrightarrow> rec.quiet (stream_blob f body acc)"
  unfolding stream_blob_def by (intro rec.quiet_intros quiet_blob_size quiet_stream_loop)

lemma quiet_pull_chunks: "rec.quiet (pull_chunks f rs sent)"
  by (induction f rs sent rule: pull_chunks.induct)
    (auto intro!: rec.quiet_intros quiet_blob_read quiet_throwIfAborted)

lemma quiet_pull_body: "rec.quiet (pull_body f n)"
  unfolding pull_body_def by (intro rec.quiet_intros quiet_blob_size quiet_pull_chunks)

lemmas quiet_access = quiet_checkpoints quiet_persistence quiet_blob_size quiet_blob_read quiet_stream_blob quiet_pull_body

section \<open>The journals of the store\<close>

lemma or_null_inj: "or_null x = or_null y \<longleftrightarrow> x = y"
  by (cases x; cases y) (auto simp: or_null_def)

lemma recording_journal_value_inj: "recordingJournal (recording_journal_value n) = Inr j \<Longrightarrow> j = n"
  by (cases n) (auto simp: recordingJournal_def recording_journal_value_def Let_def or_null_inj
      inj_eq [OF recording_phase_name_inj] inj_eq [OF recording_profile_name_inj] split: if_splits)

definition journal_of :: "rec_manager \<Rightarrow> rec_world \<Rightarrow> jsstring \<Rightarrow> recording_journal option" where
  "journal_of m w i = recording_store.stored (rm_prefix m) (rw_db w) i"

lemma stored_other: "db Sn_recording_journals = db' Sn_recording_journals \<Longrightarrow>
    recording_store.stored p db i = recording_store.stored p db' i"
  by (simp add: recording_store.stored_def loadRecordingJournal_def idb_get_def idb_transaction_def idb_ok_def)

lemma stored_name: "recording_store.stored p db i = Some j \<Longrightarrow> rj_operationId j = i"
  by (auto simp: recording_store.stored_eq)

lemma stored_load:
  assumes "loadRecordingJournal p env db i = Inr r"
  shows "recording_store.stored p db i = r"
proof -
  obtain k where k: "storage_key p i = Inr k"
    using assms by (auto simp: loadRecordingJournal_def rbind_eq_Inr idb_get_Inr)
  then have "idb_get p env db Sn_recording_journals i = Inr (map_of (db Sn_recording_journals) k)"
    using assms by (auto simp: loadRecordingJournal_def rbind_eq_Inr idb_get_Inr)
  then have "loadRecordingJournal p idb_ok db i = loadRecordingJournal p env db i"
    using k by (simp add: loadRecordingJournal_def idb_get_ok)
  with assms show ?thesis by (auto simp: recording_store.stored_def split: option.split)
qed

lemma stored_put:
  assumes "storage_key p (rj_operationId n) = Inr k" and "recordingJournal (recording_journal_value n) = Inr n"
    and "db' = db(Sn_recording_journals := os_put k (recording_journal_value n) (db Sn_recording_journals))"
  shows "recording_store.stored p db' i = (if i = rj_operationId n then Some n else recording_store.stored p db i)"
proof (cases "i = rj_operationId n")
  case True
  with assms show ?thesis by (auto simp: recording_store.stored_eq map_of_os_put)
next
  case False
  have other: "storage_key p i \<noteq> Inr k"
    using storage_key_inj [of p i "rj_operationId n"] False assms(1) by auto
  have "recording_store.stored p db' i = Some j \<longleftrightarrow> recording_store.stored p db i = Some j" for j
    using other by (auto simp: recording_store.stored_eq assms(3) map_of_os_put)
  then have "recording_store.stored p db' i = recording_store.stored p db i"
    by (metis not_None_eq)
  with False show ?thesis by simp
qed

lemma stored_save:
  assumes "saveRecordingJournal p env db (recording_journal_value n) = (Inr u, db')"
  shows "recording_store.stored p db' i = (if i = rj_operationId n then Some n else recording_store.stored p db i)"
proof -
  from assms have s: "saveRecordingJournal p env db (recording_journal_value n) = (Inr (), db')" by simp
  obtain j k where j: "recordingJournal (recording_journal_value n) = Inr j" "storage_key p (rj_operationId j) = Inr k"
    "db' = db(Sn_recording_journals := os_put k (recording_journal_value j) (db Sn_recording_journals))"
    using s by (rule recording_store.save_accepted)
  moreover have "j = n" using recording_journal_value_inj j(1) .
  ultimately show ?thesis using stored_put by blast
qed

lemma stored_save_failed:
  "saveRecordingJournal p env db v = (Inl e, db') \<Longrightarrow> db' = db"
  using recording_store.save_rejected [of p env db v e] by simp

lemma stored_delete:
  assumes "deleteRecordingJournal p env db n = (r, db')"
  shows "recording_store.stored p db' i = recording_store.stored p db i \<or> i = n \<and> recording_store.stored p db' i = None"
proof (cases "storage_key p n")
  case (Inl e)
  with assms show ?thesis by (simp add: deleteRecordingJournal_def idb_delete_def)
next
  case (Inr k)
  note key = Inr
  show ?thesis
  proof (cases r)
    case (Inl e)
    with assms key have "db' = db"
      using idb_transaction_Inl [of env "\<lambda>d. (Inr (), d(Sn_recording_journals := os_delete k (d Sn_recording_journals)))" db e]
      by (simp add: deleteRecordingJournal_def idb_delete_def)
    then show ?thesis by simp
  next
    case (Inr u)
    with assms key have db': "db' = db(Sn_recording_journals := os_delete k (db Sn_recording_journals))"
      by (auto simp: deleteRecordingJournal_def idb_delete_def idb_transaction_Inr)
    show ?thesis
    proof (cases "i = n")
      case True
      have "recording_store.stored p db' n \<noteq> Some j" for j
        using key by (simp add: recording_store.stored_eq db' map_of_os_delete)
      with True show ?thesis by (metis not_None_eq)
    next
      case False
      have other: "storage_key p i \<noteq> Inr k"
        using storage_key_inj [of p i n] False key by auto
      have "recording_store.stored p db' i = Some j \<longleftrightarrow> recording_store.stored p db i = Some j" for j
        using other by (auto simp: recording_store.stored_eq db' map_of_os_delete)
      then show ?thesis by (metis not_None_eq)
    qed
  qed
qed

section \<open>The invariant\<close>

text \<open>The blob an operation uses, and what the log says was transferred for it last.\<close>

definition sink_file :: "rec_manager \<Rightarrow> jsstring \<Rightarrow> storage_code + jsstring \<times> jsstring" where
  "sink_file m operationId = open_blob (rm_sha256 m) (rm_directory m) (sinkId operationId)"

definition distinct_files :: "rec_manager \<Rightarrow> jsstring set \<Rightarrow> bool" where
  "distinct_files m ids \<longleftrightarrow> (\<forall>a \<in> ids. \<forall>b \<in> ids. \<forall>f. sink_file m a = Inr f \<longrightarrow> sink_file m b = Inr f \<longrightarrow> a = b)"

definition staged_bytes :: "rec_event list \<Rightarrow> jsstring \<Rightarrow> bytes option" where
  "staged_bytes log operationId =
     foldl (\<lambda>found e. case e of
         Ev_transferred i s u bs \<Rightarrow> if i = operationId then Some bs else found | _ \<Rightarrow> found) None log"

definition told :: "rec_event list \<Rightarrow> legacy_context \<Rightarrow> jsstring \<Rightarrow> jsstring \<Rightarrow> bool" where
  "told log context uploadId c \<longleftrightarrow> Ev_completed context uploadId c \<in> set log \<or> Ev_reconciled context uploadId c \<in> set log"

definition completed_as :: "rec_event list \<Rightarrow> recording_journal \<Rightarrow> jsstring \<Rightarrow> bool" where
  "completed_as log j c \<longleftrightarrow> (\<exists>context uploadId. told log context uploadId c
     \<and> lc_operationId context = rj_operationId j \<and> lc_serialNumber context = rj_serialNumber j
     \<and> dr_uuid (lc_recording context) = rj_recordingUuid j)"

text \<open>The context a provider was given describes the bytes that were transferred.\<close>

definition describes :: "rec_manager \<Rightarrow> rec_event list \<Rightarrow> legacy_context \<Rightarrow> bool" where
  "describes m log context \<longleftrightarrow> (\<exists>bs digest. staged_bytes log (lc_operationId context) = Some bs
     \<and> lc_sizeBytes context = int (length bs) \<and> rm_sha256 m (map unat bs) = Inr digest
     \<and> lc_stagedBodySha256Hex context = hex digest)"

fun event_ok :: "rec_manager \<Rightarrow> jsstring set \<Rightarrow> rec_event list \<Rightarrow> rec_event \<Rightarrow> bool" where
  "event_ok m ids past (Ev_confirm s u) \<longleftrightarrow> (\<exists>context uploadId c. told past context uploadId c
     \<and> lc_serialNumber context = s \<and> dr_uuid (lc_recording context) = u)"
| "event_ok m ids past (Ev_put i uploadId sent complete) \<longleftrightarrow> (distinct_files m ids \<longrightarrow>
     (\<exists>bs. staged_bytes past i = Some bs \<and> (\<exists>rest. bs = sent @ rest \<and> (complete \<longrightarrow> rest = []))))"
| "event_ok m ids past (Ev_completed context uploadId c) \<longleftrightarrow>
     Ev_accepted (lc_operationId context) uploadId \<in> set past \<and> (distinct_files m ids \<longrightarrow> describes m past context)"
| "event_ok m ids past (Ev_reconciled context uploadId c) \<longleftrightarrow> (distinct_files m ids \<longrightarrow> describes m past context)"
| "event_ok m ids past _ \<longleftrightarrow> True"

definition log_ok :: "rec_manager \<Rightarrow> jsstring set \<Rightarrow> rec_event list \<Rightarrow> bool" where
  "log_ok m ids log \<longleftrightarrow> (\<forall>past e later. log = past @ e # later \<longrightarrow> event_ok m ids past e)"

definition staged_here :: "rec_manager \<Rightarrow> rec_world \<Rightarrow> jsstring \<Rightarrow> bool" where
  "staged_here m w i \<longleftrightarrow>
     (\<forall>f. sink_file m i = Inr f \<longrightarrow> staged_bytes (rw_log w) i = Some (file_content (rw_files w) f))"

definition journal_ok :: "rec_manager \<Rightarrow> jsstring set \<Rightarrow> rec_world \<Rightarrow> recording_journal \<Rightarrow> bool" where
  "journal_ok m ids w j \<longleftrightarrow>
     rj_operationId j \<in> ids \<and> rj_profile j = Profile_legacy \<and> rj_sinkId j = sinkId (rj_operationId j)
     \<and> (rj_phase j = Rp_cloud_completed \<or> rj_phase j = Rp_confirmed \<longrightarrow>
          (\<exists>c. rj_cloudCompletionId j = Some c \<and> completed_as (rw_log w) j c))
     \<and> (distinct_files m ids \<longrightarrow> rj_phase j \<in> {Rp_staged, Rp_uploading, Rp_cloud_completed} \<longrightarrow>
          staged_here m w (rj_operationId j))"

definition rec_inv :: "rec_manager \<Rightarrow> jsstring set \<Rightarrow> rec_world \<Rightarrow> bool" where
  "rec_inv m ids w \<longleftrightarrow> (\<forall>i j. journal_of m w i = Some j \<longrightarrow> journal_ok m ids w j) \<and> log_ok m ids (rw_log w)"

text \<open>The routine works on the journal \<open>j\<close>, and it is the one that is stored.\<close>

definition holding :: "rec_manager \<Rightarrow> jsstring set \<Rightarrow> recording_journal \<Rightarrow> rec_world \<Rightarrow> bool" where
  "holding m ids j w \<longleftrightarrow> rec_inv m ids w \<and> journal_of m w (rj_operationId j) = Some j"

abbreviation safe :: "rec_manager \<Rightarrow> jsstring set \<Rightarrow> (rec_world \<Rightarrow> bool) \<Rightarrow> (rec_world, 'a) prog \<Rightarrow> ('a \<Rightarrow> rec_world \<Rightarrow> bool) \<Rightarrow> bool" where
  "safe m ids P prog Q \<equiv> triple P prog Q (\<lambda>_. rec_inv m ids) (rec_inv m ids)"

lemma journal_of_same: "rec_same w w' \<Longrightarrow> journal_of m w' i = journal_of m w i"
  unfolding journal_of_def rec_same_def by (intro stored_other) simp

lemma staged_here_cong:
  "rw_log w' = rw_log w \<Longrightarrow> file_content (rw_files w') = file_content (rw_files w) \<Longrightarrow>
     staged_here m w' i = staged_here m w i"
  by (simp add: staged_here_def)

lemma journal_ok_same: "rec_same w w' \<Longrightarrow> journal_ok m ids w' j = journal_ok m ids w j"
  using staged_here_cong [of w' w m "rj_operationId j"] by (simp add: journal_ok_def rec_same_def)

lemma rec_inv_same: "rec_same w w' \<Longrightarrow> rec_inv m ids w' = rec_inv m ids w"
  using journal_of_same [of w w'] journal_ok_same [of w w'] by (auto simp: rec_inv_def rec_same_def)

lemma stable_inv [simp]: "rec.stable (rec_inv m ids)"
  by (simp add: rec.stable_def rec_inv_same)

lemma stable_holding [simp]: "rec.stable (holding m ids j)"
  by (auto simp: rec.stable_def holding_def rec_inv_same journal_of_same)

lemma stable_log [simp]: "rec.stable (\<lambda>w. R (rw_log w))"
  by (auto simp: rec.stable_def rec_same_def)

lemma stable_conj [simp]: "rec.stable P \<Longrightarrow> rec.stable Q \<Longrightarrow> rec.stable (\<lambda>w. P w \<and> Q w)"
  by (auto simp: rec.stable_def)

lemma holding_inv: "holding m ids j w \<Longrightarrow> rec_inv m ids w"
  by (simp add: holding_def)

lemma safe_quiet:
  assumes "rec.quiet prog" and "rec.stable P" and "\<And>w. P w \<Longrightarrow> rec_inv m ids w"
  shows "safe m ids P prog (\<lambda>_. P)"
  by (rule triple_weaken [OF rec.triple_quiet [OF assms(1,2)]]) (use assms(3) in auto)

lemma safe_seq_quiet:
  assumes "rec.quiet prog" and "rec.stable P" and "\<And>w. P w \<Longrightarrow> rec_inv m ids w"
    and "\<And>x. safe m ids P (f x) Q"
  shows "safe m ids P (seq prog f) Q"
proof (rule triple_seq)
  show "safe m ids P prog (\<lambda>_. P)" using assms(1-3) by (rule safe_quiet)
qed (rule assms(4))

section \<open>The log\<close>

lemma staged_bytes_append [simp]:
  "staged_bytes (log @ [e]) i = (case e of
     Ev_transferred j s u bs \<Rightarrow> if j = i then Some bs else staged_bytes log i | _ \<Rightarrow> staged_bytes log i)"
  by (simp add: staged_bytes_def split: rec_event.split)

lemma log_ok_append: "log_ok m ids (log @ [e]) \<longleftrightarrow> log_ok m ids log \<and> event_ok m ids log e"
proof
  assume all: "log_ok m ids (log @ [e])"
  have "event_ok m ids past x" if "log = past @ x # later" for past x later
    using all that unfolding log_ok_def by (metis append_Cons append_assoc)
  then show "log_ok m ids log \<and> event_ok m ids log e" using all by (auto simp: log_ok_def)
next
  assume both: "log_ok m ids log \<and> event_ok m ids log e"
  show "log_ok m ids (log @ [e])"
    unfolding log_ok_def
  proof (intro allI impI)
    fix past x later
    assume split: "log @ [e] = past @ x # later"
    show "event_ok m ids past x"
    proof (cases later rule: rev_cases)
      case Nil
      with split both show ?thesis by simp
    next
      case (snoc xs y)
      with split have "log = past @ x # xs" by simp
      with both show ?thesis by (simp add: log_ok_def)
    qed
  qed
qed

lemma told_append: "told log context u c \<Longrightarrow> told (log @ [e]) context u c"
  by (auto simp: told_def)

lemma completed_append: "completed_as log j c \<Longrightarrow> completed_as (log @ [e]) j c"
  unfolding completed_as_def using told_append by blast

lemma rec_inv_logged:
  assumes "rec_inv m ids w" and "event_ok m ids (rw_log w) e"
    and "\<And>i s u bs. e \<noteq> Ev_transferred i s u bs"
  shows "rec_inv m ids (w\<lparr>rw_log := rw_log w @ [e]\<rparr>)"
proof -
  let ?w = "w\<lparr>rw_log := rw_log w @ [e]\<rparr>"
  have "staged_bytes (rw_log ?w) i = staged_bytes (rw_log w) i" for i
    using assms(3) by (simp split: rec_event.split)
  then have "staged_here m ?w i = staged_here m w i" for i by (simp add: staged_here_def)
  then have "journal_ok m ids w j \<Longrightarrow> journal_ok m ids ?w j" for j
    using completed_append by (auto simp: journal_ok_def)
  moreover have "journal_of m ?w i = journal_of m w i" for i by (simp add: journal_of_def)
  ultimately show ?thesis using assms(1,2) by (auto simp: rec_inv_def log_ok_append)
qed

lemma safe_logged:
  assumes "\<And>w. P w \<Longrightarrow> holding m ids j w \<and> event_ok m ids (rw_log w) e"
    and "\<And>i s u bs. e \<noteq> Ev_transferred i s u bs"
  shows "safe m ids P (logged e) (\<lambda>_ w. holding m ids j w \<and> e \<in> set (rw_log w))"
  unfolding logged_def
proof (rule triple_modify)
  fix w
  assume "P w"
  with assms(1) have w: "rec_inv m ids w" "journal_of m w (rj_operationId j) = Some j" "event_ok m ids (rw_log w) e"
    by (auto simp: holding_def)
  from rec_inv_logged [OF w(1,3) assms(2)] w(2)
  show "holding m ids j (w\<lparr>rw_log := rw_log w @ [e]\<rparr>) \<and> e \<in> set (rw_log (w\<lparr>rw_log := rw_log w @ [e]\<rparr>))"
    by (simp add: holding_def journal_of_def)
qed

section \<open>Journals: loading, saving, deleting\<close>

lemma safe_seq_rec:
  assumes "safe m ids P prog R" and "\<And>x. safe m ids (R x) (f x) Q"
  shows "safe m ids P (seq prog f) Q"
  using assms by (rule triple_seq)

lemma load_result:
  assumes "load_recording m i w = (r, w')"
  shows "rec_same w w' \<and> (\<forall>x. r = Some (Inr x) \<longrightarrow> journal_of m w' i = x)"
proof -
  have same: "rec_same w w'" using quiet_load(1) [of m i] assms by (metis rec.quiet_def snd_conv)
  obtain a w1 where t: "tick w = (a, w1)" by fastforce
  have "journal_of m w' i = x" if x: "r = Some (Inr x)" for x
  proof -
    from assms t x obtain y where "a = Some (Inr y)" and w': "w' = w1"
      and "storage_failure (loadRecordingJournal (rm_prefix m) (an_idb y) (rw_db w1) i) = Inr x"
      by (auto simp: load_recording_def db_read_def seq_def split: option.splits sum.splits)
    then show ?thesis by (simp add: journal_of_def stored_load)
  qed
  with same show ?thesis by blast
qed

lemma safe_load:
  "safe m ids (rec_inv m ids) (load_recording m i)
     (\<lambda>r w. case r of None \<Rightarrow> rec_inv m ids w \<and> journal_of m w i = None
        | Some j \<Rightarrow> holding m ids j w \<and> rj_operationId j = i)"
proof (rule tripleI)
  fix w r w'
  assume w: "rec_inv m ids w" and run: "load_recording m i w = (r, w')"
  note l = load_result [OF run]
  with w have inv: "rec_inv m ids w'" using rec_inv_same by blast
  have "rj_operationId j = i" if "journal_of m w' i = Some j" for j
    using that by (simp add: journal_of_def stored_name)
  with l inv show "case r of None \<Rightarrow> rec_inv m ids w' | Some (Inl e) \<Rightarrow> rec_inv m ids w'
      | Some (Inr x) \<Rightarrow> (case x of None \<Rightarrow> rec_inv m ids w' \<and> journal_of m w' i = None
          | Some j \<Rightarrow> holding m ids j w' \<and> rj_operationId j = i)"
    by (auto simp: holding_def split: option.split sum.split)
qed

lemma db_write_cases:
  assumes "db_write q w = (r, w')"
  obtains (cut) "r = None" and "rec_same w w'"
  | (ran) a :: answer and w1 :: rec_world and x db where "rec_same w w1" and "q (an_idb a) (rw_db w1) = (x, db)"
      and "r = Some (storage_failure x)" and "w' = w1\<lparr>rw_db := db\<rparr>"
proof -
  obtain t w1 where t: "tick w = (t, w1)" by fastforce
  then have same: "rec_same w w1" using quiet_tick by (metis rec.quiet_def snd_conv)
  show ?thesis
  proof (cases t)
    case None
    with t assms cut same show ?thesis by (simp add: db_write_def seq_def)
  next
    case (Some v)
    then obtain a where a: "v = Inr a" using t by (auto simp: tick_def Let_def split: if_splits)
    obtain x db where "q (an_idb a) (rw_db w1) = (x, db)" by fastforce
    with t Some a assms have "r = Some (storage_failure x)" "w' = w1\<lparr>rw_db := db\<rparr>"
      by (auto simp: db_write_def seq_def)
    with ran same \<open>_ = (x, db)\<close> show ?thesis by blast
  qed
qed

lemma rec_inv_journals:
  assumes "rec_inv m ids w" and "rw_files w' = rw_files w" and "rw_log w' = rw_log w"
    and "\<And>i j. journal_of m w' i = Some j \<Longrightarrow> journal_of m w i = Some j \<or> journal_ok m ids w j"
  shows "rec_inv m ids w'"
proof -
  have "journal_ok m ids w' j = journal_ok m ids w j" for j
    using assms(2,3) staged_here_cong [of w' w m "rj_operationId j"] by (simp add: journal_ok_def)
  with assms show ?thesis unfolding rec_inv_def by metis
qed

lemma safe_store:
  assumes "\<And>w. P w \<Longrightarrow> rec_inv m ids w \<and> journal_ok m ids w n" and "rec.stable P"
  shows "safe m ids P (store_journal m n) (\<lambda>_. holding m ids n)"
proof (rule tripleI)
  fix w r w'
  assume w: "P w" and run: "store_journal m n w = (r, w')"
  show "case r of None \<Rightarrow> rec_inv m ids w' | Some (Inl e) \<Rightarrow> rec_inv m ids w' | Some (Inr x) \<Rightarrow> holding m ids n w'"
    using run unfolding store_journal_def
  proof (cases rule: db_write_cases)
    case cut
    then have "P w'" using w assms(2) by (auto simp: rec.stable_def)
    with cut assms(1) show ?thesis by simp
  next
    case (ran a w1 x db)
    then have "P w1" using w assms(2) by (auto simp: rec.stable_def)
    with assms(1) have w1: "rec_inv m ids w1" "journal_ok m ids w1 n" by auto
    show ?thesis
    proof (cases x)
      case (Inl e)
      with ran stored_save_failed have "w' = w1" by fastforce
      with w1 ran Inl show ?thesis by simp
    next
      case (Inr u)
      with ran(2) have "saveRecordingJournal (rm_prefix m) (an_idb a) (rw_db w1) (recording_journal_value n) = (Inr u, db)"
        by simp
      from stored_save [OF this]
      have j: "journal_of m w' i = (if i = rj_operationId n then Some n else journal_of m w1 i)" for i
        using ran(4) by (simp add: journal_of_def)
      have "rec_inv m ids w'"
        by (rule rec_inv_journals [OF w1(1)]) (use ran(4) j w1(2) in \<open>auto split: if_splits\<close>)
      with j ran Inr show ?thesis by (simp add: holding_def)
    qed
  qed
qed

lemma safe_delete_journal:
  "safe m ids (rec_inv m ids) (delete_journal_of m i) (\<lambda>_. rec_inv m ids)"
proof (rule tripleI)
  fix w r w'
  assume w: "rec_inv m ids w" and run: "delete_journal_of m i w = (r, w')"
  have "rec_inv m ids w'"
    using run unfolding delete_journal_of_def
  proof (cases rule: db_write_cases)
    case cut
    with w show ?thesis using rec_inv_same by blast
  next
    case (ran a w1 x db)
    from ran(1) w have w1: "rec_inv m ids w1" using rec_inv_same by blast
    have "journal_of m w' k = Some j \<Longrightarrow> journal_of m w1 k = Some j" for k j
      using stored_delete [OF ran(2), of k] ran(4) by (auto simp: journal_of_def)
    then show ?thesis using ran(4) by (intro rec_inv_journals [OF w1]) auto
  qed
  then show "case r of None \<Rightarrow> rec_inv m ids w' | Some (Inl e) \<Rightarrow> rec_inv m ids w' | Some (Inr x) \<Rightarrow> rec_inv m ids w'"
    by (simp split: option.split sum.split)
qed

text \<open>What a saved journal has to satisfy, in terms of the one it replaces.\<close>

lemma safe_saveJournal:
  assumes "\<And>w. P w \<Longrightarrow> rec_inv m ids w" and "rec.stable P"
    and "\<And>w now. P w \<Longrightarrow> journal_ok m ids w (next_journal j u now)"
  shows "safe m ids P (saveJournal m j u) (\<lambda>n w. holding m ids n w \<and> (\<exists>now. n = next_journal j u now))"
proof -
  have store: "safe m ids P (seq (store_journal m (next_journal j u now)) (\<lambda>_. ret (next_journal j u now)))
      (\<lambda>n w. holding m ids n w \<and> (\<exists>now. n = next_journal j u now))" for now
  proof (rule triple_seq)
    show "safe m ids P (store_journal m (next_journal j u now)) (\<lambda>_. holding m ids (next_journal j u now))"
      by (rule safe_store) (use assms in auto)
  qed (rule triple_ret, blast)
  show ?thesis
    unfolding saveJournal_def Let_def
    by (rule safe_seq_quiet [OF quiet_observe assms(2,1)], assumption,
        rule safe_seq_quiet [OF quiet_guards(2) assms(2,1)], assumption, rule store)
qed

lemma holding_ok: "holding m ids j w \<Longrightarrow> journal_ok m ids w j"
  by (auto simp: holding_def rec_inv_def)

section \<open>Blobs\<close>

text \<open>Whatever is done to the blob of an operation that has nothing staged, the invariant holds.\<close>

definition unstaged :: "recording_journal \<Rightarrow> bool" where
  "unstaged j \<longleftrightarrow> rj_phase j \<notin> {Rp_staged, Rp_uploading, Rp_cloud_completed}"

lemma rec_inv_blob:
  assumes w: "holding m ids j w" and "unstaged j"
    and f: "sink_file m (rj_operationId j) = Inr f"
    and same: "rw_db w' Sn_recording_journals = rw_db w Sn_recording_journals" "rw_log w' = rw_log w"
    and files: "\<And>g. g \<noteq> f \<Longrightarrow> file_content (rw_files w') g = file_content (rw_files w) g"
  shows "holding m ids j w'"
proof -
  have j: "journal_of m w' i = journal_of m w i" for i
    unfolding journal_of_def using same(1) by (intro stored_other) simp
  have "journal_ok m ids w' n" if n: "journal_of m w i = Some n" for i n
  proof (cases "rj_operationId n = rj_operationId j")
    case True
    have "rj_operationId n = i" using n by (simp add: journal_of_def stored_name)
    with True n w have "n = j" by (simp add: holding_def)
    with holding_ok [OF w] assms(2) same(2) show ?thesis by (auto simp: journal_ok_def unstaged_def)
  next
    case False
    from n w have ok: "journal_ok m ids w n" by (auto simp: holding_def rec_inv_def)
    have "g \<noteq> f" if "distinct_files m ids" "sink_file m (rj_operationId n) = Inr g" for g
    proof
      assume "g = f"
      moreover have "rj_operationId n \<in> ids" "rj_operationId j \<in> ids"
        using ok holding_ok [OF w] by (simp_all add: journal_ok_def)
      ultimately show False using that f False unfolding distinct_files_def by blast
    qed
    then have "staged_here m w' (rj_operationId n)" if "distinct_files m ids" "staged_here m w (rj_operationId n)"
      using that files same(2) unfolding staged_here_def by metis
    with ok same(2) show ?thesis by (simp add: journal_ok_def)
  qed
  with j w same(2) show ?thesis by (auto simp: holding_def rec_inv_def)
qed

lemma file_op_cases:
  assumes "file_op q w = (r, w')"
  obtains (cut) "r = None" and "rec_same w w'"
  | (ran) a :: answer and w1 :: rec_world and x fs where "rec_same w w1" and "q (an_opfs a) (rw_files w1) = (x, fs)"
      and "r = Some (storage_failure x)" and "w' = w1\<lparr>rw_files := fs\<rparr>"
proof -
  obtain t w1 where t: "tick w = (t, w1)" by fastforce
  then have same: "rec_same w w1" using quiet_tick by (metis rec.quiet_def snd_conv)
  show ?thesis
  proof (cases t)
    case None
    with t assms cut same show ?thesis by (simp add: file_op_def seq_def)
  next
    case (Some v)
    then obtain a where a: "v = Inr a" using t by (auto simp: tick_def Let_def split: if_splits)
    obtain x fs where "q (an_opfs a) (rw_files w1) = (x, fs)" by fastforce
    with t Some a assms have "r = Some (storage_failure x)" "w' = w1\<lparr>rw_files := fs\<rparr>"
      by (auto simp: file_op_def seq_def)
    with ran same \<open>_ = (x, fs)\<close> show ?thesis by blast
  qed
qed

lemma holding_blob_op:
  assumes "unstaged j" and "sink_file m (rj_operationId j) = Inr f"
    and q: "\<And>env fs g. g \<noteq> f \<Longrightarrow> file_content (snd (q env fs)) g = file_content fs g"
  shows "invariant (holding m ids j) (file_op q)"
proof (rule invariantI)
  fix w
  assume w: "holding m ids j w"
  obtain r w' where run: "file_op q w = (r, w')" by fastforce
  have "holding m ids j w'"
    using run
  proof (cases rule: file_op_cases)
    case cut
    with w show ?thesis using stable_holding [of m ids j] by (auto simp: rec.stable_def)
  next
    case (ran a w1 x fs)
    from ran(1) w have w1: "holding m ids j w1" using stable_holding [of m ids j] by (auto simp: rec.stable_def)
    show ?thesis
      by (rule rec_inv_blob [OF w1 assms(1,2)]) (use ran q [of _ "an_opfs a" "rw_files w1"] in auto)
  qed
  with run show "holding m ids j (snd (file_op q w))" by simp
qed

lemma quiet_check: "rec.quiet (file_op (\<lambda>env fs. case mutation_check env f job fs of (r, fs1) \<Rightarrow> (Inr r, fs1)))"
  by (rule quiet_file_op) (simp add: split_def mutation_check_content_all)

lemma holding_quiet: "rec.quiet prog \<Longrightarrow> invariant (holding m ids j) prog"
  by (rule rec.invariant_quiet) simp_all

lemma holding_mutate:
  assumes "unstaged j" and "sink_file m (rj_operationId j) = Inr f"
  shows "invariant (holding m ids j) (mutate_blob f request)"
proof -
  have "invariant (holding m ids j)
      (case r of Inl outcome \<Rightarrow> lift_sum (storage_failure outcome)
       | Inr _ \<Rightarrow> file_op (\<lambda>env. mutation_commit env f job))" for job and r :: "(storage_code + unit) + unit"
    by (cases r) (simp_all add: invariant_basic holding_blob_op [OF assms] commit_other)
  then show ?thesis
    unfolding mutate_blob_def
    by (intro invariant_seq invariant_basic(3) holding_quiet [OF quiet_check])
qed

lemma safe_invariant: "invariant (holding m ids j) prog \<Longrightarrow> safe m ids (holding m ids j) prog (\<lambda>_. holding m ids j)"
  unfolding invariant_def by (erule triple_weaken) (auto simp: holding_inv)

section \<open>Steps of the routines\<close>

lemma triple_fact: "(b \<Longrightarrow> triple P prog Q E C) \<Longrightarrow> triple (\<lambda>w. P w \<and> b) prog Q E C"
  by (auto simp: triple_def)

lemma inv_stable [simp]: "P = rec_inv m ids \<Longrightarrow> rec.stable P"
  by simp

lemma safe_open_seq:
  assumes "\<And>f. sink_file m (rj_operationId j) = Inr f \<Longrightarrow> safe m ids (holding m ids j) (g f) Q"
  shows "safe m ids (holding m ids j) (seq (open_sink m (rj_sinkId j)) g) Q"
proof (rule triple_seq)
  show "safe m ids (holding m ids j) (open_sink m (rj_sinkId j))
      (\<lambda>f w. holding m ids j w \<and> sink_file m (rj_operationId j) = Inr f)"
    unfolding open_sink_def
  proof (rule triple_lift)
    fix w f
    assume "holding m ids j w" and "storage_failure (open_blob (rm_sha256 m) (rm_directory m) (rj_sinkId j)) = Inr f"
    then show "holding m ids j w \<and> sink_file m (rj_operationId j) = Inr f"
      using holding_ok [of m ids j w] by (simp add: sink_file_def journal_ok_def)
  qed (rule holding_inv)
qed (rule triple_fact, rule assms)

lemma safe_save_seq:
  assumes "\<And>w. P w \<Longrightarrow> rec_inv m ids w" and "rec.stable P"
    and "\<And>w now. P w \<Longrightarrow> journal_ok m ids w (next_journal j u now)"
    and "\<And>now. safe m ids (holding m ids (next_journal j u now)) (f (next_journal j u now)) Q"
  shows "safe m ids P (seq (saveJournal m j u) f) Q"
proof (rule triple_seq)
  show "safe m ids P (saveJournal m j u) (\<lambda>n w. holding m ids n w \<and> (\<exists>now. n = next_journal j u now))"
    by (rule safe_saveJournal) (use assms in auto)
  show "safe m ids (\<lambda>w. holding m ids n w \<and> (\<exists>now. n = next_journal j u now)) (f n) Q" for n
    by (rule triple_fact) (use assms(4) in blast)
qed

lemma safe_logged_seq:
  assumes "\<And>w. P w \<Longrightarrow> holding m ids j w \<and> event_ok m ids (rw_log w) e"
    and "\<And>i s u bs. e \<noteq> Ev_transferred i s u bs"
    and "safe m ids (\<lambda>w. holding m ids j w \<and> e \<in> set (rw_log w)) (f ()) Q"
  shows "safe m ids P (seq (logged e) f) Q"
  by (rule triple_seq [OF safe_logged [OF assms(1,2)]]) (use assms(3) in simp_all)

lemma safe_mutate_seq:
  assumes "unstaged j" and "sink_file m (rj_operationId j) = Inr f"
    and "safe m ids (holding m ids j) (g ()) Q"
  shows "safe m ids (holding m ids j) (seq (mutate_blob f request) g) Q"
  by (rule triple_seq [OF safe_invariant [OF holding_mutate [OF assms(1,2)]]]) (use assms(3) in simp)

text \<open>A quiet step; the assertion is one of the stable ones above.\<close>

lemma safe_step:
  assumes "rec.quiet prog" and "\<And>x. safe m ids (holding m ids j) (f x) Q"
  shows "safe m ids (holding m ids j) (seq prog f) Q"
  by (rule safe_seq_quiet [OF assms(1) stable_holding holding_inv assms(2)])

lemma safe_step_inv:
  assumes "rec.quiet prog" and "\<And>x. safe m ids (rec_inv m ids) (f x) Q"
  shows "safe m ids (rec_inv m ids) (seq prog f) Q"
  by (rule safe_seq_quiet [OF assms(1) stable_inv _ assms(2)])

lemma safe_end:
  "rec.quiet prog \<Longrightarrow> safe m ids (holding m ids j) prog (\<lambda>_. rec_inv m ids)"
  by (rule triple_post [OF safe_quiet [OF _ stable_holding holding_inv]]) (auto simp: holding_inv)

lemma safe_end_inv: "rec.quiet prog \<Longrightarrow> safe m ids (rec_inv m ids) prog (\<lambda>_. rec_inv m ids)"
  by (rule safe_quiet) simp_all

lemma safe_forget: "safe m ids (rec_inv m ids) prog Q \<Longrightarrow> safe m ids (holding m ids j) prog Q"
  by (erule triple_pre) (rule holding_inv)

lemma safe_verified:
  assumes body: "\<And>c. safe m ids P (body c) (\<lambda>_. rec_inv m ids)"
    and P: "rec.stable P" "\<And>w. P w \<Longrightarrow> rec_inv m ids w"
  shows "safe m ids P (withVerifiedConnection x p body) (\<lambda>_. rec_inv m ids)"
proof -
  have sect: "safe m ids P (verified_section x p d body) (\<lambda>_. rec_inv m ids)" for d
    unfolding verified_section_def
    by (intro safe_seq_quiet [OF _ P] quiet_prims quiet_guards rec.quiet_basic triple_if body)
      (auto intro!: triple_post [OF safe_quiet [OF _ P]] quiet_prims dest: P(2))
  let ?run = "\<lambda>d w. case verified_section x p d body w of
             (None, w1) \<Rightarrow> (None, w1)
           | (Some r, w1) \<Rightarrow>
               (case direct_outcome (rw_direct w1) False (map_sum id (\<lambda>_. V_unit) r) of
                  Inl e \<Rightarrow> (Some (Inl (SdkErr e)), w1)
                | Inr _ \<Rightarrow> (Some r, w1))"
  have run: "safe m ids P (?run d) (\<lambda>_. rec_inv m ids)" for d
  proof (rule tripleI)
    fix w r w'
    assume "P w" and run: "?run d w = (r, w')"
    obtain s w1 where s: "verified_section x p d body w = (s, w1)" by fastforce
    from tripleD [OF sect \<open>P w\<close> s] have "rec_inv m ids w1" by (auto split: option.splits sum.splits)
    moreover have "w' = w1" using run s by (auto split: option.splits sum.splits)
    ultimately show "case r of None \<Rightarrow> rec_inv m ids w' | Some (Inl e) \<Rightarrow> rec_inv m ids w'
        | Some (Inr x) \<Rightarrow> rec_inv m ids w'"
      by (simp split: option.split sum.split)
  qed
  have "rec_same w (w\<lparr>rw_direct := d\<rparr>)" for w d by (simp add: rec_same_def)
  then have reset: "rec.quiet (modify (\<lambda>w. w\<lparr>rw_direct := d\<rparr>))" for d by (rule rec.quiet_modify)
  have exclusive: "safe m ids P (runExclusive_prog p (verified_section x p d body)) (\<lambda>_. rec_inv m ids)" for d
    unfolding runExclusive_prog_def
  proof (rule safe_seq_quiet [OF quiet_observe P], assumption)
    fix a
    show "safe m ids P (case an_exclusive a of Some e \<Rightarrow> raise (SdkErr e)
        | None \<Rightarrow> seq (modify (\<lambda>w. w\<lparr>rw_direct := \<lparr>di_operation = p, di_aborted = False, di_terminalError = None,
                                           di_result = None\<rparr>\<rparr>)) (\<lambda>_. ?run d)) (\<lambda>_. rec_inv m ids)"
    proof (cases "an_exclusive a")
      case None
      then show ?thesis by (simp add: safe_seq_quiet [OF reset P run])
    next
      case (Some e)
      then show ?thesis by (simp add: triple_raise P(2))
    qed
  qed
  have handler: "safe m ids (rec_inv m ids)
      (let normalized = recordingError e p in
         seq (unless (err_code normalized \<noteq> Sdk_identity_mismatch) (seq (ignoring disconnect) (\<lambda>_. ret ()))) (\<lambda>_.
           raise (SdkErr normalized))) (\<lambda>_. rec_inv m ids)" for e :: js_error and q :: "'a itself"
    unfolding Let_def
    by (rule safe_end_inv) (intro rec.quiet_intros quiet_prims quiet_guards)
  show ?thesis
    unfolding withVerifiedConnection_def
    by (intro safe_seq_quiet [OF quiet_guards(7) P] triple_catching [OF exclusive handler]) assumption
qed

section \<open>Confirming and cleaning up\<close>

lemma safe_finishConfirmed: "safe m ids (holding m ids j) (finishConfirmedJournal m j) (\<lambda>_. rec_inv m ids)"
proof (cases "rj_phase j = Rp_confirmed \<and> rj_profile j = Profile_legacy")
  case True
  then have u: "unstaged j" by (simp add: unstaged_def)
  have rest: "safe m ids (rec_inv m ids) (seq (delete_journal_of m i) (\<lambda>_. resultFromJournal j)) (\<lambda>_. rec_inv m ids)" for i
    by (rule triple_seq [OF safe_delete_journal]) (rule safe_end_inv [OF quiet_resultFromJournal])
  have "safe m ids (holding m ids j)
      (seq (requireStorage m) (\<lambda>_. seq (open_sink m (rj_sinkId j)) (\<lambda>f. seq (delete_blob f) (\<lambda>_.
         seq (delete_checkpoint_of m (rj_operationId j)) (\<lambda>_.
           seq (delete_journal_of m (rj_operationId j)) (\<lambda>_. resultFromJournal j))))))
      (\<lambda>_. rec_inv m ids)"
    unfolding delete_blob_def
    by (intro safe_step [OF quiet_guards(2)] safe_open_seq safe_mutate_seq [OF u] safe_step [OF quiet_access(1)]
        safe_forget [OF rest])
  then show ?thesis
    using True by (auto simp: finishConfirmedJournal_def intro: safe_end quiet_prims)
next
  case False
  then consider "rj_phase j \<noteq> Rp_confirmed" | "rj_profile j \<noteq> Profile_legacy" by blast
  then show ?thesis
  proof cases
    case 1
    then show ?thesis by (simp add: finishConfirmedJournal_def safe_end quiet_prims)
  next
    case 2
    then have "\<not> holding m ids j w" for w using holding_ok [of m ids j w] by (auto simp: journal_ok_def)
    then show ?thesis by (simp add: triple_def)
  qed
qed

lemma next_identity [simp]:
  "rj_operationId (next_journal j u now) = rj_operationId j" "rj_serialNumber (next_journal j u now) = rj_serialNumber j"
  "rj_recordingUuid (next_journal j u now) = rj_recordingUuid j" "rj_profile (next_journal j u now) = rj_profile j"
  "rj_sinkId (next_journal j u now) = rj_sinkId j" "rj_phase (next_journal j u now) = ju_phase u"
  by (simp_all add: next_journal_def)

lemma to_phase_simps [simp]:
  "ju_phase (to_phase p) = p" "ju_uploadId (to_phase p) = None" "ju_cloudCompletionId (to_phase p) = None"
  by (simp_all add: to_phase_def)

lemma next_completion [simp]:
  "rj_cloudCompletionId (next_journal j u now) = updated (ju_cloudCompletionId u) (rj_cloudCompletionId j)"
  by (simp add: next_journal_def)

lemma updated_simps [simp]: "updated None x = x" "updated (Some y) x = y"
  by (simp_all add: updated_def)

lemma completed_identity:
  "completed_as log (next_journal j u now) c = completed_as log j c"
  by (simp add: completed_as_def)

lemma safe_confirm: "safe m ids (holding m ids j) (confirmJournal m j) (\<lambda>_. rec_inv m ids)"
proof (cases "rj_profile j \<noteq> Profile_legacy \<or> rj_phase j \<noteq> Rp_cloud_completed \<or> no_id (rj_cloudCompletionId j)")
  case True
  then show ?thesis by (simp add: confirmJournal_def safe_end quiet_prims)
next
  case False
  have written: "safe m ids (\<lambda>w. holding m ids j w \<and> e \<in> set (rw_log w))
      (seq tick (\<lambda>a. case an_io a of Some e \<Rightarrow> raise e
        | None \<Rightarrow> seq (saveJournal m j (to_phase Rp_confirmed)) (finishConfirmedJournal m)))
      (\<lambda>_. rec_inv m ids)" for e
  proof (rule triple_pre, rule safe_step [OF quiet_tick])
    fix a
    have save: "safe m ids (holding m ids j) (seq (saveJournal m j (to_phase Rp_confirmed)) (finishConfirmedJournal m))
        (\<lambda>_. rec_inv m ids)"
    proof (rule safe_save_seq [OF holding_inv stable_holding])
      fix w now
      assume "holding m ids j w"
      from holding_ok [OF this] False show "journal_ok m ids w (next_journal j (to_phase Rp_confirmed) now)"
        by (auto simp: journal_ok_def completed_identity)
    qed (assumption, rule safe_finishConfirmed)
    then show "safe m ids (holding m ids j) (case an_io a of Some e \<Rightarrow> raise e
        | None \<Rightarrow> seq (saveJournal m j (to_phase Rp_confirmed)) (finishConfirmedJournal m)) (\<lambda>_. rec_inv m ids)"
      by (cases "an_io a") (simp_all add: safe_end rec.quiet_basic)
  qed simp
  have event: "event_ok m ids (rw_log w) (Ev_confirm (rj_serialNumber j) (rj_recordingUuid j))" if "holding m ids j w" for w
    using holding_ok [OF that] False by (auto simp: journal_ok_def completed_as_def)
  have body: "safe m ids (holding m ids j)
      (case c of (device, serialNumber) \<Rightarrow>
            if serialNumber \<noteq> rj_serialNumber j then reject Sdk_identity_mismatch Op_upload
            else
              seq (throwIfAborted (combineSignals True) Op_upload) (\<lambda>_.
                seq (lift_sum (rm_confirmCommand m (rj_recordingUuid j))) (\<lambda>_.
                  seq (logged (Ev_confirm serialNumber (rj_recordingUuid j))) (\<lambda>_.
                    seq tick (\<lambda>a. case an_io a of
                      Some e \<Rightarrow> raise e
                    | None \<Rightarrow>
                        seq (saveJournal m j (to_phase Rp_confirmed)) (\<lambda>confirmed.
                          finishConfirmedJournal m confirmed)))))) (\<lambda>_. rec_inv m ids)" for c
  proof (cases c)
    case (Pair device serialNumber)
    show ?thesis
    proof (cases "serialNumber = rj_serialNumber j")
      case True
      then show ?thesis
        unfolding Pair
        by (simp, intro safe_step [OF quiet_throwIfAborted] safe_step [OF rec.quiet_basic(3)]
          safe_logged_seq [where j = j] conjI event written) auto
    qed (simp add: Pair safe_end quiet_prims)
  qed
  show ?thesis
    using False unfolding confirmJournal_def
    by (simp del: split_paired_All, intro safe_step [OF quiet_throwIfAborted] safe_verified body) (simp_all add: holding_inv)
qed

lemma safe_deleteUnverified: "safe m ids (holding m ids j) (deleteUnverifiedState m v2 j) (\<lambda>_. rec_inv m ids)"
proof (cases "(rj_phase j = Rp_prepared \<or> rj_phase j = Rp_transferring) \<and> rj_profile j = Profile_legacy")
  case True
  then have u: "unstaged j" by (auto simp: unstaged_def)
  have "safe m ids (holding m ids j)
      (seq (requireStorage m) (\<lambda>_. seq (open_sink m (rj_sinkId j)) (\<lambda>f. seq (delete_blob f) (\<lambda>_.
         seq (delete_checkpoint_of m (rj_operationId j)) (\<lambda>_. delete_journal_of m (rj_operationId j))))))
      (\<lambda>_. rec_inv m ids)"
    unfolding delete_blob_def
    by (intro safe_step [OF quiet_guards(2)] safe_open_seq safe_mutate_seq [OF u] safe_step [OF quiet_access(1)]
        safe_forget [OF safe_delete_journal])
  then show ?thesis using True by (auto simp: deleteUnverifiedState_def)
next
  case False
  then consider "rj_phase j \<noteq> Rp_prepared" "rj_phase j \<noteq> Rp_transferring" | "rj_profile j \<noteq> Profile_legacy" by blast
  then show ?thesis
  proof cases
    case 1
    then show ?thesis by (simp add: deleteUnverifiedState_def safe_end rec.quiet_basic)
  next
    case 2
    then have "\<not> holding m ids j w" for w using holding_ok [of m ids j w] by (auto simp: journal_ok_def)
    then show ?thesis by (simp add: triple_def)
  qed
qed

lemma safe_load_seq:
  assumes "safe m ids (rec_inv m ids) (f None) Q"
    and "\<And>j. rj_operationId j = i \<Longrightarrow> safe m ids (holding m ids j) (f (Some j)) Q"
  shows "safe m ids (rec_inv m ids) (seq (load_recording m i) f) Q"
proof (rule triple_seq [OF safe_load])
  fix x
  show "safe m ids (\<lambda>w. case x of None \<Rightarrow> rec_inv m ids w \<and> journal_of m w i = None
        | Some j \<Rightarrow> holding m ids j w \<and> rj_operationId j = i) (f x) Q"
  proof (cases x)
    case None
    then show ?thesis by (auto intro: triple_pre [OF assms(1)])
  next
    case (Some j)
    then show ?thesis using assms(2) [of j] by (auto simp: triple_def)
  qed
qed

lemma safe_drop_unverified: "safe m ids (rec_inv m ids) (drop_unverified m v2 i) (\<lambda>_. rec_inv m ids)"
proof -
  have ig: "safe m ids (rec_inv m ids) (ignoring (load_recording m i))
      (\<lambda>r w. case r of Some (Some j) \<Rightarrow> holding m ids j w | _ \<Rightarrow> rec_inv m ids w)"
    by (rule triple_ignoring, rule triple_weaken [OF safe_load]) (auto split: option.splits)
  have del: "safe m ids (holding m ids j) (seq (ignoring (deleteUnverifiedState m v2 j)) (\<lambda>_. ret ())) (\<lambda>_. rec_inv m ids)" for j
    by (rule triple_seq [OF triple_ignoring [OF safe_deleteUnverified]]) (rule triple_ret)
  show ?thesis
    unfolding drop_unverified_def
  proof (rule triple_seq [OF ig])
    fix x
    show "safe m ids (\<lambda>w. case x of Some (Some j) \<Rightarrow> holding m ids j w | _ \<Rightarrow> rec_inv m ids w)
        (case x of Some (Some current) \<Rightarrow> seq (ignoring (deleteUnverifiedState m v2 current)) (\<lambda>_. ret ()) | _ \<Rightarrow> ret ())
        (\<lambda>_. rec_inv m ids)"
      using del by (cases x; cases "the x") (auto intro: triple_ret)
  qed
qed

lemma safe_after_failure: "safe m ids (rec_inv m ids) (after_failure m v2 i codes e) Q"
  unfolding after_failure_def Let_def
  by (rule triple_seq [where R = "\<lambda>_. rec_inv m ids"], rule triple_unless [OF safe_drop_unverified])
    (auto intro: triple_raise)

end
