(* ===== verification/RecordingUpload.thy ===== *)
theory RecordingUpload
  imports RecordingInvariant
begin

text \<open>
  The routines that upload keep the invariant of \<open>RecordingInvariant\<close>: what they read from the blob,
  what they tell the provider about it, and what they send, are the bytes that were transferred.
\<close>

section \<open>Reading a blob\<close>

text \<open>What leaves the content of the blobs alone.\<close>

definition content_same :: "rec_world \<Rightarrow> rec_world \<Rightarrow> bool" where
  "content_same w w' \<longleftrightarrow> file_content (rw_files w') = file_content (rw_files w)"

interpretation blobs: world_frame content_same
  by unfold_locales (auto simp: content_same_def)

lemma content_quiet: "rec.quiet prog \<Longrightarrow> blobs.quiet prog"
  by (auto simp: rec.quiet_def blobs.quiet_def rec_same_def content_same_def)

lemma content_logged: "blobs.quiet (logged e)"
  unfolding logged_def by (rule blobs.quiet_modify) (simp add: content_same_def)

lemma content_save: "blobs.quiet (saveJournal m j u)"
proof -
  have "blobs.quiet (\<lambda>w. case q (an_idb a) (rw_db w) of (r, db) \<Rightarrow> (Some (storage_failure r), w\<lparr>rw_db := db\<rparr>))"
    for q and a :: answer
    by (rule blobs.quietI) (auto simp: content_same_def split: prod.split)
  then show ?thesis
    unfolding saveJournal_def store_journal_def db_write_def Let_def
    by (intro blobs.quiet_intros content_quiet [OF quiet_observe] content_quiet [OF quiet_tick]
        content_quiet [OF quiet_guards(2)])
qed

lemma triple_by_value: "(\<And>x. triple (\<lambda>w. P w \<and> g w = x) prog Q E C) \<Longrightarrow> triple P prog Q E C"
  by (auto simp: triple_def)

text \<open>The routine works on \<open>j\<close>, and its blob holds \<open>bs\<close>.\<close>

definition with_bytes :: "rec_manager \<Rightarrow> jsstring set \<Rightarrow> recording_journal \<Rightarrow> jsstring \<times> jsstring \<Rightarrow> bytes \<Rightarrow> rec_world \<Rightarrow> bool" where
  "with_bytes m ids j f bs w \<longleftrightarrow> holding m ids j w \<and> file_content (rw_files w) f = bs"

lemma stable_bytes [simp]: "rec.stable (with_bytes m ids j f bs)"
  using stable_holding [of m ids j] by (auto simp: rec.stable_def with_bytes_def rec_same_def)

lemma bytes_inv: "with_bytes m ids j f bs w \<Longrightarrow> rec_inv m ids w"
  by (auto simp: with_bytes_def intro: holding_inv)

lemma bytes_step:
  assumes "rec.quiet prog" and "\<And>x. safe m ids (with_bytes m ids j f bs) (g x) Q"
  shows "safe m ids (with_bytes m ids j f bs) (seq prog g) Q"
  by (rule safe_seq_quiet [OF assms(1) stable_bytes bytes_inv assms(2)])

lemma file_op_result:
  assumes "file_op q w = (Some (Inr x), w')"
  shows "\<exists>env fs fs'. q env fs = (Inr x, fs') \<and> file_content fs = file_content (rw_files w)"
  using assms
proof (cases rule: file_op_cases)
  case (ran a w1 y fs)
  then have "y = Inr x" by (cases y) auto
  with ran show ?thesis by (auto simp: rec_same_def)
qed simp

lemma safe_read:
  assumes "0 \<le> o'" and "1 \<le> n" and "o' + n \<le> int (length bs)"
  shows "safe m ids (with_bytes m ids j f bs) (file_op (\<lambda>env. blob_read env f (JInt o') (JInt n)))
     (\<lambda>chunk w. with_bytes m ids j f bs w \<and> chunk = slice bs (o', n))"
proof (rule tripleI)
  fix w r w'
  assume w: "with_bytes m ids j f bs w" and run: "file_op (\<lambda>env. blob_read env f (JInt o') (JInt n)) w = (r, w')"
  then have w': "with_bytes m ids j f bs w'" using rec_run [OF quiet_blob_read stable_bytes] by blast
  have "x = slice bs (o', n)" if "r = Some (Inr x)" for x
  proof -
    have "file_op (\<lambda>env. blob_read env f (JInt o') (JInt n)) w = (Some (Inr x), w')"
      using run that by simp
    from file_op_result [OF this] obtain env fs fs' where "blob_read env f (JInt o') (JInt n) fs = (Inr x, fs')"
      "file_content fs = file_content (rw_files w)" by blast
    with read_slice [OF this(1)] w assms show ?thesis by (simp add: with_bytes_def)
  qed
  with w' show "case r of None \<Rightarrow> rec_inv m ids w' | Some (Inl e) \<Rightarrow> rec_inv m ids w'
      | Some (Inr x) \<Rightarrow> with_bytes m ids j f bs w' \<and> x = slice bs (o', n)"
    by (auto simp: bytes_inv split: option.split sum.split)
qed

lemma safe_size:
  "safe m ids (with_bytes m ids j f bs) (blob_size_now f)
     (\<lambda>n w. with_bytes m ids j f bs w \<and> n = int (length bs))"
proof (rule tripleI)
  fix w r w'
  assume w: "with_bytes m ids j f bs w" and run: "blob_size_now f w = (r, w')"
  then have w': "with_bytes m ids j f bs w'" using rec_run [OF quiet_blob_size stable_bytes] by blast
  have "n = int (length bs)" if "r = Some (Inr n)" for n
  proof -
    have "file_op (\<lambda>env. blob_size env f) w = (Some (Inr n), w')"
      using run that by (simp add: blob_size_now_def)
    from file_op_result [OF this] obtain env fs fs' where "blob_size env f fs = (Inr n, fs')"
      "file_content fs = file_content (rw_files w)" by blast
    with blob_size_content(2) [OF this(1)] w show ?thesis by (simp add: with_bytes_def)
  qed
  with w' show "case r of None \<Rightarrow> rec_inv m ids w' | Some (Inl e) \<Rightarrow> rec_inv m ids w'
      | Some (Inr n) \<Rightarrow> with_bytes m ids j f bs w' \<and> n = int (length bs)"
    by (auto simp: bytes_inv split: option.split sum.split)
qed

lemma reads_within:
  "list_all (\<lambda>(o', n). 0 \<le> o' \<and> 1 \<le> n \<and> o' + n \<le> int (length bs))
     (stream_reads OPFS_STREAM_CHUNK_SIZE (int (length bs)) 0)"
  using stream_reads_shape [of OPFS_STREAM_CHUNK_SIZE 0 "int (length bs)"]
  by (auto simp: list_all_iff OPFS_STREAM_CHUNK_SIZE_def)

lemma reads_all: "concat (map (slice bs) (stream_reads OPFS_STREAM_CHUNK_SIZE (int (length bs)) 0)) = bs"
  using stream_reads_slices [of OPFS_STREAM_CHUNK_SIZE 0 bs] by (simp add: OPFS_STREAM_CHUNK_SIZE_def)

lemma safe_note:
  "safe m ids (with_bytes m ids j f bs) (note_chunk chunk (s, c))
     (\<lambda>r w. with_bytes m ids j f bs w \<and> r = (s + int (length chunk), c @ chunk))"
  unfolding note_chunk_def prod.case
proof (rule bytes_step [OF quiet_throwIfAborted])
  show "safe m ids (with_bytes m ids j f bs)
      (seq (lift_sum (safeBrowserRange s (int (length chunk)) Op_upload)) (\<lambda>streamed1. ret (streamed1, c @ chunk)))
      (\<lambda>r w. with_bytes m ids j f bs w \<and> r = (s + int (length chunk), c @ chunk))"
  proof (rule triple_seq)
    show "safe m ids (with_bytes m ids j f bs) (lift_sum (safeBrowserRange s (int (length chunk)) Op_upload))
        (\<lambda>r w. with_bytes m ids j f bs w \<and> r = s + int (length chunk))"
      by (rule triple_lift) (auto simp: safeBrowserRange_def rbind_eq_Inr bytes_inv split: if_splits)
  qed (rule triple_ret, simp)
qed

lemma safe_collect:
  assumes "list_all (\<lambda>(o', n). 0 \<le> o' \<and> 1 \<le> n \<and> o' + n \<le> int (length bs)) rs"
  shows "safe m ids (with_bytes m ids j f bs) (stream_loop f note_chunk rs (s, c))
     (\<lambda>r w. with_bytes m ids j f bs w
        \<and> r = (s + int (length (concat (map (slice bs) rs))), c @ concat (map (slice bs) rs)))"
  using assms
proof (induction rs arbitrary: s c)
  case Nil
  then show ?case by (simp add: triple_ret)
next
  case (Cons x rs)
  obtain o' n where x: "x = (o', n)" by fastforce
  let ?Q = "\<lambda>r w. with_bytes m ids j f bs w
      \<and> r = (s + int (length (concat (map (slice bs) (x # rs)))), c @ concat (map (slice bs) (x # rs)))"
  have later: "safe m ids (with_bytes m ids j f bs)
      (stream_loop f note_chunk rs (s + int (length (slice bs x)), c @ slice bs x)) ?Q"
    by (rule triple_post [OF Cons.IH]) (use Cons.prems in \<open>auto simp: algebra_simps\<close>)
  have note_: "safe m ids (with_bytes m ids j f bs)
      (seq (note_chunk (slice bs x) (s, c)) (stream_loop f note_chunk rs)) ?Q"
    by (rule triple_seq [OF safe_note], rule triple_fact) (use later in simp)
  show ?case
    unfolding x stream_loop.simps
  proof (rule triple_seq [OF safe_read], goal_cases)
    case (4 chunk)
    show ?case by (rule triple_fact) (use note_ in \<open>simp add: x\<close>)
  qed (use Cons.prems x in auto)
qed

section \<open>Uploading\<close>

text \<open>The context is the one of the operation, and describes the bytes \<open>bs\<close>.\<close>

definition context_of :: "rec_manager \<Rightarrow> recording_journal \<Rightarrow> bytes \<Rightarrow> legacy_context \<Rightarrow> bool" where
  "context_of m j bs context \<longleftrightarrow>
     lc_operationId context = rj_operationId j \<and> lc_serialNumber context = rj_serialNumber j
     \<and> dr_uuid (lc_recording context) = rj_recordingUuid j
     \<and> lc_sizeBytes context = int (length bs)
     \<and> (\<exists>digest. rm_sha256 m (map unat bs) = Inr digest \<and> lc_stagedBodySha256Hex context = hex digest)"

lemma safe_context:
  assumes uuid: "dr_uuid recording = rj_recordingUuid j"
  shows "safe m ids (with_bytes m ids j f bs) (legacyContext m j recording f)
     (\<lambda>context w. with_bytes m ids j f bs w \<and> context_of m j bs context)"
proof -
  let ?Q = "\<lambda>context w. with_bytes m ids j f bs w \<and> context_of m j bs context"
  let ?after = "\<lambda>(streamedSize, digested). seq (blob_size_now f) (\<lambda>n.
           seq (lift_sum (safeBrowserNumber n Op_upload)) (\<lambda>reportedSize.
             if reportedSize \<noteq> streamedSize then reject Sdk_integrity_failed Op_upload
             else
               seq (lift_sum (rm_sha256 m (map unat digested))) (\<lambda>digest.
                 ret \<lparr>lc_operationId = rj_operationId j, lc_serialNumber = rj_serialNumber j,
                   lc_recording = recording, lc_sizeBytes = reportedSize,
                   lc_plaintextSha256Hex = rj_devicePlaintextSha256Hex j,
                   lc_stagedBodySha256Hex = hex digest, lc_encrypted = dr_encrypted recording\<rparr>)))"
  have last: "safe m ids (with_bytes m ids j f bs)
      (if n \<noteq> int (length bs) then reject Sdk_integrity_failed Op_upload
       else seq (lift_sum (rm_sha256 m (map unat bs))) (\<lambda>digest.
                 ret \<lparr>lc_operationId = rj_operationId j, lc_serialNumber = rj_serialNumber j,
                   lc_recording = recording, lc_sizeBytes = n,
                   lc_plaintextSha256Hex = rj_devicePlaintextSha256Hex j,
                   lc_stagedBodySha256Hex = hex digest, lc_encrypted = dr_encrypted recording\<rparr>)) ?Q" for n
  proof (rule triple_if)
    show "safe m ids (with_bytes m ids j f bs) (reject Sdk_integrity_failed Op_upload) ?Q"
      unfolding reject_def by (rule triple_raise) (rule bytes_inv)
    assume "\<not> n \<noteq> int (length bs)"
    then show "safe m ids (with_bytes m ids j f bs) (seq (lift_sum (rm_sha256 m (map unat bs))) (\<lambda>digest.
                 ret \<lparr>lc_operationId = rj_operationId j, lc_serialNumber = rj_serialNumber j,
                   lc_recording = recording, lc_sizeBytes = n,
                   lc_plaintextSha256Hex = rj_devicePlaintextSha256Hex j,
                   lc_stagedBodySha256Hex = hex digest, lc_encrypted = dr_encrypted recording\<rparr>)) ?Q"
      by (intro triple_seq [where R = "\<lambda>d w. with_bytes m ids j f bs w \<and> rm_sha256 m (map unat bs) = Inr d"]
          triple_lift triple_fact triple_ret)
        (auto simp: context_of_def uuid bytes_inv)
  qed
  have "safe m ids (with_bytes m ids j f bs) (?after (int (length bs), bs)) ?Q"
    unfolding prod.case
    by (rule triple_seq [OF safe_size], rule triple_fact,
        rule bytes_step [OF rec.quiet_basic(3)], rule last)
  then have "safe m ids (with_bytes m ids j f bs)
      (seq (stream_loop f note_chunk (stream_reads OPFS_STREAM_CHUNK_SIZE (int (length bs)) 0) (0, [])) ?after) ?Q"
    by (intro triple_seq [OF safe_collect [OF reads_within]] triple_fact) (simp add: reads_all)
  then have "safe m ids (with_bytes m ids j f bs) (seq (stream_blob f note_chunk (0, [])) ?after) ?Q"
    unfolding stream_blob_def seq_assoc
    by (intro triple_seq [OF safe_size] triple_fact) simp
  then show ?thesis
    unfolding legacyContext_def by (rule bytes_step [OF quiet_createHasher])
qed

text \<open>What the request has read is a prefix of the content, all of it if it read to the end.\<close>

lemma safe_pull_chunks:
  assumes "list_all (\<lambda>(o', n). 0 \<le> o' \<and> 1 \<le> n \<and> o' + n \<le> int (length bs)) rs"
  shows "safe m ids (with_bytes m ids j f bs) (pull_chunks f rs sent)
     (\<lambda>r w. with_bytes m ids j f bs w \<and> (\<exists>k \<le> length rs.
        fst r = sent @ concat (map (slice bs) (take k rs)) \<and> (snd r \<longrightarrow> k = length rs)))"
  using assms
proof (induction rs arbitrary: sent)
  case Nil
  then show ?case by (auto intro: triple_ret)
next
  case (Cons x rs)
  obtain o' n where x: "x = (o', n)" by fastforce
  let ?Q = "\<lambda>r w. with_bytes m ids j f bs w \<and> (\<exists>k \<le> length (x # rs).
      fst r = sent @ concat (map (slice bs) (take k (x # rs))) \<and> (snd r \<longrightarrow> k = length (x # rs)))"
  have more: "safe m ids (with_bytes m ids j f bs) (pull_chunks f rs (sent @ slice bs x)) ?Q"
  proof (rule triple_post [OF Cons.IH])
    show "list_all (\<lambda>(o', n). 0 \<le> o' \<and> 1 \<le> n \<and> o' + n \<le> int (length bs)) rs" using Cons.prems by simp
    fix r w
    assume r: "with_bytes m ids j f bs w \<and> (\<exists>k \<le> length rs.
        fst r = (sent @ slice bs x) @ concat (map (slice bs) (take k rs)) \<and> (snd r \<longrightarrow> k = length rs))"
    then obtain k where "k \<le> length rs" "fst r = (sent @ slice bs x) @ concat (map (slice bs) (take k rs))"
      "snd r \<longrightarrow> k = length rs" by blast
    then show "?Q r w" using r by (intro conjI exI [of _ "Suc k"]) auto
  qed
  have read1: "safe m ids (with_bytes m ids j f bs)
      (seq (throwIfAborted operation_signal Op_upload) (\<lambda>_. file_op (\<lambda>env. blob_read env f (JInt o') (JInt n))))
      (\<lambda>chunk w. with_bytes m ids j f bs w \<and> chunk = slice bs x)"
    unfolding x using Cons.prems by (intro bytes_step [OF quiet_throwIfAborted] safe_read) (auto simp: x)
  have keep: "rec.quiet (seq (throwIfAborted operation_signal Op_upload) (\<lambda>_. file_op (\<lambda>env. blob_read env f (JInt o') (JInt n))))"
    by (intro rec.quiet_intros quiet_throwIfAborted quiet_blob_read)
  have read_: "safe m ids (with_bytes m ids j f bs)
      (ignoring (seq (throwIfAborted operation_signal Op_upload) (\<lambda>_. file_op (\<lambda>env. blob_read env f (JInt o') (JInt n)))))
      (\<lambda>r w. with_bytes m ids j f bs w \<and> (r = None \<or> r = Some (slice bs x)))"
  proof (rule triple_ignoring, rule tripleI)
    fix w r w'
    assume w: "with_bytes m ids j f bs w"
      and run: "seq (throwIfAborted operation_signal Op_upload)
        (\<lambda>_. file_op (\<lambda>env. blob_read env f (JInt o') (JInt n))) w = (r, w')"
    from tripleD [OF read1 w run] rec_run [OF keep stable_bytes w run]
    show "case r of None \<Rightarrow> rec_inv m ids w'
        | Some (Inl e) \<Rightarrow> with_bytes m ids j f bs w' \<and> (None = None \<or> None = Some (slice bs x))
        | Some (Inr y) \<Rightarrow> with_bytes m ids j f bs w' \<and> (Some y = None \<or> Some y = Some (slice bs x))"
      by (auto simp: bytes_inv split: option.splits sum.splits)
  qed
  show ?case
    unfolding x pull_chunks.simps
  proof (rule triple_seq [OF read_], rule triple_fact)
    fix r
    assume "r = None \<or> r = Some (slice bs x)"
    then show "safe m ids (with_bytes m ids j f bs)
        (case r of None \<Rightarrow> ret (sent, False) | Some chunk \<Rightarrow> pull_chunks f rs (sent @ chunk))
        (\<lambda>r w. with_bytes m ids j f bs w \<and> (\<exists>k \<le> length ((o', n) # rs).
          fst r = sent @ concat (map (slice bs) (take k ((o', n) # rs))) \<and> (snd r \<longrightarrow> k = length ((o', n) # rs))))"
      using more by (auto simp: x intro!: triple_ret exI [of _ "0 :: nat"])
  qed
qed

definition sent_part :: "bytes \<Rightarrow> bytes \<times> bool \<Rightarrow> bool" where
  "sent_part bs r \<longleftrightarrow> (\<exists>rest. bs = fst r @ rest \<and> (snd r \<longrightarrow> rest = []))"

lemma concat_take: "\<exists>rest. concat xs = concat (take k xs) @ rest"
  by (metis append_take_drop_id concat_append)

lemma safe_pull_body:
  "safe m ids (with_bytes m ids j f bs) (pull_body f n)
     (\<lambda>r w. with_bytes m ids j f bs w \<and> sent_part bs r)"
proof -
  let ?rs = "stream_reads OPFS_STREAM_CHUNK_SIZE (int (length bs)) 0"
  have "list_all (\<lambda>(o', n). 0 \<le> o' \<and> 1 \<le> n \<and> o' + n \<le> int (length bs)) (take n ?rs)"
    using reads_within [of bs] by (auto simp: list_all_iff dest: in_set_takeD)
  note pull = safe_pull_chunks [OF this, where sent = "[]"]
  have part: "sent_part bs (sent, complete \<and> length ?rs \<le> n)"
    if "\<exists>k \<le> length (take n ?rs). fst (sent, complete) = [] @ concat (map (slice bs) (take k (take n ?rs)))
          \<and> (snd (sent, complete) \<longrightarrow> k = length (take n ?rs))" for sent complete
  proof -
    from that obtain k where k: "sent = concat (take (min k n) (map (slice bs) ?rs))"
      "complete \<longrightarrow> k = min (length ?rs) n" by (auto simp: take_map)
    have "\<exists>rest. bs = sent @ rest" using concat_take [of "map (slice bs) ?rs"] k(1) reads_all [of bs] by metis
    moreover have "sent = bs" if "complete \<and> length ?rs \<le> n" using that k reads_all [of bs] by simp
    ultimately show ?thesis by (auto simp: sent_part_def)
  qed
  have reads: "safe m ids (with_bytes m ids j f bs)
      (seq (pull_chunks f (take n ?rs) []) (\<lambda>(sent, complete). ret (sent, complete \<and> length ?rs \<le> n)))
      (\<lambda>r w. with_bytes m ids j f bs w \<and> sent_part bs r)"
    by (rule triple_seq [OF pull], rule triple_fact) (auto intro!: triple_ret part)
  have size_: "safe m ids (with_bytes m ids j f bs) (ignoring (blob_size_now f))
      (\<lambda>r w. with_bytes m ids j f bs w \<and> (r = None \<or> r = Some (int (length bs))))"
  proof (rule triple_ignoring, rule tripleI)
    fix w r w'
    assume w: "with_bytes m ids j f bs w" and run: "blob_size_now f w = (r, w')"
    from tripleD [OF safe_size w run] rec_run [OF quiet_blob_size stable_bytes w run]
    show "case r of None \<Rightarrow> rec_inv m ids w'
        | Some (Inl e) \<Rightarrow> with_bytes m ids j f bs w' \<and> (None = None \<or> None = Some (int (length bs)))
        | Some (Inr y) \<Rightarrow> with_bytes m ids j f bs w' \<and> (Some y = None \<or> Some y = Some (int (length bs)))"
      by (auto simp: bytes_inv split: option.splits sum.splits)
  qed
  show ?thesis
    unfolding pull_body_def
  proof (rule triple_seq [OF size_], rule triple_fact)
    fix r
    assume "r = None \<or> r = Some (int (length bs))"
    then show "safe m ids (with_bytes m ids j f bs)
        (case r of None \<Rightarrow> ret ([], False)
         | Some x \<Rightarrow> seq (pull_chunks f (take n (stream_reads OPFS_STREAM_CHUNK_SIZE x 0)) [])
             (\<lambda>(sent, complete). ret (sent, complete \<and> length (stream_reads OPFS_STREAM_CHUNK_SIZE x 0) \<le> n)))
        (\<lambda>r w. with_bytes m ids j f bs w \<and> sent_part bs r)"
      using reads by (auto intro!: triple_ret simp: sent_part_def)
  qed
qed

lemma bytes_staged:
  assumes "with_bytes m ids j f bs w" and "sink_file m (rj_operationId j) = Inr f" and "\<not> unstaged j"
    and "distinct_files m ids"
  shows "staged_bytes (rw_log w) (rj_operationId j) = Some bs"
  using assms holding_ok [of m ids j w]
  by (auto simp: with_bytes_def journal_ok_def unstaged_def staged_here_def)

lemma bytes_describes:
  assumes "with_bytes m ids j f bs w" and "sink_file m (rj_operationId j) = Inr f" and "\<not> unstaged j"
    and "distinct_files m ids" and "context_of m j bs cx"
  shows "describes m (rw_log w) cx"
  using bytes_staged [OF assms(1-4)] assms(5) by (auto simp: describes_def context_of_def)

lemma content_stable: "blobs.stable (\<lambda>w. file_content (rw_files w) f = bs)"
  by (simp add: blobs.stable_def content_same_def)

lemma stable_event [simp]: "rec.stable (\<lambda>w. with_bytes m ids j f bs w \<and> e \<in> set (rw_log w))"
  by (rule stable_conj [OF stable_bytes stable_log])

lemma bytes_logged:
  assumes "\<And>w. with_bytes m ids j f bs w \<Longrightarrow> R (rw_log w) \<Longrightarrow> event_ok m ids (rw_log w) e"
    and "\<And>i s u bs. e \<noteq> Ev_transferred i s u bs"
  shows "safe m ids (\<lambda>w. with_bytes m ids j f bs w \<and> R (rw_log w)) (logged e)
      (\<lambda>_ w. with_bytes m ids j f bs w \<and> e \<in> set (rw_log w))"
proof -
  have "safe m ids (\<lambda>w. (holding m ids j w \<and> event_ok m ids (rw_log w) e) \<and> file_content (rw_files w) f = bs)
      (logged e) (\<lambda>_ w. (holding m ids j w \<and> e \<in> set (rw_log w)) \<and> file_content (rw_files w) f = bs)"
    by (rule blobs.triple_along [OF safe_logged content_logged content_stable]) (use assms(2) in auto)
  then show ?thesis by (rule triple_weaken) (use assms(1) in \<open>auto simp: with_bytes_def\<close>)
qed

lemma bytes_logged_seq:
  assumes "\<And>w. with_bytes m ids j f bs w \<Longrightarrow> R (rw_log w) \<Longrightarrow> event_ok m ids (rw_log w) e"
    and "\<And>i s u bs. e \<noteq> Ev_transferred i s u bs"
    and "safe m ids (\<lambda>w. with_bytes m ids j f bs w \<and> e \<in> set (rw_log w)) (g ()) Q"
  shows "safe m ids (\<lambda>w. with_bytes m ids j f bs w \<and> R (rw_log w)) (seq (logged e) g) Q"
  by (rule triple_seq [OF bytes_logged [where R = R]]) (use assms in auto)

lemma bytes_save_seq:
  assumes "\<And>w now. with_bytes m ids j f bs w \<Longrightarrow> journal_ok m ids w (next_journal j u now)"
    and "\<And>now. safe m ids (with_bytes m ids (next_journal j u now) f bs) (g (next_journal j u now)) Q"
  shows "safe m ids (with_bytes m ids j f bs) (seq (saveJournal m j u) g) Q"
proof (rule triple_seq)
  have "safe m ids (with_bytes m ids j f bs) (saveJournal m j u)
      (\<lambda>n w. holding m ids n w \<and> (\<exists>now. n = next_journal j u now))"
    by (rule safe_saveJournal [OF bytes_inv stable_bytes assms(1)])
  then have "safe m ids (\<lambda>w. with_bytes m ids j f bs w \<and> file_content (rw_files w) f = bs) (saveJournal m j u)
      (\<lambda>n w. (holding m ids n w \<and> (\<exists>now. n = next_journal j u now)) \<and> file_content (rw_files w) f = bs)"
    by (rule blobs.triple_along [OF _ content_save content_stable])
  then show "safe m ids (with_bytes m ids j f bs) (saveJournal m j u)
      (\<lambda>n w. with_bytes m ids n f bs w \<and> (\<exists>now. n = next_journal j u now))"
    by (rule triple_weaken) (auto simp: with_bytes_def)
  show "safe m ids (\<lambda>w. with_bytes m ids n f bs w \<and> (\<exists>now. n = next_journal j u now)) (g n) Q" for n
    by (rule triple_fact) (use assms(2) in blast)
qed

lemma bytes_end: "rec.quiet prog \<Longrightarrow> safe m ids (with_bytes m ids j f bs) prog (\<lambda>_. rec_inv m ids)"
  by (rule triple_post [OF safe_quiet [OF _ stable_bytes bytes_inv]]) (auto simp: bytes_inv)

lemma safe_uploadBlob:
  assumes "sink_file m (rj_operationId j) = Inr f" and "\<not> unstaged j"
  shows "safe m ids (with_bytes m ids j f bs) (uploadBlob (rj_operationId j) uploadId f)
     (\<lambda>_ w. with_bytes m ids j f bs w \<and> Ev_accepted (rj_operationId j) uploadId \<in> set (rw_log w))"
proof -
  let ?Q = "\<lambda>_ w. with_bytes m ids j f bs w \<and> Ev_accepted (rj_operationId j) uploadId \<in> set (rw_log w)"
  have accept: "safe m ids (with_bytes m ids j f bs) (logged (Ev_accepted (rj_operationId j) uploadId)) ?Q"
    by (rule triple_pre [OF bytes_logged [where R = "\<lambda>_. True"]]) auto
  have answer: "safe m ids (with_bytes m ids j f bs)
      (seq (awaitWithSignal operation_signal Op_upload an_fetch) (\<lambda>accepted.
               if \<not> accepted then raise (SdkErr retryable_upload_failure)
               else logged (Ev_accepted (rj_operationId j) uploadId))) ?Q"
    by (rule bytes_step [OF quiet_await(1)], rule triple_if) (auto intro: triple_raise bytes_inv accept)
  have sent: "safe m ids (with_bytes m ids j f bs)
      (seq (logged (Ev_put (rj_operationId j) uploadId sent complete)) (\<lambda>_.
             seq (awaitWithSignal operation_signal Op_upload an_fetch) (\<lambda>accepted.
               if \<not> accepted then raise (SdkErr retryable_upload_failure)
               else logged (Ev_accepted (rj_operationId j) uploadId)))) ?Q" if "sent_part bs (sent, complete)" for sent complete
  proof (rule triple_pre [OF bytes_logged_seq [where R = "\<lambda>_. True"]])
    fix w
    assume "with_bytes m ids j f bs w"
    then show "event_ok m ids (rw_log w) (Ev_put (rj_operationId j) uploadId sent complete)"
      using bytes_staged [OF _ assms] that by (auto simp: sent_part_def)
  qed (auto intro: triple_pre [OF answer])
  show ?thesis
    unfolding uploadBlob_def
    by (intro bytes_step [OF quiet_throwIfAborted] bytes_step [OF quiet_observe] triple_seq [OF safe_pull_body] triple_fact)
      (auto intro: sent)
qed

lemma safe_failed_upload: "safe m ids (rec_inv m ids) (failed_upload e) (\<lambda>_. rec_inv m ids)"
  by (rule safe_end_inv [OF quiet_failed_upload])

lemma safe_complete_upload:
  assumes f: "sink_file m (rj_operationId j) = Inr f" and phase: "rj_phase j = Rp_uploading"
    and ctx: "context_of m j bs cx"
  shows "safe m ids (with_bytes m ids j f bs) (complete_upload m cx uploadId f j) (\<lambda>_. rec_inv m ids)"
proof -
  have u: "\<not> unstaged j" using phase by (simp add: unstaged_def)
  let ?acc = "Ev_accepted (rj_operationId j) uploadId"
  let ?P = "\<lambda>w. with_bytes m ids j f bs w \<and> ?acc \<in> set (rw_log w)"
  have P: "rec.stable ?P" "?P w \<Longrightarrow> rec_inv m ids w" for w by (simp, auto simp: bytes_inv)
  have confirm: "safe m ids (\<lambda>w. with_bytes m ids j f bs w \<and> Ev_completed cx uploadId c \<in> set (rw_log w))
      (seq (saveJournal m j ((to_phase Rp_cloud_completed)\<lparr>ju_cloudCompletionId := Some (Some c)\<rparr>)) (confirmJournal m))
      (\<lambda>_. rec_inv m ids)" for c
  proof (rule safe_save_seq)
    fix w now
    assume w: "with_bytes m ids j f bs w \<and> Ev_completed cx uploadId c \<in> set (rw_log w)"
    then have "completed_as (rw_log w) j c" using ctx by (auto simp: completed_as_def told_def context_of_def)
    then show "journal_ok m ids w (next_journal j ((to_phase Rp_cloud_completed)\<lparr>ju_cloudCompletionId := Some (Some c)\<rparr>) now)"
      using w holding_ok [of m ids j w] phase by (auto simp: with_bytes_def journal_ok_def completed_identity)
  qed (auto simp: bytes_inv intro: safe_confirm)
  have told_: "safe m ids ?P (seq (logged (Ev_completed cx uploadId c)) (\<lambda>_.
      seq (saveJournal m j ((to_phase Rp_cloud_completed)\<lparr>ju_cloudCompletionId := Some (Some c)\<rparr>)) (confirmJournal m)))
      (\<lambda>_. rec_inv m ids)" for c
  proof (rule bytes_logged_seq [where R = "\<lambda>l. ?acc \<in> set l"])
    fix w
    assume "with_bytes m ids j f bs w" "?acc \<in> set (rw_log w)"
    then show "event_ok m ids (rw_log w) (Ev_completed cx uploadId c)"
      using ctx bytes_describes [OF _ f u _ ctx] by (auto simp: context_of_def)
  qed (use confirm in auto)
  show ?thesis
    unfolding complete_upload_def
    by (rule triple_catching [OF _ safe_failed_upload], rule triple_seq [OF safe_uploadBlob [OF f u]],
        intro safe_seq_quiet [OF quiet_await(2) P] safe_seq_quiet [OF rec.quiet_basic(3) P]
          safe_seq_quiet [OF quiet_guards(10) P] told_)
qed

lemma safe_uploadStaged:
  assumes phase: "rj_phase j = Rp_staged" and uuid: "dr_uuid recording = rj_recordingUuid j"
  shows "safe m ids (holding m ids j) (uploadStaged m j recording) (\<lambda>_. rec_inv m ids)"
proof -
  have rest: "safe m ids (with_bytes m ids j f bs)
      (seq (saveJournal m j ((to_phase Rp_uploading)\<lparr>ju_uploadId := Some (Some uploadId)\<rparr>)) (\<lambda>uploading.
         complete_upload m cx uploadId f uploading)) (\<lambda>_. rec_inv m ids)"
    if "sink_file m (rj_operationId j) = Inr f" and "context_of m j bs cx" for f bs cx uploadId
  proof (rule bytes_save_seq)
    fix w now
    assume "with_bytes m ids j f bs w"
    then show "journal_ok m ids w (next_journal j ((to_phase Rp_uploading)\<lparr>ju_uploadId := Some (Some uploadId)\<rparr>) now)"
      using holding_ok [of m ids j w] phase by (auto simp: with_bytes_def journal_ok_def)
  qed (rule safe_complete_upload, use that in \<open>auto simp: context_of_def\<close>)
  have upload: "safe m ids (holding m ids j) (seq (legacyContext m j recording f) (\<lambda>cx.
            seq (catching (awaitProviderCall operation_signal Op_upload an_provider) failed_upload) (\<lambda>prepared.
               seq (lift_sum (js_property prepared ''uploadId'')) (\<lambda>value.
                 seq (validateProviderIdentifier value) (\<lambda>uploadId.
                   seq (validateUploadRequest m (js_get prepared ''request'')) (\<lambda>_.
                     seq (saveJournal m j ((to_phase Rp_uploading)\<lparr>ju_uploadId := Some (Some uploadId)\<rparr>)) (\<lambda>uploading.
                       complete_upload m cx uploadId f uploading))))))) (\<lambda>_. rec_inv m ids)"
    if f: "sink_file m (rj_operationId j) = Inr f" for f
    by (rule triple_by_value [where g = "\<lambda>w. file_content (rw_files w) f"], fold with_bytes_def,
        rule triple_seq [OF safe_context [OF uuid]], rule triple_fact,
        intro bytes_step [OF rec.quiet_catching [OF quiet_await(2) quiet_failed_upload]] bytes_step [OF rec.quiet_basic(3)]
          bytes_step [OF quiet_guards(10)] bytes_step [OF quiet_guards(6)] rest [OF f])
  show ?thesis
    unfolding uploadStaged_def
    by (intro safe_step [OF quiet_guards(2)] safe_step [OF quiet_guards(3)] safe_open_seq upload)
qed

lemma safe_reconcile:
  assumes phase: "rj_phase j = Rp_uploading" and uuid: "dr_uuid recording = rj_recordingUuid j"
  shows "safe m ids (holding m ids j) (reconcileUpload m j recording) (\<lambda>_. rec_inv m ids)"
proof -
  have u: "\<not> unstaged j" using phase by (simp add: unstaged_def)
  have confirm: "safe m ids (\<lambda>w. with_bytes m ids j f bs w \<and> Ev_reconciled cx uploadId c \<in> set (rw_log w))
      (seq (saveJournal m j ((to_phase Rp_cloud_completed)\<lparr>ju_cloudCompletionId := Some (Some c)\<rparr>)) (confirmJournal m))
      (\<lambda>_. rec_inv m ids)" if ctx: "context_of m j bs cx" for f bs cx uploadId c
  proof (rule safe_save_seq)
    fix w now
    assume w: "with_bytes m ids j f bs w \<and> Ev_reconciled cx uploadId c \<in> set (rw_log w)"
    then have "completed_as (rw_log w) j c" using ctx by (auto simp: completed_as_def told_def context_of_def)
    then show "journal_ok m ids w (next_journal j ((to_phase Rp_cloud_completed)\<lparr>ju_cloudCompletionId := Some (Some c)\<rparr>) now)"
      using w holding_ok [of m ids j w] phase by (auto simp: with_bytes_def journal_ok_def completed_identity)
  qed (auto simp: bytes_inv intro: safe_confirm)
  have told_: "safe m ids (with_bytes m ids j f bs) (seq (logged (Ev_reconciled cx uploadId c)) (\<lambda>_.
      seq (saveJournal m j ((to_phase Rp_cloud_completed)\<lparr>ju_cloudCompletionId := Some (Some c)\<rparr>)) (confirmJournal m)))
      (\<lambda>_. rec_inv m ids)"
    if f: "sink_file m (rj_operationId j) = Inr f" and ctx: "context_of m j bs cx" for f bs cx uploadId c
  proof (rule triple_pre [OF bytes_logged_seq [where R = "\<lambda>_. True"]])
    fix w
    assume "with_bytes m ids j f bs w"
    then show "event_ok m ids (rw_log w) (Ev_reconciled cx uploadId c)"
      using bytes_describes [OF _ f u _ ctx] by auto
  qed (use confirm [OF ctx] in auto)
  have again: "safe m ids (with_bytes m ids j f bs)
      (seq (saveJournal m j ((to_phase Rp_staged)\<lparr>ju_uploadId := Some None\<rparr>)) (\<lambda>staged. uploadStaged m staged recording))
      (\<lambda>_. rec_inv m ids)" for f bs
  proof (rule bytes_save_seq)
    fix w now
    assume "with_bytes m ids j f bs w"
    then show "journal_ok m ids w (next_journal j ((to_phase Rp_staged)\<lparr>ju_uploadId := Some None\<rparr>) now)"
      using holding_ok [of m ids j w] phase by (auto simp: with_bytes_def journal_ok_def)
  next
    fix now
    show "safe m ids (with_bytes m ids (next_journal j ((to_phase Rp_staged)\<lparr>ju_uploadId := Some None\<rparr>) now) f bs)
        (uploadStaged m (next_journal j ((to_phase Rp_staged)\<lparr>ju_uploadId := Some None\<rparr>) now) recording) (\<lambda>_. rec_inv m ids)"
      by (rule triple_pre [OF safe_uploadStaged]) (auto simp: with_bytes_def uuid)
  qed
  have decide: "safe m ids (with_bytes m ids j f bs)
      (if state = JString (js ''cloud_completed'') then
         seq (validateProviderIdentifier v) (\<lambda>c. seq (logged (Ev_reconciled cx uploadId c)) (\<lambda>_.
           seq (saveJournal m j ((to_phase Rp_cloud_completed)\<lparr>ju_cloudCompletionId := Some (Some c)\<rparr>)) (confirmJournal m)))
       else if state \<noteq> JString (js ''not_uploaded'') then raise (SdkErr retryable_upload_failure)
       else seq (saveJournal m j ((to_phase Rp_staged)\<lparr>ju_uploadId := Some None\<rparr>)) (\<lambda>staged. uploadStaged m staged recording))
      (\<lambda>_. rec_inv m ids)"
    if "sink_file m (rj_operationId j) = Inr f" and "context_of m j bs cx" for f bs cx uploadId v state
    by (intro triple_if bytes_step [OF quiet_guards(10)] told_ [OF that] bytes_end [OF rec.quiet_basic(2)] again)
  have upload: "safe m ids (holding m ids j) (seq (legacyContext m j recording f) (\<lambda>cx.
                seq (catching (awaitProviderCall operation_signal Op_upload an_provider) failed_upload) (\<lambda>reconciliation.
                  seq (lift_sum (js_property reconciliation ''state'')) (\<lambda>state.
                    if state = JString (js ''cloud_completed'') then
                      seq (validateProviderIdentifier (js_get reconciliation ''cloudCompletionId'')) (\<lambda>c.
                        seq (logged (Ev_reconciled cx (the (rj_uploadId j)) c)) (\<lambda>_.
                          seq (saveJournal m j ((to_phase Rp_cloud_completed)\<lparr>ju_cloudCompletionId := Some (Some c)\<rparr>))
                            (confirmJournal m)))
                    else if state \<noteq> JString (js ''not_uploaded'') then raise (SdkErr retryable_upload_failure)
                    else
                      seq (saveJournal m j ((to_phase Rp_staged)\<lparr>ju_uploadId := Some None\<rparr>)) (\<lambda>staged.
                        uploadStaged m staged recording))))) (\<lambda>_. rec_inv m ids)"
    if f: "sink_file m (rj_operationId j) = Inr f" for f
    by (rule triple_by_value [where g = "\<lambda>w. file_content (rw_files w) f"], fold with_bytes_def,
        rule triple_seq [OF safe_context [OF uuid]], rule triple_fact,
        rule bytes_step [OF rec.quiet_catching [OF quiet_await(2) quiet_failed_upload]],
        rule bytes_step [OF rec.quiet_basic(3)], rule decide [OF f])
  show ?thesis
    unfolding reconcileUpload_def
    by (intro triple_if safe_end quiet_prims safe_step [OF quiet_guards(2)] safe_step [OF quiet_guards(3)] safe_open_seq upload)
qed

end
