(* ===== verification/RecordingHistory.thy ===== *)
theory RecordingHistory
  imports RecordingUpload
begin

text \<open>
  The transfer and the public operations of the recording manager keep the invariant, so it holds in
  every world that is reached from an empty storage by any sequence of operations, whatever the
  surroundings answer and wherever a run is cut off.
\<close>

section \<open>The transfer\<close>

lemma holding_stream:
  assumes "\<And>c a. rec.quiet (body c a)"
  shows "invariant (holding m ids j) (stream_blob f body acc)"
  by (rule holding_quiet [OF quiet_stream_blob]) (rule assms)

lemma quiet_count: "rec.quiet (seq (lift_sum r) (\<lambda>x. seq (set_hashed (g x)) (\<lambda>_. ret (h x))))"
  by (intro rec.quiet_intros quiet_set_hashed)

lemma quiet_finalized: "rec.quiet (modify (\<lambda>w. w\<lparr>rw_sink := g (rw_sink w)\<rparr>))"
  by (rule rec.quiet_modify) (simp add: rec_same_def)

lemma holding_sink_steps:
  assumes "unstaged j" and "sink_file m (rj_operationId j) = Inr f"
  shows "invariant (holding m ids j) (sink_truncate f units)"
    and "invariant (holding m ids j) (sink_append f payload)"
    and "invariant (holding m ids j) (sink_finalize m f crc)"
  unfolding sink_truncate_def sink_append_def sink_finalize_def
  by (intro invariant_seq invariant_basic invariant_if invariant_option holding_mutate [OF assms] holding_stream quiet_count
      holding_quiet [OF quiet_createHasher] holding_quiet [OF quiet_set_hashed] holding_quiet [OF quiet_blob_size]
      holding_quiet [OF quiet_finalized])+

lemma holding_sink:
  assumes "unstaged j" and "sink_file m (rj_operationId j) = Inr f"
  shows "invariant (holding m ids j) (sink_execute m s f e)"
proof -
  note steps = holding_sink_steps [OF assms]
  have "invariant (holding m ids j) (sink_effect m s f e)"
  proof (cases e)
    case (E_recording_sink_discard t)
    then show ?thesis
      unfolding sink_effect_def delete_blob_def
      by (simp, intro invariant_seq invariant_basic holding_mutate [OF assms] holding_quiet [OF quiet_guards(9)])
  qed (simp_all add: sink_effect_def holding_quiet [OF quiet_reject]
      invariant_seq [OF holding_quiet [OF quiet_guards(9)] steps(1)] invariant_seq [OF holding_quiet [OF quiet_guards(9)] steps(2)]
      invariant_seq [OF holding_quiet [OF quiet_guards(9)] steps(3)])
  moreover have "invariant (holding m ids j)
      (case x of SdkErr _ \<Rightarrow> raise x | StorageErr _ \<Rightarrow> raise x | _ \<Rightarrow> ret sinkFailure)" for x
    by (cases x) (simp_all add: invariant_basic)
  ultimately show ?thesis unfolding sink_execute_def by (intro invariant_catching)
qed

lemma holding_effect:
  assumes "unstaged j" and "sink_file m (rj_operationId j) = Inr f"
  shows "invariant (holding m ids j) (execute_effect m j f e)"
  unfolding execute_effect_def
  by (auto intro: holding_sink [OF assms] invariant_basic holding_quiet [OF quiet_persistence]
      split: effect_route.split host_slot.split)

lemma holding_effects:
  assumes "unstaged j" and "sink_file m (rj_operationId j) = Inr f"
  shows "invariant (holding m ids j) (run_effects m j f es failure)"
  by (induction es arbitrary: failure)
    (auto intro!: invariant_seq invariant_catching invariant_basic holding_effect [OF assms])

lemma holding_transfer:
  assumes "unstaged j" and "sink_file m (rj_operationId j) = Inr f"
  shows "invariant (holding m ids j) (run_transfer m j f)"
proof -
  have last: "rec.quiet (seq tick (\<lambda>b. case an_run b of
             Inl e \<Rightarrow> raise (SdkErr e)
           | Inr notifications \<Rightarrow>
               (case failure of
                  Some e \<Rightarrow> raise (SdkErr (normalizeRuntimeError e Op_transfer_recording))
                | None \<Rightarrow> ret notifications)))" for failure
    by (intro rec.quiet_intros quiet_tick)
  show ?thesis
    unfolding run_transfer_def
    by (intro invariant_seq holding_quiet [OF quiet_tick] holding_effects [OF assms] holding_quiet [OF last])
qed

text \<open>The log notes what was transferred; the journal of the operation does not say that anything is staged yet.\<close>

lemma rec_inv_transferred:
  assumes w: "holding m ids j w" and "unstaged j"
  shows "holding m ids j (w\<lparr>rw_log := rw_log w @ [Ev_transferred (rj_operationId j) s u bs]\<rparr>)" (is "holding m ids j ?w")
proof -
  have j: "journal_of m ?w i = journal_of m w i" for i by (simp add: journal_of_def)
  have "journal_ok m ids ?w n" if n: "journal_of m w i = Some n" for i n
  proof (cases "rj_operationId n = rj_operationId j")
    case True
    have "rj_operationId n = i" using n by (simp add: journal_of_def stored_name)
    with True n w have "n = j" by (simp add: holding_def)
    with holding_ok [OF w] assms(2) show ?thesis
      using completed_append by (auto simp: journal_ok_def unstaged_def)
  next
    case False
    then have "staged_bytes (rw_log ?w) (rj_operationId n) = staged_bytes (rw_log w) (rj_operationId n)" by simp
    then have "staged_here m ?w (rj_operationId n) = staged_here m w (rj_operationId n)"
      by (simp add: staged_here_def)
    moreover from n w have "journal_ok m ids w n" by (auto simp: holding_def rec_inv_def)
    ultimately show ?thesis using completed_append by (auto simp: journal_ok_def)
  qed
  with j w show ?thesis by (auto simp: holding_def rec_inv_def log_ok_append)
qed

lemma stable_staged: "rec.stable (\<lambda>w. holding m ids j w \<and> staged_here m w i)"
  using stable_holding [of m ids j] staged_here_cong
  unfolding rec.stable_def rec_same_def by blast

lemma safe_transferred:
  assumes phase: "rj_phase j = Rp_transferring" and f: "sink_file m (rj_operationId j) = Inr f"
    and uuid: "dr_uuid recording = rj_recordingUuid j"
  shows "safe m ids (holding m ids j) (transfer_and_upload m j recording f) (\<lambda>_. rec_inv m ids)"
proof -
  have u: "unstaged j" using phase by (simp add: unstaged_def)
  let ?P = "\<lambda>w. holding m ids j w \<and> staged_here m w (rj_operationId j)"
  have log: "safe m ids (\<lambda>w. holding m ids j w \<and> rw_files w f = content)
      (logged (Ev_transferred (rj_operationId j) (rj_serialNumber j) (rj_recordingUuid j)
         (case content of None \<Rightarrow> [] | Some bs \<Rightarrow> bs))) (\<lambda>_. ?P)" for content
    unfolding logged_def
  proof (rule triple_modify)
    fix w
    assume w: "holding m ids j w \<and> rw_files w f = content"
    have "file_content (rw_files w) f = (case content of None \<Rightarrow> [] | Some bs \<Rightarrow> bs)"
      using w by (auto simp: file_content_def)
    with rec_inv_transferred [of m ids j w] w u f
    show "?P (w\<lparr>rw_log := rw_log w @ [Ev_transferred (rj_operationId j) (rj_serialNumber j) (rj_recordingUuid j)
         (case content of None \<Rightarrow> [] | Some bs \<Rightarrow> bs)]\<rparr>)"
      by (auto simp: staged_here_def)
  qed
  have upload: "safe m ids (holding m ids n)
      (seq (blob_size_now f) (\<lambda>k. seq (lift_sum (safeBrowserNumber k Op_transfer_recording)) (\<lambda>_.
         seq callback (\<lambda>_. uploadStaged m n (recording\<lparr>dr_encrypted := encrypted\<rparr>))))) (\<lambda>_. rec_inv m ids)"
    if "rj_phase n = Rp_staged" "rj_recordingUuid n = rj_recordingUuid j" for n encrypted
    by (intro safe_step [OF quiet_blob_size] safe_step [OF rec.quiet_basic(3)] safe_step [OF quiet_callback]
        safe_uploadStaged) (use that uuid in simp_all)
  have save: "safe m ids ?P (seq (saveJournal m j ((to_phase Rp_staged)\<lparr>ju_devicePlaintextSha256Hex := Some (map_option hex sha)\<rparr>))
      (\<lambda>staged. seq (blob_size_now f) (\<lambda>k. seq (lift_sum (safeBrowserNumber k Op_transfer_recording)) (\<lambda>_.
         seq callback (\<lambda>_. uploadStaged m staged (recording\<lparr>dr_encrypted := encrypted\<rparr>)))))) (\<lambda>_. rec_inv m ids)"
    for sha encrypted
  proof (rule safe_save_seq)
    fix w now
    assume "?P w"
    then show "journal_ok m ids w (next_journal j ((to_phase Rp_staged)\<lparr>ju_devicePlaintextSha256Hex := Some (map_option hex sha)\<rparr>) now)"
      using holding_ok [of m ids j w] by (auto simp: journal_ok_def)
  qed (auto simp: stable_staged holding_inv intro: upload)
  have after: "safe m ids (\<lambda>w. holding m ids j w \<and> rw_files w f = content)
      (case transfer_completed notifications of
           None \<Rightarrow> reject Sdk_internal_error Op_transfer_recording
         | Some (encrypted, sha256) \<Rightarrow>
             if \<not> finalized then reject Sdk_internal_error Op_transfer_recording
             else
               seq (logged (Ev_transferred (rj_operationId j) (rj_serialNumber j)
                     (rj_recordingUuid j) (case content of None \<Rightarrow> [] | Some bs \<Rightarrow> bs))) (\<lambda>_.
                 seq (saveJournal m j ((to_phase Rp_staged)\<lparr>ju_devicePlaintextSha256Hex :=
                       Some (map_option hex sha256)\<rparr>)) (\<lambda>staged.
                   seq (blob_size_now f) (\<lambda>n.
                     seq (lift_sum (safeBrowserNumber n Op_transfer_recording)) (\<lambda>_.
                       seq callback (\<lambda>_.
                         uploadStaged m staged (recording\<lparr>dr_encrypted := encrypted\<rparr>)))))))
      (\<lambda>_. rec_inv m ids)" for notifications finalized content
  proof -
    have no: "safe m ids (\<lambda>w. holding m ids j w \<and> rw_files w f = content) (reject c p) (\<lambda>_. rec_inv m ids)"
      for c p and q :: "rec_result itself"
      unfolding reject_def by (rule triple_raise) (auto simp: holding_inv)
    show ?thesis
      by (cases "transfer_completed notifications"; cases finalized)
        (auto intro: no triple_seq [OF log save])
  qed
  show ?thesis
    unfolding transfer_and_upload_def
  proof (rule triple_seq [OF safe_invariant [OF holding_transfer [OF u f]]], rule triple_seq [OF triple_get])
    fix w
    assume "holding m ids j w"
    then show "holding m ids j w \<and> rw_files w f = snd (sk_finalized (rw_sink w), rw_files w f)" by simp
  next
    fix notifications x
    show "safe m ids (\<lambda>w. holding m ids j w \<and> rw_files w f = snd x)
      (case x of (finalized, held) \<Rightarrow> (case transfer_completed notifications of
           None \<Rightarrow> reject Sdk_internal_error Op_transfer_recording
         | Some (encrypted, sha256) \<Rightarrow>
             if \<not> finalized then reject Sdk_internal_error Op_transfer_recording
             else
               seq (logged (Ev_transferred (rj_operationId j) (rj_serialNumber j)
                     (rj_recordingUuid j) (case held of None \<Rightarrow> [] | Some bs \<Rightarrow> bs))) (\<lambda>_.
                 seq (saveJournal m j ((to_phase Rp_staged)\<lparr>ju_devicePlaintextSha256Hex :=
                       Some (map_option hex sha256)\<rparr>)) (\<lambda>staged.
                   seq (blob_size_now f) (\<lambda>n.
                     seq (lift_sum (safeBrowserNumber n Op_transfer_recording)) (\<lambda>_.
                       seq callback (\<lambda>_.
                         uploadStaged m staged (recording\<lparr>dr_encrypted := encrypted\<rparr>))))))))
      (\<lambda>_. rec_inv m ids)"
      using after by (cases x) simp
  qed
qed

lemma triple_prod: "(\<And>x y. triple P (f x y) Q E C) \<Longrightarrow> triple P (case v of (x, y) \<Rightarrow> f x y) Q E C"
  by (cases v) simp

lemma quiet_reset: "rec.quiet (modify (\<lambda>w. w\<lparr>rw_sink := sink\<rparr>))"
  by (rule rec.quiet_modify) (simp add: rec_same_def)

lemma safe_transferLegacy:
  assumes phase: "rj_phase j = Rp_prepared \<or> rj_phase j = Rp_transferring"
    and uuid: "dr_uuid recording = rj_recordingUuid j"
  shows "safe m ids (holding m ids j) (transferLegacy m v2 j recording) (\<lambda>_. rec_inv m ids)"
proof -
  have u: "unstaged j" using phase by (auto simp: unstaged_def)
  let ?to = "(to_phase Rp_transferring)\<lparr>ju_uploadId := Some None, ju_cloudCompletionId := Some None\<rparr>"
  have run: "safe m ids (holding m ids n)
      (seq (throwIfAborted operation_signal Op_transfer_recording) (\<lambda>_. seq createHasher (\<lambda>_.
         seq (modify (\<lambda>w. w\<lparr>rw_sink := \<lparr>sk_hashed = [], sk_finalized = False\<rparr>\<rparr>)) (\<lambda>_.
           catching (transfer_and_upload m n recording f)
             (after_failure m v2 (rj_operationId j) [Sdk_cancelled, Sdk_integrity_failed]))))) (\<lambda>_. rec_inv m ids)"
    if "rj_phase n = Rp_transferring" "sink_file m (rj_operationId n) = Inr f" "dr_uuid recording = rj_recordingUuid n" for n f
    by (intro safe_step [OF quiet_throwIfAborted] safe_step [OF quiet_createHasher] safe_step [OF quiet_reset]
        triple_catching [OF safe_transferred [OF that] safe_after_failure])
  have save: "safe m ids (holding m ids j) (seq (saveJournal m j ?to) (\<lambda>n.
      seq (throwIfAborted operation_signal Op_transfer_recording) (\<lambda>_. seq createHasher (\<lambda>_.
         seq (modify (\<lambda>w. w\<lparr>rw_sink := \<lparr>sk_hashed = [], sk_finalized = False\<rparr>\<rparr>)) (\<lambda>_.
           catching (transfer_and_upload m n recording f)
             (after_failure m v2 (rj_operationId j) [Sdk_cancelled, Sdk_integrity_failed])))))) (\<lambda>_. rec_inv m ids)"
    if "sink_file m (rj_operationId j) = Inr f" for f
  proof (rule safe_save_seq)
    fix w now
    assume "holding m ids j w"
    then show "journal_ok m ids w (next_journal j ?to now)"
      using holding_ok [of m ids j w] by (auto simp: journal_ok_def)
  next
    fix now
    show "safe m ids (holding m ids (next_journal j ?to now))
      (seq (throwIfAborted operation_signal Op_transfer_recording) (\<lambda>_. seq createHasher (\<lambda>_.
         seq (modify (\<lambda>w. w\<lparr>rw_sink := \<lparr>sk_hashed = [], sk_finalized = False\<rparr>\<rparr>)) (\<lambda>_.
           catching (transfer_and_upload m (next_journal j ?to now) recording f)
             (after_failure m v2 (rj_operationId j) [Sdk_cancelled, Sdk_integrity_failed]))))) (\<lambda>_. rec_inv m ids)"
      by (rule run) (use that uuid in simp_all)
  qed (auto simp: holding_inv)
  have emptied: "invariant (holding m ids j) (unless b (seq (mutate_blob f (truncate_request (JInt 0))) (\<lambda>_.
      throwIfAborted operation_signal Op_transfer_recording)))" if "sink_file m (rj_operationId j) = Inr f" for f b
    by (intro invariant_unless invariant_seq holding_mutate [OF u that] holding_quiet [OF quiet_throwIfAborted])
  show ?thesis
    unfolding transferLegacy_def
    by (intro safe_step [OF quiet_guards(2)] safe_step [OF quiet_throwIfAborted] safe_step [OF quiet_checkpoints(1)]
        safe_open_seq safe_step [OF quiet_blob_size] safe_step [OF rec.quiet_basic(3)]
        triple_seq [OF safe_invariant [OF emptied]] save)
qed

section \<open>The public operations\<close>

lemma safe_finally:
  assumes "safe m ids P prog (\<lambda>_. rec_inv m ids)" and "rec.quiet cleanup"
  shows "safe m ids P (finally_do prog cleanup) (\<lambda>_. rec_inv m ids)"
proof (rule tripleI)
  fix w r w'
  assume w: "P w" and run: "finally_do prog cleanup w = (r, w')"
  obtain s w1 where s: "prog w = (s, w1)" by fastforce
  from tripleD [OF assms(1) w s] have 1: "rec_inv m ids w1" by (auto split: option.splits sum.splits)
  have after: "rec.quiet (seq cleanup (\<lambda>_. lift_sum x))" for x :: "js_error + 'a"
    by (intro rec.quiet_intros assms(2))
  have "rec_inv m ids w'"
  proof (cases s)
    case None
    with run s 1 show ?thesis by (simp add: finally_do_def)
  next
    case (Some x)
    with run s have "seq cleanup (\<lambda>_. lift_sum x) w1 = (r, w')" by (simp add: finally_do_def)
    then show ?thesis using rec_run [OF after stable_inv 1] by blast
  qed
  then show "case r of None \<Rightarrow> rec_inv m ids w' | Some (Inl e) \<Rightarrow> rec_inv m ids w' | Some (Inr x) \<Rightarrow> rec_inv m ids w'"
    by (simp split: option.split sum.split)
qed

lemma quiet_active: "rec.quiet (modify (\<lambda>w. w\<lparr>rw_active := g (rw_active w)\<rparr>))"
  by (rule rec.quiet_modify) (simp add: rec_same_def)

lemma safe_managed:
  assumes "safe m ids (rec_inv m ids) body (\<lambda>_. rec_inv m ids)"
  shows "safe m ids (rec_inv m ids) (runManagedOperation i p body) (\<lambda>_. rec_inv m ids)"
  unfolding runManagedOperation_def
  by (intro safe_step_inv [OF quiet_guards(1)] safe_step_inv [OF rec.quiet_basic(4)] triple_if safe_end_inv [OF quiet_reject]
      safe_step_inv [OF quiet_throwIfAborted] safe_step_inv [OF quiet_active] safe_finally [OF assms quiet_active])

lemma prepared_ok: "i \<in> ids \<Longrightarrow> journal_ok m ids w (prepared_journal i s u now)"
  by (simp add: journal_ok_def prepared_journal_def)

lemma safe_sync_body:
  assumes "i \<in> ids"
  shows "safe m ids (rec_inv m ids) (sync_body m v2 recording i) (\<lambda>_. rec_inv m ids)"
proof -
  have start: "safe m ids (rec_inv m ids)
      (catching (seq (store_journal m (prepared_journal i s (dr_uuid recording) now)) (\<lambda>_.
          seq (throwIfAborted operation_signal Op_transfer_recording) (\<lambda>_.
            transferLegacy m v2 (prepared_journal i s (dr_uuid recording) now) recording)))
        (after_failure m v2 i [Sdk_cancelled])) (\<lambda>_. rec_inv m ids)" for s now
  proof (rule triple_catching [OF triple_seq safe_after_failure])
    show "safe m ids (rec_inv m ids) (store_journal m (prepared_journal i s (dr_uuid recording) now))
        (\<lambda>_. holding m ids (prepared_journal i s (dr_uuid recording) now))"
      by (rule safe_store) (simp_all add: prepared_ok assms)
    show "safe m ids (holding m ids (prepared_journal i s (dr_uuid recording) now))
        (seq (throwIfAborted operation_signal Op_transfer_recording) (\<lambda>_.
            transferLegacy m v2 (prepared_journal i s (dr_uuid recording) now) recording)) (\<lambda>_. rec_inv m ids)"
      by (intro safe_step [OF quiet_throwIfAborted] safe_transferLegacy) (simp_all add: prepared_journal_def)
  qed
  have sync_: "safe m ids (rec_inv m ids) (seq verifyConnection (\<lambda>(device, serialNumber).
             seq (throwIfAborted operation_signal Op_transfer_recording) (\<lambda>_.
               seq (authorize m) (\<lambda>_.
                 seq observe (\<lambda>a.
                   let prepared = prepared_journal i serialNumber (dr_uuid recording) (an_now a) in
                   catching
                     (seq (store_journal m prepared) (\<lambda>_.
                       seq (throwIfAborted operation_signal Op_transfer_recording) (\<lambda>_.
                         transferLegacy m v2 prepared recording)))
                     (after_failure m v2 i [Sdk_cancelled])))))) (\<lambda>_. rec_inv m ids)"
    unfolding Let_def
    by (intro safe_step_inv [OF quiet_verifyConnection] triple_prod safe_step_inv [OF quiet_throwIfAborted]
        safe_step_inv [OF quiet_authorize] safe_step_inv [OF quiet_observe] start)
  show ?thesis
    unfolding sync_body_def
  proof (rule safe_load_seq)
    show "safe m ids (rec_inv m ids) (seq (throwIfAborted operation_signal Op_transfer_recording) (\<lambda>_.
        if (None :: recording_journal option) \<noteq> None then reject Sdk_resume_rejected Op_transfer_recording
        else seq verifyConnection (\<lambda>(device, serialNumber).
             seq (throwIfAborted operation_signal Op_transfer_recording) (\<lambda>_.
               seq (authorize m) (\<lambda>_.
                 seq observe (\<lambda>a.
                   let prepared = prepared_journal i serialNumber (dr_uuid recording) (an_now a) in
                   catching
                     (seq (store_journal m prepared) (\<lambda>_.
                       seq (throwIfAborted operation_signal Op_transfer_recording) (\<lambda>_.
                         transferLegacy m v2 prepared recording)))
                     (after_failure m v2 i [Sdk_cancelled]))))))) (\<lambda>_. rec_inv m ids)"
      by (intro safe_step_inv [OF quiet_throwIfAborted] triple_if sync_) simp
  qed (simp, intro safe_step [OF quiet_throwIfAborted] safe_end [OF quiet_reject])
qed

lemma holding_legacy: "holding m ids j w \<Longrightarrow> rj_profile j = Profile_legacy"
  using holding_ok [of m ids j w] by (simp add: journal_ok_def)

lemma safe_holding: "(rj_profile j = Profile_legacy \<Longrightarrow> safe m ids (holding m ids j) prog Q) \<Longrightarrow> safe m ids (holding m ids j) prog Q"
  by (cases "rj_profile j = Profile_legacy") (auto simp: triple_def dest: holding_legacy)

lemma safe_resume_legacy: "safe m ids (holding m ids j) (resume_legacy m v2 j) (\<lambda>_. rec_inv m ids)"
proof -
  have go: "safe m ids (holding m ids j)
      (if rj_phase j = Rp_staged then uploadStaged m j recording
       else if rj_phase j = Rp_uploading then reconcileUpload m j recording
       else transferLegacy m v2 j recording) (\<lambda>_. rec_inv m ids)"
    if "dr_uuid recording = rj_recordingUuid j" "rj_phase j \<noteq> Rp_confirmed" "rj_phase j \<noteq> Rp_cloud_completed" for recording
    by (intro triple_if safe_uploadStaged safe_reconcile safe_transferLegacy that; cases "rj_phase j"; simp add: that)
  have item: "safe m ids (holding m ids j)
      (case find (\<lambda>r. dr_uuid r = rj_recordingUuid j) recordings of
         None \<Rightarrow> reject Sdk_resume_rejected Op_transfer_recording
       | Some recording \<Rightarrow> seq (validateRecording recording) (\<lambda>_. seq (authorize m) (\<lambda>_.
           if rj_phase j = Rp_staged then uploadStaged m j recording
           else if rj_phase j = Rp_uploading then reconcileUpload m j recording
           else transferLegacy m v2 j recording))) (\<lambda>_. rec_inv m ids)"
    if "rj_phase j \<noteq> Rp_confirmed" "rj_phase j \<noteq> Rp_cloud_completed" for recordings :: "rec_item list"
  proof (cases "find (\<lambda>r. dr_uuid r = rj_recordingUuid j) recordings")
    case None
    then show ?thesis by (simp add: safe_end quiet_reject)
  next
    case (Some recording)
    then have "dr_uuid recording = rj_recordingUuid j" by (auto simp: find_Some_iff)
    note go [OF this that]
    then show ?thesis
      unfolding Some option.case by (intro safe_step [OF quiet_guards(4)] safe_step [OF quiet_authorize])
  qed
  show ?thesis
    unfolding resume_legacy_def
    by (intro triple_if safe_finishConfirmed safe_confirm safe_step [OF quiet_guards(7)] triple_prod safe_end [OF quiet_reject]
        safe_step [OF quiet_listWithSignal] safe_step [OF quiet_throwIfAborted] item)
qed

lemma safe_resume_body: "safe m ids (rec_inv m ids) (resume_body m v2 i) (\<lambda>_. rec_inv m ids)"
  unfolding resume_body_def
proof (rule triple_catching [OF _ safe_after_failure], rule safe_load_seq, goal_cases)
  case 1
  show ?case by (simp, intro safe_step_inv [OF quiet_throwIfAborted] safe_end_inv [OF quiet_reject])
next
  case (2 j)
  show ?case
    by (rule safe_holding, simp, intro safe_step [OF quiet_throwIfAborted] safe_resume_legacy)
qed

lemma safe_ignore: "safe m ids P prog (\<lambda>_. rec_inv m ids) \<Longrightarrow> safe m ids P (seq prog (\<lambda>_. ret ())) (\<lambda>_. rec_inv m ids)"
  by (erule triple_seq) (rule triple_ret)

lemma safe_confirm_body: "safe m ids (rec_inv m ids) (confirm_body m v2 i) (\<lambda>_. rec_inv m ids)"
  unfolding confirm_body_def
proof (rule safe_load_seq, goal_cases)
  case 1
  show ?case by (simp, intro safe_step_inv [OF quiet_throwIfAborted] safe_end_inv [OF quiet_reject])
next
  case (2 j)
  show ?case
    by (rule safe_holding, simp, intro safe_step [OF quiet_throwIfAborted] conjI impI safe_ignore safe_finishConfirmed
        safe_confirm safe_end [OF quiet_reject])
qed

lemma quiet_abort_operation: "rec.quiet abort_operation"
proof -
  have "rec.quiet (modify (\<lambda>w. w\<lparr>rw_aborted := True\<rparr>))"
    by (rule rec.quiet_modify) (simp add: rec_same_def)
  then show ?thesis
    unfolding abort_operation_def
    by (intro rec.quiet_intros quiet_tick)
qed

lemma safe_cancel: "safe m ids (rec_inv m ids) (cancel_recording m v2 i) (\<lambda>_. rec_inv m ids)"
proof -
  have load: "safe m ids (rec_inv m ids) (seq (load_recording m i) (\<lambda>r. case r of None \<Rightarrow> ret ()
       | Some journal \<Rightarrow> if rj_phase journal = Rp_prepared \<or> rj_phase journal = Rp_transferring
            then deleteUnverifiedState m v2 journal else ret ())) (\<lambda>_. rec_inv m ids)"
  proof (rule safe_load_seq, goal_cases)
    case (2 j)
    show ?case unfolding option.case by (intro triple_if safe_deleteUnverified safe_end [OF rec.quiet_basic(1)])
  qed (simp add: triple_ret)
  show ?thesis
    unfolding cancel_recording_def
    by (intro safe_step_inv [OF quiet_guards(1)] safe_step_inv [OF quiet_guards(5)] safe_step_inv [OF rec.quiet_basic(4)]
        triple_if safe_end_inv [OF quiet_abort_operation] safe_step_inv [OF quiet_guards(2)] load)
qed

lemma safe_confirm_recording: "safe m ids (rec_inv m ids) (confirm_recording m v2 i) (\<lambda>_. rec_inv m ids)"
  unfolding confirm_recording_def
  by (intro safe_step_inv [OF quiet_guards(1)] safe_step_inv [OF quiet_guards(5)] safe_step_inv [OF quiet_guards(2)]
      safe_managed safe_confirm_body)

lemma safe_resume_recording: "safe m ids (rec_inv m ids) (resume_recording m v2 i) (\<lambda>_. rec_inv m ids)"
  unfolding resume_recording_def
  by (intro safe_step_inv [OF quiet_guards(1)] safe_step_inv [OF quiet_guards(5)] safe_step_inv [OF quiet_guards(2)]
      safe_step_inv [OF quiet_guards(3)] safe_step_inv [OF quiet_throwIfAborted] safe_managed safe_resume_body)

text \<open>The identifiers an operation may create lie in \<open>ids\<close>.\<close>

definition fresh_in :: "jsstring set \<Rightarrow> jsstring option \<Rightarrow> (nat \<Rightarrow> answer) \<Rightarrow> bool" where
  "fresh_in ids requested answers \<longleftrightarrow>
     (case requested of Some i \<Rightarrow> i \<in> ids | None \<Rightarrow> \<forall>n. js ''transfer_recording:'' @ an_uuid (answers n) \<in> ids)"

lemma safe_sync:
  "safe m ids (\<lambda>w. rec_inv m ids w \<and> fresh_in ids requested (rw_answers w)) (sync_legacy m v2 recording requested)
     (\<lambda>_. rec_inv m ids)"
proof -
  let ?P = "\<lambda>w. rec_inv m ids w \<and> fresh_in ids requested (rw_answers w)"
  have P: "rec.stable ?P" "?P w \<Longrightarrow> rec_inv m ids w" for w
    using stable_inv [of m ids] by (auto simp: rec.stable_def rec_same_def)
  have body: "safe m ids (\<lambda>w. rec_inv m ids w \<and> i \<in> ids) (seq (validateOperationId i) (\<lambda>_.
      runManagedOperation i Op_transfer_recording (sync_body m v2 recording i))) (\<lambda>_. rec_inv m ids)" for i
    by (rule triple_fact, intro safe_step_inv [OF quiet_guards(5)] safe_managed safe_sync_body)
  have look: "safe m ids ?P observe (\<lambda>a w. rec_inv m ids w \<and> (case requested of
      Some i \<Rightarrow> i | None \<Rightarrow> js ''transfer_recording:'' @ an_uuid a) \<in> ids)"
  proof (rule tripleI)
    fix w r w'
    assume w: "?P w" and run: "observe w = (r, w')"
    then have "r = Some (Inr (rw_answers w (rw_time w)))" by (simp add: observe_def)
    moreover have "?P w'" using rec_run [OF quiet_observe P(1) w run] .
    ultimately show "case r of None \<Rightarrow> rec_inv m ids w' | Some (Inl e) \<Rightarrow> rec_inv m ids w'
        | Some (Inr a) \<Rightarrow> rec_inv m ids w' \<and> (case requested of
            Some i \<Rightarrow> i | None \<Rightarrow> js ''transfer_recording:'' @ an_uuid a) \<in> ids"
      using w by (simp add: fresh_in_def split: option.splits)
  qed
  show ?thesis
    unfolding sync_legacy_def Let_def
    by (intro safe_seq_quiet [OF quiet_guards(1) P] safe_seq_quiet [OF quiet_guards(4) P] safe_seq_quiet [OF quiet_guards(2) P]
        safe_seq_quiet [OF quiet_guards(3) P] safe_seq_quiet [OF quiet_throwIfAborted P] triple_seq [OF look] body)
qed

section \<open>Histories\<close>

datatype rec_op =
    O_list
  | O_sync rec_item "jsstring option"
  | O_resume jsstring
  | O_confirm jsstring
  | O_cancel jsstring
  | O_pending
  | O_destroy

primrec run_op :: "rec_manager \<Rightarrow> v2_branch \<Rightarrow> rec_op \<Rightarrow> rec_world \<Rightarrow> rec_world" where
  "run_op m v2 O_list w = snd (list_recordings m w)"
| "run_op m v2 (O_sync recording requested) w = snd (sync_legacy m v2 recording requested w)"
| "run_op m v2 (O_resume i) w = snd (resume_recording m v2 i w)"
| "run_op m v2 (O_confirm i) w = snd (confirm_recording m v2 i w)"
| "run_op m v2 (O_cancel i) w = snd (cancel_recording m v2 i w)"
| "run_op m v2 O_pending w = snd (listPendingOperations m w)"
| "run_op m v2 O_destroy w = snd (destroy_recordings w)"

definition op_in :: "jsstring set \<Rightarrow> rec_op \<Rightarrow> (nat \<Rightarrow> answer) \<Rightarrow> bool" where
  "op_in ids p answers \<longleftrightarrow> (case p of O_sync recording requested \<Rightarrow> fresh_in ids requested answers | _ \<Rightarrow> True)"

text \<open>
  The next operation finds the journals, the blobs and the log as the last one left them, even when that
  one was cut off; all else may be different: other stores, the surroundings, the signals, the manager itself.
\<close>

definition continues :: "rec_world \<Rightarrow> rec_world \<Rightarrow> bool" where
  "continues w w' \<longleftrightarrow>
     rw_db w' Sn_recording_journals = rw_db w Sn_recording_journals
     \<and> file_content (rw_files w') = file_content (rw_files w) \<and> rw_log w' = rw_log w"

inductive rec_history :: "rec_manager \<Rightarrow> v2_branch \<Rightarrow> jsstring set \<Rightarrow> rec_world \<Rightarrow> bool"
  for m :: rec_manager and v2 :: v2_branch and ids :: "jsstring set" where
  H_empty: "rw_db w Sn_recording_journals = [] \<Longrightarrow> rw_log w = [] \<Longrightarrow> rec_history m v2 ids w"
| H_op: "rec_history m v2 ids w \<Longrightarrow> continues w w' \<Longrightarrow> op_in ids p (rw_answers w') \<Longrightarrow>
     rec_history m v2 ids (run_op m v2 p w')"

lemma safe_run: "safe m ids P prog (\<lambda>_. rec_inv m ids) \<Longrightarrow> P w \<Longrightarrow> rec_inv m ids (snd (prog w))"
  unfolding triple_def by (cases "prog w"; cases "fst (prog w)"; cases "the (fst (prog w))") auto

lemma rec_inv_continues: "rec_inv m ids w \<Longrightarrow> continues w w' \<Longrightarrow> rec_inv m ids w'"
proof -
  assume w: "rec_inv m ids w" and c: "continues w w'"
  then have "rec_same w (w'\<lparr>rw_answers := rw_answers w\<rparr>)" by (simp add: continues_def rec_same_def)
  with w have "rec_inv m ids (w'\<lparr>rw_answers := rw_answers w\<rparr>)" using rec_inv_same by blast
  then show ?thesis by (simp add: rec_inv_def journal_of_def journal_ok_def staged_here_def)
qed

lemma run_op_inv: "rec_inv m ids w \<Longrightarrow> op_in ids p (rw_answers w) \<Longrightarrow> rec_inv m ids (run_op m v2 p w)"
proof (cases p)
  case O_list
  then show "rec_inv m ids w \<Longrightarrow> ?thesis"
    using safe_run [OF safe_end_inv [OF quiet_listWithSignal]] by (simp add: list_recordings_def)
next
  case (O_sync recording requested)
  then show "rec_inv m ids w \<Longrightarrow> op_in ids p (rw_answers w) \<Longrightarrow> ?thesis"
    using safe_run [OF safe_sync] by (simp add: op_in_def)
next
  case O_pending
  have "rec.quiet (listPendingOperations m)"
    unfolding listPendingOperations_def by (intro rec.quiet_intros quiet_guards quiet_db_read)
  with O_pending show "rec_inv m ids w \<Longrightarrow> ?thesis" using safe_run [OF safe_end_inv] by simp
next
  case O_destroy
  have "rec.quiet (abort_all active)" for active
    by (induction active) (simp_all add: rec.quiet_basic rec.quiet_seq quiet_abort_operation)
  moreover have "rec.quiet (modify (\<lambda>w. w\<lparr>rw_destroyed := True\<rparr>))"
    by (rule rec.quiet_modify) (simp add: rec_same_def)
  ultimately have "rec.quiet destroy_recordings"
    unfolding destroy_recordings_def by (intro rec.quiet_intros)
  with O_destroy show "rec_inv m ids w \<Longrightarrow> ?thesis"
    using safe_run [OF safe_end_inv] by simp
qed (use safe_run [OF safe_resume_recording] safe_run [OF safe_confirm_recording] safe_run [OF safe_cancel] in simp_all)

lemma history_inv: "rec_history m v2 ids w \<Longrightarrow> rec_inv m ids w"
proof (induction rule: rec_history.induct)
  case (H_empty w)
  then have "journal_of m w i = None" for i
    by (simp add: journal_of_def recording_store.stored_def loadRecordingJournal_def idb_get_def idb_transaction_def idb_ok_def
        split: option.split) (cases "storage_key (rm_prefix m) i"; simp)
  with H_empty show ?case by (simp add: rec_inv_def log_ok_def)
qed (simp add: run_op_inv rec_inv_continues)

lemma history_log:
  "rec_history m v2 ids w \<Longrightarrow> rw_log w = past @ e # later \<Longrightarrow> event_ok m ids past e"
  using history_inv [of m v2 ids w] by (auto simp: rec_inv_def log_ok_def)

end
