(* ===== verification/RecordingProgress.thy ===== *)
theory RecordingProgress
  imports RecordingHistory
begin

text \<open>
  What it means that everybody answers as hoped, and rules for total correctness in such
  surroundings: the awaits, the verified connection, the records and the blobs.
\<close>

section \<open>Honest surroundings\<close>

record scene =
  sc_operation :: jsstring
  sc_device :: jsstring
  sc_serial :: jsstring
  sc_recording :: rec_item
  sc_payload :: "bytes list"
  sc_upload :: jsstring
  sc_cloud :: jsstring

definition honest_manager :: "rec_manager \<Rightarrow> scene \<Rightarrow> bool" where
  "honest_manager m sc \<longleftrightarrow>
     rm_storage m \<and> rm_provider m \<and> (\<forall>bs. \<exists>d. rm_sha256 m bs = Inr d \<and> length d = 32) \<and> (\<exists>c. rm_listCommand m = Inr c)
     \<and> (\<exists>c. rm_confirmCommand m (dr_uuid (sc_recording sc)) = Inr c)
     \<and> valid_id (sc_serial sc) \<and> valid_id (dr_uuid (sc_recording sc)) \<and> valid_id (sc_upload sc) \<and> valid_id (sc_cloud sc)
     \<and> validateRecording (sc_recording sc) = ret () \<and> int (length (concat (sc_payload sc))) \<le> max_safe_integer"

text \<open>
  Nothing fails and nobody stops; the device is the one of the scene, it lists and sends the
  recording; the provider takes the upload, and it reports it as complete when it is asked.
\<close>

definition good_reply :: "rec_manager \<Rightarrow> scene \<Rightarrow> jsval \<Rightarrow> bool" where
  "good_reply m sc reply \<longleftrightarrow>
     js_property reply ''uploadId'' = Inr (JString (sc_upload sc))
     \<and> (\<exists>url. validateUploadRequest m (js_get reply ''request'') = ret url)
     \<and> js_property reply ''cloudCompletionId'' = Inr (JString (sc_cloud sc))
     \<and> js_property reply ''state'' = Inr (JString (js ''cloud_completed''))"

text \<open>The transfer as the core drives it: the sink is emptied, the payload arrives, the checksum is right.\<close>

definition sends :: "rec_manager \<Rightarrow> scene \<Rightarrow> answer \<Rightarrow> bool" where
  "sends m sc a \<longleftrightarrow>
     (\<exists>ns crc. length ns = length (sc_payload sc)
        \<and> an_effects a = E_recording_sink_truncate (sinkId (sc_operation sc)) 0
            # map2 (E_recording_sink_append (sinkId (sc_operation sc))) ns (sc_payload sc)
            @ [E_recording_sink_finalize (sinkId (sc_operation sc)) crc]
        \<and> (crc = None \<or> (\<exists>c. crc = Some c \<and> rm_crc32 m (concat (sc_payload sc)) = Inr c)))
     \<and> (\<exists>notes encrypted sha. an_run a = Inr notes \<and> transfer_completed notes = Some (encrypted, sha)
        \<and> option_all valid_digest (map_option hex sha))"

definition honest_answer :: "rec_manager \<Rightarrow> scene \<Rightarrow> answer \<Rightarrow> bool" where
  "honest_answer m sc a \<longleftrightarrow>
     \<not> an_stop a \<and> \<not> an_aborted a \<and> \<not> an_directAborted a \<and> an_directError a = None \<and> an_exclusive a = None
     \<and> an_idb a = idb_ok \<and> an_opfs a = opfs_ok \<and> valid_count (an_now a)
     \<and> an_connected a = Some (sc_device sc, sc_serial sc) \<and> an_device a = Some (sc_device sc)
     \<and> (\<exists>bs. an_read a = Inr bs \<and> (\<forall>p. decodeSerial bs p = Inr (sc_serial sc)))
     \<and> an_capability a = Inl (TransportErr Tr_characteristic_not_found) \<and> an_io a = None
     \<and> (\<exists>bs items. list_notification a = Some bs \<and> rm_decodeList m bs = Inr items
          \<and> find (\<lambda>r. dr_uuid r = dr_uuid (sc_recording sc)) (map deviceRecording items) = Some (sc_recording sc))
     \<and> an_threw a = None
     \<and> (\<exists>reply. an_provider a = Inr reply \<and> good_reply m sc reply)
     \<and> an_fetch a = Inr True \<and> an_callback a = None \<and> an_hasher a = None \<and> sends m sc a"

definition honest :: "rec_manager \<Rightarrow> scene \<Rightarrow> rec_world \<Rightarrow> bool" where
  "honest m sc w \<longleftrightarrow>
     (\<forall>n. honest_answer m sc (rw_answers w n)) \<and> \<not> rw_aborted w \<and> \<not> rw_destroyed w
     \<and> \<not> di_aborted (rw_direct w) \<and> di_terminalError (rw_direct w) = None"

lemma honest_simps:
  assumes "honest_answer m sc a"
  shows "an_io a = None" "an_threw a = None" "an_fetch a = Inr True" "an_callback a = None" "an_hasher a = None"
    "an_idb a = idb_ok" "an_opfs a = opfs_ok" "an_exclusive a = None" "valid_count (an_now a)"
    "an_capability a = Inl (TransportErr Tr_characteristic_not_found)"
  using assms by (simp_all add: honest_answer_def)

lemma honest_reply: "honest_answer m sc a \<Longrightarrow> \<exists>reply. an_provider a = Inr reply \<and> good_reply m sc reply"
  by (simp add: honest_answer_def)

text \<open>Total correctness in honest surroundings.\<close>

definition goes :: "rec_manager \<Rightarrow> scene \<Rightarrow> (rec_world \<Rightarrow> bool) \<Rightarrow> (rec_world, 'a) prog \<Rightarrow> ('a \<Rightarrow> rec_world \<Rightarrow> bool) \<Rightarrow> bool" where
  "goes m sc P prog Q \<longleftrightarrow>
     triple (\<lambda>w. P w \<and> honest m sc w) prog (\<lambda>x w. Q x w \<and> honest m sc w) (\<lambda>_ _. False) (\<lambda>_. False)"

definition timeless :: "(rec_world \<Rightarrow> bool) \<Rightarrow> bool" where
  "timeless P \<longleftrightarrow> (\<forall>w t d. P w \<longrightarrow> P (w\<lparr>rw_time := t, rw_direct := d\<rparr>))"

lemma timelessD: "timeless P \<Longrightarrow> P w \<Longrightarrow> P (w\<lparr>rw_time := t\<rparr>)" "timeless P \<Longrightarrow> P w \<Longrightarrow> P (w\<lparr>rw_direct := d\<rparr>)"
proof -
  assume P: "timeless P" "P w"
  then have "P (w\<lparr>rw_time := t, rw_direct := rw_direct w\<rparr>)" "P (w\<lparr>rw_time := rw_time w, rw_direct := d\<rparr>)"
    unfolding timeless_def by blast+
  then show "P (w\<lparr>rw_time := t\<rparr>)" "P (w\<lparr>rw_direct := d\<rparr>)" by simp_all
qed

lemma timeless_conj [simp]: "timeless P \<Longrightarrow> timeless Q \<Longrightarrow> timeless (\<lambda>w. P w \<and> Q w)"
  by (simp add: timeless_def)

lemma timeless_const [simp]: "timeless (\<lambda>_. b)"
  by (simp add: timeless_def)

lemma goesI: "(\<And>w. P w \<Longrightarrow> honest m sc w \<Longrightarrow> \<exists>x w'. prog w = (Some (Inr x), w') \<and> Q x w' \<and> honest m sc w') \<Longrightarrow> goes m sc P prog Q"
  unfolding goes_def by (rule tripleI) fastforce

lemma goesD:
  assumes "goes m sc P prog Q" and "P w" and "honest m sc w"
  shows "\<exists>x w'. prog w = (Some (Inr x), w') \<and> Q x w' \<and> honest m sc w'"
proof -
  obtain r w' where r: "prog w = (r, w')" by fastforce
  from tripleD [OF assms(1) [unfolded goes_def] _ r] assms(2,3)
  have "case r of None \<Rightarrow> False | Some (Inl e) \<Rightarrow> False | Some (Inr x) \<Rightarrow> Q x w' \<and> honest m sc w'" by blast
  with r show ?thesis by (auto split: option.splits sum.splits)
qed

lemma goes_seq: "goes m sc P prog R \<Longrightarrow> (\<And>x. goes m sc (R x) (f x) Q) \<Longrightarrow> goes m sc P (seq prog f) Q"
  unfolding goes_def by (rule triple_seq)

lemma goes_pre: "goes m sc P prog Q \<Longrightarrow> (\<And>w. P' w \<Longrightarrow> P w) \<Longrightarrow> goes m sc P' prog Q"
  unfolding goes_def by (erule triple_pre) blast

lemma goes_post: "goes m sc P prog Q \<Longrightarrow> (\<And>x w. Q x w \<Longrightarrow> Q' x w) \<Longrightarrow> goes m sc P prog Q'"
  unfolding goes_def by (erule triple_post) blast

lemma goes_fact: "(b \<Longrightarrow> goes m sc P prog Q) \<Longrightarrow> goes m sc (\<lambda>w. P w \<and> b) prog Q"
  by (auto simp: goes_def triple_def)

lemma goes_ret: "(\<And>w. P w \<Longrightarrow> Q x w) \<Longrightarrow> goes m sc P (ret x) Q"
  by (rule goesI) (simp add: ret_def)

lemma goes_lift: "r = Inr x \<Longrightarrow> goes m sc P (f x) Q \<Longrightarrow> goes m sc P (seq (lift_sum r) f) Q"
proof (rule goes_seq)
  assume "r = Inr x"
  then show "goes m sc P (lift_sum r) (\<lambda>y w. P w \<and> y = x)" by (intro goesI) (simp add: lift_sum_def)
  assume "goes m sc P (f x) Q"
  then show "goes m sc (\<lambda>w. P w \<and> y = x) (f y) Q" for y by (auto intro: goes_fact)
qed

lemma goes_catching: "goes m sc P prog Q \<Longrightarrow> goes m sc P (catching prog h) Q"
  unfolding goes_def by (erule triple_catching) (simp add: triple_def)

lemma goes_ignoring: "goes m sc P prog Q \<Longrightarrow> goes m sc P (ignoring prog) (\<lambda>r w. \<exists>x. r = Some x \<and> Q x w)"
  unfolding ignoring_def by (intro goes_catching, erule goes_seq) (auto intro: goes_ret)

lemma goes_modify: "(\<And>w. P w \<Longrightarrow> honest m sc w \<Longrightarrow> Q () (f w) \<and> honest m sc (f w)) \<Longrightarrow> goes m sc P (modify f) Q"
  by (rule goesI) (simp add: modify_def)

lemma honest_later: "honest m sc w \<Longrightarrow> later_direct (rw_answers w n) (rw_direct w) = rw_direct w"
  by (auto simp: honest_def honest_answer_def later_direct_def split: option.split)

lemma honest_time [simp]: "honest m sc (w\<lparr>rw_time := t\<rparr>) = honest m sc w"
  by (simp add: honest_def)

lemma goes_tick: "timeless P \<Longrightarrow> (\<And>a. honest_answer m sc a \<Longrightarrow> goes m sc P (f a) Q) \<Longrightarrow> goes m sc P (seq tick f) Q"
proof (rule goes_seq)
  assume P: "timeless P"
  show "goes m sc P tick (\<lambda>a w. P w \<and> honest_answer m sc a)"
  proof (rule goesI)
    fix w
    assume w: "P w" "honest m sc w"
    then have a: "honest_answer m sc (rw_answers w (rw_time w))" "\<not> rw_aborted w" by (auto simp: honest_def)
    have "tick w = (Some (Inr (rw_answers w (rw_time w))), w\<lparr>rw_time := Suc (rw_time w)\<rparr>)"
      using a honest_later [OF w(2)] by (simp add: tick_def Let_def honest_answer_def)
    with w a timelessD(1) [OF P] show "\<exists>x w'. tick w = (Some (Inr x), w') \<and> (P w' \<and> honest_answer m sc x) \<and> honest m sc w'"
      by simp
  qed
qed (rule goes_fact)

lemma goes_observe: "timeless P \<Longrightarrow> (\<And>a. honest_answer m sc a \<Longrightarrow> goes m sc P (f a) Q) \<Longrightarrow> goes m sc P (seq observe f) Q"
proof (rule goes_seq)
  assume P: "timeless P"
  show "goes m sc P observe (\<lambda>a w. P w \<and> honest_answer m sc a)"
    by (rule goesI) (use timelessD(1) [OF P] in \<open>auto simp: observe_def honest_def\<close>)
qed (rule goes_fact)

definition silent :: "rec_manager \<Rightarrow> scene \<Rightarrow> signal \<Rightarrow> bool" where
  "silent m sc sig \<longleftrightarrow> (\<forall>w. honest m sc w \<longrightarrow> \<not> sig w)"

lemma silent_signals [simp]: "silent m sc operation_signal" "silent m sc (combineSignals b)"
  by (auto simp: silent_def operation_signal_def combineSignals_def honest_def)

lemma goes_get: "(\<And>w. P w \<Longrightarrow> honest m sc w \<Longrightarrow> g w = x) \<Longrightarrow> goes m sc P (f x) Q \<Longrightarrow> goes m sc P (seq (get g) f) Q"
proof (rule goes_seq)
  assume "\<And>w. P w \<Longrightarrow> honest m sc w \<Longrightarrow> g w = x"
  then show "goes m sc P (get g) (\<lambda>y w. P w \<and> y = x)" by (intro goesI) (simp add: get_def)
  assume "goes m sc P (f x) Q"
  then show "goes m sc (\<lambda>w. P w \<and> y = x) (f y) Q" for y by (auto intro: goes_fact)
qed

lemma goes_check: "silent m sc sig \<Longrightarrow> goes m sc P (f ()) Q \<Longrightarrow> goes m sc P (seq (throwIfAborted sig p) f) Q"
  unfolding throwIfAborted_def seq_assoc
  by (rule goes_get [where x = False]) (auto simp: silent_def)

lemma goes_race:
  assumes "silent m sc sig" and "timeless P"
    and "\<And>a. honest_answer m sc a \<Longrightarrow> \<exists>x. q a = Inr x \<and> goes m sc P (f x) Q"
  shows "goes m sc P (seq (race sig p q) f) Q"
  unfolding race_def seq_assoc
proof (rule goes_tick [OF assms(2)], rule goes_get [where x = False])
  fix a
  assume "honest_answer m sc a"
  with assms(3) obtain x where "q a = Inr x" "goes m sc P (f x) Q" by blast
  then show "goes m sc P (seq (if False \<and> an_lost a then raise (cancelled_error p) else lift_sum (q a)) f) Q"
    by (simp add: goes_lift)
qed (use assms(1) in \<open>simp add: silent_def\<close>)

lemma goes_await:
  assumes "silent m sc sig" and "timeless P"
    and "\<And>a. honest_answer m sc a \<Longrightarrow> \<exists>x. q a = Inr x \<and> goes m sc P (f x) Q"
  shows "goes m sc P (seq (awaitWithSignal sig p q) f) Q"
  unfolding awaitWithSignal_def seq_assoc
  by (rule goes_check [OF assms(1)], rule goes_race [OF assms])

lemma goes_provider:
  assumes "timeless P" and "\<And>a. honest_answer m sc a \<Longrightarrow> \<exists>x. q a = Inr x \<and> goes m sc P (f x) Q"
  shows "goes m sc P (seq (awaitProviderCall operation_signal p q) f) Q"
  unfolding awaitProviderCall_def seq_assoc
proof (rule goes_observe [OF assms(1)])
  fix a
  assume "honest_answer m sc a"
  then have "an_threw a = None" by (simp add: honest_answer_def)
  then show "goes m sc P (seq (case an_threw a of Some e \<Rightarrow> raise e
      | None \<Rightarrow> seq (throwIfAborted operation_signal p) (\<lambda>_. race operation_signal p q)) f) Q"
    by (simp add: seq_assoc, intro goes_check goes_race silent_signals assms)
qed

lemma goes_connected:
  assumes "timeless P" and "goes m sc P (f (sc_device sc, sc_serial sc)) Q"
  shows "goes m sc P (seq requireConnectedDevice f) Q"
  unfolding requireConnectedDevice_def seq_assoc
  by (rule goes_observe [OF assms(1)]) (use assms(2) in \<open>simp add: honest_answer_def\<close>)

lemma seq_ret_right: "seq prog ret = prog"
  by (rule ext) (auto simp: seq_def ret_def split: prod.splits option.splits sum.splits)

lemma goes_tail: "goes m sc P (seq prog ret) Q \<Longrightarrow> goes m sc P prog Q"
  by (simp add: seq_ret_right)

lemma goes_provider_caught:
  assumes "timeless P" and "\<And>a. honest_answer m sc a \<Longrightarrow> \<exists>x. q a = Inr x \<and> goes m sc P (f x) Q"
  shows "goes m sc P (seq (catching (awaitProviderCall operation_signal p q) h) f) Q"
proof (rule goes_seq)
  show "goes m sc P (catching (awaitProviderCall operation_signal p q) h) (\<lambda>x w. P w \<and> goes m sc P (f x) Q)"
  proof (rule goes_catching, rule goes_tail, rule goes_provider [OF assms(1)])
    fix a
    assume "honest_answer m sc a"
    with assms(2) obtain x where "q a = Inr x" "goes m sc P (f x) Q" by blast
    then show "\<exists>x. q a = Inr x \<and> goes m sc P (ret x) (\<lambda>x w. P w \<and> goes m sc P (f x) Q)"
      by (intro exI [of _ x]) (simp add: goes_ret)
  qed
qed (rule goes_fact)

lemma goes_available: "goes m sc P (f ()) Q \<Longrightarrow> goes m sc P (seq (ensureAvailable p) f) Q"
  unfolding ensureAvailable_def seq_assoc by (rule goes_get [where x = False]) (simp_all add: honest_def)

text \<open>The device has no capability of the encrypted profile.\<close>

lemma goes_no_capability:
  assumes "timeless P"
  shows "goes m sc P (readOptionalV2Capability m (combineSignals x)) (\<lambda>c w. P w \<and> c = None)"
proof (rule goesI)
  fix w
  assume w: "P w" "honest m sc w"
  let ?w = "w\<lparr>rw_time := Suc (rw_time w)\<rparr>"
  have a: "honest_answer m sc (rw_answers w (rw_time w))" "\<not> combineSignals x w" "\<not> combineSignals x ?w"
    using w(2) silent_signals(2) [of m sc x] by (auto simp: honest_def silent_def)
  have t: "tick w = (Some (Inr (rw_answers w (rw_time w))), ?w)"
    using a(1) w(2) honest_later [OF w(2)] by (simp add: tick_def Let_def honest_answer_def honest_def)
  have "readOptionalV2Capability m (combineSignals x) w = (Some (Inr None), ?w)"
    using a(2,3) by (simp add: readOptionalV2Capability_def awaitWithSignal_def throwIfAborted_def race_def seq_def get_def
        catching_def t ret_def lift_sum_def honest_simps(10) [OF a(1)])
  with w timelessD(1) [OF assms w(1)]
  show "\<exists>c w'. readOptionalV2Capability m (combineSignals x) w = (Some (Inr c), w') \<and> (P w' \<and> c = None) \<and> honest m sc w'"
    by simp
qed

section \<open>The connection\<close>

lemma honest_clean: "honest m sc w \<Longrightarrow> direct_outcome (rw_direct w) False (Inr v) = Inr ()"
  by (simp add: direct_outcome_def honest_def)

lemma goes_verified:
  assumes "timeless P" and body: "goes m sc P (body (sc_device sc, sc_serial sc)) Q"
  shows "goes m sc P (withVerifiedConnection x p body) Q"
proof -
  have read: "goes m sc P (verified_section x p (sc_device sc) body) Q"
    unfolding verified_section_def
  proof (intro goes_check silent_signals goes_connected assms(1), simp, rule goes_await)
    fix a
    assume "honest_answer m sc a"
    then obtain bs where bs: "an_read a = Inr bs" "\<And>p. decodeSerial bs p = Inr (sc_serial sc)"
      by (auto simp: honest_answer_def)
    have "goes m sc P (seq (lift_sum (decodeSerial bs p)) (\<lambda>serial.
        if serial \<noteq> sc_serial sc then reject Sdk_identity_mismatch p else body (sc_device sc, sc_serial sc))) Q"
      by (rule goes_lift [OF bs(2)]) (simp add: body)
    with bs(1) show "\<exists>v. an_read a = Inr v \<and> goes m sc P (seq (lift_sum (decodeSerial v p)) (\<lambda>serial.
        if serial \<noteq> sc_serial sc then reject Sdk_identity_mismatch p else body (sc_device sc, sc_serial sc))) Q"
      by blast
  qed (simp_all add: assms(1))
  let ?run = "\<lambda>w. case verified_section x p (sc_device sc) body w of
             (None, w1) \<Rightarrow> (None, w1)
           | (Some r, w1) \<Rightarrow>
               (case direct_outcome (rw_direct w1) False (map_sum id (\<lambda>_. V_unit) r) of
                  Inl e \<Rightarrow> (Some (Inl (SdkErr e)), w1)
                | Inr _ \<Rightarrow> (Some r, w1))"
  have run: "goes m sc P ?run Q"
  proof (rule goesI)
    fix w
    assume "P w" "honest m sc w"
    from goesD [OF read this] obtain y w' where
      "verified_section x p (sc_device sc) body w = (Some (Inr y), w')" "Q y w'" "honest m sc w'" by blast
    then show "\<exists>z w'. ?run w = (Some (Inr z), w') \<and> Q z w' \<and> honest m sc w'"
      by (simp add: honest_clean)
  qed
  have reset: "goes m sc P (modify (\<lambda>w. w\<lparr>rw_direct := \<lparr>di_operation = p, di_aborted = False, di_terminalError = None,
      di_result = None\<rparr>\<rparr>)) (\<lambda>_. P)"
    by (rule goes_modify) (auto simp: honest_def intro: timelessD(2) [OF assms(1)])
  have exclusive: "goes m sc P (runExclusive_prog p (verified_section x p (sc_device sc) body)) Q"
    unfolding runExclusive_prog_def
    by (rule goes_observe [OF assms(1)]) (simp add: honest_answer_def, rule goes_seq [OF reset run])
  show ?thesis
    unfolding withVerifiedConnection_def
    by (rule goes_connected [OF assms(1)], rule goes_catching) (simp add: exclusive)
qed

section \<open>Records and blobs\<close>

text \<open>The journal \<open>j\<close> is stored, the blob holds \<open>bs\<close>, and the log is \<open>L\<close>.\<close>

definition at :: "rec_manager \<Rightarrow> recording_journal \<Rightarrow> jsstring \<times> jsstring \<Rightarrow> bytes \<Rightarrow> rec_event list \<Rightarrow> rec_world \<Rightarrow> bool" where
  "at m j f bs L w \<longleftrightarrow>
     journal_of m w (rj_operationId j) = Some j \<and> file_content (rw_files w) f = bs \<and> rw_log w = L"

lemma timeless_at [simp]: "timeless (at m j f bs L)"
  by (simp add: timeless_def at_def journal_of_def)

lemma journal_wf: "journal_of m w i = Some j \<Longrightarrow> recording_journal_wf j"
  by (auto simp: journal_of_def recording_store.stored_eq intro: recordingJournal_wf)

lemma goes_wf: "(recording_journal_wf j \<Longrightarrow> goes m sc (at m j f bs L) prog Q) \<Longrightarrow> goes m sc (at m j f bs L) prog Q"
  by (cases "recording_journal_wf j") (auto simp: goes_def triple_def at_def dest: journal_wf)

lemma goes_db_write:
  assumes "timeless P" and "\<And>w. P w \<Longrightarrow> \<exists>x db. q idb_ok (rw_db w) = (Inr x, db) \<and> R x (w\<lparr>rw_db := db\<rparr>)"
  shows "goes m sc P (db_write q) R"
  unfolding db_write_def
proof (rule goes_tick [OF assms(1)], rule goesI)
  fix a w
  assume a: "honest_answer m sc a" and w: "P w" "honest m sc w"
  from assms(2) [OF w(1)] obtain x db where "q idb_ok (rw_db w) = (Inr x, db)" "R x (w\<lparr>rw_db := db\<rparr>)" by blast
  with a w(2) show "\<exists>x w'. (case q (an_idb a) (rw_db w) of (r, db) \<Rightarrow> (Some (storage_failure r), w\<lparr>rw_db := db\<rparr>)) =
      (Some (Inr x), w') \<and> R x w' \<and> honest m sc w'"
    by (simp add: honest_answer_def honest_def)
qed

lemma goes_db_read:
  assumes "timeless P" and "\<And>w. P w \<Longrightarrow> q idb_ok (rw_db w) = Inr x" and "goes m sc P (f x) Q"
  shows "goes m sc P (seq (db_read q) f) Q"
proof (rule goes_seq)
  show "goes m sc P (db_read q) (\<lambda>y w. P w \<and> y = x)"
    unfolding db_read_def
  proof (rule goes_tick [OF assms(1)], rule goesI)
    fix a w
    assume "honest_answer m sc a" "P w" "honest m sc w"
    then show "\<exists>y w'. (Some (storage_failure (q (an_idb a) (rw_db w))), w) = (Some (Inr y), w') \<and>
        (P w' \<and> y = x) \<and> honest m sc w'"
      using assms(2) by (simp add: honest_answer_def)
  qed
qed (rule goes_fact, use assms(3) in simp)

lemma goes_file_op:
  assumes "timeless P" and "\<And>w. P w \<Longrightarrow> \<exists>x fs. q opfs_ok (rw_files w) = (Inr x, fs) \<and> R x (w\<lparr>rw_files := fs\<rparr>)"
  shows "goes m sc P (file_op q) R"
  unfolding file_op_def
proof (rule goes_tick [OF assms(1)], rule goesI)
  fix a w
  assume a: "honest_answer m sc a" and w: "P w" "honest m sc w"
  from assms(2) [OF w(1)] obtain x fs where "q opfs_ok (rw_files w) = (Inr x, fs)" "R x (w\<lparr>rw_files := fs\<rparr>)" by blast
  with a w(2) show "\<exists>x w'. (case q (an_opfs a) (rw_files w) of (r, fs) \<Rightarrow> (Some (storage_failure r), w\<lparr>rw_files := fs\<rparr>)) =
      (Some (Inr x), w') \<and> R x w' \<and> honest m sc w'"
    by (simp add: honest_answer_def honest_def)
qed

text \<open>A journal is replaced by a later one, or a first one is stored.\<close>

lemma store_replaces:
  assumes "journal_of m w (rj_operationId j) = Some j" and "recording_journal_wf n" and "recording_replaces j n = Inr ()"
  shows "\<exists>db. saveRecordingJournal (rm_prefix m) idb_ok (rw_db w) (recording_journal_value n) = (Inr (), db)"
proof -
  from assms(1) obtain k v where k: "storage_key (rm_prefix m) (rj_operationId j) = Inr k"
    "map_of (rw_db w Sn_recording_journals) k = Some v" "recordingJournal v = Inr j"
    by (auto simp: journal_of_def recording_store.stored_eq)
  have "rj_operationId n = rj_operationId j"
    using assms(3) by (auto simp: recording_replaces_def rbind_eq_Inr)
  with k assms(3) recordingJournal_value [OF assms(2)] show ?thesis
    using recording_store.enc_cloneable [of n]
    by (simp add: saveRecordingJournal_def saveMonotonicJournal_Inr idb_ok_def)
qed

lemma store_starts:
  assumes "loadRecordingJournal (rm_prefix m) idb_ok (rw_db w) (rj_operationId n) = Inr None"
    and "recording_journal_wf n" and "rj_phase n = Rp_prepared"
  shows "\<exists>db. saveRecordingJournal (rm_prefix m) idb_ok (rw_db w) (recording_journal_value n) = (Inr (), db)"
proof -
  from assms(1) obtain k where k: "storage_key (rm_prefix m) (rj_operationId n) = Inr k"
    "map_of (rw_db w Sn_recording_journals) k = None"
    by (auto simp: loadRecordingJournal_def rbind_eq_Inr idb_get_Inr split: option.splits if_splits)
  with assms(3) recordingJournal_value [OF assms(2)] show ?thesis
    using recording_store.enc_cloneable [of n]
    by (simp add: saveRecordingJournal_def saveMonotonicJournal_Inr idb_ok_def recording_starts_def ensure_def)
qed

lemma goes_store:
  assumes "timeless P" and "\<And>w. P w \<Longrightarrow> file_content (rw_files w) f = bs \<and> rw_log w = L"
    and "\<And>w. P w \<Longrightarrow> \<exists>db. saveRecordingJournal (rm_prefix m) idb_ok (rw_db w) (recording_journal_value n) = (Inr (), db)"
  shows "goes m sc P (store_journal m n) (\<lambda>_. at m n f bs L)"
  unfolding store_journal_def
proof (rule goes_db_write [OF assms(1)])
  fix w
  assume w: "P w"
  from assms(3) [OF this] obtain db where
    s: "saveRecordingJournal (rm_prefix m) idb_ok (rw_db w) (recording_journal_value n) = (Inr (), db)" by blast
  with stored_save [OF s] assms(2) [OF w]
  show "\<exists>x db. saveRecordingJournal (rm_prefix m) idb_ok (rw_db w) (recording_journal_value n) = (Inr x, db) \<and>
      at m n f bs L (w\<lparr>rw_db := db\<rparr>)"
    by (simp add: at_def journal_of_def)
qed

definition may_follow :: "recording_journal \<Rightarrow> journal_update \<Rightarrow> bool" where
  "may_follow j u \<longleftrightarrow> (\<forall>now. valid_count now \<longrightarrow>
     recording_journal_wf (next_journal j u now) \<and> recording_replaces j (next_journal j u now) = Inr ())"

lemma goes_save:
  assumes "rm_storage m" and "may_follow j u"
    and "\<And>now. goes m sc (at m (next_journal j u now) f bs L) (g (next_journal j u now)) Q"
  shows "goes m sc (at m j f bs L) (seq (saveJournal m j u) g) Q"
  unfolding saveJournal_def seq_assoc
proof (rule goes_observe)
  fix a
  assume "honest_answer m sc a"
  then have "valid_count (an_now a)" by (simp add: honest_answer_def)
  with assms(2) have n: "recording_journal_wf (next_journal j u (an_now a))"
    "recording_replaces j (next_journal j u (an_now a)) = Inr ()"
    by (auto simp: may_follow_def)
  have "goes m sc (at m j f bs L) (store_journal m (next_journal j u (an_now a)))
      (\<lambda>_. at m (next_journal j u (an_now a)) f bs L)"
    by (rule goes_store) (auto simp: at_def intro: store_replaces n)
  then show "goes m sc (at m j f bs L) (seq (let next = next_journal j u (an_now a) in
      seq (requireStorage m) (\<lambda>_. seq (store_journal m next) (\<lambda>_. ret next))) g) Q"
    using assms(1,3) by (simp add: Let_def requireStorage_def seq_assoc goes_seq)
qed simp

lemma journal_of_files [simp]: "journal_of m (w\<lparr>rw_files := fs\<rparr>) i = journal_of m w i"
  by (simp add: journal_of_def)

lemma at_files: "file_content fs f = bs' \<Longrightarrow> at m j f bs L w \<Longrightarrow> at m j f bs' L (w\<lparr>rw_files := fs\<rparr>)"
  by (simp add: at_def journal_of_def)

lemma goes_size:
  assumes "int (length bs) \<le> max_safe_integer" and "goes m sc (at m j f bs L) (g (int (length bs))) Q"
  shows "goes m sc (at m j f bs L) (seq (blob_size_now f) g) Q"
proof (rule goes_seq)
  show "goes m sc (at m j f bs L) (blob_size_now f) (\<lambda>n w. at m j f bs L w \<and> n = int (length bs))"
    unfolding blob_size_now_def
  proof (rule goes_file_op)
    fix w
    assume w: "at m j f bs L w"
    with size_ok [of "rw_files w" f] assms(1) obtain fs where
      "blob_size opfs_ok f (rw_files w) = (Inr (int (length bs)), fs)" "file_content fs = file_content (rw_files w)"
      by (auto simp: at_def)
    with w show "\<exists>x fs. blob_size opfs_ok f (rw_files w) = (Inr x, fs) \<and>
        at m j f bs L (w\<lparr>rw_files := fs\<rparr>) \<and> x = int (length bs)"
      by (auto intro: at_files simp: at_def)
  qed simp
qed (rule goes_fact, use assms(2) in simp)

lemma goes_read:
  assumes "0 \<le> o'" and "1 \<le> n" and "o' + n \<le> int (length bs)" and "int (length bs) \<le> max_safe_integer"
    and "goes m sc (at m j f bs L) (g (slice bs (o', n))) Q"
  shows "goes m sc (at m j f bs L) (seq (file_op (\<lambda>env. blob_read env f (JInt o') (JInt n))) g) Q"
proof (rule goes_seq)
  show "goes m sc (at m j f bs L) (file_op (\<lambda>env. blob_read env f (JInt o') (JInt n)))
      (\<lambda>x w. at m j f bs L w \<and> x = slice bs (o', n))"
  proof (rule goes_file_op)
    fix w
    assume w: "at m j f bs L w"
    then have bs: "file_content (rw_files w) f = bs" by (simp add: at_def)
    from read_ok [of o' n "rw_files w" f] assms(1-4) obtain fs where
      "blob_read opfs_ok f (JInt o') (JInt n) (rw_files w) = (Inr (slice bs (o', n)), fs)"
      "file_content fs = file_content (rw_files w)"
      unfolding bs by blast
    with w show "\<exists>x fs. blob_read opfs_ok f (JInt o') (JInt n) (rw_files w) = (Inr x, fs) \<and>
        at m j f bs L (w\<lparr>rw_files := fs\<rparr>) \<and> x = slice bs (o', n)"
      by (auto intro: at_files simp: at_def)
  qed simp
qed (rule goes_fact, use assms(5) in simp)

text \<open>The two steps of a mutation that is permitted.\<close>

lemma goes_mutate:
  assumes "request = Inr job"
    and "\<And>w. at m j f bs L w \<Longrightarrow> \<exists>r fs. mutation_check opfs_ok f job (rw_files w) = (r, fs)
           \<and> file_content fs = file_content (rw_files w)
           \<and> (r = Inl (Inr ()) \<and> bs' = bs
              \<or> r = Inr () \<and> (\<forall>fs. file_content fs f = bs \<longrightarrow>
                   (\<exists>fs'. mutation_commit opfs_ok f job fs = (Inr (), fs') \<and> file_content fs' f = bs')))"
    and "goes m sc (at m j f bs' L) (g ()) Q"
  shows "goes m sc (at m j f bs L) (seq (mutate_blob f request) g) Q"
proof (rule goes_seq)
  let ?check = "\<lambda>env fs. case mutation_check env f job fs of (r, fs1) \<Rightarrow> (Inr r, fs1)"
  have check: "goes m sc (at m j f bs L) (file_op ?check)
      (\<lambda>r w. at m j f bs L w \<and> (r = Inl (Inr ()) \<and> bs' = bs \<or> r = Inr ()
        \<and> (\<forall>fs. file_content fs f = bs \<longrightarrow>
             (\<exists>fs'. mutation_commit opfs_ok f job fs = (Inr (), fs') \<and> file_content fs' f = bs'))))"
  proof (rule goes_file_op)
    fix w
    assume w: "at m j f bs L w"
    from assms(2) [OF w] obtain r fs where r: "mutation_check opfs_ok f job (rw_files w) = (r, fs)"
      "file_content fs = file_content (rw_files w)"
      "r = Inl (Inr ()) \<and> bs' = bs \<or> r = Inr () \<and> (\<forall>fs. file_content fs f = bs \<longrightarrow>
         (\<exists>fs'. mutation_commit opfs_ok f job fs = (Inr (), fs') \<and> file_content fs' f = bs'))" by blast
    from w r(2) have "at m j f bs L (w\<lparr>rw_files := fs\<rparr>)" by (auto intro: at_files simp: at_def)
    with r show "\<exists>x fs. ?check opfs_ok (rw_files w) = (Inr x, fs) \<and> at m j f bs L (w\<lparr>rw_files := fs\<rparr>)
        \<and> (x = Inl (Inr ()) \<and> bs' = bs \<or> x = Inr () \<and> (\<forall>fs. file_content fs f = bs \<longrightarrow>
             (\<exists>fs'. mutation_commit opfs_ok f job fs = (Inr (), fs') \<and> file_content fs' f = bs')))"
      by (intro exI [of _ r] exI [of _ fs]) simp
  qed simp
  have commit: "goes m sc (at m j f bs L) (file_op (\<lambda>env. mutation_commit env f job)) (\<lambda>_. at m j f bs' L)"
    if "\<forall>fs. file_content fs f = bs \<longrightarrow>
      (\<exists>fs'. mutation_commit opfs_ok f job fs = (Inr (), fs') \<and> file_content fs' f = bs')"
  proof (rule goes_file_op)
    fix w
    assume w: "at m j f bs L w"
    with that obtain fs' where "mutation_commit opfs_ok f job (rw_files w) = (Inr (), fs')" "file_content fs' f = bs'"
      by (auto simp: at_def)
    with w show "\<exists>x fs. mutation_commit opfs_ok f job (rw_files w) = (Inr x, fs) \<and> at m j f bs' L (w\<lparr>rw_files := fs\<rparr>)"
      by (blast intro: at_files)
  qed simp
  have "goes m sc (at m j f bs L) (seq (file_op ?check) (\<lambda>r. case r of
           Inl outcome \<Rightarrow> lift_sum (storage_failure outcome)
         | Inr _ \<Rightarrow> file_op (\<lambda>env. mutation_commit env f job))) (\<lambda>_. at m j f bs' L)"
  proof (rule goes_seq [OF check], rule goes_fact, elim disjE conjE)
    fix r :: "(storage_code + unit) + unit"
    assume "r = Inl (Inr ())" "bs' = bs"
    then show "goes m sc (at m j f bs L) (case r of Inl outcome \<Rightarrow> lift_sum (storage_failure outcome)
         | Inr _ \<Rightarrow> file_op (\<lambda>env. mutation_commit env f job)) (\<lambda>_. at m j f bs' L)"
      by (intro goesI) (simp add: lift_sum_def)
  qed (simp add: commit)
  then show "goes m sc (at m j f bs L) (mutate_blob f request) (\<lambda>_. at m j f bs' L)"
    unfolding mutate_blob_def assms(1) by (intro goes_lift [where x = job]) simp_all
qed (use assms(3) in simp)

lemma goes_append:
  assumes "int (length bs) + int (length new) \<le> max_safe_integer" and "goes m sc (at m j f (bs @ new) L) (g ()) Q"
  shows "goes m sc (at m j f bs L) (seq (mutate_blob f (write_request (JInt (int (length bs))) (Some new))) g) Q"
proof (rule goes_mutate [where job = "M_write (int (length bs)) new" and bs' = "bs @ new"])
  show "write_request (JInt (int (length bs))) (Some new) = Inr (M_write (int (length bs)) new)"
    using assms(1) by (simp add: write_request_def validateOffset_def validateRange_def validateLength_def)
next
  fix w
  assume w: "at m j f bs L w"
  with size_ok [of "rw_files w" f] assms(1) obtain fs where
    fs: "blob_size opfs_ok f (rw_files w) = (Inr (int (length bs)), fs)" "file_content fs = file_content (rw_files w)"
    by (auto simp: at_def)
  have "\<exists>fs'. mutation_commit opfs_ok f (M_write (int (length bs)) new) gs = (Inr (), fs') \<and> file_content fs' f = bs @ new"
    if "file_content gs f = bs" for gs
    using withWritable_ok [of f "written (length bs) new" gs] that by (simp add: written_def resized_def)
  with fs show "\<exists>r fs. mutation_check opfs_ok f (M_write (int (length bs)) new) (rw_files w) = (r, fs)
           \<and> file_content fs = file_content (rw_files w)
           \<and> (r = Inl (Inr ()) \<and> bs @ new = bs \<or> r = Inr () \<and> (\<forall>fs. file_content fs f = bs \<longrightarrow>
                   (\<exists>fs'. mutation_commit opfs_ok f (M_write (int (length bs)) new) fs = (Inr (), fs')
                      \<and> file_content fs' f = bs @ new)))"
    by simp
qed (rule assms(2))

lemma goes_empty:
  assumes "int (length bs) \<le> max_safe_integer" and "goes m sc (at m j f [] L) (g ()) Q"
  shows "goes m sc (at m j f bs L) (seq (mutate_blob f (truncate_request (JInt 0))) g) Q"
proof (rule goes_mutate [where job = "M_truncate 0" and bs' = "[]"])
  show "truncate_request (JInt 0) = Inr (M_truncate 0)"
    by (simp add: truncate_request_def validateOffset_def validateLength_def max_safe_integer_def)
next
  fix w
  assume w: "at m j f bs L w"
  with size_ok [of "rw_files w" f] assms(1) obtain fs where
    fs: "blob_size opfs_ok f (rw_files w) = (Inr (int (length bs)), fs)" "file_content fs = file_content (rw_files w)"
    by (auto simp: at_def)
  have "\<exists>fs'. mutation_commit opfs_ok f (M_truncate 0) gs = (Inr (), fs') \<and> file_content fs' f = []" for gs
    using withWritable_ok [of f "resized 0" gs] by (simp add: resized_def)
  with fs show "\<exists>r fs. mutation_check opfs_ok f (M_truncate 0) (rw_files w) = (r, fs)
           \<and> file_content fs = file_content (rw_files w)
           \<and> (r = Inl (Inr ()) \<and> [] = bs \<or> r = Inr () \<and> (\<forall>fs. file_content fs f = bs \<longrightarrow>
                   (\<exists>fs'. mutation_commit opfs_ok f (M_truncate 0) fs = (Inr (), fs') \<and> file_content fs' f = [])))"
    by simp
qed (rule assms(2))

section \<open>Confirming and cleaning up\<close>

text \<open>
  Nothing of the operation is left: no record under its key among the journals and the workflow
  checkpoints, and no file; and the log is \<open>L\<close>.
\<close>

definition record_kept :: "rec_manager \<Rightarrow> jsstring \<Rightarrow> store_name \<Rightarrow> rec_world \<Rightarrow> jsval option" where
  "record_kept m i s w =
     (case storage_key (rm_prefix m) i of Inl _ \<Rightarrow> None | Inr k \<Rightarrow> map_of (rw_db w s) k)"

lemma record_kept_simps [simp]:
  "record_kept m i s (w\<lparr>rw_time := t\<rparr>) = record_kept m i s w"
  "record_kept m i s (w\<lparr>rw_direct := d\<rparr>) = record_kept m i s w"
  "record_kept m i s (w\<lparr>rw_time := t, rw_direct := d\<rparr>) = record_kept m i s w"
  "record_kept m i s (w\<lparr>rw_active := a\<rparr>) = record_kept m i s w"
  by (auto simp: record_kept_def split: sum.split)

definition cleared :: "rec_manager \<Rightarrow> jsstring \<Rightarrow> jsstring \<times> jsstring \<Rightarrow> rec_event list \<Rightarrow> rec_world \<Rightarrow> bool" where
  "cleared m i f L w \<longleftrightarrow> journal_of m w i = None
     \<and> record_kept m i Sn_recording_journals w = None \<and> record_kept m i Sn_workflow_checkpoints w = None
     \<and> rw_files w f = None \<and> rw_log w = L"

definition result_of :: "recording_journal \<Rightarrow> jsstring \<Rightarrow> rec_result" where
  "result_of j c = \<lparr>rr_operationId = rj_operationId j, rr_recordingUuid = rj_recordingUuid j,
     rr_profile = rj_profile j, rr_cloudCompletionId = c\<rparr>"

lemma result_next [simp]: "result_of (next_journal j u now) c = result_of j c"
  by (simp add: result_of_def)

lemma wf_key: "recording_journal_wf j \<Longrightarrow> \<exists>k. storage_key p (rj_operationId j) = Inr k"
  by (simp add: storage_key_Inr_iff recording_journal_wf_def valid_id_def)

lemma delete_ok: "storage_key p i = Inr k \<Longrightarrow> idb_delete p idb_ok db s i = (Inr (), db(s := os_delete k (db s)))"
  by (simp add: idb_delete_def idb_transaction_def idb_ok_def)

lemma at_other_store:
  assumes "s \<noteq> Sn_recording_journals"
  shows "at m j f bs L (w\<lparr>rw_db := (rw_db w)(s := x)\<rparr>) = at m j f bs L w"
proof -
  have "journal_of m (w\<lparr>rw_db := (rw_db w)(s := x)\<rparr>) i = journal_of m w i" for i
    unfolding journal_of_def by (rule stored_other) (use assms in simp)
  then show ?thesis by (simp add: at_def)
qed

text \<open>The blob removed, then the checkpoint of the core.\<close>

abbreviation unfiled :: "rec_manager \<Rightarrow> recording_journal \<Rightarrow> jsstring \<times> jsstring \<Rightarrow> rec_event list \<Rightarrow> rec_world \<Rightarrow> bool" where
  "unfiled m j f L w \<equiv> at m j f [] L w \<and> rw_files w f = None"

abbreviation uncheckpointed :: "rec_manager \<Rightarrow> recording_journal \<Rightarrow> jsstring \<times> jsstring \<Rightarrow> rec_event list \<Rightarrow> rec_world \<Rightarrow> bool" where
  "uncheckpointed m j f L w \<equiv> unfiled m j f L w \<and> record_kept m (rj_operationId j) Sn_workflow_checkpoints w = None"

lemma timeless_cleanup [simp]: "timeless (unfiled m j f L)" "timeless (uncheckpointed m j f L)"
  by (simp_all add: timeless_def at_def journal_of_def)

lemma goes_delete_blob: "goes m sc (at m j f bs L) (delete_blob f) (\<lambda>_. unfiled m j f L)"
proof -
  have check: "goes m sc (at m j f bs L) (file_op (\<lambda>env fs. case mutation_check env f M_delete fs of (r, fs1) \<Rightarrow> (Inr r, fs1)))
      (\<lambda>r w. at m j f bs L w \<and> r = Inr ())"
    by (rule goes_file_op) (auto intro: at_files simp: at_def)
  have commit: "goes m sc (at m j f bs L) (file_op (\<lambda>env. mutation_commit env f M_delete)) (\<lambda>_. unfiled m j f L)"
  proof (rule goes_file_op)
    fix w
    assume w: "at m j f bs L w"
    have "\<exists>fs'. mutation_commit opfs_ok f M_delete fs = (Inr (), fs') \<and> fs' f = None" for fs
      by (cases "fs f") (simp_all add: removal_failure_def not_found_error_def domExceptionName_def js_object_def opfs_ok_def)
    then obtain fs' where "mutation_commit opfs_ok f M_delete (rw_files w) = (Inr (), fs')" "fs' f = None" by blast
    with w show "\<exists>x fs. mutation_commit opfs_ok f M_delete (rw_files w) = (Inr x, fs) \<and> unfiled m j f L (w\<lparr>rw_files := fs\<rparr>)"
      by (auto intro!: at_files [where bs = bs] simp: file_content_def)
  qed simp
  show ?thesis
    unfolding delete_blob_def mutate_blob_def
    by (rule goes_lift [where x = M_delete], simp, rule goes_seq [OF check], rule goes_fact) (simp add: commit)
qed

lemma goes_checkpoint_deleted:
  "goes m sc (\<lambda>w. at m j f bs L w \<and> R (rw_files w)) (delete_checkpoint_of m (rj_operationId j))
     (\<lambda>_ w. (at m j f bs L w \<and> R (rw_files w)) \<and> record_kept m (rj_operationId j) Sn_workflow_checkpoints w = None)"
proof (cases "recording_journal_wf j")
  case False
  then show ?thesis by (auto simp: goes_def triple_def at_def dest: journal_wf)
next
  case True
  then obtain k where k: "storage_key (rm_prefix m) (rj_operationId j) = Inr k" using wf_key by blast
  have "timeless (\<lambda>w. at m j f bs L w \<and> R (rw_files w))"
    by (simp add: timeless_def at_def journal_of_def)
  then show ?thesis
    unfolding delete_checkpoint_of_def
    by (rule goes_db_write)
      (simp add: deleteWorkflowCheckpoint_def delete_ok [OF k] at_other_store record_kept_def k map_of_os_delete)
qed

lemma goes_delete_checkpoint:
  assumes "goes m sc (at m j f bs L) (g ()) Q"
  shows "goes m sc (at m j f bs L) (seq (delete_checkpoint_of m (rj_operationId j)) g) Q"
proof (rule goes_seq)
  show "goes m sc (at m j f bs L) (delete_checkpoint_of m (rj_operationId j)) (\<lambda>_. at m j f bs L)"
    by (rule goes_pre [OF goes_post [OF goes_checkpoint_deleted [where R = "\<lambda>_. True"]]]) simp_all
qed (use assms in simp)

lemma goes_delete_journal:
  "goes m sc (uncheckpointed m j f L) (delete_journal_of m (rj_operationId j)) (\<lambda>_. cleared m (rj_operationId j) f L)"
proof (cases "recording_journal_wf j")
  case False
  then show ?thesis by (auto simp: goes_def triple_def at_def dest: journal_wf)
next
  case True
  then obtain k where k: "storage_key (rm_prefix m) (rj_operationId j) = Inr k" using wf_key by blast
  show ?thesis
    unfolding delete_journal_of_def
  proof (rule goes_db_write)
    fix w
    assume "uncheckpointed m j f L w"
    moreover have "journal_of m (w\<lparr>rw_db := (rw_db w)(Sn_recording_journals := os_delete k (rw_db w Sn_recording_journals))\<rparr>)
        (rj_operationId j) \<noteq> Some n" for n
      using k by (simp add: journal_of_def recording_store.stored_eq map_of_os_delete)
    ultimately show "\<exists>x db. deleteRecordingJournal (rm_prefix m) idb_ok (rw_db w) (rj_operationId j) = (Inr x, db) \<and>
        cleared m (rj_operationId j) f L (w\<lparr>rw_db := db\<rparr>)"
      by (auto simp: deleteRecordingJournal_def delete_ok [OF k] at_def cleared_def record_kept_def k map_of_os_delete)
  qed (rule timeless_cleanup)
qed

lemma goes_open:
  assumes "rj_sinkId j = sinkId (rj_operationId j)" and "sink_file m (rj_operationId j) = Inr f"
    and "goes m sc (at m j f bs L) (g f) Q"
  shows "goes m sc (at m j f bs L) (seq (open_sink m (rj_sinkId j)) g) Q"
  unfolding open_sink_def by (rule goes_lift [where x = f]) (use assms in \<open>simp_all add: sink_file_def\<close>)

text \<open>What an operation is known to be about, besides its phase.\<close>

definition belongs :: "rec_manager \<Rightarrow> scene \<Rightarrow> recording_journal \<Rightarrow> jsstring \<times> jsstring \<Rightarrow> bool" where
  "belongs m sc j f \<longleftrightarrow>
     rj_profile j = Profile_legacy \<and> rj_sinkId j = sinkId (rj_operationId j) \<and> sink_file m (rj_operationId j) = Inr f
     \<and> rj_operationId j = sc_operation sc \<and> rj_serialNumber j = sc_serial sc
     \<and> rj_recordingUuid j = dr_uuid (sc_recording sc)"

lemma belongs_next [simp]: "belongs m sc (next_journal j u now) f = belongs m sc j f"
  by (simp add: belongs_def)

lemma goes_finish:
  assumes "rm_storage m" and "belongs m sc j f" and "rj_phase j = Rp_confirmed" and "rj_cloudCompletionId j = Some c" and "c \<noteq> []"
  shows "goes m sc (at m j f bs L) (finishConfirmedJournal m j)
     (\<lambda>r w. r = result_of j c \<and> cleared m (rj_operationId j) f L w)"
proof -
  have last: "goes m sc (uncheckpointed m j f L) (seq (delete_journal_of m (rj_operationId j)) (\<lambda>_. resultFromJournal j))
      (\<lambda>r w. r = result_of j c \<and> cleared m (rj_operationId j) f L w)"
    by (rule goes_seq [OF goes_delete_journal])
      (use assms in \<open>auto simp: resultFromJournal_def no_id_def result_of_def intro!: goes_ret\<close>)
  have "goes m sc (at m j f bs L) (seq (open_sink m (rj_sinkId j)) (\<lambda>f. seq (delete_blob f) (\<lambda>_.
      seq (delete_checkpoint_of m (rj_operationId j)) (\<lambda>_.
        seq (delete_journal_of m (rj_operationId j)) (\<lambda>_. resultFromJournal j)))))
     (\<lambda>r w. r = result_of j c \<and> cleared m (rj_operationId j) f L w)"
    using assms(2)
    by (intro goes_open goes_seq [OF goes_delete_blob] goes_seq [OF goes_checkpoint_deleted] last) (auto simp: belongs_def)
  then show ?thesis
    using assms by (simp add: finishConfirmedJournal_def no_id_def requireStorage_def belongs_def)
qed

lemma goes_logged:
  assumes "goes m sc (at m j f bs (L @ [e])) (g ()) Q"
  shows "goes m sc (at m j f bs L) (seq (logged e) g) Q"
proof (rule goes_seq)
  show "goes m sc (at m j f bs L) (logged e) (\<lambda>_. at m j f bs (L @ [e]))"
    unfolding logged_def by (rule goes_modify) (auto simp: at_def journal_of_def honest_def)
qed (use assms in simp)

lemma follow_confirmed:
  assumes "recording_journal_wf j" and "rj_profile j = Profile_legacy" and "rj_phase j = Rp_cloud_completed"
  shows "may_follow j (to_phase Rp_confirmed)"
  using assms
  by (auto simp: may_follow_def recording_journal_wf_def next_journal_def to_phase_def assertRecordingEvidence_def
      RECORDING_PHASES_def Let_def valid_count_def recording_replaces_def reconciledNotUploaded_def assertNextPhase_def
      assertNondecreasingTimestamp_def assertEstablishedEvidence_def ensure_def rbind_eq_Inr split: if_splits)

end
