(* ===== verification/RecordingCompletion.thy ===== *)
theory RecordingCompletion
  imports RecordingProgress
begin

text \<open>
  Total correctness of the routines of the recording manager in honest surroundings, from the
  upload and the transfer to a whole synchronisation or resumption, with the log each leaves.
\<close>

section \<open>Confirming\<close>

lemmas follow_defs = may_follow_def recording_journal_wf_def next_journal_def to_phase_def assertRecordingEvidence_def
  RECORDING_PHASES_def Let_def valid_count_def recording_replaces_def reconciledNotUploaded_def assertNextPhase_def
  assertNondecreasingTimestamp_def assertEstablishedEvidence_def ensure_def rbind_eq_Inr

lemma follow_uploading:
  assumes "recording_journal_wf j" and "rj_profile j = Profile_legacy" and "rj_phase j = Rp_staged" and "valid_id u"
  shows "may_follow j ((to_phase Rp_uploading)\<lparr>ju_uploadId := Some (Some u)\<rparr>)"
  using assms by (auto simp: follow_defs split: if_splits)

lemma follow_completed:
  assumes "recording_journal_wf j" and "rj_profile j = Profile_legacy" and "rj_phase j = Rp_uploading" and "valid_id c"
  shows "may_follow j ((to_phase Rp_cloud_completed)\<lparr>ju_cloudCompletionId := Some (Some c)\<rparr>)"
  using assms by (auto simp: follow_defs split: if_splits)

lemma follow_transferring:
  assumes "recording_journal_wf j" and "rj_profile j = Profile_legacy" and "rj_phase j = Rp_prepared \<or> rj_phase j = Rp_transferring"
  shows "may_follow j ((to_phase Rp_transferring)\<lparr>ju_uploadId := Some None, ju_cloudCompletionId := Some None\<rparr>)"
  using assms by (auto simp: follow_defs split: if_splits)

lemma follow_staged:
  assumes "recording_journal_wf j" and "rj_profile j = Profile_legacy" and "rj_phase j = Rp_transferring"
    and "option_all valid_digest d"
  shows "may_follow j ((to_phase Rp_staged)\<lparr>ju_devicePlaintextSha256Hex := Some d\<rparr>)"
  using assms by (auto simp: follow_defs split: if_splits)

lemma next_evidence [simp]:
  "rj_uploadId (next_journal j u now) = updated (ju_uploadId u) (rj_uploadId j)"
  by (simp add: next_journal_def)

text \<open>The operation has ended: the result names the completion, nothing is left, and the log is one of \<open>X\<close>.\<close>

definition finished :: "rec_manager \<Rightarrow> recording_journal \<Rightarrow> jsstring \<times> jsstring \<Rightarrow> jsstring \<Rightarrow> (rec_event list \<Rightarrow> bool) \<Rightarrow> rec_result \<Rightarrow> rec_world \<Rightarrow> bool" where
  "finished m j f c X r w \<longleftrightarrow> r = result_of j c \<and> (\<exists>log. X log \<and> cleared m (rj_operationId j) f log w)"

definition confirm_of :: "recording_journal \<Rightarrow> rec_event" where
  "confirm_of j = Ev_confirm (rj_serialNumber j) (rj_recordingUuid j)"

text \<open>The log of a whole upload, from the request to the word to the device.\<close>

definition uploaded_log :: "rec_event list \<Rightarrow> recording_journal \<Rightarrow> jsstring \<Rightarrow> jsstring \<Rightarrow> rec_event list \<Rightarrow> bool" where
  "uploaded_log L j u c log \<longleftrightarrow> (\<exists>cx sent complete. log = L @ [Ev_put (rj_operationId j) u sent complete,
     Ev_accepted (rj_operationId j) u, Ev_completed cx u c, confirm_of j])"

lemma finished_next [simp]:
  "finished m (next_journal j u now) f c X = finished m j f c X" "confirm_of (next_journal j u now) = confirm_of j"
  "uploaded_log L (next_journal j u now) up c = uploaded_log L j up c"
  by (simp_all add: finished_def confirm_of_def uploaded_log_def fun_eq_iff)

lemma goes_weak: "goes m sc P prog (finished m j f c X) \<Longrightarrow> (\<And>log. X log \<Longrightarrow> Y log) \<Longrightarrow> goes m sc P prog (finished m j f c Y)"
  by (erule goes_post) (auto simp: finished_def)

lemma goes_confirm:
  assumes hm: "honest_manager m sc" and j: "belongs m sc j f" "rj_phase j = Rp_cloud_completed"
    "rj_cloudCompletionId j = Some c" "c \<noteq> []"
  shows "goes m sc (at m j f bs L) (confirmJournal m j) (finished m j f c ((=) (L @ [confirm_of j])))"
proof (rule goes_wf)
  assume wf: "recording_journal_wf j"
  let ?e = "Ev_confirm (rj_serialNumber j) (rj_recordingUuid j)"
  have finish: "goes m sc (at m (next_journal j (to_phase Rp_confirmed) now) f bs (L @ [?e]))
      (finishConfirmedJournal m (next_journal j (to_phase Rp_confirmed) now)) (finished m j f c ((=) (L @ [confirm_of j])))" for now
    by (rule goes_post [OF goes_finish [where c = c]])
      (use hm j in \<open>auto simp: honest_manager_def finished_def confirm_of_def\<close>)
  have save: "goes m sc (at m j f bs (L @ [?e]))
      (seq (saveJournal m j (to_phase Rp_confirmed)) (finishConfirmedJournal m)) (finished m j f c ((=) (L @ [confirm_of j])))"
    by (rule goes_save) (use hm wf j finish in \<open>auto simp: honest_manager_def belongs_def intro: follow_confirmed\<close>)
  have written: "goes m sc (at m j f bs (L @ [?e])) (seq tick (\<lambda>a. case an_io a of Some e \<Rightarrow> raise e
      | None \<Rightarrow> seq (saveJournal m j (to_phase Rp_confirmed)) (finishConfirmedJournal m))) (finished m j f c ((=) (L @ [confirm_of j])))"
    by (rule goes_tick) (simp_all add: honest_answer_def save)
  obtain command where command: "rm_confirmCommand m (rj_recordingUuid j) = Inr command"
    using hm j(1) by (auto simp: honest_manager_def belongs_def)
  have body: "goes m sc (at m j f bs L)
      (seq (throwIfAborted (combineSignals True) Op_upload) (\<lambda>_.
         seq (lift_sum (rm_confirmCommand m (rj_recordingUuid j))) (\<lambda>_.
           seq (logged ?e) (\<lambda>_. seq tick (\<lambda>a. case an_io a of Some e \<Rightarrow> raise e
             | None \<Rightarrow> seq (saveJournal m j (to_phase Rp_confirmed)) (finishConfirmedJournal m))))))
      (finished m j f c ((=) (L @ [confirm_of j])))"
    by (intro goes_check silent_signals goes_lift [OF command] goes_logged written)
  have no: "\<not> no_id (Some c)" using j(4) by (simp add: no_id_def)
  have serial: "sc_serial sc = rj_serialNumber j" using j(1) by (simp add: belongs_def)
  have verified: "goes m sc (at m j f bs L) (case (sc_device sc, sc_serial sc) of (device, serialNumber) \<Rightarrow>
      if serialNumber \<noteq> rj_serialNumber j then reject Sdk_identity_mismatch Op_upload
      else seq (throwIfAborted (combineSignals True) Op_upload) (\<lambda>_.
                seq (lift_sum (rm_confirmCommand m (rj_recordingUuid j))) (\<lambda>_.
                  seq (logged (Ev_confirm serialNumber (rj_recordingUuid j))) (\<lambda>_.
                    seq tick (\<lambda>a. case an_io a of
                      Some e \<Rightarrow> raise e
                    | None \<Rightarrow>
                        seq (saveJournal m j (to_phase Rp_confirmed)) (\<lambda>confirmed.
                          finishConfirmedJournal m confirmed)))))) (finished m j f c ((=) (L @ [confirm_of j])))"
    using body serial by simp
  have legacy: "rj_profile j = Profile_legacy" using j(1) by (simp add: belongs_def)
  have "goes m sc (at m j f bs L) (seq (throwIfAborted operation_signal Op_upload) (\<lambda>_.
      withVerifiedConnection True Op_upload (\<lambda>(device, serialNumber).
            if serialNumber \<noteq> rj_serialNumber j then reject Sdk_identity_mismatch Op_upload
            else
              seq (throwIfAborted (combineSignals True) Op_upload) (\<lambda>_.
                seq (lift_sum (rm_confirmCommand m (rj_recordingUuid j))) (\<lambda>_.
                  seq (logged (Ev_confirm serialNumber (rj_recordingUuid j))) (\<lambda>_.
                    seq tick (\<lambda>a. case an_io a of
                      Some e \<Rightarrow> raise e
                    | None \<Rightarrow>
                        seq (saveJournal m j (to_phase Rp_confirmed)) (\<lambda>confirmed.
                          finishConfirmedJournal m confirmed))))))) ) (finished m j f c ((=) (L @ [confirm_of j])))"
    by (intro goes_check silent_signals goes_verified timeless_at verified)
  then show "goes m sc (at m j f bs L) (confirmJournal m j) (finished m j f c ((=) (L @ [confirm_of j])))"
    unfolding confirmJournal_def by (simp add: legacy j(2,3) no)
qed

section \<open>Uploading\<close>

lemma goes_note:
  assumes "int (length chunk) + s \<le> max_safe_integer" and "0 \<le> s"
    and "goes m sc (at m j f bs L) (g (s + int (length chunk), c @ chunk)) Q"
  shows "goes m sc (at m j f bs L) (seq (note_chunk chunk (s, c)) g) Q"
  unfolding note_chunk_def prod.case seq_assoc
  by (rule goes_check, simp, rule goes_lift [where x = "s + int (length chunk)"])
    (use assms in \<open>simp_all add: safeBrowserRange_def safeBrowserNumber_def\<close>)

lemma goes_collect:
  assumes "list_all (\<lambda>(o', n). 0 \<le> o' \<and> 1 \<le> n \<and> o' + n \<le> int (length bs)) rs" and "int (length bs) \<le> max_safe_integer"
    and "0 \<le> s" and "s + int (length (concat (map (slice bs) rs))) \<le> max_safe_integer"
    and "goes m sc (at m j f bs L) (g (s + int (length (concat (map (slice bs) rs))), c @ concat (map (slice bs) rs))) Q"
  shows "goes m sc (at m j f bs L) (seq (stream_loop f note_chunk rs (s, c)) g) Q"
  using assms
proof (induction rs arbitrary: s c)
  case Nil
  then show ?case by simp
next
  case (Cons x rs)
  obtain o' n where x: "x = (o', n)" by fastforce
  have more: "goes m sc (at m j f bs L) (seq (stream_loop f note_chunk rs (s + int (length (slice bs x)), c @ slice bs x)) g) Q"
    by (rule Cons.IH) (use Cons.prems in \<open>simp_all add: algebra_simps\<close>)
  show ?case
    unfolding x stream_loop.simps seq_assoc
    by (rule goes_read; (rule goes_note)?) (use Cons.prems more in \<open>auto simp: x\<close>)
qed

lemma goes_context:
  assumes "honest_manager m sc" and "int (length bs) \<le> max_safe_integer"
    and "\<And>cx. goes m sc (at m j f bs L) (g cx) Q"
  shows "goes m sc (at m j f bs L) (seq (legacyContext m j recording f) g) Q"
proof -
  obtain d where d: "rm_sha256 m (map unat bs) = Inr d" using assms(1) by (auto simp: honest_manager_def)
  let ?rs = "stream_reads OPFS_STREAM_CHUNK_SIZE (int (length bs)) 0"
  let ?after = "\<lambda>(streamedSize, digested). seq (blob_size_now f) (\<lambda>n.
           seq (lift_sum (safeBrowserNumber n Op_upload)) (\<lambda>reportedSize.
             if reportedSize \<noteq> streamedSize then reject Sdk_integrity_failed Op_upload
             else
               seq (lift_sum (rm_sha256 m (map unat digested))) (\<lambda>digest.
                 ret \<lparr>lc_operationId = rj_operationId j, lc_serialNumber = rj_serialNumber j,
                   lc_recording = recording, lc_sizeBytes = reportedSize,
                   lc_plaintextSha256Hex = rj_devicePlaintextSha256Hex j,
                   lc_stagedBodySha256Hex = hex digest, lc_encrypted = dr_encrypted recording\<rparr>)))"
  have "goes m sc (at m j f bs L) (seq (?after (int (length bs), bs)) g) Q"
    unfolding prod.case seq_assoc
    by (rule goes_size [OF assms(2)], rule goes_lift [where x = "int (length bs)"])
      (use assms(2,3) in \<open>simp_all add: safeBrowserNumber_def seq_assoc goes_lift [OF d]\<close>)
  then have collected: "goes m sc (at m j f bs L) (seq (stream_loop f note_chunk ?rs (0, [])) (\<lambda>x. seq (?after x) g)) Q"
    by (intro goes_collect) (simp_all add: reads_within reads_all assms(2))
  have "goes m sc (at m j f bs L) (seq (stream_blob f note_chunk (0, [])) (\<lambda>x. seq (?after x) g)) Q"
    unfolding stream_blob_def seq_assoc by (rule goes_size [OF assms(2)]) (rule collected)
  then show ?thesis
    unfolding legacyContext_def createHasher_def seq_assoc
    by (intro goes_observe timeless_at) (simp add: honest_answer_def)
qed

lemma goes_pull_chunks:
  assumes "list_all (\<lambda>(o', n). 0 \<le> o' \<and> 1 \<le> n \<and> o' + n \<le> int (length bs)) rs" and "int (length bs) \<le> max_safe_integer"
  shows "goes m sc (at m j f bs L) (pull_chunks f rs sent) (\<lambda>_. at m j f bs L)"
  using assms
proof (induction rs arbitrary: sent)
  case Nil
  then show ?case by (simp add: goes_ret)
next
  case (Cons x rs)
  obtain o' n where x: "x = (o', n)" by fastforce
  have "goes m sc (at m j f bs L) (seq (file_op (\<lambda>env. blob_read env f (JInt o') (JInt n))) ret) (\<lambda>_. at m j f bs L)"
    by (rule goes_read; (rule goes_ret)?) (use Cons.prems in \<open>simp_all add: x\<close>)
  then have "goes m sc (at m j f bs L) (seq (throwIfAborted operation_signal Op_upload)
      (\<lambda>_. file_op (\<lambda>env. blob_read env f (JInt o') (JInt n)))) (\<lambda>_. at m j f bs L)"
    by (intro goes_check silent_signals) (rule goes_tail)
  from goes_ignoring [OF this] show ?case
    unfolding x pull_chunks.simps
  proof (rule goes_seq)
    fix r
    have "goes m sc (at m j f bs L) (pull_chunks f rs (sent @ chunk)) (\<lambda>_. at m j f bs L)" for chunk
      using Cons by simp
    then show "goes m sc (\<lambda>w. \<exists>y. r = Some y \<and> at m j f bs L w)
        (case r of None \<Rightarrow> ret (sent, False) | Some chunk \<Rightarrow> pull_chunks f rs (sent @ chunk)) (\<lambda>_. at m j f bs L)"
      by (cases r) (auto simp: goes_def triple_def)
  qed
qed

lemma goes_pull_body:
  assumes "int (length bs) \<le> max_safe_integer"
  shows "goes m sc (at m j f bs L) (pull_body f n) (\<lambda>_. at m j f bs L)"
proof -
  let ?rs = "stream_reads OPFS_STREAM_CHUNK_SIZE (int (length bs)) 0"
  have reads: "goes m sc (at m j f bs L) (pull_chunks f (take n ?rs) []) (\<lambda>_. at m j f bs L)"
    by (rule goes_pull_chunks) (use reads_within [of bs] assms in \<open>auto simp: list_all_iff dest: in_set_takeD\<close>)
  have pull: "goes m sc (at m j f bs L) (seq (pull_chunks f (take n ?rs) []) (\<lambda>(sent, complete).
      ret (sent, complete \<and> length ?rs \<le> n))) (\<lambda>_. at m j f bs L)"
    by (rule goes_seq [OF reads]) (auto intro: goes_ret split: prod.split)
  have "goes m sc (at m j f bs L) (blob_size_now f) (\<lambda>k w. at m j f bs L w \<and> k = int (length bs))"
    by (rule goes_tail, rule goes_size [OF assms], rule goes_ret) simp
  from goes_ignoring [OF this] show ?thesis
    unfolding pull_body_def
  proof (rule goes_seq)
    fix r
    show "goes m sc (\<lambda>w. \<exists>y. r = Some y \<and> at m j f bs L w \<and> y = int (length bs))
        (case r of None \<Rightarrow> ret ([], False)
         | Some x \<Rightarrow> seq (pull_chunks f (take n (stream_reads OPFS_STREAM_CHUNK_SIZE x 0)) [])
             (\<lambda>(sent, complete). ret (sent, complete \<and> length (stream_reads OPFS_STREAM_CHUNK_SIZE x 0) \<le> n)))
        (\<lambda>_. at m j f bs L)"
    proof (cases "r = Some (int (length bs))")
      case True
      then show ?thesis by (simp add: pull)
    qed (auto simp: goes_def triple_def)
  qed
qed

lemma goes_uploadBlob:
  assumes "int (length bs) \<le> max_safe_integer"
    and "\<And>sent complete. goes m sc (at m j f bs (L @ [Ev_put i u sent complete, Ev_accepted i u])) (g ()) Q"
  shows "goes m sc (at m j f bs L) (seq (uploadBlob i u f) g) Q"
  unfolding uploadBlob_def seq_assoc
proof (rule goes_check, simp, rule goes_observe [OF timeless_at], rule goes_seq [OF goes_pull_body [OF assms(1)]])
  fix x :: "bytes \<times> bool"
  obtain sent complete where x: "x = (sent, complete)" by fastforce
  have "goes m sc (at m j f bs ((L @ [Ev_put i u sent complete]) @ [Ev_accepted i u])) (g ()) Q"
    using assms(2) by simp
  then have "goes m sc (at m j f bs (L @ [Ev_put i u sent complete])) (seq (logged (Ev_accepted i u)) g) Q"
    by (rule goes_logged)
  then show "goes m sc (at m j f bs L)
      (seq (case x of (sent, complete) \<Rightarrow> seq (logged (Ev_put i u sent complete)) (\<lambda>_.
             seq (awaitWithSignal operation_signal Op_upload an_fetch) (\<lambda>accepted.
               if \<not> accepted then raise (SdkErr retryable_upload_failure)
               else logged (Ev_accepted i u)))) g) Q"
    unfolding x prod.case seq_assoc
    by (intro goes_logged goes_await silent_signals timeless_at exI [of _ True]) (simp add: honest_simps)
qed

lemma valid_provider_id: "valid_id c \<Longrightarrow> validateProviderIdentifier (JString c) = ret c"
  by (simp add: validateProviderIdentifier_def valid_id_def)

lemma goes_complete:
  assumes hm: "honest_manager m sc" and j: "belongs m sc j f" "rj_phase j = Rp_uploading"
    and bs: "int (length bs) \<le> max_safe_integer"
  shows "goes m sc (at m j f bs L) (complete_upload m cx u f j) (finished m j f (sc_cloud sc) (uploaded_log L j u (sc_cloud sc)))"
proof (rule goes_wf)
  assume wf: "recording_journal_wf j"
  let ?c = "sc_cloud sc"
  let ?u = "(to_phase Rp_cloud_completed)\<lparr>ju_cloudCompletionId := Some (Some ?c)\<rparr>"
  have c: "valid_id ?c" "rm_storage m" using hm by (simp_all add: honest_manager_def)
  have confirm: "goes m sc (at m (next_journal j ?u now) f bs K) (confirmJournal m (next_journal j ?u now))
      (finished m j f ?c ((=) (K @ [confirm_of j])))" for now K
    by (rule goes_post [OF goes_confirm [OF hm]]) (use j c in \<open>auto simp: valid_id_def\<close>)
  have follow: "may_follow j ?u" using wf j c by (auto intro: follow_completed simp: belongs_def)
  have told: "goes m sc (at m j f bs K) (seq (logged e) (\<lambda>_. seq (saveJournal m j ?u) (confirmJournal m)))
      (finished m j f ?c ((=) (K @ [e, confirm_of j])))" for e K
    by (rule goes_logged, rule goes_save [OF c(2) follow], rule goes_weak [OF confirm]) simp
  have answered: "\<exists>v. an_provider a = Inr v \<and> goes m sc (at m j f bs K)
      (seq (lift_sum (js_property v ''cloudCompletionId'')) (\<lambda>value.
         seq (validateProviderIdentifier value) (\<lambda>c. seq (logged (Ev_completed cx u c)) (\<lambda>_.
           seq (saveJournal m j ((to_phase Rp_cloud_completed)\<lparr>ju_cloudCompletionId := Some (Some c)\<rparr>)) (confirmJournal m)))))
      (finished m j f ?c ((=) (K @ [Ev_completed cx u ?c, confirm_of j])))" if "honest_answer m sc a" for a K
  proof -
    from honest_reply [OF that] obtain reply where "an_provider a = Inr reply"
      "js_property reply ''cloudCompletionId'' = Inr (JString ?c)" by (auto simp: good_reply_def)
    then show ?thesis
      by (intro exI [of _ reply] conjI goes_lift [where x = "JString ?c"]) (simp_all add: valid_provider_id c told)
  qed
  show "goes m sc (at m j f bs L) (complete_upload m cx u f j) (finished m j f ?c (uploaded_log L j u ?c))"
    unfolding complete_upload_def
    by (rule goes_catching, rule goes_uploadBlob [OF bs], rule goes_weak [OF goes_provider [OF timeless_at answered]])
      (auto simp: uploaded_log_def)
qed

lemma goes_uploadStaged:
  assumes hm: "honest_manager m sc" and j: "belongs m sc j f" "rj_phase j = Rp_staged"
    and bs: "int (length bs) \<le> max_safe_integer"
  shows "goes m sc (at m j f bs L) (uploadStaged m j recording) (finished m j f (sc_cloud sc) (uploaded_log L j (sc_upload sc) (sc_cloud sc)))"
proof (rule goes_wf)
  assume wf: "recording_journal_wf j"
  let ?u = "(to_phase Rp_uploading)\<lparr>ju_uploadId := Some (Some (sc_upload sc))\<rparr>"
  have m: "rm_storage m" "rm_provider m" "valid_id (sc_upload sc)" using hm by (simp_all add: honest_manager_def)
  have follow: "may_follow j ?u" using wf j m by (auto intro: follow_uploading simp: belongs_def)
  have rest: "goes m sc (at m j f bs L) (seq (saveJournal m j ?u) (complete_upload m cx (sc_upload sc) f))
      (finished m j f (sc_cloud sc) (uploaded_log L j (sc_upload sc) (sc_cloud sc)))" for cx
    by (rule goes_save [OF m(1) follow], rule goes_post [OF goes_complete [OF hm _ _ bs]]) (use j in simp_all)
  have answered: "\<exists>v. an_provider a = Inr v \<and> goes m sc (at m j f bs L)
      (seq (lift_sum (js_property v ''uploadId'')) (\<lambda>value.
         seq (validateProviderIdentifier value) (\<lambda>uploadId.
           seq (validateUploadRequest m (js_get v ''request'')) (\<lambda>_.
             seq (saveJournal m j ((to_phase Rp_uploading)\<lparr>ju_uploadId := Some (Some uploadId)\<rparr>)) (\<lambda>uploading.
               complete_upload m cx uploadId f uploading))))) (finished m j f (sc_cloud sc) (uploaded_log L j (sc_upload sc) (sc_cloud sc)))"
    if "honest_answer m sc a" for a cx
  proof -
    from honest_reply [OF that] obtain reply url where r: "an_provider a = Inr reply"
      "js_property reply ''uploadId'' = Inr (JString (sc_upload sc))"
      "validateUploadRequest m (js_get reply ''request'') = ret url" by (auto simp: good_reply_def)
    show ?thesis
      by (intro exI [of _ reply] conjI r(1) goes_lift [OF r(2)]) (simp add: valid_provider_id m r(3) rest)
  qed
  have called: "goes m sc (at m j f bs L)
      (seq (catching (awaitProviderCall operation_signal Op_upload an_provider) failed_upload) (\<lambda>v.
         seq (lift_sum (js_property v ''uploadId'')) (\<lambda>value.
         seq (validateProviderIdentifier value) (\<lambda>uploadId.
           seq (validateUploadRequest m (js_get v ''request'')) (\<lambda>_.
             seq (saveJournal m j ((to_phase Rp_uploading)\<lparr>ju_uploadId := Some (Some uploadId)\<rparr>)) (\<lambda>uploading.
               complete_upload m cx uploadId f uploading)))))) (finished m j f (sc_cloud sc) (uploaded_log L j (sc_upload sc) (sc_cloud sc)))" for cx
    by (rule goes_provider_caught [OF timeless_at answered])
  show "goes m sc (at m j f bs L) (uploadStaged m j recording) (finished m j f (sc_cloud sc) (uploaded_log L j (sc_upload sc) (sc_cloud sc)))"
    unfolding uploadStaged_def requireStorage_def requireUploadProvider_def
    using j(1) by (simp add: m, intro goes_open goes_context [OF hm bs] called) (auto simp: belongs_def)
qed

lemma goes_reconcile:
  assumes hm: "honest_manager m sc" and j: "belongs m sc j f" "rj_phase j = Rp_uploading"
    and bs: "int (length bs) \<le> max_safe_integer"
  shows "goes m sc (at m j f bs L) (reconcileUpload m j recording) (finished m j f (sc_cloud sc)
     (\<lambda>log. \<exists>cx. log = L @ [Ev_reconciled cx (the (rj_uploadId j)) (sc_cloud sc), confirm_of j]))"
proof (rule goes_wf)
  assume wf: "recording_journal_wf j"
  let ?c = "sc_cloud sc"
  let ?X = "\<lambda>log. \<exists>cx. log = L @ [Ev_reconciled cx (the (rj_uploadId j)) ?c, confirm_of j]"
  let ?u = "(to_phase Rp_cloud_completed)\<lparr>ju_cloudCompletionId := Some (Some ?c)\<rparr>"
  have m: "rm_storage m" "rm_provider m" "valid_id ?c" using hm by (simp_all add: honest_manager_def)
  have follow: "may_follow j ?u" using wf j m by (auto intro: follow_completed simp: belongs_def)
  have confirm: "goes m sc (at m (next_journal j ?u now) f bs K) (confirmJournal m (next_journal j ?u now))
      (finished m j f ?c ((=) (K @ [confirm_of j])))" for now K
    by (rule goes_post [OF goes_confirm [OF hm]]) (use j m in \<open>auto simp: valid_id_def\<close>)
  have told: "goes m sc (at m j f bs L) (seq (logged e) (\<lambda>_. seq (saveJournal m j ?u) (confirmJournal m)))
      (finished m j f ?c ((=) (L @ [e, confirm_of j])))" for e
    by (rule goes_logged, rule goes_save [OF m(1) follow], rule goes_weak [OF confirm]) simp
  have upload: "\<not> no_id (rj_uploadId j)"
    using wf j by (auto simp: recording_journal_wf_def assertRecordingEvidence_def RECORDING_PHASES_def Let_def belongs_def
        no_id_def valid_id_def split: if_splits)
  let ?rest = "\<lambda>cx v. seq (lift_sum (js_property v ''state'')) (\<lambda>state.
                    if state = JString (js ''cloud_completed'') then
                      seq (validateProviderIdentifier (js_get v ''cloudCompletionId'')) (\<lambda>c.
                        seq (logged (Ev_reconciled cx (the (rj_uploadId j)) c)) (\<lambda>_.
                          seq (saveJournal m j ((to_phase Rp_cloud_completed)\<lparr>ju_cloudCompletionId := Some (Some c)\<rparr>))
                            (confirmJournal m)))
                    else if state \<noteq> JString (js ''not_uploaded'') then raise (SdkErr retryable_upload_failure)
                    else
                      seq (saveJournal m j ((to_phase Rp_staged)\<lparr>ju_uploadId := Some None\<rparr>)) (\<lambda>staged.
                        uploadStaged m staged recording))"
  have answered: "\<exists>v. an_provider a = Inr v \<and> goes m sc (at m j f bs L) (?rest cx v) (finished m j f ?c ?X)"
    if "honest_answer m sc a" for a cx
  proof -
    from honest_reply [OF that] obtain reply where r: "an_provider a = Inr reply"
      "js_property reply ''state'' = Inr (JString (js ''cloud_completed''))"
      "js_property reply ''cloudCompletionId'' = Inr (JString ?c)" by (auto simp: good_reply_def)
    then have "js_get reply ''cloudCompletionId'' = JString ?c" by (simp add: js_property_def split: if_splits)
    then show ?thesis
      by (intro exI [of _ reply] conjI r(1) goes_lift [OF r(2)]) (simp add: valid_provider_id m, rule goes_weak [OF told], blast)
  qed
  have called: "goes m sc (at m j f bs L)
      (seq (catching (awaitProviderCall operation_signal Op_upload an_provider) failed_upload) (?rest cx))
      (finished m j f ?c ?X)" for cx
    by (rule goes_provider_caught [OF timeless_at answered])
  show "goes m sc (at m j f bs L) (reconcileUpload m j recording) (finished m j f ?c ?X)"
    unfolding reconcileUpload_def requireStorage_def requireUploadProvider_def
    using j(1) by (simp add: m upload, intro goes_open goes_context [OF hm bs] called) (auto simp: belongs_def)
qed

section \<open>Listing\<close>

lemma goes_finally:
  assumes "goes m sc P prog Q" and "\<And>x. goes m sc (Q x) cleanup (\<lambda>_. R x)"
  shows "goes m sc P (finally_do prog cleanup) R"
proof (rule goesI)
  fix w
  assume "P w" "honest m sc w"
  from goesD [OF assms(1) this] obtain x w1 where 1: "prog w = (Some (Inr x), w1)" "Q x w1" "honest m sc w1" by blast
  from goesD [OF assms(2) 1(2,3)] obtain u w2 where "cleanup w1 = (Some (Inr u), w2)" "R x w2" "honest m sc w2" by blast
  with 1 show "\<exists>x w'. finally_do prog cleanup w = (Some (Inr x), w') \<and> R x w' \<and> honest m sc w'"
    by (simp add: finally_do_def seq_def lift_sum_def)
qed

lemma goes_await_ret:
  assumes "silent m sc sig" and "timeless P"
    and "\<And>a. honest_answer m sc a \<Longrightarrow> \<exists>x. q a = Inr x \<and> R x"
  shows "goes m sc P (awaitWithSignal sig p q) (\<lambda>x w. P w \<and> R x)"
proof (rule goes_tail, rule goes_await [OF assms(1,2)])
  fix a
  assume "honest_answer m sc a"
  with assms(3) obtain x where "q a = Inr x" "R x" by blast
  then show "\<exists>x. q a = Inr x \<and> goes m sc P (ret x) (\<lambda>x w. P w \<and> R x)"
    by (intro exI [of _ x]) (simp add: goes_ret)
qed

definition lists_it :: "scene \<Rightarrow> rec_item list \<Rightarrow> bool" where
  "lists_it sc items \<longleftrightarrow> find (\<lambda>r. dr_uuid r = dr_uuid (sc_recording sc)) items = Some (sc_recording sc)"

lemma goes_legacy_list:
  assumes "honest_manager m sc" and "timeless P"
  shows "goes m sc P (legacy_list m (combineSignals x)) (\<lambda>items w. P w \<and> lists_it sc items)"
proof -
  obtain command where command: "rm_listCommand m = Inr command" using assms(1) by (auto simp: honest_manager_def)
  let ?Q = "\<lambda>items w. P w \<and> lists_it sc items"
  have decode: "\<exists>v. Inr (list_notification b) = Inr v \<and> goes m sc P (case v of
        None \<Rightarrow> never
      | Some bytes \<Rightarrow> (case rm_decodeList m bytes of
           Inl _ \<Rightarrow> reject Sdk_protocol_error Op_transfer_recording
         | Inr recordings \<Rightarrow> ret (map deviceRecording recordings))) ?Q" if "honest_answer m sc b" for b
  proof -
    from that obtain bs items where "list_notification b = Some bs" "rm_decodeList m bs = Inr items"
      "lists_it sc (map deviceRecording items)" by (auto simp: honest_answer_def lists_it_def)
    then show ?thesis by (auto intro: goes_ret)
  qed
  have written: "\<exists>v. (case an_io b of Some e \<Rightarrow> Inl e | None \<Rightarrow> Inr ()) = Inr v \<and> goes m sc P
      (seq (awaitWithSignal (combineSignals x) Op_transfer_recording (\<lambda>b. Inr (list_notification b))) (\<lambda>v. case v of
        None \<Rightarrow> never
      | Some bytes \<Rightarrow> (case rm_decodeList m bytes of
           Inl _ \<Rightarrow> reject Sdk_protocol_error Op_transfer_recording
         | Inr recordings \<Rightarrow> ret (map deviceRecording recordings)))) ?Q" if "honest_answer m sc b" for b
    using that by (simp add: honest_simps) (rule goes_await [OF silent_signals(2) assms(2) decode])
  have closed: "goes m sc (?Q items) (seq tick (\<lambda>b. case an_io b of Some e \<Rightarrow> raise e | None \<Rightarrow> ret ())) (\<lambda>_. ?Q items)" for items
    by (rule goes_tick) (simp_all add: assms(2) honest_simps goes_ret)
  let ?all = "finally_do
           (seq (throwIfAborted (combineSignals x) Op_transfer_recording) (\<lambda>_.
             seq (lift_sum (rm_listCommand m)) (\<lambda>_.
               seq (awaitWithSignal (combineSignals x) Op_transfer_recording
                     (\<lambda>b. case an_io b of Some e \<Rightarrow> Inl e | None \<Rightarrow> Inr ())) (\<lambda>_.
                 seq (awaitWithSignal (combineSignals x) Op_transfer_recording (\<lambda>b. Inr (list_notification b))) (\<lambda>received.
                   case received of
                     None \<Rightarrow> never
                   | Some bytes \<Rightarrow>
                       (case rm_decodeList m bytes of
                          Inl _ \<Rightarrow> reject Sdk_protocol_error Op_transfer_recording
                        | Inr recordings \<Rightarrow> ret (map deviceRecording recordings)))))))
           (seq tick (\<lambda>b. case an_io b of Some e \<Rightarrow> raise e | None \<Rightarrow> ret ()))"
  have all: "goes m sc P ?all ?Q"
    by (intro goes_finally [OF _ closed] goes_check silent_signals goes_lift [OF command]
        goes_await [OF silent_signals(2) assms(2) written])
  have "goes m sc P (case an_io a of Some e \<Rightarrow> raise e | None \<Rightarrow> ?all) ?Q" if "honest_answer m sc a" for a
    unfolding honest_simps [OF that] option.case by (rule all)
  then show ?thesis
    unfolding legacy_list_def by (rule goes_tick [OF assms(2)])
qed

lemma goes_list:
  assumes hm: "honest_manager m sc" and P: "timeless P"
    and g: "\<And>items. lists_it sc items \<Longrightarrow> goes m sc P (g items) Q"
  shows "goes m sc P (seq (listWithSignal m True) g) Q"
proof (rule goes_seq)
  let ?Q = "\<lambda>items w. P w \<and> lists_it sc items"
  have none: "goes m sc P (seq (readOptionalV2Capability m (combineSignals True)) (\<lambda>capability.
      case capability of None \<Rightarrow> legacy_list m (combineSignals True)
       | Some c \<Rightarrow> seq (lift_sum (rm_supportsBatch m c)) (\<lambda>batch.
           if batch then encrypted_list else legacy_list m (combineSignals True)))) ?Q"
  proof (rule goes_seq)
    show "goes m sc P (readOptionalV2Capability m (combineSignals True)) (\<lambda>c w. P w \<and> c = None)"
      by (rule goes_no_capability [OF P])
  qed (rule goes_fact, simp add: goes_legacy_list [OF hm P])
  have "goes m sc P (withVerifiedConnection True Op_transfer_recording (\<lambda>connection.
      seq (readOptionalV2Capability m (combineSignals True)) (\<lambda>capability.
      case capability of None \<Rightarrow> legacy_list m (combineSignals True)
       | Some c \<Rightarrow> seq (lift_sum (rm_supportsBatch m c)) (\<lambda>batch.
           if batch then encrypted_list else legacy_list m (combineSignals True))))) ?Q"
    by (rule goes_verified [OF P none])
  then show "goes m sc P (listWithSignal m True) ?Q"
    unfolding listWithSignal_def by (rule goes_available)
qed (rule goes_fact, rule g)

section \<open>The transfer\<close>

text \<open>What leaves the state of the sink alone.\<close>

definition sink_same :: "rec_world \<Rightarrow> rec_world \<Rightarrow> bool" where
  "sink_same w w' \<longleftrightarrow> rw_sink w' = rw_sink w"

interpretation sinks: world_frame sink_same
  by unfold_locales (auto simp: sink_same_def)

lemma sink_stable: "sinks.stable (\<lambda>w. R (rw_sink w))"
  by (simp add: sinks.stable_def sink_same_def)

lemma goes_along:
  assumes "goes m sc P prog Q" and "sinks.quiet prog"
  shows "goes m sc (\<lambda>w. P w \<and> R (rw_sink w)) prog (\<lambda>x w. Q x w \<and> R (rw_sink w))"
  using sinks.triple_along [OF assms(1) [unfolded goes_def] assms(2) sink_stable [of R]]
  unfolding goes_def by (rule triple_weaken) auto

lemma sink_file_op: "sinks.quiet (file_op q)"
proof -
  have "sinks.quiet tick" by (rule sinks.quietI) (simp add: tick_def sink_same_def Let_def)
  moreover have "sinks.quiet (\<lambda>w. case q (an_opfs a) (rw_files w) of (r, fs) \<Rightarrow> (Some (storage_failure r), w\<lparr>rw_files := fs\<rparr>))"
    for a :: answer
    by (rule sinks.quietI) (simp add: sink_same_def split: prod.split)
  ultimately show ?thesis unfolding file_op_def by (intro sinks.quiet_intros)
qed

lemma sink_mutate: "sinks.quiet (mutate_blob f request)"
  unfolding mutate_blob_def by (intro sinks.quiet_intros sink_file_op)

lemma sink_size: "sinks.quiet (blob_size_now f)"
  unfolding blob_size_now_def by (rule sink_file_op)

text \<open>The blob holds what the hasher has seen.\<close>

definition hashing :: "rec_manager \<Rightarrow> recording_journal \<Rightarrow> jsstring \<times> jsstring \<Rightarrow> bytes \<Rightarrow> rec_event list \<Rightarrow> rec_world \<Rightarrow> bool" where
  "hashing m j f bs L w \<longleftrightarrow> at m j f bs L w \<and> sk_hashed (rw_sink w) = bs"

lemma goes_sink:
  assumes "goes m sc (at m j f bs L) prog (\<lambda>x. at m j f bs' L)" and "sinks.quiet prog"
    and "\<And>x. goes m sc (\<lambda>w. at m j f bs' L w \<and> R (rw_sink w)) (g x) Q"
  shows "goes m sc (\<lambda>w. at m j f bs L w \<and> R (rw_sink w)) (seq prog g) Q"
  by (rule goes_seq [OF goes_along [OF assms(1,2)] assms(3)])

lemma goes_sink_size:
  assumes "int (length bs) \<le> max_safe_integer" and "goes m sc (\<lambda>w. at m j f bs L w \<and> R (rw_sink w)) (g (int (length bs))) Q"
  shows "goes m sc (\<lambda>w. at m j f bs L w \<and> R (rw_sink w)) (seq (blob_size_now f) g) Q"
proof (rule goes_seq)
  have "goes m sc (at m j f bs L) (blob_size_now f) (\<lambda>n w. at m j f bs L w \<and> n = int (length bs))"
    by (rule goes_tail, rule goes_size [OF assms(1)], rule goes_ret) simp
  from goes_along [OF this sink_size]
  show "goes m sc (\<lambda>w. at m j f bs L w \<and> R (rw_sink w)) (blob_size_now f)
      (\<lambda>n w. (at m j f bs L w \<and> R (rw_sink w)) \<and> n = int (length bs))"
    by (rule goes_post) auto
qed (rule goes_fact, use assms(2) in simp)

lemma at_sink [simp]: "at m j f bs L (w\<lparr>rw_sink := s\<rparr>) = at m j f bs L w"
  by (simp add: at_def journal_of_def)

lemma honest_sink [simp]: "honest m sc (w\<lparr>rw_sink := s\<rparr>) = honest m sc w"
  by (simp add: honest_def)

lemma goes_set_hashed:
  assumes "\<And>s. R s \<Longrightarrow> R' (s\<lparr>sk_hashed := h (sk_hashed s)\<rparr>)"
    and "goes m sc (\<lambda>w. at m j f bs L w \<and> R' (rw_sink w)) (g ()) Q"
  shows "goes m sc (\<lambda>w. at m j f bs L w \<and> R (rw_sink w)) (seq (set_hashed h) g) Q"
proof (rule goes_seq)
  show "goes m sc (\<lambda>w. at m j f bs L w \<and> R (rw_sink w)) (set_hashed h) (\<lambda>_ w. at m j f bs L w \<and> R' (rw_sink w))"
    unfolding set_hashed_def by (rule goes_modify) (simp add: assms(1))
qed (use assms(2) in simp)

lemma goes_truncate:
  assumes "int (length bs) \<le> max_safe_integer"
  shows "goes m sc (at m j f bs L) (sink_truncate f 0) (\<lambda>_. hashing m j f [] L)"
proof -
  let ?R = "\<lambda>s. sk_hashed s = []"
  let ?stream = "stream_blob f (\<lambda>chunk restored.
      seq (lift_sum (safeBrowserRange restored (int (length chunk)) Op_transfer_recording)) (\<lambda>r.
        seq (set_hashed (\<lambda>h. h @ chunk)) (\<lambda>_. ret r))) (0 :: int)"
  have stream: "goes m sc (\<lambda>w. at m j f [] L w \<and> ?R (rw_sink w)) (seq ?stream (\<lambda>restored.
      ret (if restored \<noteq> 0 then sinkFailure else Reply H_recording_sink_truncated))) (\<lambda>_. hashing m j f [] L)"
    unfolding stream_blob_def seq_assoc
    by (rule goes_sink_size) (auto simp: stream_reads.simps [of OPFS_STREAM_CHUNK_SIZE 0 0] max_safe_integer_def hashing_def intro: goes_ret)
  have hashed: "goes m sc (at m j f [] L) (seq (set_hashed (\<lambda>_. [])) (\<lambda>_. seq ?stream (\<lambda>restored.
      ret (if restored \<noteq> 0 then sinkFailure else Reply H_recording_sink_truncated)))) (\<lambda>_. hashing m j f [] L)"
    using goes_set_hashed [where R = "\<lambda>_. True" and R' = ?R, OF _ stream] by simp
  show ?thesis
    unfolding sink_truncate_def createHasher_def seq_assoc
  proof (rule goes_lift [where x = 0], simp add: safeBrowserBigint_def max_safe_integer_def,
      rule goes_empty [OF assms], rule goes_observe [OF timeless_at])
    fix a
    assume "honest_answer m sc a"
    then show "goes m sc (at m j f [] L) (seq (case an_hasher a of Some e \<Rightarrow> raise e | None \<Rightarrow> ret ())
        (\<lambda>_. seq (set_hashed (\<lambda>_. [])) (\<lambda>_. seq ?stream (\<lambda>restored.
          ret (if restored \<noteq> 0 then sinkFailure else Reply H_recording_sink_truncated))))) (\<lambda>_. hashing m j f [] L)"
      using hashed by (simp add: honest_simps)
  qed
qed

lemma goes_sink_append:
  assumes "int (length bs) + int (length p) \<le> max_safe_integer"
  shows "goes m sc (hashing m j f bs L) (sink_append f p) (\<lambda>_. hashing m j f (bs @ p) L)"
proof -
  let ?R = "\<lambda>s. sk_hashed s = bs" and ?R' = "\<lambda>s. sk_hashed s = bs @ p"
  have hashed: "goes m sc (\<lambda>w. at m j f (bs @ p) L w \<and> ?R (rw_sink w)) (seq (set_hashed (\<lambda>h. h @ p)) (\<lambda>_. ret r))
      (\<lambda>_. hashing m j f (bs @ p) L)" for r :: host_reply
    by (rule goes_set_hashed [where R' = ?R']) (auto simp: hashing_def intro: goes_ret)
  have append: "goes m sc (at m j f bs L) (mutate_blob f (write_request (JInt (int (length bs))) (Some p)))
      (\<lambda>_. at m j f (bs @ p) L)"
    by (rule goes_tail, rule goes_append [OF assms], rule goes_ret)
  have bound: "safeBrowserNumber (int (length bs)) Op_transfer_recording = Inr (int (length bs))"
    "safeBrowserRange (int (length bs)) (int (length p)) Op_transfer_recording = Inr (int (length bs) + int (length p))"
    using assms by (simp_all add: safeBrowserNumber_def safeBrowserRange_def)
  have "goes m sc (\<lambda>w. at m j f bs L w \<and> ?R (rw_sink w)) (sink_append f p) (\<lambda>_. hashing m j f (bs @ p) L)"
    unfolding sink_append_def
    by (rule goes_sink_size) (use assms in \<open>simp, intro goes_lift [OF bound(1)] goes_lift [OF bound(2)]
        goes_sink [OF append sink_mutate] hashed\<close>)
  then show ?thesis by (rule goes_pre) (simp add: hashing_def)
qed

lemma goes_sink_finalize:
  assumes "int (length bs) \<le> max_safe_integer" and "crc = None \<or> (\<exists>c. crc = Some c \<and> rm_crc32 m bs = Inr c)"
  shows "goes m sc (hashing m j f bs L) (sink_finalize m f crc) (\<lambda>_ w. at m j f bs L w \<and> sk_finalized (rw_sink w))"
proof -
  let ?P = "\<lambda>w. at m j f bs L w \<and> sk_hashed (rw_sink w) = bs"
  have mark: "goes m sc ?P (seq (modify (\<lambda>w. w\<lparr>rw_sink := (rw_sink w)\<lparr>sk_finalized := True\<rparr>\<rparr>)) (\<lambda>_. ret r))
      (\<lambda>_ w. at m j f bs L w \<and> sk_finalized (rw_sink w))" for r :: host_reply
    by (rule goes_seq [where R = "\<lambda>_ w. at m j f bs L w \<and> sk_finalized (rw_sink w)", OF goes_modify]) (auto intro: goes_ret)
  have intact: "goes m sc ?P (seq (case crc of None \<Rightarrow> ret True
          | Some expected \<Rightarrow>
              seq (get (\<lambda>w. sk_hashed (rw_sink w))) (\<lambda>hashed.
                seq (lift_sum (rm_crc32 m hashed)) (\<lambda>crc. ret (crc = expected)))) (\<lambda>intact.
           if \<not> intact then ret (Reply H_recording_sink_integrity_failed)
           else seq (modify (\<lambda>w. w\<lparr>rw_sink := (rw_sink w)\<lparr>sk_finalized := True\<rparr>\<rparr>)) (\<lambda>_. ret r)))
      (\<lambda>_ w. at m j f bs L w \<and> sk_finalized (rw_sink w))" for r
  proof (cases crc)
    case None
    then show ?thesis by (simp add: mark)
  next
    case (Some c)
    with assms(2) have "rm_crc32 m bs = Inr c" by simp
    then show ?thesis
      unfolding Some option.case seq_assoc
      by (intro goes_get [where x = bs] goes_lift [where x = c]) (simp_all add: mark)
  qed
  have "goes m sc ?P (sink_finalize m f crc) (\<lambda>_ w. at m j f bs L w \<and> sk_finalized (rw_sink w))"
    unfolding sink_finalize_def
    by (rule goes_sink_size [OF assms(1)], rule goes_lift [where x = "int (length bs)"])
      (use assms(1) intact in \<open>simp_all add: safeBrowserNumber_def\<close>)
  then show ?thesis by (rule goes_pre) (simp add: hashing_def)
qed

lemma goes_exists: "(\<And>y. goes m sc (Q y) prog R) \<Longrightarrow> goes m sc (\<lambda>w. \<exists>y. Q y w) prog R"
proof (rule goesI)
  fix w
  assume all: "\<And>y. goes m sc (Q y) prog R" and w: "\<exists>y. Q y w" "honest m sc w"
  from w(1) obtain y where "Q y w" ..
  from goesD [OF all this w(2)] show "\<exists>x w'. prog w = (Some (Inr x), w') \<and> R x w' \<and> honest m sc w'" .
qed

lemma goes_execute:
  assumes "goes m sc P (sink_execute m (rj_sinkId j) f e) Q" and "route_effect e = Route_host Slot_recordingSink"
    and "\<And>x. goes m sc (Q x) (run_effects m j f es failure) R"
  shows "goes m sc P (run_effects m j f (e # es) failure) R"
proof -
  have "goes m sc P (seq (execute_effect m j f e) (\<lambda>_. ret failure)) (\<lambda>x w. (\<exists>y. Q y w) \<and> x = failure)"
    unfolding execute_effect_def assms(2) effect_route.case host_slot.case
    by (rule goes_seq [OF assms(1)]) (auto intro: goes_ret)
  from goes_catching [OF this] show ?thesis
    unfolding run_effects.simps
    by (rule goes_seq, intro goes_fact goes_exists) (simp add: assms(3))
qed

lemma goes_sink_execute:
  "goes m sc P (sink_effect m s f e) Q \<Longrightarrow> goes m sc P (sink_execute m s f e) Q"
  unfolding sink_execute_def by (rule goes_catching)

lemma goes_appends:
  assumes "int (length bs) + int (length (concat ps)) \<le> max_safe_integer" and "length ns = length ps"
    and "goes m sc (hashing m j f (bs @ concat ps) L) (run_effects m j f es failure) Q"
  shows "goes m sc (hashing m j f bs L)
     (run_effects m j f (map2 (E_recording_sink_append (rj_sinkId j)) ns ps @ es) failure) Q"
  using assms
proof (induction ps arbitrary: bs ns)
  case Nil
  then show ?case by simp
next
  case (Cons p ps)
  obtain n ns' where ns: "ns = n # ns'" using Cons.prems(2) by (cases ns) auto
  have effect: "goes m sc (hashing m j f bs L) (sink_execute m (rj_sinkId j) f (E_recording_sink_append (rj_sinkId j) n p))
      (\<lambda>_. hashing m j f (bs @ p) L)"
    by (rule goes_sink_execute) (use Cons.prems in \<open>simp add: sink_effect_def assertSink_def goes_sink_append\<close>)
  have split: "map2 (E_recording_sink_append (rj_sinkId j)) ns (p # ps) @ es
      = E_recording_sink_append (rj_sinkId j) n p # (map2 (E_recording_sink_append (rj_sinkId j)) ns' ps @ es)"
    by (simp add: ns)
  show ?case
    unfolding split by (rule goes_execute [OF effect], simp, rule Cons.IH) (use Cons.prems ns in \<open>simp_all add: algebra_simps\<close>)
qed

lemma goes_transfer:
  assumes hm: "honest_manager m sc" and j: "belongs m sc j f" and bs: "int (length bs) \<le> max_safe_integer"
    and g: "\<And>ended encrypted sha. transfer_completed ended = Some (encrypted, sha) \<Longrightarrow> option_all valid_digest (map_option hex sha)
        \<Longrightarrow> goes m sc (\<lambda>w. at m j f (concat (sc_payload sc)) L w \<and> sk_finalized (rw_sink w)) (g ended) Q"
  shows "goes m sc (at m j f bs L) (seq (run_transfer m j f) g) Q"
  unfolding run_transfer_def seq_assoc
proof (rule goes_tick [OF timeless_at])
  fix a
  assume "honest_answer m sc a"
  then obtain ns crc where e: "length ns = length (sc_payload sc)"
    "an_effects a = E_recording_sink_truncate (rj_sinkId j) 0 # map2 (E_recording_sink_append (rj_sinkId j)) ns (sc_payload sc)
       @ [E_recording_sink_finalize (rj_sinkId j) crc]"
    "crc = None \<or> (\<exists>c. crc = Some c \<and> rm_crc32 m (concat (sc_payload sc)) = Inr c)"
    using j by (auto simp: honest_answer_def sends_def belongs_def)
  let ?all = "concat (sc_payload sc)"
  have size_ok: "int (length ?all) \<le> max_safe_integer" using hm by (simp add: honest_manager_def)
  have closing: "goes m sc (hashing m j f ?all L)
      (run_effects m j f [E_recording_sink_finalize (rj_sinkId j) crc] None)
      (\<lambda>x w. (at m j f ?all L w \<and> sk_finalized (rw_sink w)) \<and> x = None)"
  proof (rule goes_execute)
    show "goes m sc (hashing m j f ?all L) (sink_execute m (rj_sinkId j) f (E_recording_sink_finalize (rj_sinkId j) crc))
        (\<lambda>_ w. at m j f ?all L w \<and> sk_finalized (rw_sink w))"
      by (rule goes_sink_execute) (use goes_sink_finalize [OF size_ok e(3)] in \<open>simp add: sink_effect_def assertSink_def\<close>)
  qed (simp_all add: goes_ret)
  have emptying: "goes m sc (at m j f bs L) (sink_execute m (rj_sinkId j) f (E_recording_sink_truncate (rj_sinkId j) 0))
      (\<lambda>_. hashing m j f [] L)"
    by (rule goes_sink_execute) (use goes_truncate [OF bs] in \<open>simp add: sink_effect_def assertSink_def\<close>)
  have effects: "goes m sc (at m j f bs L) (run_effects m j f (an_effects a) None)
      (\<lambda>x w. (at m j f ?all L w \<and> sk_finalized (rw_sink w)) \<and> x = None)"
    unfolding e(2) by (rule goes_execute [OF emptying], simp, rule goes_appends) (use size_ok e(1) closing in simp_all)
  have over: "goes m sc (\<lambda>w. at m j f ?all L w \<and> sk_finalized (rw_sink w))
      (seq tick (\<lambda>b. seq (case an_run b of
             Inl e \<Rightarrow> raise (SdkErr e)
           | Inr notifications \<Rightarrow>
               (case None of
                  Some e \<Rightarrow> raise (SdkErr (normalizeRuntimeError e Op_transfer_recording))
                | None \<Rightarrow> ret notifications)) g)) Q"
  proof (rule goes_tick)
    fix b
    assume "honest_answer m sc b"
    then obtain ended encrypted sha where "an_run b = Inr ended" "transfer_completed ended = Some (encrypted, sha)"
      "option_all valid_digest (map_option hex sha)" by (auto simp: honest_answer_def sends_def)
    then show "goes m sc (\<lambda>w. at m j f ?all L w \<and> sk_finalized (rw_sink w)) (seq (case an_run b of
             Inl e \<Rightarrow> raise (SdkErr e)
           | Inr notifications \<Rightarrow>
               (case None of
                  Some e \<Rightarrow> raise (SdkErr (normalizeRuntimeError e Op_transfer_recording))
                | None \<Rightarrow> ret notifications)) g) Q"
      using g by simp
  qed (simp add: timeless_def at_def journal_of_def)
  show "goes m sc (at m j f bs L) (seq (run_effects m j f (an_effects a) None) (\<lambda>failure. seq tick (\<lambda>b. seq (case an_run b of
             Inl e \<Rightarrow> raise (SdkErr e)
           | Inr notifications \<Rightarrow>
               (case failure of
                  Some e \<Rightarrow> raise (SdkErr (normalizeRuntimeError e Op_transfer_recording))
                | None \<Rightarrow> ret notifications)) g))) Q"
    by (rule goes_seq [OF effects], rule goes_fact) (use over in simp)
qed

definition transferred_of :: "scene \<Rightarrow> recording_journal \<Rightarrow> rec_event" where
  "transferred_of sc j = Ev_transferred (rj_operationId j) (rj_serialNumber j) (rj_recordingUuid j) (concat (sc_payload sc))"

lemma transferred_next [simp]: "transferred_of sc (next_journal j u now) = transferred_of sc j"
  by (simp add: transferred_of_def)

lemma goes_transferred:
  assumes hm: "honest_manager m sc" and j: "belongs m sc j f" "rj_phase j = Rp_transferring"
    and bs: "int (length bs) \<le> max_safe_integer"
  shows "goes m sc (at m j f bs L) (transfer_and_upload m j recording f)
     (finished m j f (sc_cloud sc) (uploaded_log (L @ [transferred_of sc j]) j (sc_upload sc) (sc_cloud sc)))"
  unfolding transfer_and_upload_def
proof (rule goes_transfer [OF hm j(1) bs])
  fix ended :: "core_notification list" and encrypted sha
  assume t: "transfer_completed ended = Some (encrypted, sha)" "option_all valid_digest (map_option hex sha)"
  let ?all = "concat (sc_payload sc)"
  let ?u = "(to_phase Rp_staged)\<lparr>ju_devicePlaintextSha256Hex := Some (map_option hex sha)\<rparr>"
  have size_ok: "int (length ?all) \<le> max_safe_integer" and m: "rm_storage m" using hm by (simp_all add: honest_manager_def)
  have upload: "goes m sc (at m (next_journal j ?u now) f ?all K)
      (seq (blob_size_now f) (\<lambda>n. seq (lift_sum (safeBrowserNumber n Op_transfer_recording)) (\<lambda>_.
         seq callback (\<lambda>_. uploadStaged m (next_journal j ?u now) (recording\<lparr>dr_encrypted := encrypted\<rparr>)))))
      (finished m j f (sc_cloud sc) (uploaded_log K j (sc_upload sc) (sc_cloud sc)))" for now K
    unfolding callback_def seq_assoc
  proof (rule goes_size [OF size_ok], rule goes_lift [where x = "int (length ?all)"], goal_cases)
    case 1
    show ?case using size_ok by (simp add: safeBrowserNumber_def)
  next
    case 2
    have "goes m sc (at m (next_journal j ?u now) f ?all K)
        (uploadStaged m (next_journal j ?u now) (recording\<lparr>dr_encrypted := encrypted\<rparr>)) (finished m j f (sc_cloud sc) (uploaded_log K j (sc_upload sc) (sc_cloud sc)))"
      by (rule goes_post [OF goes_uploadStaged [OF hm _ _ size_ok]]) (use j in simp_all)
    then show ?case by (intro goes_observe timeless_at) (simp add: honest_simps)
  qed
  have save: "goes m sc (at m j f ?all K) (seq (saveJournal m j ?u) (\<lambda>staged. seq (blob_size_now f) (\<lambda>n.
      seq (lift_sum (safeBrowserNumber n Op_transfer_recording)) (\<lambda>_.
         seq callback (\<lambda>_. uploadStaged m staged (recording\<lparr>dr_encrypted := encrypted\<rparr>)))))) (finished m j f (sc_cloud sc) (uploaded_log K j (sc_upload sc) (sc_cloud sc)))" for K
  proof (rule goes_wf, rule goes_save [OF m])
    show "recording_journal_wf j \<Longrightarrow> may_follow j ?u"
      using j t(2) by (auto intro: follow_staged simp: belongs_def)
  qed (rule upload)
  show "goes m sc (\<lambda>w. at m j f ?all L w \<and> sk_finalized (rw_sink w))
      (seq (get (\<lambda>w. (sk_finalized (rw_sink w), rw_files w f))) (\<lambda>(finalized, content).
         case transfer_completed ended of
           None \<Rightarrow> reject Sdk_internal_error Op_transfer_recording
         | Some (encrypted, sha256) \<Rightarrow>
             if \<not> finalized then reject Sdk_internal_error Op_transfer_recording
             else
               seq (logged (Ev_transferred (rj_operationId j) (rj_serialNumber j)
                     (rj_recordingUuid j) (case content of None \<Rightarrow> [] | Some bs \<Rightarrow> bs))) (\<lambda>_.
                 seq (saveJournal m j ((to_phase Rp_staged)\<lparr>ju_devicePlaintextSha256Hex :=
                       Some (map_option hex sha256)\<rparr>)) (\<lambda>staged.
                   seq (blob_size_now f) (\<lambda>n.
                     seq (lift_sum (safeBrowserNumber n Op_transfer_recording)) (\<lambda>_.
                       seq callback (\<lambda>_.
                         uploadStaged m staged (recording\<lparr>dr_encrypted := encrypted\<rparr>)))))))) (finished m j f (sc_cloud sc) (uploaded_log (L @ [transferred_of sc j]) j (sc_upload sc) (sc_cloud sc)))"
  proof (rule goes_seq)
    show "goes m sc (\<lambda>w. at m j f ?all L w \<and> sk_finalized (rw_sink w)) (get (\<lambda>w. (sk_finalized (rw_sink w), rw_files w f)))
        (\<lambda>x w. at m j f ?all L w \<and> fst x \<and> (case snd x of None \<Rightarrow> [] | Some bs \<Rightarrow> bs) = ?all)"
      by (rule goesI) (simp add: get_def at_def file_content_def)
  next
    fix x :: "bool \<times> bytes option"
    show "goes m sc (\<lambda>w. at m j f ?all L w \<and> fst x \<and> (case snd x of None \<Rightarrow> [] | Some bs \<Rightarrow> bs) = ?all) (case x of (finalized, held) \<Rightarrow>
         (case transfer_completed ended of
           None \<Rightarrow> reject Sdk_internal_error Op_transfer_recording
         | Some (encrypted, sha256) \<Rightarrow>
             if \<not> finalized then reject Sdk_internal_error Op_transfer_recording
             else
               seq (logged (Ev_transferred (rj_operationId j) (rj_serialNumber j)
                     (rj_recordingUuid j) (case held of None \<Rightarrow> [] | Some bs \<Rightarrow> bs))) (\<lambda>_.
                 seq (saveJournal m j ((to_phase Rp_staged)\<lparr>ju_devicePlaintextSha256Hex :=
                       Some (map_option hex sha256)\<rparr>)) (\<lambda>staged.
                   seq (blob_size_now f) (\<lambda>n.
                     seq (lift_sum (safeBrowserNumber n Op_transfer_recording)) (\<lambda>_.
                       seq callback (\<lambda>_.
                         uploadStaged m staged (recording\<lparr>dr_encrypted := encrypted\<rparr>)))))))) (finished m j f (sc_cloud sc) (uploaded_log (L @ [transferred_of sc j]) j (sc_upload sc) (sc_cloud sc)))"
      by (rule goes_fact) (cases x, use t(1) in \<open>simp add: transferred_of_def, intro goes_logged, use save [of "L @ [transferred_of sc j]"] in \<open>simp add: transferred_of_def\<close>\<close>)
  qed
qed

lemma goes_authorize:
  assumes "honest_manager m sc" and "timeless P" and "goes m sc P (f ()) Q"
  shows "goes m sc P (seq (authorize m) f) Q"
proof -
  have rest: "goes m sc P (seq (throwIfAborted operation_signal Op_transfer_recording) f) Q"
    by (rule goes_check) (simp_all add: assms(3))
  have p: "rm_provider m" using assms(1) by (simp add: honest_manager_def)
  show ?thesis
  proof (cases "rm_authorizes m")
    case True
    have "goes m sc P (seq (awaitProviderCall operation_signal Op_transfer_recording an_provider) (\<lambda>_.
        seq (throwIfAborted operation_signal Op_transfer_recording) f)) Q"
      by (rule goes_provider [OF assms(2)]) (use honest_reply rest in blast)
    then show ?thesis
      using True p by (simp add: authorize_def requireUploadProvider_def seq_assoc)
  next
    case False
    have "goes m sc P (seq (awaitWithSignal operation_signal Op_transfer_recording (\<lambda>_. Inr ())) (\<lambda>_ :: unit.
        seq (throwIfAborted operation_signal Op_transfer_recording) f)) Q"
      by (rule goes_await [OF silent_signals(1) assms(2)]) (use rest in simp)
    then show ?thesis
      using False p by (simp add: authorize_def requireUploadProvider_def seq_assoc)
  qed
qed

lemma goes_transferLegacy:
  assumes hm: "honest_manager m sc" and j: "belongs m sc j f" "rj_phase j = Rp_prepared \<or> rj_phase j = Rp_transferring"
    and bs: "int (length bs) \<le> max_safe_integer"
  shows "goes m sc (at m j f bs L) (transferLegacy m v2 j recording)
     (finished m j f (sc_cloud sc) (uploaded_log (L @ [transferred_of sc j]) j (sc_upload sc) (sc_cloud sc)))"
proof (rule goes_wf)
  assume wf: "recording_journal_wf j"
  let ?u = "(to_phase Rp_transferring)\<lparr>ju_uploadId := Some None, ju_cloudCompletionId := Some None\<rparr>"
  let ?Q = "finished m j f (sc_cloud sc) (uploaded_log (L @ [transferred_of sc j]) j (sc_upload sc) (sc_cloud sc))"
  have m: "rm_storage m" using hm by (simp add: honest_manager_def)
  have run: "goes m sc (at m n f bs' L) (seq (throwIfAborted operation_signal Op_transfer_recording) (\<lambda>_.
      seq createHasher (\<lambda>_. seq (modify (\<lambda>w. w\<lparr>rw_sink := \<lparr>sk_hashed = [], sk_finalized = False\<rparr>\<rparr>)) (\<lambda>_.
        catching (transfer_and_upload m n recording f)
          (after_failure m v2 (rj_operationId j) [Sdk_cancelled, Sdk_integrity_failed]))))) ?Q"
    if "finished m n f (sc_cloud sc) (uploaded_log (L @ [transferred_of sc n]) n (sc_upload sc) (sc_cloud sc)) = ?Q" "belongs m sc n f" "rj_phase n = Rp_transferring"
      "int (length bs') \<le> max_safe_integer" for n bs'
  proof -
    have go: "goes m sc (at m n f bs' L) (catching (transfer_and_upload m n recording f)
        (after_failure m v2 (rj_operationId j) [Sdk_cancelled, Sdk_integrity_failed])) ?Q"
      unfolding that(1) [symmetric] by (rule goes_catching, rule goes_transferred [OF hm that(2-4)])
    have reset: "goes m sc (at m n f bs' L) (seq (modify (\<lambda>w. w\<lparr>rw_sink := \<lparr>sk_hashed = [], sk_finalized = False\<rparr>\<rparr>)) (\<lambda>_.
        catching (transfer_and_upload m n recording f)
          (after_failure m v2 (rj_operationId j) [Sdk_cancelled, Sdk_integrity_failed]))) ?Q"
      by (rule goes_seq [where R = "\<lambda>_. at m n f bs' L", OF goes_modify]) (simp_all add: go)
    show ?thesis
      unfolding createHasher_def seq_assoc
      by (rule goes_check, simp, rule goes_observe [OF timeless_at]) (simp add: honest_simps reset)
  qed
  have follow: "may_follow j ?u" using wf j by (auto intro: follow_transferring simp: belongs_def)
  have save: "goes m sc (at m j f bs' L) (seq (saveJournal m j ?u) (\<lambda>n.
      seq (throwIfAborted operation_signal Op_transfer_recording) (\<lambda>_.
      seq createHasher (\<lambda>_. seq (modify (\<lambda>w. w\<lparr>rw_sink := \<lparr>sk_hashed = [], sk_finalized = False\<rparr>\<rparr>)) (\<lambda>_.
        catching (transfer_and_upload m n recording f)
          (after_failure m v2 (rj_operationId j) [Sdk_cancelled, Sdk_integrity_failed])))))) ?Q"
    if "int (length bs') \<le> max_safe_integer" for bs'
    by (rule goes_save [OF m follow]) (rule run, use j that in simp_all)
  let ?rest = "seq (saveJournal m j ?u) (\<lambda>n.
      seq (throwIfAborted operation_signal Op_transfer_recording) (\<lambda>_.
      seq createHasher (\<lambda>_. seq (modify (\<lambda>w. w\<lparr>rw_sink := \<lparr>sk_hashed = [], sk_finalized = False\<rparr>\<rparr>)) (\<lambda>_.
        catching (transfer_and_upload m n recording f)
          (after_failure m v2 (rj_operationId j) [Sdk_cancelled, Sdk_integrity_failed])))))"
  have zero: "goes m sc (at m j f [] L) ?rest ?Q" by (rule save) (simp add: max_safe_integer_def)
  have emptied: "goes m sc (at m j f bs L) (seq (unless (\<not> int (length bs) > 0)
      (seq (mutate_blob f (truncate_request (JInt 0))) (\<lambda>_. throwIfAborted operation_signal Op_transfer_recording))) (\<lambda>_. ?rest)) ?Q"
  proof (cases "bs = []")
    case True
    then show ?thesis using zero by (simp add: unless_def)
  next
    case False
    have "goes m sc (at m j f bs L) (seq (mutate_blob f (truncate_request (JInt 0))) (\<lambda>_.
        seq (throwIfAborted operation_signal Op_transfer_recording) (\<lambda>_. ?rest))) ?Q"
      by (rule goes_empty [OF bs], rule goes_check, simp, rule zero)
    with False show ?thesis by (simp add: unless_def seq_assoc)
  qed
  have sized: "goes m sc (at m j f bs L) (seq (lift_sum (safeBrowserNumber (int (length bs)) Op_transfer_recording)) (\<lambda>currentSize.
      seq (unless (\<not> currentSize > 0)
      (seq (mutate_blob f (truncate_request (JInt 0))) (\<lambda>_. throwIfAborted operation_signal Op_transfer_recording))) (\<lambda>_. ?rest))) ?Q"
    by (rule goes_lift [where x = "int (length bs)"], use bs in \<open>simp add: safeBrowserNumber_def\<close>, rule emptied)
  show "goes m sc (at m j f bs L) (transferLegacy m v2 j recording) ?Q"
    unfolding transferLegacy_def requireStorage_def
    using j(1) by (simp add: m, intro goes_check silent_signals goes_delete_checkpoint goes_open goes_size [OF bs] sized)
      (auto simp: belongs_def)
qed

section \<open>Resuming\<close>

definition completion_of :: "scene \<Rightarrow> recording_journal \<Rightarrow> jsstring" where
  "completion_of sc j = (case rj_cloudCompletionId j of Some c \<Rightarrow> c | None \<Rightarrow> sc_cloud sc)"

text \<open>What a resumption adds to the log, by the phase it starts from.\<close>

definition resumed_log :: "scene \<Rightarrow> rec_event list \<Rightarrow> recording_journal \<Rightarrow> rec_event list \<Rightarrow> bool" where
  "resumed_log sc L j log \<longleftrightarrow>
     (case rj_phase j of
        Rp_confirmed \<Rightarrow> log = L
      | Rp_cloud_completed \<Rightarrow> log = L @ [confirm_of j]
      | Rp_uploading \<Rightarrow> \<exists>cx. log = L @ [Ev_reconciled cx (the (rj_uploadId j)) (sc_cloud sc), confirm_of j]
      | Rp_staged \<Rightarrow> uploaded_log L j (sc_upload sc) (sc_cloud sc) log
      | _ \<Rightarrow> uploaded_log (L @ [transferred_of sc j]) j (sc_upload sc) (sc_cloud sc) log)"

abbreviation settled :: "rec_manager \<Rightarrow> scene \<Rightarrow> recording_journal \<Rightarrow> jsstring \<times> jsstring \<Rightarrow> rec_event list \<Rightarrow> rec_result \<Rightarrow> rec_world \<Rightarrow> bool" where
  "settled m sc j f L \<equiv> finished m j f (completion_of sc j) (resumed_log sc L j)"

lemma goes_resume_legacy:
  assumes hm: "honest_manager m sc" and j: "belongs m sc j f" and bs: "int (length bs) \<le> max_safe_integer"
  shows "goes m sc (at m j f bs L) (resume_legacy m v2 j) (settled m sc j f L)"
proof (rule goes_wf)
  assume wf: "recording_journal_wf j"
  then have ev: "rj_phase j \<in> {Rp_cloud_completed, Rp_confirmed} \<Longrightarrow> \<exists>c. rj_cloudCompletionId j = Some c \<and> c \<noteq> []"
    "rj_phase j \<notin> {Rp_cloud_completed, Rp_confirmed} \<Longrightarrow> rj_cloudCompletionId j = None"
    using j by (cases "rj_phase j"; auto simp: recording_journal_wf_def assertRecordingEvidence_def RECORDING_PHASES_def
        belongs_def valid_id_def split: if_splits)+
  have m: "rm_storage m" using hm by (simp add: honest_manager_def)
  have valid: "validateRecording (sc_recording sc) = ret ()" using hm by (simp add: honest_manager_def)
  show "goes m sc (at m j f bs L) (resume_legacy m v2 j) (settled m sc j f L)"
  proof (cases "rj_phase j \<in> {Rp_cloud_completed, Rp_confirmed}")
    case True
    with ev(1) obtain c where c: "rj_cloudCompletionId j = Some c" "c \<noteq> []" by blast
    then have done_: "completion_of sc j = c" by (simp add: completion_of_def)
    show ?thesis
    proof (cases "rj_phase j = Rp_confirmed")
      case True
      have "goes m sc (at m j f bs L) (finishConfirmedJournal m j) (settled m sc j f L)"
        by (rule goes_post [OF goes_finish [OF m j True c]]) (use True done_ in \<open>auto simp: finished_def resumed_log_def\<close>)
      with True show ?thesis by (simp add: resume_legacy_def)
    next
      case False
      with True have p: "rj_phase j = Rp_cloud_completed" by simp
      have "goes m sc (at m j f bs L) (confirmJournal m j) (settled m sc j f L)"
        unfolding done_ by (rule goes_weak [OF goes_confirm [OF hm j p c]]) (simp add: resumed_log_def p)
      with p show ?thesis by (simp add: resume_legacy_def)
    qed
  next
    case False
    with ev(2) have done_: "completion_of sc j = sc_cloud sc" by (simp add: completion_of_def)
    have staged: "goes m sc (at m j f bs L) (uploadStaged m j (sc_recording sc)) (settled m sc j f L)"
      if "rj_phase j = Rp_staged"
      unfolding done_ by (rule goes_weak [OF goes_uploadStaged [OF hm j that bs]]) (simp add: resumed_log_def that)
    have uploading: "goes m sc (at m j f bs L) (reconcileUpload m j (sc_recording sc)) (settled m sc j f L)"
      if "rj_phase j = Rp_uploading"
      unfolding done_ by (rule goes_weak [OF goes_reconcile [OF hm j that bs]]) (simp add: resumed_log_def that)
    have earlier: "goes m sc (at m j f bs L) (transferLegacy m v2 j (sc_recording sc)) (settled m sc j f L)"
      if "rj_phase j = Rp_prepared \<or> rj_phase j = Rp_transferring"
      unfolding done_ by (rule goes_weak [OF goes_transferLegacy [OF hm j that bs]]) (use that in \<open>auto simp: resumed_log_def\<close>)
    have go: "goes m sc (at m j f bs L)
        (if rj_phase j = Rp_staged then uploadStaged m j (sc_recording sc)
         else if rj_phase j = Rp_uploading then reconcileUpload m j (sc_recording sc)
         else transferLegacy m v2 j (sc_recording sc)) (settled m sc j f L)"
      by (cases "rj_phase j") (use False staged uploading earlier in simp_all)
    have listed: "goes m sc (at m j f bs L) (case find (\<lambda>r. dr_uuid r = rj_recordingUuid j) items of
        None \<Rightarrow> reject Sdk_resume_rejected Op_transfer_recording
      | Some recording \<Rightarrow> seq (validateRecording recording) (\<lambda>_. seq (authorize m) (\<lambda>_.
          if rj_phase j = Rp_staged then uploadStaged m j recording
          else if rj_phase j = Rp_uploading then reconcileUpload m j recording
          else transferLegacy m v2 j recording))) (settled m sc j f L)" if "lists_it sc items" for items
    proof -
      have "find (\<lambda>r. dr_uuid r = rj_recordingUuid j) items = Some (sc_recording sc)"
        using that j by (simp add: lists_it_def belongs_def)
      then show ?thesis by (simp add: valid goes_authorize [OF hm timeless_at go])
    qed
    have serial: "sc_serial sc = rj_serialNumber j" using j by (simp add: belongs_def)
    have "goes m sc (at m j f bs L) (seq requireConnectedDevice (\<lambda>(device, serialNumber).
          if serialNumber \<noteq> rj_serialNumber j then reject Sdk_identity_mismatch Op_transfer_recording
          else
            seq (listWithSignal m True) (\<lambda>recordings.
              seq (throwIfAborted operation_signal Op_transfer_recording) (\<lambda>_.
                case find (\<lambda>r. dr_uuid r = rj_recordingUuid j) recordings of
                  None \<Rightarrow> reject Sdk_resume_rejected Op_transfer_recording
                | Some recording \<Rightarrow>
                    seq (validateRecording recording) (\<lambda>_.
                      seq (authorize m) (\<lambda>_.
                        if rj_phase j = Rp_staged then uploadStaged m j recording
                        else if rj_phase j = Rp_uploading then reconcileUpload m j recording
                        else transferLegacy m v2 j recording)))))) (settled m sc j f L)"
      by (rule goes_connected [OF timeless_at], unfold prod.case)
        (simp add: serial, intro goes_list [OF hm timeless_at] goes_check silent_signals listed)
    then show ?thesis using False by (simp add: resume_legacy_def)
  qed
qed

section \<open>The operations as a whole\<close>

lemma goes_storage: "rm_storage m \<Longrightarrow> goes m sc P (f ()) Q \<Longrightarrow> goes m sc P (seq (requireStorage m) f) Q"
  by (simp add: requireStorage_def)

lemma goes_managed:
  assumes body: "goes m sc P body Q" and P: "timeless P" "\<And>w s. P w \<Longrightarrow> P (w\<lparr>rw_active := s\<rparr>)"
    and Q: "\<And>x w s. Q x w \<Longrightarrow> Q x (w\<lparr>rw_active := s\<rparr>)"
  shows "goes m sc (\<lambda>w. P w \<and> i \<notin> set (rw_active w)) (runManagedOperation i p body) Q"
proof -
  have active [simp]: "honest m sc (w\<lparr>rw_active := s\<rparr>) = honest m sc w" for w s by (simp add: honest_def)
  have cleanup: "goes m sc (Q x) (modify (\<lambda>w. w\<lparr>rw_active := removeAll i (rw_active w)\<rparr>)) (\<lambda>_. Q x)" for x
    by (rule goes_modify) (simp add: Q)
  have run: "goes m sc P (seq (modify (\<lambda>w. w\<lparr>rw_active := i # rw_active w\<rparr>)) (\<lambda>_.
      finally_do body (modify (\<lambda>w. w\<lparr>rw_active := removeAll i (rw_active w)\<rparr>)))) Q"
    by (rule goes_seq [where R = "\<lambda>_. P", OF goes_modify goes_finally [OF body cleanup]]) (simp add: P)
  show ?thesis
    unfolding runManagedOperation_def
  proof (rule goes_available, rule goes_seq)
    show "goes m sc (\<lambda>w. P w \<and> i \<notin> set (rw_active w)) (get rw_active) (\<lambda>a w. P w \<and> i \<notin> set a)"
      by (rule goesI) (simp add: get_def)
    show "goes m sc (\<lambda>w. P w \<and> i \<notin> set a)
        (if i \<in> set a then reject Sdk_operation_in_progress p
         else seq (throwIfAborted operation_signal p) (\<lambda>_.
           seq (modify (\<lambda>w. w\<lparr>rw_active := i # rw_active w\<rparr>)) (\<lambda>_.
             finally_do body (modify (\<lambda>w. w\<lparr>rw_active := removeAll i (rw_active w)\<rparr>))))) Q" for a
      by (rule goes_fact) (simp, rule goes_check, simp, rule run)
  qed
qed

lemma active_simps [simp]:
  "at m j f bs L (w\<lparr>rw_active := s\<rparr>) = at m j f bs L w"
  "cleared m i f L (w\<lparr>rw_active := s\<rparr>) = cleared m i f L w"
  "finished m j f c X r (w\<lparr>rw_active := s\<rparr>) = finished m j f c X r w"
  by (simp_all add: at_def cleared_def finished_def journal_of_def)

lemma stored_loaded: "journal_of m w i = Some j \<Longrightarrow> loadRecordingJournal (rm_prefix m) idb_ok (rw_db w) i = Inr (Some j)"
  by (auto simp: journal_of_def recording_store.stored_def split: sum.splits option.splits)

lemma goes_resume_body:
  assumes hm: "honest_manager m sc" and j: "belongs m sc j f" and bs: "int (length bs) \<le> max_safe_integer"
  shows "goes m sc (at m j f bs L) (resume_body m v2 (rj_operationId j)) (settled m sc j f L)"
proof -
  have legacy: "rj_profile j \<noteq> Profile_encrypted_upload_v2" using j by (simp add: belongs_def)
  show ?thesis
    unfolding resume_body_def load_recording_def
    by (rule goes_catching, rule goes_db_read [where x = "Some j", OF timeless_at])
      (auto simp: at_def stored_loaded legacy [simplified] legacy intro!: goes_check goes_resume_legacy [OF hm j bs])
qed

lemma goes_resume:
  assumes hm: "honest_manager m sc" and j: "belongs m sc j f" and bs: "int (length bs) \<le> max_safe_integer"
  shows "goes m sc (\<lambda>w. at m j f bs L w \<and> rj_operationId j \<notin> set (rw_active w))
     (resume_recording m v2 (rj_operationId j)) (settled m sc j f L)"
proof (cases "recording_journal_wf j")
  case True
  have m: "rm_storage m" "rm_provider m" using hm by (simp_all add: honest_manager_def)
  have "validateOperationId (rj_operationId j) = ret ()"
    using True by (simp add: validateOperationId_def recording_journal_wf_def valid_id_def)
  then show ?thesis
    unfolding resume_recording_def
    by (intro goes_available) (simp add: m requireStorage_def requireUploadProvider_def,
      intro goes_check silent_signals goes_managed [OF goes_resume_body [OF hm j bs]], simp_all)
next
  case False
  then show ?thesis by (auto simp: goes_def triple_def at_def dest: journal_wf)
qed

section \<open>Synchronising\<close>

lemma wf_sink: "isWellFormedUtf16 i \<Longrightarrow> isWellFormedUtf16 (sinkId i)"
  by (cases i) (simp_all add: sinkId_def js_def lead_surrogate_def trail_surrogate_def)

lemma prepared_wf:
  assumes "valid_id i" and "valid_id s" and "valid_id u" and "valid_count now"
  shows "recording_journal_wf (prepared_journal i s u now)"
  using assms wf_sink [of i]
  by (auto simp: recording_journal_wf_def prepared_journal_def valid_id_def assertRecordingEvidence_def RECORDING_PHASES_def
      sinkId_def js_def)

definition fresh :: "rec_manager \<Rightarrow> jsstring \<Rightarrow> jsstring \<times> jsstring \<Rightarrow> bytes \<Rightarrow> rec_event list \<Rightarrow> rec_world \<Rightarrow> bool" where
  "fresh m i f bs L w \<longleftrightarrow> loadRecordingJournal (rm_prefix m) idb_ok (rw_db w) i = Inr None
     \<and> file_content (rw_files w) f = bs \<and> rw_log w = L"

lemma timeless_fresh [simp]: "timeless (fresh m i f bs L)"
  by (simp add: timeless_def fresh_def)

lemma fresh_active [simp]: "fresh m i f bs L (w\<lparr>rw_active := s\<rparr>) = fresh m i f bs L w"
  by (simp add: fresh_def)

lemma fresh_id: "fresh m i f bs L w \<Longrightarrow> valid_id i"
  by (auto simp: fresh_def loadRecordingJournal_def rbind_eq_Inr idb_get_Inr valid_id_def
      dest!: iffD1 [OF storage_key_Inr_iff, OF exI])

text \<open>The journal a synchronisation begins with.\<close>

definition begun :: "scene \<Rightarrow> recording_journal" where
  "begun sc = prepared_journal (sc_operation sc) (sc_serial sc) (dr_uuid (sc_recording sc)) 0"

definition synced_log :: "scene \<Rightarrow> rec_event list \<Rightarrow> rec_event list \<Rightarrow> bool" where
  "synced_log sc L = uploaded_log (L @ [transferred_of sc (begun sc)]) (begun sc) (sc_upload sc) (sc_cloud sc)"

lemma goes_verify:
  assumes "timeless P" and "goes m sc P (f (sc_device sc, sc_serial sc)) Q"
  shows "goes m sc P (seq verifyConnection f) Q"
proof (rule goes_seq)
  show "goes m sc P verifyConnection (\<lambda>x w. P w \<and> x = (sc_device sc, sc_serial sc))"
    unfolding verifyConnection_def
    by (intro goes_check silent_signals goes_verified assms(1)) (simp add: goes_ret)
qed (rule goes_fact, use assms(2) in simp)

lemma goes_sync_body:
  assumes hm: "honest_manager m sc" and f: "sink_file m (sc_operation sc) = Inr f" and bs: "int (length bs) \<le> max_safe_integer"
    and i: "valid_id (sc_operation sc)"
  shows "goes m sc (fresh m (sc_operation sc) f bs L) (sync_body m v2 (sc_recording sc) (sc_operation sc))
     (finished m (begun sc) f (sc_cloud sc) (synced_log sc L))"
proof -
  let ?i = "sc_operation sc" and ?u = "dr_uuid (sc_recording sc)"
  let ?Q = "finished m (begun sc) f (sc_cloud sc) (synced_log sc L)"
  have m: "valid_id (sc_serial sc)" "valid_id ?u" using hm by (simp_all add: honest_manager_def)
  have start: "goes m sc (fresh m ?i f bs L) (catching
      (seq (store_journal m (prepared_journal ?i (sc_serial sc) ?u now)) (\<lambda>_.
         seq (throwIfAborted operation_signal Op_transfer_recording) (\<lambda>_.
           transferLegacy m v2 (prepared_journal ?i (sc_serial sc) ?u now) (sc_recording sc))))
      (after_failure m v2 ?i [Sdk_cancelled])) ?Q" if now: "valid_count now" for now
  proof (rule goes_catching, rule goes_seq)
    let ?j = "prepared_journal ?i (sc_serial sc) ?u now"
    have id: "rj_operationId ?j = ?i" "rj_serialNumber ?j = sc_serial sc" "rj_recordingUuid ?j = ?u" "rj_phase ?j = Rp_prepared"
      "rj_profile ?j = Profile_legacy"
      by (simp_all add: prepared_journal_def)
    have wf: "recording_journal_wf ?j" by (rule prepared_wf [OF i m now])
    show "goes m sc (fresh m ?i f bs L) (store_journal m ?j) (\<lambda>_. at m ?j f bs L)"
      by (rule goes_store) (auto simp: fresh_def id intro!: store_starts [OF _ wf])
    have same: "finished m ?j f (sc_cloud sc) (uploaded_log (L @ [transferred_of sc ?j]) ?j (sc_upload sc) (sc_cloud sc)) = ?Q"
      by (simp add: synced_log_def begun_def prepared_journal_def finished_def result_of_def uploaded_log_def confirm_of_def
          transferred_of_def fun_eq_iff)
    have j: "belongs m sc ?j f" using f by (simp add: belongs_def prepared_journal_def)
    show "goes m sc (at m ?j f bs L) (seq (throwIfAborted operation_signal Op_transfer_recording) (\<lambda>_.
           transferLegacy m v2 ?j (sc_recording sc))) ?Q"
      unfolding same [symmetric]
      by (rule goes_check, simp, rule goes_transferLegacy [OF hm j _ bs]) (simp add: prepared_journal_def)
  qed
  have none: "fresh m ?i f bs L w \<Longrightarrow> loadRecordingJournal (rm_prefix m) idb_ok (rw_db w) ?i = Inr None" for w
    by (simp add: fresh_def)
  have begin_: "goes m sc (fresh m ?i f bs L) (seq observe (\<lambda>a.
      let prepared = prepared_journal ?i (sc_serial sc) ?u (an_now a) in
      catching
      (seq (store_journal m prepared) (\<lambda>_.
         seq (throwIfAborted operation_signal Op_transfer_recording) (\<lambda>_.
           transferLegacy m v2 prepared (sc_recording sc))))
      (after_failure m v2 ?i [Sdk_cancelled]))) ?Q"
    unfolding Let_def by (rule goes_observe [OF timeless_fresh]) (rule start, rule honest_simps(9))
  show ?thesis
    unfolding sync_body_def load_recording_def
    by (rule goes_db_read [where x = None, OF timeless_fresh], erule none, rule goes_check, simp, simp,
        intro goes_verify timeless_fresh)
      (simp, intro goes_check silent_signals goes_authorize [OF hm timeless_fresh begin_])
qed

lemma goes_sync:
  assumes hm: "honest_manager m sc" and f: "sink_file m (sc_operation sc) = Inr f" and bs: "int (length bs) \<le> max_safe_integer"
  shows "goes m sc (\<lambda>w. fresh m (sc_operation sc) f bs L w \<and> sc_operation sc \<notin> set (rw_active w))
     (sync_legacy m v2 (sc_recording sc) (Some (sc_operation sc))) (finished m (begun sc) f (sc_cloud sc) (synced_log sc L))"
proof (cases "valid_id (sc_operation sc)")
  case True
  have m: "rm_storage m" "rm_provider m" "validateRecording (sc_recording sc) = ret ()"
    using hm by (simp_all add: honest_manager_def)
  have i: "validateOperationId (sc_operation sc) = ret ()"
    using True by (simp add: validateOperationId_def valid_id_def)
  have timeless: "timeless (\<lambda>w. fresh m (sc_operation sc) f bs L w \<and> sc_operation sc \<notin> set (rw_active w))"
    by (simp add: timeless_def fresh_def)
  show ?thesis
    unfolding sync_legacy_def
    by (intro goes_available, simp add: m requireStorage_def requireUploadProvider_def,
      intro goes_check silent_signals goes_observe [OF timeless])
     (simp add: i Let_def, intro goes_managed [OF goes_sync_body [OF hm f bs True]], simp_all)
next
  case False
  then show ?thesis by (auto simp: goes_def triple_def dest: fresh_id)
qed

end
