(* ===== verification/RecordingProps.thy ===== *)
theory RecordingProps
  imports RecordingCompletion
begin

text \<open>
  The promises of the recording manager, over the histories of \<open>RecordingHistory\<close> and the honest
  surroundings of \<open>RecordingProgress\<close>, with a scene in which they can be seen at work.
\<close>

section \<open>A scene\<close>

definition demo_item :: device_recording where
  "demo_item = \<lparr>dr_uuid = js ''rec'', dr_startedAtTimestampSeconds = 1, dr_durationMilliseconds = 2,
     dr_fileSizeBytes = 3, dr_codec = Codec_unknown, dr_encrypted = False, dr_codecRaw = None\<rparr>"

definition demo_scene :: scene where
  "demo_scene = \<lparr>sc_operation = js ''op'', sc_device = js ''dev'', sc_serial = js ''S'',
     sc_recording = deviceRecording demo_item, sc_payload = [[3, 4, 5]], sc_upload = js ''up'', sc_cloud = js ''done''\<rparr>"

definition demo_manager :: rec_manager where
  "demo_manager = \<lparr>rm_storage = True, rm_provider = True, rm_authorizes = True, rm_prefix = js ''p'', rm_directory = js ''d'',
     rm_sha256 = (\<lambda>_. Inr (replicate 32 0xab)), rm_crc32 = (\<lambda>_. Inr 0), rm_listCommand = Inr [1],
     rm_confirmCommand = (\<lambda>_. Inr [2]), rm_decodeList = (\<lambda>_. Inr [demo_item]),
     rm_decodeCapabilities = (\<lambda>_. Inl (Thrown JNull)), rm_supportsBatch = (\<lambda>_. Inr False),
     rm_urlProtocol = (\<lambda>_. Some (js ''https:'')), rm_checkpointObject = (\<lambda>_. JNull),
     rm_ordered = (\<lambda>_ _. True)\<rparr>"

definition demo_branch :: v2_branch where
  "demo_branch = \<lparr>vb_resume = (\<lambda>_. raise (Thrown JNull)), vb_delete = (\<lambda>_. ret ())\<rparr>"

definition demo_reply :: jsval where
  "demo_reply = JObject [(''uploadId'', JString (js ''up'')),
     (''request'', JObject [(''method'', JString (js ''PUT'')), (''url'', JString (js ''u'')), (''headers'', JObject [])]),
     (''cloudCompletionId'', JString (js ''done'')), (''state'', JString (js ''cloud_completed''))]"

definition demo_answer :: answer where
  "demo_answer = \<lparr>an_stop = False, an_aborted = False, an_directAborted = False, an_directError = None,
     an_lost = False, an_exclusive = None, an_idb = idb_ok, an_opfs = opfs_ok, an_now = 7,
     an_connected = Some (js ''dev'', js ''S''), an_device = Some (js ''dev''), an_read = Inr [0x53],
     an_capability = Inl (TransportErr Tr_characteristic_not_found), an_io = None,
     an_notifications = [(RECORDING_LIST_CHARACTERISTIC, [1])], an_entries = Inr [], an_uuid = js ''1'', an_threw = None,
     an_provider = Inr demo_reply, an_fetch = Inr True, an_pulls = 1,
     an_effects = [E_recording_sink_truncate (sinkId (js ''op'')) 0,
       E_recording_sink_append (sinkId (js ''op'')) 0 [3, 4, 5], E_recording_sink_finalize (sinkId (js ''op'')) (Some 0)],
     an_run = Inr [N_recording_transfer_completed False None], an_callback = None, an_hasher = None\<rparr>"

definition demo_start :: rec_world where
  "demo_start = \<lparr>rw_answers = (\<lambda>_. demo_answer), rw_time = 0, rw_db = (\<lambda>_. []), rw_files = (\<lambda>_. None),
     rw_aborted = False, rw_direct = \<lparr>di_operation = Op_unknown, di_aborted = False, di_terminalError = None, di_result = None\<rparr>,
     rw_sink = \<lparr>sk_hashed = [], sk_finalized = False\<rparr>, rw_active = [], rw_destroyed = False, rw_log = []\<rparr>"

definition demo_file :: "jsstring \<times> jsstring" where
  "demo_file = (js ''d'', concat (replicate 32 (hex_byte 0xab)))"

lemma scene_simps [simp]:
  "sc_operation demo_scene = js ''op''" "sc_device demo_scene = js ''dev''" "sc_serial demo_scene = js ''S''"
  "sc_recording demo_scene = deviceRecording demo_item" "sc_payload demo_scene = [[3, 4, 5]]"
  "sc_upload demo_scene = js ''up''" "sc_cloud demo_scene = js ''done''"
  by (simp_all add: demo_scene_def)

lemma demo_ids:
  "valid_id (js ''op'')" "valid_id (js ''S'')" "valid_id (js ''rec'')" "valid_id (js ''up'')" "valid_id (js ''done'')"
  by code_simp+

lemma demo_item_simps [simp]:
  "dr_uuid (deviceRecording demo_item) = js ''rec''" "dr_startedAtTimestampSeconds (deviceRecording demo_item) = 1"
  "dr_durationMilliseconds (deviceRecording demo_item) = 2" "dr_fileSizeBytes (deviceRecording demo_item) = 3"
  by (simp_all add: deviceRecording_def demo_item_def device_recording.extend_def)

lemma demo_manager_ok: "honest_manager demo_manager demo_scene"
  using demo_ids by (simp add: honest_manager_def demo_manager_def validateRecording_def max_safe_integer_def)

lemma demo_serial: "decodeSerial [0x53] p = Inr (js ''S'')"
  by (simp add: decodeSerial_def utf8_decode_def utf16_units_def trim_serial_def serial_padding_def js_whitespace_def js_def)

lemma demo_listed: "list_notification demo_answer = Some [1]"
proof -
  have "map ascii_lower RECORDING_LIST_CHARACTERISTIC = RECORDING_LIST_CHARACTERISTIC" by code_simp
  then show ?thesis by (simp add: list_notification_def demo_answer_def)
qed

lemma demo_replies: "good_reply demo_manager demo_scene demo_reply"
  by (auto simp: good_reply_def demo_reply_def js_property_def validateUploadRequest_def demo_manager_def header_entries_def
      js_object_def)

lemma demo_sends: "sends demo_manager demo_scene demo_answer"
  unfolding sends_def
  by (intro conjI exI [of _ "[0]"] exI [of _ "Some 0"])
    (auto simp: demo_answer_def demo_manager_def transfer_completed_def)

lemma demo_honest_answer: "honest_answer demo_manager demo_scene demo_answer"
  using demo_serial demo_replies demo_sends demo_listed
  by (auto simp: honest_answer_def demo_answer_def valid_count_def max_safe_integer_def demo_manager_def)

lemma demo_honest: "honest demo_manager demo_scene demo_start"
  using demo_honest_answer by (simp add: honest_def demo_start_def)

lemma demo_sink: "sink_file demo_manager (js ''op'') = Inr demo_file"
proof -
  have "isWellFormedUtf16 (sinkId (js ''op''))" using demo_ids(1) by (simp add: wf_sink valid_id_def)
  then show ?thesis
    by (simp add: sink_file_def open_blob_def validateStorageIdentifier_def hashName_def demo_manager_def demo_file_def
        sinkId_def js_def)
qed

definition demo_end :: rec_world where
  "demo_end = run_op demo_manager demo_branch (O_sync (deviceRecording demo_item) (Some (js ''op''))) demo_start"

lemma demo_fresh: "fresh demo_manager (js ''op'') demo_file [] [] demo_start"
proof -
  obtain k where "storage_key (js ''p'') (js ''op'') = Inr k"
    using demo_ids(1) storage_key_Inr_iff [of "js ''p''" "js ''op''"] by (auto simp: valid_id_def)
  then show ?thesis
    by (simp add: fresh_def demo_start_def demo_manager_def loadRecordingJournal_def idb_get_ok file_content_def)
qed

lemma demo_log:
  "\<exists>cx sent complete. rw_log demo_end = [Ev_transferred (js ''op'') (js ''S'') (js ''rec'') [3, 4, 5],
     Ev_put (js ''op'') (js ''up'') sent complete, Ev_accepted (js ''op'') (js ''up''), Ev_completed cx (js ''up'') (js ''done''),
     Ev_confirm (js ''S'') (js ''rec'')]"
proof -
  have "\<exists>r w'. sync_legacy demo_manager demo_branch (deviceRecording demo_item) (Some (js ''op'')) demo_start = (Some (Inr r), w')
      \<and> finished demo_manager (begun demo_scene) demo_file (js ''done'') (synced_log demo_scene []) r w'
      \<and> honest demo_manager demo_scene w'"
    using goesD [OF goes_sync [OF demo_manager_ok, where f = demo_file and bs = "[]" and L = "[]" and ?v2.0 = demo_branch], of demo_start]
      demo_sink demo_fresh demo_honest
    by (simp add: max_safe_integer_def) (simp add: demo_start_def)
  then show ?thesis
    by (auto simp: demo_end_def finished_def cleared_def synced_log_def uploaded_log_def transferred_of_def confirm_of_def begun_def
        prepared_journal_def)
qed

lemma demo_history: "rec_history demo_manager demo_branch {js ''op''} demo_end"
  unfolding demo_end_def
  by (rule H_op [where w = demo_start])
    (auto intro: H_empty simp: demo_start_def continues_def op_in_def fresh_in_def)

lemma demo_distinct: "distinct_files demo_manager {js ''op''}"
  by (simp add: distinct_files_def)

section \<open>Safety\<close>

text \<open>
  C1. In every history of the recording manager, whatever the device, the provider, the storage and the
  page do and wherever a run is cut off, the device is told that it may delete a recording only after
  the provider has declared the upload of that recording of that device complete.
\<close>

theorem confirm_after_completion:
  assumes "rec_history m v2 ids w" and "rw_log w = past @ Ev_confirm s u # later"
  shows "\<exists>context uploadId c.
    (Ev_completed context uploadId c \<in> set past \<or> Ev_reconciled context uploadId c \<in> set past)
    \<and> lc_serialNumber context = s \<and> dr_uuid (lc_recording context) = u"
  using history_log [OF assms] by (auto simp: told_def)

theorem confirm_after_completion_witness:
  "\<exists>past. (\<exists>later. rw_log demo_end = past @ Ev_confirm (js ''S'') (js ''rec'') # later)
    \<and> (\<exists>context uploadId c. (Ev_completed context uploadId c \<in> set past \<or> Ev_reconciled context uploadId c \<in> set past)
        \<and> lc_serialNumber context = js ''S'' \<and> dr_uuid (lc_recording context) = js ''rec'')"
proof -
  obtain past where past: "rw_log demo_end = past @ Ev_confirm (js ''S'') (js ''rec'') # []"
    using demo_log by fastforce
  from confirm_after_completion [OF demo_history past] past show ?thesis by blast
qed

text \<open>
  C12. Every request for an upload reads a prefix of exactly the bytes that were last transferred
  from the device for that operation, and all of them if it reads to the end, also when the transfer was
  done before the page was closed; what other operations do to their blobs does not matter, as long as
  the hash gives the operations different files.
\<close>

theorem uploads_are_transferred:
  assumes "distinct_files m ids" and "rec_history m v2 ids w" and "rw_log w = past @ Ev_put i uploadId sent complete # later"
  shows "\<exists>bs rest. staged_bytes past i = Some bs \<and> bs = sent @ rest \<and> (complete \<longrightarrow> rest = [])"
  using history_log [OF assms(2,3)] assms(1) by auto

theorem uploads_are_transferred_witness:
  "\<exists>past sent complete later rest. rw_log demo_end = past @ Ev_put (js ''op'') (js ''up'') sent complete # later
     \<and> staged_bytes past (js ''op'') = Some ([3, 4, 5] :: bytes) \<and> [3, 4, 5] = sent @ rest"
proof -
  let ?past = "[Ev_transferred (js ''op'') (js ''S'') (js ''rec'') [3, 4, 5]]"
  obtain sent complete later where log: "rw_log demo_end = ?past @ Ev_put (js ''op'') (js ''up'') sent complete # later"
    using demo_log by auto
  have "staged_bytes ?past (js ''op'') = Some [3, 4, 5]" by (simp add: staged_bytes_def)
  moreover from this uploads_are_transferred [OF demo_distinct demo_history log] obtain rest where "[3, 4, 5] = sent @ rest"
    by auto
  ultimately show ?thesis using log by blast
qed

text \<open>
  C13. When an upload is declared complete, its request was answered with success before, and the
  context the provider was given names the size and the digest of the bytes that were transferred.
\<close>

theorem completions_describe_transfer:
  assumes "distinct_files m ids" and "rec_history m v2 ids w" and "rw_log w = past @ Ev_completed context uploadId c # later"
  shows "Ev_accepted (lc_operationId context) uploadId \<in> set past \<and> describes m past context"
  using history_log [OF assms(2,3)] assms(1) by simp

theorem completions_describe_transfer_witness:
  "\<exists>past cx. (\<exists>later. rw_log demo_end = past @ Ev_completed cx (js ''up'') (js ''done'') # later)
     \<and> Ev_accepted (lc_operationId cx) (js ''up'') \<in> set past \<and> describes demo_manager past cx"
proof -
  obtain past cx where log: "rw_log demo_end = past @ Ev_completed cx (js ''up'') (js ''done'') # [Ev_confirm (js ''S'') (js ''rec'')]"
    using demo_log by fastforce
  from completions_describe_transfer [OF demo_distinct demo_history log] log show ?thesis by blast
qed

section \<open>Progress\<close>

text \<open>
  C3. When everybody answers as hoped, a synchronisation ends: it yields the result with the
  completion of the provider; the recording was transferred, sent, declared complete and confirmed in
  this order, and neither the journal nor the blob is left.
\<close>

theorem sync_settles:
  assumes "honest_manager m sc" and "honest m sc w" and "sink_file m (sc_operation sc) = Inr f"
    and "int (length (file_content (rw_files w) f)) \<le> max_safe_integer"
    and "loadRecordingJournal (rm_prefix m) idb_ok (rw_db w) (sc_operation sc) = Inr None"
    and "sc_operation sc \<notin> set (rw_active w)"
  shows "\<exists>r w'. sync_legacy m v2 (sc_recording sc) (Some (sc_operation sc)) w = (Some (Inr r), w')
    \<and> finished m (begun sc) f (sc_cloud sc) (synced_log sc (rw_log w)) r w'"
proof -
  have P: "fresh m (sc_operation sc) f (file_content (rw_files w) f) (rw_log w) w \<and> sc_operation sc \<notin> set (rw_active w)"
    using assms(5,6) by (simp add: fresh_def)
  from goesD [OF goes_sync [OF assms(1,3,4)] P assms(2)] show ?thesis by blast
qed

theorem sync_settles_witness:
  "\<exists>r w'. sync_legacy demo_manager demo_branch (deviceRecording demo_item) (Some (js ''op'')) demo_start = (Some (Inr r), w')
    \<and> finished demo_manager (begun demo_scene) demo_file (js ''done'') (synced_log demo_scene []) r w'"
  using sync_settles [OF demo_manager_ok demo_honest, where f = demo_file and ?v2.0 = demo_branch] demo_sink demo_fresh
  by (simp add: fresh_def max_safe_integer_def) (simp add: demo_start_def)

text \<open>
  C2. When everybody answers as hoped, an operation that was cut off in any phase is brought to its end
  by resuming it: what is missing is done and nothing twice (a finished upload is not sent again), the
  result names the completion, and afterwards the key of the operation holds no journal and no workflow
  checkpoint and its blob is no longer a file.
\<close>

theorem resume_settles:
  assumes "honest_manager m sc" and "honest m sc w" and "journal_of m w (rj_operationId j) = Some j" and "belongs m sc j f"
    and "int (length (file_content (rw_files w) f)) \<le> max_safe_integer" and "rj_operationId j \<notin> set (rw_active w)"
  shows "\<exists>r w'. resume_recording m v2 (rj_operationId j) w = (Some (Inr r), w')
    \<and> finished m j f (completion_of sc j) (resumed_log sc (rw_log w) j) r w'"
proof -
  have P: "at m j f (file_content (rw_files w) f) (rw_log w) w \<and> rj_operationId j \<notin> set (rw_active w)"
    using assms(3,6) by (simp add: at_def)
  from goesD [OF goes_resume [OF assms(1,4,5)] P assms(2)] show ?thesis by blast
qed

definition demo_journal :: recording_journal where
  "demo_journal = \<lparr>rj_operationId = js ''op'', rj_serialNumber = js ''S'', rj_recordingUuid = js ''rec'',
     rj_profile = Profile_legacy, rj_phase = Rp_uploading, rj_sinkId = sinkId (js ''op''), rj_uploadId = Some (js ''up''),
     rj_cloudCompletionId = None, rj_confirmationDigestHex = None, rj_devicePlaintextSha256Hex = None,
     rj_updatedAtEpochMs = 5\<rparr>"

definition demo_stopped :: rec_world where
  "demo_stopped = demo_start\<lparr>rw_db := (\<lambda>_. [])(Sn_recording_journals := [(js ''p2:6f70'', recording_journal_value demo_journal)])\<rparr>"

lemma demo_stored: "journal_of demo_manager demo_stopped (js ''op'') = Some demo_journal"
proof -
  have "storage_key (js ''p'') (js ''op'') = Inr (js ''p2:6f70'')" by code_simp
  moreover have "valid_id (sinkId (js ''op''))"
    using demo_ids(1) wf_sink [of "js ''op''"] by (simp add: valid_id_def) (simp add: sinkId_def js_def)
  then have "recording_journal_wf demo_journal"
    using demo_ids
    by (simp add: recording_journal_wf_def demo_journal_def valid_count_def max_safe_integer_def assertRecordingEvidence_def
        RECORDING_PHASES_def)
  ultimately show ?thesis
    using recordingJournal_value [of demo_journal]
    by (simp add: journal_of_def recording_store.stored_eq demo_stopped_def demo_manager_def) (simp add: demo_journal_def)
qed

theorem resume_settles_witness:
  "\<exists>r w' cx. resume_recording demo_manager demo_branch (js ''op'') demo_stopped = (Some (Inr r), w')
    \<and> rr_cloudCompletionId r = js ''done''
    \<and> record_kept demo_manager (js ''op'') Sn_recording_journals demo_stopped \<noteq> None
    \<and> record_kept demo_manager (js ''op'') Sn_recording_journals w' = None
    \<and> record_kept demo_manager (js ''op'') Sn_workflow_checkpoints w' = None \<and> rw_files w' demo_file = None
    \<and> rw_log w' = [Ev_reconciled cx (js ''up'') (js ''done''), Ev_confirm (js ''S'') (js ''rec'')]"
proof -
  have honest: "honest demo_manager demo_scene demo_stopped"
    using demo_honest by (simp add: demo_stopped_def honest_def)
  have j: "belongs demo_manager demo_scene demo_journal demo_file"
    using demo_sink by (simp add: belongs_def demo_journal_def)
  have id: "rj_operationId demo_journal = js ''op''" by (simp add: demo_journal_def)
  have "int (length (file_content (rw_files demo_stopped) demo_file)) \<le> max_safe_integer" "js ''op'' \<notin> set (rw_active demo_stopped)"
    "rw_log demo_stopped = []"
    by (simp_all add: demo_stopped_def demo_start_def file_content_def max_safe_integer_def)
  with resume_settles [OF demo_manager_ok honest _ j, where ?v2.0 = demo_branch] demo_stored obtain r w' where
    "resume_recording demo_manager demo_branch (js ''op'') demo_stopped = (Some (Inr r), w')"
    "finished demo_manager demo_journal demo_file (completion_of demo_scene demo_journal) (resumed_log demo_scene [] demo_journal) r w'"
    unfolding id by auto
  moreover have "record_kept demo_manager (js ''op'') Sn_recording_journals demo_stopped \<noteq> None"
    by code_simp
  ultimately show ?thesis
    by (auto simp: id finished_def result_of_def completion_of_def cleared_def resumed_log_def confirm_of_def demo_journal_def)
qed

section \<open>Errors\<close>

abbreviation sdk_only :: "(rec_world, 'a) prog \<Rightarrow> bool" where
  "sdk_only prog \<equiv> triple (\<lambda>_. True) prog (\<lambda>_ _. True) (\<lambda>e _. \<exists>b. e = SdkErr b) (\<lambda>_. True)"

lemma sdk_ignoring: "sdk_only (seq (ignoring prog) f)" if "\<And>x. sdk_only (f x)"
proof (rule triple_seq)
  show "triple (\<lambda>_. True) (ignoring prog) (\<lambda>_ _. True) (\<lambda>e _. \<exists>b. e = SdkErr b) (\<lambda>_. True)"
    by (auto simp: triple_def ignoring_def catching_def seq_def ret_def split: prod.splits option.splits sum.splits)
qed (rule that)

lemma sdk_basic: "sdk_only (ret x)" "sdk_only (raise (SdkErr b))" "sdk_only (reject c p)" "sdk_only (get f)" "sdk_only (modify g)"
  by (auto simp: triple_def ret_def raise_def reject_def get_def modify_def)

lemma sdk_seq: "sdk_only prog \<Longrightarrow> (\<And>x. sdk_only (f x)) \<Longrightarrow> sdk_only (seq prog f)"
  by (rule triple_seq)

lemma sdk_guards:
  "sdk_only (throwIfAborted sig p)" "sdk_only (ensureAvailable p)" "sdk_only (validateOperationId i)"
  "sdk_only (requireStorage m)" "sdk_only (requireUploadProvider m)"
  unfolding throwIfAborted_def cancelled_error_def ensureAvailable_def validateOperationId_def requireStorage_def requireUploadProvider_def
  by (intro sdk_seq triple_if sdk_basic)+

lemma sdk_finally: "sdk_only prog \<Longrightarrow> sdk_only cleanup \<Longrightarrow> sdk_only (finally_do prog cleanup)"
  by (fastforce simp: triple_def finally_do_def seq_def lift_sum_def split: prod.splits option.splits sum.splits)

lemma sdk_after_failure: "sdk_only (after_failure m v2 i codes e)"
proof -
  have "sdk_only (drop_unverified m v2 i)"
    unfolding drop_unverified_def
  proof (rule sdk_ignoring)
    fix x :: "recording_journal option option"
    show "sdk_only (case x of Some (Some current) \<Rightarrow> seq (ignoring (deleteUnverifiedState m v2 current)) (\<lambda>_. ret ()) | _ \<Rightarrow> ret ())"
      by (auto intro: sdk_basic sdk_ignoring split: option.split)
  qed
  then show ?thesis
    unfolding after_failure_def Let_def
    by (intro sdk_seq sdk_basic) (simp add: unless_def sdk_basic)
qed

lemma sdk_catching: "(\<And>e. sdk_only (h e)) \<Longrightarrow> sdk_only (catching prog h)"
proof -
  assume h: "\<And>e. sdk_only (h e)"
  have any: "triple (\<lambda>_. True) prog (\<lambda>_ _. True) (\<lambda>_ _. True) (\<lambda>_. True)"
    by (auto simp: triple_def split: prod.splits option.splits sum.splits)
  show ?thesis by (rule triple_catching [OF any h])
qed

text \<open>
  C14. Whatever goes wrong while an operation is resumed, the caller gets an error of the SDK and no other.
\<close>

theorem resume_rejects_sdk_errors:
  assumes "resume_recording m v2 i w = (Some (Inl e), w')"
  shows "\<exists>b. e = SdkErr b"
proof -
  have body: "sdk_only (resume_body m v2 i)"
    unfolding resume_body_def by (rule sdk_catching) (rule sdk_after_failure)
  have "sdk_only (resume_recording m v2 i)"
    unfolding resume_recording_def runManagedOperation_def
    by (intro sdk_seq sdk_guards triple_if sdk_basic sdk_finally body)
  from tripleD [OF this _ assms] show ?thesis by simp
qed

theorem resume_rejects_sdk_errors_witness:
  "\<exists>w' b. resume_recording demo_manager demo_branch (js ''op'') (demo_start\<lparr>rw_destroyed := True\<rparr>) = (Some (Inl (SdkErr b)), w')"
proof -
  obtain e w' where e: "resume_recording demo_manager demo_branch (js ''op'') (demo_start\<lparr>rw_destroyed := True\<rparr>) = (Some (Inl e), w')"
    by (simp add: resume_recording_def ensureAvailable_def seq_def get_def reject_def raise_def)
  from resume_rejects_sdk_errors [OF e] e show ?thesis by blast
qed

text \<open>
  \<open>confirm\<close>, like \<open>sync\<close> and \<open>cancel\<close>, loads the journal outside any guard, so a failed read reaches the caller as
  the error of the store.
\<close>

lemma confirm_leaks_storage_error:
  "fst (confirm_recording demo_manager demo_branch (js ''op'')
     (demo_start\<lparr>rw_answers := \<lambda>_. demo_answer\<lparr>an_idb := idb_ok\<lparr>idb_opened := Some (StorageErr St_storage_unavailable)\<rparr>\<rparr>\<rparr>))
   = Some (Inl (StorageErr St_storage_unavailable))"
  by code_simp

end
