(* ===== verification/StoreHistory.thy ===== *)
theory StoreHistory
  imports WorkflowStore
begin

text \<open>
  Whole histories of the workflow store: every public operation of \<open>IndexedDbWorkflowStore\<close> that
  changes the database, in any namespace, with any outcome of the browser.  The invariant is that
  each journal record of a namespace validates and is stored under the key of its own identifier,
  so that loading and listing never reject what the store itself wrote.
\<close>

section \<open>Operations\<close>

datatype store_op =
    So_saveVerifiedDevice jsval
  | So_deleteVerifiedDevice jsstring
  | So_saveWorkflowCheckpoint jsstring jsval
  | So_deleteWorkflowCheckpoint jsstring
  | So_saveEncryptedUploadV2Checkpoint jsstring jsval
  | So_deleteEncryptedUploadV2Checkpoint jsstring
  | So_saveEncryptedUploadV2Operation jsstring jsval jsval
  | So_replaceEncryptedUploadV2Operation jsstring jsval jsval "jsstring \<times> jsnum"
  | So_deleteEncryptedUploadV2Operation jsstring
  | So_saveRecordingJournal jsval
  | So_deleteRecordingJournal jsstring
  | So_saveProvisioningJournal jsval
  | So_deleteProvisioningJournal jsstring
  | So_saveFirmwareJournal jsval
  | So_deleteFirmwareJournal jsstring
  | So_clear

fun store_run :: "jsstring \<Rightarrow> idb_env \<Rightarrow> idb \<Rightarrow> store_op \<Rightarrow> (storage_code + unit) \<times> idb" where
  "store_run p env db (So_saveVerifiedDevice v) = saveVerifiedDevice p env db v"
| "store_run p env db (So_deleteVerifiedDevice i) = deleteVerifiedDevice p env db i"
| "store_run p env db (So_saveWorkflowCheckpoint i v) = saveWorkflowCheckpoint p env db i v"
| "store_run p env db (So_deleteWorkflowCheckpoint i) = deleteWorkflowCheckpoint p env db i"
| "store_run p env db (So_saveEncryptedUploadV2Checkpoint i v) = saveEncryptedUploadV2Checkpoint p env db i v"
| "store_run p env db (So_deleteEncryptedUploadV2Checkpoint i) = deleteEncryptedUploadV2Checkpoint p env db i"
| "store_run p env db (So_saveEncryptedUploadV2Operation i c j) = saveEncryptedUploadV2Operation p env db i c j"
| "store_run p env db (So_replaceEncryptedUploadV2Operation i c j prev) =
     replaceEncryptedUploadV2Operation p env db i c j prev"
| "store_run p env db (So_deleteEncryptedUploadV2Operation i) = deleteEncryptedUploadV2Operation p env db i"
| "store_run p env db (So_saveRecordingJournal v) = saveRecordingJournal p env db v"
| "store_run p env db (So_deleteRecordingJournal i) = deleteRecordingJournal p env db i"
| "store_run p env db (So_saveProvisioningJournal v) = saveProvisioningJournal p env db v"
| "store_run p env db (So_deleteProvisioningJournal i) = deleteProvisioningJournal p env db i"
| "store_run p env db (So_saveFirmwareJournal v) = saveFirmwareJournal p env db v"
| "store_run p env db (So_deleteFirmwareJournal i) = deleteFirmwareJournal p env db i"
| "store_run p env db So_clear = store_clear p env db"

text \<open>A client of any namespace performs an operation.  A namespace that is not valid has no store.\<close>

inductive store_step :: "idb \<Rightarrow> idb \<Rightarrow> bool" where
  "namespacePrefix ns = Inr p \<Longrightarrow> store_step db (snd (store_run p env db sop))"

inductive store_reachable :: "idb \<Rightarrow> bool" where
  empty: "store_reachable (\<lambda>_. [])"
| step: "store_reachable db \<Longrightarrow> store_step db db' \<Longrightarrow> store_reachable db'"

inductive_cases store_stepE: "store_step db db'"

section \<open>The invariant\<close>

text \<open>Every record of the journal store carries the key some namespace gives its identifier.\<close>

definition recording_keyed :: "idb \<Rightarrow> bool" where
  "recording_keyed db \<longleftrightarrow>
     (\<forall>(k, v) \<in> set (db Sn_recording_journals).
        \<exists>ns p j. namespacePrefix ns = Inr p \<and> recordingJournal v = Inr j
          \<and> storage_key p (rj_operationId j) = Inr k)"

definition provisioning_keyed :: "idb \<Rightarrow> bool" where
  "provisioning_keyed db \<longleftrightarrow>
     (\<forall>(k, v) \<in> set (db Sn_provisioning_journals).
        \<exists>ns p j. namespacePrefix ns = Inr p \<and> provisioningJournal v = Inr j
          \<and> storage_key p (pj_attemptId j) = Inr k)"

definition store_keyed :: "idb \<Rightarrow> bool" where
  "store_keyed db \<longleftrightarrow> recording_keyed db \<and> provisioning_keyed db"

lemma set_os_put: "set (os_put k v r) \<subseteq> insert (k, v) (set r)"
proof (induction r)
  case (Cons x r)
  then show ?case by (cases x) auto
qed simp

lemma recording_keyed_put:
  assumes "recording_keyed db" and "namespacePrefix ns = Inr p" and "recordingJournal v = Inr j"
    and "storage_key p (rj_operationId j) = Inr k"
  shows "recording_keyed (db(Sn_recording_journals := os_put k (recording_journal_value j) (db Sn_recording_journals)))"
proof -
  let ?P = "\<lambda>(k, v). \<exists>ns p j. namespacePrefix ns = Inr p \<and> recordingJournal v = Inr j
    \<and> storage_key p (rj_operationId j) = Inr k"
  have "recordingJournal (recording_journal_value j) = Inr j"
    by (rule recordingJournal_value) (rule recordingJournal_wf [OF assms(3)])
  with assms(2,4) have new: "?P (k, recording_journal_value j)" by blast
  have old: "\<forall>x \<in> set (db Sn_recording_journals). ?P x" using assms(1) unfolding recording_keyed_def .
  show ?thesis
    unfolding recording_keyed_def fun_upd_same
  proof
    fix x
    assume "x \<in> set (os_put k (recording_journal_value j) (db Sn_recording_journals))"
    with set_os_put have "x = (k, recording_journal_value j) \<or> x \<in> set (db Sn_recording_journals)" by blast
    with new old show "?P x" by blast
  qed
qed

lemma provisioning_keyed_put:
  assumes "provisioning_keyed db" and "namespacePrefix ns = Inr p" and "provisioningJournal v = Inr j"
    and "storage_key p (pj_attemptId j) = Inr k"
  shows "provisioning_keyed (db(Sn_provisioning_journals := os_put k (provisioning_journal_value j) (db Sn_provisioning_journals)))"
proof -
  let ?P = "\<lambda>(k, v). \<exists>ns p j. namespacePrefix ns = Inr p \<and> provisioningJournal v = Inr j
    \<and> storage_key p (pj_attemptId j) = Inr k"
  have "provisioningJournal (provisioning_journal_value j) = Inr j"
    by (rule provisioningJournal_value) (rule provisioningJournal_wf [OF assms(3)])
  with assms(2,4) have new: "?P (k, provisioning_journal_value j)" by blast
  have old: "\<forall>x \<in> set (db Sn_provisioning_journals). ?P x" using assms(1) unfolding provisioning_keyed_def .
  show ?thesis
    unfolding provisioning_keyed_def fun_upd_same
  proof
    fix x
    assume "x \<in> set (os_put k (provisioning_journal_value j) (db Sn_provisioning_journals))"
    with set_os_put have "x = (k, provisioning_journal_value j) \<or> x \<in> set (db Sn_provisioning_journals)" by blast
    with new old show "?P x" by blast
  qed
qed

lemma store_keyed_other:
  "store_keyed db \<Longrightarrow> s \<noteq> Sn_recording_journals \<Longrightarrow> s \<noteq> Sn_provisioning_journals \<Longrightarrow> store_keyed (db(s := r))"
  by (auto simp: store_keyed_def recording_keyed_def provisioning_keyed_def)

lemma store_keyed_subset:
  "store_keyed db \<Longrightarrow> set (db' Sn_recording_journals) \<subseteq> set (db Sn_recording_journals)
     \<Longrightarrow> set (db' Sn_provisioning_journals) \<subseteq> set (db Sn_provisioning_journals) \<Longrightarrow> store_keyed db'"
  unfolding store_keyed_def recording_keyed_def provisioning_keyed_def by blast

text \<open>An operation keeps the invariant when the state its transaction leaves does.\<close>

lemma transaction_keyed:
  assumes "store_keyed db" and "\<And>x db'. body db = (Inr x, db') \<Longrightarrow> store_keyed db'"
  shows "store_keyed (snd (idb_transaction env body db))"
  using assms by (auto simp: idb_transaction_def split: option.splits sum.splits prod.splits)

lemma idb_put_keyed:
  assumes "store_keyed db" and "s \<noteq> Sn_recording_journals" and "s \<noteq> Sn_provisioning_journals"
  shows "store_keyed (snd (idb_put p env db s i v))"
  using assms
  by (auto simp: idb_put_def put_record_Inr store_keyed_other intro!: transaction_keyed split: sum.split)

lemma idb_delete_keyed:
  assumes "store_keyed db"
  shows "store_keyed (snd (idb_delete p env db s i))"
proof (cases "storage_key p i")
  case (Inr k)
  have "store_keyed (db(s := filter Q (db s)))" for Q by (rule store_keyed_subset [OF assms]) auto
  with Inr assms show ?thesis by (auto simp: idb_delete_def os_delete_def intro!: transaction_keyed)
qed (simp add: idb_delete_def assms)

lemma saveRecordingJournal_keyed:
  assumes "store_keyed db" and "namespacePrefix ns = Inr p"
  shows "store_keyed (snd (saveRecordingJournal p env db v))"
proof (cases "fst (saveRecordingJournal p env db v)")
  case (Inl e)
  with recording_store.save_rejected assms(1) show ?thesis by metis
next
  case (Inr u)
  then obtain db' where db': "saveRecordingJournal p env db v = (Inr (), db')"
    by (cases "saveRecordingJournal p env db v") auto
  then obtain j k where "recordingJournal v = Inr j" "storage_key p (rj_operationId j) = Inr k"
    "db' = db(Sn_recording_journals := os_put k (recording_journal_value j) (db Sn_recording_journals))"
    by (rule recording_store.save_accepted)
  with assms db' recording_keyed_put [of db ns p v j k] show ?thesis
    by (simp add: store_keyed_def provisioning_keyed_def)
qed

lemma saveProvisioningJournal_keyed:
  assumes "store_keyed db" and "namespacePrefix ns = Inr p"
  shows "store_keyed (snd (saveProvisioningJournal p env db v))"
proof (cases "fst (saveProvisioningJournal p env db v)")
  case (Inl e)
  with provisioning_store.save_rejected assms(1) show ?thesis by metis
next
  case (Inr u)
  then obtain db' where db': "saveProvisioningJournal p env db v = (Inr (), db')"
    by (cases "saveProvisioningJournal p env db v") auto
  then obtain j k where "provisioningJournal v = Inr j" "storage_key p (pj_attemptId j) = Inr k"
    "db' = db(Sn_provisioning_journals := os_put k (provisioning_journal_value j) (db Sn_provisioning_journals))"
    by (rule provisioning_store.save_accepted)
  with assms db' provisioning_keyed_put [of db ns p v j k] show ?thesis
    by (simp add: store_keyed_def recording_keyed_def)
qed

lemma saveFirmwareJournal_keyed:
  assumes "store_keyed db"
  shows "store_keyed (snd (saveFirmwareJournal p env db v))"
proof (cases "fst (saveFirmwareJournal p env db v)")
  case (Inl e)
  with firmware_store.save_rejected assms(1) show ?thesis by metis
next
  case (Inr u)
  then obtain db' where db': "saveFirmwareJournal p env db v = (Inr (), db')"
    by (cases "saveFirmwareJournal p env db v") auto
  then obtain j k where "db' = db(Sn_firmware_journals := os_put k (firmware_journal_value j) (db Sn_firmware_journals))"
    by (rule firmware_store.save_accepted)
  with assms db' store_keyed_other [of db Sn_firmware_journals] show ?thesis by simp
qed

text \<open>What an accepted write of an encrypted-upload operation did.\<close>

lemma writeEncryptedUploadV2Operation_cases:
  obtains (rejected) "isl (fst (writeEncryptedUploadV2Operation p env db i c v prev))"
      "snd (writeEncryptedUploadV2Operation p env db i c v prev) = db"
  | (accepted) j k where "recordingJournal v = Inr j" "rj_operationId j = i" "rj_phase j = Rp_prepared"
      "rj_profile j = Profile_encrypted_upload_v2" "storage_key p i = Inr k"
      "case prev of None \<Rightarrow> map_of (db Sn_encrypted_upload_v2_checkpoints) k = None
            \<and> map_of (db Sn_recording_journals) k = None
        | Some (session, revision) \<Rightarrow>
            replaces_owner c v session revision (map_of (db Sn_encrypted_upload_v2_checkpoints) k)
              (map_of (db Sn_recording_journals) k) = Inr ()"
      "writeEncryptedUploadV2Operation p env db i c v prev =
         (Inr (), db(Sn_encrypted_upload_v2_checkpoints :=
                       os_put k (checkpoint_record_value i c) (db Sn_encrypted_upload_v2_checkpoints),
                     Sn_recording_journals :=
                       os_put k (recording_journal_value j) (db Sn_recording_journals)))"
proof (cases "fst (writeEncryptedUploadV2Operation p env db i c v prev)")
  case (Inl e)
  then have "snd (writeEncryptedUploadV2Operation p env db i c v prev) = db"
    by (auto simp: writeEncryptedUploadV2Operation_def dest: idb_transaction_Inl split: sum.splits prod.splits)
  with Inl rejected show ?thesis by simp
next
  case (Inr u)
  then obtain db' where w: "writeEncryptedUploadV2Operation p env db i c v prev = (Inr (), db')"
    by (cases "writeEncryptedUploadV2Operation p env db i c v prev") auto
  let ?ready = "rbind (validateStorageIdentifier i) (\<lambda>i. rbind (recordingJournal v) (\<lambda>j.
    rbind (ensure (\<not> (rj_operationId j \<noteq> i \<or> rj_profile j \<noteq> Profile_encrypted_upload_v2
      \<or> rj_phase j \<noteq> Rp_prepared)) St_resume_rejected) (\<lambda>_. rbind (storage_key p i) (\<lambda>k. Inr (i, j, k)))))"
  obtain i' j k where ready: "?ready = Inr (i', j, k)"
    using w by (cases ?ready) (auto simp: writeEncryptedUploadV2Operation_def)
  then have facts: "i' = i" "recordingJournal v = Inr j" "rj_operationId j = i" "rj_phase j = Rp_prepared"
    "rj_profile j = Profile_encrypted_upload_v2" "storage_key p i = Inr k"
    by (auto simp: validateStorageIdentifier_def rbind_eq_Inr split: if_splits)
  show ?thesis
  proof (rule accepted [OF facts(2,3,4,5,6)])
    show "case prev of None \<Rightarrow> map_of (db Sn_encrypted_upload_v2_checkpoints) k = None
            \<and> map_of (db Sn_recording_journals) k = None
        | Some (session, revision) \<Rightarrow>
            replaces_owner c v session revision (map_of (db Sn_encrypted_upload_v2_checkpoints) k)
              (map_of (db Sn_recording_journals) k) = Inr ()"
      using w facts(1) unfolding writeEncryptedUploadV2Operation_def ready
      by (cases prev) (auto simp: idb_transaction_Inr Let_def split: sum.splits prod.splits)
    show "writeEncryptedUploadV2Operation p env db i c v prev =
         (Inr (), db(Sn_encrypted_upload_v2_checkpoints :=
                       os_put k (checkpoint_record_value i c) (db Sn_encrypted_upload_v2_checkpoints),
                     Sn_recording_journals :=
                       os_put k (recording_journal_value j) (db Sn_recording_journals)))"
      unfolding w using w facts(1)
      unfolding writeEncryptedUploadV2Operation_def ready
      by (auto simp: idb_transaction_Inr put_record_Inr Let_def split: sum.splits prod.splits)
  qed
qed

lemma recordingJournal_undefined [simp]: "recordingJournal JUndefined \<noteq> Inr j"
  by (auto simp: recordingJournal_def)

text \<open>What a replacement has been found to satisfy: \<open>c\<close> the new checkpoint, \<open>v\<close> the new journal.\<close>

definition owner_replaced :: "jsval \<Rightarrow> jsval \<Rightarrow> jsstring \<Rightarrow> jsnum \<Rightarrow> jsval option \<Rightarrow> jsval option \<Rightarrow> bool" where
  "owner_replaced c v session revision existing existingJournal \<longleftrightarrow>
     (\<exists>old oldCheckpoint oldValue oldJournal r n.
        existing = Some old \<and> existingJournal = Some oldValue
        \<and> oldCheckpoint = js_get old ''checkpoint''
        \<and> js_get oldCheckpoint ''uploadSessionId'' = JString session
        \<and> js_get oldCheckpoint ''ownerRevision'' = JNumber r \<and> jsnum_eq r revision
        \<and> js_get c ''ownerRevision'' = JNumber n \<and> \<not> jsnum_le n revision
        \<and> js_get c ''uploadSessionId'' \<noteq> JString session
        \<and> js_get c ''coreCheckpoint'' = JNull
        \<and> recordingJournal oldValue = Inr oldJournal
        \<and> rj_phase oldJournal \<notin> {Rp_cloud_completed, Rp_confirmed}
        \<and> rj_profile oldJournal = Profile_encrypted_upload_v2
        \<and> js_get v ''serialNumber'' = JString (rj_serialNumber oldJournal)
        \<and> js_get v ''recordingUuid'' = JString (rj_recordingUuid oldJournal)
        \<and> js_get v ''sinkId'' = JString (rj_sinkId oldJournal))"

lemma js_strict_eq_number: "js_strict_eq v (JNumber n) \<longleftrightarrow> (\<exists>m. v = JNumber m \<and> jsnum_eq m n)"
  by (cases v) auto

lemma js_strict_eq_string [simp]: "js_strict_eq v (JString s) \<longleftrightarrow> v = JString s"
  by (cases v) auto

lemma replaces_owner_Inr:
  assumes "replaces_owner c v session revision existing existingJournal = Inr ()"
  shows "owner_replaced c v session revision existing existingJournal"
proof (cases existing; cases existingJournal)
  fix old oldValue
  assume some: "existing = Some old" "existingJournal = Some oldValue"
  with assms obtain oldJournal where facts: "recordingJournal oldValue = Inr oldJournal"
    "js_get (js_get old ''checkpoint'') ''uploadSessionId'' = JString session"
    "js_strict_eq (js_get (js_get old ''checkpoint'') ''ownerRevision'') (JNumber revision)"
    "js_get c ''uploadSessionId'' \<noteq> JString session" "js_get c ''coreCheckpoint'' = JNull"
    "case js_get c ''ownerRevision'' of JNumber n \<Rightarrow> \<not> jsnum_le n revision | _ \<Rightarrow> False"
    "rj_phase oldJournal \<notin> {Rp_cloud_completed, Rp_confirmed}"
    "rj_profile oldJournal = Profile_encrypted_upload_v2"
    "js_get v ''serialNumber'' = JString (rj_serialNumber oldJournal)"
    "js_get v ''recordingUuid'' = JString (rj_recordingUuid oldJournal)"
    "js_get v ''sinkId'' = JString (rj_sinkId oldJournal)"
    by (auto simp: replaces_owner_def optional_value_def rbind_eq_Inr split: jsval.splits)
  moreover obtain n where "js_get c ''ownerRevision'' = JNumber n" "\<not> jsnum_le n revision"
    using facts(6) by (auto split: jsval.splits)
  ultimately show ?thesis
    using some unfolding owner_replaced_def js_strict_eq_number by blast
qed (use assms in \<open>auto simp: replaces_owner_def optional_value_def\<close>)

lemma writeEncryptedUploadV2Operation_keyed:
  assumes "store_keyed db" and "namespacePrefix ns = Inr p"
  shows "store_keyed (snd (writeEncryptedUploadV2Operation p env db i c v prev))"
proof (cases rule: writeEncryptedUploadV2Operation_cases [of p env db i c v prev])
  case rejected
  with assms show ?thesis by simp
next
  case (accepted j k)
  let ?db = "db(Sn_encrypted_upload_v2_checkpoints :=
    os_put k (checkpoint_record_value i c) (db Sn_encrypted_upload_v2_checkpoints))"
  have "store_keyed ?db" using store_keyed_other [OF assms(1)] by simp
  with accepted assms(2) recording_keyed_put [of ?db ns p v j k] show ?thesis
    by (simp add: store_keyed_def provisioning_keyed_def)
qed

lemma store_clear_keyed:
  assumes "store_keyed db"
  shows "store_keyed (snd (store_clear p env db))"
  unfolding store_clear_def
proof (rule transaction_keyed [OF assms])
  fix x db'
  assume "(Inr (), foldl (\<lambda>d s. d(s := os_delete_range p (d s))) db STORE_NAMES) = (Inr x :: js_error + unit, db')"
  then show "store_keyed db'"
    by (intro store_keyed_subset [OF assms]) (auto simp: STORE_NAMES_def os_delete_range_def)
qed

lemma deleteOperation_keyed:
  assumes "store_keyed db"
  shows "store_keyed (snd (deleteEncryptedUploadV2Operation p env db i))"
proof (cases "storage_key p i")
  case (Inr k)
  have "store_keyed (db(Sn_encrypted_upload_v2_checkpoints := r, Sn_recording_journals := filter Q (db Sn_recording_journals)))"
    for r Q by (rule store_keyed_subset [OF assms]) auto
  with Inr assms show ?thesis
    by (auto simp: deleteEncryptedUploadV2Operation_def os_delete_def intro!: transaction_keyed)
qed (simp add: deleteEncryptedUploadV2Operation_def assms)

lemmas store_op_defs = saveVerifiedDevice_def deleteVerifiedDevice_def saveWorkflowCheckpoint_def
  deleteWorkflowCheckpoint_def saveEncryptedUploadV2Checkpoint_def deleteEncryptedUploadV2Checkpoint_def
  save_checkpoint_def saveEncryptedUploadV2Operation_def replaceEncryptedUploadV2Operation_def
  deleteRecordingJournal_def deleteProvisioningJournal_def deleteFirmwareJournal_def

lemma store_run_keyed:
  assumes "store_keyed db" and "namespacePrefix ns = Inr p"
  shows "store_keyed (snd (store_run p env db sop))"
  using assms
  by (cases sop)
    (auto simp: store_op_defs idb_put_keyed idb_delete_keyed saveRecordingJournal_keyed
      saveProvisioningJournal_keyed saveFirmwareJournal_keyed writeEncryptedUploadV2Operation_keyed
      store_clear_keyed deleteOperation_keyed split: sum.split)

lemma store_reachable_keyed: "store_reachable db \<Longrightarrow> store_keyed db"
proof (induction rule: store_reachable.induct)
  case empty
  then show ?case by (simp add: store_keyed_def recording_keyed_def provisioning_keyed_def)
next
  case (step db db')
  from step(2) step.IH show ?case by (elim store_stepE) (simp add: store_run_keyed)
qed

section \<open>Key order\<close>

definition store_sorted :: "idb \<Rightarrow> bool" where
  "store_sorted db \<longleftrightarrow> (\<forall>s. sorted_wrt (<) (map fst (db s)))"

lemma os_put_keys: "fst ` set (os_put k v r) \<subseteq> insert k (fst ` set r)"
  using set_os_put [of k v r] by force

lemma os_put_sorted: "sorted_wrt (<) (map fst r) \<Longrightarrow> sorted_wrt (<) (map fst (os_put k v r))"
proof (induction r)
  case (Cons x r)
  obtain k' v' where x: "x = (k', v')" by (cases x)
  consider "k = k'" | "k < k'" | "k' < k" by (rule linorder_cases)
  then show ?case
  proof cases
    case 3
    have "k' < y" if "y \<in> fst ` set (os_put k v r)" for y
    proof -
      from that os_put_keys have "y = k \<or> y \<in> fst ` set r" by blast
      with 3 Cons.prems x show ?thesis by auto
    qed
    moreover have "os_put k v (x # r) = x # os_put k v r" using 3 x by auto
    ultimately show ?thesis using Cons x by simp
  qed (use Cons.prems x in auto)
qed simp

lemma filter_keys_sorted: "sorted_wrt (<) (map fst r) \<Longrightarrow> sorted_wrt (<) (map fst (filter P r))"
proof (induction r)
  case (Cons x r)
  then show ?case by auto
qed simp

lemma store_sorted_put: "store_sorted db \<Longrightarrow> store_sorted (db(s := os_put k v (db s)))"
  by (simp add: store_sorted_def os_put_sorted)

lemma store_sorted_filter: "store_sorted db \<Longrightarrow> store_sorted (db(s := filter P (db s)))"
  by (simp add: store_sorted_def filter_keys_sorted)

lemma transaction_sorted:
  assumes "store_sorted db" and "\<And>x db'. body db = (Inr x, db') \<Longrightarrow> store_sorted db'"
  shows "store_sorted (snd (idb_transaction env body db))"
  using assms by (auto simp: idb_transaction_def split: option.splits sum.splits prod.splits)

lemma idb_put_sorted: "store_sorted db \<Longrightarrow> store_sorted (snd (idb_put p env db s i v))"
  by (auto simp: idb_put_def put_record_Inr store_sorted_put intro!: transaction_sorted split: sum.split)

lemma idb_delete_sorted: "store_sorted db \<Longrightarrow> store_sorted (snd (idb_delete p env db s i))"
  by (auto simp: idb_delete_def os_delete_def store_sorted_filter intro!: transaction_sorted split: sum.split)

lemma saveMonotonicJournal_sorted:
  "store_sorted db \<Longrightarrow> store_sorted (snd (saveMonotonicJournal p env db s i v ve vi))"
  by (auto simp: saveMonotonicJournal_def put_record_Inr store_sorted_put
      intro!: transaction_sorted split: sum.splits option.splits)

lemma writeEncryptedUploadV2Operation_sorted:
  assumes "store_sorted db"
  shows "store_sorted (snd (writeEncryptedUploadV2Operation p env db i c v prev))"
proof (cases rule: writeEncryptedUploadV2Operation_cases [of p env db i c v prev])
  case (accepted j k)
  let ?db = "db(Sn_encrypted_upload_v2_checkpoints :=
    os_put k (checkpoint_record_value i c) (db Sn_encrypted_upload_v2_checkpoints))"
  have "store_sorted (?db(Sn_recording_journals := os_put k (recording_journal_value j) (?db Sn_recording_journals)))"
    using assms by (intro store_sorted_put)
  with accepted show ?thesis by simp
qed (use assms in simp)

lemma store_clear_sorted: "store_sorted db \<Longrightarrow> store_sorted (snd (store_clear p env db))"
  unfolding store_clear_def
  by (rule transaction_sorted)
    (auto simp: STORE_NAMES_def os_delete_range_def store_sorted_def filter_keys_sorted)

lemma deleteOperation_sorted:
  assumes "store_sorted db"
  shows "store_sorted (snd (deleteEncryptedUploadV2Operation p env db i))"
proof (cases "storage_key p i")
  case (Inr k)
  have "store_sorted (db(Sn_encrypted_upload_v2_checkpoints := filter P (db Sn_encrypted_upload_v2_checkpoints),
      Sn_recording_journals := filter Q (db Sn_recording_journals)))" for P Q
    using assms by (simp add: store_sorted_def filter_keys_sorted)
  with Inr assms show ?thesis
    by (auto simp: deleteEncryptedUploadV2Operation_def os_delete_def intro!: transaction_sorted)
qed (simp add: deleteEncryptedUploadV2Operation_def assms)

lemma store_run_sorted: "store_sorted db \<Longrightarrow> store_sorted (snd (store_run p env db sop))"
  by (cases sop)
    (auto simp: store_op_defs saveRecordingJournal_def saveProvisioningJournal_def saveFirmwareJournal_def
      idb_put_sorted idb_delete_sorted saveMonotonicJournal_sorted writeEncryptedUploadV2Operation_sorted
      store_clear_sorted deleteOperation_sorted split: sum.split)

lemma store_reachable_sorted: "store_reachable db \<Longrightarrow> store_sorted db"
proof (induction rule: store_reachable.induct)
  case empty
  then show ?case by (simp add: store_sorted_def)
next
  case (step db db')
  from step(2) step.IH show ?case by (elim store_stepE) (simp add: store_run_sorted)
qed

lemma sorted_map_of: "sorted_wrt (<) (map fst r) \<Longrightarrow> (k, v) \<in> set r \<Longrightarrow> map_of r k = Some v"
  for r :: object_store
  by (rule map_of_is_SomeI) (auto dest: strict_sorted_iff [THEN iffD1])

section \<open>Listing\<close>

lemma set_insert_by: "set (insert_by le x ys) = insert x (set ys)"
  by (induction ys) auto

lemma set_sort_by: "set (sort_by le xs) = set xs"
  by (induction xs) (auto simp: sort_by_def set_insert_by)

lemma recording_entry:
  assumes "store_reachable db" and "namespacePrefix ns = Inr p"
    and "(k, v) \<in> set (os_range p (db Sn_recording_journals))"
  shows "\<exists>j. recordingJournal v = Inr j \<and> storage_key p (rj_operationId j) = Inr k
    \<and> loadRecordingJournal p idb_ok db (rj_operationId j) = Inr (Some j)"
proof -
  from store_reachable_keyed [OF assms(1)] assms(3) obtain ns' p' j where
    j: "namespacePrefix ns' = Inr p'" "recordingJournal v = Inr j" "storage_key p' (rj_operationId j) = Inr k"
    by (fastforce simp: os_range_def store_keyed_def recording_keyed_def)
  have "in_namespaceRange p k" using assms(3) by (simp add: os_range_def)
  with namespace_range_iff [OF assms(2) j(1,3)] have "ns = ns'" by simp
  with j assms(2) have key: "storage_key p (rj_operationId j) = Inr k" by simp
  have "map_of (db Sn_recording_journals) k = Some v"
    using store_reachable_sorted [OF assms(1)] assms(3)
    by (auto simp: store_sorted_def os_range_def intro: sorted_map_of)
  with key j(2) show ?thesis by (auto simp: loadRecordingJournal_def idb_get_ok)
qed

text \<open>
  C9. Listing never rejects what the store wrote: after any history of operations in any namespaces,
  with any browser failures, listing the recording journals of a namespace succeeds and returns
  exactly the journals that can be loaded there.
\<close>

theorem list_recordings_complete:
  assumes "store_reachable db" and "namespacePrefix ns = Inr p"
  shows "\<exists>listed. listRecordingJournals le p idb_ok db = Inr listed
    \<and> (\<forall>j. j \<in> set listed \<longleftrightarrow> loadRecordingJournal p idb_ok db (rj_operationId j) = Inr (Some j))"
proof -
  let ?entries = "os_range p (db Sn_recording_journals)"
  let ?js = "map (\<lambda>x. projr (recordingJournal (snd x))) ?entries"
  let ?dec = "\<lambda>(key, v). rbind (recordingJournal v) (\<lambda>journal.
    rbind (storage_key p (rj_operationId journal)) (\<lambda>k. if key \<noteq> k then resumeRejected else Inr journal))"
  note entry = recording_entry [OF assms]
  have "\<And>x. x \<in> set ?entries \<Longrightarrow> ?dec x = Inr (projr (recordingJournal (snd x)))"
    using entry by fastforce
  then have "rtraverse ?dec ?entries = Inr ?js" by (rule rtraverse_all_Inr)
  then have list: "listRecordingJournals le p idb_ok db =
      Inr (sort_by (\<lambda>a b. le (rj_operationId a) (rj_operationId b)) ?js)"
    by (simp add: listRecordingJournals_def idb_getAll_def idb_transaction_def idb_ok_def)
  have "j \<in> set ?js \<longleftrightarrow> loadRecordingJournal p idb_ok db (rj_operationId j) = Inr (Some j)" for j
  proof
    assume "j \<in> set ?js"
    then obtain k v where kv: "(k, v) \<in> set ?entries" "j = projr (recordingJournal v)" by force
    from entry [OF kv(1)] kv(2) show "loadRecordingJournal p idb_ok db (rj_operationId j) = Inr (Some j)"
      by auto
  next
    assume "loadRecordingJournal p idb_ok db (rj_operationId j) = Inr (Some j)"
    then have "recording_store.stored p db (rj_operationId j) = Some j"
      by (simp add: recording_store.stored_def)
    then obtain k v where kv: "storage_key p (rj_operationId j) = Inr k"
      "map_of (db Sn_recording_journals) k = Some v" "recordingJournal v = Inr j"
      by (auto simp: recording_store.stored_eq)
    with namespace_range_iff [OF assms(2) assms(2) kv(1)] have "(k, v) \<in> set ?entries"
      by (auto simp: os_range_def dest: map_of_SomeD)
    with kv(3) show "j \<in> set ?js" by force
  qed
  with list show ?thesis by (auto simp: set_sort_by)
qed

lemma sample_db_reachable: "store_reachable
    (snd (store_run (js ''v1:1:61:'') idb_ok (\<lambda>_. [])
       (So_saveRecordingJournal (recording_journal_value (sample_journal Rp_prepared None 5)))))"
  by (rule store_reachable.step [OF store_reachable.empty]) (rule store_step.intros [OF sample_keys(1)])

theorem list_recordings_complete_witness:
  "\<exists>listed. listRecordingJournals (\<le>) (js ''v1:1:61:'') idb_ok
      (snd (store_run (js ''v1:1:61:'') idb_ok (\<lambda>_. [])
         (So_saveRecordingJournal (recording_journal_value (sample_journal Rp_prepared None 5))))) = Inr listed
    \<and> sample_journal Rp_prepared None 5 \<in> set listed"
proof -
  have "loadRecordingJournal (js ''v1:1:61:'') idb_ok
      (snd (store_run (js ''v1:1:61:'') idb_ok (\<lambda>_. [])
         (So_saveRecordingJournal (recording_journal_value (sample_journal Rp_prepared None 5)))))
      (rj_operationId (sample_journal Rp_prepared None 5)) = Inr (Some (sample_journal Rp_prepared None 5))"
    by code_simp
  with list_recordings_complete [OF sample_db_reachable sample_keys(1), of "(\<le>)"] show ?thesis by metis
qed

text \<open>
  C11. An encrypted-upload operation is written as a whole: the write is refused or fails with the
  database unchanged, or both its checkpoint and its journal in phase prepared are stored.  Without
  a previous owner it is accepted only where neither existed.  A replacement is accepted only over
  a checkpoint of the stated session and owner revision, for the same device, recording and sink,
  by a checkpoint of a different session with no core state yet, never over a completed upload; and
  its owner revision is a number that is not below or equal to the previous one.  For integers that
  is strictly larger; the code also lets NaN and fractions through (\<open>nan_revision_replaces\<close>).
\<close>

theorem v2_operation_atomic:
  "case writeEncryptedUploadV2Operation p env db i c v prev of
     (Inl e, db') \<Rightarrow> db' = db
   | (Inr _, db') \<Rightarrow>
       (\<exists>k j. storage_key p i = Inr k
          \<and> map_of (db' Sn_encrypted_upload_v2_checkpoints) k = Some (checkpoint_record_value i c)
          \<and> map_of (db' Sn_recording_journals) k = Some (recording_journal_value j)
          \<and> recordingJournal v = Inr j \<and> rj_operationId j = i \<and> rj_phase j = Rp_prepared
          \<and> (case prev of
               None \<Rightarrow> map_of (db Sn_encrypted_upload_v2_checkpoints) k = None
                 \<and> map_of (db Sn_recording_journals) k = None
             | Some (session, revision) \<Rightarrow>
                 owner_replaced c v session revision (map_of (db Sn_encrypted_upload_v2_checkpoints) k)
                   (map_of (db Sn_recording_journals) k)))"
proof (cases rule: writeEncryptedUploadV2Operation_cases [of p env db i c v prev])
  case rejected
  then show ?thesis
    by (cases "writeEncryptedUploadV2Operation p env db i c v prev") (auto split: sum.split)
next
  case (accepted j k)
  have own: "owner_replaced c v session revision (map_of (db Sn_encrypted_upload_v2_checkpoints) k)
      (map_of (db Sn_recording_journals) k)" if "prev = Some (session, revision)" for session revision
    using accepted(6) that replaces_owner_Inr by simp
  with accepted show ?thesis
    by (auto simp: map_of_os_put split: option.split prod.split)
qed

text \<open>An operation owned by session s1 at revision 1, and what would replace it.\<close>

definition owned_checkpoint :: "jsstring \<Rightarrow> jsnum \<Rightarrow> jsval" where
  "owned_checkpoint session revision =
     JObject [(''schemaVersion'', JNumber (JInt 1)), (''uploadSessionId'', JString session),
       (''ownerRevision'', JNumber revision), (''recordingId'', JString (js ''r'')),
       (''materialId'', JString (js ''m'')), (''coreCheckpoint'', JNull)]"

definition v2_journal :: jsval where
  "v2_journal = recording_journal_value
     ((sample_journal Rp_prepared None 5) \<lparr>rj_profile := Profile_encrypted_upload_v2\<rparr>)"

definition owned_db :: idb where
  "owned_db = snd (saveEncryptedUploadV2Operation (js ''v1:1:61:'') idb_ok (\<lambda>_. [])
     (rj_operationId (sample_journal Rp_prepared None 5)) (owned_checkpoint (js ''s1'') (JInt 1)) v2_journal)"

definition replaced_with :: "jsnum \<Rightarrow> (storage_code + unit) \<times> idb" where
  "replaced_with revision = replaceEncryptedUploadV2Operation (js ''v1:1:61:'') idb_ok owned_db
     (rj_operationId (sample_journal Rp_prepared None 5)) (owned_checkpoint (js ''s2'') revision) v2_journal
     (js ''s1'', JInt 1)"

theorem v2_operation_atomic_witness:
  "fst (replaced_with (JInt 2)) = Inr () \<and> fst (replaced_with (JInt 1)) = Inl St_resume_rejected
   \<and> snd (replaced_with (JInt 1)) = owned_db
   \<and> (\<exists>k. owner_replaced (owned_checkpoint (js ''s2'') (JInt 2)) v2_journal (js ''s1'') (JInt 1)
         (map_of (owned_db Sn_encrypted_upload_v2_checkpoints) k) (map_of (owned_db Sn_recording_journals) k))"
proof -
  have runs: "fst (replaced_with (JInt 2)) = Inr ()" "fst (replaced_with (JInt 1)) = Inl St_resume_rejected"
    by code_simp+
  have "snd (replaced_with (JInt 1)) = owned_db"
    using v2_operation_atomic [where p = "js ''v1:1:61:''" and env = idb_ok and db = owned_db
        and i = "rj_operationId (sample_journal Rp_prepared None 5)"
        and c = "owned_checkpoint (js ''s2'') (JInt 1)" and v = v2_journal
        and prev = "Some (js ''s1'', JInt 1)"] runs(2)
    unfolding replaced_with_def replaceEncryptedUploadV2Operation_def by (auto split: prod.splits sum.splits)
  moreover have "\<exists>k. owner_replaced (owned_checkpoint (js ''s2'') (JInt 2)) v2_journal (js ''s1'') (JInt 1)
      (map_of (owned_db Sn_encrypted_upload_v2_checkpoints) k) (map_of (owned_db Sn_recording_journals) k)"
    using v2_operation_atomic [where p = "js ''v1:1:61:''" and env = idb_ok and db = owned_db
        and i = "rj_operationId (sample_journal Rp_prepared None 5)"
        and c = "owned_checkpoint (js ''s2'') (JInt 2)" and v = v2_journal
        and prev = "Some (js ''s1'', JInt 1)"] runs(1)
    unfolding replaced_with_def replaceEncryptedUploadV2Operation_def by (auto split: prod.splits sum.splits)
  ultimately show ?thesis using runs by blast
qed

lemma nan_revision_replaces: "fst (replaced_with (JNonInt Not_a_number)) = Inr ()"
  by code_simp

end
