(* ===== verification/WasmAdapter.thy ===== *)
theory WasmAdapter
  imports CoreEncode
begin

text \<open>
  \<^verbatim>\<open>createWasmCore\<close> and the class \<^verbatim>\<open>WasmCoreAdapter\<close> of \<^verbatim>\<open>frameworks/web/src/wasmCore.ts\<close>.  The bridge
  object generated from the Rust core is a parameter: \<open>gen s name args\<close> is what the method \<open>name\<close>
  does in bridge state \<open>s\<close>, a thrown value or a returned one with the next state; the generated
  module functions are a stateless parameter \<open>lib\<close>.  Each method is the source's \<open>try\<close> block
  followed by its \<open>catch\<close>; nothing is assumed of either parameter.
\<close>

section \<open>Calling the bridge\<close>

type_synonym 's bridge = "'s \<Rightarrow> string \<Rightarrow> jsval list \<Rightarrow> (js_error + jsval) \<times> 's"
type_synonym codec_lib = "string \<Rightarrow> jsval list \<Rightarrow> js_error + jsval"

text \<open>A \<open>BotaSDKError\<close> thrown inside the \<open>try\<close> block is a value the \<open>catch\<close> sees.\<close>

definition thrown :: "bota_error + 'a \<Rightarrow> js_error + 'a" where
  "thrown r = (case r of Inl e \<Rightarrow> Inl (SdkErr e) | Inr x \<Rightarrow> Inr x)"

definition catch_private :: "core_operation \<Rightarrow> js_error + 'a \<Rightarrow> js_error + 'a" where
  "catch_private operation r =
     (case r of Inl e \<Rightarrow> Inl (normalizePrivateCoreError e operation) | Inr x \<Rightarrow> Inr x)"

definition catch_core :: "bota_operation \<Rightarrow> js_error + 'a \<Rightarrow> js_error + 'a" where
  "catch_core operation r =
     (case r of Inl e \<Rightarrow> Inl (SdkErr (normalizeCoreError e operation)) | Inr x \<Rightarrow> Inr x)"

text \<open>\<open>normalizeEffects(this.generated.m(...))\<close>.\<close>

definition call_effects :: "'s bridge \<Rightarrow> 's \<Rightarrow> string \<Rightarrow> jsval list \<Rightarrow> (js_error + effect_envelope list) \<times> 's" where
  "call_effects gen s m args =
     (case gen s m args of
        (Inl e, s') \<Rightarrow> (Inl e, s')
      | (Inr v, s') \<Rightarrow> (thrown (fst (normalizeEffects v)), s'))"

section \<open>Inputs\<close>

record connection_input =
  ci_expectedSerialNumber :: jsstring
  ci_peripheralId :: jsstring
  ci_name :: "jsstring option"
  ci_cancellationId :: bytes

record reconnect_hint =
  rh_storedPeripheralId :: "jsstring option"
  rh_advertisedAddress :: "jsstring option"
  rh_storedName :: "jsstring option"
  rh_scanTimeoutMs :: int
  rh_connectionTimeoutMs :: int

record reconnect_input =
  ri_expectedSerialNumber :: jsstring
  ri_hint :: reconnect_hint
  ri_cancellationId :: bytes

record provisioning_input =
  pi_serialNumber :: jsstring
  pi_materialId :: jsstring
  pi_cancellationId :: bytes

record recording_transfer_input =
  rt_serialNumber :: jsstring
  rt_recordingUuid :: jsstring
  rt_sinkId :: jsstring
  rt_totalUnits :: int
  rt_cancellationId :: bytes

record v2_input =
  vi_serialNumber :: jsstring
  vi_recordingUuid :: jsstring
  vi_recordingGeneration :: int
  vi_storageFormat :: int
  vi_uploadSessionId :: jsstring
  vi_ownerRevision :: int
  vi_transportSessionId :: int
  vi_materialId :: jsstring
  vi_sinkId :: jsstring
  vi_policy :: upload_policy
  vi_capabilities :: v2_capabilities
  vi_windowPackets :: int
  vi_dataPayloadBytes :: int
  vi_ciphertextLength :: int
  vi_ciphertextSha256 :: bytes
  vi_cancellationId :: bytes

record firmware_update_input =
  fi_serialNumber :: jsstring
  fi_version :: jsstring
  fi_sizeBytes :: int
  fi_crc32 :: int
  fi_downloadId :: int
  fi_reconnectHint :: reconnect_hint
  fi_cancellationId :: bytes

record device_logs_input =
  li_serialNumber :: jsstring
  li_cancellationId :: bytes

definition rawReconnectHint :: "reconnect_hint \<Rightarrow> jsval" where
  "rawReconnectHint hint =
     JObject
       [(''stored_peripheral_id'', or_undefined JString (rh_storedPeripheralId hint)),
        (''advertised_address'', or_undefined JString (rh_advertisedAddress hint)),
        (''stored_name'', or_undefined JString (rh_storedName hint)),
        (''scan_timeout_ms'', JBigInt (rh_scanTimeoutMs hint)),
        (''connection_timeout_ms'', JBigInt (rh_connectionTimeoutMs hint))]"

text \<open>A \<open>string | null\<close> argument is passed as it is.\<close>

definition nullable_string :: "jsstring option \<Rightarrow> jsval" where
  "nullable_string x = (case x of None \<Rightarrow> JNull | Some s \<Rightarrow> JString s)"

section \<open>Starting, cancelling and stepping a workflow\<close>

definition map_fst :: "('a \<Rightarrow> 'b) \<Rightarrow> 'a \<times> 's \<Rightarrow> 'b \<times> 's" where
  "map_fst f p = (f (fst p), snd p)"

definition startExactConnection :: "'s bridge \<Rightarrow> 's \<Rightarrow> connection_input \<Rightarrow> (js_error + effect_envelope list) \<times> 's" where
  "startExactConnection gen s input =
     map_fst (catch_core Op_connect)
       (call_effects gen s ''startExactConnection''
         [JString (ci_expectedSerialNumber input), JString (ci_peripheralId input),
          nullable_string (ci_name input), JBytes (ci_cancellationId input)])"

definition startSelectedConnection :: "'s bridge \<Rightarrow> 's \<Rightarrow> connection_input \<Rightarrow> (js_error + effect_envelope list) \<times> 's" where
  "startSelectedConnection gen s input =
     map_fst (catch_core Op_connect)
       (call_effects gen s ''startSelectedConnection''
         [JString (ci_peripheralId input), nullable_string (ci_name input), JBytes (ci_cancellationId input)])"

definition startReconnect :: "'s bridge \<Rightarrow> 's \<Rightarrow> reconnect_input \<Rightarrow> (js_error + effect_envelope list) \<times> 's" where
  "startReconnect gen s input =
     map_fst (catch_private Core_reconnect)
       (call_effects gen s ''startReconnect''
         [JObject [(''expected_serial'', JString (ri_expectedSerialNumber input)),
                   (''hint'', rawReconnectHint (ri_hint input)),
                   (''cancellation_id'', rawBytes (ri_cancellationId input))]])"

definition startProvisioning :: "'s bridge \<Rightarrow> 's \<Rightarrow> provisioning_input \<Rightarrow> (js_error + effect_envelope list) \<times> 's" where
  "startProvisioning gen s input =
     map_fst (catch_private Core_provision)
       (call_effects gen s ''startProvisioning''
         [JObject [(''serial_number'', JString (pi_serialNumber input)),
                   (''material_id'', JString (pi_materialId input)),
                   (''cancellation_id'', rawBytes (pi_cancellationId input))]])"

definition startRecordingTransfer :: "'s bridge \<Rightarrow> 's \<Rightarrow> recording_transfer_input \<Rightarrow> (js_error + effect_envelope list) \<times> 's" where
  "startRecordingTransfer gen s input =
     map_fst (catch_private Core_transfer_recording)
       (call_effects gen s ''startRecordingTransfer''
         [JObject [(''serial_number'', JString (rt_serialNumber input)),
                   (''recording_uuid'', JString (rt_recordingUuid input)),
                   (''sink_id'', JString (rt_sinkId input)),
                   (''total_units'', JBigInt (rt_totalUnits input)),
                   (''cancellation_id'', rawBytes (rt_cancellationId input))]])"

definition startEncryptedUploadV2 :: "'s bridge \<Rightarrow> 's \<Rightarrow> v2_input \<Rightarrow> (js_error + effect_envelope list) \<times> 's" where
  "startEncryptedUploadV2 gen s input =
     map_fst (catch_private Core_transfer_recording)
       (case rawUploadPolicy (vi_policy input) of
          Inl e \<Rightarrow> (Inl (SdkErr e), s)
        | Inr policy \<Rightarrow>
          call_effects gen s ''startEncryptedUploadV2''
            [JObject [(''serial_number'', JString (vi_serialNumber input)),
                      (''recording_uuid'', JString (vi_recordingUuid input)),
                      (''recording_generation'', jsint (vi_recordingGeneration input)),
                      (''storage_format'', jsint (vi_storageFormat input)),
                      (''upload_session_id'', JString (vi_uploadSessionId input)),
                      (''owner_revision'', jsint (vi_ownerRevision input)),
                      (''transport_session_id'', JBigInt (vi_transportSessionId input)),
                      (''material_id'', JString (vi_materialId input)),
                      (''sink_id'', JString (vi_sinkId input)),
                      (''policy'', policy),
                      (''capabilities'', rawCapabilities (vi_capabilities input)),
                      (''window_packets'', jsint (vi_windowPackets input)),
                      (''data_payload_bytes'', jsint (vi_dataPayloadBytes input)),
                      (''ciphertext_length'', JBigInt (vi_ciphertextLength input)),
                      (''ciphertext_sha256'', rawBytes (vi_ciphertextSha256 input)),
                      (''cancellation_id'', rawBytes (vi_cancellationId input))]])"

definition startFirmwareUpdate :: "'s bridge \<Rightarrow> 's \<Rightarrow> firmware_update_input \<Rightarrow> (js_error + effect_envelope list) \<times> 's" where
  "startFirmwareUpdate gen s input =
     map_fst (catch_private Core_update_firmware)
       (call_effects gen s ''startFirmwareUpdate''
         [JObject [(''serial_number'', JString (fi_serialNumber input)),
                   (''version'', JString (fi_version input)),
                   (''size_bytes'', jsint (fi_sizeBytes input)),
                   (''crc32'', jsint (fi_crc32 input)),
                   (''download_id'', JBigInt (fi_downloadId input)),
                   (''reconnect_hint'', rawReconnectHint (fi_reconnectHint input)),
                   (''cancellation_id'', rawBytes (fi_cancellationId input))]])"

definition startDeviceLogs :: "'s bridge \<Rightarrow> 's \<Rightarrow> device_logs_input \<Rightarrow> (js_error + effect_envelope list) \<times> 's" where
  "startDeviceLogs gen s input =
     map_fst (catch_private Core_read_device_logs)
       (call_effects gen s ''startDeviceLogs''
         [JObject [(''serial_number'', JString (li_serialNumber input)),
                   (''cancellation_id'', rawBytes (li_cancellationId input))]])"

definition cancel :: "'s bridge \<Rightarrow> 's \<Rightarrow> bytes \<Rightarrow> (js_error + effect_envelope list) \<times> 's" where
  "cancel gen s cancellationId =
     map_fst (catch_private Core_unknown) (call_effects gen s ''cancel'' [JBytes cancellationId])"

text \<open>
  \<open>dispatch\<close> builds the raw event before its \<open>try\<close>, so an event it cannot encode is thrown as it
  is; whatever happens afterwards, \<open>finally\<close> zeroes the raw event, the third component of the
  result (absent when the event was never built).
\<close>

definition dispatch :: "'s bridge \<Rightarrow> 's \<Rightarrow> host_event \<Rightarrow> (js_error + effect_envelope list) \<times> 's \<times> jsval option" where
  "dispatch gen s event =
     (case rawHostEvent event of
        Inl e \<Rightarrow> (Inl (SdkErr e), s, None)
      | Inr rawEvent \<Rightarrow>
          (case map_fst (catch_private Core_unknown) (call_effects gen s ''dispatch'' [rawEvent]) of
             (r, s') \<Rightarrow> (r, s', Some (scrubBridgeBytes rawEvent))))"

definition bridge_status :: "'s bridge \<Rightarrow> 's \<Rightarrow> (js_error + workflow_status) \<times> 's" where
  "bridge_status gen s =
     map_fst (catch_private Core_unknown)
       (case gen s ''status'' [] of
          (Inl e, s') \<Rightarrow> (Inl e, s')
        | (Inr v, s') \<Rightarrow> (thrown (normalizeStatus v), s'))"

section \<open>Capability checks\<close>

definition supportsEncryptedUploadV2Batch :: "'s bridge \<Rightarrow> 's \<Rightarrow> v2_capabilities \<Rightarrow> (js_error + jsval) \<times> 's" where
  "supportsEncryptedUploadV2Batch gen s capabilities =
     map_fst (catch_core Op_transfer_recording)
       (gen s ''supportsEncryptedUploadV2Batch'' [rawCapabilities capabilities])"

definition validateEncryptedUploadV2Profile :: "'s bridge \<Rightarrow> 's \<Rightarrow> v2_capabilities \<Rightarrow> int \<Rightarrow> int \<Rightarrow> (js_error + unit) \<times> 's" where
  "validateEncryptedUploadV2Profile gen s capabilities recordingGeneration storageFormat =
     map_fst (\<lambda>r. catch_core Op_transfer_recording (rbind r (\<lambda>_. Inr ())))
       (gen s ''validateEncryptedUploadV2Profile''
         [rawCapabilities capabilities, jsint recordingGeneration, jsint storageFormat])"

section \<open>Decoding and encoding device values\<close>

text \<open>
  \<open>decode_with\<close> is \<open>try { return normalize(decodeGenerated(bytes)) } catch\<close>, \<open>encode_with\<close>
  \<open>try { return bytes(encodeGenerated(...)) } catch\<close>.
\<close>

definition decode_with :: "codec_lib \<Rightarrow> string \<Rightarrow> (jsval \<Rightarrow> bota_error + 'a) \<Rightarrow> bytes \<Rightarrow> js_error + 'a" where
  "decode_with lib f dec bs =
     catch_private Core_decode (rbind (lib f [JBytes bs]) (\<lambda>v. thrown (dec v)))"

definition encode_with :: "codec_lib \<Rightarrow> string \<Rightarrow> jsval list \<Rightarrow> js_error + bytes" where
  "encode_with lib f args =
     catch_private Core_encode (rbind (lib f args) (\<lambda>v. thrown (js_bytes None v)))"

definition decodeDeviceStatus :: "codec_lib \<Rightarrow> bytes \<Rightarrow> js_error + device_status" where
  "decodeDeviceStatus lib bs =
     catch_core Op_read_snapshot (rbind (lib ''decodeDeviceStatus'' [JBytes bs]) (\<lambda>v. thrown (normalizeDeviceStatus v)))"

definition decodeEncryptedUploadV2Capabilities :: "codec_lib \<Rightarrow> bytes \<Rightarrow> js_error + v2_capabilities" where
  "decodeEncryptedUploadV2Capabilities lib bs =
     catch_core Op_read_snapshot
       (rbind (lib ''decodeEncryptedUploadV2Capabilities'' [JBytes bs]) (\<lambda>v. thrown (normalizeCapabilities v)))"

definition decodeRecordingList :: "codec_lib \<Rightarrow> bytes \<Rightarrow> js_error + device_recording list" where
  "decodeRecordingList lib = decode_with lib ''decodeRecordingList'' normalizeRecordingList"

definition decodeDeprovisionResult :: "codec_lib \<Rightarrow> bytes \<Rightarrow> js_error + operation_result" where
  "decodeDeprovisionResult lib = decode_with lib ''decodeDeprovisionResult'' normalizeOperationResult"

definition decodeConnectionSettings :: "codec_lib \<Rightarrow> bytes \<Rightarrow> js_error + connection_settings" where
  "decodeConnectionSettings lib = decode_with lib ''decodeConnectionSettings'' normalizeConnectionSettings"

definition decodeWiFiConfigResult :: "codec_lib \<Rightarrow> bytes \<Rightarrow> js_error + operation_result" where
  "decodeWiFiConfigResult lib = decode_with lib ''decodeWiFiConfigResult'' normalizeOperationResult"

definition decodeWiFiStatus :: "codec_lib \<Rightarrow> bytes \<Rightarrow> js_error + wifi_status_info" where
  "decodeWiFiStatus lib = decode_with lib ''decodeWiFiStatus'' normalizeWiFiStatus"

definition decodeWiFiScanUpdate :: "codec_lib \<Rightarrow> bytes \<Rightarrow> js_error + wifi_scan_update" where
  "decodeWiFiScanUpdate lib = decode_with lib ''decodeWiFiScanUpdate'' normalizeWiFiScanUpdate"

definition decodeRecordingControlResult :: "codec_lib \<Rightarrow> bytes \<Rightarrow> js_error + operation_result" where
  "decodeRecordingControlResult lib = decode_with lib ''decodeRecordingControlResult'' normalizeOperationResult"

definition decodeEncryptedUploadV2Transfer :: "codec_lib \<Rightarrow> bytes \<Rightarrow> js_error + v2_transfer_frame" where
  "decodeEncryptedUploadV2Transfer lib = decode_with lib ''decodeEncryptedUploadV2Transfer'' normalizeEncryptedUploadV2Transfer"

definition decodeEncryptedUploadV2Status :: "codec_lib \<Rightarrow> bytes \<Rightarrow> js_error + v2_status" where
  "decodeEncryptedUploadV2Status lib = decode_with lib ''decodeEncryptedUploadV2Status'' normalizeEncryptedUploadV2Status"

definition encodeRecordingListCommand :: "codec_lib \<Rightarrow> js_error + bytes" where
  "encodeRecordingListCommand lib = encode_with lib ''encodeRecordingListCommand'' []"

definition encodeRecordingConfirm :: "codec_lib \<Rightarrow> jsstring \<Rightarrow> js_error + bytes" where
  "encodeRecordingConfirm lib recordingUuid = encode_with lib ''encodeRecordingConfirm'' [JString recordingUuid]"

definition encodeDeprovisionCommand :: "codec_lib \<Rightarrow> js_error + bytes" where
  "encodeDeprovisionCommand lib = encode_with lib ''encodeDeprovisionCommand'' []"

definition encodeWiFiGrant :: "codec_lib \<Rightarrow> jsstring \<Rightarrow> int \<Rightarrow> js_error + bytes" where
  "encodeWiFiGrant lib grant capacity = encode_with lib ''encodeWiFiGrant'' [JString grant, jsint capacity]"

definition encodeWiFiCredentials :: "codec_lib \<Rightarrow> jsstring \<Rightarrow> jsstring \<Rightarrow> js_error + bytes" where
  "encodeWiFiCredentials lib ssid password = encode_with lib ''encodeWiFiCredentials'' [JString ssid, JString password]"

definition encodeWiFiScanCommand :: "codec_lib \<Rightarrow> js_error + bytes" where
  "encodeWiFiScanCommand lib = encode_with lib ''encodeWiFiScanCommand'' []"

definition encodeRecordingControlCommand :: "codec_lib \<Rightarrow> jsstring \<Rightarrow> js_error + bytes" where
  "encodeRecordingControlCommand lib action = encode_with lib ''encodeRecordingControlCommand'' [JString action]"

definition encodeConnectionSettings :: "codec_lib \<Rightarrow> jsval \<Rightarrow> jsstring \<Rightarrow> js_error + bytes" where
  "encodeConnectionSettings lib settings model = encode_with lib ''encodeConnectionSettings'' [settings, JString model]"

text \<open>A codec frame is an object whose byte strings become number arrays at every depth.\<close>

fun rawCodecValue :: "jsval \<Rightarrow> jsval" where
  "rawCodecValue (JBytes bs) = rawBytes bs"
| "rawCodecValue (JArray xs) = JArray (map rawCodecValue xs)"
| "rawCodecValue (JObject fs) = JObject (map (\<lambda>(k, v). (k, rawCodecValue v)) fs)"
| "rawCodecValue v = v"

definition rawCodecFrame :: "(string \<times> jsval) list \<Rightarrow> jsval" where
  "rawCodecFrame entries = JObject (map (\<lambda>(k, v). (k, rawCodecValue v)) entries)"

definition encodeEncryptedUploadV2Transfer :: "codec_lib \<Rightarrow> (string \<times> jsval) list \<Rightarrow> js_error + bytes" where
  "encodeEncryptedUploadV2Transfer lib frame = encode_with lib ''encodeEncryptedUploadV2Transfer'' [rawCodecFrame frame]"

definition encodeEncryptedUploadV2SignedBlob :: "codec_lib \<Rightarrow> (string \<times> jsval) list \<Rightarrow> js_error + bytes" where
  "encodeEncryptedUploadV2SignedBlob lib frame = encode_with lib ''encodeEncryptedUploadV2SignedBlob'' [rawCodecFrame frame]"

section \<open>Signed blobs and upload context\<close>

datatype signed_blob_kind = Blob_authorization | Blob_receipt | Blob_context_challenge | Blob_context_result

definition signedBlobKind :: "int \<Rightarrow> bota_error + signed_blob_kind" where
  "signedBlobKind value =
     (if value = 1 then Inr Blob_authorization
      else if value = 2 then Inr Blob_receipt
      else if value = 3 then Inr Blob_context_challenge
      else if value = 4 then Inr Blob_context_result
      else Inl internalBridgeError)"

record signed_blob_result =
  sb_blobKind :: signed_blob_kind
  sb_writeId :: int
  sb_result :: int

definition normalizeSignedBlobResult :: "jsval \<Rightarrow> bota_error + signed_blob_result" where
  "normalizeSignedBlobResult v =
     rbind (js_record v) (\<lambda>value.
     rbind (rbind (js_number (js_get value ''kind'')) signedBlobKind) (\<lambda>blobKind.
     rbind (js_number (js_get value ''writeId'')) (\<lambda>writeId.
     rbind (js_number (js_get value ''result'')) (\<lambda>result.
     Inr \<lparr>sb_blobKind = blobKind, sb_writeId = writeId, sb_result = result\<rparr>))))"

definition decodeEncryptedUploadV2SignedBlobResult :: "codec_lib \<Rightarrow> bytes \<Rightarrow> js_error + signed_blob_result" where
  "decodeEncryptedUploadV2SignedBlobResult lib =
     decode_with lib ''decodeEncryptedUploadV2SignedBlobResult'' normalizeSignedBlobResult"

definition encodeUploadContextBegin :: "codec_lib \<Rightarrow> int \<Rightarrow> js_error + bytes" where
  "encodeUploadContextBegin lib attemptId = encode_with lib ''encodeUploadContextBegin'' [jsint attemptId]"

record context_snapshot =
  cx_state :: int
  cx_attemptId :: int
  cx_result :: int
  cx_payload :: bytes

definition normalizeContextSnapshot :: "jsval \<Rightarrow> bota_error + context_snapshot" where
  "normalizeContextSnapshot v =
     rbind (js_record v) (\<lambda>value.
     rbind (js_number (js_get value ''state'')) (\<lambda>state.
     rbind (js_number (js_get value ''attemptId'')) (\<lambda>attemptId.
     rbind (js_number (js_get value ''result'')) (\<lambda>result.
     rbind (js_bytes None (js_get value ''payload'')) (\<lambda>payload.
     Inr \<lparr>cx_state = state, cx_attemptId = attemptId, cx_result = result, cx_payload = payload\<rparr>)))))"

definition decodeUploadContextSnapshot :: "codec_lib \<Rightarrow> bytes \<Rightarrow> js_error + context_snapshot" where
  "decodeUploadContextSnapshot lib = decode_with lib ''decodeUploadContextSnapshot'' normalizeContextSnapshot"

definition validateUploadContextDocument :: "codec_lib \<Rightarrow> int \<Rightarrow> bytes \<Rightarrow> js_error + unit" where
  "validateUploadContextDocument lib kind value =
     catch_private Core_decode
       (rbind (lib ''validateUploadContextDocument'' [jsint kind, JBytes value]) (\<lambda>_. Inr ()))"

record authorization_identity =
  ai_profile :: int
  ai_storageFormat :: int
  ai_policy :: int
  ai_channels :: int
  ai_flags :: int
  ai_ownerRevision :: int
  ai_recordingGeneration :: int
  ai_minimumCiphertextLength :: int
  ai_maximumCiphertextLength :: int
  ai_uploadSessionId :: jsstring
  ai_recordingUuid :: jsstring
  ai_ciphertextSha256 :: bytes

definition normalizeAuthorizationIdentity :: "jsval \<Rightarrow> bota_error + authorization_identity" where
  "normalizeAuthorizationIdentity v =
     rbind (js_record v) (\<lambda>value.
     rbind (js_number (js_get value ''profile'')) (\<lambda>profile.
     rbind (js_number (js_get value ''storageFormat'')) (\<lambda>storageFormat.
     rbind (js_number (js_get value ''policy'')) (\<lambda>policy.
     rbind (js_number (js_get value ''channels'')) (\<lambda>channels.
     rbind (js_number (js_get value ''flags'')) (\<lambda>flags.
     rbind (js_number (js_get value ''ownerRevision'')) (\<lambda>ownerRevision.
     rbind (js_number (js_get value ''recordingGeneration'')) (\<lambda>recordingGeneration.
     rbind (js_bigint (js_get value ''minimumCiphertextLength'')) (\<lambda>minimumCiphertextLength.
     rbind (js_bigint (js_get value ''maximumCiphertextLength'')) (\<lambda>maximumCiphertextLength.
     rbind (js_string (js_get value ''uploadSessionId'')) (\<lambda>uploadSessionId.
     rbind (js_string (js_get value ''recordingUuid'')) (\<lambda>recordingUuid.
     rbind (js_bytes None (js_get value ''ciphertextSha256'')) (\<lambda>ciphertextSha256.
     Inr \<lparr>ai_profile = profile, ai_storageFormat = storageFormat, ai_policy = policy,
       ai_channels = channels, ai_flags = flags, ai_ownerRevision = ownerRevision,
       ai_recordingGeneration = recordingGeneration,
       ai_minimumCiphertextLength = minimumCiphertextLength,
       ai_maximumCiphertextLength = maximumCiphertextLength, ai_uploadSessionId = uploadSessionId,
       ai_recordingUuid = recordingUuid, ai_ciphertextSha256 = ciphertextSha256\<rparr>)))))))))))))"

definition decodeUploadAuthorizationIdentity :: "codec_lib \<Rightarrow> bytes \<Rightarrow> js_error + authorization_identity" where
  "decodeUploadAuthorizationIdentity lib =
     decode_with lib ''decodeUploadAuthorizationIdentity'' normalizeAuthorizationIdentity"

section \<open>What the adapter guarantees\<close>

text \<open>An error the SDK defined: nothing thrown by the generated code passes through untyped.\<close>

fun typed_error :: "js_error \<Rightarrow> bool" where
  "typed_error (SdkErr _) = True"
| "typed_error (BridgeErr _) = True"
| "typed_error _ = False"

lemma normalizePrivateCoreError_typed: "typed_error (normalizePrivateCoreError e operation)"
  by (cases e) (auto simp: normalizePrivateCoreError_def split: bool.splits jsval.splits)

lemma catch_private_typed: "catch_private operation r = Inl e \<Longrightarrow> typed_error e"
  by (auto simp: catch_private_def normalizePrivateCoreError_typed split: sum.splits)

lemma catch_core_typed: "catch_core operation r = Inl e \<Longrightarrow> typed_error e"
  by (auto simp: catch_core_def split: sum.splits)

lemma catch_private_Inr [simp]: "catch_private operation r = Inr x \<longleftrightarrow> r = Inr x"
  by (auto simp: catch_private_def split: sum.splits)

lemma catch_core_Inr [simp]: "catch_core operation r = Inr x \<longleftrightarrow> r = Inr x"
  by (auto simp: catch_core_def split: sum.splits)

lemma thrown_Inr [simp]: "thrown r = Inr x \<longleftrightarrow> r = Inr x"
  by (auto simp: thrown_def split: sum.splits)

lemma fst_map_fst [simp]: "fst (map_fst f p) = f (fst p)" and snd_map_fst [simp]: "snd (map_fst f p) = snd p"
  by (simp_all add: map_fst_def)

lemma call_effects_wf: "fst (call_effects gen s m args) = Inr es \<Longrightarrow> list_all envelope_wf es"
  by (auto simp: call_effects_def normalizeEffects_envelopes split: prod.splits sum.splits)

text \<open>
  The workflow calls as one sum type: \<open>bridge_call\<close> runs any of them, so that what every call
  guarantees is stated and proved once.
\<close>

datatype workflow_call =
    Call_startExactConnection connection_input
  | Call_startSelectedConnection connection_input
  | Call_startReconnect reconnect_input
  | Call_startProvisioning provisioning_input
  | Call_startRecordingTransfer recording_transfer_input
  | Call_startEncryptedUploadV2 v2_input
  | Call_startFirmwareUpdate firmware_update_input
  | Call_startDeviceLogs device_logs_input
  | Call_cancel bytes
  | Call_dispatch host_event

fun bridge_call :: "'s bridge \<Rightarrow> 's \<Rightarrow> workflow_call \<Rightarrow> (js_error + effect_envelope list) \<times> 's" where
  "bridge_call gen s (Call_startExactConnection i) = startExactConnection gen s i"
| "bridge_call gen s (Call_startSelectedConnection i) = startSelectedConnection gen s i"
| "bridge_call gen s (Call_startReconnect i) = startReconnect gen s i"
| "bridge_call gen s (Call_startProvisioning i) = startProvisioning gen s i"
| "bridge_call gen s (Call_startRecordingTransfer i) = startRecordingTransfer gen s i"
| "bridge_call gen s (Call_startEncryptedUploadV2 i) = startEncryptedUploadV2 gen s i"
| "bridge_call gen s (Call_startFirmwareUpdate i) = startFirmwareUpdate gen s i"
| "bridge_call gen s (Call_startDeviceLogs i) = startDeviceLogs gen s i"
| "bridge_call gen s (Call_cancel c) = cancel gen s c"
| "bridge_call gen s (Call_dispatch e) = (case dispatch gen s e of (r, s', _) \<Rightarrow> (r, s'))"

lemmas workflow_call_defs = startExactConnection_def startSelectedConnection_def startReconnect_def
  startProvisioning_def startRecordingTransfer_def startEncryptedUploadV2_def startFirmwareUpdate_def
  startDeviceLogs_def cancel_def

lemma dispatch_fst:
  "fst (dispatch gen s event) =
     (case rawHostEvent event of Inl e \<Rightarrow> Inl (SdkErr e)
      | Inr raw \<Rightarrow> catch_private Core_unknown (fst (call_effects gen s ''dispatch'' [raw])))"
  by (simp add: dispatch_def map_fst_def split: sum.split prod.split)

lemma bridge_call_dispatch: "fst (bridge_call gen s (Call_dispatch event)) = fst (dispatch gen s event)"
  by (simp split: prod.split)

text \<open>
  C30. No foreign error leaves the adapter: whatever the generated code throws or returns, and whatever value
  its result cannot be read as, a workflow call that fails does so with an error of the SDK (\<open>BotaSDKError\<close>) or
  with the error of the private bridge.
\<close>

theorem bridge_call_typed:
  assumes "fst (bridge_call gen s c) = Inl e"
  shows "typed_error e"
proof (cases "\<exists>event. c = Call_dispatch event")
  case True
  then obtain event where c: "c = Call_dispatch event" by blast
  show ?thesis
    using assms unfolding c bridge_call_dispatch dispatch_fst
    by (auto dest: catch_private_typed split: sum.splits)
next
  case False
  with assms show ?thesis
    by (cases c)
      (auto simp: workflow_call_defs dest: catch_private_typed catch_core_typed split: sum.splits)
qed

theorem bridge_call_typed_witness:
  "\<exists>e. fst (bridge_call (\<lambda>(s :: unit) m args. (Inl (Thrown JNull), s)) ()
        (Call_dispatch \<lparr>he_requestId = 9, he_kind = H_ble_scan_stopped\<rparr>)) = Inl e \<and> typed_error e"
proof -
  obtain e where e: "fst (bridge_call (\<lambda>(s :: unit) m args. (Inl (Thrown JNull), s)) ()
      (Call_dispatch \<lparr>he_requestId = 9, he_kind = H_ble_scan_stopped\<rparr>)) = Inl e"
    by (simp only: bridge_call_dispatch dispatch_fst)
      (simp add: rawHostEvent_def rawHostEventKind_def call_effects_def catch_private_def)
  from bridge_call_typed [OF e] e show ?thesis by blast
qed
definition event_encodable :: "host_event \<Rightarrow> bool" where
  "event_encodable event \<longleftrightarrow>
     (case he_kind event of
        H_checkpoint_loaded (Some c) \<Rightarrow>
          workflow_kind_declared (wc_workflow c) \<and> operation_declared (wc_operation c)
          \<and> checkpoint_phase_declared (wc_phase c)
      | _ \<Rightarrow> True)"

lemma reverseEnumValue_Inr_iff: "(\<exists>v. reverseEnumValue x tbl = Inr v) \<longleftrightarrow> x \<in> snd ` set tbl"
proof
  assume "\<exists>v. reverseEnumValue x tbl = Inr v"
  then show "x \<in> snd ` set tbl"
    by (force simp: reverseEnumValue_def dest: find_snd_member split: option.splits prod.splits)
qed (rule reverseEnumValue_total)

lemma reverseEnumValue_Inl: "reverseEnumValue x tbl = Inl e \<Longrightarrow> e = internalBridgeError"
  by (auto simp: reverseEnumValue_def split: option.splits prod.splits)

lemma rawWorkflowCheckpoint_Inr_iff:
  "(\<exists>v. rawWorkflowCheckpoint c = Inr v) \<longleftrightarrow>
     workflow_kind_declared (wc_workflow c) \<and> operation_declared (wc_operation c)
     \<and> checkpoint_phase_declared (wc_phase c)"
  unfolding operation_declared_def workflow_kind_declared_def checkpoint_phase_declared_def
    reverseEnumValue_Inr_iff [symmetric]
  by (auto simp: rawWorkflowCheckpoint_def rbind_eq_Inr rawOperation_table rawWorkflowKind_table
      rawCheckpointPhase_table)

lemma rawWorkflowCheckpoint_Inl: "rawWorkflowCheckpoint c = Inl e \<Longrightarrow> e = internalBridgeError"
  by (auto simp: rawWorkflowCheckpoint_def rbind_eq_Inl rawOperation_table rawWorkflowKind_table
      rawCheckpointPhase_table dest: reverseEnumValue_Inl)

lemma rawHostEvent_Inr_iff: "(\<exists>v. rawHostEvent event = Inr v) \<longleftrightarrow> event_encodable event"
proof (cases "he_kind event")
  case (H_checkpoint_loaded c)
  then show ?thesis
    by (cases c) (simp_all add: rawHostEvent_def rawHostEventKind_def event_encodable_def rbind_eq_Inr
        rawWorkflowCheckpoint_Inr_iff)
qed (simp_all add: rawHostEvent_def rawHostEventKind_def event_encodable_def)

lemma rawHostEvent_Inl: "rawHostEvent event = Inl e \<Longrightarrow> e = internalBridgeError"
  by (cases "he_kind event")
    (auto simp: rawHostEvent_def rawHostEventKind_def rbind_eq_Inl dest: rawWorkflowCheckpoint_Inl
      split: option.splits)

text \<open>
  The one dispatch that never reaches the bridge is the loaded checkpoint with an undeclared
  workflow, operation or phase: it is refused with \<open>internal_error\<close> and the bridge state is
  untouched.  Every other event reaches the bridge exactly once.
\<close>

theorem dispatch_reaches_bridge:
  "if event_encodable event
   then \<exists>raw. rawHostEvent event = Inr raw
        \<and> snd (dispatch gen s event) = (snd (gen s ''dispatch'' [raw]), Some (scrubBridgeBytes raw))
   else dispatch gen s event = (Inl (SdkErr internalBridgeError), s, None)"
proof (cases "event_encodable event")
  case True
  then obtain raw where "rawHostEvent event = Inr raw" using rawHostEvent_Inr_iff by blast
  with True show ?thesis
    by (auto simp: dispatch_def call_effects_def map_fst_def split: prod.split sum.split)
next
  case False
  then obtain e where "rawHostEvent event = Inl e"
    using rawHostEvent_Inr_iff [of event] by (cases "rawHostEvent event") auto
  with False rawHostEvent_Inl [OF this] show ?thesis by (simp add: dispatch_def)
qed

text \<open>
  C33. After a dispatch no byte of the event's payload can be read back from the raw event that was
  handed to the bridge, whether the bridge returned or threw.
\<close>

theorem dispatch_scrubs_event:
  assumes "snd (snd (dispatch gen s event)) = Some raw"
    and "js_bytes n (js_at raw path) = Inr bs"
  shows "zero_bytes bs"
proof -
  from assms(1) have "scrubbed raw"
    by (auto simp: dispatch_def scrubbed_def split: sum.splits prod.splits)
  with assms(2) show ?thesis by (blast intro: js_bytes_scrubbed js_at_scrub)
qed

theorem dispatch_scrubs_event_witness:
  "zero_bytes (replicate 2 0)"
proof -
  define gen :: "unit bridge" where "gen = (\<lambda>s m args. (Inl (Thrown JNull), s))"
  define event where "event = \<lparr>he_requestId = 9, he_kind = H_ble_read_completed [3, 4]\<rparr>"
  obtain raw where raw: "rawHostEvent event = Inr raw"
    by (simp add: event_def rawHostEvent_def rawHostEventKind_def)
  have "snd (snd (dispatch gen () event)) = Some (scrubBridgeBytes raw)"
    using raw by (simp add: dispatch_def split: prod.split)
  moreover have "js_bytes None (js_at (scrubBridgeBytes raw)
      [Inl ''kind'', Inl ''Ble'', Inl ''ReadCompleted'', Inl ''value'']) = Inr (replicate 2 0)"
    using raw by (auto simp: event_def rawHostEvent_def rawHostEventKind_def bridge_object_def rawBytes_def
        js_at_def is_number_def js_bytes_def js_byte_def js_number_def max_safe_integer_def numeral_2_eq_2)
  ultimately show ?thesis by (rule dispatch_scrubs_event)
qed

end
