(* ===== verification/Spec2Isabelle.thy ===== *)
theory Spec2Isabelle
  imports BlobFacts BlobStore BrowserStorage CoreDecode CoreEncode CoreTypes DeviceDecode HonestTransfer Interaction Journals JsValue OwnerInv OwnerOps OwnerProps OwnerState OwnerThreads OwnerTokens Prelude ReceiverBounds ReceiverHistory ReceiverInvariant ReceiverProgress ReceiverProps RecordingCompletion RecordingHistory RecordingInvariant RecordingManager RecordingProgress RecordingProps RecordingUpload RecordingWorld RuntimeParts SdkErrors StorageKeys StoreHistory UploadReceiver UploadWorld WasmAdapter WorkflowStore
begin

text \<open>
  Verification library of the Bota app SDK: the browser front end under
  \<^verbatim>\<open>frameworks/web/src\<close>.

  \<^bold>\<open>The program.\<close>  The SDK drives a recording device over Web Bluetooth.  The workflow logic and the
  wire protocol live in a Rust core compiled to WebAssembly; the TypeScript around it (a) checks and
  retypes everything that crosses the boundary (\<^verbatim>\<open>wasmCore.ts\<close>, \<^verbatim>\<open>core.ts\<close>, \<^verbatim>\<open>errors.ts\<close>), (b) keeps
  the journals from which a workflow resumes in IndexedDB (\<^verbatim>\<open>indexedDbWorkflowStore.ts\<close>,
  \<^verbatim>\<open>storage.ts\<close>), (c) owns one workflow at a time and executes the effects the core asks for
  (\<^verbatim>\<open>workflowRuntime.ts\<close>), and (d) carries a recording from the device to the cloud and back to a
  confirmation (\<^verbatim>\<open>recordingManager.ts\<close>), for encrypted recordings through a receiver that repairs losses and
  resumes (\<^verbatim>\<open>encryptedUploadV2Host.ts\<close>).

  \<^bold>\<open>Theories.\<close>
  \<^item> Prelude: the result monad of fallible code (\<open>error + 'a\<close> with \<open>rbind\<close>, \<open>ensure\<close>, \<open>rtraverse\<close>)
    and the interfaces \<open>codec\<close> and \<open>strict_codec\<close> of a parser with its printer.
  \<^item> JsValue: JavaScript values with own and inherited properties, safe integers and UTF-16 strings.
  \<^item> SdkErrors: \<^verbatim>\<open>errors.ts\<close>, the public and private error classes and the normalisers between them.
  \<^item> CoreTypes: the types of \<^verbatim>\<open>core.ts\<close> and \<^verbatim>\<open>models.ts\<close> that cross the boundary.
  \<^item> CoreDecode, DeviceDecode: the decoding half of \<^verbatim>\<open>wasmCore.ts\<close>, effects and device values; what an
    accepted value satisfies, and that payload bytes are wiped from the bridge value.
  \<^item> CoreEncode, WasmAdapter: the encoding half and the calls of the adapter class over an arbitrary
    generated bridge, which is a parameter: a function from a state, a method name and
    arguments to an exception or a value and a new state.
  \<^item> StorageKeys, Journals, WorkflowStore, StoreHistory: the store.  Keys and namespace ranges;
    the persisted records with their parsers and the rules for replacing one by the next; the
    operations as transactions on object stores (association lists sorted by key); and
    histories of operations from an empty database with the invariants they keep.  The replacement of an
    encrypted upload compares revisions as JavaScript does, NaN included.
  \<^item> BlobStore: \<^verbatim>\<open>opfsBlobStore.ts\<close>, files of bytes over a file system that may fail at each call, and the lock
    of a blob as a chain of tasks; every mutation is checked in one step and written in the
    next, and refines an operation on byte strings.  BrowserStorage: \<^verbatim>\<open>storage.ts\<close>, the two stores of a
    namespace as one.
  \<^item> RuntimeParts: the pure parts of the runtime, among them routing, wiping and progress.
  \<^item> OwnerState, OwnerThreads: \<open>BrowserWorkflowRuntime\<close> with its owners.  A thread is the promise an
    \<open>async\<close> function waits for with the continuations behind it; \<open>act\<close> is one step of the event
    loop (a promise settles, a continuation runs, a timer fires, a host or a client calls) and
    \<open>reachable\<close> the states of all histories.  Every schedule is allowed, also those the order
    of microtasks excludes, so what is proved of all reachable states holds of the program.
  \<^item> OwnerInv, OwnerOps: the abstract specification of a history (\<open>trace_ok\<close>), the invariant of
    owners, log and threads, and its preservation by every operation.  The log also keeps what becomes of
    bytes (dropped, given up after a write, returned too late) and what an observer is told of progress.
  \<^item> OwnerTokens: what may happen once, as an interface (\<open>token_budget\<close>) with two instances.
  \<^item> OwnerProps: the properties of the runtime, with histories as witnesses.

  \<^item> Interaction: programs of a state that may fail or be cut off, with triples over their three ends and
    the interface \<open>world_frame\<close> of what a program leaves alone.
  \<^item> RecordingWorld, RecordingManager: \<^verbatim>\<open>recordingManager.ts\<close> with the legacy profile.  At each \<open>await\<close> the
    world supplies an answer (what the device, the provider, the network, the core, the store and
    the user do then), and may end the run there, as closing the page does; a log keeps what was
    transferred, sent, declared complete and confirmed.
  \<^item> RecordingInvariant, RecordingUpload, RecordingHistory: what the journals, the blobs and the log of all
    histories of operations satisfy, whatever the answers are.
  \<^item> RecordingProgress, RecordingCompletion: honest answers, and that with them each operation ends well.
  \<^item> RecordingProps: the properties of the manager, with a scene in which their hypotheses hold.

  \<^item> BlobFacts: what single calls of a blob do, in any environment and in one that answers.
  \<^item> UploadWorld, UploadReceiver: the receiver of an encrypted upload (\<^verbatim>\<open>encryptedUploadV2Host.ts\<close>), which collects the packets of
    a window in any order, asks for what is missing, writes a complete window to the blob and acknowledges
    it once its checkpoint has been saved.
  \<^item> ReceiverInvariant: which bytes of the blob the checkpoint and a pending window stand for, after every frame, also
    one that fails; ReceiverHistory: the same over any number of frames, closed pages and new receivers;
    ReceiverBounds: what a receiver holds in memory.
  \<^item> ReceiverProgress, HonestTransfer: a file system that answers, a device that keeps to the protocol, and that a
    transfer from the beginning between them is completed.  ReceiverProps: the properties, and that such a transfer is a history.

  \<^bold>\<open>Conventions.\<close>  A thrown error is \<open>Inl\<close>, a result \<open>Inr\<close>; the order of checks is the order of the
  code.  Strings are lists of 16-bit units, byte arrays lists of 8-bit words, \<open>number\<close> is an
  integer, NaN, an infinity or a binary fraction (\<open>JNonInt\<close>), \<open>bigint\<close> an integer.  A lookup of a key in an object
  literal finds the members of \<open>Object.prototype\<close> too; such results are the \<open>inherited\<close>
  constructors.  An IndexedDB transaction is atomic; whether opening or committing fails is an
  input (\<open>idb_env\<close>).  \<open>localeCompare\<close> is a parameter.

  \<^bold>\<open>Not modelled.\<close>  The Rust core and its bindings, the Swift, Kotlin and Dart front ends, generated
  code, and, so far, the other managers over the runtime, of the encrypted profile everything around
  its receiver, and the React Native front end.  Of the recording manager one operation runs at a time.  In the
  runtime: observers and disconnect listeners are taken to act in a later step only; a payload and the
  copy of it that a write hands to the transport are one value, as they are zeroed together.
\<close>

end
